(* ===== verification/Prelude.thy ===== *)
theory Prelude
  imports Main "HOL-Library.Signed_Division"
begin

text \<open>
  Shared vocabulary of the development.

  The program is a Soroban contract: every entry point reads and writes the contract's
  key-value storage, may publish events, may refuse with a typed error (\<open>Err\<close>) and may trap
  (\<open>Panic\<close>: a failed \<open>require_auth\<close>, an \<open>unwrap\<close> of nothing, or a plain arithmetic operator
  that overflows, since the release profile of \<open>Cargo.toml\<close> sets \<open>overflow-checks = true\<close>).
  This theory holds

  \<^item> the machine integers: unsigned ones are \<open>nat\<close> and \<open>i128\<close> is \<open>int\<close>, with every
    range check of the checked, saturating and trapping operators written out;
  \<^item> the invocation environment (ledger time, ledger sequence, granted authorisations);
  \<^item> outcomes, sequencing of operations and the transaction boundary;
  \<^item> the fold of a storage map (\<open>msum\<close>), used to state conservation of balances;
  \<^item> the interfaces (locales) that several components implement: counters that allocate
    identifiers, balance ledgers, and step systems with an invariant.
\<close>

named_theorems ok_iff "when an operation succeeds, and the state it leaves"
named_theorems ok_rules "success of one construct: a guard, a lookup, a sequenced call"
named_theorems frame "storage an operation does not write"
named_theorems store_defs "storage accessors to unfold"

section \<open>Machine integers\<close>

type_synonym u32 = nat
type_synonym u64 = nat
type_synonym i128 = int

abbreviation u32_max :: nat where "u32_max \<equiv> 4294967295"
abbreviation u64_max :: nat where "u64_max \<equiv> 18446744073709551615"
abbreviation i128_max :: int where "i128_max \<equiv> 170141183460469231731687303715884105727"
abbreviation i128_min :: int where "i128_min \<equiv> - 170141183460469231731687303715884105728"

text \<open>Unsigned operators take the largest value of their type as first argument.\<close>

definition checked_add :: "nat \<Rightarrow> nat \<Rightarrow> nat \<Rightarrow> nat option" where
  "checked_add mx a b = (if a + b \<le> mx then Some (a + b) else None)"

definition checked_mul :: "nat \<Rightarrow> nat \<Rightarrow> nat \<Rightarrow> nat option" where
  "checked_mul mx a b = (if a * b \<le> mx then Some (a * b) else None)"

definition checked_sub :: "nat \<Rightarrow> nat \<Rightarrow> nat option" where
  "checked_sub a b = (if b \<le> a then Some (a - b) else None)"

definition checked_div :: "nat \<Rightarrow> nat \<Rightarrow> nat option" where
  "checked_div a b = (if b = 0 then None else Some (a div b))"

definition saturating_add :: "nat \<Rightarrow> nat \<Rightarrow> nat \<Rightarrow> nat" where
  "saturating_add mx a b = min mx (a + b)"

definition saturating_mul :: "nat \<Rightarrow> nat \<Rightarrow> nat \<Rightarrow> nat" where
  "saturating_mul mx a b = min mx (a * b)"

definition saturating_sub :: "nat \<Rightarrow> nat \<Rightarrow> nat" where
  "saturating_sub a b = a - b"

text \<open>\<open>i128\<close>: a result outside the range is \<open>None\<close> (checked), a trap (plain operator) or
  clamped (saturating). Division truncates towards zero.\<close>

definition in_i128 :: "int \<Rightarrow> bool" where
  "in_i128 x \<longleftrightarrow> i128_min \<le> x \<and> x \<le> i128_max"

definition ck :: "int \<Rightarrow> int option" where
  "ck x = (if in_i128 x then Some x else None)"

definition sat :: "int \<Rightarrow> int" where
  "sat x = max i128_min (min i128_max x)"

definition tdiv :: "int \<Rightarrow> int \<Rightarrow> int option" where
  "tdiv a b = (if b = 0 then None else ck (a sdiv b))"

lemma checked_add_Some [simp]: "checked_add mx a b = Some c \<longleftrightarrow> c = a + b \<and> c \<le> mx"
  by (auto simp: checked_add_def)

lemma checked_mul_Some [simp]: "checked_mul mx a b = Some c \<longleftrightarrow> c = a * b \<and> c \<le> mx"
  by (auto simp: checked_mul_def)

lemma checked_sub_Some [simp]: "checked_sub a b = Some c \<longleftrightarrow> b \<le> a \<and> c = a - b"
  by (auto simp: checked_sub_def)

lemma checked_div_Some [simp]: "checked_div a b = Some c \<longleftrightarrow> b \<noteq> 0 \<and> c = a div b"
  by (auto simp: checked_div_def)

lemma checked_add_None [simp]: "checked_add mx a b = None \<longleftrightarrow> mx < a + b"
  by (auto simp: checked_add_def)

lemma checked_mul_None [simp]: "checked_mul mx a b = None \<longleftrightarrow> mx < a * b"
  by (auto simp: checked_mul_def)

lemma checked_sub_None [simp]: "checked_sub a b = None \<longleftrightarrow> a < b"
  by (auto simp: checked_sub_def)

lemma ck_Some [simp]: "ck x = Some y \<longleftrightarrow> y = x \<and> in_i128 x"
  by (auto simp: ck_def)

lemma ck_None [simp]: "ck x = None \<longleftrightarrow> \<not> in_i128 x"
  by (auto simp: ck_def)

lemma sat_in_i128 [simp]: "in_i128 (sat x)"
  by (auto simp: in_i128_def sat_def)

lemma sat_id: "in_i128 x \<Longrightarrow> sat x = x"
  by (auto simp: in_i128_def sat_def)

lemma in_i128_small: "0 \<le> x \<Longrightarrow> x \<le> i128_max \<Longrightarrow> in_i128 x"
  by (simp add: in_i128_def)

lemma sdiv_nonneg: "0 \<le> a \<Longrightarrow> 0 < b \<Longrightarrow> a sdiv b = (a::int) div b"
  by (simp add: signed_divide_int_def sgn_if)

lemma tdiv_nonneg: "0 \<le> a \<Longrightarrow> 0 < b \<Longrightarrow> in_i128 a \<Longrightarrow> tdiv a b = Some (a div b)"
proof -
  assume a: "0 \<le> a" and b: "0 < b" and r: "in_i128 a"
  have "a div b \<le> a" using a b zdiv_mono2[of a 1 b] by simp
  moreover have "0 \<le> a div b" using a b by (simp add: pos_imp_zdiv_nonneg_iff)
  ultimately show ?thesis using a b r by (auto simp: tdiv_def sdiv_nonneg ck_def in_i128_def)
qed

section \<open>Invocation environment, outcomes and sequencing\<close>

text \<open>The SDK's \<open>Address\<close> is compared for equality only; a \<open>Symbol\<close> and a \<open>Bytes\<close> value are
  strings of bytes.\<close>

datatype address = Addr nat
type_synonym symbol = string
type_synonym bytes = string

text \<open>What the host tells an invocation: \<open>env.ledger().timestamp()\<close>,
  \<open>env.ledger().sequence()\<close>, and the addresses whose \<open>require_auth\<close> succeeds.\<close>

record env =
  timestamp :: u64
  sequence :: u32
  auth :: "address \<Rightarrow> bool"

text \<open>The environment of the concrete runs in this development: everybody has signed.\<close>

definition signed_at :: "u64 \<Rightarrow> u32 \<Rightarrow> env" where
  "signed_at now seq = \<lparr>timestamp = now, sequence = seq, auth = (\<lambda>_. True)\<rparr>"

lemma signed_at_simps [simp]:
  "timestamp (signed_at now seq) = now" "sequence (signed_at now seq) = seq" "auth (signed_at now seq) a"
  by (simp_all add: signed_at_def)

text \<open>Values carried by published events.\<close>

datatype sval = SU nat | SI int | SA address | SS symbol | SB bool

type_synonym event = "sval list \<times> sval list"

record host =
  events :: "event list"

definition publish :: "sval list \<Rightarrow> sval list \<Rightarrow> 'a host_scheme \<Rightarrow> 'a host_scheme" where
  "publish topics data s = s\<lparr>events := events s @ [(topics, data)]\<rparr>"

datatype ('e, 'a) outcome = Ok 'a | Err 'e | Panic

text \<open>\<open>and_then\<close> is Rust's \<open>?\<close> on a call that threads the storage; \<open>map_err\<close> converts the
  error of a call (\<open>Result::map_err\<close>, \<open>From\<close>).\<close>

definition and_then ::
  "('e, 'a) outcome \<times> 's \<Rightarrow> ('a \<Rightarrow> 's \<Rightarrow> ('e, 'b) outcome \<times> 's) \<Rightarrow> ('e, 'b) outcome \<times> 's" where
  "and_then m k = (case m of (Ok a, s) \<Rightarrow> k a s | (Err e, s) \<Rightarrow> (Err e, s) | (Panic, s) \<Rightarrow> (Panic, s))"

definition map_err :: "('e \<Rightarrow> 'f) \<Rightarrow> ('e, 'a) outcome \<times> 's \<Rightarrow> ('f, 'a) outcome \<times> 's" where
  "map_err f m = (case m of (Ok a, s) \<Rightarrow> (Ok a, s) | (Err e, s) \<Rightarrow> (Err (f e), s) | (Panic, s) \<Rightarrow> (Panic, s))"

definition unwrap_or :: "'a option \<Rightarrow> 'a \<Rightarrow> 'a" where
  "unwrap_or m d = (case m of None \<Rightarrow> d | Some v \<Rightarrow> v)"

text \<open>A top-level invocation commits its writes only when it returns \<open>Ok\<close>: the host rolls the
  storage back when a call ends in an error or a trap.\<close>

definition transact :: "('s \<Rightarrow> ('e, 'a) outcome \<times> 's) \<Rightarrow> 's \<Rightarrow> ('e, 'a) outcome \<times> 's" where
  "transact f s = (case f s of (Ok a, s') \<Rightarrow> (Ok a, s') | (r, _) \<Rightarrow> (r, s))"

definition commits :: "('s \<Rightarrow> ('e, 'a) outcome \<times> 's) \<Rightarrow> 's \<Rightarrow> 's \<Rightarrow> bool" where
  "commits f s s' \<longleftrightarrow> (case f s of (Ok _, t) \<Rightarrow> s' = t | _ \<Rightarrow> False)"

lemma unwrap_or_simps [simp]: "unwrap_or None d = d" "unwrap_or (Some v) d = v"
  by (simp_all add: unwrap_or_def)

lemma and_then_simps [simp]:
  "and_then (Ok a, s) k = k a s"
  "and_then (Err e, s) k = (Err e, s)"
  "and_then (Panic, s) k = (Panic, s)"
  by (simp_all add: and_then_def)

lemma map_err_simps [simp]:
  "map_err f (Ok a, s) = (Ok a, s)"
  "map_err f (Err e, s) = (Err (f e), s)"
  "map_err f (Panic, s) = (Panic, s)"
  by (simp_all add: map_err_def)

lemma and_then_Ok [ok_iff]:
  "and_then m k = (Ok b, s') \<longleftrightarrow> (\<exists>a t. m = (Ok a, t) \<and> k a t = (Ok b, s'))"
  by (cases m; cases "fst m") (auto simp: and_then_def)

lemma map_err_Ok [ok_iff]: "map_err f m = (Ok b, s') \<longleftrightarrow> m = (Ok b, s')"
  by (cases m; cases "fst m") (auto simp: map_err_def)

text \<open>Reading off when an operation succeeds, construct by construct: a guard with an early return
  did not fire, a lookup found a value, the final expression is the result.\<close>

lemma ok_guard [ok_rules]:
  "(if c then (Err e, t) else x) = (Ok r, s') \<longleftrightarrow> \<not> c \<and> x = (Ok r, s')"
  "(if c then (Panic, t) else x) = (Ok r, s') \<longleftrightarrow> \<not> c \<and> x = (Ok r, s')"
  by auto

lemma ok_lookup [ok_rules]:
  "(case m of None \<Rightarrow> (Err e, t) | Some v \<Rightarrow> f v) = (Ok r, s') \<longleftrightarrow> (\<exists>v. m = Some v \<and> f v = (Ok r, s'))"
  "(case m of None \<Rightarrow> (Panic, t) | Some v \<Rightarrow> f v) = (Ok r, s') \<longleftrightarrow> (\<exists>v. m = Some v \<and> f v = (Ok r, s'))"
  by (auto split: option.splits)

lemma ok_result [ok_rules]: "(Ok a, t) = (Ok r, s') \<longleftrightarrow> r = a \<and> s' = t"
  by auto

lemma ok_none [ok_rules]: "(Err e, t) \<noteq> (Ok r, s')" "(Panic, t) \<noteq> (Ok r, s')"
  by simp_all

declare and_then_Ok [ok_rules] map_err_Ok [ok_rules]

lemma commits_iff: "commits f s s' \<longleftrightarrow> (\<exists>r. f s = (Ok r, s'))"
  by (auto simp: commits_def split: prod.splits outcome.splits)

lemma commitsE: "commits f s s' \<Longrightarrow> (\<And>r. f s = (Ok r, s') \<Longrightarrow> P) \<Longrightarrow> P"
  by (auto simp: commits_iff)

lemma commitsI: "f s = (Ok r, s') \<Longrightarrow> commits f s s'"
  by (simp add: commits_def)

text \<open>The storage after a call that returned \<open>Ok\<close>.\<close>

definition committed :: "('e, 'a) outcome \<times> 's \<Rightarrow> 's option" where
  "committed m = (case m of (Ok _, s) \<Rightarrow> Some s | _ \<Rightarrow> None)"

lemma committed_Some [simp]: "committed m = Some s' \<longleftrightarrow> (\<exists>r. m = (Ok r, s'))"
  by (auto simp: committed_def split: prod.splits outcome.splits)

lemma transact_commits: "snd (transact f s) = s \<or> commits f s (snd (transact f s))"
  by (auto simp: transact_def commits_iff split: prod.splits outcome.splits)

lemma publish_host [simp]: "events (publish t d s) = events s @ [(t, d)]"
  by (simp add: publish_def)

section \<open>Sums over a storage map\<close>

text \<open>The total held in a map of balances; an absent key counts as zero.\<close>

definition msum :: "('k \<rightharpoonup> 'v::comm_monoid_add) \<Rightarrow> 'v" where
  "msum m = (\<Sum>k\<in>dom m. the (m k))"

lemma msum_empty [simp]: "msum Map.empty = 0"
  by (simp add: msum_def)

lemma msum_upd:
  assumes "finite (dom m)"
  shows "msum (m(k \<mapsto> v)) + unwrap_or (m k) 0 = msum m + v"
proof -
  have split: "(\<Sum>j\<in>dom m. the (m j)) = unwrap_or (m k) 0 + (\<Sum>j\<in>dom m - {k}. the (m j))"
    using assms by (cases "k \<in> dom m") (auto simp: sum.remove domIff)
  have "msum (m(k \<mapsto> v)) = v + (\<Sum>j\<in>dom m - {k}. the ((m(k \<mapsto> v)) j))"
    using assms by (simp add: msum_def sum.insert_remove)
  also have "(\<Sum>j\<in>dom m - {k}. the ((m(k \<mapsto> v)) j)) = (\<Sum>j\<in>dom m - {k}. the (m j))"
    by (rule sum.cong) auto
  finally have "msum (m(k \<mapsto> v)) = v + (\<Sum>j\<in>dom m - {k}. the (m j))" .
  with split show ?thesis unfolding msum_def[of m] by (simp only: ac_simps)
qed

lemma msum_delete:
  assumes "finite (dom m)"
  shows "msum (m(k := None)) + unwrap_or (m k) 0 = msum m"
proof -
  have "msum (m(k := None)) = (\<Sum>j\<in>dom m - {k}. the (m j))"
    by (auto simp: msum_def intro!: sum.cong)
  moreover have "(\<Sum>j\<in>dom m. the (m j)) = unwrap_or (m k) 0 + (\<Sum>j\<in>dom m - {k}. the (m j))"
    using assms by (cases "k \<in> dom m") (auto simp: sum.remove domIff)
  ultimately show ?thesis by (simp add: msum_def ac_simps)
qed

lemma msum_ge:
  fixes m :: "'k \<rightharpoonup> nat"
  assumes "finite (dom m)"
  shows "unwrap_or (m k) 0 \<le> msum m"
  using msum_delete[OF assms, of k] by simp

lemma msum_ge_int:
  fixes m :: "'k \<rightharpoonup> int"
  assumes "finite (dom m)" "\<And>k. 0 \<le> unwrap_or (m k) 0"
  shows "unwrap_or (m k) 0 \<le> msum m"
proof -
  have "0 \<le> the (m j)" if "m j \<noteq> None" for j using that assms(2)[of j] by auto
  then have "0 \<le> msum (m(k := None))" unfolding msum_def by (intro sum_nonneg) auto
  with msum_delete[OF assms(1), of k] show ?thesis by linarith
qed

lemma msum_move:
  fixes m :: "'k \<rightharpoonup> nat"
  assumes "finite (dom m)" "a \<noteq> b" "x \<le> unwrap_or (m a) 0"
  shows "msum (m(a \<mapsto> unwrap_or (m a) 0 - x, b \<mapsto> unwrap_or (m b) 0 + x)) = msum m"
proof -
  let ?m = "m(a \<mapsto> unwrap_or (m a) 0 - x)"
  have 1: "msum ?m + unwrap_or (m a) 0 = msum m + (unwrap_or (m a) 0 - x)"
    using assms(1) by (rule msum_upd)
  have "msum (?m(b \<mapsto> unwrap_or (m b) 0 + x)) + unwrap_or (?m b) 0 = msum ?m + (unwrap_or (m b) 0 + x)"
    by (rule msum_upd) (use assms(1) in simp)
  with assms(2) have 2: "msum (?m(b \<mapsto> unwrap_or (m b) 0 + x)) = msum ?m + x" by simp
  from 1 2 assms(3) show ?thesis by simp
qed

section \<open>Tables keyed by allocated identifiers\<close>

text \<open>Every key lies between 1 and the counter \<open>c\<close>, and every entry satisfies \<open>P\<close> at its key.\<close>

definition tbl_ok :: "(nat \<Rightarrow> 'v \<Rightarrow> bool) \<Rightarrow> nat \<Rightarrow> (nat \<rightharpoonup> 'v) \<Rightarrow> bool" where
  "tbl_ok P c m \<longleftrightarrow> (\<forall>i v. m i = Some v \<longrightarrow> 0 < i \<and> i \<le> c \<and> P i v)"

lemma tbl_ok_empty [simp]: "tbl_ok P c Map.empty"
  by (simp add: tbl_ok_def)

lemma tbl_ok_get: "tbl_ok P c m \<Longrightarrow> m i = Some v \<Longrightarrow> P i v"
  by (simp add: tbl_ok_def)

lemma tbl_ok_bound: "tbl_ok P c m \<Longrightarrow> m i = Some v \<Longrightarrow> i \<le> c"
  by (simp add: tbl_ok_def)

lemma tbl_ok_fresh: "tbl_ok P c m \<Longrightarrow> m (Suc c) = None"
  using tbl_ok_bound[of P c m "Suc c"] by (cases "m (Suc c)") auto

lemma tbl_ok_new: "tbl_ok P c m \<Longrightarrow> P (Suc c) v \<Longrightarrow> tbl_ok P (Suc c) (m(Suc c \<mapsto> v))"
  by (auto simp: tbl_ok_def le_SucI)

lemma tbl_ok_upd: "tbl_ok P c m \<Longrightarrow> m i = Some v \<Longrightarrow> P i v' \<Longrightarrow> tbl_ok P c (m(i \<mapsto> v'))"
  by (auto simp: tbl_ok_def)

lemma tbl_ok_del: "tbl_ok P c m \<Longrightarrow> tbl_ok P c (m(i := None))"
  by (auto simp: tbl_ok_def)

lemma tbl_ok_keep: "tbl_ok P c m \<Longrightarrow> m i = Some v \<Longrightarrow> i \<noteq> Suc c"
  using tbl_ok_bound[of P c m i v] by auto

section \<open>Interfaces\<close>

text \<open>
  A counter that allocates identifiers: every module keeps one under its own key
  (\<open>ShipCounter\<close>, \<open>VaultCounter\<close>, \<open>BondCounter\<close>, \<open>OrderCounter\<close>, \<open>PoolCounter\<close>,
  \<open>DexOfferCounter\<close>). What its clients rely on: an allocated identifier is one more than the
  last one and the counter moves to it.
\<close>

locale id_counter =
  fixes last_id :: "'s \<Rightarrow> nat"
    and alloc :: "'s \<Rightarrow> (nat \<times> 's) option"
  assumes alloc_next: "alloc s = Some (i, s') \<Longrightarrow> i = Suc (last_id s)"
    and alloc_last: "alloc s = Some (i, s') \<Longrightarrow> last_id s' = i"
begin

lemma alloc_fresh: "alloc s = Some (i, s') \<Longrightarrow> last_id s < i"
  by (drule alloc_next) simp

lemma alloc_twice_distinct:
  "alloc s = Some (i, s') \<Longrightarrow> last_id s' \<le> last_id t \<Longrightarrow> alloc t = Some (j, t') \<Longrightarrow> i < j"
  using alloc_next[of t j t'] alloc_last[of s i s'] by simp

text \<open>Identifiers at or below the counter are the ones in use, so a new one is unused.\<close>

lemma alloc_unused:
  "\<forall>k\<in>used. k \<le> last_id s \<Longrightarrow> alloc s = Some (i, s') \<Longrightarrow> i \<notin> used"
  by (drule alloc_fresh) (meson leD)

lemma alloc_bounds_used:
  "\<forall>k\<in>used. k \<le> last_id s \<Longrightarrow> alloc s = Some (i, s') \<Longrightarrow> \<forall>k\<in>insert i used. k \<le> last_id s'"
  using alloc_next[of s i s'] alloc_last[of s i s'] by auto

end

text \<open>
  A ledger of unsigned balances: crediting adds, debiting subtracts or refuses, and neither
  touches another holder. A transfer composed of the two conserves the two balances' sum.
\<close>

locale balance_ledger =
  fixes bal :: "'s \<Rightarrow> 'k \<Rightarrow> nat"
    and credit :: "'s \<Rightarrow> 'k \<Rightarrow> nat \<Rightarrow> 's option"
    and debit :: "'s \<Rightarrow> 'k \<Rightarrow> nat \<Rightarrow> 's option"
    and limit :: nat
  assumes credit_bal: "credit s k n = Some s' \<Longrightarrow> bal s' j = bal s j + (if j = k then n else 0)"
    and credit_limit: "credit s k n = None \<Longrightarrow> limit < bal s k + n"
    and debit_bal: "debit s k n = Some s' \<Longrightarrow> n \<le> bal s k \<and> bal s' j = bal s j - (if j = k then n else 0)"
    and debit_short: "debit s k n = None \<Longrightarrow> bal s k < n"
begin

lemma transfer_conserves:
  "debit s a n = Some t \<Longrightarrow> credit t b n = Some u \<Longrightarrow> a \<noteq> b \<Longrightarrow> bal u a + bal u b = bal s a + bal s b"
  using debit_bal[of s a n t a] debit_bal[of s a n t b] credit_bal[of t b n u a] credit_bal[of t b n u b]
  by simp

lemma transfer_others:
  "debit s a n = Some t \<Longrightarrow> credit t b n = Some u \<Longrightarrow> j \<noteq> a \<Longrightarrow> j \<noteq> b \<Longrightarrow> bal u j = bal s j"
  using debit_bal[of s a n t j] credit_bal[of t b n u j] by simp

lemma transfer_enabled:
  "n \<le> bal s a \<Longrightarrow> bal s b + n \<le> limit \<Longrightarrow> a \<noteq> b \<Longrightarrow> \<exists>t u. debit s a n = Some t \<and> credit t b n = Some u"
proof -
  assume n: "n \<le> bal s a" and l: "bal s b + n \<le> limit" and ab: "a \<noteq> b"
  from n obtain t where t: "debit s a n = Some t" using debit_short[of s a n] by (cases "debit s a n") auto
  then have "bal t b = bal s b" using debit_bal[of s a n t b] ab by simp
  with l obtain u where "credit t b n = Some u" using credit_limit[of t b n] by (cases "credit t b n") auto
  with t show ?thesis by blast
qed

lemma credit_debit_roundtrip:
  "credit s k n = Some t \<Longrightarrow> debit t k n = Some u \<Longrightarrow> bal u j = bal s j"
  using debit_bal[of t k n u j] credit_bal[of s k n t j] by simp

end

text \<open>
  A component as a step system: one step is one committed invocation. What holds initially
  and is kept by every step holds after any sequence of invocations, in any order.
\<close>

locale step_system =
  fixes step :: "'s \<Rightarrow> 's \<Rightarrow> bool"
    and inv :: "'s \<Rightarrow> bool"
  assumes step_inv: "inv s \<Longrightarrow> step s s' \<Longrightarrow> inv s'"
begin

lemma run_inv: "step\<^sup>*\<^sup>* s s' \<Longrightarrow> inv s \<Longrightarrow> inv s'"
  by (induction rule: rtranclp_induct) (auto intro: step_inv)

end

text \<open>A sequence of committed invocations together with the environments they ran in.\<close>

inductive runs :: "('l \<Rightarrow> 's \<Rightarrow> 's \<Rightarrow> bool) \<Rightarrow> 'l list \<Rightarrow> 's \<Rightarrow> 's \<Rightarrow> bool" for step where
  runs_nil: "runs step [] s s"
| runs_snoc: "runs step ls s t \<Longrightarrow> step l t u \<Longrightarrow> runs step (ls @ [l]) s u"

lemma runs_single: "step l s t \<Longrightarrow> runs step [l] s t"
  using runs_snoc[OF runs_nil] by simp

lemma runs_steps: "runs step ls s t \<Longrightarrow> (\<lambda>s t. \<exists>l. step l s t)\<^sup>*\<^sup>* s t"
  by (induction rule: runs.induct) (auto intro: rtranclp.rtrancl_into_rtrancl)

text \<open>A step system with a measure that never decreases along steps that start in the invariant.\<close>

locale monotone_system = step_system step inv
  for step :: "'s \<Rightarrow> 's \<Rightarrow> bool" and inv :: "'s \<Rightarrow> bool" +
  fixes level :: "'s \<Rightarrow> 'v::preorder"
  assumes step_mono: "inv s \<Longrightarrow> step s s' \<Longrightarrow> level s \<le> level s'"
begin

lemma run_mono: "step\<^sup>*\<^sup>* s s' \<Longrightarrow> inv s \<Longrightarrow> level s \<le> level s'"
proof (induction rule: rtranclp_induct)
  case base
  show ?case by simp
next
  case (step t u)
  then show ?case using run_inv step_mono order_trans by blast
qed

end

end
