(* ===== verification/Reentrancy_Guard.thy ===== *)
theory Reentrancy_Guard
  imports Prelude
begin

text \<open>
  \<open>src/reentrancy_guard.rs\<close>: the contract-wide lock in instance storage that every
  value-moving entry point takes through \<open>with_guard\<close>. The lock is the first field of the
  contract's storage record; the storage of each further component extends it. The locale
  \<open>mutex\<close> states what a guarded section relies on; it is interpreted here on the global lock and
  in the ship component on that module's own lock.
\<close>

section \<open>Model\<close>

record guard_store = host +
  guard_lock :: "bool option"

datatype ReentrancyError = ReentrantCall

definition is_locked :: "'a guard_store_scheme \<Rightarrow> bool" where
  "is_locked s = unwrap_or (guard_lock s) False"

definition acquire :: "'a guard_store_scheme \<Rightarrow> (ReentrancyError, unit) outcome \<times> 'a guard_store_scheme" where
  "acquire s = (if unwrap_or (guard_lock s) False then (Err ReentrantCall, s)
     else (Ok (), s\<lparr>guard_lock := Some True\<rparr>))"

definition release :: "'a guard_store_scheme \<Rightarrow> 'a guard_store_scheme" where
  "release s = s\<lparr>guard_lock := Some False\<rparr>"

text \<open>A body that traps aborts the invocation, so the release is not reached.\<close>

definition with_guard ::
  "(ReentrancyError \<Rightarrow> 'e) \<Rightarrow>
   ('a guard_store_scheme \<Rightarrow> ('e, 'b) outcome \<times> 'a guard_store_scheme) \<Rightarrow>
   'a guard_store_scheme \<Rightarrow> ('e, 'b) outcome \<times> 'a guard_store_scheme" where
  "with_guard from_reentrancy body s = and_then (map_err from_reentrancy (acquire s)) (\<lambda>_ s1.
     case body s1 of
       (Panic, s2) \<Rightarrow> (Panic, s2)
     | (result, s2) \<Rightarrow> (result, release s2))"

section \<open>The mutual-exclusion interface\<close>

locale mutex =
  fixes held :: "'s \<Rightarrow> bool"
    and take_lock :: "'s \<Rightarrow> 's option"
    and drop_lock :: "'s \<Rightarrow> 's"
    and rest :: "'s \<Rightarrow> 'r"
  assumes take_None: "take_lock s = None \<longleftrightarrow> held s"
    and take_held: "take_lock s = Some t \<Longrightarrow> held t"
    and take_rest: "take_lock s = Some t \<Longrightarrow> rest t = rest s"
    and drop_free: "\<not> held (drop_lock s)"
    and drop_rest: "rest (drop_lock s) = rest s"
begin

definition guarded :: "('s \<Rightarrow> 'b \<times> 's) \<Rightarrow> 's \<Rightarrow> ('b option \<times> 's)" where
  "guarded body s = (case take_lock s of
      None \<Rightarrow> (None, s)
    | Some t \<Rightarrow> (case body t of (r, u) \<Rightarrow> (Some r, drop_lock u)))"

lemma guarded_held: "held s \<Longrightarrow> guarded body s = (None, s)"
  using take_None[of s] by (simp add: guarded_def)

lemma guarded_frees: "\<not> held s \<Longrightarrow> guarded body s = (r, u) \<Longrightarrow> \<not> held u"
  using take_None[of s] by (auto simp: guarded_def drop_free split: option.splits prod.splits)

text \<open>A section entered from inside a section is refused and leaves the rest alone.\<close>

lemma guarded_nested:
  assumes "\<not> held s"
  shows "\<exists>u. guarded (guarded body) s = (Some None, u) \<and> rest u = rest s \<and> \<not> held u"
proof -
  from assms obtain t where t: "take_lock s = Some t" using take_None[of s] by (cases "take_lock s") auto
  then have "guarded body t = (None, t)" using take_held guarded_held by blast
  with t show ?thesis using take_rest[OF t] by (auto simp: guarded_def drop_rest drop_free)
qed

end

interpretation global_lock: mutex is_locked
  "\<lambda>s. case acquire s of (Ok _, t) \<Rightarrow> Some t | _ \<Rightarrow> None" release
  "\<lambda>s::'a guard_store_scheme. (events s, guard_store.more s)"
  by unfold_locales (auto simp: acquire_def is_locked_def release_def split: if_splits)

section \<open>Lemmas\<close>

lemma with_guard_locked: "is_locked s \<Longrightarrow> with_guard f body s = (Err (f ReentrantCall), s)"
  by (simp add: with_guard_def acquire_def is_locked_def)

lemma with_guard_Ok [ok_iff, ok_rules]:
  "with_guard f body s = (Ok r, s') \<longleftrightarrow>
    \<not> is_locked s \<and> (\<exists>t. body (s\<lparr>guard_lock := Some True\<rparr>) = (Ok r, t) \<and> s' = t\<lparr>guard_lock := Some False\<rparr>)"
  by (auto simp: with_guard_def acquire_def is_locked_def release_def
      split: prod.splits outcome.splits if_splits)

lemma with_guard_Err:
  "\<not> is_locked s \<Longrightarrow> body (s\<lparr>guard_lock := Some True\<rparr>) = (Err e, t) \<Longrightarrow>
   with_guard f body s = (Err e, t\<lparr>guard_lock := Some False\<rparr>)"
  by (simp add: with_guard_def acquire_def is_locked_def release_def)

lemma guard_lock_publish [simp]: "guard_lock (publish t d s) = guard_lock s"
  by (simp add: publish_def)

lemma is_locked_upd [simp]: "is_locked (s\<lparr>guard_lock := Some b\<rparr>) = b"
  by (simp add: is_locked_def)

section \<open>Properties\<close>

text \<open>C1. Reentrancy is refused, and a guarded section never leaves the lock behind. A guarded
  entry point called while the lock is held (from inside the same or another guarded section)
  returns its \<open>Reentrancy\<close> error without running its body and without changing the storage; the
  outer section then reports that error. A section entered with the lock free runs its body with
  the lock held and ends, whether it succeeds or returns an error, with the body's result, the
  body's writes, and the lock free.\<close>

theorem guard_mutual_exclusion:
  assumes free: "\<not> is_locked s"
    and body: "body (s\<lparr>guard_lock := Some True\<rparr>) = (r, t)" and ends: "r \<noteq> Panic"
  shows "with_guard g inner (s\<lparr>guard_lock := Some True\<rparr>) = (Err (g ReentrantCall), s\<lparr>guard_lock := Some True\<rparr>)
    \<and> with_guard f (with_guard g inner) s = (Err (g ReentrantCall), s\<lparr>guard_lock := Some False\<rparr>)
    \<and> with_guard f body s = (r, t\<lparr>guard_lock := Some False\<rparr>)
    \<and> \<not> is_locked (snd (with_guard f body s))"
proof -
  have inner: "with_guard g inner (s\<lparr>guard_lock := Some True\<rparr>) =
      (Err (g ReentrantCall), s\<lparr>guard_lock := Some True\<rparr>)"
    by (simp add: with_guard_locked)
  moreover have "with_guard f (with_guard g inner) s = (Err (g ReentrantCall), s\<lparr>guard_lock := Some False\<rparr>)"
    using with_guard_Err[of s "with_guard g inner" "g ReentrantCall" "s\<lparr>guard_lock := Some True\<rparr>" f, OF free inner]
    by simp
  moreover have "with_guard f body s = (r, t\<lparr>guard_lock := Some False\<rparr>)"
    using free body ends by (cases r) (auto simp: with_guard_def acquire_def is_locked_def release_def)
  ultimately show ?thesis by simp
qed

theorem guard_mutual_exclusion_witness:
  "\<not> is_locked \<lparr>events = [], guard_lock = Some False\<rparr>
    \<and> with_guard (\<lambda>e. e) (\<lambda>s. (Ok (7::nat), s)) \<lparr>events = [], guard_lock = Some False\<rparr>
      = (Ok 7, \<lparr>events = [], guard_lock = Some False\<rparr>)"
  using guard_mutual_exclusion[of "\<lparr>events = [], guard_lock = Some False\<rparr>"
      "\<lambda>s. (Ok (7::nat), s)" "Ok 7" "\<lparr>events = [], guard_lock = Some True\<rparr>"
      "\<lambda>e. e" "\<lambda>s. (Err ReentrantCall, s)" "\<lambda>e. e"]
  by (auto simp: is_locked_def)

end
