(* ===== verification/Ship_Nft.thy ===== *)
theory Ship_Nft
  imports Reentrancy_Guard
begin

text \<open>
  \<open>src/ship_nft.rs\<close>: minting, batch minting, transfer, damage, repair and metadata of ship
  NFTs, with the owner index \<open>OwnerShips\<close> kept beside the ship table and the module's own
  reentrancy lock (persistent storage, unlike the global one). \<open>NftStake\<close> entries are written by
  \<open>src/yield_farming.rs\<close> and only read here.

  The invariant ties the index to the table: an address lists exactly the ships it owns, each
  once, and no identifier above the counter is in use.
\<close>

section \<open>Model\<close>

datatype ShipError = ShipAlreadyExists | ShipNotFound | NotOwner | SameOwner | BatchLimitExceeded
  | InvalidShipType | ReentrancyDetected | InvalidMetadataUri | Staked

record ShipNft =
  sh_id :: u64
  sh_owner :: address
  sh_type :: symbol
  sh_hull :: u32
  sh_scanner_power :: u32
  sh_durability :: u32
  sh_max_durability :: u32
  sh_metadata :: bytes
  sh_metadata_uri :: bytes

record NftStake =
  ns_ship_id :: u64
  ns_owner :: address
  ns_level :: u32
  ns_rarity_bps :: u32
  ns_staked_at :: u64
  ns_yield_claimed :: i128

record ship_store = guard_store +
  ship_counter :: "u64 option"
  ship_tbl :: "u64 \<rightharpoonup> ShipNft"
  owner_ships :: "address \<rightharpoonup> u64 list"
  ship_lock :: "bool option"
  nft_stake :: "u64 \<rightharpoonup> NftStake"

definition stats_for_type :: "symbol \<Rightarrow> u32 \<times> u32" where
  "stats_for_type ship_type =
    (if ship_type = ''fighter'' then (150, 20)
     else if ship_type = ''explorer'' then (80, 50)
     else if ship_type = ''hauler'' then (200, 10)
     else (100, 30))"

fun has_prefix_loop :: "bytes \<Rightarrow> bytes \<Rightarrow> nat \<Rightarrow> bool" where
  "has_prefix_loop b [] i = True"
| "has_prefix_loop b (expected # rest) i =
    (if b ! i \<noteq> expected then False else has_prefix_loop b rest (Suc i))"

definition has_prefix :: "bytes \<Rightarrow> bytes \<Rightarrow> bool" where
  "has_prefix b prefix = (if length b < length prefix then False else has_prefix_loop b prefix 0)"

definition is_valid_metadata_uri :: "bytes \<Rightarrow> bool" where
  "is_valid_metadata_uri uri \<longleftrightarrow>
    has_prefix uri ''ipfs://'' \<or> has_prefix uri ''https://'' \<or> has_prefix uri ''ar://''"

definition is_valid_ship_type :: "symbol \<Rightarrow> bool" where
  "is_valid_ship_type ship_type \<longleftrightarrow>
    ship_type = ''fighter'' \<or> ship_type = ''explorer'' \<or> ship_type = ''hauler''"

definition enter_lock :: "'a ship_store_scheme \<Rightarrow> (ShipError, unit) outcome \<times> 'a ship_store_scheme" where
  "enter_lock s = (if unwrap_or (ship_lock s) False then (Err ReentrancyDetected, s)
     else (Ok (), s\<lparr>ship_lock := Some True\<rparr>))"

definition exit_lock :: "'a ship_store_scheme \<Rightarrow> 'a ship_store_scheme" where
  "exit_lock s = s\<lparr>ship_lock := Some False\<rparr>"

text \<open>\<open>current + 1\<close> traps on overflow: \<open>None\<close>.\<close>

definition next_ship_id :: "'a ship_store_scheme \<Rightarrow> (u64 \<times> 'a ship_store_scheme) option" where
  "next_ship_id s = map_option (\<lambda>n. (n, s\<lparr>ship_counter := Some n\<rparr>))
     (checked_add u64_max (unwrap_or (ship_counter s) 0) 1)"

definition store_ship :: "ShipNft \<Rightarrow> 'a ship_store_scheme \<Rightarrow> 'a ship_store_scheme" where
  "store_ship ship s = s\<lparr>ship_tbl := (ship_tbl s)(sh_id ship \<mapsto> ship)\<rparr>"

definition get_ships_by_owner :: "address \<Rightarrow> 'a ship_store_scheme \<Rightarrow> u64 list" where
  "get_ships_by_owner owner s = unwrap_or (owner_ships s owner) []"

definition add_ship_to_owner :: "address \<Rightarrow> u64 \<Rightarrow> 'a ship_store_scheme \<Rightarrow> 'a ship_store_scheme" where
  "add_ship_to_owner owner ship_id s =
     s\<lparr>owner_ships := (owner_ships s)(owner \<mapsto> unwrap_or (owner_ships s owner) [] @ [ship_id])\<rparr>"

fun remove_loop :: "u64 \<Rightarrow> u64 list \<Rightarrow> u64 list \<Rightarrow> u64 list" where
  "remove_loop ship_id [] new_ids = new_ids"
| "remove_loop ship_id (i # ids) new_ids =
     remove_loop ship_id ids (if i \<noteq> ship_id then new_ids @ [i] else new_ids)"

definition remove_ship_from_owner :: "address \<Rightarrow> u64 \<Rightarrow> 'a ship_store_scheme \<Rightarrow> 'a ship_store_scheme" where
  "remove_ship_from_owner owner ship_id s =
     s\<lparr>owner_ships := (owner_ships s)(owner \<mapsto> remove_loop ship_id (unwrap_or (owner_ships s owner) []) [])\<rparr>"

definition emit_ship_minted :: "ShipNft \<Rightarrow> 'a host_scheme \<Rightarrow> 'a host_scheme" where
  "emit_ship_minted ship = publish [SS ''ship'', SS ''minted'']
     [SU (sh_id ship), SA (sh_owner ship), SS (sh_type ship), SU (sh_hull ship), SU (sh_scanner_power ship)]"

definition emit_ship_transferred :: "u64 \<Rightarrow> address \<Rightarrow> address \<Rightarrow> 'a host_scheme \<Rightarrow> 'a host_scheme" where
  "emit_ship_transferred ship_id from to = publish [SS ''ship'', SS ''transfer''] [SU ship_id, SA from, SA to]"

definition new_ship :: "u64 \<Rightarrow> address \<Rightarrow> symbol \<Rightarrow> bytes \<Rightarrow> ShipNft" where
  "new_ship i owner ship_type metadata = (let (hull, scanner_power) = stats_for_type ship_type in
     \<lparr>sh_id = i, sh_owner = owner, sh_type = ship_type, sh_hull = hull, sh_scanner_power = scanner_power,
      sh_durability = 100, sh_max_durability = 100, sh_metadata = metadata, sh_metadata_uri = []\<rparr>)"

definition mint_ship :: "env \<Rightarrow> address \<Rightarrow> symbol \<Rightarrow> bytes \<Rightarrow> 'a ship_store_scheme
    \<Rightarrow> (ShipError, ShipNft) outcome \<times> 'a ship_store_scheme" where
  "mint_ship env owner ship_type metadata s = and_then (enter_lock s) (\<lambda>_ s.
     if \<not> auth env owner then (Panic, s)
     else if \<not> is_valid_ship_type ship_type then (Err InvalidShipType, exit_lock s)
     else case next_ship_id s of
       None \<Rightarrow> (Panic, s)
     | Some (i, s) \<Rightarrow>
         if ship_tbl s i \<noteq> None then (Err ShipAlreadyExists, exit_lock s)
         else let ship = new_ship i owner ship_type metadata;
                  s = emit_ship_minted ship (add_ship_to_owner owner i (store_ship ship s))
              in (Ok ship, exit_lock s))"

fun batch_mint_loop :: "address \<Rightarrow> symbol list \<Rightarrow> bytes \<Rightarrow> ShipNft list \<Rightarrow> 'a ship_store_scheme
    \<Rightarrow> (ShipError, ShipNft list) outcome \<times> 'a ship_store_scheme" where
  "batch_mint_loop owner [] metadata ships s = (Ok ships, exit_lock s)"
| "batch_mint_loop owner (st # sts) metadata ships s =
    (if \<not> is_valid_ship_type st then (Err InvalidShipType, exit_lock s)
     else case next_ship_id s of
       None \<Rightarrow> (Panic, s)
     | Some (i, s) \<Rightarrow>
         if ship_tbl s i \<noteq> None then (Err ShipAlreadyExists, exit_lock s)
         else let ship = new_ship i owner st metadata;
                  s = emit_ship_minted ship (add_ship_to_owner owner i (store_ship ship s))
              in batch_mint_loop owner sts metadata (ships @ [ship]) s)"

definition batch_mint_ships :: "env \<Rightarrow> address \<Rightarrow> symbol list \<Rightarrow> bytes \<Rightarrow> 'a ship_store_scheme
    \<Rightarrow> (ShipError, ShipNft list) outcome \<times> 'a ship_store_scheme" where
  "batch_mint_ships env owner ship_types metadata s = and_then (enter_lock s) (\<lambda>_ s.
     if length ship_types > 3 then (Err BatchLimitExceeded, exit_lock s)
     else if \<not> auth env owner then (Panic, s)
     else batch_mint_loop owner ship_types metadata [] s)"

definition transfer_ship :: "env \<Rightarrow> u64 \<Rightarrow> address \<Rightarrow> address \<Rightarrow> 'a ship_store_scheme
    \<Rightarrow> (ShipError, ShipNft) outcome \<times> 'a ship_store_scheme" where
  "transfer_ship env ship_id from to s = and_then (enter_lock s) (\<lambda>_ s.
     case ship_tbl s ship_id of
       None \<Rightarrow> (Err ShipNotFound, exit_lock s)
     | Some ship \<Rightarrow>
         if \<not> auth env from then (Panic, s)
         else if sh_owner ship \<noteq> from then (Err NotOwner, exit_lock s)
         else if sh_owner ship = to then (Err SameOwner, exit_lock s)
         else let s = add_ship_to_owner to ship_id (remove_ship_from_owner from ship_id s);
                  ship = ship\<lparr>sh_owner := to\<rparr>;
                  s = emit_ship_transferred ship_id from to (store_ship ship s)
              in (Ok ship, exit_lock s))"

definition is_ship_staked :: "u64 \<Rightarrow> 'a ship_store_scheme \<Rightarrow> bool" where
  "is_ship_staked ship_id s \<longleftrightarrow> nft_stake s ship_id \<noteq> None"

definition get_ship :: "u64 \<Rightarrow> 'a ship_store_scheme \<Rightarrow> (ShipError, ShipNft) outcome" where
  "get_ship ship_id s = (case ship_tbl s ship_id of None \<Rightarrow> Err ShipNotFound | Some ship \<Rightarrow> Ok ship)"

definition transfer_ownership :: "env \<Rightarrow> u64 \<Rightarrow> address \<Rightarrow> 'a ship_store_scheme
    \<Rightarrow> (ShipError, ShipNft) outcome \<times> 'a ship_store_scheme" where
  "transfer_ownership env ship_id new_owner s = and_then (get_ship ship_id s, s) (\<lambda>ship s.
     if is_ship_staked ship_id s then (Err Staked, s)
     else transfer_ship env ship_id (sh_owner ship) new_owner s)"

definition repair_ship :: "env \<Rightarrow> address \<Rightarrow> u64 \<Rightarrow> 'a ship_store_scheme
    \<Rightarrow> (ShipError, ShipNft) outcome \<times> 'a ship_store_scheme" where
  "repair_ship env owner ship_id s =
    (if \<not> auth env owner then (Panic, s)
     else case ship_tbl s ship_id of
       None \<Rightarrow> (Err ShipNotFound, s)
     | Some ship \<Rightarrow>
         if sh_owner ship \<noteq> owner then (Err NotOwner, s)
         else let old_durability = sh_durability ship;
                  ship = ship\<lparr>sh_durability := sh_max_durability ship\<rparr>;
                  s = s\<lparr>ship_tbl := (ship_tbl s)(ship_id \<mapsto> ship)\<rparr>
              in (Ok ship, publish [SS ''ship_rep'', SU ship_id, SA owner] [SU old_durability] s))"

definition damage_ship :: "u64 \<Rightarrow> u32 \<Rightarrow> 'a ship_store_scheme
    \<Rightarrow> (ShipError, ShipNft) outcome \<times> 'a ship_store_scheme" where
  "damage_ship ship_id amount s =
    (case ship_tbl s ship_id of
       None \<Rightarrow> (Err ShipNotFound, s)
     | Some ship \<Rightarrow>
         let old_durability = sh_durability ship;
             ship = ship\<lparr>sh_durability := saturating_sub (sh_durability ship) amount\<rparr>;
             s = s\<lparr>ship_tbl := (ship_tbl s)(ship_id \<mapsto> ship)\<rparr>
         in (Ok ship, publish [SS ''ship_dmg'', SU ship_id, SA (sh_owner ship)]
               [SU old_durability, SU (sh_durability ship)] s))"

definition set_metadata :: "env \<Rightarrow> address \<Rightarrow> u64 \<Rightarrow> bytes \<Rightarrow> 'a ship_store_scheme
    \<Rightarrow> (ShipError, ShipNft) outcome \<times> 'a ship_store_scheme" where
  "set_metadata env owner ship_id metadata_uri s =
    (if \<not> auth env owner then (Panic, s)
     else if \<not> is_valid_metadata_uri metadata_uri then (Err InvalidMetadataUri, s)
     else case ship_tbl s ship_id of
       None \<Rightarrow> (Err ShipNotFound, s)
     | Some ship \<Rightarrow>
         if sh_owner ship \<noteq> owner then (Err NotOwner, s)
         else let ship = ship\<lparr>sh_metadata_uri := metadata_uri\<rparr>;
                  s = s\<lparr>ship_tbl := (ship_tbl s)(ship_id \<mapsto> ship)\<rparr>
              in (Ok ship, publish [SS ''ship'', SS ''meta''] [SU ship_id, SS metadata_uri, SA owner] s))"

definition get_metadata :: "u64 \<Rightarrow> 'a ship_store_scheme \<Rightarrow> (ShipError, bytes) outcome" where
  "get_metadata ship_id s = (case get_ship ship_id s of
     Ok ship \<Rightarrow> Ok (sh_metadata_uri ship) | Err e \<Rightarrow> Err e | Panic \<Rightarrow> Panic)"

section \<open>Well-formedness\<close>

text \<open>The ship table \<open>tbl\<close>, the owner lists \<open>L\<close> and the counter \<open>c\<close> agree.\<close>

definition index_ok :: "nat \<Rightarrow> (u64 \<rightharpoonup> ShipNft) \<Rightarrow> (address \<Rightarrow> u64 list) \<Rightarrow> bool" where
  "index_ok c tbl L \<longleftrightarrow>
    (\<forall>i ship. tbl i = Some ship \<longrightarrow>
       sh_id ship = i \<and> 0 < i \<and> i \<le> c \<and>
       is_valid_ship_type (sh_type ship) \<and> stats_for_type (sh_type ship) = (sh_hull ship, sh_scanner_power ship) \<and>
       sh_durability ship \<le> sh_max_durability ship) \<and>
    (\<forall>a. distinct (L a)) \<and>
    (\<forall>a i. i \<in> set (L a) \<longleftrightarrow> (\<exists>ship. tbl i = Some ship \<and> sh_owner ship = a))"

definition ships_ok :: "'a ship_store_scheme \<Rightarrow> bool" where
  "ships_ok s \<longleftrightarrow> index_ok (unwrap_or (ship_counter s) 0) (ship_tbl s) (\<lambda>a. get_ships_by_owner a s)"

definition ship_inv :: "'a ship_store_scheme \<Rightarrow> bool" where
  "ship_inv s \<longleftrightarrow> \<not> unwrap_or (ship_lock s) False \<and> ships_ok s"

text \<open>One step is one committed invocation of an entry point of the module.\<close>

inductive ship_step :: "env \<Rightarrow> 'a ship_store_scheme \<Rightarrow> 'a ship_store_scheme \<Rightarrow> bool" for env where
  mint: "commits (mint_ship env owner ty md) s s' \<Longrightarrow> ship_step env s s'"
| batch: "commits (batch_mint_ships env owner tys md) s s' \<Longrightarrow> ship_step env s s'"
| transfer: "commits (transfer_ship env i from to) s s' \<Longrightarrow> ship_step env s s'"
| transfer_own: "commits (transfer_ownership env i to) s s' \<Longrightarrow> ship_step env s s'"
| repair: "commits (repair_ship env owner i) s s' \<Longrightarrow> ship_step env s s'"
| damage: "commits (damage_ship i amount) s s' \<Longrightarrow> ship_step env s s'"
| metadata: "commits (set_metadata env owner i uri) s s' \<Longrightarrow> ship_step env s s'"

section \<open>Lemmas\<close>

lemma remove_loop_filter: "remove_loop j ids acc = acc @ filter (\<lambda>i. i \<noteq> j) ids"
  by (induction j ids acc rule: remove_loop.induct) auto

lemma has_prefix_loop_iff:
  "i + length p \<le> length b \<Longrightarrow> has_prefix_loop b p i \<longleftrightarrow> take (length p) (drop i b) = p"
proof (induction b p i rule: has_prefix_loop.induct)
  case (1 b i)
  then show ?case by simp
next
  case (2 b e r i)
  then have "drop i b = b ! i # drop (Suc i) b" by (simp add: Cons_nth_drop_Suc)
  with 2 show ?case by auto
qed

lemma has_prefix_iff: "has_prefix b p \<longleftrightarrow> take (length p) b = p"
  using has_prefix_loop_iff[of 0 p b] by (auto simp: has_prefix_def dest: arg_cong[of _ _ length])

interpretation ship_mutex: mutex "\<lambda>s. unwrap_or (ship_lock s) False"
  "\<lambda>s. case enter_lock s of (Ok _, t) \<Rightarrow> Some t | _ \<Rightarrow> None" exit_lock
  "\<lambda>s::'a ship_store_scheme. (ship_counter s, ship_tbl s, owner_ships s, nft_stake s, events s)"
  by unfold_locales (auto simp: enter_lock_def exit_lock_def split: if_splits)

interpretation ship_ids: id_counter "\<lambda>s::'a ship_store_scheme. unwrap_or (ship_counter s) 0" next_ship_id
  by unfold_locales (auto simp: next_ship_id_def)

lemmas ship_writes = store_ship_def add_ship_to_owner_def remove_ship_from_owner_def
  emit_ship_minted_def emit_ship_transferred_def publish_def exit_lock_def get_ships_by_owner_def

lemma next_ship_id_Some [ok_iff]: "next_ship_id s = Some (i, s') \<longleftrightarrow>
    i = Suc (unwrap_or (ship_counter s) 0) \<and> i \<le> u64_max \<and> s' = s\<lparr>ship_counter := Some i\<rparr>"
  by (auto simp: next_ship_id_def)

lemma next_ship_id_None [ok_iff]: "next_ship_id s = None \<longleftrightarrow> u64_max \<le> unwrap_or (ship_counter s) 0"
  by (auto simp: next_ship_id_def)

lemma new_ship_simps [simp]:
  "sh_id (new_ship i a ty md) = i" "sh_owner (new_ship i a ty md) = a" "sh_type (new_ship i a ty md) = ty"
  "sh_hull (new_ship i a ty md) = fst (stats_for_type ty)"
  "sh_scanner_power (new_ship i a ty md) = snd (stats_for_type ty)"
  "sh_durability (new_ship i a ty md) = 100" "sh_max_durability (new_ship i a ty md) = 100"
  by (simp_all add: new_ship_def split_beta)

subsection \<open>The index under the three kinds of update\<close>

lemma index_ok_bound: "index_ok c tbl L \<Longrightarrow> tbl i = Some ship \<Longrightarrow> i \<le> c"
  by (simp add: index_ok_def)

lemma index_ok_unused: "index_ok c tbl L \<Longrightarrow> tbl (Suc c) = None"
  using index_ok_bound[of c tbl L "Suc c"] by (cases "tbl (Suc c)") auto

lemma index_ok_place:
  assumes ok: "index_ok c tbl L" and ship: "sh_id ship = Suc c" "sh_owner ship = a" "is_valid_ship_type (sh_type ship)"
    "stats_for_type (sh_type ship) = (sh_hull ship, sh_scanner_power ship)" "sh_durability ship \<le> sh_max_durability ship"
  shows "index_ok (Suc c) (tbl(Suc c \<mapsto> ship)) (L(a := L a @ [Suc c]))"
proof -
  have "Suc c \<notin> set (L b)" for b using ok index_ok_unused[OF ok] by (simp add: index_ok_def)
  moreover have "\<exists>ship. tbl i = Some ship \<Longrightarrow> i \<noteq> Suc c" for i using index_ok_unused[OF ok] by auto
  ultimately show ?thesis using ok ship unfolding index_ok_def by (auto simp: le_SucI)
qed

lemma index_ok_field:
  assumes "index_ok c tbl L" "tbl i = Some ship" "sh_id ship' = sh_id ship" "sh_owner ship' = sh_owner ship"
    "sh_type ship' = sh_type ship" "sh_hull ship' = sh_hull ship" "sh_scanner_power ship' = sh_scanner_power ship"
    "sh_durability ship' \<le> sh_max_durability ship'"
  shows "index_ok c (tbl(i \<mapsto> ship')) L"
  using assms by (auto simp: index_ok_def)

lemma index_ok_move:
  assumes ok: "index_ok c tbl L" and ship: "tbl i = Some ship" "sh_owner ship = a" and ne: "a \<noteq> b"
  shows "index_ok c (tbl(i \<mapsto> ship\<lparr>sh_owner := b\<rparr>)) (L(a := filter (\<lambda>j. j \<noteq> i) (L a), b := L b @ [i]))"
proof -
  have "i \<notin> set (L b)" using ok ship ne by (auto simp: index_ok_def)
  with assms show ?thesis unfolding index_ok_def by auto
qed

subsection \<open>When each operation succeeds\<close>

lemma ships_ok_upd [simp]:
  "ships_ok (s\<lparr>ship_lock := b\<rparr>) = ships_ok s" "ships_ok (publish t d s) = ships_ok s"
  by (simp_all add: ships_ok_def get_ships_by_owner_def publish_def)

lemma ships_ok_place:
  assumes "ships_ok s" "next_ship_id s = Some (i, t)" "is_valid_ship_type ty"
  shows "ships_ok (emit_ship_minted ship (add_ship_to_owner a i (store_ship (new_ship i a ty md) t)))"
proof -
  have "(\<lambda>b. get_ships_by_owner b (add_ship_to_owner a i (store_ship (new_ship i a ty md) t))) =
      (\<lambda>b. get_ships_by_owner b s)(a := get_ships_by_owner a s @ [i])"
    using assms(2) by (auto simp: fun_eq_iff ship_writes ok_iff)
  with assms index_ok_place[of "unwrap_or (ship_counter s) 0" "ship_tbl s" "\<lambda>b. get_ships_by_owner b s" "new_ship i a ty md" a]
  show ?thesis by (simp add: ships_ok_def emit_ship_minted_def ok_iff) (simp add: store_ship_def add_ship_to_owner_def publish_def get_ships_by_owner_def)
qed

lemma mint_ship_Ok [ok_iff]: "mint_ship env owner ty md s = (Ok ship, s') \<longleftrightarrow>
    \<not> unwrap_or (ship_lock s) False \<and> auth env owner \<and> is_valid_ship_type ty \<and>
    (let i = Suc (unwrap_or (ship_counter s) 0) in i \<le> u64_max \<and> ship_tbl s i = None \<and>
       ship = new_ship i owner ty md \<and>
       s' = exit_lock (emit_ship_minted ship (add_ship_to_owner owner i (store_ship ship
              (s\<lparr>ship_lock := Some True, ship_counter := Some i\<rparr>)))))"
  by (auto simp: mint_ship_def enter_lock_def ok_iff Let_def split: if_splits option.splits)

lemma transfer_ship_Ok [ok_iff]: "transfer_ship env i from to s = (Ok ship', s') \<longleftrightarrow>
    \<not> unwrap_or (ship_lock s) False \<and> auth env from \<and>
    (\<exists>ship. ship_tbl s i = Some ship \<and> sh_owner ship = from \<and> from \<noteq> to \<and> ship' = ship\<lparr>sh_owner := to\<rparr> \<and>
      s' = exit_lock (emit_ship_transferred i from to (store_ship ship'
        (add_ship_to_owner to i (remove_ship_from_owner from i (s\<lparr>ship_lock := Some True\<rparr>))))))"
  by (auto simp: transfer_ship_def enter_lock_def Let_def split: if_splits option.splits)

lemma transfer_ownership_Ok [ok_iff]: "transfer_ownership env i to s = (Ok ship', s') \<longleftrightarrow>
    \<not> is_ship_staked i s \<and>
    (\<exists>ship. ship_tbl s i = Some ship \<and> transfer_ship env i (sh_owner ship) to s = (Ok ship', s'))"
  by (auto simp: transfer_ownership_def get_ship_def split: option.splits)

lemma batch_mint_loop_inv:
  "batch_mint_loop owner tys md ships s = (Ok r, s') \<Longrightarrow> ships_ok s \<Longrightarrow> ship_inv s'"
proof (induction owner tys md ships s rule: batch_mint_loop.induct)
  case (1 owner md ships s)
  then show ?case by (auto simp: exit_lock_def ship_inv_def)
next
  case (2 owner st sts md ships s)
  from "2.prems"(1) have st: "is_valid_ship_type st" by (simp split: if_splits)
  from "2.prems"(1) st obtain i t where new: "next_ship_id s = Some (i, t)" and unused: "ship_tbl t i = None"
    by (auto simp: Let_def split: option.splits prod.splits if_splits)
  with "2.prems" st "2.IH"[of "(i, t)" i t] show ?case using ships_ok_place[OF _ new st]
    by (simp add: Let_def)
qed

lemma ships_ok_field:
  assumes "ships_ok s" "ship_tbl s i = Some ship" "sh_id ship' = sh_id ship" "sh_owner ship' = sh_owner ship"
    "sh_type ship' = sh_type ship" "sh_hull ship' = sh_hull ship" "sh_scanner_power ship' = sh_scanner_power ship"
    "sh_durability ship' \<le> sh_max_durability ship'"
  shows "ships_ok (s\<lparr>ship_tbl := (ship_tbl s)(i \<mapsto> ship')\<rparr>)"
  using index_ok_field[of _ "ship_tbl s" _ i ship ship'] assms by (simp add: ships_ok_def get_ships_by_owner_def)

lemma ships_ok_durable: "ships_ok s \<Longrightarrow> ship_tbl s i = Some ship \<Longrightarrow> sh_durability ship \<le> sh_max_durability ship"
  by (simp add: ships_ok_def index_ok_def)

lemma ships_ok_id: "ships_ok s \<Longrightarrow> ship_tbl s i = Some ship \<Longrightarrow> sh_id ship = i"
  by (simp add: ships_ok_def index_ok_def)

lemma ships_after_move:
  assumes "from \<noteq> to"
  shows "get_ships_by_owner b (add_ship_to_owner to i (remove_ship_from_owner from i s)) =
    (if b = to then get_ships_by_owner to s @ [i]
     else if b = from then filter (\<lambda>j. j \<noteq> i) (get_ships_by_owner from s)
     else get_ships_by_owner b s)"
  using assms by (simp add: ship_writes remove_loop_filter)

lemma ships_ok_move:
  assumes ok: "ships_ok s" and ship: "ship_tbl s i = Some ship" and ne: "sh_owner ship \<noteq> to"
  shows "ships_ok (store_ship (ship\<lparr>sh_owner := to\<rparr>)
    (add_ship_to_owner to i (remove_ship_from_owner (sh_owner ship) i s)))" (is "ships_ok (store_ship ?ship ?t)")
proof -
  have L: "(\<lambda>b. get_ships_by_owner b (store_ship ?ship ?t)) =
      (\<lambda>b. get_ships_by_owner b s)(sh_owner ship := filter (\<lambda>j. j \<noteq> i) (get_ships_by_owner (sh_owner ship) s),
                                   to := get_ships_by_owner to s @ [i])"
    using ships_after_move[OF ne, of _ i s] ne by (auto simp: fun_eq_iff store_ship_def get_ships_by_owner_def)
  have "ship_tbl (store_ship ?ship ?t) = (ship_tbl s)(i \<mapsto> ?ship)" "ship_counter (store_ship ?ship ?t) = ship_counter s"
    using ships_ok_id[OF ok ship] by (simp_all add: store_ship_def add_ship_to_owner_def remove_ship_from_owner_def)
  with L show ?thesis using index_ok_move[OF ok[unfolded ships_ok_def] ship refl ne] by (simp add: ships_ok_def)
qed

subsection \<open>Every entry point keeps the invariant\<close>

lemma mint_ship_inv: "ship_inv s \<Longrightarrow> mint_ship env owner ty md s = (Ok r, s') \<Longrightarrow> ship_inv s'"
  using ships_ok_place[of "s\<lparr>ship_lock := Some True\<rparr>" "Suc (unwrap_or (ship_counter s) 0)" _ ty r owner md]
  by (auto simp: mint_ship_Ok ship_inv_def exit_lock_def Let_def next_ship_id_Some)

lemma batch_mint_ships_inv: "ship_inv s \<Longrightarrow> batch_mint_ships env owner tys md s = (Ok r, s') \<Longrightarrow> ship_inv s'"
  by (auto simp: batch_mint_ships_def ship_inv_def enter_lock_def intro!: batch_mint_loop_inv[unfolded ship_inv_def]
      split: if_splits)

lemma transfer_ship_inv: "ship_inv s \<Longrightarrow> transfer_ship env i from to s = (Ok r, s') \<Longrightarrow> ship_inv s'"
  using ships_ok_move[of "s\<lparr>ship_lock := Some True\<rparr>" i _ to]
  by (auto simp: transfer_ship_Ok ship_inv_def exit_lock_def emit_ship_transferred_def)

lemma transfer_ownership_inv: "ship_inv s \<Longrightarrow> transfer_ownership env i to s = (Ok r, s') \<Longrightarrow> ship_inv s'"
  by (auto simp: transfer_ownership_Ok intro: transfer_ship_inv)

lemma publish_ship_store [simp]:
  "ship_counter (publish t d s) = ship_counter s" "ship_tbl (publish t d s) = ship_tbl s"
  "owner_ships (publish t d s) = owner_ships s" "ship_lock (publish t d s) = ship_lock s"
  "nft_stake (publish t d s) = nft_stake s"
  by (simp_all add: publish_def)

lemma repair_ship_inv: "ship_inv s \<Longrightarrow> repair_ship env owner i s = (Ok r, s') \<Longrightarrow> ship_inv s'"
  by (auto simp: repair_ship_def ship_inv_def Let_def split: if_splits option.splits intro!: ships_ok_field)

lemma damage_ship_inv:
  assumes "ship_inv s" "damage_ship i n s = (Ok r, s')"
  shows "ship_inv s'"
proof -
  from assms(2) obtain ship where ship: "ship_tbl s i = Some ship" by (auto simp: damage_ship_def split: option.splits)
  from assms(1) have ok: "ships_ok s" by (simp add: ship_inv_def)
  with assms ships_ok_field[OF ok ship, of "ship\<lparr>sh_durability := sh_durability ship - n\<rparr>"] ships_ok_durable[OF ok ship] ship
  show ?thesis by (auto simp: damage_ship_def saturating_sub_def Let_def ship_inv_def)
qed

lemma set_metadata_inv:
  assumes "ship_inv s" "set_metadata env owner i uri s = (Ok r, s')"
  shows "ship_inv s'"
proof -
  from assms(2) obtain ship where ship: "ship_tbl s i = Some ship"
    by (auto simp: set_metadata_def split: option.splits if_splits)
  from assms(1) have ok: "ships_ok s" by (simp add: ship_inv_def)
  with assms ships_ok_field[OF ok ship, of "ship\<lparr>sh_metadata_uri := uri\<rparr>"] ships_ok_durable[OF ok ship] ship
  show ?thesis by (auto simp: set_metadata_def Let_def ship_inv_def split: if_splits)
qed

lemmas ship_op_inv = mint_ship_inv batch_mint_ships_inv transfer_ship_inv transfer_ownership_inv
  repair_ship_inv damage_ship_inv set_metadata_inv

lemma ship_step_inv: "ship_inv s \<Longrightarrow> ship_step env s s' \<Longrightarrow> ship_inv s'"
  by (erule ship_step.cases) (auto simp: commits_iff intro: ship_op_inv)

interpretation ships: step_system "\<lambda>s s'. \<exists>env. ship_step env s s'" "ship_inv :: 'a ship_store_scheme \<Rightarrow> bool"
  by unfold_locales (auto intro: ship_step_inv)

subsection \<open>Ships never vanish, and change hands only with their owner's authorisation\<close>

definition keeps_ships :: "env \<Rightarrow> (u64 \<rightharpoonup> ShipNft) \<Rightarrow> (u64 \<rightharpoonup> ShipNft) \<Rightarrow> bool" where
  "keeps_ships env tbl tbl' \<longleftrightarrow> (\<forall>i a. tbl i = Some a \<longrightarrow>
     (\<exists>b. tbl' i = Some b \<and> sh_type b = sh_type a \<and> sh_max_durability b = sh_max_durability a \<and>
          (sh_owner b \<noteq> sh_owner a \<longrightarrow> auth env (sh_owner a))))"

lemma keeps_ships_refl [simp]: "keeps_ships env tbl tbl"
  by (simp add: keeps_ships_def)

lemma keeps_ships_trans: "keeps_ships env a b \<Longrightarrow> tbl = b \<Longrightarrow> b i = None \<Longrightarrow> keeps_ships env a (b(i \<mapsto> x))"
  unfolding keeps_ships_def by (metis fun_upd_other option.distinct(1))

lemma keeps_ships_upd: "tbl i = Some a \<Longrightarrow> sh_type b = sh_type a \<Longrightarrow> sh_max_durability b = sh_max_durability a \<Longrightarrow>
   (sh_owner b \<noteq> sh_owner a \<Longrightarrow> auth env (sh_owner a)) \<Longrightarrow> keeps_ships env tbl (tbl(i \<mapsto> b))"
  by (auto simp: keeps_ships_def)

lemma batch_keeps_ships:
  "batch_mint_loop owner tys md ships s = (Ok r, s') \<Longrightarrow> keeps_ships env tbl (ship_tbl s) \<Longrightarrow> keeps_ships env tbl (ship_tbl s')"
proof (induction owner tys md ships s rule: batch_mint_loop.induct)
  case (1 owner md ships s)
  then show ?case by (auto simp: exit_lock_def)
next
  case (2 owner st sts md ships s)
  from "2.prems"(1) have st: "is_valid_ship_type st" by (simp split: if_splits)
  from "2.prems"(1) st obtain i t where new: "next_ship_id s = Some (i, t)" and unused: "ship_tbl t i = None"
    by (auto simp: Let_def split: option.splits prod.splits if_splits)
  let ?t = "emit_ship_minted (new_ship i owner st md) (add_ship_to_owner owner i (store_ship (new_ship i owner st md) t))"
  have "ship_tbl ?t = (ship_tbl s)(i \<mapsto> new_ship i owner st md)" "ship_tbl s i = None"
    using new unused by (auto simp: ship_writes ok_iff)
  then have "keeps_ships env tbl (ship_tbl ?t)" using keeps_ships_trans[OF "2.prems"(2)] by simp
  with "2.prems" st new unused "2.IH"[of "(i, t)" i t] show ?case by (simp add: Let_def)
qed

lemma ship_step_keeps: "ships_ok s \<Longrightarrow> ship_step env s s' \<Longrightarrow> keeps_ships env (ship_tbl s) (ship_tbl s')"
proof (erule ship_step.cases)
  fix owner ty md t t' assume "s = t" "s' = t'" "commits (mint_ship env owner ty md) t t'"
  then show ?thesis
    by (auto simp: commits_iff mint_ship_Ok Let_def exit_lock_def emit_ship_minted_def add_ship_to_owner_def
        store_ship_def intro!: keeps_ships_trans)
next
  fix owner tys md t t' assume "s = t" "s' = t'" "commits (batch_mint_ships env owner tys md) t t'"
  then show ?thesis
    by (auto simp: commits_iff batch_mint_ships_def enter_lock_def intro: batch_keeps_ships split: if_splits)
next
  fix i frm to t t' assume ok: "ships_ok s" and "s = t" "s' = t'" "commits (transfer_ship env i frm to) t t'"
  then show ?thesis using ships_ok_id[OF ok, of i]
    by (auto simp: commits_iff transfer_ship_Ok exit_lock_def emit_ship_transferred_def add_ship_to_owner_def
        remove_ship_from_owner_def store_ship_def intro!: keeps_ships_upd)
next
  fix i to t t' assume ok: "ships_ok s" and "s = t" "s' = t'" "commits (transfer_ownership env i to) t t'"
  then show ?thesis using ships_ok_id[OF ok, of i]
    by (auto simp: commits_iff transfer_ownership_Ok transfer_ship_Ok exit_lock_def emit_ship_transferred_def add_ship_to_owner_def
        remove_ship_from_owner_def store_ship_def intro!: keeps_ships_upd)
next
  fix owner i t t' assume "s = t" "s' = t'" "commits (repair_ship env owner i) t t'"
  then show ?thesis by (auto simp: commits_iff repair_ship_def Let_def intro!: keeps_ships_upd split: if_splits option.splits)
next
  fix i n t t' assume "s = t" "s' = t'" "commits (damage_ship i n) t t'"
  then show ?thesis by (auto simp: commits_iff damage_ship_def Let_def intro!: keeps_ships_upd split: if_splits option.splits)
next
  fix owner i uri t t' assume "s = t" "s' = t'" "commits (set_metadata env owner i uri) t t'"
  then show ?thesis by (auto simp: commits_iff set_metadata_def Let_def intro!: keeps_ships_upd split: if_splits option.splits)
qed

section \<open>The abstract registry\<close>

text \<open>What the module promises: a registry that maps each ship to its owner.\<close>

definition registry :: "'a ship_store_scheme \<Rightarrow> u64 \<rightharpoonup> address" where
  "registry s i = map_option sh_owner (ship_tbl s i)"

lemma registry_place: "registry (exit_lock (emit_ship_minted ship (add_ship_to_owner a i (store_ship ship s)))) =
    (registry s)(sh_id ship \<mapsto> sh_owner ship)"
  by (auto simp: registry_def fun_eq_iff ship_writes)

lemma ships_ok_listed: "ships_ok s \<Longrightarrow> set (get_ships_by_owner a s) = {i. registry s i = Some a}"
  by (auto simp: ships_ok_def index_ok_def registry_def)

lemma ships_after_transfer:
  "transfer_ship env i a b s = (Ok ship, s') \<Longrightarrow>
   get_ships_by_owner c s' = (if c = b then get_ships_by_owner b s @ [i]
     else if c = a then filter (\<lambda>j. j \<noteq> i) (get_ships_by_owner a s) else get_ships_by_owner c s)"
  using ships_after_move[of a b c i "s\<lparr>ship_lock := Some True\<rparr>"]
  by (auto simp: transfer_ship_Ok exit_lock_def emit_ship_transferred_def store_ship_def get_ships_by_owner_def)

lemma registry_transfer:
  assumes "ships_ok s" "transfer_ship env i a b s = (Ok ship, s')"
  shows "registry s i = Some a" "registry s' = (registry s)(i \<mapsto> b)"
  using assms ships_ok_id[OF assms(1), of i]
  by (auto simp: registry_def transfer_ship_Ok fun_eq_iff exit_lock_def emit_ship_transferred_def store_ship_def
      add_ship_to_owner_def remove_ship_from_owner_def)

definition no_ships :: ship_store where
  "no_ships = \<lparr>events = [], guard_lock = None, ship_counter = None, ship_tbl = Map.empty,
     owner_ships = Map.empty, ship_lock = None, nft_stake = Map.empty\<rparr>"

lemma no_ships_inv: "ship_inv no_ships"
  by (simp add: no_ships_def ship_inv_def ships_ok_def index_ok_def get_ships_by_owner_def)

definition one_ship :: ship_store where
  "one_ship = snd (mint_ship (signed_at 5 5) (Addr 1) ''hauler'' [] no_ships)"

lemma one_ship_minted: "mint_ship (signed_at 5 5) (Addr 1) ''hauler'' [] no_ships =
    (Ok (new_ship 1 (Addr 1) ''hauler'' []), one_ship)"
  by (simp add: one_ship_def mint_ship_def enter_lock_def no_ships_def is_valid_ship_type_def next_ship_id_def
      checked_add_def Let_def)

lemma one_ship_inv: "ship_inv one_ship"
  using mint_ship_inv[OF no_ships_inv one_ship_minted] .

lemma one_ship_tbl: "ship_tbl one_ship 1 = Some (new_ship 1 (Addr 1) ''hauler'' [])"
  by (simp add: one_ship_def mint_ship_def enter_lock_def no_ships_def is_valid_ship_type_def next_ship_id_def
      checked_add_def Let_def ship_writes)

section \<open>Properties\<close>

text \<open>C2. The ship table and the owner index always agree. From any state in which they do, after
  any sequence of committed mints, batch mints, transfers, repairs, damage and metadata updates:
  each address lists exactly the ships it owns and each once, identifiers lie between 1 and the
  counter, every ship has a known type with that type's stats, durability never exceeds its
  maximum, and the module lock is free.\<close>

theorem ship_index_invariant:
  assumes "(\<lambda>s s'. \<exists>env. ship_step env s s')\<^sup>*\<^sup>* s s'" and "ship_inv s"
  shows "ship_inv s'"
  using assms by (rule ships.run_inv)

theorem ship_index_invariant_witness:
  "(\<lambda>s s'. \<exists>env. ship_step env s s')\<^sup>*\<^sup>* no_ships one_ship \<and> ship_inv no_ships \<and> ship_inv one_ship"
proof -
  have "ship_step (signed_at 5 5) no_ships one_ship"
    using one_ship_minted by (auto intro!: ship_step.mint simp: commits_iff)
  then have "(\<lambda>s s'. \<exists>env. ship_step env s s')\<^sup>*\<^sup>* no_ships one_ship" by blast
  with ship_index_invariant[OF this no_ships_inv] no_ships_inv show ?thesis by blast
qed

text \<open>C3. No ship is ever lost or taken. A committed invocation keeps every existing ship, with its
  type and maximum durability, and the ship has another owner afterwards only if the address that
  owned it before authorised the invocation.\<close>

theorem ship_ownership_safety:
  assumes "ship_inv s" and "ship_step env s s'" and "ship_tbl s i = Some a"
  shows "\<exists>b. ship_tbl s' i = Some b \<and> sh_type b = sh_type a \<and> sh_max_durability b = sh_max_durability a
    \<and> (sh_owner b \<noteq> sh_owner a \<longrightarrow> auth env (sh_owner a))"
  using ship_step_keeps[of s env s'] assms by (auto simp: ship_inv_def keeps_ships_def)

theorem ship_ownership_safety_witness:
  "ship_step (signed_at 6 6) one_ship (snd (transfer_ship (signed_at 6 6) 1 (Addr 1) (Addr 2) one_ship))
   \<and> (\<exists>b. ship_tbl (snd (transfer_ship (signed_at 6 6) 1 (Addr 1) (Addr 2) one_ship)) 1 = Some b
        \<and> sh_type b = ''hauler'')"
proof -
  have "fst (transfer_ship (signed_at 6 6) 1 (Addr 1) (Addr 2) one_ship) = Ok ((new_ship 1 (Addr 1) ''hauler'' [])\<lparr>sh_owner := Addr 2\<rparr>)"
    using one_ship_tbl one_ship_inv by (simp add: transfer_ship_def enter_lock_def ship_inv_def Let_def)
  then have "ship_step (signed_at 6 6) one_ship (snd (transfer_ship (signed_at 6 6) 1 (Addr 1) (Addr 2) one_ship))"
    by (intro ship_step.transfer[of _ 1 "Addr 1" "Addr 2"]) (auto simp: commits_iff prod_eq_iff)
  with ship_ownership_safety[OF one_ship_inv this one_ship_tbl] show ?thesis by auto
qed

text \<open>C4. The module implements the ownership registry. A successful mint gives the new ship to the
  caller under an identifier no ship had, and changes nothing else; a successful transfer needs the
  registered owner, hands the ship to the recipient, appends it to the recipient's list, removes it
  from the sender's, and leaves every other list alone. The list of an address is its set of ships.\<close>

theorem ship_registry_refinement:
  assumes inv: "ship_inv s"
  shows "(mint_ship env owner ty md s = (Ok ship, s') \<longrightarrow>
      registry s (sh_id ship) = None \<and> registry s' = (registry s)(sh_id ship \<mapsto> owner))
    \<and> (transfer_ship env i a b s = (Ok ship, s') \<longrightarrow>
      registry s i = Some a \<and> registry s' = (registry s)(i \<mapsto> b)
      \<and> (\<forall>c. get_ships_by_owner c s' = (if c = b then get_ships_by_owner b s @ [i]
            else if c = a then filter (\<lambda>j. j \<noteq> i) (get_ships_by_owner a s) else get_ships_by_owner c s)))
    \<and> set (get_ships_by_owner a s) = {i. registry s i = Some a}"
proof (intro conjI impI)
  have ok: "ships_ok s" using inv by (simp add: ship_inv_def)
  show "set (get_ships_by_owner a s) = {i. registry s i = Some a}" using ok by (rule ships_ok_listed)
  assume "mint_ship env owner ty md s = (Ok ship, s')"
  then show "registry s (sh_id ship) = None" "registry s' = (registry s)(sh_id ship \<mapsto> owner)"
    by (auto simp: mint_ship_Ok Let_def registry_place) (auto simp: registry_def fun_eq_iff)
next
  have ok: "ships_ok s" using inv by (simp add: ship_inv_def)
  assume tr: "transfer_ship env i a b s = (Ok ship, s')"
  show "registry s i = Some a" "registry s' = (registry s)(i \<mapsto> b)" using registry_transfer[OF ok tr] by auto
  show "\<forall>c. get_ships_by_owner c s' = (if c = b then get_ships_by_owner b s @ [i]
      else if c = a then filter (\<lambda>j. j \<noteq> i) (get_ships_by_owner a s) else get_ships_by_owner c s)"
    using ships_after_transfer[OF tr] by blast
qed

theorem ship_registry_refinement_witness:
  "ship_inv no_ships \<and> registry no_ships 1 = None \<and> registry one_ship = (registry no_ships)(1 \<mapsto> Addr 1)"
  using ship_registry_refinement[OF no_ships_inv, of "signed_at 5 5" "Addr 1" "''hauler''" "[]"
      "new_ship 1 (Addr 1) ''hauler'' []" one_ship] one_ship_minted no_ships_inv
  by simp

text \<open>A staked ship can still be moved. \<open>transfer_ownership\<close> refuses a ship that is staked in
  yield farming, but the public \<open>transfer_ship\<close> never looks at the stake: whatever the stake
  table holds, the owner's transfer of an existing ship to another address succeeds, and the stake
  entry stays behind for a ship its owner no longer has.\<close>

lemma staked_ship_transfers:
  assumes "ship_inv s" and "ship_tbl s i = Some ship" and "is_ship_staked i s"
    and "auth env (sh_owner ship)" and "to \<noteq> sh_owner ship"
  shows "\<exists>s'. transfer_ownership env i to s = (Err Staked, s)
    \<and> transfer_ship env i (sh_owner ship) to s = (Ok (ship\<lparr>sh_owner := to\<rparr>), s')
    \<and> registry s' i = Some to \<and> nft_stake s' i = nft_stake s i"
proof -
  have ok: "ships_ok s" and free: "\<not> unwrap_or (ship_lock s) False" using assms(1) by (auto simp: ship_inv_def)
  obtain s' where s': "transfer_ship env i (sh_owner ship) to s = (Ok (ship\<lparr>sh_owner := to\<rparr>), s')"
    using assms free by (auto simp: transfer_ship_def enter_lock_def Let_def)
  moreover have "nft_stake s' = nft_stake s" using s' by (auto simp: transfer_ship_Ok ship_writes)
  moreover have "transfer_ownership env i to s = (Err Staked, s)"
    using assms by (simp add: transfer_ownership_def get_ship_def)
  ultimately show ?thesis using registry_transfer(2)[OF ok s'] by auto
qed

lemma staked_ship_transfers_example:
  "\<exists>st s'. is_ship_staked 1 (one_ship\<lparr>nft_stake := [1 \<mapsto> st]\<rparr>)
    \<and> transfer_ship (signed_at 6 6) 1 (Addr 1) (Addr 2) (one_ship\<lparr>nft_stake := [1 \<mapsto> st]\<rparr>) =
        (Ok ((new_ship 1 (Addr 1) ''hauler'' [])\<lparr>sh_owner := Addr 2\<rparr>), s')"
proof -
  let ?st = "\<lparr>ns_ship_id = 1, ns_owner = Addr 1, ns_level = 1, ns_rarity_bps = 10000, ns_staked_at = 5, ns_yield_claimed = 0\<rparr>"
  let ?s = "one_ship\<lparr>nft_stake := [1 \<mapsto> ?st]\<rparr>"
  have "ship_inv ?s" using one_ship_inv by (simp add: ship_inv_def ships_ok_def get_ships_by_owner_def)
  moreover have "ship_tbl ?s 1 = Some (new_ship 1 (Addr 1) ''hauler'' [])" using one_ship_tbl by simp
  moreover have staked: "is_ship_staked 1 ?s" by (simp add: is_ship_staked_def)
  ultimately have "\<exists>s'. transfer_ownership (signed_at 6 6) 1 (Addr 2) ?s = (Err Staked, ?s)
    \<and> transfer_ship (signed_at 6 6) 1 (Addr 1) (Addr 2) ?s = (Ok ((new_ship 1 (Addr 1) ''hauler'' [])\<lparr>sh_owner := Addr 2\<rparr>), s')
    \<and> registry s' 1 = Some (Addr 2) \<and> nft_stake s' 1 = nft_stake ?s 1"
    using staked_ship_transfers[of ?s 1 "new_ship 1 (Addr 1) ''hauler'' []" "signed_at 6 6" "Addr 2"] by simp
  with staked show ?thesis by blast
qed

end
