(* ===== verification/Treasure_Vault.thy ===== *)
theory Treasure_Vault
  imports Ship_Nft
begin

text \<open>
  \<open>src/treasure_vault.rs\<close>: time-locked vaults. A deposit allocates a vault that can be claimed
  once, by its owner, after the lock period, for the deposit plus a ten percent bonus. Both entry
  points run under the global reentrancy guard.
\<close>

section \<open>Model\<close>

abbreviation DEFAULT_MIN_LOCK_DURATION :: u64 where "DEFAULT_MIN_LOCK_DURATION \<equiv> 604800"
abbreviation BONUS_BPS :: u64 where "BONUS_BPS \<equiv> 1000"
abbreviation BPS_DENOM :: u64 where "BPS_DENOM \<equiv> 10000"

datatype VaultError = VaultNotFound | NotOwner | StillLocked | AlreadyClaimed | InvalidAmount
  | ArithmeticOverflow | Reentrancy

definition vault_from_reentrancy :: "ReentrancyError \<Rightarrow> VaultError" where
  "vault_from_reentrancy e = VaultError.Reentrancy"

record TreasureVault =
  tv_vault_id :: u64
  tv_owner :: address
  tv_ship_id :: u64
  tv_amount :: u64
  tv_lock_until :: u64
  tv_bonus_multiplier :: u64
  tv_claimed :: bool

record vault_store = ship_store +
  vault_tbl :: "u64 \<rightharpoonup> TreasureVault"
  vault_counter :: "u64 option"
  min_lock_duration :: "u64 option"

definition next_vault_id :: "'a vault_store_scheme \<Rightarrow> (VaultError, u64) outcome \<times> 'a vault_store_scheme" where
  "next_vault_id s = (case checked_add u64_max (unwrap_or (vault_counter s) 0) 1 of
     None \<Rightarrow> (Err VaultError.ArithmeticOverflow, s)
   | Some n \<Rightarrow> (Ok n, s\<lparr>vault_counter := Some n\<rparr>))"

definition calculate_bonus_payout :: "u64 \<Rightarrow> u64 \<Rightarrow> u64 option" where
  "calculate_bonus_payout amount bonus_multiplier =
     Option.bind (checked_mul u64_max amount bonus_multiplier) (\<lambda>product.
     Option.bind (checked_div product BPS_DENOM) (\<lambda>bonus.
     checked_add u64_max amount bonus))"

definition get_min_lock_duration :: "'a vault_store_scheme \<Rightarrow> u64" where
  "get_min_lock_duration s = unwrap_or (min_lock_duration s) DEFAULT_MIN_LOCK_DURATION"

definition deposit_treasure_unguarded :: "env \<Rightarrow> address \<Rightarrow> u64 \<Rightarrow> u64 \<Rightarrow> 'a vault_store_scheme
    \<Rightarrow> (VaultError, TreasureVault) outcome \<times> 'a vault_store_scheme" where
  "deposit_treasure_unguarded env owner ship_id amount s =
    (if \<not> auth env owner then (Panic, s)
     else if amount = 0 then (Err VaultError.InvalidAmount, s)
     else let min_lock = get_min_lock_duration s in
       case checked_add u64_max (timestamp env) min_lock of
         None \<Rightarrow> (Err VaultError.ArithmeticOverflow, s)
       | Some lock_until \<Rightarrow> and_then (next_vault_id s) (\<lambda>vault_id s.
           let vault = \<lparr>tv_vault_id = vault_id, tv_owner = owner, tv_ship_id = ship_id, tv_amount = amount,
                 tv_lock_until = lock_until, tv_bonus_multiplier = BONUS_BPS, tv_claimed = False\<rparr>;
               s = s\<lparr>vault_tbl := (vault_tbl s)(vault_id \<mapsto> vault)\<rparr>
           in (Ok vault, publish [SS ''vault'', SS ''deposit'']
                 [SU vault_id, SA owner, SU ship_id, SU amount, SU lock_until] s)))"

definition deposit_treasure :: "env \<Rightarrow> address \<Rightarrow> u64 \<Rightarrow> u64 \<Rightarrow> 'a vault_store_scheme
    \<Rightarrow> (VaultError, TreasureVault) outcome \<times> 'a vault_store_scheme" where
  "deposit_treasure env owner ship_id amount =
     with_guard vault_from_reentrancy (deposit_treasure_unguarded env owner ship_id amount)"

definition claim_treasure_unguarded :: "env \<Rightarrow> address \<Rightarrow> u64 \<Rightarrow> 'a vault_store_scheme
    \<Rightarrow> (VaultError, u64) outcome \<times> 'a vault_store_scheme" where
  "claim_treasure_unguarded env owner vault_id s =
    (if \<not> auth env owner then (Panic, s)
     else case vault_tbl s vault_id of
       None \<Rightarrow> (Err VaultError.VaultNotFound, s)
     | Some vault \<Rightarrow>
         if tv_owner vault \<noteq> owner then (Err VaultError.NotOwner, s)
         else if tv_claimed vault then (Err VaultError.AlreadyClaimed, s)
         else if timestamp env < tv_lock_until vault then (Err VaultError.StillLocked, s)
         else case calculate_bonus_payout (tv_amount vault) (tv_bonus_multiplier vault) of
           None \<Rightarrow> (Err VaultError.ArithmeticOverflow, s)
         | Some total_payout \<Rightarrow>
             let s = s\<lparr>vault_tbl := (vault_tbl s)(vault_id \<mapsto> vault\<lparr>tv_claimed := True\<rparr>)\<rparr>
             in (Ok total_payout, publish [SS ''vault'', SS ''claimed''] [SU vault_id, SA owner, SU total_payout] s))"

definition claim_treasure :: "env \<Rightarrow> address \<Rightarrow> u64 \<Rightarrow> 'a vault_store_scheme
    \<Rightarrow> (VaultError, u64) outcome \<times> 'a vault_store_scheme" where
  "claim_treasure env owner vault_id = with_guard vault_from_reentrancy (claim_treasure_unguarded env owner vault_id)"

definition get_vault :: "u64 \<Rightarrow> 'a vault_store_scheme \<Rightarrow> TreasureVault option" where
  "get_vault vault_id s = vault_tbl s vault_id"

section \<open>Well-formedness and steps\<close>

definition vault_inv :: "'a vault_store_scheme \<Rightarrow> bool" where
  "vault_inv s \<longleftrightarrow> \<not> is_locked s \<and>
    tbl_ok (\<lambda>i v. tv_vault_id v = i \<and> 0 < tv_amount v \<and> tv_bonus_multiplier v = BONUS_BPS)
      (unwrap_or (vault_counter s) 0) (vault_tbl s)"

inductive vault_step :: "env \<Rightarrow> 'a vault_store_scheme \<Rightarrow> 'a vault_store_scheme \<Rightarrow> bool" for env where
  deposit: "commits (deposit_treasure env owner ship amount) s s' \<Longrightarrow> vault_step env s s'"
| claim: "commits (claim_treasure env owner i) s s' \<Longrightarrow> vault_step env s s'"

section \<open>Lemmas\<close>

interpretation vault_ids: id_counter "\<lambda>s::'a vault_store_scheme. unwrap_or (vault_counter s) 0"
  "\<lambda>s. case next_vault_id s of (Ok i, t) \<Rightarrow> Some (i, t) | _ \<Rightarrow> None"
  by unfold_locales (auto simp: next_vault_id_def split: option.splits)

lemma publish_vault_store [simp]:
  "vault_tbl (publish t d s) = vault_tbl s" "vault_counter (publish t d s) = vault_counter s"
  "min_lock_duration (publish t d s) = min_lock_duration s"
  by (simp_all add: publish_def)

lemma payout_default:
  "calculate_bonus_payout amount BONUS_BPS =
     (if amount * 1000 \<le> u64_max then Some (amount + amount div 10) else None)"
proof -
  have "amount * 1000 div 10000 = amount div 10"
    using div_mult_mult2[of 1000 amount 10] by simp
  moreover have "amount * 1000 \<le> u64_max \<Longrightarrow> amount + amount div 10 \<le> u64_max" by linarith
  ultimately show ?thesis by (auto simp: calculate_bonus_payout_def checked_mul_def checked_div_def checked_add_def)
qed

lemma deposit_Ok [ok_iff]: "deposit_treasure env owner ship amount s = (Ok v, s') \<longleftrightarrow>
    \<not> is_locked s \<and> auth env owner \<and> 0 < amount \<and> timestamp env + get_min_lock_duration s \<le> u64_max \<and>
    (let i = Suc (unwrap_or (vault_counter s) 0) in i \<le> u64_max \<and>
       v = \<lparr>tv_vault_id = i, tv_owner = owner, tv_ship_id = ship, tv_amount = amount,
            tv_lock_until = timestamp env + get_min_lock_duration s, tv_bonus_multiplier = BONUS_BPS, tv_claimed = False\<rparr> \<and>
       s' = (publish [SS ''vault'', SS ''deposit'']
              [SU i, SA owner, SU ship, SU amount, SU (timestamp env + get_min_lock_duration s)]
              (s\<lparr>vault_counter := Some i, vault_tbl := (vault_tbl s)(i \<mapsto> v)\<rparr>))\<lparr>guard_lock := Some False\<rparr>)"
  by (auto simp: deposit_treasure_def with_guard_Ok deposit_treasure_unguarded_def next_vault_id_def Let_def
      get_min_lock_duration_def publish_def split: option.splits if_splits)

lemma claim_Ok [ok_iff]: "claim_treasure env owner i s = (Ok p, s') \<longleftrightarrow>
    \<not> is_locked s \<and> auth env owner \<and>
    (\<exists>v. vault_tbl s i = Some v \<and> tv_owner v = owner \<and> \<not> tv_claimed v \<and> tv_lock_until v \<le> timestamp env \<and>
       calculate_bonus_payout (tv_amount v) (tv_bonus_multiplier v) = Some p \<and>
       s' = (publish [SS ''vault'', SS ''claimed''] [SU i, SA owner, SU p]
              (s\<lparr>vault_tbl := (vault_tbl s)(i \<mapsto> v\<lparr>tv_claimed := True\<rparr>)\<rparr>))\<lparr>guard_lock := Some False\<rparr>)"
  by (auto simp: claim_treasure_def with_guard_Ok claim_treasure_unguarded_def Let_def publish_def
      split: option.splits if_splits)

lemma vault_step_inv: "vault_inv s \<Longrightarrow> vault_step env s s' \<Longrightarrow> vault_inv s'"
proof (erule vault_step.cases)
  fix owner ship amount t t' assume "vault_inv s" "s = t" "s' = t'" "commits (deposit_treasure env owner ship amount) t t'"
  then show ?thesis by (auto simp: commits_iff deposit_Ok vault_inv_def Let_def intro: tbl_ok_new)
next
  fix owner i t t' assume inv: "vault_inv s" and "s = t" "s' = t'" "commits (claim_treasure env owner i) t t'"
  then obtain v where v: "vault_tbl s i = Some v" and s': "vault_tbl s' = (vault_tbl s)(i \<mapsto> v\<lparr>tv_claimed := True\<rparr>)"
      "vault_counter s' = vault_counter s" "\<not> is_locked s'"
    by (auto simp: commits_iff claim_Ok)
  from inv have tbl: "tbl_ok (\<lambda>i v. tv_vault_id v = i \<and> 0 < tv_amount v \<and> tv_bonus_multiplier v = BONUS_BPS)
      (unwrap_or (vault_counter s) 0) (vault_tbl s)" by (simp add: vault_inv_def)
  then show ?thesis using tbl_ok_upd[OF tbl v] tbl_ok_get[OF tbl v] s' by (simp add: vault_inv_def)
qed

text \<open>A vault, once claimed, is never written again.\<close>

lemma vault_step_claimed:
  "vault_inv s \<Longrightarrow> vault_step env s s' \<Longrightarrow> vault_tbl s i = Some v \<Longrightarrow> tv_claimed v \<Longrightarrow> vault_tbl s' i = Some v"
  by (erule vault_step.cases) (auto simp: commits_iff deposit_Ok claim_Ok vault_inv_def Let_def dest: tbl_ok_keep)

interpretation vaults: step_system "\<lambda>s s'. \<exists>env. vault_step env s s'" "vault_inv :: 'a vault_store_scheme \<Rightarrow> bool"
  by unfold_locales (auto intro: vault_step_inv)

interpretation claimed_vault: step_system "\<lambda>s s'. \<exists>env. vault_step env s s'"
  "\<lambda>s::'a vault_store_scheme. vault_inv s \<and> vault_tbl s i = Some v \<and> tv_claimed v" for i v
  by unfold_locales (auto intro: vault_step_inv vault_step_claimed)

lemma deposit_frees: "deposit_treasure env owner ship amount s = (Ok v, s') \<Longrightarrow> \<not> is_locked s'"
  by (auto simp: deposit_Ok Let_def)

lemma deposit_stores: "deposit_treasure env owner ship amount s = (Ok v, s') \<Longrightarrow> vault_tbl s' (tv_vault_id v) = Some v"
  by (auto simp: deposit_Ok Let_def)

lemma claim_locked: "\<not> is_locked s \<Longrightarrow> auth env owner \<Longrightarrow> vault_tbl s i = Some v \<Longrightarrow> tv_owner v = owner \<Longrightarrow>
    \<not> tv_claimed v \<Longrightarrow> timestamp env < tv_lock_until v \<Longrightarrow> fst (claim_treasure env owner i s) = Err VaultError.StillLocked"
  by (simp add: claim_treasure_def with_guard_def acquire_def is_locked_def claim_treasure_unguarded_def)

lemma claim_claimed: "\<not> is_locked s \<Longrightarrow> auth env owner \<Longrightarrow> vault_tbl s i = Some v \<Longrightarrow> tv_owner v = owner \<Longrightarrow>
    tv_claimed v \<Longrightarrow> fst (claim_treasure env owner i s) = Err VaultError.AlreadyClaimed"
  by (simp add: claim_treasure_def with_guard_def acquire_def is_locked_def claim_treasure_unguarded_def)

definition no_vaults :: vault_store where
  "no_vaults = ship_store.extend no_ships \<lparr>vault_tbl = Map.empty, vault_counter = None, min_lock_duration = None\<rparr>"

lemma no_vaults_inv: "vault_inv no_vaults"
  by (simp add: no_vaults_def no_ships_def ship_store.defs vault_inv_def is_locked_def)

definition one_vault :: vault_store where
  "one_vault = snd (deposit_treasure (signed_at 100 1) (Addr 1) 7 500 no_vaults)"

lemma one_vault_deposited: "deposit_treasure (signed_at 100 1) (Addr 1) 7 500 no_vaults =
    (Ok \<lparr>tv_vault_id = 1, tv_owner = Addr 1, tv_ship_id = 7, tv_amount = 500, tv_lock_until = 604900,
       tv_bonus_multiplier = BONUS_BPS, tv_claimed = False\<rparr>, one_vault)"
  unfolding one_vault_def
  by (simp add: deposit_treasure_def with_guard_def acquire_def deposit_treasure_unguarded_def next_vault_id_def
      no_vaults_def no_ships_def ship_store.defs get_min_lock_duration_def checked_add_def Let_def)

section \<open>Properties\<close>

text \<open>A vault pays its deposit plus ten percent, and never early. After a deposit at time
  \<open>now\<close> with the default lock, as long as the vault entry is untouched and the guard is free, the
  owner's claim is refused with \<open>StillLocked\<close> at every time before \<open>now + 604800\<close>, and from then on
  pays exactly \<open>amount + amount / 10\<close> whenever \<open>amount * 1000\<close> fits in a \<open>u64\<close>.\<close>

lemma vault_deposit_claim:
  assumes dep: "deposit_treasure env owner ship amount s = (Ok v, s1)"
    and lock: "min_lock_duration s = None"
    and later: "vault_tbl s2 (tv_vault_id v) = vault_tbl s1 (tv_vault_id v)" "\<not> is_locked s2" "auth env2 owner"
  shows "(timestamp env2 < timestamp env + DEFAULT_MIN_LOCK_DURATION \<longrightarrow>
      fst (claim_treasure env2 owner (tv_vault_id v) s2) = Err VaultError.StillLocked)
    \<and> (timestamp env + DEFAULT_MIN_LOCK_DURATION \<le> timestamp env2 \<and> amount * 1000 \<le> u64_max \<longrightarrow>
      fst (claim_treasure env2 owner (tv_vault_id v) s2) = Ok (amount + amount div 10))"
proof (intro conjI impI)
  from dep lock have v: "vault_tbl s2 (tv_vault_id v) = Some v" "tv_owner v = owner" "\<not> tv_claimed v"
      "tv_lock_until v = timestamp env + DEFAULT_MIN_LOCK_DURATION" "tv_amount v = amount" "tv_bonus_multiplier v = BONUS_BPS"
    using later(1) by (auto simp: deposit_Ok Let_def get_min_lock_duration_def)
  { assume "timestamp env2 < timestamp env + DEFAULT_MIN_LOCK_DURATION"
    then show "fst (claim_treasure env2 owner (tv_vault_id v) s2) = Err VaultError.StillLocked"
      using claim_locked[OF later(2,3) v(1,2,3)] v(4) by simp }
  assume "timestamp env + DEFAULT_MIN_LOCK_DURATION \<le> timestamp env2 \<and> amount * 1000 \<le> u64_max"
  then have "\<exists>s3. claim_treasure env2 owner (tv_vault_id v) s2 = (Ok (amount + amount div 10), s3)"
    using v later by (simp add: claim_Ok payout_default)
  then show "fst (claim_treasure env2 owner (tv_vault_id v) s2) = Ok (amount + amount div 10)" by force
qed

lemma vault_deposit_claim_example:
  "fst (claim_treasure (signed_at 604899 2) (Addr 1) 1 one_vault) = Err VaultError.StillLocked
   \<and> fst (claim_treasure (signed_at 604900 2) (Addr 1) 1 one_vault) = Ok 550"
proof -
  have free: "\<not> is_locked one_vault" "min_lock_duration no_vaults = None"
    using deposit_frees[OF one_vault_deposited] by (simp_all add: no_vaults_def ship_store.defs)
  note dep = vault_deposit_claim[OF one_vault_deposited free(2) refl free(1)]
  show ?thesis using dep[of "signed_at 604899 2"] dep[of "signed_at 604900 2"] by simp
qed

text \<open>C5. A vault pays at most once. After a successful claim, whatever deposits and claims by
  whichever callers follow, a further claim by the owner is refused with \<open>AlreadyClaimed\<close>, and nobody
  else's claim of that vault succeeds.\<close>

theorem vault_single_payout:
  assumes inv: "vault_inv s" and claim: "claim_treasure env owner i s = (Ok p, s1)"
    and run: "(\<lambda>s s'. \<exists>env. vault_step env s s')\<^sup>*\<^sup>* s1 s2" and signed: "auth env2 owner"
  shows "fst (claim_treasure env2 owner i s2) = Err VaultError.AlreadyClaimed
    \<and> (\<forall>other q s3. claim_treasure env2 other i s2 \<noteq> (Ok q, s3))"
proof -
  from claim obtain v where v: "tv_owner v = owner" "vault_tbl s1 i = Some (v\<lparr>tv_claimed := True\<rparr>)"
    by (auto simp: claim_Ok)
  have "vault_inv s1" using vault_step_inv[OF inv vault_step.claim[OF commitsI[of "claim_treasure env owner i", OF claim]]] .
  with v have "vault_inv s2 \<and> vault_tbl s2 i = Some (v\<lparr>tv_claimed := True\<rparr>) \<and> tv_claimed (v\<lparr>tv_claimed := True\<rparr>)"
    using claimed_vault.run_inv[OF run, of i "v\<lparr>tv_claimed := True\<rparr>"] by simp
  then show ?thesis using v(1) signed claim_claimed[of s2 env2 owner i "v\<lparr>tv_claimed := True\<rparr>"]
    by (auto simp: claim_Ok vault_inv_def)
qed

theorem vault_single_payout_witness:
  "\<exists>s1. claim_treasure (signed_at 604900 2) (Addr 1) 1 one_vault = (Ok 550, s1)
     \<and> fst (claim_treasure (signed_at 700000 3) (Addr 1) 1 s1) = Err VaultError.AlreadyClaimed"
proof -
  have one: "vault_inv one_vault"
    using vault_step_inv[OF no_vaults_inv vault_step.deposit[OF commitsI[of "deposit_treasure (signed_at 100 1) (Addr 1) 7 500", OF one_vault_deposited]]] .
  obtain s1 where claim: "claim_treasure (signed_at 604900 2) (Addr 1) 1 one_vault = (Ok 550, s1)"
    using deposit_frees[OF one_vault_deposited] deposit_stores[OF one_vault_deposited]
    by (simp add: claim_Ok payout_default)
  with vault_single_payout[OF one claim, of s1 "signed_at 700000 3"] show ?thesis by auto
qed

end
