(* ===== verification/Escrow_Trader.thy ===== *)
theory Escrow_Trader
  imports Treasure_Vault
begin

text \<open>
  \<open>src/escrow_trader.rs\<close>: two-party escrows. \<open>initiate_escrow\<close> opens an escrow confirmed by its
  initiator, the other party confirms, anybody completes before expiry, either party cancels before
  completion. Completion and cancellation run under the global guard; opening and confirming do not.
\<close>

section \<open>Model\<close>

abbreviation ESCROW_EXPIRY :: u64 where "ESCROW_EXPIRY \<equiv> 172800"
abbreviation MAX_CONCURRENT_ESCROWS :: u32 where "MAX_CONCURRENT_ESCROWS \<equiv> 5"

datatype EscrowError = TradeExpired | AlreadyConfirmed | NotParticipant | EscrowNotFound | MaxEscrowsReached
  | InvalidAssets | NotFullyConfirmed | Reentrancy

definition escrow_from_reentrancy :: "ReentrancyError \<Rightarrow> EscrowError" where
  "escrow_from_reentrancy e = EscrowError.Reentrancy"

record TradeAsset =
  ta_asset_type :: symbol
  ta_asset_id :: u64
  ta_quantity :: i128

record Escrow =
  es_escrow_id :: u64
  es_trader_a :: address
  es_trader_b :: address
  es_assets_a :: "TradeAsset list"
  es_assets_b :: "TradeAsset list"
  es_confirmed_a :: bool
  es_confirmed_b :: bool
  es_completed :: bool
  es_created_at :: u64
  es_expires_at :: u64

record EscrowResult =
  er_escrow_id :: u64
  er_trader_a :: address
  er_trader_b :: address
  er_completed :: bool

record escrow_store = vault_store +
  escrow_counter :: "u64 option"
  escrow_data :: "u64 \<rightharpoonup> Escrow"
  player_escrow_count :: "address \<rightharpoonup> u32"
  escrow_confirmation :: "(u64 \<times> address) \<rightharpoonup> bool"

definition initiate_escrow :: "env \<Rightarrow> address \<Rightarrow> address \<Rightarrow> TradeAsset list \<Rightarrow> TradeAsset list
    \<Rightarrow> 'a escrow_store_scheme \<Rightarrow> (EscrowError, Escrow) outcome \<times> 'a escrow_store_scheme" where
  "initiate_escrow env trader_a trader_b assets_a assets_b s =
    (if \<not> auth env trader_a then (Panic, s)
     else if assets_a = [] \<or> assets_b = [] then (Err EscrowError.InvalidAssets, s)
     else let escrow_count_a = unwrap_or (player_escrow_count s trader_a) 0 in
       if escrow_count_a \<ge> MAX_CONCURRENT_ESCROWS then (Err EscrowError.MaxEscrowsReached, s)
       else case checked_add u64_max (unwrap_or (escrow_counter s) 0) 1 of
         None \<Rightarrow> (Panic, s)
       | Some counter \<Rightarrow>
           let s = s\<lparr>escrow_counter := Some counter\<rparr>;
               current_time = timestamp env in
           case checked_add u64_max current_time ESCROW_EXPIRY of
             None \<Rightarrow> (Panic, s)
           | Some expires_at \<Rightarrow>
               let escrow = \<lparr>es_escrow_id = counter, es_trader_a = trader_a, es_trader_b = trader_b,
                     es_assets_a = assets_a, es_assets_b = assets_b, es_confirmed_a = True, es_confirmed_b = False,
                     es_completed = False, es_created_at = current_time, es_expires_at = expires_at\<rparr>;
                   s = s\<lparr>escrow_data := (escrow_data s)(counter \<mapsto> escrow)\<rparr>;
                   s = s\<lparr>player_escrow_count := (player_escrow_count s)(trader_a \<mapsto> escrow_count_a + 1)\<rparr>;
                   s = s\<lparr>escrow_confirmation := (escrow_confirmation s)((counter, trader_a) \<mapsto> True)\<rparr>
               in (Ok escrow, publish [SS ''escrow'', SS ''init''] [SU counter, SA trader_a, SA trader_b] s))"

definition confirm_escrow :: "env \<Rightarrow> u64 \<Rightarrow> address
    \<Rightarrow> 'a escrow_store_scheme \<Rightarrow> (EscrowError, Escrow) outcome \<times> 'a escrow_store_scheme" where
  "confirm_escrow env escrow_id trader s =
    (if \<not> auth env trader then (Panic, s)
     else case escrow_data s escrow_id of
       None \<Rightarrow> (Err EscrowError.EscrowNotFound, s)
     | Some escrow \<Rightarrow>
         if timestamp env > es_expires_at escrow then (Err EscrowError.TradeExpired, s)
         else if trader \<noteq> es_trader_a escrow \<and> trader \<noteq> es_trader_b escrow then (Err EscrowError.NotParticipant, s)
         else if unwrap_or (escrow_confirmation s (escrow_id, trader)) False then (Err EscrowError.AlreadyConfirmed, s)
         else let escrow = (if trader = es_trader_a escrow then escrow\<lparr>es_confirmed_a := True\<rparr>
                            else escrow\<lparr>es_confirmed_b := True\<rparr>);
                  s = s\<lparr>escrow_confirmation := (escrow_confirmation s)((escrow_id, trader) \<mapsto> True)\<rparr>;
                  s = s\<lparr>escrow_data := (escrow_data s)(escrow_id \<mapsto> escrow)\<rparr>
              in (Ok escrow, s))"

text \<open>The counts fall back to 1 when absent, so that the saturating decrement writes 0.\<close>

definition decrement_count :: "address \<Rightarrow> 'a escrow_store_scheme \<Rightarrow> 'a escrow_store_scheme" where
  "decrement_count trader s = s\<lparr>player_escrow_count := (player_escrow_count s)
     (trader \<mapsto> saturating_sub (unwrap_or (player_escrow_count s trader) 1) 1)\<rparr>"

definition complete_escrow :: "env \<Rightarrow> u64
    \<Rightarrow> 'a escrow_store_scheme \<Rightarrow> (EscrowError, EscrowResult) outcome \<times> 'a escrow_store_scheme" where
  "complete_escrow env escrow_id = with_guard escrow_from_reentrancy (\<lambda>s.
     case escrow_data s escrow_id of
       None \<Rightarrow> (Err EscrowError.EscrowNotFound, s)
     | Some escrow \<Rightarrow>
         if timestamp env > es_expires_at escrow then (Err EscrowError.TradeExpired, s)
         else if \<not> es_confirmed_a escrow \<or> \<not> es_confirmed_b escrow then (Err EscrowError.NotFullyConfirmed, s)
         else if es_completed escrow then (Err EscrowError.AlreadyConfirmed, s)
         else let escrow = escrow\<lparr>es_completed := True\<rparr>;
                  s = s\<lparr>escrow_data := (escrow_data s)(escrow_id \<mapsto> escrow)\<rparr>;
                  s = decrement_count (es_trader_a escrow) s;
                  s = decrement_count (es_trader_b escrow) s;
                  result = \<lparr>er_escrow_id = escrow_id, er_trader_a = es_trader_a escrow,
                    er_trader_b = es_trader_b escrow, er_completed = True\<rparr>
              in (Ok result, publish [SS ''escrow'', SS ''complete'']
                    [SU escrow_id, SA (es_trader_a escrow), SA (es_trader_b escrow)] s))"

definition cancel_escrow_unguarded :: "env \<Rightarrow> u64 \<Rightarrow> address
    \<Rightarrow> 'a escrow_store_scheme \<Rightarrow> (EscrowError, unit) outcome \<times> 'a escrow_store_scheme" where
  "cancel_escrow_unguarded env escrow_id trader s =
    (if \<not> auth env trader then (Panic, s)
     else case escrow_data s escrow_id of
       None \<Rightarrow> (Err EscrowError.EscrowNotFound, s)
     | Some escrow \<Rightarrow>
         if trader \<noteq> es_trader_a escrow \<and> trader \<noteq> es_trader_b escrow then (Err EscrowError.NotParticipant, s)
         else if es_completed escrow then (Err EscrowError.AlreadyConfirmed, s)
         else let s = s\<lparr>escrow_data := (escrow_data s)(escrow_id := None)\<rparr>;
                  s = decrement_count trader s
              in (Ok (), publish [SS ''escrow'', SS ''cancel''] [SU escrow_id, SA trader] s))"

definition cancel_escrow :: "env \<Rightarrow> u64 \<Rightarrow> address
    \<Rightarrow> 'a escrow_store_scheme \<Rightarrow> (EscrowError, unit) outcome \<times> 'a escrow_store_scheme" where
  "cancel_escrow env escrow_id trader = with_guard escrow_from_reentrancy (cancel_escrow_unguarded env escrow_id trader)"

definition get_escrow :: "u64 \<Rightarrow> 'a escrow_store_scheme \<Rightarrow> Escrow option" where
  "get_escrow escrow_id s = escrow_data s escrow_id"

section \<open>Invariant and steps\<close>

text \<open>Confirmation flags agree with the confirmation entries, a completed escrow was confirmed by
  both sides, every lifetime is the fixed one, and no player is above the limit.\<close>

definition escrow_entry_ok :: "((u64 \<times> address) \<rightharpoonup> bool) \<Rightarrow> u64 \<Rightarrow> Escrow \<Rightarrow> bool" where
  "escrow_entry_ok conf i e \<longleftrightarrow> es_escrow_id e = i \<and> es_assets_a e \<noteq> [] \<and> es_assets_b e \<noteq> [] \<and>
     es_confirmed_a e \<and> conf (i, es_trader_a e) = Some True \<and>
     (es_confirmed_b e \<longrightarrow> es_trader_a e \<noteq> es_trader_b e \<and> conf (i, es_trader_b e) = Some True) \<and>
     (es_completed e \<longrightarrow> es_confirmed_b e) \<and> es_expires_at e = es_created_at e + ESCROW_EXPIRY"

definition escrow_inv :: "'a escrow_store_scheme \<Rightarrow> bool" where
  "escrow_inv s \<longleftrightarrow> \<not> is_locked s \<and>
     tbl_ok (escrow_entry_ok (escrow_confirmation s)) (unwrap_or (escrow_counter s) 0) (escrow_data s) \<and>
     (\<forall>p. unwrap_or (player_escrow_count s p) 0 \<le> MAX_CONCURRENT_ESCROWS)"

text \<open>The events of a history: the environment of a committed call with the call and its arguments. \<open>Initiate\<close> carries the identifier
  that the call returned.\<close>

datatype escrow_call = Initiate address address "TradeAsset list" "TradeAsset list" u64
  | Confirm u64 address | Complete u64 | Cancel u64 address

inductive escrow_step :: "env \<times> escrow_call \<Rightarrow> 'a escrow_store_scheme \<Rightarrow> 'a escrow_store_scheme \<Rightarrow> bool" where
  initiate: "initiate_escrow env a b xs ys s = (Ok e, s') \<Longrightarrow> escrow_step (env, Initiate a b xs ys (es_escrow_id e)) s s'"
| confirm: "confirm_escrow env i t s = (Ok e, s') \<Longrightarrow> escrow_step (env, Confirm i t) s s'"
| complete: "complete_escrow env i s = (Ok r, s') \<Longrightarrow> escrow_step (env, Complete i) s s'"
| cancel: "cancel_escrow env i t s = (Ok u, s') \<Longrightarrow> escrow_step (env, Cancel i t) s s'"

section \<open>Lemmas\<close>

lemma publish_escrow_store [simp]:
  "escrow_counter (publish t d s) = escrow_counter s" "escrow_data (publish t d s) = escrow_data s"
  "player_escrow_count (publish t d s) = player_escrow_count s"
  "escrow_confirmation (publish t d s) = escrow_confirmation s"
  by (simp_all add: publish_def)

lemma initiate_escrow_Ok [ok_iff]: "initiate_escrow env a b xs ys s = (Ok e, s') \<longleftrightarrow>
    auth env a \<and> xs \<noteq> [] \<and> ys \<noteq> [] \<and> unwrap_or (player_escrow_count s a) 0 < MAX_CONCURRENT_ESCROWS \<and>
    (let i = Suc (unwrap_or (escrow_counter s) 0) in i \<le> u64_max \<and> timestamp env + ESCROW_EXPIRY \<le> u64_max \<and>
      e = \<lparr>es_escrow_id = i, es_trader_a = a, es_trader_b = b, es_assets_a = xs, es_assets_b = ys,
           es_confirmed_a = True, es_confirmed_b = False, es_completed = False, es_created_at = timestamp env,
           es_expires_at = timestamp env + ESCROW_EXPIRY\<rparr> \<and>
      s' = publish [SS ''escrow'', SS ''init''] [SU i, SA a, SA b]
        (s\<lparr>escrow_counter := Some i, escrow_data := (escrow_data s)(i \<mapsto> e),
           player_escrow_count := (player_escrow_count s)(a \<mapsto> unwrap_or (player_escrow_count s a) 0 + 1),
           escrow_confirmation := (escrow_confirmation s)((i, a) \<mapsto> True)\<rparr>))"
  by (simp add: initiate_escrow_def Let_def ok_rules not_le split del: if_split) blast

lemma confirm_escrow_Ok [ok_iff]: "confirm_escrow env i t s = (Ok e, s') \<longleftrightarrow>
    auth env t \<and> (\<exists>e0. escrow_data s i = Some e0 \<and> timestamp env \<le> es_expires_at e0 \<and>
      (t = es_trader_a e0 \<or> t = es_trader_b e0) \<and> \<not> unwrap_or (escrow_confirmation s (i, t)) False \<and>
      e = (if t = es_trader_a e0 then e0\<lparr>es_confirmed_a := True\<rparr> else e0\<lparr>es_confirmed_b := True\<rparr>) \<and>
      s' = s\<lparr>escrow_confirmation := (escrow_confirmation s)((i, t) \<mapsto> True), escrow_data := (escrow_data s)(i \<mapsto> e)\<rparr>)"
  by (simp add: confirm_escrow_def Let_def ok_rules not_less split del: if_split) blast

lemma complete_escrow_Ok [ok_iff]: "complete_escrow env i s = (Ok r, s') \<longleftrightarrow>
    \<not> is_locked s \<and> (\<exists>e. escrow_data s i = Some e \<and> timestamp env \<le> es_expires_at e \<and>
      es_confirmed_a e \<and> es_confirmed_b e \<and> \<not> es_completed e \<and>
      r = \<lparr>er_escrow_id = i, er_trader_a = es_trader_a e, er_trader_b = es_trader_b e, er_completed = True\<rparr> \<and>
      s' = (publish [SS ''escrow'', SS ''complete''] [SU i, SA (es_trader_a e), SA (es_trader_b e)]
        (decrement_count (es_trader_b e) (decrement_count (es_trader_a e)
          (s\<lparr>guard_lock := Some True, escrow_data := (escrow_data s)(i \<mapsto> e\<lparr>es_completed := True\<rparr>)\<rparr>))))
          \<lparr>guard_lock := Some False\<rparr>)"
  by (simp add: complete_escrow_def Let_def ok_rules not_less split del: if_split) blast

lemma cancel_escrow_Ok [ok_iff]: "cancel_escrow env i t s = (Ok r, s') \<longleftrightarrow>
    \<not> is_locked s \<and> auth env t \<and> (\<exists>e. escrow_data s i = Some e \<and>
      (t = es_trader_a e \<or> t = es_trader_b e) \<and> \<not> es_completed e \<and>
      s' = (publish [SS ''escrow'', SS ''cancel''] [SU i, SA t]
        (decrement_count t (s\<lparr>guard_lock := Some True, escrow_data := (escrow_data s)(i := None)\<rparr>)))
          \<lparr>guard_lock := Some False\<rparr>)"
  by (simp add: cancel_escrow_def cancel_escrow_unguarded_def Let_def ok_rules split del: if_split) blast

lemma decrement_count_frame [simp]:
  "escrow_data (decrement_count t s) = escrow_data s" "escrow_counter (decrement_count t s) = escrow_counter s"
  "escrow_confirmation (decrement_count t s) = escrow_confirmation s" "guard_lock (decrement_count t s) = guard_lock s"
  by (simp_all add: decrement_count_def)

lemma decrement_count_bound:
  "unwrap_or (player_escrow_count s p) 0 \<le> n \<Longrightarrow> unwrap_or (player_escrow_count (decrement_count t s) p) 0 \<le> n"
  by (cases "player_escrow_count s t") (auto simp: decrement_count_def saturating_sub_def)

lemma escrow_entry_mono:
  "escrow_entry_ok conf i e \<Longrightarrow> escrow_entry_ok (conf(k \<mapsto> True)) i e"
  by (auto simp: escrow_entry_ok_def)

lemma tbl_ok_mono: "tbl_ok P c m \<Longrightarrow> (\<And>i v. P i v \<Longrightarrow> Q i v) \<Longrightarrow> tbl_ok Q c m"
  by (simp add: tbl_ok_def)

lemma initiate_inv: "escrow_inv s \<Longrightarrow> initiate_escrow env a b xs ys s = (Ok e, s') \<Longrightarrow> escrow_inv s'"
  by (auto simp: escrow_inv_def initiate_escrow_Ok Let_def is_locked_def escrow_entry_ok_def
      intro!: tbl_ok_new elim!: tbl_ok_mono)

lemma confirm_inv:
  assumes "escrow_inv s" "confirm_escrow env i t s = (Ok e, s')"
  shows "escrow_inv s'"
proof -
  let ?conf = "escrow_confirmation s"
  from assms(1) have tbl: "tbl_ok (escrow_entry_ok ?conf) (unwrap_or (escrow_counter s) 0) (escrow_data s)"
    by (simp add: escrow_inv_def)
  from assms(2) obtain e0 where e0: "escrow_data s i = Some e0"
      "t = es_trader_a e0 \<or> t = es_trader_b e0" "\<not> unwrap_or (?conf (i, t)) False"
      "e = (if t = es_trader_a e0 then e0\<lparr>es_confirmed_a := True\<rparr> else e0\<lparr>es_confirmed_b := True\<rparr>)"
      "s' = s\<lparr>escrow_confirmation := ?conf((i, t) \<mapsto> True), escrow_data := (escrow_data s)(i \<mapsto> e)\<rparr>"
    by (auto simp: confirm_escrow_Ok)
  from tbl have tbl': "tbl_ok (escrow_entry_ok (?conf((i, t) \<mapsto> True))) (unwrap_or (escrow_counter s) 0) (escrow_data s)"
    by (rule tbl_ok_mono) (rule escrow_entry_mono)
  have "escrow_entry_ok (?conf((i, t) \<mapsto> True)) i e"
    using tbl_ok_get[OF tbl e0(1)] e0(2-4) by (auto simp: escrow_entry_ok_def)
  then show ?thesis using tbl_ok_upd[OF tbl' e0(1)] assms(1) e0(5) by (simp add: escrow_inv_def is_locked_def)
qed

lemma complete_inv:
  assumes "escrow_inv s" "complete_escrow env i s = (Ok r, s')"
  shows "escrow_inv s'"
proof -
  from assms(1) have tbl: "tbl_ok (escrow_entry_ok (escrow_confirmation s)) (unwrap_or (escrow_counter s) 0) (escrow_data s)"
    by (simp add: escrow_inv_def)
  from assms(2) obtain e where e: "escrow_data s i = Some e" "es_confirmed_b e" and
      s': "s' = (publish [SS ''escrow'', SS ''complete''] [SU i, SA (es_trader_a e), SA (es_trader_b e)]
        (decrement_count (es_trader_b e) (decrement_count (es_trader_a e)
          (s\<lparr>guard_lock := Some True, escrow_data := (escrow_data s)(i \<mapsto> e\<lparr>es_completed := True\<rparr>)\<rparr>))))
          \<lparr>guard_lock := Some False\<rparr>"
    unfolding complete_escrow_Ok by blast
  have "tbl_ok (escrow_entry_ok (escrow_confirmation s)) (unwrap_or (escrow_counter s) 0)
      ((escrow_data s)(i \<mapsto> e\<lparr>es_completed := True\<rparr>))"
    by (rule tbl_ok_upd[OF tbl e(1)]) (use tbl_ok_get[OF tbl e(1)] e(2) in \<open>simp add: escrow_entry_ok_def\<close>)
  then show ?thesis using assms(1) by (simp add: s' escrow_inv_def decrement_count_bound)
qed

lemma cancel_inv: "escrow_inv s \<Longrightarrow> cancel_escrow env i t s = (Ok r, s') \<Longrightarrow> escrow_inv s'"
  by (auto simp: escrow_inv_def cancel_escrow_Ok decrement_count_bound intro: tbl_ok_del)

lemma escrow_step_inv: "escrow_inv s \<Longrightarrow> escrow_step l s s' \<Longrightarrow> escrow_inv s'"
  by (erule escrow_step.cases) (auto intro: initiate_inv confirm_inv complete_inv cancel_inv)

text \<open>A completed escrow is final: no later step touches its entry.\<close>

lemma escrow_step_final:
  assumes "escrow_inv s" "escrow_step l s s'" "escrow_data s i = Some e" "es_completed e"
  shows "escrow_data s' i = Some e"
proof -
  from assms(1) have tbl: "tbl_ok (escrow_entry_ok (escrow_confirmation s)) (unwrap_or (escrow_counter s) 0) (escrow_data s)"
    by (simp add: escrow_inv_def)
  have conf: "escrow_confirmation s (i, es_trader_a e) = Some True" "escrow_confirmation s (i, es_trader_b e) = Some True"
    using tbl_ok_get[OF tbl assms(3)] assms(4) by (auto simp: escrow_entry_ok_def)
  show ?thesis using assms(2)
    by (cases rule: escrow_step.cases)
      (use assms(3,4) conf tbl_ok_keep[OF tbl assms(3)] in
        \<open>auto simp: initiate_escrow_Ok confirm_escrow_Ok complete_escrow_Ok cancel_escrow_Ok Let_def\<close>)
qed

interpretation escrows: step_system "\<lambda>s s'. \<exists>l. escrow_step l s s'" "escrow_inv :: 'a escrow_store_scheme \<Rightarrow> bool"
  by unfold_locales (auto intro: escrow_step_inv)

interpretation settled_escrow: step_system "\<lambda>s s'. \<exists>l. escrow_step l s s'"
  "\<lambda>s::'a escrow_store_scheme. escrow_inv s \<and> escrow_data s i = Some e \<and> es_completed e" for i e
  by unfold_locales (auto intro: escrow_step_inv escrow_step_final)

subsection \<open>Consent\<close>

text \<open>Every stored escrow goes back to the call that opened it, signed by its first trader with exactly the stored parties and assets, and
  the flag of the second trader to a later confirmation of this escrow, signed by that trader within its lifetime.\<close>

definition opened_in :: "(env \<times> escrow_call) list \<Rightarrow> u64 \<Rightarrow> Escrow \<Rightarrow> bool" where
  "opened_in evs i e \<longleftrightarrow> (\<exists>env. (env, Initiate (es_trader_a e) (es_trader_b e) (es_assets_a e) (es_assets_b e) i) \<in> set evs
     \<and> auth env (es_trader_a e) \<and> timestamp env = es_created_at e)"

definition agreed_in :: "(env \<times> escrow_call) list \<Rightarrow> u64 \<Rightarrow> Escrow \<Rightarrow> bool" where
  "agreed_in evs i e \<longleftrightarrow> (\<exists>pre env post. evs = pre @ (env, Confirm i (es_trader_b e)) # post \<and> opened_in pre i e
     \<and> auth env (es_trader_b e) \<and> timestamp env \<le> es_expires_at e)"

definition consented :: "(env \<times> escrow_call) list \<Rightarrow> 'a escrow_store_scheme \<Rightarrow> bool" where
  "consented evs s \<longleftrightarrow> (\<forall>i e. escrow_data s i = Some e \<longrightarrow> opened_in evs i e \<and> (es_confirmed_b e \<longrightarrow> agreed_in evs i e))"

lemma opened_in_mono: "opened_in evs i e \<Longrightarrow> opened_in (evs @ later) i e"
  by (auto simp: opened_in_def)

lemma agreed_in_mono: "agreed_in evs i e \<Longrightarrow> agreed_in (evs @ later) i e"
  by (fastforce simp: agreed_in_def)

lemma consent_flags [simp]:
  "opened_in evs i (e\<lparr>es_confirmed_a := x\<rparr>) = opened_in evs i e" "opened_in evs i (e\<lparr>es_confirmed_b := x\<rparr>) = opened_in evs i e"
  "opened_in evs i (e\<lparr>es_completed := x\<rparr>) = opened_in evs i e"
  "agreed_in evs i (e\<lparr>es_confirmed_a := x\<rparr>) = agreed_in evs i e" "agreed_in evs i (e\<lparr>es_confirmed_b := x\<rparr>) = agreed_in evs i e"
  "agreed_in evs i (e\<lparr>es_completed := x\<rparr>) = agreed_in evs i e"
  by (simp_all add: opened_in_def agreed_in_def)

lemma agreed_in_confirm:
  "opened_in evs i e \<Longrightarrow> auth env (es_trader_b e) \<Longrightarrow> timestamp env \<le> es_expires_at e \<Longrightarrow> agreed_in (evs @ [(env, Confirm i (es_trader_b e))]) i e"
  unfolding agreed_in_def by blast

lemma consented_get:
  "consented evs s \<Longrightarrow> escrow_data s i = Some e \<Longrightarrow> opened_in evs i e \<and> (es_confirmed_b e \<longrightarrow> agreed_in evs i e)"
  by (simp add: consented_def)

lemma consented_upd:
  "consented evs s \<Longrightarrow> escrow_data s' = (escrow_data s)(i := x) \<Longrightarrow>
   (\<And>e. x = Some e \<Longrightarrow> opened_in (evs @ [l]) i e \<and> (es_confirmed_b e \<longrightarrow> agreed_in (evs @ [l]) i e)) \<Longrightarrow> consented (evs @ [l]) s'"
  by (auto simp: consented_def intro: opened_in_mono agreed_in_mono)

lemma escrow_step_consented:
  assumes "consented evs s" and step: "escrow_step l s s'"
  shows "consented (evs @ [l]) s'"
  using step
proof (cases rule: escrow_step.cases)
  case (initiate env a b xs ys e)
  then show ?thesis
    by (intro consented_upd[OF assms(1), where i = "es_escrow_id e" and x = "Some e"]) (auto simp: initiate_escrow_Ok Let_def opened_in_def)
next
  case (confirm env i t e)
  then obtain e0 where e0: "escrow_data s i = Some e0" "auth env t" "t = es_trader_a e0 \<or> t = es_trader_b e0" "timestamp env \<le> es_expires_at e0" and
      s': "escrow_data s' = (escrow_data s)(i \<mapsto> (if t = es_trader_a e0 then e0\<lparr>es_confirmed_a := True\<rparr> else e0\<lparr>es_confirmed_b := True\<rparr>))"
    by (auto simp: confirm_escrow_Ok)
  note old = consented_get[OF assms(1) e0(1)]
  have "t \<noteq> es_trader_a e0 \<Longrightarrow> agreed_in (evs @ [l]) i e0" using agreed_in_confirm[of evs i e0 env] old e0 confirm(1) by auto
  with old show ?thesis by (intro consented_upd[OF assms(1) s']) (auto split: if_splits intro: opened_in_mono agreed_in_mono)
next
  case (complete env i r)
  then obtain e where e: "escrow_data s i = Some e" and s': "escrow_data s' = (escrow_data s)(i \<mapsto> e\<lparr>es_completed := True\<rparr>)"
    by (auto simp: complete_escrow_Ok)
  show ?thesis using consented_get[OF assms(1) e] by (intro consented_upd[OF assms(1) s']) (auto intro: opened_in_mono agreed_in_mono)
next
  case (cancel env i t u)
  then show ?thesis by (intro consented_upd[OF assms(1), where i = i and x = None]) (auto simp: cancel_escrow_Ok)
qed

lemma escrow_runs:
  "runs escrow_step evs s s' \<Longrightarrow> escrow_inv s \<Longrightarrow> consented [] s \<Longrightarrow> escrow_inv s' \<and> consented evs s'"
  by (induction rule: runs.induct) (auto intro: escrow_step_inv escrow_step_consented)

definition no_escrows :: escrow_store where
  "no_escrows = vault_store.extend no_vaults \<lparr>escrow_counter = None, escrow_data = Map.empty,
     player_escrow_count = Map.empty, escrow_confirmation = Map.empty\<rparr>"

lemma no_escrows_ok: "escrow_inv no_escrows" "escrow_data no_escrows = Map.empty"
  by (simp_all add: no_escrows_def no_vaults_def no_ships_def ship_store.defs vault_store.defs escrow_inv_def
      is_locked_def)

abbreviation one_asset :: "TradeAsset list" where
  "one_asset \<equiv> [\<lparr>ta_asset_type = ''ship'', ta_asset_id = 1, ta_quantity = 1\<rparr>]"

definition opened :: escrow_store where
  "opened = snd (initiate_escrow (signed_at 10 1) (Addr 1) (Addr 2) one_asset one_asset no_escrows)"

definition confirmed :: escrow_store where
  "confirmed = snd (confirm_escrow (signed_at 20 2) 1 (Addr 2) opened)"

definition completed :: escrow_store where
  "completed = snd (complete_escrow (signed_at 30 3) 1 confirmed)"

lemma opened_Ok: "\<exists>e. initiate_escrow (signed_at 10 1) (Addr 1) (Addr 2) one_asset one_asset no_escrows = (Ok e, opened)"
  and confirmed_Ok: "\<exists>e. confirm_escrow (signed_at 20 2) 1 (Addr 2) opened = (Ok e, confirmed)"
  and completed_Ok: "complete_escrow (signed_at 30 3) 1 confirmed =
    (Ok \<lparr>er_escrow_id = 1, er_trader_a = Addr 1, er_trader_b = Addr 2, er_completed = True\<rparr>, completed)"
  by (simp_all add: opened_def confirmed_def completed_def initiate_escrow_def confirm_escrow_def complete_escrow_def
      no_escrows_def no_vaults_def no_ships_def ship_store.defs vault_store.defs checked_add_def with_guard_def
      acquire_def Let_def)

definition demo_calls :: "(env \<times> escrow_call) list" where
  "demo_calls = [(signed_at 10 1, Initiate (Addr 1) (Addr 2) one_asset one_asset 1), (signed_at 20 2, Confirm 1 (Addr 2))]"

lemma demo_run: "runs escrow_step demo_calls no_escrows confirmed"
proof -
  obtain e where e: "initiate_escrow (signed_at 10 1) (Addr 1) (Addr 2) one_asset one_asset no_escrows = (Ok e, opened)"
    using opened_Ok by blast
  then have "es_escrow_id e = 1" by (auto simp: initiate_escrow_Ok Let_def no_escrows_def vault_store.defs)
  with escrow_step.initiate[OF e] have 1: "escrow_step (signed_at 10 1, Initiate (Addr 1) (Addr 2) one_asset one_asset 1) no_escrows opened" by simp
  have "escrow_step (signed_at 20 2, Confirm 1 (Addr 2)) opened confirmed" using confirmed_Ok by (blast intro: escrow_step.confirm)
  with runs_snoc[OF runs_single[of escrow_step, OF 1]] show ?thesis by (simp add: demo_calls_def)
qed

section \<open>Properties\<close>

text \<open>C6. An escrow settles only by mutual consent to this escrow, in time. In any history of escrow operations that
  starts with no escrows, when \<open>complete_escrow\<close> succeeds on an escrow, the escrow is within its fixed lifetime and its two
  traders are different addresses; the history contains the call that opened this escrow, made and signed by its first trader at its
  creation time with exactly the parties and assets that are settled, and after it a confirmation of this escrow's identifier made and signed by
  its second trader within the lifetime.\<close>

theorem escrow_completion_consent:
  assumes start: "escrow_inv s" "escrow_data s = Map.empty" and run: "runs escrow_step evs s t"
    and fin: "complete_escrow env i t = (Ok r, t')"
  shows "\<exists>e before between after env1 env2. escrow_data t i = Some e \<and> timestamp env \<le> es_created_at e + ESCROW_EXPIRY
    \<and> es_trader_a e \<noteq> es_trader_b e
    \<and> evs = before @ (env1, Initiate (es_trader_a e) (es_trader_b e) (es_assets_a e) (es_assets_b e) i) # between
             @ (env2, Confirm i (es_trader_b e)) # after
    \<and> auth env1 (es_trader_a e) \<and> timestamp env1 = es_created_at e
    \<and> auth env2 (es_trader_b e) \<and> timestamp env2 \<le> es_created_at e + ESCROW_EXPIRY"
proof -
  have "consented [] s" using start(2) by (simp add: consented_def)
  from escrow_runs[OF run start(1) this] have inv: "escrow_inv t" and con: "consented evs t" by auto
  from fin obtain e where e: "escrow_data t i = Some e" "timestamp env \<le> es_expires_at e" "es_confirmed_b e"
    by (auto simp: complete_escrow_Ok)
  have ok: "escrow_entry_ok (escrow_confirmation t) i e" using inv e(1) by (auto simp: escrow_inv_def intro: tbl_ok_get)
  from consented_get[OF con e(1)] e(3) obtain pre env2 after where
    b: "evs = pre @ (env2, Confirm i (es_trader_b e)) # after" "opened_in pre i e" "auth env2 (es_trader_b e)" "timestamp env2 \<le> es_expires_at e"
    by (auto simp: agreed_in_def)
  from b(2) obtain before env1 between where
    "pre = before @ (env1, Initiate (es_trader_a e) (es_trader_b e) (es_assets_a e) (es_assets_b e) i) # between"
    "auth env1 (es_trader_a e)" "timestamp env1 = es_created_at e"
    by (auto simp: opened_in_def dest!: split_list)
  then show ?thesis using b(1,3,4) e ok
    by (intro exI[of _ e] exI[of _ before] exI[of _ between] exI[of _ after] exI[of _ env1] exI[of _ env2]) (simp add: escrow_entry_ok_def)
qed

theorem escrow_completion_consent_witness:
  "\<exists>e env2. escrow_data confirmed 1 = Some e \<and> es_trader_a e \<noteq> es_trader_b e \<and> (env2, Confirm 1 (es_trader_b e)) \<in> set demo_calls
     \<and> auth env2 (es_trader_b e)"
  using escrow_completion_consent[OF no_escrows_ok demo_run completed_Ok] by (metis append_Cons append_assoc in_set_conv_decomp)

text \<open>A completed escrow is final. Whatever operations follow a successful completion, its
  entry stays as it was left, no completion of it succeeds again, and neither party can cancel it:
  the attempt is refused with \<open>AlreadyConfirmed\<close>.\<close>

lemma escrow_completed_final:
  assumes inv: "escrow_inv s" and fin: "complete_escrow env i s = (Ok r, s1)"
    and run: "(\<lambda>s s'. \<exists>l. escrow_step l s s')\<^sup>*\<^sup>* s1 s2"
  shows "escrow_data s2 i = escrow_data s1 i
    \<and> (\<forall>env2 r2 s3. complete_escrow env2 i s2 \<noteq> (Ok r2, s3))
    \<and> (\<forall>env2 t. auth env2 t \<and> (t = er_trader_a r \<or> t = er_trader_b r) \<longrightarrow>
        fst (cancel_escrow env2 i t s2) = Err EscrowError.AlreadyConfirmed)"
proof -
  from fin obtain e where e: "escrow_data s1 i = Some e" "es_completed e" "er_trader_a r = es_trader_a e" "er_trader_b r = es_trader_b e"
    by (auto simp: complete_escrow_Ok)
  have "escrow_inv s1" using complete_inv[OF inv fin] .
  with e run have s2: "escrow_inv s2" "escrow_data s2 i = Some e"
    using settled_escrow.run_inv[OF run, of i e] by auto
  then have free: "\<not> unwrap_or (guard_lock s2) False" by (simp add: escrow_inv_def is_locked_def)
  show ?thesis using s2(2) e free
    by (auto simp: complete_escrow_Ok cancel_escrow_def cancel_escrow_unguarded_def with_guard_def acquire_def)
qed

lemma escrow_completed_final_example:
  "fst (cancel_escrow (signed_at 31 4) 1 (Addr 1) completed) = Err EscrowError.AlreadyConfirmed"
  using escrow_completed_final[of confirmed "signed_at 30 3" 1 _ completed completed, OF _ completed_Ok]
    escrows.run_inv[OF runs_steps[OF demo_run] no_escrows_ok(1)] by simp

text \<open>Cancelling by the counterparty leaks the initiator's slot. Opening an escrow takes one of
  the initiator's five slots; when the counterparty cancels it, the escrow is gone but the
  initiator's count stays one higher, and an initiator whose count has reached five is refused every
  further escrow.\<close>

lemma escrow_cancel_leaks_slot:
  assumes "\<not> is_locked s" and "initiate_escrow env a b xs ys s = (Ok e, s1)" and "a \<noteq> b" and "auth env2 b"
  shows "\<exists>s2. cancel_escrow env2 (es_escrow_id e) b s1 = (Ok (), s2) \<and> escrow_data s2 (es_escrow_id e) = None
    \<and> unwrap_or (player_escrow_count s2 a) 0 = unwrap_or (player_escrow_count s a) 0 + 1
    \<and> (unwrap_or (player_escrow_count s2 a) 0 = MAX_CONCURRENT_ESCROWS \<longrightarrow>
        (\<forall>env3 c xs ys. auth env3 a \<and> xs \<noteq> [] \<and> ys \<noteq> [] \<longrightarrow>
          initiate_escrow env3 a c xs ys s2 = (Err EscrowError.MaxEscrowsReached, s2)))"
proof -
  from assms(1,2) have free: "\<not> is_locked s1" and e: "escrow_data s1 (es_escrow_id e) = Some e" "es_trader_b e = b" "\<not> es_completed e"
      and n: "unwrap_or (player_escrow_count s1 a) 0 = unwrap_or (player_escrow_count s a) 0 + 1"
    by (auto simp: initiate_escrow_Ok Let_def is_locked_def)
  from free e assms(4) obtain s2 where s2: "cancel_escrow env2 (es_escrow_id e) b s1 = (Ok (), s2)"
    unfolding cancel_escrow_Ok by blast
  then have "escrow_data s2 (es_escrow_id e) = None" "player_escrow_count s2 a = player_escrow_count s1 a"
    using assms(3) by (auto simp: cancel_escrow_Ok decrement_count_def)
  with s2 n show ?thesis by (auto simp: initiate_escrow_def)
qed

lemma escrow_cancel_leaks_slot_example:
  "\<exists>s2. cancel_escrow (signed_at 20 2) 1 (Addr 2) opened = (Ok (), s2) \<and> player_escrow_count s2 (Addr 1) = Some 1"
proof -
  obtain e where e: "initiate_escrow (signed_at 10 1) (Addr 1) (Addr 2) one_asset one_asset no_escrows = (Ok e, opened)"
    using opened_Ok by blast
  then have "es_escrow_id e = 1" "player_escrow_count no_escrows = Map.empty"
    by (auto simp: initiate_escrow_Ok Let_def no_escrows_def vault_store.defs)
  with escrow_cancel_leaks_slot[OF _ e, of "signed_at 20 2"] no_escrows_ok(1)
  obtain s2 where "cancel_escrow (signed_at 20 2) 1 (Addr 2) opened = (Ok (), s2)" "unwrap_or (player_escrow_count s2 (Addr 1)) 0 = 1"
    by (auto simp: escrow_inv_def)
  then show ?thesis by (cases "player_escrow_count s2 (Addr 1)") auto
qed

end
