(* ===== verification/Nomad_Bonding.thy ===== *)
theory Nomad_Bonding
  imports Escrow_Trader "HOL-Library.Option_ord"
begin

text \<open>
  \<open>src/nomad_bonding.rs\<close>: bonds between two players and the delegation of a percentage of the
  delegator's cosmic essence to the other party. The bond status is ordered
  (\<open>Pending < Active < Dissolved\<close>) and only ever moves up; the essence balances form a closed
  ledger that grows only by \<open>accrue_essence\<close>.
\<close>

section \<open>Model\<close>

datatype BondError = SelfBond | BondNotFound | NotDesignatedPartner | BondNotPending | InvalidPercentage
  | BondNotActive | NotBondMember | NoDelegation | NotBeneficiary | AlreadyDissolved | NotBondParty
  | ArithmeticOverflow | Reentrancy

definition bond_from_reentrancy :: "ReentrancyError \<Rightarrow> BondError" where
  "bond_from_reentrancy e = BondError.Reentrancy"

datatype BondStatus = Pending | Active | Dissolved

fun status_rank :: "BondStatus \<Rightarrow> nat" where
  "status_rank Pending = 0"
| "status_rank Active = 1"
| "status_rank Dissolved = 2"

lemma status_rank_inject: "status_rank a = status_rank b \<Longrightarrow> a = b"
  by (cases a; cases b) auto

lemma status_rank_le [simp]: "status_rank a \<le> 2"
  by (cases a) auto

instantiation BondStatus :: linorder
begin

definition less_eq_BondStatus :: "BondStatus \<Rightarrow> BondStatus \<Rightarrow> bool" where
  "a \<le> b \<longleftrightarrow> status_rank a \<le> status_rank b"

definition less_BondStatus :: "BondStatus \<Rightarrow> BondStatus \<Rightarrow> bool" where
  "a < b \<longleftrightarrow> status_rank a < status_rank b"

instance
  by standard (auto simp: less_eq_BondStatus_def less_BondStatus_def intro: status_rank_inject)

end

record NomadBond =
  nb_bond_id :: u64
  nb_initiator :: address
  nb_partner :: address
  nb_ship_id :: u64
  nb_status :: BondStatus
  nb_created_at :: u64

record YieldDelegation =
  yd_bond_id :: u64
  yd_delegator :: address
  yd_beneficiary :: address
  yd_percentage :: u32
  yd_total_yielded :: u64

record bond_store = escrow_store +
  bond_counter :: "u64 option"
  bond_tbl :: "u64 \<rightharpoonup> NomadBond"
  yield_del :: "u64 \<rightharpoonup> YieldDelegation"
  essence :: "address \<rightharpoonup> u64"

definition next_bond_id :: "'a bond_store_scheme \<Rightarrow> (BondError, u64) outcome \<times> 'a bond_store_scheme" where
  "next_bond_id s = (case checked_add u64_max (unwrap_or (bond_counter s) 0) 1 of
     None \<Rightarrow> (Err BondError.ArithmeticOverflow, s)
   | Some n \<Rightarrow> (Ok n, s\<lparr>bond_counter := Some n\<rparr>))"

definition calculate_yield_amount :: "u64 \<Rightarrow> u32 \<Rightarrow> u64 option" where
  "calculate_yield_amount balance percentage =
     Option.bind (checked_mul u64_max balance percentage) (\<lambda>product. checked_div product 100)"

definition create_bond :: "env \<Rightarrow> address \<Rightarrow> u64 \<Rightarrow> address \<Rightarrow> 'a bond_store_scheme
    \<Rightarrow> (BondError, NomadBond) outcome \<times> 'a bond_store_scheme" where
  "create_bond env initiator ship_id partner s =
    (if \<not> auth env initiator then (Panic, s)
     else if initiator = partner then (Err BondError.SelfBond, s)
     else and_then (next_bond_id s) (\<lambda>bond_id s.
       let bond = \<lparr>nb_bond_id = bond_id, nb_initiator = initiator, nb_partner = partner, nb_ship_id = ship_id,
             nb_status = Pending, nb_created_at = timestamp env\<rparr>;
           s = s\<lparr>bond_tbl := (bond_tbl s)(bond_id \<mapsto> bond)\<rparr>
       in (Ok bond, publish [SS ''bond'', SS ''created''] [SU bond_id, SA initiator, SA partner] s)))"

definition accept_bond :: "env \<Rightarrow> address \<Rightarrow> u64 \<Rightarrow> 'a bond_store_scheme
    \<Rightarrow> (BondError, NomadBond) outcome \<times> 'a bond_store_scheme" where
  "accept_bond env partner bond_id s =
    (if \<not> auth env partner then (Panic, s)
     else case bond_tbl s bond_id of
       None \<Rightarrow> (Err BondError.BondNotFound, s)
     | Some bond \<Rightarrow>
         if nb_partner bond \<noteq> partner then (Err BondError.NotDesignatedPartner, s)
         else if nb_status bond \<noteq> Pending then (Err BondError.BondNotPending, s)
         else let bond = bond\<lparr>nb_status := Active\<rparr>;
                  s = s\<lparr>bond_tbl := (bond_tbl s)(bond_id \<mapsto> bond)\<rparr>
              in (Ok bond, publish [SS ''bond'', SS ''accepted''] [SU bond_id, SA partner] s))"

definition delegate_yield_unguarded :: "env \<Rightarrow> address \<Rightarrow> u64 \<Rightarrow> u32 \<Rightarrow> 'a bond_store_scheme
    \<Rightarrow> (BondError, YieldDelegation) outcome \<times> 'a bond_store_scheme" where
  "delegate_yield_unguarded env delegator bond_id percentage s =
    (if \<not> auth env delegator then (Panic, s)
     else if percentage = 0 \<or> percentage > 100 then (Err BondError.InvalidPercentage, s)
     else case bond_tbl s bond_id of
       None \<Rightarrow> (Err BondError.BondNotFound, s)
     | Some bond \<Rightarrow>
         if nb_status bond \<noteq> Active then (Err BondError.BondNotActive, s)
         else case (if delegator = nb_initiator bond then Some (nb_partner bond)
                    else if delegator = nb_partner bond then Some (nb_initiator bond)
                    else None) of
           None \<Rightarrow> (Err BondError.NotBondMember, s)
         | Some beneficiary \<Rightarrow>
             let delegation = \<lparr>yd_bond_id = bond_id, yd_delegator = delegator, yd_beneficiary = beneficiary,
                   yd_percentage = percentage, yd_total_yielded = 0\<rparr>;
                 s = s\<lparr>yield_del := (yield_del s)(bond_id \<mapsto> delegation)\<rparr>
             in (Ok delegation, publish [SS ''yield'', SS ''delegatd''] [SU bond_id, SA delegator, SU percentage] s))"

definition delegate_yield :: "env \<Rightarrow> address \<Rightarrow> u64 \<Rightarrow> u32 \<Rightarrow> 'a bond_store_scheme
    \<Rightarrow> (BondError, YieldDelegation) outcome \<times> 'a bond_store_scheme" where
  "delegate_yield env delegator bond_id percentage =
     with_guard bond_from_reentrancy (delegate_yield_unguarded env delegator bond_id percentage)"

definition accrue_essence :: "env \<Rightarrow> address \<Rightarrow> u64 \<Rightarrow> 'a bond_store_scheme
    \<Rightarrow> (BondError, unit) outcome \<times> 'a bond_store_scheme" where
  "accrue_essence env player amount s =
    (if \<not> auth env player then (Panic, s)
     else let balance = unwrap_or (essence s player) 0 in
       case checked_add u64_max balance amount of
         None \<Rightarrow> (Err BondError.ArithmeticOverflow, s)
       | Some new_balance \<Rightarrow> (Ok (), s\<lparr>essence := (essence s)(player \<mapsto> new_balance)\<rparr>))"

definition claim_yield :: "env \<Rightarrow> address \<Rightarrow> u64 \<Rightarrow> 'a bond_store_scheme
    \<Rightarrow> (BondError, u64) outcome \<times> 'a bond_store_scheme" where
  "claim_yield env claimer bond_id s =
    (if \<not> auth env claimer then (Panic, s)
     else with_guard bond_from_reentrancy (\<lambda>s.
       case bond_tbl s bond_id of
         None \<Rightarrow> (Err BondError.BondNotFound, s)
       | Some bond \<Rightarrow>
       if nb_status bond \<noteq> Active then (Err BondError.BondNotActive, s)
       else case yield_del s bond_id of
         None \<Rightarrow> (Err BondError.NoDelegation, s)
       | Some delegation \<Rightarrow>
       if claimer \<noteq> yd_beneficiary delegation then (Err BondError.NotBeneficiary, s)
       else let delegator_balance = unwrap_or (essence s (yd_delegator delegation)) 0 in
       if delegator_balance = 0 then (Ok 0, s)
       else case calculate_yield_amount delegator_balance (yd_percentage delegation) of
         None \<Rightarrow> (Err BondError.ArithmeticOverflow, s)
       | Some yield_amount \<Rightarrow>
       if yield_amount = 0 then (Ok 0, s)
       else case checked_sub delegator_balance yield_amount of
         None \<Rightarrow> (Err BondError.ArithmeticOverflow, s)
       | Some new_delegator_balance \<Rightarrow>
       let s = s\<lparr>essence := (essence s)(yd_delegator delegation \<mapsto> new_delegator_balance)\<rparr>;
           claimer_balance = unwrap_or (essence s claimer) 0 in
       case checked_add u64_max claimer_balance yield_amount of
         None \<Rightarrow> (Err BondError.ArithmeticOverflow, s)
       | Some new_claimer_balance \<Rightarrow>
       let s = s\<lparr>essence := (essence s)(claimer \<mapsto> new_claimer_balance)\<rparr> in
       case checked_add u64_max (yd_total_yielded delegation) yield_amount of
         None \<Rightarrow> (Err BondError.ArithmeticOverflow, s)
       | Some total_yielded \<Rightarrow>
       let s = s\<lparr>yield_del := (yield_del s)(bond_id \<mapsto> delegation\<lparr>yd_total_yielded := total_yielded\<rparr>)\<rparr>
       in (Ok yield_amount, publish [SS ''yield'', SS ''claimed''] [SU bond_id, SA claimer, SU yield_amount] s)) s)"

definition dissolve_bond_unguarded :: "env \<Rightarrow> address \<Rightarrow> u64 \<Rightarrow> 'a bond_store_scheme
    \<Rightarrow> (BondError, NomadBond) outcome \<times> 'a bond_store_scheme" where
  "dissolve_bond_unguarded env caller bond_id s =
    (if \<not> auth env caller then (Panic, s)
     else case bond_tbl s bond_id of
       None \<Rightarrow> (Err BondError.BondNotFound, s)
     | Some bond \<Rightarrow>
         if nb_status bond = Dissolved then (Err BondError.AlreadyDissolved, s)
         else if caller \<noteq> nb_initiator bond \<and> caller \<noteq> nb_partner bond then (Err BondError.NotBondParty, s)
         else let bond = bond\<lparr>nb_status := Dissolved\<rparr>;
                  s = s\<lparr>bond_tbl := (bond_tbl s)(bond_id \<mapsto> bond)\<rparr>
              in (Ok bond, publish [SS ''bond'', SS ''dissolve''] [SU bond_id, SA caller] s))"

definition dissolve_bond :: "env \<Rightarrow> address \<Rightarrow> u64 \<Rightarrow> 'a bond_store_scheme
    \<Rightarrow> (BondError, NomadBond) outcome \<times> 'a bond_store_scheme" where
  "dissolve_bond env caller bond_id = with_guard bond_from_reentrancy (dissolve_bond_unguarded env caller bond_id)"

definition get_bond :: "u64 \<Rightarrow> 'a bond_store_scheme \<Rightarrow> (BondError, NomadBond) outcome" where
  "get_bond bond_id s = (case bond_tbl s bond_id of None \<Rightarrow> Err BondError.BondNotFound | Some b \<Rightarrow> Ok b)"

definition get_yield_delegation :: "u64 \<Rightarrow> 'a bond_store_scheme \<Rightarrow> (BondError, YieldDelegation) outcome" where
  "get_yield_delegation bond_id s = (case yield_del s bond_id of None \<Rightarrow> Err BondError.NoDelegation | Some d \<Rightarrow> Ok d)"

definition get_essence_balance :: "address \<Rightarrow> 'a bond_store_scheme \<Rightarrow> u64" where
  "get_essence_balance player s = unwrap_or (essence s player) 0"

section \<open>Invariant and steps\<close>

definition delegation_ok :: "(u64 \<rightharpoonup> NomadBond) \<Rightarrow> u64 \<Rightarrow> YieldDelegation \<Rightarrow> bool" where
  "delegation_ok bonds i d \<longleftrightarrow> yd_bond_id d = i \<and> 1 \<le> yd_percentage d \<and> yd_percentage d \<le> 100 \<and>
     (\<exists>b. bonds i = Some b \<and> nb_status b \<noteq> Pending \<and>
        (yd_delegator d = nb_initiator b \<and> yd_beneficiary d = nb_partner b \<or>
         yd_delegator d = nb_partner b \<and> yd_beneficiary d = nb_initiator b))"

definition bond_inv :: "'a bond_store_scheme \<Rightarrow> bool" where
  "bond_inv s \<longleftrightarrow> \<not> is_locked s \<and>
     tbl_ok (\<lambda>i b. nb_bond_id b = i \<and> nb_initiator b \<noteq> nb_partner b) (unwrap_or (bond_counter s) 0) (bond_tbl s) \<and>
     (\<forall>i d. yield_del s i = Some d \<longrightarrow> delegation_ok (bond_tbl s) i d) \<and>
     finite (dom (essence s)) \<and> (\<forall>p. get_essence_balance p s \<le> u64_max)"

inductive bond_step :: "env \<Rightarrow> 'a bond_store_scheme \<Rightarrow> 'a bond_store_scheme \<Rightarrow> bool" for env where
  create: "commits (create_bond env a ship b) s s' \<Longrightarrow> bond_step env s s'"
| accept: "commits (accept_bond env p i) s s' \<Longrightarrow> bond_step env s s'"
| delegate: "commits (delegate_yield env d i pct) s s' \<Longrightarrow> bond_step env s s'"
| accrue: "commits (accrue_essence env p n) s s' \<Longrightarrow> bond_step env s s'"
| claim: "commits (claim_yield env c i) s s' \<Longrightarrow> bond_step env s s'"
| dissolve: "commits (dissolve_bond env c i) s s' \<Longrightarrow> bond_step env s s'"

section \<open>Lemmas\<close>

lemma publish_bond_store [simp]:
  "bond_counter (publish t d s) = bond_counter s" "bond_tbl (publish t d s) = bond_tbl s"
  "yield_del (publish t d s) = yield_del s" "essence (publish t d s) = essence s"
  by (simp_all add: publish_def)

interpretation bond_ids: id_counter "\<lambda>s::'a bond_store_scheme. unwrap_or (bond_counter s) 0"
  "\<lambda>s. case next_bond_id s of (Ok i, t) \<Rightarrow> Some (i, t) | _ \<Rightarrow> None"
  by unfold_locales (auto simp: next_bond_id_def split: option.splits)

lemma next_bond_id_Ok [ok_rules]: "next_bond_id s = (Ok i, s') \<longleftrightarrow>
    i = Suc (unwrap_or (bond_counter s) 0) \<and> i \<le> u64_max \<and> s' = s\<lparr>bond_counter := Some i\<rparr>"
  by (auto simp: next_bond_id_def ok_rules)

lemma yield_amount_Some: "calculate_yield_amount b p = Some y \<longleftrightarrow> b * p \<le> u64_max \<and> y = b * p div 100"
  by (auto simp: calculate_yield_amount_def bind_eq_Some_conv)

lemma yield_amount_le: "calculate_yield_amount b p = Some y \<Longrightarrow> p \<le> 100 \<Longrightarrow> y \<le> b"
  using div_le_mono[of "b * p" "b * 100" 100] by (auto simp: yield_amount_Some)

lemma create_bond_Ok [ok_iff]: "create_bond env a ship b s = (Ok bond, s') \<longleftrightarrow>
    auth env a \<and> a \<noteq> b \<and> (let i = Suc (unwrap_or (bond_counter s) 0) in i \<le> u64_max \<and>
      bond = \<lparr>nb_bond_id = i, nb_initiator = a, nb_partner = b, nb_ship_id = ship, nb_status = Pending,
              nb_created_at = timestamp env\<rparr> \<and>
      s' = publish [SS ''bond'', SS ''created''] [SU i, SA a, SA b]
        (s\<lparr>bond_counter := Some i, bond_tbl := (bond_tbl s)(i \<mapsto> bond)\<rparr>))"
  by (simp add: create_bond_def Let_def ok_rules split del: if_split) blast

lemma accept_bond_Ok [ok_iff]: "accept_bond env p i s = (Ok bond, s') \<longleftrightarrow>
    auth env p \<and> (\<exists>b. bond_tbl s i = Some b \<and> nb_partner b = p \<and> nb_status b = Pending \<and>
      bond = b\<lparr>nb_status := Active\<rparr> \<and>
      s' = publish [SS ''bond'', SS ''accepted''] [SU i, SA p] (s\<lparr>bond_tbl := (bond_tbl s)(i \<mapsto> bond)\<rparr>))"
  by (simp add: accept_bond_def Let_def ok_rules split del: if_split) blast

lemma dissolve_bond_Ok [ok_iff]: "dissolve_bond env c i s = (Ok bond, s') \<longleftrightarrow>
    \<not> is_locked s \<and> auth env c \<and> (\<exists>b. bond_tbl s i = Some b \<and> nb_status b \<noteq> Dissolved \<and>
      (c = nb_initiator b \<or> c = nb_partner b) \<and> bond = b\<lparr>nb_status := Dissolved\<rparr> \<and>
      s' = (publish [SS ''bond'', SS ''dissolve''] [SU i, SA c]
        (s\<lparr>guard_lock := Some True, bond_tbl := (bond_tbl s)(i \<mapsto> bond)\<rparr>))\<lparr>guard_lock := Some False\<rparr>)"
  by (simp add: dissolve_bond_def dissolve_bond_unguarded_def Let_def ok_rules split del: if_split) blast

lemma delegate_yield_Ok [ok_iff]: "delegate_yield env d i pct s = (Ok del, s') \<longleftrightarrow>
    \<not> is_locked s \<and> auth env d \<and> pct \<noteq> 0 \<and> pct \<le> 100 \<and> (\<exists>b ben. bond_tbl s i = Some b \<and> nb_status b = Active \<and>
      (if d = nb_initiator b then Some (nb_partner b) else if d = nb_partner b then Some (nb_initiator b) else None) = Some ben \<and>
      del = \<lparr>yd_bond_id = i, yd_delegator = d, yd_beneficiary = ben, yd_percentage = pct, yd_total_yielded = 0\<rparr> \<and>
      s' = (publish [SS ''yield'', SS ''delegatd''] [SU i, SA d, SU pct]
        (s\<lparr>guard_lock := Some True, yield_del := (yield_del s)(i \<mapsto> del)\<rparr>))\<lparr>guard_lock := Some False\<rparr>)"
  by (simp add: delegate_yield_def delegate_yield_unguarded_def Let_def ok_rules not_less split del: if_split) blast

lemma accrue_Ok [ok_iff]: "accrue_essence env p n s = (Ok u, s') \<longleftrightarrow>
    auth env p \<and> unwrap_or (essence s p) 0 + n \<le> u64_max \<and>
    s' = s\<lparr>essence := (essence s)(p \<mapsto> unwrap_or (essence s p) 0 + n)\<rparr>"
  by (simp add: accrue_essence_def Let_def ok_rules split del: if_split) blast

text \<open>A claim either moves nothing, or moves the delegated share from the delegator to the claimer.\<close>

lemma claim_yield_Ok:
  assumes inv: "bond_inv s" and claim: "claim_yield env c i s = (Ok y, s')"
  shows "auth env c \<and> (\<exists>b d. bond_tbl s i = Some b \<and> nb_status b = Active \<and> yield_del s i = Some d \<and>
      yd_beneficiary d = c \<and> yd_delegator d \<noteq> c \<and> y = unwrap_or (essence s (yd_delegator d)) 0 * yd_percentage d div 100 \<and>
      y \<le> unwrap_or (essence s (yd_delegator d)) 0 \<and> unwrap_or (essence s c) 0 + y \<le> u64_max \<and>
      bond_tbl s' = bond_tbl s \<and> bond_counter s' = bond_counter s \<and> \<not> is_locked s' \<and>
      (y = 0 \<and> essence s' = essence s \<and> yield_del s' = yield_del s \<or>
       0 < y \<and> essence s' = (essence s)(yd_delegator d \<mapsto> unwrap_or (essence s (yd_delegator d)) 0 - y,
                        c \<mapsto> unwrap_or (essence s c) 0 + y) \<and>
       yield_del s' = (yield_del s)(i \<mapsto> d\<lparr>yd_total_yielded := yd_total_yielded d + y\<rparr>)))"
proof -
  from claim obtain b d where bd: "auth env c" "bond_tbl s i = Some b" "nb_status b = Active" "yield_del s i = Some d" "yd_beneficiary d = c"
    by (auto simp: claim_yield_def ok_rules split del: if_split)
  from inv bd have d: "delegation_ok (bond_tbl s) i d" and b: "nb_initiator b \<noteq> nb_partner b"
      and bal: "unwrap_or (essence s c) 0 \<le> u64_max"
    by (auto simp: bond_inv_def get_essence_balance_def dest: tbl_ok_get)
  then have other: "yd_delegator d \<noteq> c" and pct: "yd_percentage d \<le> 100" using bd by (auto simp: delegation_ok_def)
  let ?b = "unwrap_or (essence s (yd_delegator d)) 0"
  show ?thesis
  proof (cases "?b = 0 \<or> calculate_yield_amount ?b (yd_percentage d) = Some 0")
    case True
    then have "y = 0 \<and> s' = s\<lparr>guard_lock := Some False\<rparr> \<and> ?b * yd_percentage d div 100 = 0"
      using claim bd by (auto simp: claim_yield_def with_guard_Ok Let_def yield_amount_Some split: option.splits if_splits)
    then show ?thesis using bd other bal by auto
  next
    case False
    with claim bd obtain t where "calculate_yield_amount ?b (yd_percentage d) = Some y" "0 < y" "y \<le> ?b"
        "unwrap_or (essence s c) 0 + y \<le> u64_max"
        "bond_tbl s' = bond_tbl s" "bond_counter s' = bond_counter s" "\<not> is_locked s'"
        "essence s' = (essence s)(yd_delegator d \<mapsto> ?b - y, c \<mapsto> unwrap_or (essence s c) 0 + y)"
        "yield_del s' = (yield_del s)(i \<mapsto> d\<lparr>yd_total_yielded := yd_total_yielded d + y\<rparr>)"
      using other by (auto simp: claim_yield_def Let_def ok_rules)
    then show ?thesis using bd other by (auto simp: yield_amount_Some)
  qed
qed

lemma delegation_ok_upd:
  "delegation_ok m j d \<Longrightarrow> m i = Some b \<Longrightarrow> nb_initiator b' = nb_initiator b \<Longrightarrow> nb_partner b' = nb_partner b \<Longrightarrow>
   nb_status b' \<noteq> Pending \<Longrightarrow> delegation_ok (m(i \<mapsto> b')) j d"
  by (auto simp: delegation_ok_def)

lemma delegation_ok_new: "delegation_ok m j d \<Longrightarrow> m i = None \<Longrightarrow> delegation_ok (m(i \<mapsto> b')) j d"
  by (auto simp: delegation_ok_def)

lemma create_inv: "bond_inv s \<Longrightarrow> create_bond env a ship b s = (Ok r, s') \<Longrightarrow> bond_inv s'"
  using tbl_ok_fresh[of "\<lambda>i b. nb_bond_id b = i \<and> nb_initiator b \<noteq> nb_partner b" "unwrap_or (bond_counter s) 0" "bond_tbl s"]
  by (auto simp: bond_inv_def create_bond_Ok Let_def is_locked_def get_essence_balance_def
      intro!: tbl_ok_new delegation_ok_new)

lemma restatus_inv:
  assumes "bond_inv s" "bond_tbl s i = Some b" "bond_tbl s' = (bond_tbl s)(i \<mapsto> b\<lparr>nb_status := st\<rparr>)" "st \<noteq> Pending"
    "bond_counter s' = bond_counter s" "yield_del s' = yield_del s" "essence s' = essence s" "\<not> is_locked s'"
  shows "bond_inv s'"
proof -
  from assms(1) have tbl: "tbl_ok (\<lambda>i b. nb_bond_id b = i \<and> nb_initiator b \<noteq> nb_partner b) (unwrap_or (bond_counter s) 0) (bond_tbl s)"
    by (simp add: bond_inv_def)
  have "\<forall>j d. yield_del s' j = Some d \<longrightarrow> delegation_ok (bond_tbl s') j d"
    using assms delegation_ok_upd[where b = b and b' = "b\<lparr>nb_status := st\<rparr>"] by (auto simp: bond_inv_def)
  then show ?thesis using assms tbl_ok_upd[OF tbl assms(2), of "b\<lparr>nb_status := st\<rparr>"] tbl_ok_get[OF tbl assms(2)]
    by (auto simp: bond_inv_def get_essence_balance_def)
qed

lemma accept_inv: "bond_inv s \<Longrightarrow> accept_bond env p i s = (Ok r, s') \<Longrightarrow> bond_inv s'"
  by (auto simp: accept_bond_Ok bond_inv_def[of s] is_locked_def elim!: restatus_inv[of s i _ _ Active, rotated])

lemma dissolve_inv: "bond_inv s \<Longrightarrow> dissolve_bond env c i s = (Ok r, s') \<Longrightarrow> bond_inv s'"
  by (auto simp: dissolve_bond_Ok elim!: restatus_inv[of s i _ _ Dissolved, rotated])

lemma delegate_inv: "bond_inv s \<Longrightarrow> delegate_yield env d i pct s = (Ok r, s') \<Longrightarrow> bond_inv s'"
  by (auto simp: bond_inv_def delegate_yield_Ok get_essence_balance_def delegation_ok_def split: if_splits)

lemma accrue_inv: "bond_inv s \<Longrightarrow> accrue_essence env p n s = (Ok r, s') \<Longrightarrow> bond_inv s'"
  by (auto simp: bond_inv_def accrue_Ok is_locked_def get_essence_balance_def)

lemma claim_inv:
  assumes inv: "bond_inv s" and claim: "claim_yield env c i s = (Ok y, s')"
  shows "bond_inv s'"
proof -
  from claim_yield_Ok[OF inv claim] obtain b d where bd: "yield_del s i = Some d" "bond_tbl s' = bond_tbl s"
      "bond_counter s' = bond_counter s" "\<not> is_locked s'" "unwrap_or (essence s c) 0 + y \<le> u64_max" and
      ess: "y = 0 \<and> essence s' = essence s \<and> yield_del s' = yield_del s \<or>
       0 < y \<and> essence s' = (essence s)(yd_delegator d \<mapsto> unwrap_or (essence s (yd_delegator d)) 0 - y,
                        c \<mapsto> unwrap_or (essence s c) 0 + y) \<and>
       yield_del s' = (yield_del s)(i \<mapsto> d\<lparr>yd_total_yielded := yd_total_yielded d + y\<rparr>)" by blast
  have bal: "\<And>p. unwrap_or (essence s p) 0 \<le> u64_max" and del: "delegation_ok (bond_tbl s) i d"
    using inv bd(1) by (auto simp: bond_inv_def get_essence_balance_def)
  have "unwrap_or (essence s (yd_delegator d)) 0 - y \<le> u64_max" using bal[of "yd_delegator d"] by simp
  moreover have "delegation_ok (bond_tbl s) i (d\<lparr>yd_total_yielded := yd_total_yielded d + y\<rparr>)"
    using del by (simp add: delegation_ok_def)
  ultimately show ?thesis using inv bd ess bal by (auto simp: bond_inv_def get_essence_balance_def split: if_splits)
qed

lemma bond_step_inv: "bond_inv s \<Longrightarrow> bond_step env s s' \<Longrightarrow> bond_inv s'"
  by (erule bond_step.cases)
    (auto simp: commits_iff intro: create_inv accept_inv delegate_inv accrue_inv claim_inv dissolve_inv)

lemma claim_moves:
  assumes inv: "bond_inv s" and claim: "claim_yield env c i s = (Ok y, s')"
  shows "msum (essence s') = msum (essence s)"
proof -
  have fin: "finite (dom (essence s))" using inv by (simp add: bond_inv_def)
  from claim_yield_Ok[OF inv claim] show ?thesis using msum_move[OF fin] by metis
qed

lemma create_fresh: "bond_inv s \<Longrightarrow> bond_tbl s (Suc (unwrap_or (bond_counter s) 0)) = None"
  by (auto simp: bond_inv_def intro: tbl_ok_fresh)

lemma bond_step_keeps:
  assumes "bond_inv s" "bond_step env s s'" "bond_tbl s i = Some b"
  shows "\<exists>b'. bond_tbl s' i = Some b' \<and> nb_status b \<le> nb_status b' \<and>
    nb_initiator b' = nb_initiator b \<and> nb_partner b' = nb_partner b \<and> nb_ship_id b' = nb_ship_id b"
  using assms(2)
proof (cases rule: bond_step.cases)
  case (claim c j)
  then obtain y where "claim_yield env c j s = (Ok y, s')" by (auto simp: commits_iff)
  from claim_yield_Ok[OF assms(1) this] show ?thesis using assms(3) by auto
next
  case (create x ship y)
  then show ?thesis using assms create_fresh[OF assms(1)] by (auto simp: commits_iff create_bond_Ok Let_def)
qed (use assms(3) in \<open>auto simp: commits_iff accept_bond_Ok dissolve_bond_Ok delegate_yield_Ok accrue_Ok less_eq_BondStatus_def\<close>)

interpretation bonds: step_system "\<lambda>s s'. \<exists>env. bond_step env s s'" "bond_inv :: 'a bond_store_scheme \<Rightarrow> bool"
  by unfold_locales (auto intro: bond_step_inv)

interpretation bond_life: monotone_system "\<lambda>s s'. \<exists>env. bond_step env s s'" "bond_inv :: 'a bond_store_scheme \<Rightarrow> bool"
  "\<lambda>s. map_option nb_status (bond_tbl s i)" for i
proof unfold_locales
  fix s s' :: "'a bond_store_scheme"
  assume inv: "bond_inv s" and "\<exists>env. bond_step env s s'"
  then obtain env where step: "bond_step env s s'" by blast
  show "map_option nb_status (bond_tbl s i) \<le> map_option nb_status (bond_tbl s' i)"
  proof (cases "bond_tbl s i")
    case (Some b)
    from bond_step_keeps[OF inv step Some] Some show ?thesis by auto
  qed simp
qed

definition no_bonds :: bond_store where
  "no_bonds = escrow_store.extend no_escrows \<lparr>bond_counter = None, bond_tbl = Map.empty, yield_del = Map.empty,
     essence = [Addr 1 \<mapsto> 70]\<rparr>"

lemma no_bonds_inv: "bond_inv no_bonds"
  by (simp add: no_bonds_def no_escrows_def no_vaults_def no_ships_def ship_store.defs vault_store.defs escrow_store.defs
      bond_inv_def is_locked_def get_essence_balance_def)

text \<open>Player 1 bonds with player 2, who accepts; player 1 then delegates a quarter.\<close>

definition bonded :: bond_store where
  "bonded = snd (accept_bond (signed_at 2 2) (Addr 2) 1 (snd (create_bond (signed_at 1 1) (Addr 1) 9 (Addr 2) no_bonds)))"

definition delegated :: bond_store where
  "delegated = snd (delegate_yield (signed_at 3 3) (Addr 1) 1 25 bonded)"

lemma bonded_eval: "bonded = no_bonds\<lparr>events := [([SS ''bond'', SS ''created''], [SU 1, SA (Addr 1), SA (Addr 2)]),
      ([SS ''bond'', SS ''accepted''], [SU 1, SA (Addr 2)])], bond_counter := Some 1,
    bond_tbl := [1 \<mapsto> \<lparr>nb_bond_id = 1, nb_initiator = Addr 1, nb_partner = Addr 2, nb_ship_id = 9, nb_status = Active, nb_created_at = 1\<rparr>]\<rparr>"
  by (simp add: bonded_def create_bond_def accept_bond_def next_bond_id_def checked_add_def Let_def publish_def no_bonds_def
      no_escrows_def no_vaults_def no_ships_def ship_store.defs vault_store.defs escrow_store.defs)

lemma bonded_inv: "bond_inv bonded"
  by (simp add: bonded_eval no_bonds_def no_escrows_def no_vaults_def no_ships_def ship_store.defs vault_store.defs
      escrow_store.defs bond_inv_def is_locked_def get_essence_balance_def tbl_ok_def)

lemma delegated_Ok: "\<exists>d. delegate_yield (signed_at 3 3) (Addr 1) 1 25 bonded = (Ok d, delegated)"
  by (simp add: delegated_def delegate_yield_def delegate_yield_unguarded_def with_guard_def acquire_def Let_def
      bonded_eval no_bonds_def no_escrows_def no_vaults_def no_ships_def ship_store.defs vault_store.defs escrow_store.defs)

lemma delegated_inv: "bond_inv delegated"
  using delegated_Ok delegate_inv[OF bonded_inv] by blast

lemma delegated_claim: "\<exists>s'. claim_yield (signed_at 4 4) (Addr 2) 1 delegated = (Ok 17, s')"
  by (simp add: delegated_def delegate_yield_def delegate_yield_unguarded_def with_guard_def acquire_def release_def Let_def
      bonded_eval no_bonds_def no_escrows_def no_vaults_def no_ships_def ship_store.defs vault_store.defs escrow_store.defs
      claim_yield_def calculate_yield_amount_def checked_mul_def checked_div_def checked_sub_def checked_add_def)

section \<open>Properties\<close>

text \<open>C7. Essence is conserved. A committed bonding operation keeps the invariant, and the total of
  all essence balances either stays exactly the same or grows by the amount of an
  \<open>accrue_essence\<close> its player authorised; claiming a yield moves essence and never makes or
  destroys any.\<close>

theorem bond_essence_conservation:
  assumes inv: "bond_inv s" and step: "bond_step env s s'"
  shows "bond_inv s' \<and> (msum (essence s') = msum (essence s) \<or>
    (\<exists>p n. auth env p \<and> accrue_essence env p n s = (Ok (), s') \<and> msum (essence s') = msum (essence s) + n))"
proof
  show "bond_inv s'" using inv step by (rule bond_step_inv)
  have fin: "finite (dom (essence s))" using inv by (simp add: bond_inv_def)
  show "msum (essence s') = msum (essence s) \<or>
    (\<exists>p n. auth env p \<and> accrue_essence env p n s = (Ok (), s') \<and> msum (essence s') = msum (essence s) + n)"
    using step
  proof (cases rule: bond_step.cases)
    case (accrue p n)
    with msum_upd[OF fin, of p "unwrap_or (essence s p) 0 + n"] show ?thesis
      by (intro disjI2 exI[of _ p] exI[of _ n]) (auto simp: commits_iff accrue_Ok)
  next
    case (claim c i)
    then show ?thesis using claim_moves[OF inv] by (auto simp: commits_iff)
  qed (auto simp: commits_iff create_bond_Ok accept_bond_Ok delegate_yield_Ok dissolve_bond_Ok Let_def)
qed

theorem bond_essence_conservation_witness:
  "\<exists>s'. claim_yield (signed_at 4 4) (Addr 2) 1 delegated = (Ok 17, s') \<and> bond_inv s'"
proof -
  obtain s' where s': "claim_yield (signed_at 4 4) (Addr 2) 1 delegated = (Ok 17, s')" using delegated_claim by blast
  then have "bond_step (signed_at 4 4) delegated s'" by (intro bond_step.claim[of _ "Addr 2" 1]) (auto simp: commits_iff)
  from bond_essence_conservation[OF delegated_inv this] s' show ?thesis by blast
qed

text \<open>A yield claim is exact. When \<open>claim_yield\<close> succeeds with \<open>y\<close>, the bond is active, the
  caller is the recorded beneficiary of its delegation, \<open>y\<close> is the delegated percentage of the
  delegator's balance rounded down, the delegator loses exactly \<open>y\<close>, the claimer gains exactly
  \<open>y\<close>, no other balance moves, and the total essence is unchanged.\<close>

lemma bond_claim_exact:
  assumes "bond_inv s" and "claim_yield env c i s = (Ok y, s')"
  shows "\<exists>b d. bond_tbl s i = Some b \<and> nb_status b = Active \<and> yield_del s i = Some d \<and> yd_beneficiary d = c
    \<and> y = get_essence_balance (yd_delegator d) s * yd_percentage d div 100
    \<and> get_essence_balance (yd_delegator d) s' + y = get_essence_balance (yd_delegator d) s
    \<and> get_essence_balance c s' = get_essence_balance c s + y
    \<and> (\<forall>p. p \<noteq> c \<and> p \<noteq> yd_delegator d \<longrightarrow> get_essence_balance p s' = get_essence_balance p s)
    \<and> msum (essence s') = msum (essence s)"
proof -
  from claim_yield_Ok[OF assms] obtain b d where "bond_tbl s i = Some b" "nb_status b = Active" "yield_del s i = Some d"
      "yd_beneficiary d = c" "yd_delegator d \<noteq> c" "y = unwrap_or (essence s (yd_delegator d)) 0 * yd_percentage d div 100"
      "y \<le> unwrap_or (essence s (yd_delegator d)) 0"
      "y = 0 \<and> essence s' = essence s \<or> essence s' = (essence s)(yd_delegator d \<mapsto> unwrap_or (essence s (yd_delegator d)) 0 - y,
                        c \<mapsto> unwrap_or (essence s c) 0 + y)" by blast
  then show ?thesis using claim_moves[OF assms]
    by (intro exI[of _ b] exI[of _ d]) (auto simp: get_essence_balance_def)
qed

lemma bond_claim_exact_example:
  "\<exists>s'. claim_yield (signed_at 4 4) (Addr 2) 1 delegated = (Ok 17, s') \<and> msum (essence s') = msum (essence delegated)"
proof -
  obtain s' where s': "claim_yield (signed_at 4 4) (Addr 2) 1 delegated = (Ok 17, s')" using delegated_claim by blast
  from bond_claim_exact[OF delegated_inv s'] s' show ?thesis by blast
qed

text \<open>A bond's life is one-way. Along any run a bond keeps its parties and its ship, its status
  only moves up in the order Pending, Active, Dissolved, and once it is dissolved no yield can be
  claimed through it and it cannot be accepted or dissolved again.\<close>

lemma bond_lifecycle:
  assumes run: "(\<lambda>s s'. \<exists>env. bond_step env s s')\<^sup>*\<^sup>* s s'" and inv: "bond_inv s" and b: "bond_tbl s i = Some b"
  shows "\<exists>b'. bond_tbl s' i = Some b' \<and> nb_status b \<le> nb_status b' \<and> nb_initiator b' = nb_initiator b \<and> nb_partner b' = nb_partner b
    \<and> (nb_status b = Dissolved \<longrightarrow> (\<forall>env p r t. claim_yield env p i s' \<noteq> (Ok r, t))
      \<and> (\<forall>env p r t. accept_bond env p i s' \<noteq> (Ok r, t)) \<and> (\<forall>env p r t. dissolve_bond env p i s' \<noteq> (Ok r, t)))"
proof -
  have inv': "bond_inv s'" using bonds.run_inv[OF run inv] .
  from run have "\<exists>b'. bond_tbl s' i = Some b' \<and> nb_initiator b' = nb_initiator b \<and> nb_partner b' = nb_partner b"
  proof (induction rule: rtranclp_induct)
    case (step t u)
    then obtain b' env where b': "bond_tbl t i = Some b'" "nb_initiator b' = nb_initiator b" "nb_partner b' = nb_partner b"
      and st: "bond_step env t u" by blast
    from bond_step_keeps[OF bonds.run_inv[OF step(1) inv] st b'(1)] b' show ?case by auto
  qed (use b in simp)
  then obtain b' where b': "bond_tbl s' i = Some b'" "nb_initiator b' = nb_initiator b" "nb_partner b' = nb_partner b" by blast
  have up: "nb_status b \<le> nb_status b'" using bond_life.run_mono[OF run inv, of i] b b'(1) by simp
  have "nb_status b' = Dissolved" if "nb_status b = Dissolved"
    using up that by (cases "nb_status b'") (auto simp: less_eq_BondStatus_def)
  with b' up show ?thesis using claim_yield_Ok[OF inv'] by (fastforce simp: accept_bond_Ok dissolve_bond_Ok)
qed

lemma bond_lifecycle_example: "\<exists>b'. bond_tbl delegated 1 = Some b' \<and> Active \<le> nb_status b'"
proof -
  have step: "\<exists>env. bond_step env bonded delegated"
    using delegated_Ok by (intro exI[of _ "signed_at 3 3"] bond_step.delegate[of _ "Addr 1" 1 25]) (unfold commits_iff)
  have "bond_tbl bonded 1 = Some \<lparr>nb_bond_id = 1, nb_initiator = Addr 1, nb_partner = Addr 2, nb_ship_id = 9,
      nb_status = Active, nb_created_at = 1\<rparr>" by (simp add: bonded_eval)
  from bond_lifecycle[OF r_into_rtranclp[of "\<lambda>s s'. \<exists>env. bond_step env s s'", OF step] bonded_inv this] show ?thesis by auto
qed

end
