(* ===== verification/Energy_Manager.thy ===== *)
theory Energy_Manager
  imports Nomad_Bonding
begin

text \<open>
  \<open>src/energy_manager.rs\<close>: the energy of ships: spending, recharging from resources, and passive
  regeneration. A ship without an entry has full energy.
\<close>

section \<open>Model\<close>

abbreviation BASE_RECHARGE_RATE :: u32 where "BASE_RECHARGE_RATE \<equiv> 100"
abbreviation MAX_ENERGY :: u32 where "MAX_ENERGY \<equiv> 10000"
abbreviation RECHARGE_EFFICIENCY :: u32 where "RECHARGE_EFFICIENCY \<equiv> 85"
abbreviation BASE_PASSIVE_REGEN :: u32 where "BASE_PASSIVE_REGEN \<equiv> 10"
abbreviation PASSIVE_REGEN_INTERVAL :: u64 where "PASSIVE_REGEN_INTERVAL \<equiv> 10"

datatype EnergyError = InsufficientEnergy | ShipNotFound | InvalidAmount | EnergyOverflow | NegativeBalance

record EnergyBalance =
  eb_ship_id :: u64
  eb_current :: u32
  eb_max :: u32
  eb_regeneration_rate :: u32

record RechargeResult =
  rr_ship_id :: u64
  rr_energy_gained :: u32
  rr_resources_consumed :: i128

record PassiveRegenResult =
  pr_ship_id :: u64
  pr_energy_recovered :: u32
  pr_new_balance :: u32

record energy_store = bond_store +
  energy_balance :: "u64 \<rightharpoonup> u32"
  recharge_config :: "u32 option"
  last_regen :: "u64 \<rightharpoonup> u64"

definition consume_energy :: "u64 \<Rightarrow> u32 \<Rightarrow> 'a energy_store_scheme
    \<Rightarrow> (EnergyError, u32) outcome \<times> 'a energy_store_scheme" where
  "consume_energy ship_id amount s =
    (if amount = 0 then (Err EnergyError.InvalidAmount, s)
     else case ship_tbl s ship_id of
       None \<Rightarrow> (Err EnergyError.ShipNotFound, s)
     | Some _ \<Rightarrow>
         let current = unwrap_or (energy_balance s ship_id) MAX_ENERGY in
         if current < amount then (Err EnergyError.InsufficientEnergy, s)
         else case checked_sub current amount of
           None \<Rightarrow> (Err EnergyError.NegativeBalance, s)
         | Some new_balance \<Rightarrow>
             let s = s\<lparr>energy_balance := (energy_balance s)(ship_id \<mapsto> new_balance)\<rparr>
             in (Ok new_balance, publish [SS ''energy'', SS ''consume''] [SU ship_id, SU amount, SU new_balance] s))"

text \<open>\<open>resource_amount as u32\<close> keeps the low 32 bits of the \<open>i128\<close>.\<close>

definition as_u32 :: "i128 \<Rightarrow> u32" where
  "as_u32 x = nat (x mod 4294967296)"

definition recharge_energy :: "u64 \<Rightarrow> i128 \<Rightarrow> 'a energy_store_scheme
    \<Rightarrow> (EnergyError, RechargeResult) outcome \<times> 'a energy_store_scheme" where
  "recharge_energy ship_id resource_amount s =
    (if resource_amount \<le> 0 then (Err EnergyError.InvalidAmount, s)
     else case ship_tbl s ship_id of
       None \<Rightarrow> (Err EnergyError.ShipNotFound, s)
     | Some _ \<Rightarrow>
         let current = unwrap_or (energy_balance s ship_id) MAX_ENERGY;
             energy_to_add = min (saturating_mul u32_max (as_u32 resource_amount) RECHARGE_EFFICIENCY div 100) BASE_RECHARGE_RATE;
             new_balance = min (saturating_add u32_max current energy_to_add) MAX_ENERGY;
             s = s\<lparr>energy_balance := (energy_balance s)(ship_id \<mapsto> new_balance)\<rparr>;
             result = \<lparr>rr_ship_id = ship_id, rr_energy_gained = saturating_sub new_balance current,
               rr_resources_consumed = resource_amount\<rparr>
         in (Ok result, publish [SS ''energy'', SS ''recharge''] [SU ship_id, SU (rr_energy_gained result), SU new_balance] s))"

definition get_energy_balance :: "u64 \<Rightarrow> 'a energy_store_scheme \<Rightarrow> (EnergyError, EnergyBalance) outcome" where
  "get_energy_balance ship_id s = (case ship_tbl s ship_id of
     None \<Rightarrow> Err EnergyError.ShipNotFound
   | Some _ \<Rightarrow> Ok \<lparr>eb_ship_id = ship_id, eb_current = unwrap_or (energy_balance s ship_id) MAX_ENERGY,
       eb_max = MAX_ENERGY, eb_regeneration_rate = unwrap_or (recharge_config s) BASE_PASSIVE_REGEN\<rparr>)"

definition apply_passive_regen :: "env \<Rightarrow> u64 \<Rightarrow> 'a energy_store_scheme
    \<Rightarrow> (EnergyError, PassiveRegenResult) outcome \<times> 'a energy_store_scheme" where
  "apply_passive_regen env ship_id s = (case ship_tbl s ship_id of
     None \<Rightarrow> (Err EnergyError.ShipNotFound, s)
   | Some _ \<Rightarrow>
     let now = timestamp env;
         last = unwrap_or (last_regen s ship_id) now;
         idle = \<lparr>pr_ship_id = ship_id, pr_energy_recovered = 0,
                 pr_new_balance = unwrap_or (energy_balance s ship_id) MAX_ENERGY\<rparr> in
     case checked_add u64_max last PASSIVE_REGEN_INTERVAL of
       None \<Rightarrow> (Panic, s)
     | Some due \<Rightarrow>
     if now < due then (Ok idle, s)
     else case checked_sub now last of
       None \<Rightarrow> (Panic, s)
     | Some elapsed \<Rightarrow>
     let elapsed_ticks = elapsed div PASSIVE_REGEN_INTERVAL in
     if elapsed_ticks = 0 then (Ok idle, s)
     else let current = unwrap_or (energy_balance s ship_id) MAX_ENERGY;
              regen_rate = unwrap_or (recharge_config s) BASE_PASSIVE_REGEN;
              total_regen = min (saturating_mul u64_max regen_rate elapsed_ticks) (saturating_sub MAX_ENERGY current) in
     if total_regen = 0 then (Ok \<lparr>pr_ship_id = ship_id, pr_energy_recovered = 0, pr_new_balance = current\<rparr>, s)
     else let new_balance = min (saturating_add u32_max current total_regen) MAX_ENERGY;
              s = s\<lparr>energy_balance := (energy_balance s)(ship_id \<mapsto> new_balance)\<rparr>;
              s = s\<lparr>last_regen := (last_regen s)(ship_id \<mapsto> now)\<rparr>;
              s = publish [SS ''energy'', SS ''passive''] [SU ship_id, SU total_regen, SU new_balance] s
          in (Ok \<lparr>pr_ship_id = ship_id, pr_energy_recovered = total_regen, pr_new_balance = new_balance\<rparr>, s))"

definition set_regen_rate :: "env \<Rightarrow> address \<Rightarrow> u32 \<Rightarrow> 'a energy_store_scheme
    \<Rightarrow> (EnergyError, unit) outcome \<times> 'a energy_store_scheme" where
  "set_regen_rate env caller rate s =
    (if \<not> auth env caller then (Panic, s) else (Ok (), s\<lparr>recharge_config := Some rate\<rparr>))"

definition get_regen_rate :: "'a energy_store_scheme \<Rightarrow> u32" where
  "get_regen_rate s = unwrap_or (recharge_config s) BASE_PASSIVE_REGEN"

section \<open>Invariant and steps\<close>

definition energy_of :: "u64 \<Rightarrow> 'a energy_store_scheme \<Rightarrow> u32" where
  "energy_of i s = unwrap_or (energy_balance s i) MAX_ENERGY"

definition energy_inv :: "'a energy_store_scheme \<Rightarrow> bool" where
  "energy_inv s \<longleftrightarrow> (\<forall>i. energy_of i s \<le> MAX_ENERGY)"

inductive energy_step :: "env \<Rightarrow> 'a energy_store_scheme \<Rightarrow> 'a energy_store_scheme \<Rightarrow> bool" for env where
  consume: "commits (consume_energy i n) s s' \<Longrightarrow> energy_step env s s'"
| recharge: "commits (recharge_energy i r) s s' \<Longrightarrow> energy_step env s s'"
| regen: "commits (apply_passive_regen env i) s s' \<Longrightarrow> energy_step env s s'"
| set_rate: "commits (set_regen_rate env c rate) s s' \<Longrightarrow> energy_step env s s'"

section \<open>Lemmas\<close>

lemma publish_energy_store [simp]:
  "energy_balance (publish t d s) = energy_balance s" "recharge_config (publish t d s) = recharge_config s"
  "last_regen (publish t d s) = last_regen s"
  by (simp_all add: publish_def)

lemma consume_Ok [ok_iff]: "consume_energy i n s = (Ok r, s') \<longleftrightarrow>
    n \<noteq> 0 \<and> ship_tbl s i \<noteq> None \<and> n \<le> energy_of i s \<and> r = energy_of i s - n \<and>
    s' = publish [SS ''energy'', SS ''consume''] [SU i, SU n, SU r] (s\<lparr>energy_balance := (energy_balance s)(i \<mapsto> r)\<rparr>)"
  by (auto simp: consume_energy_def Let_def ok_rules energy_of_def split del: if_split)

lemma recharge_Ok [ok_iff]: "recharge_energy i a s = (Ok r, s') \<longleftrightarrow>
    0 < a \<and> ship_tbl s i \<noteq> None \<and>
    (let new = min (saturating_add u32_max (energy_of i s)
                 (min (saturating_mul u32_max (as_u32 a) RECHARGE_EFFICIENCY div 100) BASE_RECHARGE_RATE)) MAX_ENERGY in
     r = \<lparr>rr_ship_id = i, rr_energy_gained = saturating_sub new (energy_of i s), rr_resources_consumed = a\<rparr> \<and>
     s' = publish [SS ''energy'', SS ''recharge''] [SU i, SU (rr_energy_gained r), SU new]
        (s\<lparr>energy_balance := (energy_balance s)(i \<mapsto> new)\<rparr>))"
  by (auto simp: recharge_energy_def Let_def ok_rules energy_of_def not_le split del: if_split)

lemma energy_of_upd [simp]:
  "energy_of j (s\<lparr>energy_balance := (energy_balance s)(i \<mapsto> n)\<rparr>) = (if j = i then n else energy_of j s)"
  "energy_of j (publish t d s) = energy_of j s" "energy_of j (s\<lparr>last_regen := m\<rparr>) = energy_of j s"
  "energy_of j (s\<lparr>recharge_config := c\<rparr>) = energy_of j s"
  by (simp_all add: energy_of_def)

lemma recharge_gain:
  assumes "ship_tbl s i = Some ship" "energy_of i s \<le> MAX_ENERGY" "0 < a"
  shows "\<exists>r s'. recharge_energy i a s = (Ok r, s') \<and> rr_resources_consumed r = a \<and>
    rr_energy_gained r = min (energy_of i s + min (saturating_mul u32_max (as_u32 a) RECHARGE_EFFICIENCY div 100) BASE_RECHARGE_RATE) MAX_ENERGY - energy_of i s \<and>
    energy_of i s' = min (energy_of i s + min (saturating_mul u32_max (as_u32 a) RECHARGE_EFFICIENCY div 100) BASE_RECHARGE_RATE) MAX_ENERGY"
proof -
  let ?g = "min (saturating_mul u32_max (as_u32 a) RECHARGE_EFFICIENCY div 100) BASE_RECHARGE_RATE"
  have "saturating_add u32_max (energy_of i s) ?g = energy_of i s + ?g"
    using assms(2) by (simp add: saturating_add_def min_def)
  then show ?thesis using assms(1,3) unfolding recharge_Ok Let_def by (simp add: saturating_sub_def)
qed

lemma regen_bounded:
  "apply_passive_regen env i s = (Ok r, s') \<Longrightarrow> energy_inv s \<Longrightarrow> energy_inv s'"
  by (auto simp: apply_passive_regen_def Let_def energy_inv_def split: option.splits if_splits)

lemma energy_step_inv: "energy_inv s \<Longrightarrow> energy_step env s s' \<Longrightarrow> energy_inv s'"
proof (erule energy_step.cases)
  fix i n t t' assume "energy_inv s" "s = t" "s' = t'" "commits (consume_energy i n) t t'"
  then show ?thesis by (auto simp: commits_iff consume_Ok energy_inv_def le_diff_conv trans_le_add1)
next
  fix i r t t' assume "energy_inv s" "s = t" "s' = t'" "commits (recharge_energy i r) t t'"
  then show ?thesis by (auto simp: commits_iff recharge_Ok energy_inv_def Let_def)
next
  fix i t t' assume "energy_inv s" "s = t" "s' = t'" "commits (apply_passive_regen env i) t t'"
  then show ?thesis by (auto simp: commits_iff intro: regen_bounded)
next
  fix c rate t t' assume "energy_inv s" "s = t" "s' = t'" "commits (set_regen_rate env c rate) t t'"
  then show ?thesis by (auto simp: commits_iff set_regen_rate_def energy_inv_def ok_rules)
qed

interpretation energy: step_system "\<lambda>s s'. \<exists>env. energy_step env s s'" "energy_inv :: 'a energy_store_scheme \<Rightarrow> bool"
  by unfold_locales (auto intro: energy_step_inv)

text \<open>The last regeneration time is only written by a regeneration that finds it already
  written.\<close>

lemma regen_idle:
  "last_regen s i = None \<Longrightarrow> apply_passive_regen env i s =
    (case ship_tbl s i of None \<Rightarrow> (Err EnergyError.ShipNotFound, s)
     | Some _ \<Rightarrow> if timestamp env + PASSIVE_REGEN_INTERVAL \<le> u64_max
         then (Ok \<lparr>pr_ship_id = i, pr_energy_recovered = 0, pr_new_balance = energy_of i s\<rparr>, s) else (Panic, s))"
  by (auto simp: apply_passive_regen_def Let_def energy_of_def split: option.split)

lemma energy_step_no_regen: "last_regen s = Map.empty \<Longrightarrow> energy_step env s s' \<Longrightarrow> last_regen s' = Map.empty"
  by (erule energy_step.cases)
    (auto simp: commits_iff consume_Ok recharge_Ok regen_idle set_regen_rate_def Let_def ok_rules split: option.splits if_splits)

interpretation never_regen: step_system "\<lambda>s s'. \<exists>env. energy_step env s s'"
  "\<lambda>s::'a energy_store_scheme. last_regen s = Map.empty"
  by unfold_locales (auto dest: energy_step_no_regen)

definition fresh_energy :: energy_store where
  "fresh_energy = bond_store.extend (no_bonds\<lparr>ship_tbl := [1 \<mapsto> new_ship 1 (Addr 1) ''hauler'' []]\<rparr>)
     \<lparr>energy_balance = [1 \<mapsto> 4000], recharge_config = None, last_regen = Map.empty\<rparr>"

lemma fresh_energy_ship: "ship_tbl fresh_energy 1 = Some (new_ship 1 (Addr 1) ''hauler'' [])"
    "energy_of 1 fresh_energy = 4000" "last_regen fresh_energy = Map.empty" "energy_inv fresh_energy"
  by (simp_all add: fresh_energy_def bond_store.defs energy_of_def energy_inv_def)

section \<open>Properties\<close>

text \<open>Energy stays within its bounds and is spent exactly. After any sequence of energy
  operations no ship has more than the maximum; spending \<open>n\<close> succeeds exactly when the ship exists,
  \<open>n\<close> is positive and covered, and then takes exactly \<open>n\<close> from that ship and from no other.\<close>

lemma energy_bounded:
  assumes "(\<lambda>s s'. \<exists>env. energy_step env s s')\<^sup>*\<^sup>* s t" and "energy_inv s"
  shows "(\<forall>i. energy_of i t \<le> MAX_ENERGY)
    \<and> ((\<exists>r t'. consume_energy i n t = (Ok r, t')) \<longleftrightarrow> ship_tbl t i \<noteq> None \<and> 0 < n \<and> n \<le> energy_of i t)
    \<and> (\<forall>r t'. consume_energy i n t = (Ok r, t') \<longrightarrow> r = energy_of i t' \<and> energy_of i t' + n = energy_of i t
        \<and> (\<forall>j. j \<noteq> i \<longrightarrow> energy_of j t' = energy_of j t))"
  using energy.run_inv[OF assms] by (auto simp: energy_inv_def consume_Ok)

lemma energy_bounded_example:
  "energy_inv fresh_energy \<and> (\<exists>r t'. consume_energy 1 1500 fresh_energy = (Ok r, t'))"
  using energy_bounded[of fresh_energy fresh_energy 1 1500] fresh_energy_ship by simp

text \<open>Passive regeneration never happens. The last regeneration time of a ship defaults to the
  current time and is written only by a regeneration that recovered something, so from a state with
  no recorded regeneration every later \<open>apply_passive_regen\<close> of an existing ship recovers zero energy
  and leaves the storage as it was, however much time has passed.\<close>

lemma passive_regen_never:
  assumes "(\<lambda>s s'. \<exists>env. energy_step env s s')\<^sup>*\<^sup>* s t" and "last_regen s = Map.empty"
    and "ship_tbl t i = Some ship" and "timestamp env + PASSIVE_REGEN_INTERVAL \<le> u64_max"
  shows "apply_passive_regen env i t =
    (Ok \<lparr>pr_ship_id = i, pr_energy_recovered = 0, pr_new_balance = energy_of i t\<rparr>, t)"
  using never_regen.run_inv[OF assms(1,2)] assms(3,4) by (simp add: regen_idle)

lemma passive_regen_never_example:
  "apply_passive_regen (signed_at 999999 0) 1 fresh_energy =
    (Ok \<lparr>pr_ship_id = 1, pr_energy_recovered = 0, pr_new_balance = 4000\<rparr>, fresh_energy)"
  using passive_regen_never[OF rtranclp.rtrancl_refl fresh_energy_ship(3,1), of "signed_at 999999 0"] fresh_energy_ship(2)
  by simp

text \<open>A recharge uses only the low 32 bits of the resources it reports as consumed. It gives at
  most 100 energy and never goes past the maximum; an amount that is a positive multiple of
  \<open>2 ^ 32\<close> gives no energy at all, while the result still reports the whole amount as consumed.\<close>

lemma recharge_truncates:
  assumes "ship_tbl s i = Some ship" and "energy_of i s \<le> MAX_ENERGY" and "0 < k" and "0 < a"
  shows "(\<exists>r s'. recharge_energy i a s = (Ok r, s') \<and> rr_energy_gained r \<le> BASE_RECHARGE_RATE
      \<and> energy_of i s' = energy_of i s + rr_energy_gained r \<and> energy_of i s' \<le> MAX_ENERGY)
    \<and> (\<exists>r s'. recharge_energy i (4294967296 * k) s = (Ok r, s') \<and> rr_energy_gained r = 0
      \<and> energy_of i s' = energy_of i s \<and> rr_resources_consumed r = 4294967296 * k)"
proof
  let ?gain = "\<lambda>a. min (saturating_mul u32_max (as_u32 a) RECHARGE_EFFICIENCY div 100) BASE_RECHARGE_RATE"
  obtain r s' where r: "recharge_energy i a s = (Ok r, s')" "rr_energy_gained r = min (energy_of i s + ?gain a) MAX_ENERGY - energy_of i s"
      "energy_of i s' = min (energy_of i s + ?gain a) MAX_ENERGY"
    using recharge_gain[OF assms(1,2,4)] by blast
  moreover have "rr_energy_gained r \<le> BASE_RECHARGE_RATE" unfolding r(2) by linarith
  ultimately show "\<exists>r s'. recharge_energy i a s = (Ok r, s') \<and> rr_energy_gained r \<le> BASE_RECHARGE_RATE
      \<and> energy_of i s' = energy_of i s + rr_energy_gained r \<and> energy_of i s' \<le> MAX_ENERGY"
    using assms(2) by auto
  have "as_u32 (4294967296 * k) = 0" by (simp add: as_u32_def)
  then have gain: "?gain (4294967296 * k) = 0" by (simp add: saturating_mul_def)
  show "\<exists>r s'. recharge_energy i (4294967296 * k) s = (Ok r, s') \<and> rr_energy_gained r = 0
      \<and> energy_of i s' = energy_of i s \<and> rr_resources_consumed r = 4294967296 * k"
    using recharge_gain[OF assms(1,2), of "4294967296 * k"] assms(2,3) unfolding gain by fastforce
qed

lemma recharge_truncates_example:
  "\<exists>r s'. recharge_energy 1 4294967296 fresh_energy = (Ok r, s') \<and> rr_energy_gained r = 0 \<and> rr_resources_consumed r = 4294967296"
  using recharge_truncates[OF fresh_energy_ship(1), of 1 1] fresh_energy_ship(2) by auto

end
