(* ===== verification/Emergency_Controls.thy ===== *)
theory Emergency_Controls
  imports Energy_Manager
begin

text \<open>
  \<open>src/emergency_controls.rs\<close>: the pause switch with its delayed release. An admin pauses at once;
  lifting the pause takes a scheduling call and, an hour later, an executing call.
\<close>

section \<open>Model\<close>

abbreviation UNPAUSE_DELAY :: u64 where "UNPAUSE_DELAY \<equiv> 3600"

datatype EmergencyError = ContractPaused | NotAdmin | NotPaused | UnpauseDelayNotMet | AlreadyInitialized | EmptyAdminSet

record emergency_store = energy_store +
  em_paused :: "bool option"
  em_admins :: "address list option"
  em_unpause_at :: "u64 option"

fun is_admin_loop :: "address list \<Rightarrow> address \<Rightarrow> bool" where
  "is_admin_loop [] caller = False"
| "is_admin_loop (a # admins) caller = (if a = caller then True else is_admin_loop admins caller)"

definition is_admin :: "address \<Rightarrow> 'a emergency_store_scheme \<Rightarrow> bool" where
  "is_admin caller s = is_admin_loop (unwrap_or (em_admins s) []) caller"

definition require_admin :: "address \<Rightarrow> 'a emergency_store_scheme \<Rightarrow> (EmergencyError, unit) outcome \<times> 'a emergency_store_scheme" where
  "require_admin caller s = (if \<not> is_admin caller s then (Err EmergencyError.NotAdmin, s) else (Ok (), s))"

definition initialize_admins :: "env \<Rightarrow> address list \<Rightarrow> 'a emergency_store_scheme
    \<Rightarrow> (EmergencyError, unit) outcome \<times> 'a emergency_store_scheme" where
  "initialize_admins env admins s =
    (if em_admins s \<noteq> None then (Err EmergencyError.AlreadyInitialized, s)
     else if length admins = 0 then (Err EmergencyError.EmptyAdminSet, s)
     else if \<not> list_all (auth env) admins then (Panic, s)
     else (Ok (), s\<lparr>em_admins := Some admins, em_paused := Some False\<rparr>))"

definition require_not_paused :: "'a emergency_store_scheme \<Rightarrow> (EmergencyError, unit) outcome" where
  "require_not_paused s = (if unwrap_or (em_paused s) False then Err EmergencyError.ContractPaused else Ok ())"

definition pause_contract :: "env \<Rightarrow> address \<Rightarrow> 'a emergency_store_scheme
    \<Rightarrow> (EmergencyError, unit) outcome \<times> 'a emergency_store_scheme" where
  "pause_contract env admin s =
    (if \<not> auth env admin then (Panic, s)
     else and_then (require_admin admin s) (\<lambda>_ s.
       (Ok (), publish [SS ''ctrl'', SS ''paused''] [SA admin, SU (timestamp env)] (s\<lparr>em_paused := Some True\<rparr>))))"

definition schedule_unpause :: "env \<Rightarrow> address \<Rightarrow> 'a emergency_store_scheme
    \<Rightarrow> (EmergencyError, u64) outcome \<times> 'a emergency_store_scheme" where
  "schedule_unpause env admin s =
    (if \<not> auth env admin then (Panic, s)
     else and_then (require_admin admin s) (\<lambda>_ s.
       if \<not> unwrap_or (em_paused s) False then (Err EmergencyError.NotPaused, s)
       else case checked_add u64_max (timestamp env) UNPAUSE_DELAY of
         None \<Rightarrow> (Panic, s)
       | Some unpause_at \<Rightarrow> (Ok unpause_at, s\<lparr>em_unpause_at := Some unpause_at\<rparr>)))"

definition execute_unpause :: "env \<Rightarrow> address \<Rightarrow> 'a emergency_store_scheme
    \<Rightarrow> (EmergencyError, unit) outcome \<times> 'a emergency_store_scheme" where
  "execute_unpause env admin s =
    (if \<not> auth env admin then (Panic, s)
     else and_then (require_admin admin s) (\<lambda>_ s.
       let unpause_at = unwrap_or (em_unpause_at s) u64_max in
       if timestamp env < unpause_at then (Err EmergencyError.UnpauseDelayNotMet, s)
       else (Ok (), publish [SS ''ctrl'', SS ''unpaused''] [SA admin, SU (timestamp env)]
              (s\<lparr>em_paused := Some False, em_unpause_at := None\<rparr>))))"

definition emergency_withdraw :: "env \<Rightarrow> address \<Rightarrow> symbol \<Rightarrow> 'a emergency_store_scheme
    \<Rightarrow> (EmergencyError, unit) outcome \<times> 'a emergency_store_scheme" where
  "emergency_withdraw env admin resource s =
    (if \<not> auth env admin then (Panic, s)
     else and_then (require_admin admin s) (\<lambda>_ s.
       (Ok (), publish [SS ''ctrl'', SS ''emrg_wd''] [SA admin, SS resource, SU (timestamp env)] s)))"

definition is_paused :: "'a emergency_store_scheme \<Rightarrow> bool" where
  "is_paused s = unwrap_or (em_paused s) False"

definition get_admins :: "'a emergency_store_scheme \<Rightarrow> address list" where
  "get_admins s = unwrap_or (em_admins s) []"

section \<open>Steps\<close>

inductive emergency_step :: "env \<Rightarrow> 'a emergency_store_scheme \<Rightarrow> 'a emergency_store_scheme \<Rightarrow> bool" for env where
  init: "commits (initialize_admins env as) s s' \<Longrightarrow> emergency_step env s s'"
| pause: "commits (pause_contract env a) s s' \<Longrightarrow> emergency_step env s s'"
| schedule: "commits (schedule_unpause env a) s s' \<Longrightarrow> emergency_step env s s'"
| execute: "commits (execute_unpause env a) s s' \<Longrightarrow> emergency_step env s s'"
| withdraw: "commits (emergency_withdraw env a r) s s' \<Longrightarrow> emergency_step env s s'"

section \<open>Lemmas\<close>

lemma publish_emergency_store [simp]:
  "em_paused (publish t d s) = em_paused s" "em_admins (publish t d s) = em_admins s"
  "em_unpause_at (publish t d s) = em_unpause_at s"
  by (simp_all add: publish_def)

lemma is_admin_iff: "is_admin a s \<longleftrightarrow> a \<in> set (get_admins s)"
proof -
  have "is_admin_loop as a \<longleftrightarrow> a \<in> set as" for as by (induction as) auto
  then show ?thesis by (simp add: is_admin_def get_admins_def)
qed

lemma require_admin_Ok [ok_rules]: "require_admin a s = (Ok u, s') \<longleftrightarrow> a \<in> set (get_admins s) \<and> s' = s"
  by (auto simp: require_admin_def is_admin_iff)

lemma initialize_Ok [ok_iff]: "initialize_admins env as s = (Ok u, s') \<longleftrightarrow> em_admins s = None \<and> as \<noteq> [] \<and> list_all (auth env) as \<and>
    s' = s\<lparr>em_admins := Some as, em_paused := Some False\<rparr>"
  by (auto simp: initialize_admins_def ok_rules split del: if_split)

lemma pause_Ok [ok_iff]: "pause_contract env a s = (Ok u, s') \<longleftrightarrow> auth env a \<and> a \<in> set (get_admins s) \<and>
    s' = publish [SS ''ctrl'', SS ''paused''] [SA a, SU (timestamp env)] (s\<lparr>em_paused := Some True\<rparr>)"
  by (auto simp: pause_contract_def ok_rules split del: if_split)

lemma schedule_Ok [ok_iff]: "schedule_unpause env a s = (Ok r, s') \<longleftrightarrow> auth env a \<and> a \<in> set (get_admins s) \<and> is_paused s \<and>
    r = timestamp env + UNPAUSE_DELAY \<and> r \<le> u64_max \<and> s' = s\<lparr>em_unpause_at := Some r\<rparr>"
  by (auto simp: schedule_unpause_def is_paused_def ok_rules split del: if_split)

lemma execute_Ok [ok_iff]: "execute_unpause env a s = (Ok u, s') \<longleftrightarrow> auth env a \<and> a \<in> set (get_admins s) \<and>
    unwrap_or (em_unpause_at s) u64_max \<le> timestamp env \<and>
    s' = publish [SS ''ctrl'', SS ''unpaused''] [SA a, SU (timestamp env)] (s\<lparr>em_paused := Some False, em_unpause_at := None\<rparr>)"
  by (auto simp: execute_unpause_def Let_def ok_rules not_less split del: if_split)

lemma withdraw_Ok [ok_iff]: "emergency_withdraw env a r s = (Ok u, s') \<longleftrightarrow> auth env a \<and> a \<in> set (get_admins s) \<and>
    s' = publish [SS ''ctrl'', SS ''emrg_wd''] [SA a, SS r, SU (timestamp env)] s"
  by (auto simp: emergency_withdraw_def ok_rules split del: if_split)

lemma execute_unpauses: "execute_unpause env a s = (Ok u, s') \<Longrightarrow> \<not> is_paused s'"
  by (auto simp: execute_Ok is_paused_def)

lemmas emergency_oks = initialize_Ok pause_Ok schedule_Ok execute_Ok withdraw_Ok

text \<open>The admin set is written once.\<close>

lemma emergency_step_admins: "emergency_step env s s' \<Longrightarrow> em_admins s \<noteq> None \<Longrightarrow> em_admins s' = em_admins s"
  by (erule emergency_step.cases) (auto simp: commits_iff emergency_oks)

interpretation fixed_admins: step_system "\<lambda>s s'. \<exists>env. emergency_step env s s'"
  "\<lambda>s::'a emergency_store_scheme. em_admins s = Some as" for as
  by unfold_locales (use emergency_step_admins in fastforce)

text \<open>An invocation in the history that a member of the admin set signed.\<close>

definition admin_call :: "address list \<Rightarrow> env \<Rightarrow> bool" where
  "admin_call as env \<longleftrightarrow> (\<exists>a\<in>set as. auth env a)"

text \<open>The history of a pause: it still holds and any recorded release time comes from an
  admin's scheduling call in the history, or the pause was lifted by an admin at least the delay
  after such a call.\<close>

definition delayed_release :: "address list \<Rightarrow> env list \<Rightarrow> bool" where
  "delayed_release as envs \<longleftrightarrow> (\<exists>pre e1 mid e2 post. envs = pre @ e1 # mid @ e2 # post \<and>
     admin_call as e1 \<and> admin_call as e2 \<and> timestamp e1 + UNPAUSE_DELAY \<le> timestamp e2)"

definition release_pending :: "address list \<Rightarrow> env list \<Rightarrow> 'a emergency_store_scheme \<Rightarrow> bool" where
  "release_pending as envs s \<longleftrightarrow> em_admins s = Some as \<and> is_paused s \<and>
     (\<forall>t. em_unpause_at s = Some t \<longrightarrow> (\<exists>e1\<in>set envs. admin_call as e1 \<and> t = timestamp e1 + UNPAUSE_DELAY))"

lemma delayed_release_snoc: "delayed_release as envs \<Longrightarrow> delayed_release as (envs @ [env])"
  by (fastforce simp: delayed_release_def)

lemma delayed_release_intro:
  assumes "e1 \<in> set envs" "admin_call as e1" "admin_call as e2" "timestamp e1 + UNPAUSE_DELAY \<le> timestamp e2"
  shows "delayed_release as (envs @ [e2])"
proof -
  from assms(1) obtain pre mid where "envs = pre @ e1 # mid" by (meson split_list)
  then have "envs @ [e2] = pre @ e1 # mid @ e2 # []" by simp
  with assms(2-4) show ?thesis unfolding delayed_release_def by blast
qed

lemma release_step:
  assumes pend: "release_pending as envs s" and step: "emergency_step env s s'" and time: "timestamp env < u64_max"
  shows "release_pending as (envs @ [env]) s' \<or> delayed_release as (envs @ [env])"
  using step
proof (cases rule: emergency_step.cases)
  case (execute a)
  then have a: "admin_call as env" and due: "unwrap_or (em_unpause_at s) u64_max \<le> timestamp env"
    using pend by (auto simp: commits_iff execute_Ok release_pending_def admin_call_def get_admins_def)
  with time obtain t where t: "em_unpause_at s = Some t" by (cases "em_unpause_at s") auto
  with pend obtain e1 where "e1 \<in> set envs" "admin_call as e1" "t = timestamp e1 + UNPAUSE_DELAY"
    by (auto simp: release_pending_def)
  with a due t show ?thesis using delayed_release_intro[of e1 envs as env] by simp
qed (use pend in \<open>auto simp: commits_iff emergency_oks release_pending_def is_paused_def get_admins_def admin_call_def\<close>)

lemma release_run:
  "runs emergency_step envs s s' \<Longrightarrow> release_pending as [] s \<Longrightarrow> \<forall>e\<in>set envs. timestamp e < u64_max \<Longrightarrow>
   release_pending as envs s' \<or> delayed_release as envs"
  by (induction rule: runs.induct) (auto dest: release_step intro: delayed_release_snoc)

definition paused_demo :: emergency_store where
  "paused_demo = energy_store.extend fresh_energy \<lparr>em_paused = Some True, em_admins = Some [Addr 1], em_unpause_at = None\<rparr>"

definition unpaused_demo :: emergency_store where
  "unpaused_demo = snd (execute_unpause (signed_at 4000 2) (Addr 1) (snd (schedule_unpause (signed_at 100 1) (Addr 1) paused_demo)))"

lemma paused_demo_simps: "em_paused paused_demo = Some True" "em_admins paused_demo = Some [Addr 1]" "em_unpause_at paused_demo = None"
  by (simp_all add: paused_demo_def energy_store.defs)

lemma unpaused_run: "runs emergency_step [signed_at 100 1, signed_at 4000 2] paused_demo unpaused_demo" "\<not> is_paused unpaused_demo"
proof -
  let ?m = "snd (schedule_unpause (signed_at 100 1) (Addr 1) paused_demo)"
  have 1: "schedule_unpause (signed_at 100 1) (Addr 1) paused_demo = (Ok 3700, paused_demo\<lparr>em_unpause_at := Some 3700\<rparr>)"
    by (simp add: schedule_Ok paused_demo_simps get_admins_def is_paused_def)
  then have m: "?m = paused_demo\<lparr>em_unpause_at := Some 3700\<rparr>" by simp
  have 2: "execute_unpause (signed_at 4000 2) (Addr 1) ?m = (Ok (), unpaused_demo)"
    unfolding unpaused_demo_def m
    by (simp add: execute_unpause_def require_admin_def is_admin_def paused_demo_simps)
  then show "\<not> is_paused unpaused_demo" by (rule execute_unpauses)
  have "emergency_step (signed_at 100 1) paused_demo ?m"
    by (rule emergency_step.schedule[of _ "Addr 1"]) (use 1 in \<open>simp add: commits_def\<close>)
  moreover have "emergency_step (signed_at 4000 2) ?m unpaused_demo"
    by (rule emergency_step.execute[of _ "Addr 1"]) (use 2 in \<open>simp add: commits_def\<close>)
  ultimately show "runs emergency_step [signed_at 100 1, signed_at 4000 2] paused_demo unpaused_demo"
    using runs_snoc[OF runs_single[of emergency_step "signed_at 100 1" paused_demo ?m]] by simp
qed

section \<open>Properties\<close>

text \<open>C8. A pause is lifted only by the admins and only after the delay. Take any history of
  control operations that starts in a pause with no release scheduled and ends unpaused: it contains
  a call signed by a member of the admin set and, at least an hour of ledger time later, another one.
  The admin set itself never changes.\<close>

theorem unpause_needs_delay:
  assumes start: "em_admins s = Some as" "is_paused s" "em_unpause_at s = None"
    and run: "runs emergency_step envs s s'" and time: "\<forall>e\<in>set envs. timestamp e < u64_max" and lifted: "\<not> is_paused s'"
  shows "em_admins s' = Some as \<and> (\<exists>pre e1 mid e2 post. envs = pre @ e1 # mid @ e2 # post
    \<and> (\<exists>a\<in>set as. auth e1 a) \<and> (\<exists>a\<in>set as. auth e2 a) \<and> timestamp e1 + UNPAUSE_DELAY \<le> timestamp e2)"
proof -
  have "release_pending as [] s" using start by (simp add: release_pending_def)
  from release_run[OF run this time] lifted have "delayed_release as envs" by (auto simp: release_pending_def)
  moreover have "em_admins s' = Some as" using fixed_admins.run_inv[OF runs_steps[OF run] start(1)] .
  ultimately show ?thesis by (auto simp: delayed_release_def admin_call_def)
qed

theorem unpause_needs_delay_witness:
  "\<exists>pre e1 mid e2 post. [signed_at 100 1, signed_at 4000 2] = pre @ e1 # mid @ e2 # post
     \<and> timestamp e1 + UNPAUSE_DELAY \<le> timestamp e2"
  using unpause_needs_delay[OF paused_demo_simps(2) _ paused_demo_simps(3) unpaused_run(1) _ unpaused_run(2)]
  by (simp add: is_paused_def paused_demo_simps) blast

text \<open>The pause flag does not stop anything. \<open>require_not_paused\<close> reports the pause, but no entry
  point of the ship, vault, escrow, bonding and energy components reads the flag: ship transfers,
  vault claims, escrow completions, yield claims and energy spending have the same outcome whether the
  contract is paused or not.\<close>

lemma pause_does_not_block:
  "require_not_paused (s\<lparr>em_paused := Some True\<rparr>) = Err EmergencyError.ContractPaused
   \<and> fst (transfer_ship env i a b (s\<lparr>em_paused := Some True\<rparr>)) = fst (transfer_ship env i a b s)
   \<and> fst (claim_treasure env a i (s\<lparr>em_paused := Some True\<rparr>)) = fst (claim_treasure env a i s)
   \<and> fst (complete_escrow env i (s\<lparr>em_paused := Some True\<rparr>)) = fst (complete_escrow env i s)
   \<and> fst (claim_yield env a i (s\<lparr>em_paused := Some True\<rparr>)) = fst (claim_yield env a i s)
   \<and> fst (consume_energy i n (s\<lparr>em_paused := Some True\<rparr>)) = fst (consume_energy i n s)"
proof (intro conjI)
  show "require_not_paused (s\<lparr>em_paused := Some True\<rparr>) = Err EmergencyError.ContractPaused"
    by (simp add: require_not_paused_def)
  show "fst (transfer_ship env i a b (s\<lparr>em_paused := Some True\<rparr>)) = fst (transfer_ship env i a b s)"
    by (simp add: transfer_ship_def enter_lock_def Let_def split: option.split)
  show "fst (claim_treasure env a i (s\<lparr>em_paused := Some True\<rparr>)) = fst (claim_treasure env a i s)"
    by (simp add: claim_treasure_def claim_treasure_unguarded_def with_guard_def acquire_def Let_def split: option.split)
  show "fst (complete_escrow env i (s\<lparr>em_paused := Some True\<rparr>)) = fst (complete_escrow env i s)"
    by (simp add: complete_escrow_def with_guard_def acquire_def Let_def split: option.split)
  show "fst (claim_yield env a i (s\<lparr>em_paused := Some True\<rparr>)) = fst (claim_yield env a i s)"
    by (simp add: claim_yield_def with_guard_def acquire_def Let_def split: option.split) auto
  show "fst (consume_energy i n (s\<lparr>em_paused := Some True\<rparr>)) = fst (consume_energy i n s)"
    by (simp add: consume_energy_def Let_def split: option.split)
qed

end
