(* ===== verification/Governance.thy ===== *)
theory Governance
  imports Emergency_Controls
begin

text \<open>
  \<open>src/governance.rs\<close>: proposals and votes, and the game parameters that the registered DAO contract
  may set. The admin that registers the DAO is read from the instance key \<open>Admin\<close>; unit variants of
  different key enums encode to the same host key, so this is the same entry that
  \<open>src/staking.rs\<close> writes, and the model has one field (\<open>inst_admin\<close>) for it.
\<close>

section \<open>Model\<close>

datatype GovError = VotingClosed | AlreadyVoted | ProposalNotFound | QuorumNotMet | InsufficientEssence | NotDao | NotAdmin

datatype ProposalStatus = Active | Passed | Failed | Executed

record Proposal =
  gp_id :: u64
  gp_description :: string
  gp_param_change :: bytes
  gp_creator :: address
  gp_expiration :: u64
  gp_for_votes :: i128
  gp_against_votes :: i128
  gp_status :: ProposalStatus

abbreviation QUORUM :: i128 where "QUORUM \<equiv> 100000000000"
abbreviation VOTING_PERIOD :: u64 where "VOTING_PERIOD \<equiv> 259200"

record gov_store = emergency_store +
  inst_admin :: "address option"
  dao_contract :: "address option"
  game_parameter :: "symbol \<rightharpoonup> i128"
  next_gid :: "u64 option"
  gov_proposals :: "u64 \<rightharpoonup> Proposal"
  gov_votes :: "(u64 \<times> address) \<rightharpoonup> bool"

definition create_proposal :: "env \<Rightarrow> address \<Rightarrow> string \<Rightarrow> bytes \<Rightarrow> 'a gov_store_scheme
    \<Rightarrow> (GovError, u64) outcome \<times> 'a gov_store_scheme" where
  "create_proposal env creator description param_change s =
    (if \<not> auth env creator then (Panic, s)
     else let proposal_id = unwrap_or (next_gid s) 0 in
       case checked_add u64_max (timestamp env) VOTING_PERIOD of
         None \<Rightarrow> (Panic, s)
       | Some expiration \<Rightarrow>
           let proposal = \<lparr>gp_id = proposal_id, gp_description = description, gp_param_change = param_change,
                 gp_creator = creator, gp_expiration = expiration, gp_for_votes = 0, gp_against_votes = 0,
                 gp_status = ProposalStatus.Active\<rparr>;
               s = s\<lparr>gov_proposals := (gov_proposals s)(proposal_id \<mapsto> proposal)\<rparr> in
           case checked_add u64_max proposal_id 1 of
             None \<Rightarrow> (Panic, s)
           | Some next \<Rightarrow>
               let s = s\<lparr>next_gid := Some next\<rparr>
               in (Ok proposal_id, publish [SS ''gov'', SS ''prop_crtd''] [SU proposal_id, SA creator] s))"

definition cast_vote :: "env \<Rightarrow> address \<Rightarrow> u64 \<Rightarrow> bool \<Rightarrow> i128 \<Rightarrow> 'a gov_store_scheme
    \<Rightarrow> (GovError, unit) outcome \<times> 'a gov_store_scheme" where
  "cast_vote env voter proposal_id support essence_weight s =
    (if \<not> auth env voter then (Panic, s)
     else case gov_proposals s proposal_id of
       None \<Rightarrow> (Err GovError.ProposalNotFound, s)
     | Some proposal \<Rightarrow>
         if timestamp env > gp_expiration proposal then (Err GovError.VotingClosed, s)
         else if gov_votes s (proposal_id, voter) \<noteq> None then (Err GovError.AlreadyVoted, s)
         else case (if support then map_option (\<lambda>v. proposal\<lparr>gp_for_votes := v\<rparr>) (ck (gp_for_votes proposal + essence_weight))
                    else map_option (\<lambda>v. proposal\<lparr>gp_against_votes := v\<rparr>) (ck (gp_against_votes proposal + essence_weight))) of
           None \<Rightarrow> (Panic, s)
         | Some proposal \<Rightarrow>
             let s = s\<lparr>gov_proposals := (gov_proposals s)(proposal_id \<mapsto> proposal)\<rparr>;
                 s = s\<lparr>gov_votes := (gov_votes s)((proposal_id, voter) \<mapsto> True)\<rparr>
             in (Ok (), publish [SS ''gov'', SS ''vote_cast''] [SU proposal_id, SA voter, SB support, SI essence_weight] s))"

definition finalize_proposal :: "env \<Rightarrow> u64 \<Rightarrow> 'a gov_store_scheme
    \<Rightarrow> (GovError, ProposalStatus) outcome \<times> 'a gov_store_scheme" where
  "finalize_proposal env proposal_id s = (case gov_proposals s proposal_id of
     None \<Rightarrow> (Err GovError.ProposalNotFound, s)
   | Some proposal \<Rightarrow>
       if timestamp env \<le> gp_expiration proposal then (Err GovError.VotingClosed, s)
       else case ck (gp_for_votes proposal + gp_against_votes proposal) of
         None \<Rightarrow> (Panic, s)
       | Some total_votes \<Rightarrow>
           let status = (if total_votes < QUORUM then Failed
                 else if gp_for_votes proposal > gp_against_votes proposal then Passed
                 else Failed);
               s = s\<lparr>gov_proposals := (gov_proposals s)(proposal_id \<mapsto> proposal\<lparr>gp_status := status\<rparr>)\<rparr>
           in (Ok status, s))"

definition set_game_parameter :: "env \<Rightarrow> address \<Rightarrow> symbol \<Rightarrow> i128 \<Rightarrow> 'a gov_store_scheme
    \<Rightarrow> (GovError, unit) outcome \<times> 'a gov_store_scheme" where
  "set_game_parameter env caller parameter_key parameter_value s =
    (if \<not> auth env caller then (Panic, s)
     else case dao_contract s of
       None \<Rightarrow> (Err GovError.NotDao, s)
     | Some dao_address \<Rightarrow>
         if caller \<noteq> dao_address then (Err GovError.NotDao, s)
         else let s = s\<lparr>game_parameter := (game_parameter s)(parameter_key \<mapsto> parameter_value)\<rparr>
              in (Ok (), publish [SS ''gov'', SS ''param''] [SS parameter_key, SI parameter_value] s))"

definition get_game_parameter :: "symbol \<Rightarrow> 'a gov_store_scheme \<Rightarrow> i128 option" where
  "get_game_parameter parameter_key s = game_parameter s parameter_key"

definition set_dao_contract :: "env \<Rightarrow> address \<Rightarrow> address \<Rightarrow> 'a gov_store_scheme
    \<Rightarrow> (GovError, unit) outcome \<times> 'a gov_store_scheme" where
  "set_dao_contract env admin dao_address s =
    (if \<not> auth env admin then (Panic, s)
     else case inst_admin s of
       None \<Rightarrow> (Err GovError.NotAdmin, s)
     | Some stored_admin \<Rightarrow>
         if admin \<noteq> stored_admin then (Err GovError.NotAdmin, s)
         else (Ok (), publish [SS ''gov'', SS ''dao_set''] [SA dao_address] (s\<lparr>dao_contract := Some dao_address\<rparr>)))"

section \<open>Ballots and steps\<close>

inductive gov_step :: "env \<Rightarrow> 'a gov_store_scheme \<Rightarrow> 'a gov_store_scheme \<Rightarrow> bool" for env where
  propose: "commits (create_proposal env c d p) s s' \<Longrightarrow> gov_step env s s'"
| vote: "commits (cast_vote env v i b w) s s' \<Longrightarrow> gov_step env s s'"
| finalize: "commits (finalize_proposal env i) s s' \<Longrightarrow> gov_step env s s'"
| set_parameter: "commits (set_game_parameter env c k x) s s' \<Longrightarrow> gov_step env s s'"
| set_dao: "commits (set_dao_contract env a d) s s' \<Longrightarrow> gov_step env s s'"

text \<open>The ballots, as the event log shows them.\<close>

definition ballot :: "event \<Rightarrow> (u64 \<times> address \<times> bool \<times> i128) list" where
  "ballot e = (if fst e = [SS ''gov'', SS ''vote_cast'']
     then (case snd e of [SU i, SA v, SB yes, SI w] \<Rightarrow> [(i, v, yes, w)] | _ \<Rightarrow> []) else [])"

definition ballots :: "event list \<Rightarrow> u64 \<Rightarrow> (address \<times> bool \<times> i128) list" where
  "ballots evs i = map snd (filter (\<lambda>b. fst b = i) (concat (map ballot evs)))"

definition tally :: "bool \<Rightarrow> (address \<times> bool \<times> i128) list \<Rightarrow> i128" where
  "tally yes bs = sum_list (map (snd \<circ> snd) (filter (\<lambda>b. fst (snd b) = yes) bs))"

text \<open>The stored totals are the sums of the published ballots, nobody has two ballots on a
  proposal, and the vote entries are the voters of the ballots.\<close>

definition gov_inv :: "'a gov_store_scheme \<Rightarrow> bool" where
  "gov_inv s \<longleftrightarrow> (\<forall>i.
     (\<forall>p. gov_proposals s i = Some p \<longrightarrow> i < unwrap_or (next_gid s) 0 \<and> gp_id p = i \<and>
        gp_for_votes p = tally True (ballots (events s) i) \<and> gp_against_votes p = tally False (ballots (events s) i)) \<and>
     (gov_proposals s i = None \<longrightarrow> ballots (events s) i = []) \<and>
     distinct (map fst (ballots (events s) i)) \<and>
     {v. gov_votes s (i, v) \<noteq> None} = set (map fst (ballots (events s) i)))"

section \<open>Lemmas\<close>

lemma publish_gov_store [simp]:
  "inst_admin (publish t d s) = inst_admin s" "dao_contract (publish t d s) = dao_contract s"
  "game_parameter (publish t d s) = game_parameter s" "next_gid (publish t d s) = next_gid s"
  "gov_proposals (publish t d s) = gov_proposals s" "gov_votes (publish t d s) = gov_votes s"
  by (simp_all add: publish_def)

lemma ballot_simps [simp]:
  "ballot ([SS ''gov'', SS ''vote_cast''], [SU i, SA v, SB yes, SI w]) = [(i, v, yes, w)]"
  "t \<noteq> [SS ''gov'', SS ''vote_cast''] \<Longrightarrow> ballot (t, d) = []"
  by (simp_all add: ballot_def)

lemma ballots_snoc: "ballots (evs @ [e]) i = ballots evs i @ map snd (filter (\<lambda>b. fst b = i) (ballot e))"
  by (simp add: ballots_def)

lemma tally_snoc [simp]: "tally yes (bs @ [(v, b, w)]) = tally yes bs + (if b = yes then w else 0)"
  by (simp add: tally_def)

lemma tally_Nil [simp]: "tally yes [] = 0"
  by (simp add: tally_def)

lemma create_proposal_Ok [ok_iff]: "create_proposal env c d p s = (Ok i, s') \<longleftrightarrow>
    auth env c \<and> i = unwrap_or (next_gid s) 0 \<and> timestamp env + VOTING_PERIOD \<le> u64_max \<and> Suc i \<le> u64_max \<and>
    s' = publish [SS ''gov'', SS ''prop_crtd''] [SU i, SA c]
      (s\<lparr>gov_proposals := (gov_proposals s)(i \<mapsto> \<lparr>gp_id = i, gp_description = d, gp_param_change = p, gp_creator = c,
           gp_expiration = timestamp env + VOTING_PERIOD, gp_for_votes = 0, gp_against_votes = 0, gp_status = ProposalStatus.Active\<rparr>),
         next_gid := Some (Suc i)\<rparr>)"
  by (simp add: create_proposal_def Let_def ok_rules split del: if_split) blast

lemma cast_vote_Ok [ok_iff]: "cast_vote env v i b w s = (Ok u, s') \<longleftrightarrow>
    auth env v \<and> (\<exists>p q. gov_proposals s i = Some p \<and> timestamp env \<le> gp_expiration p \<and> gov_votes s (i, v) = None \<and>
      in_i128 (if b then gp_for_votes p + w else gp_against_votes p + w) \<and>
      q = (if b then p\<lparr>gp_for_votes := gp_for_votes p + w\<rparr> else p\<lparr>gp_against_votes := gp_against_votes p + w\<rparr>) \<and>
      s' = publish [SS ''gov'', SS ''vote_cast''] [SU i, SA v, SB b, SI w]
        (s\<lparr>gov_proposals := (gov_proposals s)(i \<mapsto> q), gov_votes := (gov_votes s)((i, v) \<mapsto> True)\<rparr>))"
proof (cases b)
  case True
  then show ?thesis by (simp add: cast_vote_def Let_def ok_rules not_less del: not_None_eq) blast
next
  case False
  then show ?thesis by (simp add: cast_vote_def Let_def ok_rules not_less del: not_None_eq) blast
qed

lemma finalize_Ok [ok_iff]: "finalize_proposal env i s = (Ok st, s') \<longleftrightarrow>
    (\<exists>p. gov_proposals s i = Some p \<and> gp_expiration p < timestamp env \<and> in_i128 (gp_for_votes p + gp_against_votes p) \<and>
      st = (if gp_for_votes p + gp_against_votes p < QUORUM then Failed
            else if gp_against_votes p < gp_for_votes p then Passed else Failed) \<and>
      s' = s\<lparr>gov_proposals := (gov_proposals s)(i \<mapsto> p\<lparr>gp_status := st\<rparr>)\<rparr>)"
  by (simp add: finalize_proposal_def Let_def ok_rules not_le split del: if_split) blast

lemma set_parameter_Ok [ok_iff]: "set_game_parameter env c k x s = (Ok u, s') \<longleftrightarrow>
    auth env c \<and> dao_contract s = Some c \<and>
    s' = publish [SS ''gov'', SS ''param''] [SS k, SI x] (s\<lparr>game_parameter := (game_parameter s)(k \<mapsto> x)\<rparr>)"
  by (simp add: set_game_parameter_def Let_def ok_rules split del: if_split) blast

lemma set_dao_Ok [ok_iff]: "set_dao_contract env a d s = (Ok u, s') \<longleftrightarrow>
    auth env a \<and> inst_admin s = Some a \<and>
    s' = publish [SS ''gov'', SS ''dao_set''] [SA d] (s\<lparr>dao_contract := Some d\<rparr>)"
  by (simp add: set_dao_contract_def Let_def ok_rules split del: if_split) blast

lemmas gov_oks = create_proposal_Ok cast_vote_Ok finalize_Ok set_parameter_Ok set_dao_Ok

lemma gov_inv_same_ballots:
  assumes "gov_inv s" "\<And>i. ballots (events s') i = ballots (events s) i" "gov_votes s' = gov_votes s"
    "\<And>i p. gov_proposals s' i = Some p \<Longrightarrow> i < unwrap_or (next_gid s') 0 \<and> gp_id p = i \<and>
        gp_for_votes p = tally True (ballots (events s) i) \<and> gp_against_votes p = tally False (ballots (events s) i)"
    "\<And>i. gov_proposals s' i = None \<Longrightarrow> gov_proposals s i = None"
  shows "gov_inv s'"
  using assms unfolding gov_inv_def by simp

lemma gov_inv_get:
  "gov_inv s \<Longrightarrow> gov_proposals s i = Some p \<Longrightarrow> i < unwrap_or (next_gid s) 0 \<and> gp_id p = i \<and>
        gp_for_votes p = tally True (ballots (events s) i) \<and> gp_against_votes p = tally False (ballots (events s) i)"
  by (simp add: gov_inv_def)

lemma vote_inv:
  assumes inv: "gov_inv s" and vote: "cast_vote env v i b w s = (Ok u, s')"
  shows "gov_inv s'"
proof -
  from vote obtain p q where p: "gov_proposals s i = Some p" "gov_votes s (i, v) = None"
      "q = (if b then p\<lparr>gp_for_votes := gp_for_votes p + w\<rparr> else p\<lparr>gp_against_votes := gp_against_votes p + w\<rparr>)"
      and s': "s' = publish [SS ''gov'', SS ''vote_cast''] [SU i, SA v, SB b, SI w]
        (s\<lparr>gov_proposals := (gov_proposals s)(i \<mapsto> q), gov_votes := (gov_votes s)((i, v) \<mapsto> True)\<rparr>)"
    unfolding cast_vote_Ok by blast
  have bal: "ballots (events s') j = (if j = i then ballots (events s) i @ [(v, b, w)] else ballots (events s) j)" for j
    by (simp add: s' ballots_snoc)
  have new: "v \<notin> set (map fst (ballots (events s) i))" and dist: "\<And>j. distinct (map fst (ballots (events s) j))"
      and voters: "\<And>j. {v. gov_votes s (j, v) \<noteq> None} = set (map fst (ballots (events s) j))"
    using inv p(2) unfolding gov_inv_def by blast+
  note get = gov_inv_get[OF inv]
  show ?thesis unfolding gov_inv_def
  proof (intro allI conjI impI)
    fix j r assume "gov_proposals s' j = Some r"
    then show "j < unwrap_or (next_gid s') 0" "gp_id r = j" "gp_for_votes r = tally True (ballots (events s') j)"
        "gp_against_votes r = tally False (ballots (events s') j)"
      using get[OF p(1)] get[of j r] p(3) by (auto simp: s' ballots_snoc split: if_splits)
  next
    fix j assume "gov_proposals s' j = None"
    then have "j \<noteq> i" "gov_proposals s j = None" by (auto simp: s' split: if_splits)
    then show "ballots (events s') j = []" using inv by (simp add: gov_inv_def bal)
  next
    fix j
    show "distinct (map fst (ballots (events s') j))" using dist[of j] new by (auto simp: bal)
    show "{v. gov_votes s' (j, v) \<noteq> None} = set (map fst (ballots (events s') j))"
    proof -
      have "{x. gov_votes s' (j, x) \<noteq> None} = (if j = i then insert v {x. gov_votes s (i, x) \<noteq> None} else {x. gov_votes s (j, x) \<noteq> None})"
        by (auto simp: s')
      then show ?thesis unfolding voters by (simp add: bal)
    qed
  qed
qed

lemma propose_inv:
  assumes inv: "gov_inv s" and ok: "create_proposal env c d p s = (Ok i, s')"
  shows "gov_inv s'"
proof (rule gov_inv_same_ballots[OF inv])
  have i: "i = unwrap_or (next_gid s) 0" using ok by (simp add: create_proposal_Ok)
  then have "gov_proposals s i = None" using gov_inv_get[OF inv, of i] by (cases "gov_proposals s i") auto
  then have "ballots (events s) i = []" using inv by (simp add: gov_inv_def)
  then show "j < unwrap_or (next_gid s') 0 \<and> gp_id q = j \<and> gp_for_votes q = tally True (ballots (events s) j) \<and>
      gp_against_votes q = tally False (ballots (events s) j)" if "gov_proposals s' j = Some q" for j q
    using that ok i gov_inv_get[OF inv, of j q] by (auto simp: create_proposal_Ok split: if_splits)
qed (use ok in \<open>auto simp: create_proposal_Ok ballots_snoc split: if_splits\<close>)

lemma finalize_inv:
  assumes inv: "gov_inv s" and ok: "finalize_proposal env i s = (Ok st, s')"
  shows "gov_inv s'"
proof -
  from ok obtain p where p: "gov_proposals s i = Some p" and s': "s' = s\<lparr>gov_proposals := (gov_proposals s)(i \<mapsto> p\<lparr>gp_status := st\<rparr>)\<rparr>"
    unfolding finalize_Ok by blast
  show ?thesis
    by (rule gov_inv_same_ballots[OF inv]) (use gov_inv_get[OF inv] p in \<open>auto simp: s' split: if_splits\<close>)
qed

lemma parameter_inv: "gov_inv s \<Longrightarrow> set_game_parameter env c k x s = (Ok u, s') \<Longrightarrow> gov_inv s'"
  by (rule gov_inv_same_ballots[of s]) (auto simp: set_parameter_Ok ballots_snoc dest: gov_inv_get)

lemma dao_inv: "gov_inv s \<Longrightarrow> set_dao_contract env a d s = (Ok u, s') \<Longrightarrow> gov_inv s'"
  by (rule gov_inv_same_ballots[of s]) (auto simp: set_dao_Ok ballots_snoc dest: gov_inv_get)

lemma gov_step_inv: "gov_inv s \<Longrightarrow> gov_step env s s' \<Longrightarrow> gov_inv s'"
  by (erule gov_step.cases) (auto simp: commits_iff intro: propose_inv vote_inv finalize_inv parameter_inv dao_inv)

interpretation gov: step_system "\<lambda>s s'. \<exists>env. gov_step env s s'" "gov_inv :: 'a gov_store_scheme \<Rightarrow> bool"
  by unfold_locales (auto intro: gov_step_inv)

lemma vote_refused:
  "auth env v \<Longrightarrow> gov_proposals s i = Some p \<Longrightarrow> timestamp env \<le> gp_expiration p \<Longrightarrow> gov_votes s (i, v) \<noteq> None \<Longrightarrow>
   cast_vote env v i b w s = (Err GovError.AlreadyVoted, s)"
  "auth env v \<Longrightarrow> gov_proposals s i = Some p \<Longrightarrow> gp_expiration p < timestamp env \<Longrightarrow>
   cast_vote env v i b w s = (Err GovError.VotingClosed, s)"
  by (auto simp: cast_vote_def)

definition no_gov :: gov_store where
  "no_gov = emergency_store.extend paused_demo \<lparr>inst_admin = None, dao_contract = None, game_parameter = Map.empty,
     next_gid = None, gov_proposals = Map.empty, gov_votes = Map.empty\<rparr>"

definition proposed :: gov_store where
  "proposed = snd (create_proposal (signed_at 10 1) (Addr 1) ''raise'' [] no_gov)"

lemma no_gov_events: "events no_gov = []"
  by (simp add: no_gov_def paused_demo_def fresh_energy_def no_bonds_def no_escrows_def no_vaults_def no_ships_def
      ship_store.defs vault_store.defs escrow_store.defs bond_store.defs energy_store.defs emergency_store.defs)

lemma no_gov_inv: "gov_inv no_gov"
  unfolding gov_inv_def no_gov_events by (simp add: ballots_def) (simp add: no_gov_def emergency_store.defs)

lemma proposed_Ok: "create_proposal (signed_at 10 1) (Addr 1) ''raise'' [] no_gov = (Ok 0, proposed)"
  by (simp add: proposed_def create_proposal_def no_gov_def emergency_store.defs checked_add_def Let_def)

lemma proposed_eval:
  "gov_proposals proposed = [0 \<mapsto> \<lparr>gp_id = 0, gp_description = ''raise'', gp_param_change = [], gp_creator = Addr 1,
       gp_expiration = 259210, gp_for_votes = 0, gp_against_votes = 0, gp_status = ProposalStatus.Active\<rparr>]"
  "gov_votes proposed = Map.empty"
  by (simp_all add: proposed_def create_proposal_def no_gov_def emergency_store.defs checked_add_def Let_def)

section \<open>Properties\<close>

text \<open>The tally is the published ballots, one per address. After any run of governance
  operations from a consistent state, the stored totals of every proposal are exactly the sums of the
  weights in its published vote events, no address occurs twice among them, and an address that has
  voted is refused a second vote on that proposal with \<open>AlreadyVoted\<close>.\<close>

lemma governance_tally:
  assumes "(\<lambda>s s'. \<exists>env. gov_step env s s')\<^sup>*\<^sup>* s t" and "gov_inv s" and "gov_proposals t i = Some p"
  shows "gp_for_votes p = tally True (ballots (events t) i) \<and> gp_against_votes p = tally False (ballots (events t) i)
    \<and> distinct (map fst (ballots (events t) i))
    \<and> (\<forall>v b w env. auth env v \<and> timestamp env \<le> gp_expiration p \<and> v \<in> fst ` set (ballots (events t) i) \<longrightarrow>
        cast_vote env v i b w t = (Err GovError.AlreadyVoted, t))"
proof -
  have inv: "gov_inv t" using gov.run_inv[OF assms(1,2)] .
  then have voters: "{v. gov_votes t (i, v) \<noteq> None} = fst ` set (ballots (events t) i)"
      and "distinct (map fst (ballots (events t) i))" by (simp_all add: gov_inv_def)
  moreover have "cast_vote env v i b w t = (Err GovError.AlreadyVoted, t)"
    if "auth env v" "timestamp env \<le> gp_expiration p" "v \<in> fst ` set (ballots (events t) i)" for env v b w
    using vote_refused(1)[OF that(1) assms(3) that(2)] that(3) voters by blast
  ultimately show ?thesis using gov_inv_get[OF inv assms(3)] by blast
qed

lemma governance_tally_example:
  "distinct (map fst (ballots (events proposed) 0))"
proof -
  have "\<exists>env. gov_step env no_gov proposed"
    by (intro exI[of _ "signed_at 10 1"] gov_step.propose[of _ "Addr 1" "''raise''" "[]"])
      (simp add: commits_def proposed_Ok[simplified])
  from governance_tally[OF r_into_rtranclp[of "\<lambda>s s'. \<exists>env. gov_step env s s'", OF this] no_gov_inv] show ?thesis
    using proposed_eval(1) by auto
qed

text \<open>A proposal is decided by its totals, after voting has closed. Finalising succeeds only
  strictly after the expiration, when no vote is accepted any more; the result is \<open>Passed\<close> exactly
  when the two totals reach the quorum together and the votes for exceed the votes against, is
  stored, and finalising again gives the same result and leaves the storage alone.\<close>

lemma governance_finalize:
  assumes fin: "finalize_proposal env i s = (Ok st, s')"
  shows "\<exists>p. gov_proposals s i = Some p \<and> gp_expiration p < timestamp env
    \<and> (st = Passed \<longleftrightarrow> QUORUM \<le> gp_for_votes p + gp_against_votes p \<and> gp_against_votes p < gp_for_votes p)
    \<and> (st = Passed \<or> st = Failed) \<and> gov_proposals s' i = Some (p\<lparr>gp_status := st\<rparr>)
    \<and> finalize_proposal env i s' = (Ok st, s')
    \<and> (\<forall>v b w. auth env v \<longrightarrow> cast_vote env v i b w s' = (Err GovError.VotingClosed, s'))"
proof -
  from fin obtain p where p: "gov_proposals s i = Some p" "gp_expiration p < timestamp env" "in_i128 (gp_for_votes p + gp_against_votes p)"
      and st: "st = (if gp_for_votes p + gp_against_votes p < QUORUM then Failed else if gp_against_votes p < gp_for_votes p then Passed else Failed)"
      and s': "s' = s\<lparr>gov_proposals := (gov_proposals s)(i \<mapsto> p\<lparr>gp_status := st\<rparr>)\<rparr>" unfolding finalize_Ok by blast
  have "finalize_proposal env i s' = (Ok st, s')"
    unfolding finalize_Ok by (rule exI[of _ "p\<lparr>gp_status := st\<rparr>"]) (use p st in \<open>simp add: s'\<close>)
  moreover have "cast_vote env v i b w s' = (Err GovError.VotingClosed, s')" if "auth env v" for v b w
    by (rule vote_refused(2)[OF that, of s' i "p\<lparr>gp_status := st\<rparr>"]) (use p in \<open>simp_all add: s'\<close>)
  ultimately show ?thesis using p st by (intro exI[of _ p]) (auto simp: s')
qed

lemma governance_finalize_example:
  "\<exists>s'. finalize_proposal (signed_at 259211 9) 0 proposed = (Ok Failed, s') \<and> finalize_proposal (signed_at 259211 9) 0 s' = (Ok Failed, s')"
proof -
  obtain s' where "finalize_proposal (signed_at 259211 9) 0 proposed = (Ok Failed, s')"
    by (auto simp: finalize_Ok proposed_eval in_i128_def)
  with governance_finalize[OF this] show ?thesis by blast
qed

text \<open>One address decides any vote. \<open>cast_vote\<close> takes the weight from the caller and checks it
  against nothing: as long as voting is open, any address that has not voted can make a proposal with
  no ballots pass on its own, however little essence it has.\<close>

lemma governance_unchecked_weight:
  assumes "gov_proposals s i = Some p" and "gp_for_votes p = 0" and "gp_against_votes p = 0"
    and "gov_votes s (i, v) = None" and "auth env v" and "timestamp env \<le> gp_expiration p" and "gp_expiration p < timestamp later"
  shows "\<exists>s1 s2. cast_vote env v i True QUORUM s = (Ok (), s1) \<and> finalize_proposal later i s1 = (Ok Passed, s2)"
proof -
  obtain s1 where s1: "cast_vote env v i True QUORUM s = (Ok (), s1)"
      and p1: "gov_proposals s1 i = Some (p\<lparr>gp_for_votes := QUORUM\<rparr>)"
    using assms by (auto simp: cast_vote_Ok in_i128_def)
  have "\<exists>s2. finalize_proposal later i s1 = (Ok Passed, s2)"
    using assms p1 by (auto simp: finalize_Ok in_i128_def)
  with s1 show ?thesis by blast
qed

lemma governance_unchecked_weight_example:
  "\<exists>s1 s2. cast_vote (signed_at 20 2) (Addr 9) 0 True QUORUM proposed = (Ok (), s1)
     \<and> finalize_proposal (signed_at 300000 3) 0 s1 = (Ok Passed, s2)"
  by (rule governance_unchecked_weight[of proposed 0 "\<lparr>gp_id = 0, gp_description = ''raise'', gp_param_change = [],
      gp_creator = Addr 1, gp_expiration = 259210, gp_for_votes = 0, gp_against_votes = 0, gp_status = ProposalStatus.Active\<rparr>"])
    (simp_all add: proposed_eval)

end
