(* ===== verification/Anti_Whale.thy ===== *)
theory Anti_Whale
  imports Governance "HOL-Library.Multiset"
begin

text \<open>
  \<open>src/economics/anti_whale.rs\<close>: diminishing returns on gathering, daily operation caps,
  progressive trading fees, guild contribution limits and tiered leaderboards. The
  provider-generic transitions (\<open>*_with\<close>) are modelled at their production providers: the
  persistent storage and the ledger clock of \<open>src/traits/time.rs\<close>.
\<close>

section \<open>Model: data\<close>

abbreviation SECONDS_PER_DAY :: u64 where "SECONDS_PER_DAY \<equiv> 86400"
abbreviation DEFAULT_DAILY_CAP :: u64 where "DEFAULT_DAILY_CAP \<equiv> 1000000"
abbreviation TIER_COUNT :: nat where "TIER_COUNT \<equiv> 5"
abbreviation DEFAULT_TIER_WIDTH :: u64 where "DEFAULT_TIER_WIDTH \<equiv> 120000"
abbreviation LEGACY_FEE_THRESHOLD :: u64 where "LEGACY_FEE_THRESHOLD \<equiv> 500000"
abbreviation PROGRESSIVE_FEE_BPS :: u64 where "PROGRESSIVE_FEE_BPS \<equiv> 500"
abbreviation MAX_TIER_BOARD_ENTRIES :: nat where "MAX_TIER_BOARD_ENTRIES \<equiv> 100"
abbreviation UNITS_PER_ACTIVITY_POINT :: u64 where "UNITS_PER_ACTIVITY_POINT \<equiv> 1000"

definition TIER_MULTIPLIERS_BPS :: "u64 list" where
  "TIER_MULTIPLIERS_BPS = [10000, 8000, 6000, 4000, 2000]"

definition PROGRESSIVE_FEE_BANDS :: "(u64 \<times> u64) list" where
  "PROGRESSIVE_FEE_BANDS = [(0, 0), (50000, 50), (250000, 150), (1000000, 300)]"

datatype OpKind = Scan | Mint | Trade

datatype PlayerTier = Casual | Dedicated | Hardcore

record AntiWhaleConfig =
  ac_tier_width :: u64
  ac_max_scans_per_day :: u32
  ac_max_mints_per_day :: u32
  ac_max_trades_per_day :: u32
  ac_guild_daily_cap :: i128
  ac_dedicated_threshold :: u64
  ac_hardcore_threshold :: u64

definition defaults :: AntiWhaleConfig where
  "defaults = \<lparr>ac_tier_width = DEFAULT_TIER_WIDTH, ac_max_scans_per_day = 200, ac_max_mints_per_day = 20,
     ac_max_trades_per_day = 100, ac_guild_daily_cap = 100000, ac_dedicated_threshold = 200, ac_hardcore_threshold = 2000\<rparr>"

definition is_valid :: "AntiWhaleConfig \<Rightarrow> bool" where
  "is_valid c \<longleftrightarrow> ac_tier_width c > 0 \<and> ac_max_scans_per_day c > 0 \<and> ac_max_mints_per_day c > 0 \<and>
     ac_max_trades_per_day c > 0 \<and> ac_guild_daily_cap c > 0 \<and> ac_dedicated_threshold c < ac_hardcore_threshold c"

record TierEntry =
  te_player :: address
  te_score :: u64
  te_timestamp :: u64

record ImpactStats =
  is_units_gathered_raw :: u64
  is_units_gathered_effective :: u64
  is_progressive_fees :: u64

datatype AntiWhaleError = DailyCapExceeded | ArithmeticOverflow | InvalidAmount | OperationCapExceeded
  | GuildContributionCapExceeded | InvalidConfig | Unauthorized | AlreadyInitialized

record whale_store = gov_store +
  aw_daily_volume :: "(address \<times> u64) \<rightharpoonup> u64"
  aw_daily_cap :: "u64 option"
  aw_exempt :: "address \<rightharpoonup> bool"
  aw_admin :: "address option"
  aw_config :: "AntiWhaleConfig option"
  aw_daily_gathered :: "(address \<times> u64) \<rightharpoonup> u64"
  aw_daily_ops :: "(address \<times> OpKind \<times> u64) \<rightharpoonup> u32"
  aw_daily_trade_volume :: "(address \<times> u64) \<rightharpoonup> u64"
  aw_daily_guild :: "(address \<times> u64) \<rightharpoonup> i128"
  aw_activity :: "address \<rightharpoonup> u64"
  aw_tier_board :: "PlayerTier \<rightharpoonup> TierEntry list"
  aw_impact :: "ImpactStats option"

section \<open>Model: pure arithmetic\<close>

text \<open>The \<open>u128\<close> product of two \<open>u64\<close> cannot overflow; \<open>u64::try_from(x).unwrap_or(u64::MAX)\<close>.\<close>

definition u64_or_max :: "nat \<Rightarrow> u64" where
  "u64_or_max x = (if x \<le> u64_max then x else u64_max)"

fun diminishing_loop :: "u64 list \<Rightarrow> nat \<Rightarrow> u64 \<Rightarrow> u64 \<Rightarrow> u64 \<Rightarrow> u64 \<Rightarrow> u64" where
  "diminishing_loop [] i tier_width remaining position effective = effective"
| "diminishing_loop (multiplier # ms) i tier_width remaining position effective =
    (let band_end = saturating_mul u64_max tier_width (i + 1);
         last = (i + 1 = TIER_COUNT);
         take = (if last then remaining else min remaining (saturating_sub band_end position));
         credited = take * multiplier div 10000;
         effective = (if take > 0 then saturating_add u64_max effective (u64_or_max credited) else effective);
         position = (if take > 0 then saturating_add u64_max position take else position);
         remaining = (if take > 0 then remaining - take else remaining)
     in if remaining = 0 then effective
        else diminishing_loop ms (i + 1) tier_width remaining position effective)"

definition diminishing_returns :: "u64 \<Rightarrow> u64 \<Rightarrow> u64 \<Rightarrow> u64" where
  "diminishing_returns gathered_before amount tier_width =
    (if amount = 0 then 0
     else if tier_width = 0 then amount
     else diminishing_loop TIER_MULTIPLIERS_BPS 0 tier_width amount gathered_before 0)"

definition calculate_diminishing_returns :: "u64 \<Rightarrow> u64 \<Rightarrow> u64" where
  "calculate_diminishing_returns volume_before amount = diminishing_returns volume_before amount DEFAULT_TIER_WIDTH"

fun fee_loop :: "(u64 \<times> u64) list \<Rightarrow> u64 \<Rightarrow> u64 \<Rightarrow> nat \<Rightarrow> nat" where
  "fee_loop [] start fin fee = fee"
| "fee_loop ((floor, bps) # bands) start fin fee =
    (let ceiling = (case bands of [] \<Rightarrow> u64_max | (next_floor, _) # _ \<Rightarrow> next_floor);
         lo = max start floor;
         hi = min fin ceiling;
         fee = (if hi > lo then fee + (hi - lo) * bps div 10000 else fee)
     in fee_loop bands start fin fee)"

definition progressive_trade_fee :: "u64 \<Rightarrow> u64 \<Rightarrow> u64" where
  "progressive_trade_fee volume_before amount =
    (if amount = 0 then 0
     else u64_or_max (fee_loop PROGRESSIVE_FEE_BANDS volume_before (saturating_add u64_max volume_before amount) 0))"

definition calculate_progressive_fee :: "u64 \<Rightarrow> u64" where
  "calculate_progressive_fee amount = (if amount \<le> LEGACY_FEE_THRESHOLD then 0
     else u64_or_max ((amount - LEGACY_FEE_THRESHOLD) * PROGRESSIVE_FEE_BPS div 10000))"

definition tier_for_activity :: "u64 \<Rightarrow> AntiWhaleConfig \<Rightarrow> PlayerTier" where
  "tier_for_activity activity config = (if activity \<ge> ac_hardcore_threshold config then Hardcore
     else if activity \<ge> ac_dedicated_threshold config then Dedicated else Casual)"

fun cap_for :: "AntiWhaleConfig \<Rightarrow> OpKind \<Rightarrow> u32" where
  "cap_for config Scan = ac_max_scans_per_day config"
| "cap_for config Mint = ac_max_mints_per_day config"
| "cap_for config Trade = ac_max_trades_per_day config"

fun activity_for :: "OpKind \<Rightarrow> u64" where
  "activity_for Scan = 1"
| "activity_for Mint = 5"
| "activity_for Trade = 2"

section \<open>Model: state transitions\<close>

definition get_day_index :: "env \<Rightarrow> u64" where
  "get_day_index env = timestamp env div SECONDS_PER_DAY"

definition record_gathering_with :: "env \<Rightarrow> address \<Rightarrow> u64 \<Rightarrow> u64 \<Rightarrow> 'a whale_store_scheme
    \<Rightarrow> (AntiWhaleError, u64) outcome \<times> 'a whale_store_scheme" where
  "record_gathering_with env user amount tier_width s =
    (if amount = 0 then (Ok 0, s)
     else let key = (user, get_day_index env);
              before = unwrap_or (aw_daily_gathered s key) 0 in
       case checked_add u64_max before amount of
         None \<Rightarrow> (Err AntiWhaleError.ArithmeticOverflow, s)
       | Some after \<Rightarrow> (Ok (diminishing_returns before amount tier_width),
           s\<lparr>aw_daily_gathered := (aw_daily_gathered s)(key \<mapsto> after)\<rparr>))"

definition record_operation_with :: "env \<Rightarrow> address \<Rightarrow> OpKind \<Rightarrow> u32 \<Rightarrow> u32 \<Rightarrow> 'a whale_store_scheme
    \<Rightarrow> (AntiWhaleError, u32) outcome \<times> 'a whale_store_scheme" where
  "record_operation_with env user kind op_count cap s =
    (if op_count = 0 then (Err AntiWhaleError.InvalidAmount, s)
     else let key = (user, kind, get_day_index env);
              before = unwrap_or (aw_daily_ops s key) 0 in
       case checked_add u32_max before op_count of
         None \<Rightarrow> (Err AntiWhaleError.ArithmeticOverflow, s)
       | Some after \<Rightarrow>
           if after > cap then (Err AntiWhaleError.OperationCapExceeded, s)
           else (Ok after, s\<lparr>aw_daily_ops := (aw_daily_ops s)(key \<mapsto> after)\<rparr>))"

definition record_trade_volume_with :: "env \<Rightarrow> address \<Rightarrow> u64 \<Rightarrow> 'a whale_store_scheme
    \<Rightarrow> (AntiWhaleError, u64) outcome \<times> 'a whale_store_scheme" where
  "record_trade_volume_with env user amount s =
    (let key = (user, get_day_index env);
         before = unwrap_or (aw_daily_trade_volume s key) 0 in
     case checked_add u64_max before amount of
       None \<Rightarrow> (Err AntiWhaleError.ArithmeticOverflow, s)
     | Some after \<Rightarrow> (Ok (progressive_trade_fee before amount),
         s\<lparr>aw_daily_trade_volume := (aw_daily_trade_volume s)(key \<mapsto> after)\<rparr>))"

definition record_guild_contribution_with :: "env \<Rightarrow> address \<Rightarrow> i128 \<Rightarrow> i128 \<Rightarrow> 'a whale_store_scheme
    \<Rightarrow> (AntiWhaleError, i128) outcome \<times> 'a whale_store_scheme" where
  "record_guild_contribution_with env user amount cap s =
    (if amount \<le> 0 then (Err AntiWhaleError.InvalidAmount, s)
     else let key = (user, get_day_index env);
              before = unwrap_or (aw_daily_guild s key) 0 in
       case ck (before + amount) of
         None \<Rightarrow> (Err AntiWhaleError.ArithmeticOverflow, s)
       | Some after \<Rightarrow>
           if after > cap then (Err AntiWhaleError.GuildContributionCapExceeded, s)
           else (Ok after, s\<lparr>aw_daily_guild := (aw_daily_guild s)(key \<mapsto> after)\<rparr>))"

definition add_activity_with :: "address \<Rightarrow> u64 \<Rightarrow> 'a whale_store_scheme \<Rightarrow> 'a whale_store_scheme" where
  "add_activity_with user points s = s\<lparr>aw_activity := (aw_activity s)
     (user \<mapsto> saturating_add u64_max (unwrap_or (aw_activity s user) 0) points)\<rparr>"

definition activity_with :: "address \<Rightarrow> 'a whale_store_scheme \<Rightarrow> u64" where
  "activity_with user s = unwrap_or (aw_activity s user) 0"

text \<open>A governance parameter overrides a limit when it converts to the limit's type and is positive.\<close>

definition gov_u64 :: "symbol \<Rightarrow> u64 \<Rightarrow> 'a whale_store_scheme \<Rightarrow> u64" where
  "gov_u64 key fallback s = (case get_game_parameter key s of
     None \<Rightarrow> fallback
   | Some v \<Rightarrow> if 0 \<le> v \<and> v \<le> int u64_max \<and> nat v > 0 then nat v else fallback)"

definition gov_u32 :: "symbol \<Rightarrow> u32 \<Rightarrow> 'a whale_store_scheme \<Rightarrow> u32" where
  "gov_u32 key fallback s = (case get_game_parameter key s of
     None \<Rightarrow> fallback
   | Some v \<Rightarrow> if 0 \<le> v \<and> v \<le> int u32_max \<and> nat v > 0 then nat v else fallback)"

definition gov_i128 :: "symbol \<Rightarrow> i128 \<Rightarrow> 'a whale_store_scheme \<Rightarrow> i128" where
  "gov_i128 key fallback s = (case get_game_parameter key s of
     None \<Rightarrow> fallback
   | Some v \<Rightarrow> if v > 0 then v else fallback)"

definition get_stored_config :: "'a whale_store_scheme \<Rightarrow> AntiWhaleConfig" where
  "get_stored_config s = unwrap_or (aw_config s) defaults"

definition effective_config :: "'a whale_store_scheme \<Rightarrow> AntiWhaleConfig" where
  "effective_config s =
    (let base = get_stored_config s;
         dedicated = gov_u64 ''aw_dedic'' (ac_dedicated_threshold base) s;
         hardcore = gov_u64 ''aw_hard'' (ac_hardcore_threshold base) s;
         (dedicated, hardcore) = (if dedicated < hardcore then (dedicated, hardcore)
            else (ac_dedicated_threshold base, ac_hardcore_threshold base))
     in \<lparr>ac_tier_width = gov_u64 ''aw_width'' (ac_tier_width base) s,
         ac_max_scans_per_day = gov_u32 ''aw_scans'' (ac_max_scans_per_day base) s,
         ac_max_mints_per_day = gov_u32 ''aw_mints'' (ac_max_mints_per_day base) s,
         ac_max_trades_per_day = gov_u32 ''aw_trades'' (ac_max_trades_per_day base) s,
         ac_guild_daily_cap = gov_i128 ''aw_guild'' (ac_guild_daily_cap base) s,
         ac_dedicated_threshold = dedicated, ac_hardcore_threshold = hardcore\<rparr>)"

definition init_admin :: "env \<Rightarrow> address \<Rightarrow> 'a whale_store_scheme
    \<Rightarrow> (AntiWhaleError, unit) outcome \<times> 'a whale_store_scheme" where
  "init_admin env admin s =
    (if aw_admin s \<noteq> None then (Err AntiWhaleError.AlreadyInitialized, s)
     else if \<not> auth env admin then (Panic, s)
     else (Ok (), s\<lparr>aw_admin := Some admin\<rparr>))"

definition require_whale_admin :: "env \<Rightarrow> address \<Rightarrow> 'a whale_store_scheme
    \<Rightarrow> (AntiWhaleError, unit) outcome \<times> 'a whale_store_scheme" where
  "require_whale_admin env caller s =
    (if \<not> auth env caller then (Panic, s)
     else if aw_admin s = Some caller then (Ok (), s)
     else (Err AntiWhaleError.Unauthorized, s))"

definition set_config :: "env \<Rightarrow> address \<Rightarrow> AntiWhaleConfig \<Rightarrow> 'a whale_store_scheme
    \<Rightarrow> (AntiWhaleError, unit) outcome \<times> 'a whale_store_scheme" where
  "set_config env caller config s = and_then (require_whale_admin env caller s) (\<lambda>_ s.
     if \<not> is_valid config then (Err AntiWhaleError.InvalidConfig, s)
     else (Ok (), publish [SS ''Whale'', SS ''config'']
            [SU (ac_tier_width config), SU (ac_max_scans_per_day config), SU (ac_max_mints_per_day config),
             SU (ac_max_trades_per_day config), SI (ac_guild_daily_cap config)]
            (s\<lparr>aw_config := Some config\<rparr>)))"

definition get_daily_cap :: "'a whale_store_scheme \<Rightarrow> u64" where
  "get_daily_cap s = unwrap_or (aw_daily_cap s) DEFAULT_DAILY_CAP"

definition set_daily_cap :: "env \<Rightarrow> address \<Rightarrow> u64 \<Rightarrow> 'a whale_store_scheme
    \<Rightarrow> (AntiWhaleError, unit) outcome \<times> 'a whale_store_scheme" where
  "set_daily_cap env caller cap s = and_then (require_whale_admin env caller s) (\<lambda>_ s.
     if cap = 0 then (Err AntiWhaleError.InvalidConfig, s)
     else (Ok (), s\<lparr>aw_daily_cap := Some cap\<rparr>))"

definition is_exempt :: "address \<Rightarrow> 'a whale_store_scheme \<Rightarrow> bool" where
  "is_exempt user s = unwrap_or (aw_exempt s user) False"

definition set_exempt :: "env \<Rightarrow> address \<Rightarrow> address \<Rightarrow> bool \<Rightarrow> 'a whale_store_scheme
    \<Rightarrow> (AntiWhaleError, unit) outcome \<times> 'a whale_store_scheme" where
  "set_exempt env caller user exempt s = and_then (require_whale_admin env caller s) (\<lambda>_ s.
     (Ok (), s\<lparr>aw_exempt := (aw_exempt s)(user \<mapsto> exempt)\<rparr>))"

definition get_user_daily_ops :: "env \<Rightarrow> address \<Rightarrow> OpKind \<Rightarrow> 'a whale_store_scheme \<Rightarrow> u32" where
  "get_user_daily_ops env user kind s = unwrap_or (aw_daily_ops s (user, kind, get_day_index env)) 0"

definition get_user_daily_gathered :: "env \<Rightarrow> address \<Rightarrow> 'a whale_store_scheme \<Rightarrow> u64" where
  "get_user_daily_gathered env user s = unwrap_or (aw_daily_gathered s (user, get_day_index env)) 0"

definition get_user_daily_trade_volume :: "env \<Rightarrow> address \<Rightarrow> 'a whale_store_scheme \<Rightarrow> u64" where
  "get_user_daily_trade_volume env user s = unwrap_or (aw_daily_trade_volume s (user, get_day_index env)) 0"

definition get_user_daily_guild_contribution :: "env \<Rightarrow> address \<Rightarrow> 'a whale_store_scheme \<Rightarrow> i128" where
  "get_user_daily_guild_contribution env user s = unwrap_or (aw_daily_guild s (user, get_day_index env)) 0"

definition impact :: "'a whale_store_scheme \<Rightarrow> ImpactStats" where
  "impact s = unwrap_or (aw_impact s) \<lparr>is_units_gathered_raw = 0, is_units_gathered_effective = 0, is_progressive_fees = 0\<rparr>"

definition update_impact :: "(ImpactStats \<Rightarrow> ImpactStats) \<Rightarrow> 'a whale_store_scheme \<Rightarrow> 'a whale_store_scheme" where
  "update_impact f s = s\<lparr>aw_impact := Some (f (impact s))\<rparr>"

definition apply_gathering :: "env \<Rightarrow> address \<Rightarrow> u64 \<Rightarrow> 'a whale_store_scheme
    \<Rightarrow> (AntiWhaleError, u64) outcome \<times> 'a whale_store_scheme" where
  "apply_gathering env user amount s =
    (if amount = 0 \<or> is_exempt user s then (Ok amount, s)
     else let config = effective_config s in
       and_then (record_gathering_with env user amount (ac_tier_width config) s) (\<lambda>effective s.
         let s = add_activity_with user (amount div UNITS_PER_ACTIVITY_POINT) s;
             s = update_impact (\<lambda>st. st\<lparr>
                   is_units_gathered_raw := saturating_add u64_max (is_units_gathered_raw st) amount,
                   is_units_gathered_effective := saturating_add u64_max (is_units_gathered_effective st) effective\<rparr>) s;
             s = (if effective < amount then publish [SS ''Whale'', SS ''gather''] [SA user, SU amount, SU effective] s else s)
         in (Ok effective, s)))"

fun op_symbol :: "OpKind \<Rightarrow> symbol" where
  "op_symbol Scan = ''Scan''" | "op_symbol Mint = ''Mint''" | "op_symbol Trade = ''Trade''"

definition check_operation :: "env \<Rightarrow> address \<Rightarrow> OpKind \<Rightarrow> u32 \<Rightarrow> 'a whale_store_scheme
    \<Rightarrow> (AntiWhaleError, unit) outcome \<times> 'a whale_store_scheme" where
  "check_operation env user kind op_count s =
    (if op_count = 0 then (Err AntiWhaleError.InvalidAmount, s)
     else and_then
       (if \<not> is_exempt user s then
          let cap = cap_for (effective_config s) kind in
          case record_operation_with env user kind op_count cap s of
            (Ok _, s) \<Rightarrow> (Ok (), s)
          | (Err e, s) \<Rightarrow> (Err e, if e = AntiWhaleError.OperationCapExceeded
              then publish [SS ''Whale'', SS ''capped''] [SA user, SS (op_symbol kind), SU cap] s else s)
          | (Panic, s) \<Rightarrow> (Panic, s)
        else (Ok (), s))
       (\<lambda>_ s. (Ok (), add_activity_with user (saturating_mul u64_max (activity_for kind) op_count) s)))"

definition charge_progressive_fee :: "env \<Rightarrow> address \<Rightarrow> u64 \<Rightarrow> 'a whale_store_scheme
    \<Rightarrow> (AntiWhaleError, u64) outcome \<times> 'a whale_store_scheme" where
  "charge_progressive_fee env user amount s =
    (if is_exempt user s then (Ok 0, s)
     else and_then (record_trade_volume_with env user amount s) (\<lambda>fee s.
       if fee > 0 then
         let s = update_impact (\<lambda>st. st\<lparr>is_progressive_fees := saturating_add u64_max (is_progressive_fees st) fee\<rparr>) s
         in (Ok fee, publish [SS ''Whale'', SS ''fee''] [SA user, SU amount, SU fee] s)
       else (Ok fee, s)))"

definition check_guild_contribution :: "env \<Rightarrow> address \<Rightarrow> i128 \<Rightarrow> 'a whale_store_scheme
    \<Rightarrow> (AntiWhaleError, unit) outcome \<times> 'a whale_store_scheme" where
  "check_guild_contribution env user amount s =
    (if is_exempt user s then (Ok (), s)
     else let cap = ac_guild_daily_cap (effective_config s) in
       and_then (record_guild_contribution_with env user amount cap s) (\<lambda>_ s. (Ok (), s)))"

definition get_player_tier :: "address \<Rightarrow> 'a whale_store_scheme \<Rightarrow> PlayerTier" where
  "get_player_tier user s = tier_for_activity (activity_with user s) (effective_config s)"

text \<open>The leaderboard: update the player's row or append one, insertion sort by swaps, truncate.\<close>

fun update_entry :: "address \<Rightarrow> u64 \<Rightarrow> u64 \<Rightarrow> TierEntry list \<Rightarrow> TierEntry list" where
  "update_entry player score now [] = [\<lparr>te_player = player, te_score = score, te_timestamp = now\<rparr>]"
| "update_entry player score now (e # entries) =
    (if te_player e = player then e\<lparr>te_score := max (te_score e) score, te_timestamp := now\<rparr> # entries
     else e # update_entry player score now entries)"

fun sift :: "nat \<Rightarrow> TierEntry list \<Rightarrow> TierEntry list" where
  "sift 0 entries = entries"
| "sift (Suc j) entries = (let prev = entries ! j; cur = entries ! Suc j in
     if te_score prev \<ge> te_score cur then entries
     else sift j (entries[j := cur, Suc j := prev]))"

definition sort_entries :: "TierEntry list \<Rightarrow> TierEntry list" where
  "sort_entries entries = fold sift [1..<length entries] entries"

definition record_tier_score :: "env \<Rightarrow> address \<Rightarrow> u64 \<Rightarrow> 'a whale_store_scheme
    \<Rightarrow> (AntiWhaleError, PlayerTier) outcome \<times> 'a whale_store_scheme" where
  "record_tier_score env player score s =
    (let tier = get_player_tier player s;
         entries = update_entry player score (timestamp env) (unwrap_or (aw_tier_board s tier) []);
         entries = take MAX_TIER_BOARD_ENTRIES (sort_entries entries)
     in (Ok tier, s\<lparr>aw_tier_board := (aw_tier_board s)(tier \<mapsto> entries)\<rparr>))"

definition get_tier_leaderboard :: "PlayerTier \<Rightarrow> u32 \<Rightarrow> 'a whale_store_scheme \<Rightarrow> TierEntry list" where
  "get_tier_leaderboard tier limit s = take limit (unwrap_or (aw_tier_board s tier) [])"

definition process_anti_whale_action :: "env \<Rightarrow> address \<Rightarrow> u64 \<Rightarrow> 'a whale_store_scheme
    \<Rightarrow> (AntiWhaleError, u64 \<times> u64) outcome \<times> 'a whale_store_scheme" where
  "process_anti_whale_action env user amount s =
    (if amount = 0 then (Err AntiWhaleError.InvalidAmount, s)
     else if is_exempt user s then (Ok (amount, 0), s)
     else let key = (user, get_day_index env);
              volume_before = unwrap_or (aw_daily_volume s key) 0 in
       case checked_add u64_max volume_before amount of
         None \<Rightarrow> (Err AntiWhaleError.ArithmeticOverflow, s)
       | Some new_volume \<Rightarrow>
           if new_volume > get_daily_cap s then (Err AntiWhaleError.DailyCapExceeded, s)
           else let effective_amount = calculate_diminishing_returns volume_before amount;
                    progressive_fee = calculate_progressive_fee amount;
                    s = s\<lparr>aw_daily_volume := (aw_daily_volume s)(key \<mapsto> new_volume)\<rparr>;
                    s = (if effective_amount < amount \<or> progressive_fee > 0
                      then publish [SS ''Whale'', SS ''scale''] [SA user, SU amount, SU effective_amount, SU progressive_fee] s
                      else s)
                in (Ok (effective_amount, progressive_fee), s))"

section \<open>Diminishing returns against their definition by bands\<close>

text \<open>The reference: of the units gathered between \<open>a\<close> and \<open>b\<close> in a day, those that fall in
  band \<open>j\<close> (the fifth band is unbounded) earn that band's multiplier, rounded down per band.\<close>

definition band_units :: "u64 \<Rightarrow> nat \<Rightarrow> u64 \<Rightarrow> u64 \<Rightarrow> nat" where
  "band_units w j a b = (if j + 1 = TIER_COUNT then b else min b (w * (j + 1))) - max a (w * j)"

fun band_credit :: "u64 list \<Rightarrow> nat \<Rightarrow> u64 \<Rightarrow> u64 \<Rightarrow> u64 \<Rightarrow> nat" where
  "band_credit [] j w a b = 0"
| "band_credit (m # ms) j w a b = band_units w j a b * m div 10000 + band_credit ms (j + 1) w a b"

lemma band_credit_empty: "b \<le> a \<Longrightarrow> band_credit ms j w a b = 0"
  by (induction ms arbitrary: j) (auto simp: band_units_def)

text \<open>Where a gathering starts inside the earlier bands does not matter for a later band.\<close>

lemma band_credit_start:
  "max a (w * j) = max a' (w * j) \<Longrightarrow> band_credit ms j w a b = band_credit ms j w a' b"
proof (induction ms arbitrary: j)
  case (Cons m ms)
  have "w * j \<le> w * (j + 1)" by simp
  then have "max a (w * (j + 1)) = max a' (w * (j + 1))" using Cons.prems by (auto simp: max_def split: if_splits)
  with Cons show ?case by (simp add: band_units_def)
qed simp

lemma u64_or_max_id [simp]: "x \<le> u64_max \<Longrightarrow> u64_or_max x = x"
  by (simp add: u64_or_max_def)

lemma credit_le: "m \<le> 10000 \<Longrightarrow> tk * m div 10000 \<le> (tk :: nat)"
  using div_le_mono[of "tk * m" "tk * 10000" 10000] by simp

lemma diminishing_step:
  assumes tk: "tk = (if i + 1 = TIER_COUNT then remaining else min remaining (saturating_sub (saturating_mul u64_max w (i + 1)) position))"
  shows "diminishing_loop (m # ms) i w remaining position e =
    (if remaining - tk = 0 then (if tk > 0 then saturating_add u64_max e (u64_or_max (tk * m div 10000)) else e)
     else diminishing_loop ms (i + 1) w (remaining - tk)
       (if tk > 0 then saturating_add u64_max position tk else position)
       (if tk > 0 then saturating_add u64_max e (u64_or_max (tk * m div 10000)) else e))"
  unfolding diminishing_loop.simps Let_def unfolding tk[symmetric] by (cases "tk > 0") simp_all

lemma diminishing_loop_bands:
  assumes "remaining = 0 \<or> w * i \<le> position" "i + length ms = TIER_COUNT" "\<forall>m\<in>set ms. m \<le> 10000"
    "w * TIER_COUNT \<le> u64_max" "position + remaining \<le> u64_max" "e + remaining \<le> u64_max" "0 < w"
  shows "diminishing_loop ms i w remaining position e = e + band_credit ms i w position (position + remaining)"
  using assms
proof (induction ms arbitrary: i remaining position e)
  case (Cons m ms)
  define tk where "tk = (if i + 1 = TIER_COUNT then remaining else min remaining (w * (i + 1) - position))"
  have step: "tk = (if i + 1 = TIER_COUNT then remaining else min remaining (saturating_sub (saturating_mul u64_max w (i + 1)) position))"
    if "saturating_mul u64_max w (i + 1) = w * (i + 1)" unfolding tk_def that saturating_sub_def ..
  have "w * (i + 1) \<le> w * TIER_COUNT" using Cons.prems(2) by (intro mult_le_mono2) simp
  then have "w * (i + 1) \<le> u64_max" using Cons.prems(4) by (rule le_trans)
  then have sat: "saturating_mul u64_max w (i + 1) = w * (i + 1)" unfolding saturating_mul_def by (rule min_absorb2)
  have le: "tk \<le> remaining" by (simp add: tk_def)
  have cr: "tk * m div 10000 \<le> tk" using Cons.prems(3) by (intro credit_le) simp
  have units: "band_units w i position (position + remaining) = tk"
    using Cons.prems(1) by (auto simp: band_units_def tk_def max_def min_def)
  have loop: "diminishing_loop (m # ms) i w remaining position e =
      (if remaining - tk = 0 then e + tk * m div 10000
       else diminishing_loop ms (i + 1) w (remaining - tk) (position + tk) (e + tk * m div 10000))"
    unfolding diminishing_step[OF step[OF sat]] using cr le Cons.prems(5,6) by (auto simp: saturating_add_def)
  show ?case
  proof (cases "remaining - tk = 0")
    case True
    then have "tk = remaining" using le by simp
    then have rest: "band_credit ms (i + 1) w position (position + remaining) =
        band_credit ms (i + 1) w (position + remaining) (position + remaining)"
    proof (cases "i + 1 = TIER_COUNT")
      case True
      then have "ms = []" using Cons.prems(2) by simp
      then show ?thesis by simp
    next
      case False
      with \<open>tk = remaining\<close> have "position + remaining \<le> max position (w * (i + 1))"
        by (auto simp: tk_def min_def split: if_splits)
      then show ?thesis by (intro band_credit_start) (auto simp: max_def)
    qed
    show ?thesis unfolding loop using True units rest by (simp add: band_credit_empty)
  next
    case False
    then have short: "i + 1 \<noteq> TIER_COUNT" "tk = w * (i + 1) - position" by (auto simp: tk_def min_def split: if_splits)
    then have pos: "w * (i + 1) \<le> position + tk" by simp
    have rest: "band_credit ms (i + 1) w (position + tk) (position + remaining) =
        band_credit ms (i + 1) w position (position + remaining)"
      using short(2) by (intro band_credit_start) (auto simp: max_def)
    have "diminishing_loop ms (i + 1) w (remaining - tk) (position + tk) (e + tk * m div 10000) =
        e + tk * m div 10000 + band_credit ms (i + 1) w (position + tk) (position + tk + (remaining - tk))"
      using Cons.prems cr le pos by (intro Cons.IH) auto
    then show ?thesis unfolding loop using False le units rest by simp
  qed
qed simp

lemma diminishing_loop_le:
  assumes "\<forall>m\<in>set ms. m \<le> 10000"
  shows "diminishing_loop ms i w remaining position e \<le> e + remaining"
  using assms
proof (induction ms arbitrary: i remaining position e)
  case (Cons m ms)
  define tk where "tk = (if i + 1 = TIER_COUNT then remaining else min remaining (saturating_sub (saturating_mul u64_max w (i + 1)) position))"
  define e' where "e' = (if tk > 0 then saturating_add u64_max e (u64_or_max (tk * m div 10000)) else e)"
  define position' where "position' = (if tk > 0 then saturating_add u64_max position tk else position)"
  have "tk \<le> remaining" by (simp add: tk_def)
  have "tk * m div 10000 \<le> tk" using Cons.prems by (intro credit_le) simp
  then have e': "e' \<le> e + tk" by (auto simp: e'_def saturating_add_def u64_or_max_def)
  have "diminishing_loop (m # ms) i w remaining position e =
      (if remaining - tk = 0 then e' else diminishing_loop ms (i + 1) w (remaining - tk) position' e')"
    unfolding diminishing_step[OF tk_def] e'_def position'_def ..
  moreover have "diminishing_loop ms (i + 1) w (remaining - tk) position' e' \<le> e' + (remaining - tk)"
    using Cons by simp
  ultimately show ?case using e' \<open>tk \<le> remaining\<close> by auto
qed simp

lemma multipliers_le: "\<forall>m\<in>set TIER_MULTIPLIERS_BPS. m \<le> 10000"
  by (simp add: TIER_MULTIPLIERS_BPS_def)

lemma diminishing_returns_le: "diminishing_returns g a w \<le> a"
  using diminishing_loop_le[OF multipliers_le, of 0 w a g 0] by (simp add: diminishing_returns_def)

section \<open>Progressive fees\<close>

text \<open>The parts of a trade that fall in the fee bands are disjoint pieces of it.\<close>

lemma fee_loop_bands:
  "fee_loop PROGRESSIVE_FEE_BANDS a b 0 =
     (min b 250000 - max a 50000) * 50 div 10000 + (min b 1000000 - max a 250000) * 150 div 10000
     + (min b u64_max - max a 1000000) * 300 div 10000"
  by (simp add: PROGRESSIVE_FEE_BANDS_def Let_def)

lemma fee_loop_le: "a \<le> b \<Longrightarrow> fee_loop PROGRESSIVE_FEE_BANDS a b 0 * 10000 \<le> (b - a) * 300"
proof -
  assume ab: "a \<le> b"
  let ?x = "min b 250000 - max a 50000" and ?y = "min b 1000000 - max a 250000" and ?z = "min b u64_max - max a 1000000"
  have "fee_loop PROGRESSIVE_FEE_BANDS a b 0 * 10000 \<le> ?x * 50 + ?y * 150 + ?z * 300"
    unfolding fee_loop_bands add_mult_distrib by (intro add_mono div_times_less_eq_dividend)
  also have "\<dots> \<le> (?x + ?y + ?z) * 300" by simp
  also have "?x + ?y + ?z \<le> b - a" using ab by linarith
  finally show ?thesis by simp
qed

lemma progressive_fee_le: "progressive_trade_fee v a * 10000 \<le> a * 300"
proof -
  have "progressive_trade_fee v a \<le> fee_loop PROGRESSIVE_FEE_BANDS v (saturating_add u64_max v a) 0"
    by (simp add: progressive_trade_fee_def u64_or_max_def)
  moreover have "fee_loop PROGRESSIVE_FEE_BANDS v (saturating_add u64_max v a) 0 * 10000 \<le> a * 300"
  proof (cases "v \<le> saturating_add u64_max v a")
    case True
    have "saturating_add u64_max v a - v \<le> a" by (simp add: saturating_add_def)
    with fee_loop_le[OF True] show ?thesis by linarith
  next
    case False
    then have "fee_loop PROGRESSIVE_FEE_BANDS v (saturating_add u64_max v a) 0 = 0"
      unfolding fee_loop_bands by (simp add: saturating_add_def)
    then show ?thesis by simp
  qed
  ultimately show ?thesis by linarith
qed

section \<open>The leaderboard sort\<close>

text \<open>Sifting moves the row after a descending prefix left, past every smaller score.\<close>

abbreviation descending :: "TierEntry list \<Rightarrow> bool" where
  "descending \<equiv> sorted_wrt (\<lambda>a b. te_score a \<ge> te_score b)"

definition insert_row :: "TierEntry \<Rightarrow> TierEntry list \<Rightarrow> TierEntry list" where
  "insert_row x ys = takeWhile (\<lambda>y. te_score y \<ge> te_score x) ys @ x # dropWhile (\<lambda>y. te_score y \<ge> te_score x) ys"

lemma sift_insert: "descending ys \<Longrightarrow> sift (length ys) (ys @ x # zs) = insert_row x ys @ zs"
proof (induction ys arbitrary: zs rule: rev_induct)
  case (snoc y us)
  show ?case
  proof (cases "te_score x \<le> te_score y")
    case True
    then have "\<forall>u\<in>set (us @ [y]). te_score x \<le> te_score u" using snoc.prems by (auto simp: sorted_wrt_append)
    then have "takeWhile (\<lambda>u. te_score u \<ge> te_score x) (us @ [y]) = us @ [y]" "dropWhile (\<lambda>u. te_score u \<ge> te_score x) (us @ [y]) = []"
      by auto
    then show ?thesis using True by (simp add: nth_append insert_row_def)
  next
    case False
    have "sift (length (us @ [y])) ((us @ [y]) @ x # zs) = sift (length us) (us @ x # y # zs)"
      using False by (simp add: nth_append list_update_append Let_def)
    also have "\<dots> = insert_row x us @ y # zs" using snoc by (simp add: sorted_wrt_append)
    also have "\<dots> = insert_row x (us @ [y]) @ zs"
      using False by (auto simp: insert_row_def takeWhile_tail dropWhile_append)
    finally show ?thesis .
  qed
qed (simp add: insert_row_def)

lemma insert_row_mset [simp]: "mset (insert_row x ys) = add_mset x (mset ys)" "length (insert_row x ys) = Suc (length ys)"
proof -
  have "mset (takeWhile P ys) + mset (dropWhile P ys) = mset ys" for P by (metis mset_append takeWhile_dropWhile_id)
  then show "mset (insert_row x ys) = add_mset x (mset ys)" by (simp add: insert_row_def)
  then show "length (insert_row x ys) = Suc (length ys)" by (metis size_add_mset size_mset)
qed

lemma insert_row_descending: "descending ys \<Longrightarrow> descending (insert_row x ys)"
  by (induction ys) (auto simp: insert_row_def dest: set_takeWhileD set_dropWhileD)

lemma sort_from:
  "k \<le> length xs \<Longrightarrow> descending (take k xs) \<Longrightarrow>
   descending (fold sift [k..<length xs] xs) \<and> mset (fold sift [k..<length xs] xs) = mset xs"
proof (induction "length xs - k" arbitrary: k xs)
  case (Suc n)
  then have k: "k < length xs" by simp
  let ?x = "xs ! k" and ?zs = "drop (Suc k) xs"
  have split: "xs = take k xs @ ?x # ?zs" using id_take_nth_drop[OF k] .
  have "sift (length (take k xs)) (take k xs @ ?x # ?zs) = insert_row ?x (take k xs) @ ?zs"
    using Suc.prems(2) by (rule sift_insert)
  then have sift: "sift k xs = insert_row ?x (take k xs) @ ?zs" using k split by simp
  then have len: "length (sift k xs) = length xs" and pre: "take (Suc k) (sift k xs) = insert_row ?x (take k xs)" using k by simp_all
  have "mset (sift k xs) = mset (take k xs @ ?x # ?zs)" unfolding sift by simp
  then have ms: "mset (sift k xs) = mset xs" using split by simp
  have "descending (fold sift [Suc k..<length (sift k xs)] (sift k xs)) \<and>
      mset (fold sift [Suc k..<length (sift k xs)] (sift k xs)) = mset (sift k xs)"
    using Suc.hyps(1)[of "sift k xs" "Suc k"] Suc.hyps(2) Suc.prems k len pre insert_row_descending by simp
  then show ?case using k ms len by (simp add: upt_conv_Cons)
qed simp

lemma sort_entries_correct: "descending (sort_entries xs) \<and> mset (sort_entries xs) = mset xs"
proof (cases "1 \<le> length xs")
  case True
  have "descending (take 1 xs)" by (cases xs) auto
  with sort_from[OF True this] show ?thesis by (simp add: sort_entries_def)
next
  case False
  then have "xs = []" by (cases xs) auto
  then show ?thesis by (simp add: sort_entries_def)
qed

lemma update_entry_players:
  "set (map te_player (update_entry p sc now es)) = insert p (te_player ` set es)"
  "distinct (map te_player es) \<Longrightarrow> distinct (map te_player (update_entry p sc now es))"
proof -
  show ins: "set (map te_player (update_entry p sc now es)) = insert p (te_player ` set es)" for es by (induction es) auto
  show "distinct (map te_player es) \<Longrightarrow> distinct (map te_player (update_entry p sc now es))"
    using ins by (induction es) auto
qed

lemma update_entry_best: "\<exists>e\<in>set (update_entry p sc now es). te_player e = p \<and> sc \<le> te_score e"
  by (induction es) auto

section \<open>Invariant and steps\<close>

definition board_ok :: "TierEntry list \<Rightarrow> bool" where
  "board_ok es \<longleftrightarrow> descending es \<and> distinct (map te_player es) \<and> length es \<le> MAX_TIER_BOARD_ENTRIES"

definition whale_inv :: "'a whale_store_scheme \<Rightarrow> bool" where
  "whale_inv s \<longleftrightarrow> is_valid (get_stored_config s) \<and> (\<forall>tier es. aw_tier_board s tier = Some es \<longrightarrow> board_ok es)"

inductive whale_step :: "env \<Rightarrow> 'a whale_store_scheme \<Rightarrow> 'a whale_store_scheme \<Rightarrow> bool" for env where
  init: "commits (init_admin env a) s s' \<Longrightarrow> whale_step env s s'"
| config: "commits (set_config env a c) s s' \<Longrightarrow> whale_step env s s'"
| daily_cap: "commits (set_daily_cap env a n) s s' \<Longrightarrow> whale_step env s s'"
| exempt: "commits (set_exempt env a u b) s s' \<Longrightarrow> whale_step env s s'"
| gather: "commits (apply_gathering env u n) s s' \<Longrightarrow> whale_step env s s'"
| operation: "commits (check_operation env u k c) s s' \<Longrightarrow> whale_step env s s'"
| fee: "commits (charge_progressive_fee env u n) s s' \<Longrightarrow> whale_step env s s'"
| guild: "commits (check_guild_contribution env u x) s s' \<Longrightarrow> whale_step env s s'"
| tier_score: "commits (record_tier_score env u sc) s s' \<Longrightarrow> whale_step env s s'"
| legacy: "commits (process_anti_whale_action env u n) s s' \<Longrightarrow> whale_step env s s'"

lemma publish_whale_store [simp]:
  "aw_daily_volume (publish t d s) = aw_daily_volume s" "aw_daily_cap (publish t d s) = aw_daily_cap s"
  "aw_exempt (publish t d s) = aw_exempt s" "aw_admin (publish t d s) = aw_admin s" "aw_config (publish t d s) = aw_config s"
  "aw_daily_gathered (publish t d s) = aw_daily_gathered s" "aw_daily_ops (publish t d s) = aw_daily_ops s"
  "aw_daily_trade_volume (publish t d s) = aw_daily_trade_volume s" "aw_daily_guild (publish t d s) = aw_daily_guild s"
  "aw_activity (publish t d s) = aw_activity s" "aw_tier_board (publish t d s) = aw_tier_board s" "aw_impact (publish t d s) = aw_impact s"
  by (simp_all add: publish_def)

lemma whale_admin_Ok [ok_rules]: "require_whale_admin env c s = (Ok u, s') \<longleftrightarrow> auth env c \<and> aw_admin s = Some c \<and> s' = s"
  by (auto simp: require_whale_admin_def)

lemma set_config_Ok [ok_iff]: "set_config env c cfg s = (Ok u, s') \<longleftrightarrow> auth env c \<and> aw_admin s = Some c \<and> is_valid cfg \<and>
    s' = publish [SS ''Whale'', SS ''config''] [SU (ac_tier_width cfg), SU (ac_max_scans_per_day cfg), SU (ac_max_mints_per_day cfg),
             SU (ac_max_trades_per_day cfg), SI (ac_guild_daily_cap cfg)] (s\<lparr>aw_config := Some cfg\<rparr>)"
  by (simp add: set_config_def ok_rules split del: if_split) blast

lemma check_operation_Ok [ok_iff]: "check_operation env u k n s = (Ok r, s') \<longleftrightarrow> n \<noteq> 0 \<and>
    (if is_exempt u s then s' = add_activity_with u (saturating_mul u64_max (activity_for k) n) s
     else get_user_daily_ops env u k s + n \<le> u32_max \<and> get_user_daily_ops env u k s + n \<le> cap_for (effective_config s) k \<and>
       s' = add_activity_with u (saturating_mul u64_max (activity_for k) n)
         (s\<lparr>aw_daily_ops := (aw_daily_ops s)((u, k, get_day_index env) \<mapsto> get_user_daily_ops env u k s + n)\<rparr>))"
  by (auto simp: check_operation_def ok_rules record_operation_with_def Let_def get_user_daily_ops_def
      split: option.splits if_splits)

text \<open>What the counting operations leave alone.\<close>

lemma gathering_frame: "apply_gathering env u n s = (Ok r, s') \<Longrightarrow> aw_config s' = aw_config s \<and> aw_tier_board s' = aw_tier_board s"
  by (auto simp: apply_gathering_def ok_rules record_gathering_with_def add_activity_with_def update_impact_def Let_def
      split: option.splits if_splits)

lemma fee_frame: "charge_progressive_fee env u n s = (Ok r, s') \<Longrightarrow> aw_config s' = aw_config s \<and> aw_tier_board s' = aw_tier_board s"
  by (auto simp: charge_progressive_fee_def ok_rules record_trade_volume_with_def update_impact_def Let_def
      split: option.splits if_splits)

lemma guild_frame: "check_guild_contribution env u x s = (Ok r, s') \<Longrightarrow> aw_config s' = aw_config s \<and> aw_tier_board s' = aw_tier_board s"
  by (auto simp: check_guild_contribution_def ok_rules record_guild_contribution_with_def Let_def split: option.splits if_splits)

lemma operation_frame: "check_operation env u k n s = (Ok r, s') \<Longrightarrow> aw_config s' = aw_config s \<and> aw_tier_board s' = aw_tier_board s"
  by (auto simp: check_operation_Ok add_activity_with_def split: if_splits)

lemma legacy_frame: "process_anti_whale_action env u n s = (Ok r, s') \<Longrightarrow> aw_config s' = aw_config s \<and> aw_tier_board s' = aw_tier_board s"
  by (auto simp: process_anti_whale_action_def ok_rules Let_def split: option.splits if_splits)

lemma whale_inv_frame: "whale_inv s \<Longrightarrow> aw_config s' = aw_config s \<and> aw_tier_board s' = aw_tier_board s \<Longrightarrow> whale_inv s'"
  by (simp add: whale_inv_def get_stored_config_def)

lemma config_inv: "whale_inv s \<Longrightarrow> set_config env c cfg s = (Ok u, s') \<Longrightarrow> whale_inv s'"
  by (auto simp: whale_inv_def set_config_Ok get_stored_config_def)

lemma board_ok_update:
  assumes "board_ok es"
  shows "board_ok (take MAX_TIER_BOARD_ENTRIES (sort_entries (update_entry p sc now es)))"
proof -
  let ?es = "sort_entries (update_entry p sc now es)"
  have sorted: "descending ?es" and ms: "mset ?es = mset (update_entry p sc now es)" using sort_entries_correct by auto
  have "distinct (map te_player (update_entry p sc now es))" using assms by (simp add: board_ok_def update_entry_players(2))
  moreover have "mset (map te_player ?es) = mset (map te_player (update_entry p sc now es))" using ms by simp
  ultimately have "distinct (map te_player ?es)" by (metis mset_eq_imp_distinct_iff)
  with sorted show ?thesis by (simp add: board_ok_def sorted_wrt_take take_map[symmetric] distinct_take)
qed

lemma whale_step_inv: "whale_inv s \<Longrightarrow> whale_step env s s' \<Longrightarrow> whale_inv s'"
proof (erule whale_step.cases)
  fix u sc t t' assume inv: "whale_inv s" and "s = t" "s' = t'" "commits (record_tier_score env u sc) t t'"
  moreover have "board_ok (unwrap_or (aw_tier_board s tier) [])" for tier
    using inv by (cases "aw_tier_board s tier") (auto simp: whale_inv_def board_ok_def)
  ultimately show ?thesis
    by (auto simp: whale_inv_def commits_iff record_tier_score_def Let_def ok_rules get_stored_config_def
        intro!: board_ok_update split: if_splits)
qed (auto simp: commits_iff ok_rules init_admin_def set_daily_cap_def set_exempt_def
      dest: gathering_frame fee_frame guild_frame operation_frame legacy_frame
      intro: config_inv whale_inv_frame split: if_splits)

interpretation whales: step_system "\<lambda>s s'. \<exists>env. whale_step env s s'" "whale_inv :: 'a whale_store_scheme \<Rightarrow> bool"
  by unfold_locales (auto intro: whale_step_inv)

lemma gov_limits_pos:
  "0 < fallback \<Longrightarrow> 0 < gov_u64 k fallback s" "0 < fallback \<Longrightarrow> 0 < gov_u32 k fallback s" "0 < x \<Longrightarrow> 0 < gov_i128 k x s"
  by (auto simp: gov_u64_def gov_u32_def gov_i128_def split: option.splits)

lemma effective_valid: "is_valid (get_stored_config s) \<Longrightarrow> is_valid (effective_config s)"
  by (auto simp: effective_config_def is_valid_def Let_def gov_limits_pos)

definition fresh_whale :: whale_store where
  "fresh_whale = gov_store.extend no_gov \<lparr>aw_daily_volume = Map.empty, aw_daily_cap = None, aw_exempt = Map.empty,
     aw_admin = None, aw_config = None, aw_daily_gathered = Map.empty, aw_daily_ops = Map.empty,
     aw_daily_trade_volume = Map.empty, aw_daily_guild = Map.empty, aw_activity = Map.empty,
     aw_tier_board = Map.empty, aw_impact = None\<rparr>"

lemma fresh_whale_simps: "aw_config fresh_whale = None" "aw_exempt fresh_whale = Map.empty" "aw_daily_ops fresh_whale = Map.empty"
    "aw_tier_board fresh_whale = Map.empty" "game_parameter fresh_whale = Map.empty"
  by (simp_all add: fresh_whale_def gov_store.defs no_gov_def emergency_store.defs)

lemma fresh_whale_inv: "whale_inv fresh_whale"
  by (simp add: whale_inv_def get_stored_config_def fresh_whale_simps is_valid_def defaults_def)

lemma fresh_effective: "effective_config fresh_whale = defaults"
  by (simp add: effective_config_def get_stored_config_def gov_u64_def gov_u32_def gov_i128_def get_game_parameter_def
      fresh_whale_simps defaults_def Let_def)

section \<open>Properties\<close>

text \<open>C9. Diminishing returns follow the five bands exactly. With bands of positive width that fit in
  a \<open>u64\<close>, the loop credits the sum, over the bands, of the units of this gathering that fall in the
  band times the band's multiplier, rounded down per band; and whatever the inputs, never more than the
  units gathered.\<close>

theorem diminishing_returns_bands:
  assumes "0 < w" and "w * TIER_COUNT \<le> u64_max" and "g + a \<le> u64_max"
  shows "diminishing_returns g a w = band_credit TIER_MULTIPLIERS_BPS 0 w g (g + a) \<and> diminishing_returns g a w \<le> a"
proof -
  have "diminishing_loop TIER_MULTIPLIERS_BPS 0 w a g 0 = 0 + band_credit TIER_MULTIPLIERS_BPS 0 w g (g + a)"
    using assms multipliers_le by (intro diminishing_loop_bands) (auto simp: TIER_MULTIPLIERS_BPS_def)
  then show ?thesis using assms(1) by (auto simp: diminishing_returns_def band_credit_empty diminishing_returns_le[unfolded diminishing_returns_def])
qed

theorem diminishing_returns_bands_witness:
  "diminishing_returns 150 100 100 = 70 \<and> diminishing_returns 0 1000 100 = 400"
  using diminishing_returns_bands[of 100 150 100] diminishing_returns_bands[of 100 0 1000]
  by (simp add: TIER_MULTIPLIERS_BPS_def band_units_def)

text \<open>The progressive fee never exceeds three percent, and a trade whose volume stays within the
  first 50000 units of the day pays none.\<close>

lemma progressive_fee_bound:
  "progressive_trade_fee v a * 10000 \<le> a * 300 \<and> (v + a \<le> 50000 \<longrightarrow> progressive_trade_fee v a = 0)"
  using progressive_fee_le by (auto simp: progressive_trade_fee_def fee_loop_bands saturating_add_def)

lemma progressive_fee_bound_example:
  "progressive_trade_fee 20000 30000 = 0 \<and> progressive_trade_fee 50000 200000 = 1000"
  using progressive_fee_bound[of 20000 30000]
  by (simp add: progressive_trade_fee_def fee_loop_bands saturating_add_def)

text \<open>The daily caps hold exactly. In a state whose configuration is valid, \<open>check_operation\<close>
  lets a non-exempt player do \<open>n\<close> more operations of a kind exactly when \<open>n\<close> is positive and today's
  count stays within the cap in force; it then counts exactly \<open>n\<close> for that player, kind and day and
  nothing for anybody else, and the cap in force is never zero.\<close>

lemma daily_cap_exact:
  assumes inv: "whale_inv s" and plain: "\<not> is_exempt u s" and cap32: "cap_for (effective_config s) k \<le> u32_max"
  shows "0 < cap_for (effective_config s) k
    \<and> ((\<exists>s'. check_operation env u k n s = (Ok (), s')) \<longleftrightarrow>
        0 < n \<and> get_user_daily_ops env u k s + n \<le> cap_for (effective_config s) k)
    \<and> (\<forall>s' env2 u2 k2. check_operation env u k n s = (Ok (), s') \<longrightarrow>
        get_user_daily_ops env2 u2 k2 s' = get_user_daily_ops env2 u2 k2 s
          + (if u2 = u \<and> k2 = k \<and> get_day_index env2 = get_day_index env then n else 0))"
proof (intro conjI)
  have "is_valid (effective_config s)" using inv by (simp add: whale_inv_def effective_valid)
  then show "0 < cap_for (effective_config s) k" by (cases k) (auto simp: is_valid_def)
  show "(\<exists>s'. check_operation env u k n s = (Ok (), s')) \<longleftrightarrow> 0 < n \<and> get_user_daily_ops env u k s + n \<le> cap_for (effective_config s) k"
    using plain cap32 by (auto simp: check_operation_Ok)
  show "\<forall>s' env2 u2 k2. check_operation env u k n s = (Ok (), s') \<longrightarrow> get_user_daily_ops env2 u2 k2 s' =
      get_user_daily_ops env2 u2 k2 s + (if u2 = u \<and> k2 = k \<and> get_day_index env2 = get_day_index env then n else 0)"
    using plain by (auto simp: check_operation_Ok add_activity_with_def get_user_daily_ops_def)
qed

lemma daily_cap_exact_example:
  "\<exists>s'. check_operation (signed_at 5 1) (Addr 1) Mint 20 fresh_whale = (Ok (), s')"
  using daily_cap_exact[OF fresh_whale_inv, of "Addr 1" Mint "signed_at 5 1" 20]
  by (simp add: fresh_effective defaults_def is_exempt_def fresh_whale_simps get_user_daily_ops_def)

text \<open>Limits and boards stay well formed. After any run of anti-whale operations from such a state,
  with whatever governance overrides, the limits in force are valid (all positive, thresholds in
  order), and every tier leaderboard is in descending order of score, lists each player at most once
  and has at most a hundred rows.\<close>

lemma whale_well_formed:
  assumes "(\<lambda>s s'. \<exists>env. whale_step env s s')\<^sup>*\<^sup>* s t" and "whale_inv s" and "aw_tier_board t tier = Some es"
  shows "is_valid (effective_config t) \<and> sorted_wrt (\<lambda>a b. te_score a \<ge> te_score b) es
    \<and> distinct (map te_player es) \<and> length es \<le> MAX_TIER_BOARD_ENTRIES"
  using whales.run_inv[OF assms(1,2)] assms(3) effective_valid[of t] by (auto simp: whale_inv_def board_ok_def)

lemma whale_well_formed_example:
  "is_valid (effective_config (snd (record_tier_score (signed_at 5 1) (Addr 1) 70 fresh_whale)))"
proof -
  let ?t = "snd (record_tier_score (signed_at 5 1) (Addr 1) 70 fresh_whale)"
  have step: "\<exists>env. whale_step env fresh_whale ?t"
    by (intro exI[of _ "signed_at 5 1"] whale_step.tier_score[of _ "Addr 1" 70]) (simp add: commits_def record_tier_score_def Let_def)
  obtain es where "aw_tier_board ?t (get_player_tier (Addr 1) fresh_whale) = Some es"
    by (simp add: record_tier_score_def Let_def)
  from whale_well_formed[OF r_into_rtranclp[of "\<lambda>s s'. \<exists>env. whale_step env s s'", OF step] fresh_whale_inv this] show ?thesis by blast
qed

end
