(* ===== verification/Limit_Orders.thy ===== *)
theory Limit_Orders
  imports Anti_Whale
begin

text \<open>
  \<open>src/trading.rs\<close>, first half: the limit-order book with its per-trader index, order fills, and
  the trading history kept as a buffer of the most recent records.
\<close>

section \<open>Model\<close>

abbreviation MAX_ORDERS_PER_TRADER :: nat where "MAX_ORDERS_PER_TRADER \<equiv> 50"
abbreviation MAX_HISTORY :: nat where "MAX_HISTORY \<equiv> 50"

datatype OrderSide = Buy | Sell

record LimitOrder =
  lo_id :: u64
  lo_trader :: address
  lo_side :: OrderSide
  lo_resource :: symbol
  lo_quantity :: i128
  lo_limit_price :: i128
  lo_placed_at :: u64
  lo_is_stop_loss :: bool

record TradeRecord =
  tr_order_id :: u64
  tr_trader :: address
  tr_side :: OrderSide
  tr_resource :: symbol
  tr_quantity :: i128
  tr_price :: i128
  tr_executed_at :: u64

datatype TradingError = InvalidOrder | OrderNotFound | NotOrderOwner | OrderCapReached | InvalidPrice
  | InvalidQuantity | Reentrancy | DailyTradeCapExceeded

definition trading_from_reentrancy :: "ReentrancyError \<Rightarrow> TradingError" where
  "trading_from_reentrancy e = TradingError.Reentrancy"

record order_store = whale_store +
  order_counter :: "u64 option"
  order_tbl :: "u64 \<rightharpoonup> LimitOrder"
  trader_orders :: "address \<rightharpoonup> u64 list"
  trade_history :: "TradeRecord list option"

definition next_order_id :: "'a order_store_scheme \<Rightarrow> (u64 \<times> 'a order_store_scheme) option" where
  "next_order_id s = map_option (\<lambda>n. (n, s\<lparr>order_counter := Some n\<rparr>))
     (checked_add u64_max (unwrap_or (order_counter s) 0) 1)"

definition place_limit_order_unguarded :: "env \<Rightarrow> address \<Rightarrow> LimitOrder \<Rightarrow> 'a order_store_scheme
    \<Rightarrow> (TradingError, u64) outcome \<times> 'a order_store_scheme" where
  "place_limit_order_unguarded env trader order s =
    (if \<not> auth env trader then (Panic, s)
     else and_then (map_err (\<lambda>_. TradingError.DailyTradeCapExceeded) (check_operation env trader Trade 1 s)) (\<lambda>_ s.
       if lo_limit_price order \<le> 0 then (Err TradingError.InvalidPrice, s)
       else if lo_quantity order \<le> 0 then (Err TradingError.InvalidQuantity, s)
       else let ids = unwrap_or (trader_orders s trader) [] in
         if length ids \<ge> MAX_ORDERS_PER_TRADER then (Err TradingError.OrderCapReached, s)
         else case next_order_id s of
           None \<Rightarrow> (Panic, s)
         | Some (i, s) \<Rightarrow>
             let order = order\<lparr>lo_id := i, lo_trader := trader, lo_placed_at := timestamp env\<rparr>;
                 s = s\<lparr>order_tbl := (order_tbl s)(i \<mapsto> order)\<rparr>;
                 s = s\<lparr>trader_orders := (trader_orders s)(trader \<mapsto> ids @ [i])\<rparr>
             in (Ok i, publish [SS ''trade'', SS ''placed''] [SA trader, SU i, SI (lo_limit_price order), SI (lo_quantity order)] s)))"

definition place_limit_order :: "env \<Rightarrow> address \<Rightarrow> LimitOrder \<Rightarrow> 'a order_store_scheme
    \<Rightarrow> (TradingError, u64) outcome \<times> 'a order_store_scheme" where
  "place_limit_order env trader order = with_guard trading_from_reentrancy (place_limit_order_unguarded env trader order)"

definition remove_order :: "address \<Rightarrow> u64 \<Rightarrow> 'a order_store_scheme \<Rightarrow> 'a order_store_scheme" where
  "remove_order trader order_id s =
    (let s = s\<lparr>order_tbl := (order_tbl s)(order_id := None)\<rparr>;
         ids = unwrap_or (trader_orders s trader) []
     in s\<lparr>trader_orders := (trader_orders s)(trader \<mapsto> filter (\<lambda>oid. oid \<noteq> order_id) ids)\<rparr>)"

definition cancel_limit_order_unguarded :: "env \<Rightarrow> address \<Rightarrow> u64 \<Rightarrow> 'a order_store_scheme
    \<Rightarrow> (TradingError, unit) outcome \<times> 'a order_store_scheme" where
  "cancel_limit_order_unguarded env trader order_id s =
    (if \<not> auth env trader then (Panic, s)
     else case order_tbl s order_id of
       None \<Rightarrow> (Err TradingError.OrderNotFound, s)
     | Some order \<Rightarrow>
         if lo_trader order \<noteq> trader then (Err TradingError.NotOrderOwner, s)
         else (Ok (), publish [SS ''trade'', SS ''cancel''] [SA trader, SU order_id] (remove_order trader order_id s)))"

definition cancel_limit_order :: "env \<Rightarrow> address \<Rightarrow> u64 \<Rightarrow> 'a order_store_scheme
    \<Rightarrow> (TradingError, unit) outcome \<times> 'a order_store_scheme" where
  "cancel_limit_order env trader order_id = with_guard trading_from_reentrancy (cancel_limit_order_unguarded env trader order_id)"

text \<open>\<open>quantity\<close> lies between 1 and the order's quantity when it is subtracted, so the plain
  subtraction cannot trap on a well-formed order; the trap is kept for any other.\<close>

definition fill_limit_order :: "u64 \<Rightarrow> i128 \<Rightarrow> 'a order_store_scheme
    \<Rightarrow> (TradingError, LimitOrder) outcome \<times> 'a order_store_scheme" where
  "fill_limit_order order_id quantity s = (case order_tbl s order_id of
     None \<Rightarrow> (Err TradingError.OrderNotFound, s)
   | Some order \<Rightarrow>
       if quantity \<le> 0 \<or> quantity > lo_quantity order then (Err TradingError.InvalidQuantity, s)
       else case ck (lo_quantity order - quantity) of
         None \<Rightarrow> (Panic, s)
       | Some remaining \<Rightarrow>
           if remaining = 0 then (Ok order, remove_order (lo_trader order) order_id s)
           else (Ok order, s\<lparr>order_tbl := (order_tbl s)(order_id \<mapsto> order\<lparr>lo_quantity := remaining\<rparr>)\<rparr>))"

definition get_limit_order :: "u64 \<Rightarrow> 'a order_store_scheme \<Rightarrow> LimitOrder option" where
  "get_limit_order order_id s = order_tbl s order_id"

definition get_trader_orders :: "address \<Rightarrow> 'a order_store_scheme \<Rightarrow> LimitOrder list" where
  "get_trader_orders trader s = concat (map (\<lambda>oid. case order_tbl s oid of None \<Rightarrow> [] | Some order \<Rightarrow> [order])
     (unwrap_or (trader_orders s trader) []))"

definition push_trade_record :: "TradeRecord \<Rightarrow> 'a order_store_scheme \<Rightarrow> 'a order_store_scheme" where
  "push_trade_record trade s =
    (let history = unwrap_or (trade_history s) [];
         history = (if length history \<ge> MAX_HISTORY
           then map (\<lambda>i. history ! i) [length history - MAX_HISTORY + 1..<length history] else history)
     in s\<lparr>trade_history := Some (history @ [trade])\<rparr>)"

definition record_trade_unguarded :: "env \<Rightarrow> address \<Rightarrow> TradeRecord \<Rightarrow> 'a order_store_scheme
    \<Rightarrow> (TradingError, unit) outcome \<times> 'a order_store_scheme" where
  "record_trade_unguarded env caller trade s =
    (if \<not> auth env caller then (Panic, s)
     else (Ok (), publish [SS ''trade'', SS ''exec''] [SA caller, SU (tr_order_id trade), SI (tr_price trade), SI (tr_quantity trade)]
            (push_trade_record trade s)))"

definition record_trade :: "env \<Rightarrow> address \<Rightarrow> TradeRecord \<Rightarrow> 'a order_store_scheme
    \<Rightarrow> (TradingError, unit) outcome \<times> 'a order_store_scheme" where
  "record_trade env caller trade = with_guard trading_from_reentrancy (record_trade_unguarded env caller trade)"

definition get_trading_history :: "'a order_store_scheme \<Rightarrow> TradeRecord list" where
  "get_trading_history s = unwrap_or (trade_history s) []"

section \<open>Invariant and steps\<close>

text \<open>The index of a trader lists exactly the open orders of that trader, each once, at most fifty;
  every open order has a positive price and quantity; the history holds at most fifty records.\<close>

definition open_ids :: "address \<Rightarrow> 'a order_store_scheme \<Rightarrow> u64 list" where
  "open_ids a s = unwrap_or (trader_orders s a) []"

definition book_ok :: "nat \<Rightarrow> (u64 \<rightharpoonup> LimitOrder) \<Rightarrow> (address \<Rightarrow> u64 list) \<Rightarrow> bool" where
  "book_ok c tbl idx \<longleftrightarrow> tbl_ok (\<lambda>i x. lo_id x = i \<and> 0 < lo_quantity x \<and> in_i128 (lo_quantity x) \<and> 0 < lo_limit_price x) c tbl \<and>
     (\<forall>a. distinct (idx a) \<and> length (idx a) \<le> MAX_ORDERS_PER_TRADER \<and>
        set (idx a) = {i. \<exists>x. tbl i = Some x \<and> lo_trader x = a})"

definition order_inv :: "'a order_store_scheme \<Rightarrow> bool" where
  "order_inv s \<longleftrightarrow> \<not> is_locked s \<and> book_ok (unwrap_or (order_counter s) 0) (order_tbl s) (\<lambda>a. open_ids a s) \<and>
     length (get_trading_history s) \<le> MAX_HISTORY"

inductive order_step :: "env \<Rightarrow> 'a order_store_scheme \<Rightarrow> 'a order_store_scheme \<Rightarrow> bool" for env where
  place: "commits (place_limit_order env t x) s s' \<Longrightarrow> in_i128 (lo_quantity x) \<Longrightarrow> order_step env s s'"
| cancel: "commits (cancel_limit_order env t i) s s' \<Longrightarrow> order_step env s s'"
| fill: "commits (fill_limit_order i q) s s' \<Longrightarrow> order_step env s s'"
| trade: "commits (record_trade env c r) s s' \<Longrightarrow> order_step env s s'"

section \<open>Lemmas\<close>

lemma publish_order_store [simp]:
  "order_counter (publish t d s) = order_counter s" "order_tbl (publish t d s) = order_tbl s"
  "trader_orders (publish t d s) = trader_orders s" "trade_history (publish t d s) = trade_history s"
  by (simp_all add: publish_def)

interpretation order_ids: id_counter "\<lambda>s::'a order_store_scheme. unwrap_or (order_counter s) 0" next_order_id
  by unfold_locales (auto simp: next_order_id_def)

lemma next_order_id_Some [ok_rules]: "next_order_id s = Some (i, s') \<longleftrightarrow>
    i = Suc (unwrap_or (order_counter s) 0) \<and> i \<le> u64_max \<and> s' = s\<lparr>order_counter := Some i\<rparr>"
  by (auto simp: next_order_id_def)

text \<open>Counting an operation writes the anti-whale counters only.\<close>

lemma check_operation_frame [frame]:
  assumes "check_operation env u k n s = (Ok r, s')"
  shows "guard_lock s' = guard_lock s" "order_counter s' = order_counter s" "order_tbl s' = order_tbl s"
    "trader_orders s' = trader_orders s" "trade_history s' = trade_history s" "order_store.more s' = order_store.more s"
  using assms by (auto simp: check_operation_Ok add_activity_with_def split: if_splits)

lemma book_new:
  assumes "book_ok c tbl idx" "lo_id x = Suc c" "0 < lo_quantity x" "in_i128 (lo_quantity x)" "0 < lo_limit_price x"
    "length (idx (lo_trader x)) < MAX_ORDERS_PER_TRADER"
  shows "book_ok (Suc c) (tbl(Suc c \<mapsto> x)) (idx(lo_trader x := idx (lo_trader x) @ [Suc c]))"
proof -
  have fresh: "tbl (Suc c) = None" using assms(1) by (auto simp: book_ok_def intro: tbl_ok_fresh)
  then have "Suc c \<notin> set (idx a)" for a using assms(1) by (auto simp: book_ok_def)
  with fresh assms show ?thesis unfolding book_ok_def by (auto intro!: tbl_ok_new split: if_splits)
qed

lemma book_remove:
  assumes "book_ok c tbl idx" "tbl i = Some x"
  shows "book_ok c (tbl(i := None)) (idx(lo_trader x := filter (\<lambda>j. j \<noteq> i) (idx (lo_trader x))))"
proof -
  have "length (filter (\<lambda>j. j \<noteq> i) (idx (lo_trader x))) \<le> MAX_ORDERS_PER_TRADER"
    using assms(1) length_filter_le le_trans unfolding book_ok_def by blast
  with assms show ?thesis unfolding book_ok_def by (auto intro: tbl_ok_del)
qed

lemma book_upd:
  assumes "book_ok c tbl idx" "tbl i = Some x" "0 < q" "in_i128 q"
  shows "book_ok c (tbl(i \<mapsto> x\<lparr>lo_quantity := q\<rparr>)) idx"
proof -
  from assms(1) have tbl: "tbl_ok (\<lambda>i x. lo_id x = i \<and> 0 < lo_quantity x \<and> in_i128 (lo_quantity x) \<and> 0 < lo_limit_price x) c tbl"
    by (simp add: book_ok_def)
  have "{j. \<exists>y. (tbl(i \<mapsto> x\<lparr>lo_quantity := q\<rparr>)) j = Some y \<and> lo_trader y = a} = {j. \<exists>y. tbl j = Some y \<and> lo_trader y = a}" for a
    using assms(2) by auto
  with tbl_ok_upd[OF tbl assms(2), of "x\<lparr>lo_quantity := q\<rparr>"] tbl_ok_get[OF tbl assms(2)] assms show ?thesis
    by (simp add: book_ok_def)
qed

lemma open_ids_remove: "open_ids a (remove_order t i s) = (if a = t then filter (\<lambda>j. j \<noteq> i) (open_ids a s) else open_ids a s)"
  by (simp add: open_ids_def remove_order_def Let_def)

lemma remove_order_frame [simp]: "order_counter (remove_order t i s) = order_counter s" "guard_lock (remove_order t i s) = guard_lock s"
    "trade_history (remove_order t i s) = trade_history s" "order_tbl (remove_order t i s) = (order_tbl s)(i := None)"
  by (simp_all add: remove_order_def Let_def)

lemma remove_inv:
  assumes "book_ok (unwrap_or (order_counter s) 0) (order_tbl s) (\<lambda>a. open_ids a s)" "order_tbl s i = Some x"
  shows "book_ok (unwrap_or (order_counter s) 0) ((order_tbl s)(i := None)) (\<lambda>a. open_ids a (remove_order (lo_trader x) i s))"
proof -
  have "(\<lambda>a. open_ids a (remove_order (lo_trader x) i s)) =
      (\<lambda>a. open_ids a s)(lo_trader x := filter (\<lambda>j. j \<noteq> i) (open_ids (lo_trader x) s))"
    by (auto simp: open_ids_remove fun_eq_iff)
  with book_remove[OF assms] show ?thesis by simp
qed

lemma history_push: "get_trading_history (push_trade_record r s) =
    (let h = get_trading_history s in drop (length h + 1 - MAX_HISTORY) h @ [r])"
proof -
  have nth: "map (\<lambda>i. h ! i) [k..<length h] = drop k h" for h :: "TradeRecord list" and k
    by (metis map_nth drop_map drop_upt add_0)
  have "Suc (n - MAX_HISTORY) = n + 1 - MAX_HISTORY" if "MAX_HISTORY \<le> n" for n using that by simp
  then show ?thesis by (auto simp: push_trade_record_def get_trading_history_def Let_def nth)
qed

lemma push_frame [simp]: "order_counter (push_trade_record r s) = order_counter s" "guard_lock (push_trade_record r s) = guard_lock s"
    "order_tbl (push_trade_record r s) = order_tbl s" "trader_orders (push_trade_record r s) = trader_orders s"
  by (simp_all add: push_trade_record_def Let_def)

lemma place_Ok:
  assumes "place_limit_order env a x s = (Ok i, s')"
  shows "auth env a \<and> 0 < lo_limit_price x \<and> 0 < lo_quantity x \<and> length (open_ids a s) < MAX_ORDERS_PER_TRADER \<and>
    i = Suc (unwrap_or (order_counter s) 0) \<and> order_counter s' = Some i \<and>
    order_tbl s' = (order_tbl s)(i \<mapsto> x\<lparr>lo_id := i, lo_trader := a, lo_placed_at := timestamp env\<rparr>) \<and>
    (\<lambda>b. open_ids b s') = (\<lambda>b. open_ids b s)(a := open_ids a s @ [i]) \<and>
    trade_history s' = trade_history s \<and> \<not> is_locked s'"
proof -
  from assms obtain t where t: "check_operation env a Trade 1 (s\<lparr>guard_lock := Some True\<rparr>) = (Ok (), t)"
      and pre: "auth env a" "0 < lo_limit_price x" "0 < lo_quantity x" "length (unwrap_or (trader_orders t a) []) < MAX_ORDERS_PER_TRADER"
      and i: "i = Suc (unwrap_or (order_counter t) 0)"
      and s': "s' = (publish [SS ''trade'', SS ''placed''] [SA a, SU i, SI (lo_limit_price x), SI (lo_quantity x)]
         (t\<lparr>order_counter := Some i, order_tbl := (order_tbl t)(i \<mapsto> x\<lparr>lo_id := i, lo_trader := a, lo_placed_at := timestamp env\<rparr>),
             trader_orders := (trader_orders t)(a \<mapsto> unwrap_or (trader_orders t a) [] @ [i])\<rparr>))\<lparr>guard_lock := Some False\<rparr>"
    by (auto simp: place_limit_order_def place_limit_order_unguarded_def ok_rules Let_def not_le split del: if_split)
  from check_operation_frame[OF t] have "order_counter t = order_counter s" "order_tbl t = order_tbl s"
      "trader_orders t = trader_orders s" "trade_history t = trade_history s" by simp_all
  with pre i show ?thesis unfolding s' by (simp add: open_ids_def fun_eq_iff)
qed

lemma place_inv:
  assumes inv: "order_inv s" and ok: "place_limit_order env a x s = (Ok i, s')" and q: "in_i128 (lo_quantity x)"
  shows "order_inv s'"
proof -
  let ?x = "x\<lparr>lo_id := i, lo_trader := a, lo_placed_at := timestamp env\<rparr>"
  note p = place_Ok[OF ok]
  have "book_ok (unwrap_or (order_counter s') 0) (order_tbl s') (\<lambda>b. open_ids b s')"
    using book_new[of "unwrap_or (order_counter s) 0" "order_tbl s" "\<lambda>b. open_ids b s" ?x] inv p q by (auto simp: order_inv_def)
  then show ?thesis using p inv by (simp add: order_inv_def get_trading_history_def)
qed

lemma cancel_order_Ok [ok_iff]: "cancel_limit_order env a i s = (Ok u, s') \<longleftrightarrow> \<not> is_locked s \<and> auth env a \<and>
    (\<exists>x. order_tbl s i = Some x \<and> lo_trader x = a \<and>
      s' = (publish [SS ''trade'', SS ''cancel''] [SA a, SU i] (remove_order a i (s\<lparr>guard_lock := Some True\<rparr>)))\<lparr>guard_lock := Some False\<rparr>)"
  by (simp add: cancel_limit_order_def cancel_limit_order_unguarded_def ok_rules split del: if_split) blast

lemma fill_Ok [ok_iff]: "fill_limit_order i q s = (Ok x, s') \<longleftrightarrow>
    order_tbl s i = Some x \<and> 0 < q \<and> q \<le> lo_quantity x \<and> in_i128 (lo_quantity x - q) \<and>
    s' = (if q = lo_quantity x then remove_order (lo_trader x) i s
          else s\<lparr>order_tbl := (order_tbl s)(i \<mapsto> x\<lparr>lo_quantity := lo_quantity x - q\<rparr>)\<rparr>)"
proof (cases "order_tbl s i")
  case (Some y)
  then show ?thesis
    by (cases "lo_quantity y = q") (auto simp: fill_limit_order_def ok_rules)
qed (simp add: fill_limit_order_def)

lemma record_trade_Ok [ok_iff]: "record_trade env c r s = (Ok u, s') \<longleftrightarrow> \<not> is_locked s \<and> auth env c \<and>
    s' = (publish [SS ''trade'', SS ''exec''] [SA c, SU (tr_order_id r), SI (tr_price r), SI (tr_quantity r)]
           (push_trade_record r (s\<lparr>guard_lock := Some True\<rparr>)))\<lparr>guard_lock := Some False\<rparr>"
  by (simp add: record_trade_def record_trade_unguarded_def ok_rules split del: if_split)

lemma open_ids_guard [simp]: "open_ids a (s\<lparr>guard_lock := b\<rparr>) = open_ids a s" "open_ids a (publish t d s) = open_ids a s"
    "open_ids a (push_trade_record r s) = open_ids a s" "open_ids a (s\<lparr>order_tbl := m\<rparr>) = open_ids a s"
    "get_trading_history (s\<lparr>guard_lock := b\<rparr>) = get_trading_history s" "get_trading_history (publish t d s) = get_trading_history s"
    "get_trading_history (remove_order t2 i s) = get_trading_history s" "get_trading_history (s\<lparr>order_tbl := m\<rparr>) = get_trading_history s"
  by (simp_all add: open_ids_def get_trading_history_def)

lemma remove_order_inv:
  assumes "order_inv s" "order_tbl s i = Some x" "guard_lock t = guard_lock s \<or> guard_lock t = Some False"
    "order_counter t = order_counter s" "order_tbl t = (order_tbl s)(i := None)" "get_trading_history t = get_trading_history s"
    "\<And>a. open_ids a t = open_ids a (remove_order (lo_trader x) i s)"
  shows "order_inv t"
proof -
  have "(\<lambda>a. open_ids a t) = (\<lambda>a. open_ids a (remove_order (lo_trader x) i s))" using assms(7) by blast
  then show ?thesis using assms remove_inv[OF _ assms(2)] by (auto simp: order_inv_def is_locked_def)
qed

lemma cancel_order_inv: "order_inv s \<Longrightarrow> cancel_limit_order env a i s = (Ok u, s') \<Longrightarrow> order_inv s'"
  by (auto simp: cancel_order_Ok open_ids_remove elim!: remove_order_inv)

lemma fill_inv: "order_inv s \<Longrightarrow> fill_limit_order i q s = (Ok x, s') \<Longrightarrow> order_inv s'"
proof (cases "q = lo_quantity x")
  case True
  assume "order_inv s" "fill_limit_order i q s = (Ok x, s')"
  with True show ?thesis by (auto simp: fill_Ok elim!: remove_order_inv)
next
  case False
  assume inv: "order_inv s" and ok: "fill_limit_order i q s = (Ok x, s')"
  then have "book_ok (unwrap_or (order_counter s) 0) ((order_tbl s)(i \<mapsto> x\<lparr>lo_quantity := lo_quantity x - q\<rparr>)) (\<lambda>a. open_ids a s)"
    using False by (auto simp: fill_Ok order_inv_def intro!: book_upd)
  with inv ok False show ?thesis by (auto simp: fill_Ok order_inv_def is_locked_def)
qed

lemma record_trade_inv: "order_inv s \<Longrightarrow> record_trade env c r s = (Ok u, s') \<Longrightarrow> order_inv s'"
  by (auto simp: record_trade_Ok order_inv_def history_push Let_def)

lemma order_step_inv: "order_inv s \<Longrightarrow> order_step env s s' \<Longrightarrow> order_inv s'"
  by (erule order_step.cases) (auto simp: commits_iff intro: place_inv cancel_order_inv fill_inv record_trade_inv)

interpretation orders: step_system "\<lambda>s s'. \<exists>env. order_step env s s'" "order_inv :: 'a order_store_scheme \<Rightarrow> bool"
  by unfold_locales (auto intro: order_step_inv)

lemma get_trader_orders_lookup:
  assumes "\<forall>i\<in>set ids. tbl i \<noteq> None"
  shows "concat (map (\<lambda>oid. case tbl oid of None \<Rightarrow> [] | Some x \<Rightarrow> [x]) ids) = map (\<lambda>i. the (tbl i)) ids"
  using assms by (induction ids) auto

definition empty_book :: order_store where
  "empty_book = whale_store.extend fresh_whale \<lparr>order_counter = None, order_tbl = Map.empty, trader_orders = Map.empty, trade_history = None\<rparr>"

lemma empty_book_lock: "guard_lock empty_book = None"
  by (simp add: empty_book_def fresh_whale_def no_gov_def paused_demo_def fresh_energy_def no_bonds_def no_escrows_def no_vaults_def
      no_ships_def ship_store.defs vault_store.defs escrow_store.defs bond_store.defs energy_store.defs emergency_store.defs
      gov_store.defs whale_store.defs)

lemma empty_book_inv: "order_inv empty_book"
  by (simp add: order_inv_def is_locked_def empty_book_lock)
    (simp add: empty_book_def whale_store.defs book_ok_def open_ids_def get_trading_history_def)

abbreviation sample_trade :: TradeRecord where
  "sample_trade \<equiv> \<lparr>tr_order_id = 7, tr_trader = Addr 1, tr_side = Sell, tr_resource = ''ore'', tr_quantity = 5, tr_price = 2, tr_executed_at = 9\<rparr>"

section \<open>Properties\<close>

text \<open>The order book and its index agree. After any sequence of placements, cancellations, fills
  and trade records from a consistent state, \<open>get_trader_orders\<close> returns exactly the open orders of the
  trader, each once and at most fifty; every open order has a positive price and remaining quantity; and
  the history holds at most the fifty most recent records: recording a trade appends it and drops only
  the oldest.\<close>

lemma order_book_consistent:
  assumes "(\<lambda>s s'. \<exists>env. order_step env s s')\<^sup>*\<^sup>* s t" and "order_inv s"
  shows "set (get_trader_orders a t) = {x. \<exists>i. order_tbl t i = Some x \<and> lo_trader x = a}
    \<and> distinct (map lo_id (get_trader_orders a t)) \<and> length (get_trader_orders a t) \<le> MAX_ORDERS_PER_TRADER
    \<and> (\<forall>x. (\<exists>i. order_tbl t i = Some x) \<longrightarrow> 0 < lo_quantity x \<and> 0 < lo_limit_price x)
    \<and> length (get_trading_history t) \<le> MAX_HISTORY
    \<and> (\<forall>env c r u. record_trade env c r t = (Ok (), u) \<longrightarrow>
        get_trading_history u = drop (length (get_trading_history t) + 1 - MAX_HISTORY) (get_trading_history t) @ [r])"
proof -
  have inv: "order_inv t" using orders.run_inv[OF assms] .
  then have tbl: "tbl_ok (\<lambda>i x. lo_id x = i \<and> 0 < lo_quantity x \<and> in_i128 (lo_quantity x) \<and> 0 < lo_limit_price x)
      (unwrap_or (order_counter t) 0) (order_tbl t)"
    and idx: "distinct (open_ids a t)" "length (open_ids a t) \<le> MAX_ORDERS_PER_TRADER"
      "set (open_ids a t) = {i. \<exists>x. order_tbl t i = Some x \<and> lo_trader x = a}"
    by (auto simp: order_inv_def book_ok_def)
  have get: "get_trader_orders a t = map (\<lambda>i. the (order_tbl t i)) (open_ids a t)"
    unfolding get_trader_orders_def open_ids_def[symmetric] by (rule get_trader_orders_lookup) (use idx(3) in auto)
  have "map lo_id (get_trader_orders a t) = open_ids a t"
    unfolding get map_map using idx(3) tbl_ok_get[OF tbl] by (intro map_idI) auto
  moreover have "set (get_trader_orders a t) = {x. \<exists>i. order_tbl t i = Some x \<and> lo_trader x = a}"
    unfolding get set_map idx(3) by (force simp: image_iff)
  moreover have "length (get_trader_orders a t) \<le> MAX_ORDERS_PER_TRADER" using idx(2) by (simp add: get)
  ultimately show ?thesis using inv idx(1) tbl_ok_get[OF tbl]
    by (auto simp: order_inv_def record_trade_Ok history_push Let_def)
qed

lemma order_book_consistent_example:
  "\<exists>u. record_trade (signed_at 9 1) (Addr 1) sample_trade empty_book = (Ok (), u) \<and> get_trading_history u = [sample_trade]"
proof -
  obtain u where u: "record_trade (signed_at 9 1) (Addr 1) sample_trade empty_book = (Ok (), u)"
    by (simp add: record_trade_Ok is_locked_def empty_book_lock)
  have "get_trading_history empty_book = []" by (simp add: empty_book_def whale_store.defs get_trading_history_def)
  with order_book_consistent[OF rtranclp.rtrancl_refl empty_book_inv] u show ?thesis by fastforce
qed

end
