(* ===== verification/Newton_Sqrt.thy ===== *)
theory Newton_Sqrt
  imports Prelude
begin

text \<open>
  The integer square root by Newton's method that the pools (\<open>src/trading.rs\<close>) and the yield arithmetic
  (\<open>src/economics/apy_calculator.rs\<close>) both contain: \<open>while s < r { r = s; s = (s + x / s) / 2 }\<close>, on unsigned integers up to \<open>m\<close>.
  A division by zero and a sum above \<open>m\<close> trap.
\<close>

function newton_loop :: "nat \<Rightarrow> nat \<Rightarrow> nat \<Rightarrow> nat \<Rightarrow> nat option" where
  "newton_loop m x r s = (if s < r then
       (if s = 0 then None
        else if s + x div s > m then None
        else newton_loop m x s ((s + x div s) div 2))
     else Some r)"
  by pat_completeness auto
termination
  by (relation "measure (\<lambda>(m, x, r, s). r)") auto

declare newton_loop.simps [simp del]

lemma am_gm:
  fixes s q t :: nat
  assumes "s + q \<le> 2 * t"
  shows "s * q \<le> t * t"
proof -
  have "(int s + int q) * (int s + int q) \<le> (2 * int t) * (2 * int t)" using assms by (intro mult_mono) auto
  moreover have "4 * (int s * int q) \<le> (int s + int q) * (int s + int q)"
    using zero_le_square[of "int s - int q"] by (simp add: algebra_simps)
  ultimately have "int s * int q \<le> int t * int t" by linarith
  then show ?thesis by (metis of_nat_le_iff of_nat_mult)
qed

text \<open>Newton's step from any positive \<open>s\<close> lands at or above the integer square root.\<close>

lemma newton_above:
  assumes "0 < (s::nat)"
  shows "x < Suc ((s + x div s) div 2) * Suc ((s + x div s) div 2)"
proof -
  have "x < s * Suc (x div s)" using assms by (simp add: dividend_less_times_div)
  also have "s * Suc (x div s) \<le> Suc ((s + x div s) div 2) * Suc ((s + x div s) div 2)"
    by (rule am_gm) simp
  finally show ?thesis .
qed

lemma newton_stop:
  assumes "0 < (r::nat)" "r \<le> (r + x div r) div 2"
  shows "r * r \<le> x"
proof -
  have "r * r \<le> r * (x div r)" using assms by simp
  also have "\<dots> \<le> x" by simp
  finally show ?thesis .
qed

lemma newton_pos: "0 < (s::nat) \<Longrightarrow> 0 < x \<Longrightarrow> 0 < (s + x div s) div 2"
  by (cases "s = 1") auto

lemma newton_small:
  assumes "0 < (s::nat)" "s \<le> x div 2 + 1" "x < Suc s * Suc s" "x \<le> m" "8 \<le> m"
  shows "s + x div s \<le> m"
proof (cases "s < 4")
  case True
  then consider "s = 1" | "s = 2" | "s = 3" using assms(1) by linarith
  then show ?thesis using assms by cases auto
next
  case False
  then have "x div s \<le> x div 4" by (intro div_le_mono2) auto
  with False assms show ?thesis by linarith
qed

lemma newton_loop_correct:
  assumes m: "8 \<le> m" and a: "0 < x" "x \<le> m" "0 < s" "s < r \<Longrightarrow> s \<le> x div 2 + 1" "x < Suc s * Suc s" "x < Suc r * Suc r"
    "s < r \<or> 0 < r \<and> s = (r + x div r) div 2"
  shows "\<exists>q. newton_loop m x r s = Some q \<and> q * q \<le> x \<and> x < Suc q * Suc q"
  using a
proof (induction r arbitrary: s rule: less_induct)
  case (less r)
  show ?case
  proof (cases "s < r")
    case False
    then have "newton_loop m x r s = Some r" by (subst newton_loop.simps) simp
    moreover have "r * r \<le> x" using False less.prems(7) newton_stop[of r x] by auto
    ultimately show ?thesis using less.prems(6) by blast
  next
    case True
    let ?t = "(s + x div s) div 2"
    have "s + x div s \<le> m"
      using newton_small[OF less.prems(3) less.prems(4)[OF True] less.prems(5,2) m] .
    then have "newton_loop m x r s = newton_loop m x s ?t" using True less.prems(3) by (subst newton_loop.simps) auto
    moreover have "\<exists>q. newton_loop m x s ?t = Some q \<and> q * q \<le> x \<and> x < Suc q * Suc q"
    proof (rule less.IH[OF True less.prems(1,2) newton_pos[OF less.prems(3,1)] _ newton_above[OF less.prems(3)] less.prems(5)])
      show "?t \<le> x div 2 + 1" if "?t < s" using that less.prems(4)[OF True] by linarith
      show "?t < s \<or> 0 < s \<and> ?t = (s + x div s) div 2" using less.prems(3) by blast
    qed
    ultimately show ?thesis by simp
  qed
qed

end
