(* ===== verification/Amm.thy ===== *)
theory Amm
  imports Limit_Orders Newton_Sqrt
begin

text \<open>
  \<open>src/trading.rs\<close>, second half: the constant-product market maker. Pools are created per unordered
  pair of resources; liquidity providers hold LP balances; a swap follows a route of up to three
  pools. All amounts are \<open>i128\<close> and the plain operators trap on overflow, so the pure helpers
  return \<open>None\<close> for a trap.
\<close>

section \<open>Model: arithmetic\<close>

abbreviation AMM_MAX_ROUTE_HOPS :: nat where "AMM_MAX_ROUTE_HOPS \<equiv> 3"
abbreviation SWAP_FEE_BPS :: u32 where "SWAP_FEE_BPS \<equiv> 30"

definition get_output_amount :: "i128 \<Rightarrow> i128 \<Rightarrow> i128 \<Rightarrow> u32 \<Rightarrow> i128 option" where
  "get_output_amount amount_in reserve_in reserve_out fee_bps =
     Option.bind (ck (amount_in * int fee_bps)) (\<lambda>product.
     Option.bind (tdiv product 10000) (\<lambda>fee.
     Option.bind (ck (amount_in - fee)) (\<lambda>amount_in_after_fee.
     Option.bind (ck (amount_in_after_fee * reserve_out)) (\<lambda>numerator.
     Option.bind (ck (reserve_in + amount_in_after_fee)) (\<lambda>denominator.
     tdiv numerator denominator)))))"

text \<open>The \<open>sqrt\<close> closure. It is only called on the product of two positive amounts, so its variables are natural numbers; a division
  by zero or a sum above the \<open>i128\<close> range is a trap.\<close>

definition sqrt_closure :: "nat \<Rightarrow> nat option" where
  "sqrt_closure x = newton_loop (nat i128_max) x x (x div 2 + 1)"

definition calculate_lp_mint :: "i128 \<Rightarrow> i128 \<Rightarrow> i128 \<Rightarrow> i128 \<Rightarrow> i128 \<Rightarrow> i128 option" where
  "calculate_lp_mint amount_a amount_b reserve_a reserve_b total_supply =
    (if total_supply = 0 then
       Option.bind (ck (amount_a * amount_b)) (\<lambda>product. map_option int (sqrt_closure (nat product)))
     else
       Option.bind (ck (amount_a * total_supply)) (\<lambda>product_a.
       Option.bind (tdiv product_a reserve_a) (\<lambda>share_a.
       Option.bind (ck (amount_b * total_supply)) (\<lambda>product_b.
       Option.bind (tdiv product_b reserve_b) (\<lambda>share_b.
       Some (if share_a < share_b then share_a else share_b))))))"

section \<open>Model: pools\<close>

datatype AmmError = PoolNotFound | PoolAlreadyExists | InsufficientLiquidity | InvalidAmount | SlippageExceeded
  | InvalidRoute | InsufficientLpTokens | ZeroLiquidity | Reentrancy | DailyTradeCapExceeded

definition amm_from_reentrancy :: "ReentrancyError \<Rightarrow> AmmError" where
  "amm_from_reentrancy e = AmmError.Reentrancy"

record LiquidityPool =
  lp_pool_id :: u64
  lp_resource_a :: symbol
  lp_resource_b :: symbol
  lp_reserve_a :: i128
  lp_reserve_b :: i128
  lp_supply :: i128
  lp_fee_bps :: u32
  lp_created_at :: u64

record amm_store = order_store +
  amm_pool :: "u64 \<rightharpoonup> LiquidityPool"
  pool_counter :: "u64 option"
  lp_balance :: "(u64 \<times> address) \<rightharpoonup> i128"
  lp_total_supply :: "u64 \<rightharpoonup> i128"
  pool_list :: "u64 list option"

definition next_pool_id :: "'a amm_store_scheme \<Rightarrow> (u64 \<times> 'a amm_store_scheme) option" where
  "next_pool_id s = map_option (\<lambda>n. (n, s\<lparr>pool_counter := Some n\<rparr>))
     (checked_add u64_max (unwrap_or (pool_counter s) 0) 1)"

fun pair_exists :: "u64 list \<Rightarrow> symbol \<Rightarrow> symbol \<Rightarrow> 'a amm_store_scheme \<Rightarrow> bool" where
  "pair_exists [] resource_a resource_b s = False"
| "pair_exists (pid # pools) resource_a resource_b s = (case amm_pool s pid of
     Some pool \<Rightarrow>
       if (lp_resource_a pool = resource_a \<and> lp_resource_b pool = resource_b)
          \<or> (lp_resource_a pool = resource_b \<and> lp_resource_b pool = resource_a) then True
       else pair_exists pools resource_a resource_b s
   | None \<Rightarrow> pair_exists pools resource_a resource_b s)"

definition create_pool :: "env \<Rightarrow> address \<Rightarrow> symbol \<Rightarrow> symbol \<Rightarrow> 'a amm_store_scheme
    \<Rightarrow> (AmmError, u64) outcome \<times> 'a amm_store_scheme" where
  "create_pool env creator resource_a resource_b s =
    (if \<not> auth env creator then (Panic, s)
     else if resource_a = resource_b then (Err AmmError.InvalidAmount, s)
     else let pools = unwrap_or (pool_list s) [] in
       if pair_exists pools resource_a resource_b s then (Err AmmError.PoolAlreadyExists, s)
       else case next_pool_id s of
         None \<Rightarrow> (Panic, s)
       | Some (pool_id, s) \<Rightarrow>
           let pool = \<lparr>lp_pool_id = pool_id, lp_resource_a = resource_a, lp_resource_b = resource_b, lp_reserve_a = 0,
                 lp_reserve_b = 0, lp_supply = 0, lp_fee_bps = SWAP_FEE_BPS, lp_created_at = timestamp env\<rparr>;
               s = s\<lparr>amm_pool := (amm_pool s)(pool_id \<mapsto> pool)\<rparr>;
               s = s\<lparr>pool_list := Some (pools @ [pool_id])\<rparr>
           in (Ok pool_id, publish [SS ''amm'', SS ''pool_c''] [SU pool_id, SS resource_a, SS resource_b] s))"

definition add_liquidity_unguarded :: "env \<Rightarrow> address \<Rightarrow> u64 \<Rightarrow> i128 \<Rightarrow> i128 \<Rightarrow> 'a amm_store_scheme
    \<Rightarrow> (AmmError, i128 \<times> LiquidityPool) outcome \<times> 'a amm_store_scheme" where
  "add_liquidity_unguarded env provider pool_id amount_a amount_b s =
    (if \<not> auth env provider then (Panic, s)
     else if amount_a \<le> 0 \<or> amount_b \<le> 0 then (Err AmmError.InvalidAmount, s)
     else case amm_pool s pool_id of
       None \<Rightarrow> (Err AmmError.PoolNotFound, s)
     | Some pool \<Rightarrow>
     case calculate_lp_mint amount_a amount_b (lp_reserve_a pool) (lp_reserve_b pool) (lp_supply pool) of
       None \<Rightarrow> (Panic, s)
     | Some lp_mint \<Rightarrow>
     if lp_mint \<le> 0 then (Err AmmError.ZeroLiquidity, s)
     else case ck (lp_reserve_a pool + amount_a) of
       None \<Rightarrow> (Err AmmError.InvalidAmount, s)
     | Some reserve_a \<Rightarrow>
     case ck (lp_reserve_b pool + amount_b) of
       None \<Rightarrow> (Err AmmError.InvalidAmount, s)
     | Some reserve_b \<Rightarrow>
     case ck (lp_supply pool + lp_mint) of
       None \<Rightarrow> (Err AmmError.InvalidAmount, s)
     | Some supply \<Rightarrow>
     let pool = pool\<lparr>lp_reserve_a := reserve_a, lp_reserve_b := reserve_b, lp_supply := supply\<rparr>;
         s = s\<lparr>amm_pool := (amm_pool s)(pool_id \<mapsto> pool)\<rparr>;
         current_balance = unwrap_or (lp_balance s (pool_id, provider)) 0 in
     case ck (current_balance + lp_mint) of
       None \<Rightarrow> (Panic, s)
     | Some balance \<Rightarrow>
     let s = s\<lparr>lp_balance := (lp_balance s)((pool_id, provider) \<mapsto> balance)\<rparr>;
         s = s\<lparr>lp_total_supply := (lp_total_supply s)(pool_id \<mapsto> lp_supply pool)\<rparr>
     in (Ok (lp_mint, pool), publish [SS ''amm'', SS ''liq_add'']
           [SU pool_id, SA provider, SI amount_a, SI amount_b, SI lp_mint] s))"

definition add_liquidity :: "env \<Rightarrow> address \<Rightarrow> u64 \<Rightarrow> i128 \<Rightarrow> i128 \<Rightarrow> 'a amm_store_scheme
    \<Rightarrow> (AmmError, i128 \<times> LiquidityPool) outcome \<times> 'a amm_store_scheme" where
  "add_liquidity env provider pool_id amount_a amount_b =
     with_guard amm_from_reentrancy (add_liquidity_unguarded env provider pool_id amount_a amount_b)"

definition remove_liquidity_unguarded :: "env \<Rightarrow> address \<Rightarrow> u64 \<Rightarrow> i128 \<Rightarrow> 'a amm_store_scheme
    \<Rightarrow> (AmmError, i128 \<times> i128) outcome \<times> 'a amm_store_scheme" where
  "remove_liquidity_unguarded env provider pool_id lp_amount s =
    (if \<not> auth env provider then (Panic, s)
     else if lp_amount \<le> 0 then (Err AmmError.InvalidAmount, s)
     else case amm_pool s pool_id of
       None \<Rightarrow> (Err AmmError.PoolNotFound, s)
     | Some pool \<Rightarrow>
     let current_balance = unwrap_or (lp_balance s (pool_id, provider)) 0 in
     if current_balance < lp_amount then (Err AmmError.InsufficientLpTokens, s)
     else if lp_supply pool \<le> 0 then (Err AmmError.ZeroLiquidity, s)
     else case Option.bind (ck (lp_amount * lp_reserve_a pool)) (\<lambda>p. tdiv p (lp_supply pool)) of
       None \<Rightarrow> (Panic, s)
     | Some share_a \<Rightarrow>
     case Option.bind (ck (lp_amount * lp_reserve_b pool)) (\<lambda>p. tdiv p (lp_supply pool)) of
       None \<Rightarrow> (Panic, s)
     | Some share_b \<Rightarrow>
     case ck (lp_reserve_a pool - share_a) of
       None \<Rightarrow> (Err AmmError.InsufficientLiquidity, s)
     | Some reserve_a \<Rightarrow>
     case ck (lp_reserve_b pool - share_b) of
       None \<Rightarrow> (Err AmmError.InsufficientLiquidity, s)
     | Some reserve_b \<Rightarrow>
     case ck (lp_supply pool - lp_amount) of
       None \<Rightarrow> (Err AmmError.InvalidAmount, s)
     | Some supply \<Rightarrow>
     let pool = pool\<lparr>lp_reserve_a := reserve_a, lp_reserve_b := reserve_b, lp_supply := supply\<rparr>;
         s = s\<lparr>amm_pool := (amm_pool s)(pool_id \<mapsto> pool)\<rparr> in
     case ck (current_balance - lp_amount) of
       None \<Rightarrow> (Panic, s)
     | Some balance \<Rightarrow>
     let s = s\<lparr>lp_balance := (lp_balance s)((pool_id, provider) \<mapsto> balance)\<rparr>;
         s = s\<lparr>lp_total_supply := (lp_total_supply s)(pool_id \<mapsto> lp_supply pool)\<rparr>
     in (Ok (share_a, share_b), publish [SS ''amm'', SS ''liq_rem'']
           [SU pool_id, SA provider, SI lp_amount, SI share_a, SI share_b] s))"

definition remove_liquidity :: "env \<Rightarrow> address \<Rightarrow> u64 \<Rightarrow> i128 \<Rightarrow> 'a amm_store_scheme
    \<Rightarrow> (AmmError, i128 \<times> i128) outcome \<times> 'a amm_store_scheme" where
  "remove_liquidity env provider pool_id lp_amount =
     with_guard amm_from_reentrancy (remove_liquidity_unguarded env provider pool_id lp_amount)"

section \<open>Model: swaps\<close>

text \<open>One hop: the pool with its two reserves moved, the resource that comes out, and the amount.\<close>

definition swap_hop :: "u64 \<Rightarrow> symbol \<Rightarrow> i128 \<Rightarrow> 'a amm_store_scheme
    \<Rightarrow> (AmmError, symbol \<times> i128) outcome \<times> 'a amm_store_scheme" where
  "swap_hop pool_id current_resource current_amount s = (case amm_pool s pool_id of
     None \<Rightarrow> (Err AmmError.PoolNotFound, s)
   | Some pool \<Rightarrow>
   case (if lp_resource_a pool = current_resource then Some (lp_reserve_a pool, lp_reserve_b pool)
         else if lp_resource_b pool = current_resource then Some (lp_reserve_b pool, lp_reserve_a pool)
         else None) of
     None \<Rightarrow> (Err AmmError.InvalidRoute, s)
   | Some (reserve_in, reserve_out) \<Rightarrow>
   if reserve_in \<le> 0 \<or> reserve_out \<le> 0 then (Err AmmError.InsufficientLiquidity, s)
   else case get_output_amount current_amount reserve_in reserve_out (lp_fee_bps pool) of
     None \<Rightarrow> (Panic, s)
   | Some out \<Rightarrow>
   if out \<le> 0 then (Err AmmError.InsufficientLiquidity, s)
   else case ck (reserve_in + current_amount) of
     None \<Rightarrow> (Err AmmError.InvalidAmount, s)
   | Some new_in \<Rightarrow>
   case ck (reserve_out - out) of
     None \<Rightarrow> (Err AmmError.InsufficientLiquidity, s)
   | Some new_out \<Rightarrow>
   let (updated_pool, next_resource) =
         (if lp_resource_a pool = current_resource
          then (pool\<lparr>lp_reserve_a := new_in, lp_reserve_b := new_out\<rparr>, lp_resource_b pool)
          else (pool\<lparr>lp_reserve_b := new_in, lp_reserve_a := new_out\<rparr>, lp_resource_a pool));
       s = s\<lparr>amm_pool := (amm_pool s)(pool_id \<mapsto> updated_pool)\<rparr>
   in (Ok (next_resource, out), s))"

fun swap_route :: "u64 list \<Rightarrow> symbol \<Rightarrow> i128 \<Rightarrow> 'a amm_store_scheme
    \<Rightarrow> (AmmError, symbol \<times> i128) outcome \<times> 'a amm_store_scheme" where
  "swap_route [] current_resource current_amount s = (Ok (current_resource, current_amount), s)"
| "swap_route (pool_id # route) current_resource current_amount s =
     and_then (swap_hop pool_id current_resource current_amount s) (\<lambda>(next_resource, out) s.
       swap_route route next_resource out s)"

text \<open>The progressive fee on the output goes back into the last pool of the route.\<close>

definition return_fee :: "u64 \<Rightarrow> symbol \<Rightarrow> i128 \<Rightarrow> 'a amm_store_scheme
    \<Rightarrow> (AmmError, unit) outcome \<times> 'a amm_store_scheme" where
  "return_fee last_pool_id current_resource fee s = (case amm_pool s last_pool_id of
     None \<Rightarrow> (Err AmmError.PoolNotFound, s)
   | Some last_pool \<Rightarrow>
       if lp_resource_a last_pool = current_resource then
         case ck (lp_reserve_a last_pool + fee) of
           None \<Rightarrow> (Err AmmError.InvalidAmount, s)
         | Some r \<Rightarrow> (Ok (), s\<lparr>amm_pool := (amm_pool s)(last_pool_id \<mapsto> last_pool\<lparr>lp_reserve_a := r\<rparr>)\<rparr>)
       else
         case ck (lp_reserve_b last_pool + fee) of
           None \<Rightarrow> (Err AmmError.InvalidAmount, s)
         | Some r \<Rightarrow> (Ok (), s\<lparr>amm_pool := (amm_pool s)(last_pool_id \<mapsto> last_pool\<lparr>lp_reserve_b := r\<rparr>)\<rparr>))"

text \<open>The tail of a swap: charge the progressive fee, check the slippage bound, publish.\<close>

definition finish_swap :: "env \<Rightarrow> address \<Rightarrow> symbol \<Rightarrow> i128 \<Rightarrow> i128 \<Rightarrow> u64 list \<Rightarrow> symbol \<Rightarrow> i128 \<Rightarrow> 'a amm_store_scheme
    \<Rightarrow> (AmmError, i128) outcome \<times> 'a amm_store_scheme" where
  "finish_swap env trader resource_in amount_in min_amount_out route current_resource current_amount s =
     and_then (map_err (\<lambda>_. AmmError.InvalidAmount)
         (charge_progressive_fee env trader
           (if 0 \<le> current_amount \<and> current_amount \<le> int u64_max then nat current_amount else u64_max) s)) (\<lambda>fee_units s.
     let fee = min (int fee_units) current_amount in
     and_then (if fee_units > 0 then return_fee (last route) current_resource fee s else (Ok (), s)) (\<lambda>_ s.
     let current_amount = (if fee_units > 0 then current_amount - fee else current_amount) in
     if current_amount < min_amount_out then (Err AmmError.SlippageExceeded, s)
     else (Ok current_amount, publish [SS ''amm'', SS ''swap'']
            [SA trader, SS resource_in, SI amount_in, SS current_resource, SI current_amount] s)))"

definition swap_exact_input :: "env \<Rightarrow> address \<Rightarrow> symbol \<Rightarrow> i128 \<Rightarrow> i128 \<Rightarrow> u64 list \<Rightarrow> 'a amm_store_scheme
    \<Rightarrow> (AmmError, i128) outcome \<times> 'a amm_store_scheme" where
  "swap_exact_input env trader resource_in amount_in min_amount_out route s =
    (if \<not> auth env trader then (Panic, s)
     else if amount_in \<le> 0 then (Err AmmError.InvalidAmount, s)
     else if route = [] \<or> length route > AMM_MAX_ROUTE_HOPS then (Err AmmError.InvalidRoute, s)
     else and_then (map_err (\<lambda>_. AmmError.DailyTradeCapExceeded) (check_operation env trader Trade 1 s)) (\<lambda>_.
       with_guard amm_from_reentrancy (\<lambda>s.
         and_then (swap_route route resource_in amount_in s) (\<lambda>(current_resource, current_amount).
           finish_swap env trader resource_in amount_in min_amount_out route current_resource current_amount))))"

definition get_pool :: "u64 \<Rightarrow> 'a amm_store_scheme \<Rightarrow> LiquidityPool option" where
  "get_pool pool_id s = amm_pool s pool_id"

definition get_lp_balance :: "u64 \<Rightarrow> address \<Rightarrow> 'a amm_store_scheme \<Rightarrow> i128" where
  "get_lp_balance pool_id provider s = unwrap_or (lp_balance s (pool_id, provider)) 0"

definition get_all_pools :: "'a amm_store_scheme \<Rightarrow> u64 list" where
  "get_all_pools s = unwrap_or (pool_list s) []"

definition quote_swap :: "u64 \<Rightarrow> symbol \<Rightarrow> i128 \<Rightarrow> 'a amm_store_scheme \<Rightarrow> (AmmError, i128) outcome" where
  "quote_swap pool_id resource_in amount_in s =
    (if amount_in \<le> 0 then Err AmmError.InvalidAmount
     else case amm_pool s pool_id of
       None \<Rightarrow> Err AmmError.PoolNotFound
     | Some pool \<Rightarrow>
     case (if lp_resource_a pool = resource_in then Some (lp_reserve_a pool, lp_reserve_b pool)
           else if lp_resource_b pool = resource_in then Some (lp_reserve_b pool, lp_reserve_a pool)
           else None) of
       None \<Rightarrow> Err AmmError.InvalidRoute
     | Some (reserve_in, reserve_out) \<Rightarrow>
     if reserve_in \<le> 0 \<or> reserve_out \<le> 0 then Err AmmError.InsufficientLiquidity
     else case get_output_amount amount_in reserve_in reserve_out (lp_fee_bps pool) of
       None \<Rightarrow> Panic
     | Some out \<Rightarrow> Ok out)"

section \<open>Arithmetic lemmas\<close>

lemma tdiv_Some: "0 \<le> a \<Longrightarrow> 0 < b \<Longrightarrow> tdiv a b = Some c \<Longrightarrow> c = a div b"
  by (auto simp: tdiv_def sdiv_nonneg split: if_splits)

lemma tdiv_zero [simp]: "tdiv a 0 = None"
  by (simp add: tdiv_def)

lemma fee_part: "0 \<le> a \<Longrightarrow> f \<le> 10000 \<Longrightarrow> 0 \<le> a * int f div 10000 \<and> a * int f div 10000 \<le> a"
proof -
  assume a: "0 \<le> a" and f: "f \<le> 10000"
  have "a * int f \<le> a * 10000" using a f by (intro mult_left_mono) auto
  then have "a * int f div 10000 \<le> a * 10000 div 10000" by (rule zdiv_mono1) simp
  with a show ?thesis by (simp add: pos_imp_zdiv_nonneg_iff)
qed

lemma output_Some:
  assumes "get_output_amount a ri ro f = Some out" "0 < a" "0 < ri" "0 < ro" "f \<le> 10000"
  shows "\<exists>x. 0 \<le> x \<and> x \<le> a \<and> out = x * ro div (ri + x)"
proof -
  have f: "0 \<le> a * int f div 10000" "a * int f div 10000 \<le> a" using fee_part[of a f] assms by auto
  let ?x = "a - a * int f div 10000"
  have "0 \<le> a * int f" using assms by simp
  then have "tdiv (?x * ro) (ri + ?x) = Some out"
    using assms(1) tdiv_Some[of "a * int f" 10000] by (auto simp: get_output_amount_def bind_eq_Some_conv)
  then have "out = ?x * ro div (ri + ?x)" using f assms by (intro tdiv_Some) auto
  with f show ?thesis by (intro exI[of _ ?x]) auto
qed

lemma output_bounds:
  fixes ri ro :: int
  assumes "0 \<le> x" "x \<le> a" "0 < ri" "0 < ro" "out = x * ro div (ri + x)"
  shows "0 \<le> out" "out < ro" "ri * ro \<le> (ri + a) * (ro - out)"
proof -
  have pos: "0 < ri + x" using assms by simp
  have "0 \<le> x * ro" using assms by simp
  then show "0 \<le> out" unfolding assms(5) using pos by (simp add: pos_imp_zdiv_nonneg_iff)
  have le: "(ri + x) * out \<le> x * ro"
    unfolding assms(5) using pos by (metis mult.commute div_mult_mod_eq add.commute le_add_same_cancel2 pos_mod_sign)
  have "x * ro < (ri + x) * ro" using assms by (simp add: distrib_right)
  with le have "(ri + x) * out < (ri + x) * ro" by linarith
  then show lt: "out < ro" using pos by simp
  have "ri * ro \<le> (ri + x) * (ro - out)" using le by (simp add: algebra_simps)
  also have "\<dots> \<le> (ri + a) * (ro - out)" using assms lt by (intro mult_right_mono) auto
  finally show "ri * ro \<le> (ri + a) * (ro - out)" .
qed

subsection \<open>The square root\<close>

lemma sqrt_closure_correct:
  assumes "0 < x" "x \<le> nat i128_max" "x \<noteq> 2"
  shows "\<exists>q. sqrt_closure x = Some q \<and> q * q \<le> x \<and> x < Suc q * Suc q"
proof (cases "x = 1")
  case True
  then show ?thesis by (simp add: sqrt_closure_def newton_loop.simps)
next
  case False
  then have "x div 2 + 1 < x" using assms by linarith
  moreover have "x < Suc (x div 2 + 1) * Suc (x div 2 + 1)"
  proof -
    have "x < 2 * Suc (x div 2 + 1)" by presburger
    also have "\<dots> \<le> Suc (x div 2 + 1) * Suc (x div 2 + 1)" by simp
    finally show ?thesis .
  qed
  moreover have "x < Suc x * Suc x" by simp
  ultimately show ?thesis unfolding sqrt_closure_def using assms by (intro newton_loop_correct) auto
qed

lemma sqrt_closure_two: "sqrt_closure 2 = Some 2"
  by (simp add: sqrt_closure_def newton_loop.simps)

lemma sqrt_closure_Some: "0 < x \<Longrightarrow> x \<le> nat i128_max \<Longrightarrow> \<exists>q. sqrt_closure x = Some q \<and> 0 < q"
proof (cases "x = 2")
  case False
  assume x: "0 < x" "x \<le> nat i128_max"
  obtain q where q: "sqrt_closure x = Some q" "x < Suc q * Suc q" using sqrt_closure_correct[OF x False] by blast
  have "0 < q" using x(1) q(2) by (cases q) auto
  with q(1) show ?thesis by blast
qed (simp add: sqrt_closure_two)

section \<open>Pools that only grow\<close>

text \<open>How a swap may change a pool: it keeps the pair, the fee and the LP supply, keeps both
  reserves positive, and never lowers the product of the reserves.\<close>

definition pool_grows :: "LiquidityPool \<Rightarrow> LiquidityPool \<Rightarrow> bool" where
  "pool_grows p q \<longleftrightarrow> lp_pool_id q = lp_pool_id p \<and> lp_resource_a q = lp_resource_a p \<and> lp_resource_b q = lp_resource_b p \<and>
     lp_supply q = lp_supply p \<and> lp_fee_bps q = lp_fee_bps p \<and>
     (p = q \<or> 0 < lp_reserve_a p \<and> 0 < lp_reserve_b p \<and> 0 < lp_reserve_a q \<and> 0 < lp_reserve_b q \<and>
        in_i128 (lp_reserve_a q) \<and> in_i128 (lp_reserve_b q) \<and>
        lp_reserve_a p * lp_reserve_b p \<le> lp_reserve_a q * lp_reserve_b q)"

definition pools_grow :: "(u64 \<rightharpoonup> LiquidityPool) \<Rightarrow> (u64 \<rightharpoonup> LiquidityPool) \<Rightarrow> bool" where
  "pools_grow m m' \<longleftrightarrow> (\<forall>i. rel_option pool_grows (m i) (m' i))"

lemma pool_grows_refl [simp]: "pool_grows p p"
  by (simp add: pool_grows_def)

lemma pool_grows_trans: "pool_grows p q \<Longrightarrow> pool_grows q r \<Longrightarrow> pool_grows p r"
proof (cases "p = q \<or> q = r")
  case False
  assume "pool_grows p q" "pool_grows q r"
  with False show ?thesis unfolding pool_grows_def using order_trans by auto
qed auto

lemma pools_grow_refl [simp]: "pools_grow m m"
  by (simp add: pools_grow_def option.rel_refl)

lemma pools_grow_Some: "pools_grow m m' \<Longrightarrow> m i = Some p \<Longrightarrow> \<exists>q. m' i = Some q \<and> pool_grows p q"
  unfolding pools_grow_def by (metis option_rel_Some1)

lemma pools_grow_back: "pools_grow m m' \<Longrightarrow> m' i = Some q \<Longrightarrow> \<exists>p. m i = Some p \<and> pool_grows p q"
  unfolding pools_grow_def by (metis option_rel_Some2)

lemma pools_grow_trans: "pools_grow a b \<Longrightarrow> pools_grow b c \<Longrightarrow> pools_grow a c"
proof -
  assume ab: "pools_grow a b" and bc: "pools_grow b c"
  have "rel_option pool_grows (a i) (c i)" for i
  proof (cases "a i")
    case None
    then show ?thesis using ab bc unfolding pools_grow_def by (metis rel_option_None1)
  next
    case (Some p)
    then show ?thesis using pools_grow_Some[OF ab Some] pools_grow_Some[OF bc] pool_grows_trans by fastforce
  qed
  then show ?thesis by (simp add: pools_grow_def)
qed

lemma pools_grow_upd: "m i = Some p \<Longrightarrow> pool_grows p q \<Longrightarrow> pools_grow m (m(i \<mapsto> q))"
  by (auto simp: pools_grow_def option.rel_refl)

definition fees_ok :: "(u64 \<rightharpoonup> LiquidityPool) \<Rightarrow> bool" where
  "fees_ok m \<longleftrightarrow> (\<forall>i p. m i = Some p \<longrightarrow> lp_fee_bps p \<le> 10000)"

lemma fees_ok_grow: "pools_grow m m' \<Longrightarrow> fees_ok m \<Longrightarrow> fees_ok m'"
  using pools_grow_back[of m m'] by (fastforce simp: fees_ok_def pool_grows_def)

lemma publish_amm_store [simp]:
  "amm_pool (publish t d s) = amm_pool s" "pool_counter (publish t d s) = pool_counter s"
  "lp_balance (publish t d s) = lp_balance s" "lp_total_supply (publish t d s) = lp_total_supply s"
  "pool_list (publish t d s) = pool_list s"
  by (simp_all add: publish_def)

lemma swap_hop_grows:
  assumes "swap_hop i res amt s = (Ok (res', out), s')" "0 < amt" "fees_ok (amm_pool s)"
  shows "pools_grow (amm_pool s) (amm_pool s') \<and> 0 < out \<and> s' = s\<lparr>amm_pool := amm_pool s'\<rparr> \<and>
    (\<exists>q. amm_pool s' i = Some q \<and> 0 < lp_reserve_a q \<and> 0 < lp_reserve_b q \<and> in_i128 (lp_reserve_a q) \<and> in_i128 (lp_reserve_b q))"
proof -
  from assms(1) obtain p ri ro ni no q where p: "amm_pool s i = Some p"
      and dir: "(if lp_resource_a p = res then Some (lp_reserve_a p, lp_reserve_b p)
         else if lp_resource_b p = res then Some (lp_reserve_b p, lp_reserve_a p) else None) = Some (ri, ro)"
      and pos: "0 < ri" "0 < ro" and out: "get_output_amount amt ri ro (lp_fee_bps p) = Some out" "0 < out"
      and rng: "in_i128 (ri + amt)" "in_i128 (ro - out)"
      and q: "q = (if lp_resource_a p = res then p\<lparr>lp_reserve_a := ri + amt, lp_reserve_b := ro - out\<rparr>
          else p\<lparr>lp_reserve_b := ri + amt, lp_reserve_a := ro - out\<rparr>)"
      and s': "s' = s\<lparr>amm_pool := (amm_pool s)(i \<mapsto> q)\<rparr>"
    by (auto simp: swap_hop_def ok_rules Let_def not_le split: prod.splits if_splits split del: if_split)
  have "lp_fee_bps p \<le> 10000" using assms(3) p by (simp add: fees_ok_def)
  then obtain x where "0 \<le> x" "x \<le> amt" "out = x * ro div (ri + x)" using output_Some[OF out(1) assms(2) pos] by blast
  note b = output_bounds[OF this(1,2) pos this(3)]
  have "pool_grows p q"
    using dir pos b rng assms(2) unfolding q pool_grows_def by (auto simp: mult.commute split: if_splits)
  moreover have "0 < lp_reserve_a q \<and> 0 < lp_reserve_b q \<and> in_i128 (lp_reserve_a q) \<and> in_i128 (lp_reserve_b q)"
    using pos b rng assms(2) unfolding q by (auto split: if_splits)
  ultimately show ?thesis unfolding s' using p out(2) by (auto intro: pools_grow_upd)
qed

lemma swap_route_grows:
  "swap_route route res amt s = (Ok (res', out), s') \<Longrightarrow> 0 < amt \<Longrightarrow> fees_ok (amm_pool s) \<Longrightarrow>
   pools_grow (amm_pool s) (amm_pool s') \<and> 0 < out \<and> s' = s\<lparr>amm_pool := amm_pool s'\<rparr>"
proof (induction route arbitrary: res amt s)
  case (Cons i route)
  then obtain r1 o1 s1 where hop: "swap_hop i res amt s = (Ok (r1, o1), s1)" and rest: "swap_route route r1 o1 s1 = (Ok (res', out), s')"
    by (auto simp: ok_rules)
  note 1 = swap_hop_grows[OF hop Cons.prems(2,3)]
  note 2 = Cons.IH[OF rest, OF conjunct1[OF conjunct2[OF 1]] fees_ok_grow[OF conjunct1[OF 1] Cons.prems(3)]]
  have "s' = s\<lparr>amm_pool := amm_pool s'\<rparr>" using 1 2 by (metis amm_store.surjective amm_store.update_convs(1))
  with 1 2 show ?case using pools_grow_trans by blast
qed simp

lemma return_fee_grows:
  assumes "return_fee i res fee s = (Ok u, s')" "0 \<le> fee" "\<And>p. amm_pool s i = Some p \<Longrightarrow> 0 < lp_reserve_a p \<and> 0 < lp_reserve_b p \<and>
      in_i128 (lp_reserve_a p) \<and> in_i128 (lp_reserve_b p)"
  shows "pools_grow (amm_pool s) (amm_pool s') \<and> s' = s\<lparr>amm_pool := amm_pool s'\<rparr>"
proof -
  from assms(1) obtain p q where p: "amm_pool s i = Some p" and s': "s' = s\<lparr>amm_pool := (amm_pool s)(i \<mapsto> q)\<rparr>" and
      q: "q = p\<lparr>lp_reserve_a := lp_reserve_a p + fee\<rparr> \<and> in_i128 (lp_reserve_a p + fee) \<or>
         q = p\<lparr>lp_reserve_b := lp_reserve_b p + fee\<rparr> \<and> in_i128 (lp_reserve_b p + fee)"
    by (auto simp: return_fee_def ok_rules split: if_splits)
  have "pool_grows p q" using q assms(2) assms(3)[OF p] unfolding pool_grows_def
    by (auto intro: mult_right_mono mult_left_mono)
  with p show ?thesis by (auto simp: s' intro: pools_grow_upd)
qed

lemma check_operation_amm [frame]:
  assumes "check_operation env u k n s = (Ok r, s')"
  shows "amm_pool s' = amm_pool s" "pool_counter s' = pool_counter s" "lp_balance s' = lp_balance s"
    "lp_total_supply s' = lp_total_supply s" "pool_list s' = pool_list s" "is_locked s' = is_locked s"
  using assms by (auto simp: check_operation_Ok add_activity_with_def is_locked_def split: if_splits)

lemma charge_fee_amm [frame]:
  assumes "charge_progressive_fee env u n s = (Ok r, s')"
  shows "amm_pool s' = amm_pool s" "pool_counter s' = pool_counter s" "lp_balance s' = lp_balance s"
    "lp_total_supply s' = lp_total_supply s" "pool_list s' = pool_list s"
  using assms by (auto simp: charge_progressive_fee_def record_trade_volume_with_def update_impact_def Let_def ok_rules
      split: if_splits option.splits)

text \<open>What a successful swap does to the market.\<close>

lemma last_hop_positive:
  "swap_route route res amt s = (Ok (res', out), s') \<Longrightarrow> route \<noteq> [] \<Longrightarrow> 0 < amt \<Longrightarrow> fees_ok (amm_pool s) \<Longrightarrow>
   \<exists>p. amm_pool s' (last route) = Some p \<and> 0 < lp_reserve_a p \<and> 0 < lp_reserve_b p \<and> in_i128 (lp_reserve_a p) \<and> in_i128 (lp_reserve_b p)"
proof (induction route arbitrary: res amt s)
  case (Cons i route)
  then obtain r1 o1 s1 where hop: "swap_hop i res amt s = (Ok (r1, o1), s1)" and rest: "swap_route route r1 o1 s1 = (Ok (res', out), s')"
    by (auto simp: ok_rules)
  note g = swap_hop_grows[OF hop Cons.prems(3,4)]
  show ?case
  proof (cases "route = []")
    case True
    then show ?thesis using rest g by auto
  next
    case False
    then show ?thesis using Cons.IH[OF rest False] g fees_ok_grow[of "amm_pool s" "amm_pool s1"] Cons.prems(4) by simp
  qed
qed simp

lemma finish_swap_Ok:
  assumes ok: "finish_swap env tr res amt mn route r a s = (Ok out, s')" and a: "0 < a"
    and last: "\<And>p. amm_pool s (last route) = Some p \<Longrightarrow> 0 < lp_reserve_a p \<and> 0 < lp_reserve_b p \<and>
      in_i128 (lp_reserve_a p) \<and> in_i128 (lp_reserve_b p)"
  shows "mn \<le> out \<and> 0 \<le> out \<and> out \<le> a \<and> pools_grow (amm_pool s) (amm_pool s') \<and> pool_counter s' = pool_counter s \<and>
    lp_balance s' = lp_balance s \<and> lp_total_supply s' = lp_total_supply s \<and> pool_list s' = pool_list s"
proof -
  from ok obtain units s1 s2 where charge: "charge_progressive_fee env tr (if 0 \<le> a \<and> a \<le> int u64_max then nat a else u64_max) s = (Ok units, s1)"
      and ret: "(if units > 0 then return_fee (last route) r (min (int units) a) s1 else (Ok (), s1)) = (Ok (), s2)"
      and out: "out = (if units > 0 then a - min (int units) a else a)" "mn \<le> out"
      and s': "s' = publish [SS ''amm'', SS ''swap''] [SA tr, SS res, SI amt, SS r, SI out] s2"
    by (auto simp: finish_swap_def ok_rules Let_def not_less split del: if_split)
  note c = charge_fee_amm[OF charge]
  have "pools_grow (amm_pool s1) (amm_pool s2) \<and> s2 = s1\<lparr>amm_pool := amm_pool s2\<rparr>"
  proof (cases "units > 0")
    case True
    then show ?thesis using ret return_fee_grows[of "last route" r "min (int units) a" s1 "()" s2] last a by (simp add: c)
  next
    case False
    then show ?thesis using ret by simp
  qed
  then have g: "pools_grow (amm_pool s1) (amm_pool s2)" and s2: "s2 = s1\<lparr>amm_pool := amm_pool s2\<rparr>" by auto
  have rest: "pool_counter s2 = pool_counter s1" "lp_balance s2 = lp_balance s1" "lp_total_supply s2 = lp_total_supply s1"
      "pool_list s2 = pool_list s1" by (subst s2, simp)+
  show ?thesis using g rest out a unfolding s' by (simp add: c)
qed

lemma swap_Ok:
  assumes ok: "swap_exact_input env tr res amt mn route s = (Ok out, s')" and fees: "fees_ok (amm_pool s)"
  shows "auth env tr \<and> 0 < amt \<and> 0 < length route \<and> length route \<le> AMM_MAX_ROUTE_HOPS \<and> mn \<le> out \<and> 0 \<le> out \<and>
    pools_grow (amm_pool s) (amm_pool s') \<and> pool_counter s' = pool_counter s \<and> lp_balance s' = lp_balance s \<and>
    lp_total_supply s' = lp_total_supply s \<and> pool_list s' = pool_list s \<and> \<not> is_locked s'"
proof -
  from ok obtain s1 r a s2 s3 where pre: "auth env tr" "0 < amt" "route \<noteq> []" "length route \<le> AMM_MAX_ROUTE_HOPS"
      and op: "check_operation env tr Trade 1 s = (Ok (), s1)"
      and route: "swap_route route res amt (s1\<lparr>guard_lock := Some True\<rparr>) = (Ok (r, a), s2)"
      and fin: "finish_swap env tr res amt mn route r a s2 = (Ok out, s3)" and s': "s' = s3\<lparr>guard_lock := Some False\<rparr>"
    by (auto simp: swap_exact_input_def ok_rules not_le not_less split: prod.splits split del: if_split)
  note c = check_operation_amm[OF op]
  have fees1: "fees_ok (amm_pool (s1\<lparr>guard_lock := Some True\<rparr>))" using fees by (simp add: c)
  note g = swap_route_grows[OF route pre(2) fees1] and lst = last_hop_positive[OF route pre(3,2) fees1]
  have s2: "s2 = s1\<lparr>guard_lock := Some True, amm_pool := amm_pool s2\<rparr>" using g by simp
  have keep: "pool_counter s2 = pool_counter s" "lp_balance s2 = lp_balance s" "lp_total_supply s2 = lp_total_supply s"
      "pool_list s2 = pool_list s" by (subst s2, simp add: c)+
  note f = finish_swap_Ok[OF fin conjunct1[OF conjunct2[OF g]]]
  have "pools_grow (amm_pool s) (amm_pool s2)" using g by (simp add: c)
  with f lst pre keep show ?thesis unfolding s' by (auto intro: pools_grow_trans)
qed

section \<open>Invariant and steps\<close>

definition pool_ok :: "u64 \<Rightarrow> LiquidityPool \<Rightarrow> bool" where
  "pool_ok i p \<longleftrightarrow> lp_pool_id p = i \<and> lp_resource_a p \<noteq> lp_resource_b p \<and> lp_fee_bps p = SWAP_FEE_BPS \<and>
     0 \<le> lp_reserve_a p \<and> 0 \<le> lp_reserve_b p \<and> 0 \<le> lp_supply p \<and>
     (lp_supply p = 0 \<longleftrightarrow> lp_reserve_a p = 0) \<and> (lp_supply p = 0 \<longleftrightarrow> lp_reserve_b p = 0)"

definition pool_pair :: "LiquidityPool \<Rightarrow> symbol set" where
  "pool_pair p = {lp_resource_a p, lp_resource_b p}"

definition lp_ok :: "(u64 \<rightharpoonup> LiquidityPool) \<Rightarrow> ((u64 \<times> address) \<rightharpoonup> i128) \<Rightarrow> (u64 \<rightharpoonup> i128) \<Rightarrow> bool" where
  "lp_ok pools bal tot \<longleftrightarrow> (\<forall>i. finite (dom (\<lambda>a. bal (i, a))) \<and> (\<forall>a. 0 \<le> unwrap_or (bal (i, a)) 0) \<and>
     msum (\<lambda>a. bal (i, a)) = (case pools i of None \<Rightarrow> 0 | Some p \<Rightarrow> lp_supply p) \<and>
     unwrap_or (tot i) 0 = (case pools i of None \<Rightarrow> 0 | Some p \<Rightarrow> lp_supply p))"

definition amm_inv :: "'a amm_store_scheme \<Rightarrow> bool" where
  "amm_inv s \<longleftrightarrow> tbl_ok pool_ok (unwrap_or (pool_counter s) 0) (amm_pool s) \<and>
     set (get_all_pools s) = dom (amm_pool s) \<and> distinct (get_all_pools s) \<and>
     (\<forall>i j p q. amm_pool s i = Some p \<longrightarrow> amm_pool s j = Some q \<longrightarrow> pool_pair p = pool_pair q \<longrightarrow> i = j) \<and>
     lp_ok (amm_pool s) (lp_balance s) (lp_total_supply s)"

inductive amm_step :: "env \<Rightarrow> 'a amm_store_scheme \<Rightarrow> 'a amm_store_scheme \<Rightarrow> bool" for env where
  create: "commits (create_pool env c ra rb) s s' \<Longrightarrow> amm_step env s s'"
| add: "commits (add_liquidity env p i a b) s s' \<Longrightarrow> amm_step env s s'"
| remove: "commits (remove_liquidity env p i n) s s' \<Longrightarrow> amm_step env s s'"
| swap: "commits (swap_exact_input env t r a m route) s s' \<Longrightarrow> amm_step env s s'"

lemma amm_inv_get: "amm_inv s \<Longrightarrow> amm_pool s i = Some p \<Longrightarrow> pool_ok i p"
  by (auto simp: amm_inv_def intro: tbl_ok_get)

lemma amm_inv_unique: "amm_inv s \<Longrightarrow> amm_pool s i = Some p \<Longrightarrow> amm_pool s j = Some q \<Longrightarrow> pool_pair p = pool_pair q \<Longrightarrow> i = j"
  by (simp add: amm_inv_def)

lemma amm_inv_fees: "amm_inv s \<Longrightarrow> fees_ok (amm_pool s)"
  by (auto simp: fees_ok_def pool_ok_def dest!: amm_inv_get)

lemma pool_ok_grows: "pool_grows p q \<Longrightarrow> pool_ok i p \<Longrightarrow> pool_ok i q \<and> pool_pair q = pool_pair p"
  by (auto simp: pool_grows_def pool_ok_def pool_pair_def)

lemma grow_inv:
  assumes inv: "amm_inv s" and g: "pools_grow (amm_pool s) (amm_pool s')" and same: "pool_counter s' = pool_counter s"
    "lp_balance s' = lp_balance s" "lp_total_supply s' = lp_total_supply s" "pool_list s' = pool_list s"
  shows "amm_inv s'"
proof -
  have prev: "\<exists>p. amm_pool s i = Some p \<and> pool_grows p q \<and> pool_ok i q \<and> pool_pair q = pool_pair p" if "amm_pool s' i = Some q" for i q
    using pools_grow_back[OF g that] pool_ok_grows amm_inv_get[OF inv] by blast
  have none: "amm_pool s' i = None \<longleftrightarrow> amm_pool s i = None" for i
    using g unfolding pools_grow_def by (metis rel_option_None1 rel_option_None2)
  have sup: "(case amm_pool s' i of None \<Rightarrow> 0 | Some p \<Rightarrow> lp_supply p) = (case amm_pool s i of None \<Rightarrow> 0 | Some p \<Rightarrow> lp_supply p)" for i
    using none[of i] prev[of i] by (cases "amm_pool s' i") (auto simp: pool_grows_def)
  have "tbl_ok pool_ok (unwrap_or (pool_counter s) 0) (amm_pool s')"
    using inv prev unfolding amm_inv_def tbl_ok_def by meson
  moreover have "dom (amm_pool s') = dom (amm_pool s)" using none by (auto simp: dom_def)
  moreover have "i = j" if "amm_pool s' i = Some p" "amm_pool s' j = Some q" "pool_pair p = pool_pair q" for i j p q
    using prev[OF that(1)] prev[OF that(2)] that(3) inv unfolding amm_inv_def by metis
  moreover have "lp_ok (amm_pool s') (lp_balance s) (lp_total_supply s)" using inv by (simp add: amm_inv_def lp_ok_def sup)
  moreover have "set (get_all_pools s) = dom (amm_pool s)" "distinct (get_all_pools s)" using inv by (simp_all add: amm_inv_def)
  ultimately show ?thesis unfolding amm_inv_def get_all_pools_def same by simp
qed

lemma pair_exists_iff: "pair_exists pids ra rb s \<longleftrightarrow> (\<exists>i\<in>set pids. \<exists>p. amm_pool s i = Some p \<and> pool_pair p = {ra, rb})"
  by (induction pids) (auto simp: pool_pair_def doubleton_eq_iff split: option.splits)

lemma create_pool_Ok [ok_iff]: "create_pool env c ra rb s = (Ok i, s') \<longleftrightarrow> auth env c \<and> ra \<noteq> rb \<and>
    \<not> pair_exists (get_all_pools s) ra rb s \<and> i = Suc (unwrap_or (pool_counter s) 0) \<and> i \<le> u64_max \<and>
    s' = publish [SS ''amm'', SS ''pool_c''] [SU i, SS ra, SS rb]
      (s\<lparr>pool_counter := Some i, amm_pool := (amm_pool s)(i \<mapsto> \<lparr>lp_pool_id = i, lp_resource_a = ra, lp_resource_b = rb,
           lp_reserve_a = 0, lp_reserve_b = 0, lp_supply = 0, lp_fee_bps = SWAP_FEE_BPS, lp_created_at = timestamp env\<rparr>),
         pool_list := Some (get_all_pools s @ [i])\<rparr>)"
  by (simp add: create_pool_def Let_def ok_rules next_pool_id_def get_all_pools_def split del: if_split) auto

interpretation pool_ids: id_counter "\<lambda>s::'a amm_store_scheme. unwrap_or (pool_counter s) 0" next_pool_id
  by unfold_locales (auto simp: next_pool_id_def)

lemma create_pool_inv:
  assumes inv: "amm_inv s" and ok: "create_pool env c ra rb s = (Ok i, s')"
  shows "amm_inv s'"
proof -
  let ?p = "\<lparr>lp_pool_id = i, lp_resource_a = ra, lp_resource_b = rb, lp_reserve_a = 0, lp_reserve_b = 0, lp_supply = 0,
      lp_fee_bps = SWAP_FEE_BPS, lp_created_at = timestamp env\<rparr>"
  from ok have i: "i = Suc (unwrap_or (pool_counter s) 0)" and new: "\<not> pair_exists (get_all_pools s) ra rb s" "ra \<noteq> rb"
      and s': "amm_pool s' = (amm_pool s)(i \<mapsto> ?p)" "pool_counter s' = Some i" "get_all_pools s' = get_all_pools s @ [i]"
        "lp_balance s' = lp_balance s" "lp_total_supply s' = lp_total_supply s"
    by (auto simp: create_pool_Ok get_all_pools_def)
  have fresh: "amm_pool s i = None" using inv i by (auto simp: amm_inv_def intro: tbl_ok_fresh)
  have tbl: "tbl_ok pool_ok i ((amm_pool s)(i \<mapsto> ?p))"
    unfolding i by (rule tbl_ok_new) (use inv new(2) in \<open>simp_all add: amm_inv_def pool_ok_def\<close>)
  have pairs: "pool_pair p \<noteq> pool_pair ?p" if "amm_pool s j = Some p" for j p
    using that new(1) inv by (auto simp: pair_exists_iff amm_inv_def pool_pair_def)
  have lp: "lp_ok ((amm_pool s)(i \<mapsto> ?p)) (lp_balance s) (lp_total_supply s)"
    using inv fresh by (auto simp: amm_inv_def lp_ok_def)
  have uniq: "j = k" if "((amm_pool s)(i \<mapsto> ?p)) j = Some p" "((amm_pool s)(i \<mapsto> ?p)) k = Some q" "pool_pair p = pool_pair q" for j k p q
    using that amm_inv_unique[OF inv, of j p k q] pairs[of j p] pairs[of k q] by (auto split: if_splits)
  show ?thesis unfolding amm_inv_def s'
  proof (intro conjI allI impI)
    show "set (get_all_pools s @ [i]) = dom ((amm_pool s)(i \<mapsto> ?p))" "distinct (get_all_pools s @ [i])"
      using inv fresh by (auto simp: amm_inv_def)
  qed (use tbl lp uniq in \<open>simp_all only: unwrap_or_simps\<close>)
qed

text \<open>Writing one LP balance and the pool's supply together keeps the supply equal to the sum of
  the balances.\<close>

lemma lp_ok_upd:
  assumes lp: "lp_ok pools bal tot" and p: "pools i = Some p" and v: "0 \<le> v"
    and sup: "lp_supply q = lp_supply p + (v - unwrap_or (bal (i, a)) 0)"
  shows "lp_ok (pools(i \<mapsto> q)) (bal((i, a) \<mapsto> v)) (tot(i \<mapsto> lp_supply q))"
proof -
  have one: "(\<lambda>b. (bal((i, a) \<mapsto> v)) (j, b)) = (if j = i then (\<lambda>b. bal (i, b))(a \<mapsto> v) else (\<lambda>b. bal (j, b)))" for j
    by (auto simp: fun_eq_iff)
  have fin: "finite (dom (\<lambda>b. bal (i, b)))" and tot_i: "msum (\<lambda>b. bal (i, b)) = lp_supply p"
    using lp p by (auto simp: lp_ok_def dest: spec[of _ i])
  have "msum ((\<lambda>b. bal (i, b))(a \<mapsto> v)) = lp_supply q"
    using msum_upd[OF fin, of a v] tot_i sup by linarith
  then show ?thesis using lp v fin unfolding lp_ok_def one by auto
qed

lemma lp_balance_le:
  assumes "lp_ok pools bal tot" "pools i = Some p"
  shows "unwrap_or (bal (i, a)) 0 \<le> lp_supply p"
proof -
  have "unwrap_or ((\<lambda>b. bal (i, b)) a) 0 \<le> msum (\<lambda>b. bal (i, b))"
    using assms(1) by (intro msum_ge_int) (auto simp: lp_ok_def)
  moreover have "msum (\<lambda>b. bal (i, b)) = lp_supply p" using assms unfolding lp_ok_def by (metis option.simps(5))
  ultimately show ?thesis by simp
qed

text \<open>Replacing a pool by one with the same pair that is well formed.\<close>

lemma pool_upd_inv:
  assumes inv: "amm_inv s" and p: "amm_pool s i = Some p" and q: "pool_ok i q" "pool_pair q = pool_pair p"
    and s': "amm_pool s' = (amm_pool s)(i \<mapsto> q)" "pool_counter s' = pool_counter s" "get_all_pools s' = get_all_pools s"
    and lp: "lp_ok ((amm_pool s)(i \<mapsto> q)) (lp_balance s') (lp_total_supply s')"
  shows "amm_inv s'"
proof -
  have "tbl_ok pool_ok (unwrap_or (pool_counter s) 0) ((amm_pool s)(i \<mapsto> q))"
    using inv p q(1) by (auto simp: amm_inv_def intro: tbl_ok_upd)
  moreover have "dom ((amm_pool s)(i \<mapsto> q)) = dom (amm_pool s)" using p by auto
  moreover have "j = k" if "((amm_pool s)(i \<mapsto> q)) j = Some x" "((amm_pool s)(i \<mapsto> q)) k = Some y" "pool_pair x = pool_pair y" for j k x y
    using that amm_inv_unique[OF inv, of j x k y] amm_inv_unique[OF inv p, of k y] amm_inv_unique[OF inv _ p, of j x] q(2)
    by (auto split: if_splits)
  moreover have "set (get_all_pools s) = dom (amm_pool s)" "distinct (get_all_pools s)" using inv by (simp_all add: amm_inv_def)
  ultimately show ?thesis unfolding amm_inv_def s' using lp by blast
qed

section \<open>Adding and removing liquidity\<close>

text \<open>Minted shares never exceed the proportional part of either reserve.\<close>

lemma lp_mint_Some:
  assumes "calculate_lp_mint a b ra rb tot = Some m" "0 < a" "0 < b" "0 \<le> ra" "0 \<le> rb" "0 \<le> tot"
  shows "(tot = 0 \<longrightarrow> sqrt_closure (nat (a * b)) = Some (nat m) \<and> 0 \<le> m) \<and>
    (tot \<noteq> 0 \<longrightarrow> 0 < ra \<and> 0 < rb \<and> m * ra \<le> a * tot \<and> m * rb \<le> b * tot)"
proof (cases "tot = 0")
  case True
  with assms(1) show ?thesis by (auto simp: calculate_lp_mint_def bind_eq_Some_conv)
next
  case False
  then obtain sa sb where sa: "tdiv (a * tot) ra = Some sa" and sb: "tdiv (b * tot) rb = Some sb" and m: "m = (if sa < sb then sa else sb)"
    using assms(1) by (auto simp: calculate_lp_mint_def bind_eq_Some_conv)
  from sa sb have pos: "0 < ra" "0 < rb" using assms by (cases "ra = 0"; cases "rb = 0"; auto)+
  have "sa = a * tot div ra" "sb = b * tot div rb" using sa sb pos assms by (auto intro: tdiv_Some)
  then have "sa * ra \<le> a * tot" "sb * rb \<le> b * tot"
    using pos by (metis div_mult_mod_eq le_add_same_cancel1 pos_mod_sign)+
  moreover have "m * ra \<le> sa * ra" "m * rb \<le> sb * rb" using m pos by auto
  ultimately have "m * ra \<le> a * tot" "m * rb \<le> b * tot" by linarith+
  then show ?thesis using False pos by simp
qed

lemma add_liquidity_Ok [ok_iff]: "add_liquidity env pr i a b s = (Ok (m, q), s') \<longleftrightarrow>
    \<not> is_locked s \<and> auth env pr \<and> 0 < a \<and> 0 < b \<and> (\<exists>p. amm_pool s i = Some p \<and>
      calculate_lp_mint a b (lp_reserve_a p) (lp_reserve_b p) (lp_supply p) = Some m \<and> 0 < m \<and>
      in_i128 (lp_reserve_a p + a) \<and> in_i128 (lp_reserve_b p + b) \<and> in_i128 (lp_supply p + m) \<and>
      q = p\<lparr>lp_reserve_a := lp_reserve_a p + a, lp_reserve_b := lp_reserve_b p + b, lp_supply := lp_supply p + m\<rparr> \<and>
      in_i128 (get_lp_balance i pr s + m) \<and>
      s' = (publish [SS ''amm'', SS ''liq_add''] [SU i, SA pr, SI a, SI b, SI m]
        (s\<lparr>guard_lock := Some True, amm_pool := (amm_pool s)(i \<mapsto> q), lp_balance := (lp_balance s)((i, pr) \<mapsto> get_lp_balance i pr s + m),
           lp_total_supply := (lp_total_supply s)(i \<mapsto> lp_supply p + m)\<rparr>))\<lparr>guard_lock := Some False\<rparr>)"
  by (simp add: add_liquidity_def add_liquidity_unguarded_def Let_def ok_rules not_le get_lp_balance_def split del: if_split) blast

lemma remove_liquidity_Ok:
  assumes "remove_liquidity env pr i n s = (Ok (sa, sb), s')"
  shows "\<not> is_locked s \<and> auth env pr \<and> 0 < n \<and> (\<exists>p. amm_pool s i = Some p \<and> n \<le> get_lp_balance i pr s \<and> 0 < lp_supply p \<and>
      tdiv (n * lp_reserve_a p) (lp_supply p) = Some sa \<and> tdiv (n * lp_reserve_b p) (lp_supply p) = Some sb \<and>
      s' = (publish [SS ''amm'', SS ''liq_rem''] [SU i, SA pr, SI n, SI sa, SI sb]
        (s\<lparr>guard_lock := Some True, amm_pool := (amm_pool s)(i \<mapsto> p\<lparr>lp_reserve_a := lp_reserve_a p - sa,
              lp_reserve_b := lp_reserve_b p - sb, lp_supply := lp_supply p - n\<rparr>),
           lp_balance := (lp_balance s)((i, pr) \<mapsto> get_lp_balance i pr s - n),
           lp_total_supply := (lp_total_supply s)(i \<mapsto> lp_supply p - n)\<rparr>))\<lparr>guard_lock := Some False\<rparr>)"
  using assms
  by (simp add: remove_liquidity_def remove_liquidity_unguarded_def Let_def ok_rules not_le not_less get_lp_balance_def
      bind_eq_Some_conv split del: if_split) blast

text \<open>A share of a reserve is at most the reserve, and all of it only for the whole supply.\<close>

lemma share_bounds:
  assumes "0 < n" "n \<le> tot" "0 < r" "x = n * r div tot"
  shows "0 \<le> x \<and> x \<le> r \<and> x * tot \<le> n * r \<and> (x = r \<longleftrightarrow> n = (tot::int))"
proof -
  have pos: "0 < tot" using assms by simp
  have le: "x * tot \<le> n * r" unfolding assms(4) using pos by (metis div_mult_mod_eq le_add_same_cancel1 pos_mod_sign)
  have "0 \<le> x" unfolding assms(4) using assms pos by (simp add: pos_imp_zdiv_nonneg_iff)
  moreover have "n * r \<le> tot * r" using assms by simp
  then have "x * tot \<le> r * tot" using le by (simp add: mult.commute)
  then have "x \<le> r" using pos by simp
  moreover have "n = tot" if "x = r"
  proof (rule ccontr)
    assume "n \<noteq> tot"
    then have "n * r < tot * r" using assms by simp
    with le that show False by (simp add: mult.commute)
  qed
  moreover have "x = r" if "n = tot" using that pos assms(4) by simp
  ultimately show ?thesis using le by blast
qed

lemma add_inv:
  assumes inv: "amm_inv s" and ok: "add_liquidity env pr i a b s = (Ok (m, q), s')"
  shows "amm_inv s'"
proof -
  from ok obtain p where p: "amm_pool s i = Some p" and pos: "0 < a" "0 < b" "0 < m"
      and q: "q = p\<lparr>lp_reserve_a := lp_reserve_a p + a, lp_reserve_b := lp_reserve_b p + b, lp_supply := lp_supply p + m\<rparr>"
      and s': "amm_pool s' = (amm_pool s)(i \<mapsto> q)" "lp_balance s' = (lp_balance s)((i, pr) \<mapsto> get_lp_balance i pr s + m)"
        "lp_total_supply s' = (lp_total_supply s)(i \<mapsto> lp_supply q)" "pool_counter s' = pool_counter s" "get_all_pools s' = get_all_pools s"
    unfolding add_liquidity_Ok by (auto simp: get_all_pools_def)
  note pok = amm_inv_get[OF inv p]
  have lp: "lp_ok (amm_pool s) (lp_balance s) (lp_total_supply s)" using inv by (simp add: amm_inv_def)
  then have "0 \<le> get_lp_balance i pr s" by (simp add: lp_ok_def get_lp_balance_def)
  then have "lp_ok ((amm_pool s)(i \<mapsto> q)) (lp_balance s') (lp_total_supply s')"
    unfolding s' using lp p pos by (intro lp_ok_upd) (auto simp: q get_lp_balance_def)
  moreover have "pool_ok i q" "pool_pair q = pool_pair p" using pok pos by (auto simp: pool_ok_def pool_pair_def q)
  ultimately show ?thesis using pool_upd_inv[OF inv p] s' by blast
qed

lemma remove_liq_inv:
  assumes inv: "amm_inv s" and ok: "remove_liquidity env pr i n s = (Ok (sa, sb), s')"
  shows "amm_inv s'"
proof -
  from remove_liquidity_Ok[OF ok] obtain p where p: "amm_pool s i = Some p" and n: "0 < n" "n \<le> get_lp_balance i pr s" "0 < lp_supply p"
      and sh: "tdiv (n * lp_reserve_a p) (lp_supply p) = Some sa" "tdiv (n * lp_reserve_b p) (lp_supply p) = Some sb"
      and s': "amm_pool s' = (amm_pool s)(i \<mapsto> p\<lparr>lp_reserve_a := lp_reserve_a p - sa, lp_reserve_b := lp_reserve_b p - sb, lp_supply := lp_supply p - n\<rparr>)"
        "lp_balance s' = (lp_balance s)((i, pr) \<mapsto> get_lp_balance i pr s - n)"
        "lp_total_supply s' = (lp_total_supply s)(i \<mapsto> lp_supply p - n)" "pool_counter s' = pool_counter s" "get_all_pools s' = get_all_pools s"
    by (auto simp: get_all_pools_def)
  let ?q = "p\<lparr>lp_reserve_a := lp_reserve_a p - sa, lp_reserve_b := lp_reserve_b p - sb, lp_supply := lp_supply p - n\<rparr>"
  note pok = amm_inv_get[OF inv p]
  have lp: "lp_ok (amm_pool s) (lp_balance s) (lp_total_supply s)" using inv by (simp add: amm_inv_def)
  then have le: "n \<le> lp_supply p" using lp_balance_le[OF lp p, of pr] n(2) by (simp add: get_lp_balance_def)
  have ra: "0 < lp_reserve_a p" "0 < lp_reserve_b p" using pok n(3) by (auto simp: pool_ok_def)
  then have "sa = n * lp_reserve_a p div lp_supply p" "sb = n * lp_reserve_b p div lp_supply p"
    using sh n by (auto intro: tdiv_Some)
  note ba = share_bounds[OF n(1) le ra(1) this(1)] and bb = share_bounds[OF n(1) le ra(2) this(2)]
  have "lp_ok ((amm_pool s)(i \<mapsto> ?q)) (lp_balance s') ((lp_total_supply s)(i \<mapsto> lp_supply ?q))"
    unfolding s'(2) using lp p n by (intro lp_ok_upd) (auto simp: get_lp_balance_def)
  moreover have "pool_ok i ?q" "pool_pair ?q = pool_pair p" using pok ba bb le by (auto simp: pool_ok_def pool_pair_def)
  ultimately show ?thesis using pool_upd_inv[OF inv p, of ?q s'] s' by simp
qed

lemma amm_step_inv: "amm_inv s \<Longrightarrow> amm_step env s s' \<Longrightarrow> amm_inv s'"
proof (erule amm_step.cases)
  fix tr r a m route t t' assume inv: "amm_inv s" and "s = t" "s' = t'" "commits (swap_exact_input env tr r a m route) t t'"
  then obtain out where "swap_exact_input env tr r a m route s = (Ok out, s')" by (auto simp: commits_iff)
  from swap_Ok[OF this amm_inv_fees[OF inv]] show ?thesis by (intro grow_inv[OF inv]) auto
qed (auto simp: commits_iff intro: create_pool_inv add_inv remove_liq_inv)

interpretation amm: step_system "\<lambda>s s'. \<exists>env. amm_step env s s'" "amm_inv :: 'a amm_store_scheme \<Rightarrow> bool"
  by unfold_locales (auto intro: amm_step_inv)

lemma add_shares:
  assumes inv: "amm_inv s" and ok: "add_liquidity env pr i a b s = (Ok (m, q), s')"
  shows "\<exists>p. amm_pool s i = Some p \<and> pool_ok i p \<and> 0 < a \<and> 0 < b \<and> 0 < m \<and>
    q = p\<lparr>lp_reserve_a := lp_reserve_a p + a, lp_reserve_b := lp_reserve_b p + b, lp_supply := lp_supply p + m\<rparr> \<and>
    amm_pool s' i = Some q \<and> m * lp_reserve_a p \<le> a * lp_supply p \<and> m * lp_reserve_b p \<le> b * lp_supply p"
proof -
  from ok obtain p where p: "amm_pool s i = Some p" "0 < a" "0 < b" "0 < m"
      "calculate_lp_mint a b (lp_reserve_a p) (lp_reserve_b p) (lp_supply p) = Some m"
      "q = p\<lparr>lp_reserve_a := lp_reserve_a p + a, lp_reserve_b := lp_reserve_b p + b, lp_supply := lp_supply p + m\<rparr>"
      "amm_pool s' i = Some q" unfolding add_liquidity_Ok by (auto simp del: fun_upd_apply) simp
  have pok: "pool_ok i p" using amm_inv_get[OF inv p(1)] .
  then have "m * lp_reserve_a p \<le> a * lp_supply p \<and> m * lp_reserve_b p \<le> b * lp_supply p"
    using lp_mint_Some[OF p(5,2,3)] by (cases "lp_supply p = 0") (auto simp: pool_ok_def)
  with p pok show ?thesis by blast
qed

lemma share_back:
  fixes m :: int
  assumes "m * r \<le> a * t" "0 < m" "0 \<le> t"
  shows "m * (r + a) div (t + m) \<le> a"
proof -
  have "m * (r + a) \<le> a * (t + m)" using assms by (simp add: algebra_simps)
  then have "m * (r + a) div (t + m) \<le> a * (t + m) div (t + m)" using assms by (intro zdiv_mono1) auto
  then show ?thesis using assms by simp
qed

definition empty_amm :: amm_store where
  "empty_amm = order_store.extend empty_book \<lparr>amm_pool = Map.empty, pool_counter = None, lp_balance = Map.empty,
     lp_total_supply = Map.empty, pool_list = None\<rparr>"

definition ore_gas :: LiquidityPool where
  "ore_gas = \<lparr>lp_pool_id = 2, lp_resource_a = ''ore'', lp_resource_b = ''gas'', lp_reserve_a = 1000, lp_reserve_b = 4000,
     lp_supply = 2000, lp_fee_bps = SWAP_FEE_BPS, lp_created_at = 5\<rparr>"

text \<open>A market with one pool of 1000 ore and 4000 gas, all of it provided by player 1.\<close>

definition market :: amm_store where
  "market = empty_amm\<lparr>amm_pool := [2 \<mapsto> ore_gas], pool_counter := Some 2, lp_balance := [(2, Addr 1) \<mapsto> 2000],
     lp_total_supply := [2 \<mapsto> 2000], pool_list := Some [2]\<rparr>"

lemma empty_amm_lock: "guard_lock empty_amm = None"
  using empty_book_lock by (simp add: empty_amm_def order_store.defs)

lemma market_simps: "amm_pool market = [2 \<mapsto> ore_gas]" "pool_counter market = Some 2" "lp_balance market = [(2, Addr 1) \<mapsto> 2000]"
    "lp_total_supply market = [2 \<mapsto> 2000]" "get_all_pools market = [2]" "is_locked market = False"
    "aw_exempt market = Map.empty" "aw_daily_ops market = Map.empty" "aw_config market = None" "game_parameter market = Map.empty"
    "aw_daily_trade_volume market = Map.empty"
  using empty_amm_lock
  by (simp_all add: market_def get_all_pools_def is_locked_def)
    (simp_all add: empty_amm_def order_store.defs empty_book_def whale_store.defs fresh_whale_simps fresh_whale_def gov_store.defs
      no_gov_def emergency_store.defs)

lemma market_inv: "amm_inv market"
proof -
  have "(\<lambda>a. ([(2::u64, Addr 1) \<mapsto> 2000 :: i128]) (j, a)) = (if j = 2 then [Addr 1 \<mapsto> 2000] else Map.empty)" for j
    by (auto simp: fun_eq_iff)
  then have "lp_ok (amm_pool market) (lp_balance market) (lp_total_supply market)"
    unfolding market_simps lp_ok_def by (simp add: ore_gas_def msum_def)
  then show ?thesis
    by (auto simp: amm_inv_def market_simps tbl_ok_def pool_ok_def ore_gas_def split: if_splits)
qed

text \<open>The market at work: a deposit by player 2 and a swap.\<close>

lemma market_add:
  "add_liquidity (signed_at t l) (Addr 2) 2 100 500 market =
    (Ok (200, ore_gas\<lparr>lp_reserve_a := 1100, lp_reserve_b := 4500, lp_supply := 2200\<rparr>),
     (publish [SS ''amm'', SS ''liq_add''] [SU 2, SA (Addr 2), SI 100, SI 500, SI 200]
       (market\<lparr>guard_lock := Some True, amm_pool := [2 \<mapsto> ore_gas\<lparr>lp_reserve_a := 1100, lp_reserve_b := 4500, lp_supply := 2200\<rparr>],
          lp_balance := [(2, Addr 1) \<mapsto> 2000, (2, Addr 2) \<mapsto> 200], lp_total_supply := [2 \<mapsto> 2200]\<rparr>))\<lparr>guard_lock := Some False\<rparr>)"
proof -
  have "calculate_lp_mint 100 500 1000 4000 2000 = Some 200"
    by (simp add: calculate_lp_mint_def tdiv_def sdiv_nonneg ck_def in_i128_def)
  then show ?thesis unfolding add_liquidity_Ok
    by (simp add: market_simps ore_gas_def get_lp_balance_def in_i128_def)
qed

lemma market_remove:
  assumes "amm_pool s 2 = Some (ore_gas\<lparr>lp_reserve_a := 1100, lp_reserve_b := 4500, lp_supply := 2200\<rparr>)"
    and "lp_balance s (2, Addr 2) = Some 200" and "guard_lock s = Some False"
  shows "fst (remove_liquidity (signed_at t l) (Addr 2) 2 200 s) = Ok (100, 409)"
  using assms by (simp add: remove_liquidity_def remove_liquidity_unguarded_def with_guard_def acquire_def release_def is_locked_def
      ck_def in_i128_def tdiv_def sdiv_nonneg Let_def)

lemma market_effective: "effective_config market = defaults"
  by (simp add: effective_config_def get_stored_config_def gov_u64_def gov_u32_def gov_i128_def get_game_parameter_def
      market_simps defaults_def Let_def)

lemma market_swap_hop:
  "swap_hop 2 ''ore'' 100 (s::'a amm_store_scheme) =
    (Ok (''gas'', 363), s\<lparr>amm_pool := (amm_pool s)(2 \<mapsto> ore_gas\<lparr>lp_reserve_a := 1100, lp_reserve_b := 3637\<rparr>)\<rparr>)"
  if "amm_pool s 2 = Some ore_gas"
proof -
  have "get_output_amount 100 1000 4000 SWAP_FEE_BPS = Some 363"
    by (simp add: get_output_amount_def tdiv_def sdiv_nonneg ck_def in_i128_def)
  then show ?thesis using that by (simp add: swap_hop_def ore_gas_def ck_def in_i128_def)
qed

lemma market_swap: "fst (swap_exact_input (signed_at 9 4) (Addr 2) ''ore'' 100 300 [2] market) = Ok 363"
  by (simp add: swap_exact_input_def check_operation_def market_simps is_exempt_def record_operation_with_def market_effective defaults_def
      add_activity_with_def with_guard_def acquire_def release_def market_swap_hop finish_swap_def charge_progressive_fee_def
      record_trade_volume_with_def progressive_trade_fee_def fee_loop_bands saturating_add_def saturating_mul_def Let_def checked_add_def is_locked_def
      market_simps(6)[unfolded is_locked_def])

section \<open>Properties\<close>

text \<open>C10. Swaps never lower a pool's constant product. After a successful swap along any route the
  trader got at least the minimum asked for, and every pool still has its pair, fee and LP supply and a
  product of reserves at least as large as before (a pool of the route with both reserves still
  positive). One hop gives exactly the amount \<open>quote_swap\<close> announces.\<close>

theorem swap_constant_product:
  assumes inv: "amm_inv s" and swap: "swap_exact_input env tr res amt mn route s = (Ok out, s')"
  shows "mn \<le> out \<and> auth env tr \<and> length route \<le> AMM_MAX_ROUTE_HOPS
    \<and> (\<forall>i p. amm_pool s i = Some p \<longrightarrow> (\<exists>q. amm_pool s' i = Some q \<and> pool_pair q = pool_pair p \<and> lp_supply q = lp_supply p
        \<and> lp_reserve_a p * lp_reserve_b p \<le> lp_reserve_a q * lp_reserve_b q
        \<and> (p \<noteq> q \<longrightarrow> 0 < lp_reserve_a q \<and> 0 < lp_reserve_b q)))
    \<and> (\<forall>i r a r' x t. swap_hop i r a s = (Ok (r', x), t) \<and> 0 < a \<longrightarrow> quote_swap i r a s = Ok x)"
proof -
  note ok = swap_Ok[OF swap amm_inv_fees[OF inv]]
  have "\<exists>q. amm_pool s' i = Some q \<and> pool_pair q = pool_pair p \<and> lp_supply q = lp_supply p
        \<and> lp_reserve_a p * lp_reserve_b p \<le> lp_reserve_a q * lp_reserve_b q \<and> (p \<noteq> q \<longrightarrow> 0 < lp_reserve_a q \<and> 0 < lp_reserve_b q)"
    if p: "amm_pool s i = Some p" for i p
  proof -
    from ok have "pools_grow (amm_pool s) (amm_pool s')" by blast
    from pools_grow_Some[OF this p] obtain q where q: "amm_pool s' i = Some q" "pool_grows p q" by blast
    then show ?thesis by (intro exI[of _ q]) (auto simp: pool_grows_def pool_pair_def)
  qed
  moreover have "quote_swap i r a s = Ok x" if "swap_hop i r a s = (Ok (r', x), t)" "0 < a" for i r a r' x t
    using that by (auto simp: swap_hop_def quote_swap_def ok_rules Let_def split: prod.splits if_splits)
  ultimately show ?thesis using ok by blast
qed

theorem swap_constant_product_witness:
  "\<exists>s'. swap_exact_input (signed_at 9 4) (Addr 2) ''ore'' 100 300 [2] market = (Ok 363, s')"
proof -
  let ?s = "snd (swap_exact_input (signed_at 9 4) (Addr 2) ''ore'' 100 300 [2] market)"
  have run: "swap_exact_input (signed_at 9 4) (Addr 2) ''ore'' 100 300 [2] market = (Ok 363, ?s)"
    using market_swap by (metis prod.collapse)
  then show ?thesis using swap_constant_product[OF market_inv run] by blast
qed

text \<open>Liquidity shares are solvent. After any run of pool operations from a state where this holds
  (such as the empty one), every pool's LP supply is exactly the sum of its providers' balances and
  equals the recorded total, its reserves are non-negative and are both empty exactly when the supply
  is zero, and no two pools trade the same pair.\<close>

lemma lp_shares_solvent:
  assumes "(\<lambda>s s'. \<exists>env. amm_step env s s')\<^sup>*\<^sup>* s t" and "amm_inv s" and "get_pool i t = Some p"
  shows "lp_supply p = msum (\<lambda>a. lp_balance t (i, a)) \<and> unwrap_or (lp_total_supply t i) 0 = lp_supply p
    \<and> 0 \<le> lp_reserve_a p \<and> 0 \<le> lp_reserve_b p
    \<and> (lp_supply p = 0 \<longleftrightarrow> lp_reserve_a p = 0) \<and> (lp_supply p = 0 \<longleftrightarrow> lp_reserve_b p = 0)
    \<and> i \<in> set (get_all_pools t)
    \<and> (\<forall>j q. get_pool j t = Some q \<and> pool_pair q = pool_pair p \<longrightarrow> j = i)"
proof -
  have inv: "amm_inv t" using amm.run_inv[OF assms(1,2)] .
  have p: "amm_pool t i = Some p" using assms(3) by (simp add: get_pool_def)
  have "lp_supply p = msum (\<lambda>a. lp_balance t (i, a)) \<and> unwrap_or (lp_total_supply t i) 0 = lp_supply p"
    using inv p by (simp add: amm_inv_def lp_ok_def)
  moreover have "i \<in> set (get_all_pools t)" using inv p by (auto simp: amm_inv_def)
  ultimately show ?thesis using amm_inv_get[OF inv p] amm_inv_unique[OF inv _ p]
    by (auto simp: pool_ok_def get_pool_def)
qed

lemma lp_shares_solvent_example:
  "\<exists>(t::amm_store) p. get_pool 2 t = Some p \<and> lp_supply p = msum (\<lambda>a. lp_balance t (2, a)) \<and> 2000 < lp_supply p"
proof -
  let ?t = "snd (add_liquidity (signed_at 9 4) (Addr 2) 2 100 500 market)"
  let ?p = "ore_gas\<lparr>lp_reserve_a := 1100, lp_reserve_b := 4500, lp_supply := 2200\<rparr>"
  have run: "add_liquidity (signed_at 9 4) (Addr 2) 2 100 500 market = (Ok (200, ?p), ?t)"
    by (simp add: market_add)
  have "\<exists>env. amm_step env market ?t"
    by (intro exI[of _ "signed_at 9 4"] amm_step.add[of _ "Addr 2" 2 100 500]) (simp add: commits_iff market_add)
  then have steps: "(\<lambda>s s'. \<exists>env. amm_step env s s')\<^sup>*\<^sup>* market ?t" by (rule r_into_rtranclp)
  have p: "get_pool 2 ?t = Some ?p" by (simp add: market_add get_pool_def)
  have "lp_supply ?p = msum (\<lambda>a. lp_balance ?t (2, a))"
    using lp_shares_solvent[OF steps market_inv p] by (elim conjE)
  moreover have "2000 < lp_supply ?p" by simp
  ultimately show ?thesis using p by blast
qed

text \<open>C11. Adding liquidity and taking it out again gains nothing. If a provider adds \<open>a\<close> and \<open>b\<close> to a
  pool, receives \<open>m\<close> LP tokens, and removes those \<open>m\<close> at once, they get back at most \<open>a\<close> and \<open>b\<close>; the
  supply and the provider's balance are what they were before, and the pool holds at least its former
  reserves.\<close>

theorem add_remove_round_trip:
  assumes inv: "amm_inv s" and add: "add_liquidity env pr i a b s = (Ok (m, q), s')"
    and rem: "remove_liquidity env2 pr i m s' = (Ok (sa, sb), s'')"
  shows "sa \<le> a \<and> sb \<le> b \<and> (\<exists>p p'. get_pool i s = Some p \<and> get_pool i s'' = Some p' \<and>
      lp_supply p' = lp_supply p \<and> lp_reserve_a p \<le> lp_reserve_a p' \<and> lp_reserve_b p \<le> lp_reserve_b p')
    \<and> (\<forall>j x. get_lp_balance j x s'' = get_lp_balance j x s)"
proof -
  from add_shares[OF inv add] obtain p where p: "amm_pool s i = Some p" "pool_ok i p" "0 < a" "0 < b" "0 < m"
      "q = p\<lparr>lp_reserve_a := lp_reserve_a p + a, lp_reserve_b := lp_reserve_b p + b, lp_supply := lp_supply p + m\<rparr>"
      "amm_pool s' i = Some q" "m * lp_reserve_a p \<le> a * lp_supply p" "m * lp_reserve_b p \<le> b * lp_supply p" by blast
  have nn: "0 \<le> lp_supply p" "0 \<le> lp_reserve_a p" "0 \<le> lp_reserve_b p" using p(2) by (auto simp: pool_ok_def)
  from remove_liquidity_Ok[OF rem] p(7) have sh: "tdiv (m * lp_reserve_a q) (lp_supply q) = Some sa"
      "tdiv (m * lp_reserve_b q) (lp_supply q) = Some sb"
      and s'': "amm_pool s'' i = Some (q\<lparr>lp_reserve_a := lp_reserve_a q - sa, lp_reserve_b := lp_reserve_b q - sb, lp_supply := lp_supply q - m\<rparr>)"
        "lp_balance s'' = (lp_balance s')((i, pr) \<mapsto> get_lp_balance i pr s' - m)" by auto
  have "sa = m * (lp_reserve_a p + a) div (lp_supply p + m)" "sb = m * (lp_reserve_b p + b) div (lp_supply p + m)"
    using sh nn p(3-5) by (auto simp: p(6) intro!: tdiv_Some)
  then have le: "sa \<le> a" "sb \<le> b" using share_back[OF p(8,5) nn(1)] share_back[OF p(9,5) nn(1)] by auto
  have "get_lp_balance j x s'' = get_lp_balance j x s" for j x
    using add s''(2) unfolding add_liquidity_Ok by (auto simp: get_lp_balance_def)
  with le p(1) s''(1) show ?thesis by (auto simp: get_pool_def p(6))
qed

theorem add_remove_round_trip_witness:
  "\<exists>q s' s''. add_liquidity (signed_at 9 4) (Addr 2) 2 100 500 market = (Ok (200, q), s')
     \<and> remove_liquidity (signed_at 10 4) (Addr 2) 2 200 s' = (Ok (100, 409), s'')"
proof -
  let ?t = "snd (add_liquidity (signed_at 9 4) (Addr 2) 2 100 500 market)"
  let ?u = "snd (remove_liquidity (signed_at 10 4) (Addr 2) 2 200 ?t)"
  have run: "add_liquidity (signed_at 9 4) (Addr 2) 2 100 500 market
      = (Ok (200, ore_gas\<lparr>lp_reserve_a := 1100, lp_reserve_b := 4500, lp_supply := 2200\<rparr>), ?t)"
    by (simp add: market_add)
  have out: "remove_liquidity (signed_at 10 4) (Addr 2) 2 200 ?t = (Ok (100, 409), ?u)"
    using market_remove[of ?t 10 4] by (simp add: market_add prod_eq_iff)
  show ?thesis using add_remove_round_trip[OF market_inv run out] run out by blast
qed

text \<open>The integer square root that sizes the first deposit of a pool terminates on every product of
  positive amounts and is the exact floor of the root, with one exception: for the product 2 it
  answers 2.\<close>

lemma sqrt_closure_floor:
  assumes "0 < x" and "x \<le> nat i128_max"
  shows "(x \<noteq> 2 \<longrightarrow> (\<exists>q. sqrt_closure x = Some q \<and> q * q \<le> x \<and> x < (q + 1) * (q + 1))) \<and> sqrt_closure 2 = Some 2"
  using sqrt_closure_correct[OF assms] sqrt_closure_two by simp

lemma sqrt_closure_floor_example: "\<exists>q. sqrt_closure 99 = Some q \<and> q = 9"
  using sqrt_closure_floor[of 99] by (auto simp: sqrt_closure_def newton_loop.simps)

end
