(* ===== verification/Access_Control.thy ===== *)
theory Access_Control
  imports Amm
begin

text \<open>
  \<open>src/access_control.rs\<close>: role-based access control. Roles are symbols; a membership record may
  expire; a role may have a parent whose permissions it inherits; a member may delegate a role; the
  admin changes roles and permissions directly, and a set of signers can do so by proposals that need
  enough approvals and a timelock.
\<close>

section \<open>Model\<close>

datatype AccessControlError = AdminRequired | RoleNotFound | UnauthorizedRole | RoleAlreadyGranted | BatchLimitExceeded
  | InvalidExpiry | PermissionNotFound | InitializationFailed | NotImplemented | MultiSigNotConfigured | ProposalNotFound
  | ProposalAlreadyExecuted | ProposalExpired | InsufficientApprovals | AlreadyApproved | TimelockNotElapsed
  | InvalidSignerConfig | InvalidRoleHierarchy | NotInEmergencyMode | InvalidDelegation

record DelegatedRoleRecord =
  dr_delegator :: address
  dr_delegatee :: address
  dr_role :: symbol
  dr_expiry_ledger :: u32
  dr_active :: bool

record RoleRecord =
  rr_active :: bool
  rr_expiry_ledger :: "u32 option"

definition new_role_record :: "u32 option \<Rightarrow> RoleRecord" where
  "new_role_record expiry = \<lparr>rr_active = True, rr_expiry_ledger = expiry\<rparr>"

record MultiSigConfig =
  ms_required_approvals :: u32
  ms_total_signers :: u32
  ms_timelock_period :: u64
  ms_enabled :: bool

datatype ProposalOperation = GrantRole symbol address "u32 option" | RevokeRole symbol address
  | GrantPermission symbol symbol | RevokePermission symbol symbol | TransferAdmin address | UpdateMultiSig MultiSigConfig

record AcProposal =
  ap_proposal_id :: u64
  ap_proposer :: address
  ap_operation :: ProposalOperation
  ap_created_at :: u64
  ap_execution_time :: u64
  ap_executed :: bool
  ap_approval_count :: u32

record access_store = amm_store +
  ac_admin :: "address option"
  role_member :: "(symbol \<times> address) \<rightharpoonup> RoleRecord"
  role_permission :: "(symbol \<times> symbol) \<rightharpoonup> bool"
  known_roles :: "symbol list option"
  multisig_config :: "MultiSigConfig option"
  ac_proposals :: "u64 \<rightharpoonup> AcProposal"
  proposal_approval :: "(u64 \<times> address) \<rightharpoonup> bool"
  proposal_counter :: "u64 option"
  admin_signers :: "address list option"
  role_parent :: "symbol \<rightharpoonup> symbol"
  emergency_mode :: "bool option"
  emergency_role :: "symbol \<rightharpoonup> bool"
  role_delegation :: "(symbol \<times> address) \<rightharpoonup> DelegatedRoleRecord"

abbreviation BATCH_GRANT_LIMIT :: nat where "BATCH_GRANT_LIMIT \<equiv> 5"

definition admin_role :: symbol where "admin_role = ''admin''"
definition nomad_role :: symbol where "nomad_role = ''nomad''"
definition indexer_role :: symbol where "indexer_role = ''indexer''"

definition set_role_record :: "symbol \<Rightarrow> address \<Rightarrow> RoleRecord \<Rightarrow> 'a access_store_scheme \<Rightarrow> 'a access_store_scheme" where
  "set_role_record role a record s = s\<lparr>role_member := (role_member s)((role, a) \<mapsto> record)\<rparr>"

definition delete_role_record :: "symbol \<Rightarrow> address \<Rightarrow> 'a access_store_scheme \<Rightarrow> 'a access_store_scheme" where
  "delete_role_record role a s = s\<lparr>role_member := (role_member s)((role, a) := None)\<rparr>"

definition get_permission :: "symbol \<Rightarrow> symbol \<Rightarrow> 'a access_store_scheme \<Rightarrow> bool" where
  "get_permission role action s = unwrap_or (role_permission s (role, action)) False"

definition set_permission :: "symbol \<Rightarrow> symbol \<Rightarrow> 'a access_store_scheme \<Rightarrow> 'a access_store_scheme" where
  "set_permission role action s = s\<lparr>role_permission := (role_permission s)((role, action) \<mapsto> True)\<rparr>"

definition delete_permission :: "symbol \<Rightarrow> symbol \<Rightarrow> 'a access_store_scheme \<Rightarrow> 'a access_store_scheme" where
  "delete_permission role action s = s\<lparr>role_permission := (role_permission s)((role, action) := None)\<rparr>"

definition get_known_roles :: "'a access_store_scheme \<Rightarrow> symbol list" where
  "get_known_roles s = unwrap_or (known_roles s) []"

definition register_known_role :: "symbol \<Rightarrow> 'a access_store_scheme \<Rightarrow> 'a access_store_scheme" where
  "register_known_role role s =
    (if role \<in> set (get_known_roles s) then s else s\<lparr>known_roles := Some (get_known_roles s @ [role])\<rparr>)"

definition has_role :: "env \<Rightarrow> symbol \<Rightarrow> address \<Rightarrow> 'a access_store_scheme \<Rightarrow> bool" where
  "has_role env role a s = (case role_member s (role, a) of
     Some record \<Rightarrow>
       if \<not> rr_active record then False
       else (case rr_expiry_ledger record of
           Some expiry_ledger \<Rightarrow> if sequence env \<ge> expiry_ledger then False else True
         | None \<Rightarrow> True)
   | None \<Rightarrow> (case role_delegation s (role, a) of
       Some delegation \<Rightarrow> if dr_active delegation \<and> sequence env < dr_expiry_ledger delegation then True else False
     | None \<Rightarrow> False))"

text \<open>The loop of \<open>has_permission\<close>, by the number of iterations left.\<close>

fun has_permission_loop :: "nat \<Rightarrow> symbol \<Rightarrow> symbol \<Rightarrow> 'a access_store_scheme \<Rightarrow> bool" where
  "has_permission_loop 0 current_role action s = False"
| "has_permission_loop (Suc left) current_role action s =
    (if get_permission current_role action s then True
     else case role_parent s current_role of
       Some parent \<Rightarrow> has_permission_loop left parent action s
     | None \<Rightarrow> False)"

definition has_permission :: "symbol \<Rightarrow> symbol \<Rightarrow> 'a access_store_scheme \<Rightarrow> bool" where
  "has_permission role action s = has_permission_loop 6 role action s"

text \<open>The check that every admin operation starts with.\<close>

definition admin_only :: "env \<Rightarrow> address \<Rightarrow> ('a access_store_scheme \<Rightarrow> (AccessControlError, 'b) outcome \<times> 'a access_store_scheme)
    \<Rightarrow> 'a access_store_scheme \<Rightarrow> (AccessControlError, 'b) outcome \<times> 'a access_store_scheme" where
  "admin_only env caller k s =
    (if \<not> auth env caller then (Panic, s)
     else case ac_admin s of
       None \<Rightarrow> (Err AccessControlError.InitializationFailed, s)
     | Some admin \<Rightarrow> if caller \<noteq> admin then (Err AccessControlError.AdminRequired, s) else k s)"

definition opt_val :: "u32 option \<Rightarrow> sval list" where
  "opt_val x = (case x of None \<Rightarrow> [] | Some v \<Rightarrow> [SU v])"

definition expiry_passed :: "env \<Rightarrow> u32 option \<Rightarrow> bool" where
  "expiry_passed env expiry = (case expiry of Some exp \<Rightarrow> exp \<le> sequence env | None \<Rightarrow> False)"

definition grant_role :: "env \<Rightarrow> address \<Rightarrow> symbol \<Rightarrow> address \<Rightarrow> u32 option \<Rightarrow> 'a access_store_scheme
    \<Rightarrow> (AccessControlError, unit) outcome \<times> 'a access_store_scheme" where
  "grant_role env caller role grantee expiry = admin_only env caller (\<lambda>s.
     if expiry_passed env expiry then (Err AccessControlError.InvalidExpiry, s)
     else let s = register_known_role role s;
              s = set_role_record role grantee (new_role_record expiry) s
          in (Ok (), publish [SS ''rbac'', SS ''grant''] ([SS role, SA grantee] @ opt_val expiry) s))"

definition revoke_role :: "env \<Rightarrow> address \<Rightarrow> symbol \<Rightarrow> address \<Rightarrow> 'a access_store_scheme
    \<Rightarrow> (AccessControlError, unit) outcome \<times> 'a access_store_scheme" where
  "revoke_role env caller role revokee = admin_only env caller (\<lambda>s.
     (Ok (), publish [SS ''rbac'', SS ''revoke''] [SS role, SA revokee] (delete_role_record role revokee s)))"

fun grant_loop :: "symbol \<Rightarrow> u32 option \<Rightarrow> address list \<Rightarrow> 'a access_store_scheme \<Rightarrow> 'a access_store_scheme" where
  "grant_loop role expiry [] s = s"
| "grant_loop role expiry (grantee # grantees) s = grant_loop role expiry grantees
     (publish [SS ''rbac'', SS ''grant''] ([SS role, SA grantee] @ opt_val expiry)
       (set_role_record role grantee (new_role_record expiry) s))"

definition grant_role_batch :: "env \<Rightarrow> address \<Rightarrow> symbol \<Rightarrow> address list \<Rightarrow> u32 option \<Rightarrow> 'a access_store_scheme
    \<Rightarrow> (AccessControlError, unit) outcome \<times> 'a access_store_scheme" where
  "grant_role_batch env caller role grantees expiry s =
    (if length grantees > BATCH_GRANT_LIMIT then (Err AccessControlError.BatchLimitExceeded, s)
     else admin_only env caller (\<lambda>s.
       if expiry_passed env expiry then (Err AccessControlError.InvalidExpiry, s)
       else (Ok (), grant_loop role expiry grantees (register_known_role role s))) s)"

definition is_emergency_mode :: "'a access_store_scheme \<Rightarrow> bool" where
  "is_emergency_mode s = unwrap_or (emergency_mode s) False"

definition is_emergency_role :: "symbol \<Rightarrow> 'a access_store_scheme \<Rightarrow> bool" where
  "is_emergency_role role s = unwrap_or (emergency_role s role) False"

definition check_permission :: "env \<Rightarrow> address \<Rightarrow> symbol \<Rightarrow> 'a access_store_scheme
    \<Rightarrow> (AccessControlError, unit) outcome \<times> 'a access_store_scheme" where
  "check_permission env caller action s =
    (let roles = get_known_roles s in
     if is_emergency_mode s \<and> list_ex (\<lambda>role. is_emergency_role role s \<and> has_role env role caller s) roles then (Ok (), s)
     else if list_ex (\<lambda>role. has_role env role caller s \<and> has_permission role action s) roles then (Ok (), s)
     else (Err AccessControlError.UnauthorizedRole, publish [SS ''rbac'', SS ''perm_fail''] [SA caller, SS action] s))"

definition grant_permission :: "env \<Rightarrow> address \<Rightarrow> symbol \<Rightarrow> symbol \<Rightarrow> 'a access_store_scheme
    \<Rightarrow> (AccessControlError, unit) outcome \<times> 'a access_store_scheme" where
  "grant_permission env caller role action = admin_only env caller (\<lambda>s.
     (Ok (), publish [SS ''rbac'', SS ''perm_g''] [SS role, SS action] (set_permission role action s)))"

definition revoke_permission :: "env \<Rightarrow> address \<Rightarrow> symbol \<Rightarrow> symbol \<Rightarrow> 'a access_store_scheme
    \<Rightarrow> (AccessControlError, unit) outcome \<times> 'a access_store_scheme" where
  "revoke_permission env caller role action = admin_only env caller (\<lambda>s.
     (Ok (), publish [SS ''rbac'', SS ''perm_r''] [SS role, SS action] (delete_permission role action s)))"

definition transfer_admin :: "env \<Rightarrow> address \<Rightarrow> address \<Rightarrow> 'a access_store_scheme
    \<Rightarrow> (AccessControlError, unit) outcome \<times> 'a access_store_scheme" where
  "transfer_admin env caller new_admin = admin_only env caller (\<lambda>s.
     let old_admin = caller in
     and_then (revoke_role env caller admin_role old_admin s) (\<lambda>_ s.
     and_then (grant_role env caller admin_role new_admin None s) (\<lambda>_ s.
     let s = s\<lparr>ac_admin := Some new_admin\<rparr>
     in (Ok (), publish [SS ''rbac'', SS ''xfer_adm''] [SA old_admin, SA new_admin] s))))"

definition init_roles :: "env \<Rightarrow> address \<Rightarrow> 'a access_store_scheme
    \<Rightarrow> (AccessControlError, unit) outcome \<times> 'a access_store_scheme" where
  "init_roles env admin s =
    (if \<not> auth env admin then (Panic, s)
     else if ac_admin s \<noteq> None then (Err AccessControlError.InitializationFailed, s)
     else let s = s\<lparr>ac_admin := Some admin\<rparr>;
              s = register_known_role admin_role s;
              s = register_known_role nomad_role s;
              s = register_known_role indexer_role s
          in (Ok (), set_role_record admin_role admin (new_role_record None) s))"

definition propose_role_change :: "env \<Rightarrow> address \<Rightarrow> symbol \<Rightarrow> address \<Rightarrow> symbol \<Rightarrow> 'a access_store_scheme
    \<Rightarrow> (AccessControlError, u64) outcome \<times> 'a access_store_scheme" where
  "propose_role_change env proposer role grantee action_type s =
    (if \<not> auth env proposer then (Panic, s) else (Err AccessControlError.NotImplemented, s))"

subsection \<open>Multi-signature proposals\<close>

definition init_multisig :: "env \<Rightarrow> address \<Rightarrow> address list \<Rightarrow> u32 \<Rightarrow> u64 \<Rightarrow> 'a access_store_scheme
    \<Rightarrow> (AccessControlError, unit) outcome \<times> 'a access_store_scheme" where
  "init_multisig env admin signers required_approvals timelock_period = admin_only env admin (\<lambda>s.
     if length signers = 0 \<or> required_approvals = 0 \<or> required_approvals > length signers
     then (Err AccessControlError.InvalidSignerConfig, s)
     else let s = s\<lparr>multisig_config := Some \<lparr>ms_required_approvals = required_approvals, ms_total_signers = length signers,
                    ms_timelock_period = timelock_period, ms_enabled = True\<rparr>\<rparr>;
              s = s\<lparr>admin_signers := Some signers\<rparr>
          in (Ok (), publish [SS ''multisig'', SS ''init''] [SU required_approvals, SU (length signers), SU timelock_period] s))"

definition next_proposal_id :: "'a access_store_scheme \<Rightarrow> (u64 \<times> 'a access_store_scheme) option" where
  "next_proposal_id s = map_option (\<lambda>n. (n, s\<lparr>proposal_counter := Some n\<rparr>))
     (checked_add u64_max (unwrap_or (proposal_counter s) 0) 1)"

definition ac_create_proposal :: "env \<Rightarrow> address \<Rightarrow> ProposalOperation \<Rightarrow> 'a access_store_scheme
    \<Rightarrow> (AccessControlError, u64) outcome \<times> 'a access_store_scheme" where
  "ac_create_proposal env proposer operation s =
    (if \<not> auth env proposer then (Panic, s)
     else case multisig_config s of
       None \<Rightarrow> (Err AccessControlError.MultiSigNotConfigured, s)
     | Some config \<Rightarrow>
     if \<not> ms_enabled config then (Err AccessControlError.MultiSigNotConfigured, s)
     else case admin_signers s of
       None \<Rightarrow> (Err AccessControlError.MultiSigNotConfigured, s)
     | Some signers \<Rightarrow>
     if proposer \<notin> set signers then (Err AccessControlError.AdminRequired, s)
     else case next_proposal_id s of
       None \<Rightarrow> (Panic, s)
     | Some (proposal_id, s) \<Rightarrow>
     let now = timestamp env in
     case checked_add u64_max now (ms_timelock_period config) of
       None \<Rightarrow> (Panic, s)
     | Some execution_time \<Rightarrow>
     let proposal = \<lparr>ap_proposal_id = proposal_id, ap_proposer = proposer, ap_operation = operation, ap_created_at = now,
           ap_execution_time = execution_time, ap_executed = False, ap_approval_count = 1\<rparr>;
         s = s\<lparr>ac_proposals := (ac_proposals s)(proposal_id \<mapsto> proposal)\<rparr>;
         s = s\<lparr>proposal_approval := (proposal_approval s)((proposal_id, proposer) \<mapsto> True)\<rparr>
     in (Ok proposal_id, publish [SS ''multisig'', SS ''propose''] [SU proposal_id, SA proposer, SU execution_time] s))"

definition approve_proposal :: "env \<Rightarrow> address \<Rightarrow> u64 \<Rightarrow> 'a access_store_scheme
    \<Rightarrow> (AccessControlError, unit) outcome \<times> 'a access_store_scheme" where
  "approve_proposal env approver proposal_id s =
    (if \<not> auth env approver then (Panic, s)
     else case multisig_config s of
       None \<Rightarrow> (Err AccessControlError.MultiSigNotConfigured, s)
     | Some _ \<Rightarrow>
     case admin_signers s of
       None \<Rightarrow> (Err AccessControlError.MultiSigNotConfigured, s)
     | Some signers \<Rightarrow>
     if approver \<notin> set signers then (Err AccessControlError.AdminRequired, s)
     else case ac_proposals s proposal_id of
       None \<Rightarrow> (Err AccessControlError.ProposalNotFound, s)
     | Some proposal \<Rightarrow>
     if ap_executed proposal then (Err AccessControlError.ProposalAlreadyExecuted, s)
     else if unwrap_or (proposal_approval s (proposal_id, approver)) False then (Err AccessControlError.AlreadyApproved, s)
     else let s = s\<lparr>proposal_approval := (proposal_approval s)((proposal_id, approver) \<mapsto> True)\<rparr> in
     case checked_add u32_max (ap_approval_count proposal) 1 of
       None \<Rightarrow> (Panic, s)
     | Some approval_count \<Rightarrow>
     let s = s\<lparr>ac_proposals := (ac_proposals s)(proposal_id \<mapsto> proposal\<lparr>ap_approval_count := approval_count\<rparr>)\<rparr>
     in (Ok (), publish [SS ''multisig'', SS ''approve''] [SU proposal_id, SA approver, SU approval_count] s))"

fun apply_operation :: "address \<Rightarrow> ProposalOperation \<Rightarrow> 'a access_store_scheme \<Rightarrow> 'a access_store_scheme" where
  "apply_operation proposer (GrantRole role grantee expiry) s =
     register_known_role role (set_role_record role grantee (new_role_record expiry) s)"
| "apply_operation proposer (RevokeRole role revokee) s = delete_role_record role revokee s"
| "apply_operation proposer (GrantPermission role action) s = set_permission role action s"
| "apply_operation proposer (RevokePermission role action) s = delete_permission role action s"
| "apply_operation proposer (TransferAdmin new_admin) s =
     set_role_record admin_role new_admin (new_role_record None)
       (delete_role_record admin_role proposer (s\<lparr>ac_admin := Some new_admin\<rparr>))"
| "apply_operation proposer (UpdateMultiSig new_config) s = s\<lparr>multisig_config := Some new_config\<rparr>"

definition execute_proposal :: "env \<Rightarrow> address \<Rightarrow> u64 \<Rightarrow> 'a access_store_scheme
    \<Rightarrow> (AccessControlError, unit) outcome \<times> 'a access_store_scheme" where
  "execute_proposal env executor proposal_id s =
    (if \<not> auth env executor then (Panic, s)
     else case multisig_config s of
       None \<Rightarrow> (Err AccessControlError.MultiSigNotConfigured, s)
     | Some config \<Rightarrow>
     case ac_proposals s proposal_id of
       None \<Rightarrow> (Err AccessControlError.ProposalNotFound, s)
     | Some proposal \<Rightarrow>
     if ap_executed proposal then (Err AccessControlError.ProposalAlreadyExecuted, s)
     else if ap_approval_count proposal < ms_required_approvals config then (Err AccessControlError.InsufficientApprovals, s)
     else let now = timestamp env in
     if now < ap_execution_time proposal then (Err AccessControlError.TimelockNotElapsed, s)
     else let s = apply_operation (ap_proposer proposal) (ap_operation proposal) s;
              s = s\<lparr>ac_proposals := (ac_proposals s)(proposal_id \<mapsto> proposal\<lparr>ap_executed := True\<rparr>)\<rparr>
          in (Ok (), publish [SS ''multisig'', SS ''execute''] [SU proposal_id, SA executor, SU now] s))"

definition get_proposal :: "u64 \<Rightarrow> 'a access_store_scheme \<Rightarrow> (AccessControlError, AcProposal) outcome" where
  "get_proposal proposal_id s = (case ac_proposals s proposal_id of
     None \<Rightarrow> Err AccessControlError.ProposalNotFound | Some p \<Rightarrow> Ok p)"

definition get_multisig_config :: "'a access_store_scheme \<Rightarrow> (AccessControlError, MultiSigConfig) outcome" where
  "get_multisig_config s = (case multisig_config s of
     None \<Rightarrow> Err AccessControlError.MultiSigNotConfigured | Some c \<Rightarrow> Ok c)"

subsection \<open>Hierarchy, emergency roles, delegation, templates\<close>

definition set_role_parent :: "env \<Rightarrow> address \<Rightarrow> symbol \<Rightarrow> symbol \<Rightarrow> 'a access_store_scheme
    \<Rightarrow> (AccessControlError, unit) outcome \<times> 'a access_store_scheme" where
  "set_role_parent env caller role parent = admin_only env caller (\<lambda>s.
     if role = parent then (Err AccessControlError.InvalidRoleHierarchy, s)
     else let s = register_known_role parent (register_known_role role s);
              s = s\<lparr>role_parent := (role_parent s)(role \<mapsto> parent)\<rparr>
          in (Ok (), publish [SS ''rbac'', SS ''parent''] [SS role, SS parent] s))"

definition set_emergency_mode :: "env \<Rightarrow> address \<Rightarrow> bool \<Rightarrow> 'a access_store_scheme
    \<Rightarrow> (AccessControlError, unit) outcome \<times> 'a access_store_scheme" where
  "set_emergency_mode env caller enabled = admin_only env caller (\<lambda>s.
     (Ok (), publish [SS ''rbac'', SS ''emrg_mode''] [SB enabled] (s\<lparr>emergency_mode := Some enabled\<rparr>)))"

definition set_emergency_role :: "env \<Rightarrow> address \<Rightarrow> symbol \<Rightarrow> bool \<Rightarrow> 'a access_store_scheme
    \<Rightarrow> (AccessControlError, unit) outcome \<times> 'a access_store_scheme" where
  "set_emergency_role env caller role is_emergency = admin_only env caller (\<lambda>s.
     let s = register_known_role role s in (Ok (), s\<lparr>emergency_role := (emergency_role s)(role \<mapsto> is_emergency)\<rparr>))"

definition delegate_role :: "env \<Rightarrow> address \<Rightarrow> address \<Rightarrow> symbol \<Rightarrow> u32 \<Rightarrow> 'a access_store_scheme
    \<Rightarrow> (AccessControlError, unit) outcome \<times> 'a access_store_scheme" where
  "delegate_role env delegator delegatee role expiry_ledger s =
    (if \<not> auth env delegator then (Panic, s)
     else if \<not> has_role env role delegator s then (Err AccessControlError.UnauthorizedRole, s)
     else if expiry_ledger \<le> sequence env then (Err AccessControlError.InvalidExpiry, s)
     else let record = \<lparr>dr_delegator = delegator, dr_delegatee = delegatee, dr_role = role, dr_expiry_ledger = expiry_ledger, dr_active = True\<rparr>;
              s = s\<lparr>role_delegation := (role_delegation s)((role, delegatee) \<mapsto> record)\<rparr>
          in (Ok (), publish [SS ''rbac'', SS ''delegate''] [SA delegator, SA delegatee, SS role, SU expiry_ledger] s))"

definition revoke_delegation :: "env \<Rightarrow> address \<Rightarrow> address \<Rightarrow> symbol \<Rightarrow> 'a access_store_scheme
    \<Rightarrow> (AccessControlError, unit) outcome \<times> 'a access_store_scheme" where
  "revoke_delegation env delegator delegatee role s =
    (if \<not> auth env delegator then (Panic, s)
     else let s = s\<lparr>role_delegation := (role_delegation s)((role, delegatee) := None)\<rparr>
          in (Ok (), publish [SS ''rbac'', SS ''rev_del''] [SA delegator, SA delegatee, SS role] s))"

definition init_role_templates :: "env \<Rightarrow> address \<Rightarrow> 'a access_store_scheme
    \<Rightarrow> (AccessControlError, unit) outcome \<times> 'a access_store_scheme" where
  "init_role_templates env admin = admin_only env admin (\<lambda>s.
     let readonly = ''readonly''; operator = ''operator'';
         s = register_known_role admin_role (register_known_role operator (register_known_role readonly s));
         s = set_permission readonly ''query'' (set_permission readonly ''read'' s);
         s = set_permission operator ''pause'' (set_permission operator ''operate'' s);
         s = set_permission admin_role ''manage'' (set_permission admin_role ''admin'' s);
         s = s\<lparr>role_parent := (role_parent s)(admin_role \<mapsto> operator)\<rparr>
     in (Ok (), s\<lparr>role_parent := (role_parent s)(operator \<mapsto> readonly)\<rparr>))"

section \<open>Steps and invariant\<close>

inductive access_step :: "env \<Rightarrow> 'a access_store_scheme \<Rightarrow> 'a access_store_scheme \<Rightarrow> bool" for env where
  init: "commits (init_roles env a) s s' \<Longrightarrow> access_step env s s'"
| grant: "commits (grant_role env c r g e) s s' \<Longrightarrow> access_step env s s'"
| batch: "commits (grant_role_batch env c r gs e) s s' \<Longrightarrow> access_step env s s'"
| revoke: "commits (revoke_role env c r g) s s' \<Longrightarrow> access_step env s s'"
| permit: "commits (grant_permission env c r x) s s' \<Longrightarrow> access_step env s s'"
| forbid: "commits (revoke_permission env c r x) s s' \<Longrightarrow> access_step env s s'"
| transfer: "commits (transfer_admin env c n) s s' \<Longrightarrow> access_step env s s'"
| multisig: "commits (init_multisig env c ss q d) s s' \<Longrightarrow> access_step env s s'"
| propose: "commits (ac_create_proposal env c x) s s' \<Longrightarrow> access_step env s s'"
| approve: "commits (approve_proposal env c i) s s' \<Longrightarrow> access_step env s s'"
| execute: "commits (execute_proposal env c i) s s' \<Longrightarrow> access_step env s s'"
| parent: "commits (set_role_parent env c r x) s s' \<Longrightarrow> access_step env s s'"
| mode: "commits (set_emergency_mode env c b) s s' \<Longrightarrow> access_step env s s'"
| emergency: "commits (set_emergency_role env c r b) s s' \<Longrightarrow> access_step env s s'"
| delegate: "commits (delegate_role env c d r e) s s' \<Longrightarrow> access_step env s s'"
| undelegate: "commits (revoke_delegation env c d r) s s' \<Longrightarrow> access_step env s s'"
| templates: "commits (init_role_templates env c) s s' \<Longrightarrow> access_step env s s'"
| check: "commits (check_permission env c x) s s' \<Longrightarrow> access_step env s s'"

text \<open>The signers that approved proposal \<open>i\<close>.\<close>

definition approvers :: "u64 \<Rightarrow> 'a access_store_scheme \<Rightarrow> address set" where
  "approvers i s = {a. proposal_approval s (i, a) = Some True}"

definition access_inv :: "'a access_store_scheme \<Rightarrow> bool" where
  "access_inv s \<longleftrightarrow> tbl_ok (\<lambda>i p. ap_proposal_id p = i \<and> ap_approval_count p = card (approvers i s)) (unwrap_or (proposal_counter s) 0) (ac_proposals s)
     \<and> (\<forall>i. finite (approvers i s) \<and> (ac_proposals s i = None \<longrightarrow> approvers i s = {}))"

text \<open>What decides who may do what, and the state of the proposals.\<close>

definition rights :: "'a access_store_scheme \<Rightarrow> address option \<times> ((symbol \<times> address) \<rightharpoonup> RoleRecord) \<times> ((symbol \<times> symbol) \<rightharpoonup> bool)" where
  "rights s = (ac_admin s, role_member s, role_permission s)"

definition ballot_box :: "'a access_store_scheme \<Rightarrow> (u64 \<rightharpoonup> AcProposal) \<times> ((u64 \<times> address) \<rightharpoonup> bool) \<times> u64 option" where
  "ballot_box s = (ac_proposals s, proposal_approval s, proposal_counter s)"

section \<open>Lemmas\<close>

lemma publish_access_store [simp]:
  "ac_admin (publish t d s) = ac_admin s" "role_member (publish t d s) = role_member s"
  "role_permission (publish t d s) = role_permission s" "known_roles (publish t d s) = known_roles s"
  "multisig_config (publish t d s) = multisig_config s" "ac_proposals (publish t d s) = ac_proposals s"
  "proposal_approval (publish t d s) = proposal_approval s" "proposal_counter (publish t d s) = proposal_counter s"
  "admin_signers (publish t d s) = admin_signers s" "role_parent (publish t d s) = role_parent s"
  "role_delegation (publish t d s) = role_delegation s"
  by (simp_all add: publish_def)

lemma register_simps [simp]:
  "ac_admin (register_known_role r s) = ac_admin s" "role_member (register_known_role r s) = role_member s"
  "role_permission (register_known_role r s) = role_permission s" "role_delegation (register_known_role r s) = role_delegation s"
  "multisig_config (register_known_role r s) = multisig_config s" "admin_signers (register_known_role r s) = admin_signers s"
  "ac_proposals (register_known_role r s) = ac_proposals s" "proposal_approval (register_known_role r s) = proposal_approval s"
  "proposal_counter (register_known_role r s) = proposal_counter s"
  by (simp_all add: register_known_role_def)

lemmas access_writes = set_role_record_def delete_role_record_def set_permission_def delete_permission_def

lemma grant_loop_simps [simp]:
  "ac_admin (grant_loop r e gs s) = ac_admin s" "ac_proposals (grant_loop r e gs s) = ac_proposals s"
  "proposal_approval (grant_loop r e gs s) = proposal_approval s" "proposal_counter (grant_loop r e gs s) = proposal_counter s"
  by (induction gs arbitrary: s) (simp_all add: set_role_record_def)

lemma admin_only_Ok [ok_rules]: "admin_only env c k s = (Ok r, s') \<longleftrightarrow> auth env c \<and> ac_admin s = Some c \<and> k s = (Ok r, s')"
  by (auto simp: admin_only_def split: option.splits)

lemmas access_admin_defs = grant_role_def revoke_role_def grant_role_batch_def grant_permission_def revoke_permission_def
  transfer_admin_def init_multisig_def set_role_parent_def set_emergency_mode_def set_emergency_role_def init_role_templates_def

text \<open>Operations of the admin: they need the admin's signature and leave the proposals alone.\<close>

lemma admin_ops:
  "grant_role env c r g e s = (Ok u, s') \<Longrightarrow> auth env c \<and> ac_admin s = Some c \<and> ballot_box s' = ballot_box s"
  "grant_role_batch env c r gs e s = (Ok u, s') \<Longrightarrow> auth env c \<and> ac_admin s = Some c \<and> ballot_box s' = ballot_box s"
  "revoke_role env c r g s = (Ok u, s') \<Longrightarrow> auth env c \<and> ac_admin s = Some c \<and> ballot_box s' = ballot_box s"
  "grant_permission env c r x s = (Ok u, s') \<Longrightarrow> auth env c \<and> ac_admin s = Some c \<and> ballot_box s' = ballot_box s"
  "revoke_permission env c r x s = (Ok u, s') \<Longrightarrow> auth env c \<and> ac_admin s = Some c \<and> ballot_box s' = ballot_box s"
  "init_multisig env c ss q d s = (Ok u, s') \<Longrightarrow> auth env c \<and> ac_admin s = Some c \<and> ballot_box s' = ballot_box s"
  "set_role_parent env c r x s = (Ok u, s') \<Longrightarrow> auth env c \<and> ac_admin s = Some c \<and> ballot_box s' = ballot_box s"
  "set_emergency_mode env c b s = (Ok u, s') \<Longrightarrow> auth env c \<and> ac_admin s = Some c \<and> ballot_box s' = ballot_box s"
  "set_emergency_role env c r b s = (Ok u, s') \<Longrightarrow> auth env c \<and> ac_admin s = Some c \<and> ballot_box s' = ballot_box s"
  "init_role_templates env c s = (Ok u, s') \<Longrightarrow> auth env c \<and> ac_admin s = Some c \<and> ballot_box s' = ballot_box s"
  by (auto simp: access_admin_defs ok_rules ballot_box_def access_writes Let_def split del: if_split)

lemma transfer_admin_op:
  "transfer_admin env c n s = (Ok u, s') \<Longrightarrow> auth env c \<and> ac_admin s = Some c \<and> ballot_box s' = ballot_box s"
  by (auto simp: transfer_admin_def ok_rules grant_role_def revoke_role_def ballot_box_def access_writes Let_def split del: if_split)

lemma init_roles_op:
  "init_roles env a s = (Ok u, s') \<Longrightarrow> auth env a \<and> ac_admin s = None \<and> ac_admin s' = Some a \<and> ballot_box s' = ballot_box s"
  by (auto simp: init_roles_def ok_rules ballot_box_def access_writes Let_def split del: if_split)

text \<open>Operations that change no right and no proposal.\<close>

lemma neutral_ops:
  "delegate_role env c d r e s = (Ok u, s') \<Longrightarrow> rights s' = rights s \<and> ballot_box s' = ballot_box s"
  "revoke_delegation env c d r s = (Ok u, s') \<Longrightarrow> rights s' = rights s \<and> ballot_box s' = ballot_box s"
  "check_permission env c x s = (Ok u, s') \<Longrightarrow> rights s' = rights s \<and> ballot_box s' = ballot_box s"
  by (auto simp: delegate_role_def revoke_delegation_def check_permission_def ok_rules rights_def ballot_box_def Let_def split: if_splits)

lemma propose_Ok [ok_iff]: "ac_create_proposal env c x s = (Ok i, s') \<longleftrightarrow> auth env c \<and> (\<exists>cfg ss. multisig_config s = Some cfg \<and>
    ms_enabled cfg \<and> admin_signers s = Some ss \<and> c \<in> set ss \<and> i = unwrap_or (proposal_counter s) 0 + 1 \<and> i \<le> u64_max \<and>
    timestamp env + ms_timelock_period cfg \<le> u64_max \<and>
    s' = publish [SS ''multisig'', SS ''propose''] [SU i, SA c, SU (timestamp env + ms_timelock_period cfg)]
      (s\<lparr>proposal_counter := Some i, ac_proposals := (ac_proposals s)(i \<mapsto> \<lparr>ap_proposal_id = i, ap_proposer = c, ap_operation = x,
          ap_created_at = timestamp env, ap_execution_time = timestamp env + ms_timelock_period cfg, ap_executed = False, ap_approval_count = 1\<rparr>),
        proposal_approval := (proposal_approval s)((i, c) \<mapsto> True)\<rparr>))"
  by (simp add: ac_create_proposal_def next_proposal_id_def ok_rules Let_def split del: if_split split: option.splits) auto

lemma approve_Ok [ok_iff]: "approve_proposal env c i s = (Ok u, s') \<longleftrightarrow> auth env c \<and> (\<exists>cfg ss p. multisig_config s = Some cfg \<and>
    admin_signers s = Some ss \<and> c \<in> set ss \<and> ac_proposals s i = Some p \<and> \<not> ap_executed p \<and> c \<notin> approvers i s \<and>
    ap_approval_count p + 1 \<le> u32_max \<and>
    s' = publish [SS ''multisig'', SS ''approve''] [SU i, SA c, SU (ap_approval_count p + 1)]
      (s\<lparr>proposal_approval := (proposal_approval s)((i, c) \<mapsto> True),
         ac_proposals := (ac_proposals s)(i \<mapsto> p\<lparr>ap_approval_count := ap_approval_count p + 1\<rparr>)\<rparr>))"
proof -
  have "unwrap_or (proposal_approval s (i, c)) False \<longleftrightarrow> c \<in> approvers i s"
    by (cases "proposal_approval s (i, c)") (auto simp: approvers_def)
  then show ?thesis by (simp add: approve_proposal_def ok_rules Let_def split del: if_split) blast
qed

lemma execute_proposal_Ok [ok_iff]: "execute_proposal env c i s = (Ok u, s') \<longleftrightarrow> auth env c \<and> (\<exists>cfg p. multisig_config s = Some cfg \<and>
    ac_proposals s i = Some p \<and> \<not> ap_executed p \<and> ms_required_approvals cfg \<le> ap_approval_count p \<and> ap_execution_time p \<le> timestamp env \<and>
    s' = (let t = apply_operation (ap_proposer p) (ap_operation p) s in
      publish [SS ''multisig'', SS ''execute''] [SU i, SA c, SU (timestamp env)]
        (t\<lparr>ac_proposals := (ac_proposals t)(i \<mapsto> p\<lparr>ap_executed := True\<rparr>)\<rparr>)))"
  by (simp add: execute_proposal_def ok_rules Let_def not_less split del: if_split) blast

lemma apply_operation_box [simp]:
  "ac_proposals (apply_operation c x s) = ac_proposals s" "proposal_approval (apply_operation c x s) = proposal_approval s"
  "proposal_counter (apply_operation c x s) = proposal_counter s"
  by (cases x; simp add: access_writes)+

subsection \<open>Invariant\<close>

lemma approvers_upd: "proposal_approval s' = (proposal_approval s)((i, c) \<mapsto> True) \<Longrightarrow>
    approvers j s' = (if j = i then insert c (approvers i s) else approvers j s)"
  by (auto simp: approvers_def)

lemma box_inv: "ballot_box s' = ballot_box s \<Longrightarrow> access_inv s \<Longrightarrow> access_inv s'"
  by (simp add: ballot_box_def access_inv_def approvers_def)

lemma box_approvers: "ballot_box s' = ballot_box s \<Longrightarrow> approvers i s' = approvers i s"
  by (simp add: ballot_box_def approvers_def)

interpretation proposal_ids: id_counter "\<lambda>s::'a access_store_scheme. unwrap_or (proposal_counter s) 0" next_proposal_id
  by unfold_locales (auto simp: next_proposal_id_def)

lemma propose_inv':
  assumes inv: "access_inv s" and ok: "ac_create_proposal env c x s = (Ok i, s')"
  shows "access_inv s'"
proof -
  from ok obtain t where i: "i = Suc (unwrap_or (proposal_counter s) 0)" "proposal_counter s' = Some i"
      and a: "proposal_approval s' = (proposal_approval s)((i, c) \<mapsto> True)"
      and p: "ac_proposals s' = (ac_proposals s)(i \<mapsto> \<lparr>ap_proposal_id = i, ap_proposer = c, ap_operation = x,
          ap_created_at = timestamp env, ap_execution_time = t, ap_executed = False, ap_approval_count = 1\<rparr>)"
    unfolding propose_Ok by auto
  have tbl: "tbl_ok (\<lambda>i p. ap_proposal_id p = i \<and> ap_approval_count p = card (approvers i s)) (unwrap_or (proposal_counter s) 0) (ac_proposals s)"
    using inv by (simp add: access_inv_def)
  have "ac_proposals s i = None" using tbl_ok_fresh[OF tbl] i(1) by simp
  then have "approvers i s = {}" using inv by (simp add: access_inv_def)
  then show ?thesis using inv unfolding access_inv_def approvers_upd[OF a] p i(2)
    by (auto simp: tbl_ok_def i(1) le_SucI)
qed

lemma approve_inv:
  assumes inv: "access_inv s" and ok: "approve_proposal env c i s = (Ok u, s')"
  shows "access_inv s'"
proof -
  from ok obtain p where p: "ac_proposals s i = Some p" "c \<notin> approvers i s"
      and s': "proposal_approval s' = (proposal_approval s)((i, c) \<mapsto> True)"
        "ac_proposals s' = (ac_proposals s)(i \<mapsto> p\<lparr>ap_approval_count := ap_approval_count p + 1\<rparr>)" "proposal_counter s' = proposal_counter s"
    unfolding approve_Ok by auto
  then show ?thesis using inv unfolding access_inv_def approvers_upd[OF s'(1)] s'(2,3)
    by (auto simp: tbl_ok_def)
qed

lemma execute_inv: "access_inv s \<Longrightarrow> execute_proposal env c i s = (Ok u, s') \<Longrightarrow> access_inv s'"
  unfolding execute_proposal_Ok by (auto simp: access_inv_def approvers_def Let_def tbl_ok_def split: if_splits)

lemma access_step_inv: "access_inv s \<Longrightarrow> access_step env s s' \<Longrightarrow> access_inv s'"
  by (erule access_step.cases)
    (auto simp: commits_iff intro: propose_inv' approve_inv execute_inv
      dest!: admin_ops transfer_admin_op init_roles_op neutral_ops intro: box_inv[of _ s])

text \<open>An executed proposal stays executed.\<close>

definition executed :: "u64 \<Rightarrow> 'a access_store_scheme \<Rightarrow> bool" where
  "executed i s \<longleftrightarrow> access_inv s \<and> (\<exists>p. ac_proposals s i = Some p \<and> ap_executed p)"

lemma box_executed: "ballot_box s' = ballot_box s \<Longrightarrow> executed i s \<Longrightarrow> access_inv s' \<Longrightarrow> executed i s'"
  by (simp add: ballot_box_def executed_def)

lemma box_ops_executed:
  "executed i s \<Longrightarrow> ac_create_proposal env c x s = (Ok j, s') \<Longrightarrow> access_inv s' \<Longrightarrow> executed i s'"
  "executed i s \<Longrightarrow> approve_proposal env c j s = (Ok u, s') \<Longrightarrow> access_inv s' \<Longrightarrow> executed i s'"
  "executed i s \<Longrightarrow> execute_proposal env c j s = (Ok u, s') \<Longrightarrow> access_inv s' \<Longrightarrow> executed i s'"
  using tbl_ok_keep[of _ "unwrap_or (proposal_counter s) 0" "ac_proposals s" i]
  by (auto simp: executed_def propose_Ok approve_Ok execute_proposal_Ok Let_def access_inv_def[of s])

lemma executed_step: "executed i s \<Longrightarrow> access_step env s s' \<Longrightarrow> executed i s'"
proof -
  assume ex: "executed i s" and st: "access_step env s s'"
  then have "access_inv s'" using access_step_inv by (auto simp: executed_def)
  with st ex show ?thesis
    by (cases rule: access_step.cases)
      (auto simp: commits_iff intro: box_ops_executed[of i s]
        dest!: admin_ops transfer_admin_op init_roles_op neutral_ops intro: box_executed[of _ s])
qed

interpretation access: step_system "\<lambda>s s'. \<exists>env. access_step env s s'" "access_inv :: 'a access_store_scheme \<Rightarrow> bool"
  by unfold_locales (auto intro: access_step_inv)

interpretation once: step_system "\<lambda>s s'. \<exists>env. access_step env s s'" "executed i :: 'a access_store_scheme \<Rightarrow> bool" for i
  by unfold_locales (auto intro: executed_step)

subsection \<open>Inherited permissions\<close>

text \<open>The role \<open>k\<close> steps up the hierarchy.\<close>

fun ancestor :: "'a access_store_scheme \<Rightarrow> symbol \<Rightarrow> nat \<Rightarrow> symbol option" where
  "ancestor s role 0 = Some role"
| "ancestor s role (Suc k) = (case role_parent s role of None \<Rightarrow> None | Some parent \<Rightarrow> ancestor s parent k)"

lemma has_permission_loop_iff:
  "has_permission_loop n role action s \<longleftrightarrow> (\<exists>k<n. \<exists>r. ancestor s role k = Some r \<and> get_permission r action s)"
proof (induction n arbitrary: role)
  case (Suc n)
  have "(\<exists>k<Suc n. \<exists>r. ancestor s role k = Some r \<and> get_permission r action s) \<longleftrightarrow> get_permission role action s \<or>
     (\<exists>k<n. \<exists>r. ancestor s role (Suc k) = Some r \<and> get_permission r action s)"
    by (metis ancestor.simps(1) less_Suc_eq_0_disj option.inject)
  then show ?case using Suc by (auto split: option.splits)
qed simp

definition no_access :: access_store where
  "no_access = amm_store.extend empty_amm \<lparr>ac_admin = None, role_member = Map.empty, role_permission = Map.empty, known_roles = None,
     multisig_config = None, ac_proposals = Map.empty, proposal_approval = Map.empty, proposal_counter = None, admin_signers = None,
     role_parent = Map.empty, emergency_mode = None, emergency_role = Map.empty, role_delegation = Map.empty\<rparr>"

lemma no_access_simps: "ac_admin no_access = None" "role_member no_access = Map.empty" "role_permission no_access = Map.empty"
    "known_roles no_access = None" "ac_proposals no_access = Map.empty" "proposal_approval no_access = Map.empty"
    "proposal_counter no_access = None" "role_delegation no_access = Map.empty" "emergency_mode no_access = None"
  by (simp_all add: no_access_def amm_store.defs)

lemma no_access_inv: "access_inv no_access"
  by (simp add: access_inv_def approvers_def no_access_simps)

text \<open>Player 1 is the admin, player 2 an operator; two of the signers 1, 2, 3 decide after 100 seconds.
  Proposal 4 makes player 3 an operator and has the approval of its proposer.\<close>

definition staffed :: access_store where
  "staffed = no_access\<lparr>ac_admin := Some (Addr 1), known_roles := Some [admin_role, ''operator''],
     role_member := [(admin_role, Addr 1) \<mapsto> new_role_record None, (''operator'', Addr 2) \<mapsto> new_role_record None],
     role_permission := [(''operator'', ''pause'') \<mapsto> True], role_parent := [admin_role \<mapsto> ''operator''],
     multisig_config := Some \<lparr>ms_required_approvals = 2, ms_total_signers = 3, ms_timelock_period = 100, ms_enabled = True\<rparr>,
     admin_signers := Some [Addr 1, Addr 2, Addr 3], proposal_counter := Some 4,
     ac_proposals := [4 \<mapsto> \<lparr>ap_proposal_id = 4, ap_proposer = Addr 2, ap_operation = GrantRole ''operator'' (Addr 3) None,
       ap_created_at = 50, ap_execution_time = 150, ap_executed = False, ap_approval_count = 1\<rparr>],
     proposal_approval := [(4, Addr 2) \<mapsto> True]\<rparr>"

lemma staffed_simps: "ac_admin staffed = Some (Addr 1)" "get_known_roles staffed = [admin_role, ''operator'']"
    "role_member staffed = [(admin_role, Addr 1) \<mapsto> new_role_record None, (''operator'', Addr 2) \<mapsto> new_role_record None]"
    "role_permission staffed = [(''operator'', ''pause'') \<mapsto> True]" "role_parent staffed = [admin_role \<mapsto> ''operator'']"
    "multisig_config staffed = Some \<lparr>ms_required_approvals = 2, ms_total_signers = 3, ms_timelock_period = 100, ms_enabled = True\<rparr>"
    "admin_signers staffed = Some [Addr 1, Addr 2, Addr 3]" "proposal_counter staffed = Some 4" "emergency_mode staffed = None"
    "ac_proposals staffed 4 = Some \<lparr>ap_proposal_id = 4, ap_proposer = Addr 2, ap_operation = GrantRole ''operator'' (Addr 3) None,
       ap_created_at = 50, ap_execution_time = 150, ap_executed = False, ap_approval_count = 1\<rparr>"
    "ac_proposals staffed i = None \<longleftrightarrow> i \<noteq> 4" "approvers i staffed = (if i = 4 then {Addr 2} else {})"
  by (auto simp: staffed_def get_known_roles_def no_access_simps approvers_def)

lemma staffed_inv: "access_inv staffed"
proof -
  have "tbl_ok (\<lambda>i p. ap_proposal_id p = i \<and> ap_approval_count p = card (approvers i staffed)) 4 (ac_proposals staffed)"
    unfolding tbl_ok_def
  proof (intro allI impI)
    fix i p assume p: "ac_proposals staffed i = Some p"
    then have "i = 4" using staffed_simps(11)[of i] by auto
    with p staffed_simps(10) show "0 < i \<and> i \<le> 4 \<and> ap_proposal_id p = i \<and> ap_approval_count p = card (approvers i staffed)"
      by (auto simp: staffed_simps(12))
  qed
  then show ?thesis by (simp add: access_inv_def staffed_simps)
qed

section \<open>Properties\<close>

text \<open>The access check is exact. \<open>check_permission\<close> lets a caller through, without changing anything,
  exactly when in emergency mode the caller holds a known emergency role, or the caller holds a known role
  that has the permission itself or inherits it from one of its five nearest ancestors; otherwise it ends in
  \<open>UnauthorizedRole\<close>. The bounded loop gives this on any hierarchy, cyclic ones included.\<close>

lemma access_check_exact:
  "(check_permission env c action s = (Ok (), s) \<longleftrightarrow>
      is_emergency_mode s \<and> (\<exists>r\<in>set (get_known_roles s). is_emergency_role r s \<and> has_role env r c s)
      \<or> (\<exists>r\<in>set (get_known_roles s). has_role env r c s \<and>
           (\<exists>k<6. \<exists>q. ancestor s r k = Some q \<and> role_permission s (q, action) = Some True)))
   \<and> (check_permission env c action s \<noteq> (Ok (), s) \<longrightarrow> fst (check_permission env c action s) = Err UnauthorizedRole)"
proof -
  have "get_permission q action s \<longleftrightarrow> role_permission s (q, action) = Some True" for q
    by (cases "role_permission s (q, action)") (auto simp: get_permission_def)
  then show ?thesis
    by (simp add: check_permission_def has_permission_def has_permission_loop_iff list_ex_iff Let_def)
qed

lemma access_check_exact_example:
  "check_permission (signed_at 1 7) (Addr 1) ''pause'' staffed = (Ok (), staffed)
   \<and> fst (check_permission (signed_at 1 7) (Addr 3) ''pause'' staffed) = Err UnauthorizedRole"
proof
  have "has_role (signed_at 1 7) admin_role (Addr 1) staffed"
    by (simp add: has_role_def staffed_simps new_role_record_def admin_role_def)
  moreover have "ancestor staffed admin_role (Suc 0) = Some ''operator''" by (simp add: staffed_simps)
  moreover have "role_permission staffed (''operator'', ''pause'') = Some True" by (simp add: staffed_simps)
  moreover have "admin_role \<in> set (get_known_roles staffed)" by (simp add: staffed_simps)
  moreover have "Suc 0 < 6" by simp
  ultimately show "check_permission (signed_at 1 7) (Addr 1) ''pause'' staffed = (Ok (), staffed)"
    using conjunct1[OF access_check_exact[of "signed_at 1 7" "Addr 1" "''pause''" staffed]] by blast
next
  have "role_member staffed (r, Addr 3) = None" "role_delegation staffed (r, Addr 3) = None" for r
    by (simp_all add: staffed_def no_access_simps)
  then have "\<not> has_role (signed_at 1 7) r (Addr 3) staffed" for r by (simp add: has_role_def)
  then show "fst (check_permission (signed_at 1 7) (Addr 3) ''pause'' staffed) = Err UnauthorizedRole"
    using access_check_exact[of "signed_at 1 7" "Addr 3" "''pause''" staffed] by blast
qed

text \<open>C12. Rights change only with authority. A committed operation that changes the admin, a role membership
  or a permission was signed by the current admin, or is the first initialisation signed by the new admin, or
  executes an unexecuted proposal with at least the configured number of approvals after its timelock; and an
  approval is added only with the signature of that signer.\<close>

theorem rights_change_authorised:
  assumes step: "access_step env s s'"
  shows "(rights s' \<noteq> rights s \<longrightarrow>
      (\<exists>a. auth env a \<and> (ac_admin s = Some a \<or> ac_admin s = None \<and> ac_admin s' = Some a))
      \<or> (\<exists>i p cfg. ac_proposals s i = Some p \<and> multisig_config s = Some cfg \<and> \<not> ap_executed p
          \<and> ms_required_approvals cfg \<le> ap_approval_count p \<and> ap_execution_time p \<le> timestamp env
          \<and> ac_proposals s' i = Some (p\<lparr>ap_executed := True\<rparr>)))
    \<and> (\<forall>i a. a \<in> approvers i s' \<and> a \<notin> approvers i s \<longrightarrow> auth env a \<and> (\<exists>ss. admin_signers s = Some ss \<and> a \<in> set ss))"
  using step
proof (cases rule: access_step.cases)
  case (execute c i)
  then obtain cfg p where p: "multisig_config s = Some cfg" "ac_proposals s i = Some p" "\<not> ap_executed p"
      "ms_required_approvals cfg \<le> ap_approval_count p" "ap_execution_time p \<le> timestamp env"
      and s': "ac_proposals s' i = Some (p\<lparr>ap_executed := True\<rparr>)" "proposal_approval s' = proposal_approval s"
    by (auto simp: commits_iff execute_proposal_Ok Let_def)
  have "approvers j s' = approvers j s" for j using s'(2) by (simp add: approvers_def)
  with p s'(1) show ?thesis by blast
next
  case (propose c x)
  then obtain i ss where ss: "auth env c" "admin_signers s = Some ss" "c \<in> set ss"
      and a: "proposal_approval s' = (proposal_approval s)((i, c) \<mapsto> True)" and r: "rights s' = rights s"
    by (auto simp: commits_iff propose_Ok rights_def)
  then show ?thesis unfolding r approvers_upd[OF a] by auto
next
  case (approve c i)
  then obtain ss where ss: "auth env c" "admin_signers s = Some ss" "c \<in> set ss"
      and a: "proposal_approval s' = (proposal_approval s)((i, c) \<mapsto> True)" and r: "rights s' = rights s"
    by (auto simp: commits_iff approve_Ok rights_def)
  then show ?thesis unfolding r approvers_upd[OF a] by auto
qed (auto simp: commits_iff dest!: admin_ops transfer_admin_op init_roles_op neutral_ops dest: box_approvers)

theorem rights_change_authorised_witness:
  "\<exists>s'. access_step (signed_at 1 7) staffed s' \<and> rights s' \<noteq> rights staffed \<and> ac_admin staffed = Some (Addr 1)"
proof -
  let ?s = "snd (revoke_role (signed_at 1 7) (Addr 1) ''operator'' (Addr 2) staffed)"
  have step: "access_step (signed_at 1 7) staffed ?s"
    by (rule access_step.revoke[of _ "Addr 1" "''operator''" "Addr 2"]) (simp add: commits_iff revoke_role_def admin_only_def staffed_simps)
  have "role_member ?s (''operator'', Addr 2) \<noteq> role_member staffed (''operator'', Addr 2)"
    by (simp add: revoke_role_def admin_only_def staffed_simps delete_role_record_def)
  then have change: "rights ?s \<noteq> rights staffed" by (auto simp: rights_def)
  from rights_change_authorised[OF step] step change staffed_simps(1) show ?thesis by blast
qed

text \<open>C13. Multi-signature proposals need distinct signers and run once. After any run of access-control
  operations, the approval count of a proposal is the number of distinct addresses that approved it; it can be
  executed only when it has not been, that number reaches the configured threshold and its execution time has
  come; and once executed, no later run makes it executable again.\<close>

theorem multisig_threshold:
  assumes run: "(\<lambda>s s'. \<exists>env. access_step env s s')\<^sup>*\<^sup>* s t" and inv: "access_inv s" and p: "ac_proposals t i = Some p"
  shows "ap_approval_count p = card (approvers i t) \<and> finite (approvers i t)
    \<and> (\<forall>env e t'. execute_proposal env e i t = (Ok (), t') \<longrightarrow>
        \<not> ap_executed p \<and> (\<exists>cfg. multisig_config t = Some cfg \<and> ms_required_approvals cfg \<le> card (approvers i t))
        \<and> ap_execution_time p \<le> timestamp env
        \<and> (\<forall>u env2 e2. (\<lambda>s s'. \<exists>env. access_step env s s')\<^sup>*\<^sup>* t' u \<longrightarrow> fst (execute_proposal env2 e2 i u) \<noteq> Ok ()))"
proof (intro conjI allI impI)
  have t: "access_inv t" using access.run_inv[OF run inv] .
  then show count: "ap_approval_count p = card (approvers i t)" and "finite (approvers i t)"
    using p by (auto simp: access_inv_def dest: tbl_ok_get)
  fix env e t' assume ex: "execute_proposal env e i t = (Ok (), t')"
  then show "\<not> ap_executed p" "\<exists>cfg. multisig_config t = Some cfg \<and> ms_required_approvals cfg \<le> card (approvers i t)"
      "ap_execution_time p \<le> timestamp env"
    using p count by (auto simp: execute_proposal_Ok)
  fix u env2 e2 assume later: "(\<lambda>s s'. \<exists>env. access_step env s s')\<^sup>*\<^sup>* t' u"
  have "executed i t'" using execute_inv[OF t ex] ex by (auto simp: executed_def execute_proposal_Ok Let_def)
  from once.run_inv[OF later this] have "executed i u" .
  then obtain q where "ac_proposals u i = Some q" "ap_executed q" by (auto simp: executed_def)
  then show "fst (execute_proposal env2 e2 i u) \<noteq> Ok ()" by (auto simp: execute_proposal_def split: option.splits)
qed

theorem multisig_threshold_witness:
  "\<exists>t p t'. approve_proposal (signed_at 60 7) (Addr 3) 4 staffed = (Ok (), t) \<and> ac_proposals t 4 = Some p
     \<and> ap_approval_count p = card (approvers 4 t) \<and> execute_proposal (signed_at 200 9) (Addr 9) 4 t = (Ok (), t')"
proof -
  obtain t p where t: "approve_proposal (signed_at 60 7) (Addr 3) 4 staffed = (Ok (), t)" and p: "ac_proposals t 4 = Some p"
      and q: "ap_execution_time p = 150" "\<not> ap_executed p" "ap_approval_count p = 2" "multisig_config t = multisig_config staffed"
    unfolding approve_Ok by (auto simp: staffed_simps)
  have "\<exists>env. access_step env staffed t"
    using t by (intro exI[of _ "signed_at 60 7"] access_step.approve[of _ "Addr 3" 4]) (auto simp: commits_iff)
  then have run: "(\<lambda>s s'. \<exists>env. access_step env s s')\<^sup>*\<^sup>* staffed t" by (rule r_into_rtranclp)
  obtain t' where "execute_proposal (signed_at 200 9) (Addr 9) 4 t = (Ok (), t')"
    unfolding execute_proposal_Ok using p q by (auto simp: staffed_simps)
  with multisig_threshold[OF run staffed_inv p] t p show ?thesis by blast
qed

text \<open>A revoked role can survive its revocation. A member that has delegated a role to itself keeps it
  after the admin revokes the membership, until the ledger the member chose: revocation deletes the
  membership record only.\<close>

lemma revoked_role_survives:
  assumes "delegate_role env h h r e s = (Ok (), s1)" and "revoke_role env2 a r h s1 = (Ok (), s2)" and "sequence env3 < e"
  shows "has_role env3 r h s2 \<and> role_member s2 (r, h) = None"
  using assms by (auto simp: delegate_role_def revoke_role_def ok_rules delete_role_record_def has_role_def Let_def split del: if_split)

lemma revoked_role_survives_example:
  "\<exists>s1 s2. delegate_role (signed_at 1 7) (Addr 2) (Addr 2) ''operator'' 1000000 staffed = (Ok (), s1)
     \<and> revoke_role (signed_at 2 8) (Addr 1) ''operator'' (Addr 2) s1 = (Ok (), s2)
     \<and> has_role (signed_at 3 999999) ''operator'' (Addr 2) s2"
proof -
  obtain s1 where 1: "delegate_role (signed_at 1 7) (Addr 2) (Addr 2) ''operator'' 1000000 staffed = (Ok (), s1)" "ac_admin s1 = Some (Addr 1)"
    by (simp add: delegate_role_def has_role_def staffed_simps new_role_record_def Let_def)
  then obtain s2 where 2: "revoke_role (signed_at 2 8) (Addr 1) ''operator'' (Addr 2) s1 = (Ok (), s2)"
    by (simp add: revoke_role_def admin_only_def)
  from revoked_role_survives[OF 1(1) 2, of "signed_at 3 999999"] 1 2 show ?thesis by auto
qed

end
