(* ===== verification/Rate_Limiter.thy ===== *)
theory Rate_Limiter
  imports Access_Control
begin

text \<open>
  \<open>src/rate_limiter.rs\<close>: a counter per caller and operation in a window that starts at the first
  call and is restarted by the first call after it has passed.
\<close>

section \<open>Model\<close>

datatype Operation = NebulaGeneration | ResourceMinting | ShipUpgrade | NebulaScan | BatchOperation | PrivacyCommit
  | RouteCalculation | ShipRepair

record RateLimitConfig =
  rl_max_calls :: u32
  rl_window_seconds :: u64

definition default_nebula_generation :: RateLimitConfig where
  "default_nebula_generation = \<lparr>rl_max_calls = 5, rl_window_seconds = 60\<rparr>"
definition default_resource_minting :: RateLimitConfig where
  "default_resource_minting = \<lparr>rl_max_calls = 10, rl_window_seconds = 60\<rparr>"
definition default_ship_upgrade :: RateLimitConfig where
  "default_ship_upgrade = \<lparr>rl_max_calls = 3, rl_window_seconds = 300\<rparr>"
definition default_nebula_scan :: RateLimitConfig where
  "default_nebula_scan = \<lparr>rl_max_calls = 10, rl_window_seconds = 3600\<rparr>"
definition default_batch_operation :: RateLimitConfig where
  "default_batch_operation = \<lparr>rl_max_calls = 5, rl_window_seconds = 3600\<rparr>"
definition default_privacy_commit :: RateLimitConfig where
  "default_privacy_commit = \<lparr>rl_max_calls = 20, rl_window_seconds = 3600\<rparr>"
definition default_route_calculation :: RateLimitConfig where
  "default_route_calculation = \<lparr>rl_max_calls = 15, rl_window_seconds = 3600\<rparr>"
definition default_ship_repair :: RateLimitConfig where
  "default_ship_repair = \<lparr>rl_max_calls = 3, rl_window_seconds = 300\<rparr>"

datatype RateLimitError = RateLimitExceeded | Unauthorized | InvalidConfig

record WindowState =
  ws_call_count :: u32
  ws_window_start :: u64

record rate_store = access_store +
  rate_entry :: "(address \<times> Operation) \<rightharpoonup> WindowState"
  rate_config :: "Operation \<rightharpoonup> RateLimitConfig"

fun default_config :: "Operation \<Rightarrow> RateLimitConfig" where
  "default_config NebulaGeneration = default_nebula_generation"
| "default_config ResourceMinting = default_resource_minting"
| "default_config ShipUpgrade = default_ship_upgrade"
| "default_config NebulaScan = default_nebula_scan"
| "default_config BatchOperation = default_batch_operation"
| "default_config PrivacyCommit = default_privacy_commit"
| "default_config RouteCalculation = default_route_calculation"
| "default_config ShipRepair = default_ship_repair"

fun operation_symbol :: "Operation \<Rightarrow> symbol" where
  "operation_symbol NebulaGeneration = ''NebulaGeneration''"
| "operation_symbol ResourceMinting = ''ResourceMinting''"
| "operation_symbol ShipUpgrade = ''ShipUpgrade''"
| "operation_symbol NebulaScan = ''NebulaScan''"
| "operation_symbol BatchOperation = ''BatchOperation''"
| "operation_symbol PrivacyCommit = ''PrivacyCommit''"
| "operation_symbol RouteCalculation = ''RouteCalculation''"
| "operation_symbol ShipRepair = ''ShipRepair''"

definition check_rate_limit :: "env \<Rightarrow> address \<Rightarrow> Operation \<Rightarrow> 'a rate_store_scheme
    \<Rightarrow> (RateLimitError, unit) outcome \<times> 'a rate_store_scheme" where
  "check_rate_limit env caller op s =
    (let config = unwrap_or (rate_config s op) (default_config op);
         now = timestamp env;
         state = unwrap_or (rate_entry s (caller, op)) \<lparr>ws_call_count = 0, ws_window_start = now\<rparr> in
     case checked_add u64_max (ws_window_start state) (rl_window_seconds config) of
       None \<Rightarrow> (Panic, s)
     | Some window_end \<Rightarrow>
     let state = (if now \<ge> window_end then \<lparr>ws_call_count = 0, ws_window_start = now\<rparr> else state) in
     if ws_call_count state \<ge> rl_max_calls config then
       (Err RateLimitExceeded, publish [SS ''RateLimit'', SS ''hit'']
          [SA caller, SS (operation_symbol op), SU (ws_call_count state), SU (rl_max_calls config)] s)
     else let state = state\<lparr>ws_call_count := ws_call_count state + 1\<rparr>
          in (Ok (), s\<lparr>rate_entry := (rate_entry s)((caller, op) \<mapsto> state)\<rparr>))"

definition set_rate_limit_config :: "env \<Rightarrow> address \<Rightarrow> Operation \<Rightarrow> RateLimitConfig \<Rightarrow> 'a rate_store_scheme
    \<Rightarrow> (RateLimitError, unit) outcome \<times> 'a rate_store_scheme" where
  "set_rate_limit_config env admin op config s =
    (if \<not> auth env admin then (Panic, s)
     else if \<not> has_role env admin_role admin s then (Err RateLimitError.Unauthorized, s)
     else if rl_max_calls config = 0 \<or> rl_window_seconds config = 0 then (Err RateLimitError.InvalidConfig, s)
     else (Ok (), s\<lparr>rate_config := (rate_config s)(op \<mapsto> config)\<rparr>))"

section \<open>Lemmas\<close>

lemma publish_rate_store [simp]: "rate_entry (publish t d s) = rate_entry s" "rate_config (publish t d s) = rate_config s"
  by (simp_all add: publish_def)

abbreviation limits :: "Operation \<Rightarrow> 'a rate_store_scheme \<Rightarrow> RateLimitConfig" where
  "limits op s \<equiv> unwrap_or (rate_config s op) (default_config op)"

definition config_inv :: "'a rate_store_scheme \<Rightarrow> bool" where
  "config_inv s \<longleftrightarrow> (\<forall>op c. rate_config s op = Some c \<longrightarrow> 0 < rl_max_calls c \<and> 0 < rl_window_seconds c)"

lemma limits_positive: "config_inv s \<Longrightarrow> 0 < rl_max_calls (limits op s) \<and> 0 < rl_window_seconds (limits op s)"
proof -
  assume inv: "config_inv s"
  show ?thesis
  proof (cases "rate_config s op")
    case None
    then show ?thesis by (cases op) (simp_all add: default_nebula_generation_def default_resource_minting_def default_ship_upgrade_def
        default_nebula_scan_def default_batch_operation_def default_privacy_commit_def default_route_calculation_def default_ship_repair_def)
  qed (use inv in \<open>auto simp: config_inv_def\<close>)
qed

lemma check_rate_Ok [ok_rules]: "check_rate_limit env c op s = (Ok u, s') \<longleftrightarrow>
    (let st = unwrap_or (rate_entry s (c, op)) \<lparr>ws_call_count = 0, ws_window_start = timestamp env\<rparr>;
         e = ws_window_start st + rl_window_seconds (limits op s);
         st' = (if e \<le> timestamp env then \<lparr>ws_call_count = 0, ws_window_start = timestamp env\<rparr> else st) in
     e \<le> u64_max \<and> ws_call_count st' < rl_max_calls (limits op s) \<and>
     s' = s\<lparr>rate_entry := (rate_entry s)((c, op) \<mapsto> st'\<lparr>ws_call_count := ws_call_count st' + 1\<rparr>)\<rparr>)"
  by (auto simp: check_rate_limit_def Let_def ok_rules not_le)

text \<open>A sequence of calls: each by a caller, of an operation, at a time; the ones that pass.\<close>

definition at_time :: "u64 \<Rightarrow> env" where
  "at_time now = signed_at now 0"

fun admitted :: "(u64 \<times> address \<times> Operation) list \<Rightarrow> 'a rate_store_scheme \<Rightarrow> (u64 \<times> address \<times> Operation) list" where
  "admitted [] s = []"
| "admitted ((now, c, op) # calls) s = (case check_rate_limit (at_time now) c op s of
     (Ok _, s') \<Rightarrow> (now, c, op) # admitted calls s'
   | _ \<Rightarrow> admitted calls s)"

lemma at_time_simps [simp]: "timestamp (at_time now) = now"
  by (simp add: at_time_def)

text \<open>How many of the times \<open>ts\<close> lie in \<open>[a, b)\<close>.\<close>

definition hits :: "u64 list \<Rightarrow> u64 \<Rightarrow> u64 \<Rightarrow> nat" where
  "hits ts a b = length (filter (\<lambda>t. a \<le> t \<and> t < b) ts)"

text \<open>The state of one window against the times admitted so far: \<open>M\<close> calls per \<open>W\<close> seconds.\<close>

definition window_inv :: "nat \<Rightarrow> nat \<Rightarrow> u64 list \<Rightarrow> WindowState option \<Rightarrow> bool" where
  "window_inv M W ts e \<longleftrightarrow> (\<forall>a. hits ts a (a + W) \<le> 2 * M) \<and> (case e of
     None \<Rightarrow> ts = []
   | Some st \<Rightarrow> (\<forall>t\<in>set ts. t < ws_window_start st + W) \<and>
       hits ts (ws_window_start st) (ws_window_start st + W) = ws_call_count st \<and> ws_call_count st \<le> M \<and>
       (\<forall>a. ws_window_start st < a + W \<longrightarrow> hits ts a (ws_window_start st) \<le> M))"

lemma hits_snoc [simp]: "hits (ts @ [t]) a b = hits ts a b + of_bool (a \<le> t \<and> t < b)"
  by (simp add: hits_def)

lemma hits_Nil [simp]: "hits [] a b = 0"
  by (simp add: hits_def)

lemma hits_mono: "(\<And>t. t \<in> set ts \<Longrightarrow> a \<le> t \<Longrightarrow> t < b \<Longrightarrow> a' \<le> t \<and> t < b') \<Longrightarrow> hits ts a b \<le> hits ts a' b'"
  unfolding hits_def by (induction ts) auto

lemma hits_split: "hits ts a b \<le> hits ts a m + hits ts m b"
  unfolding hits_def by (induction ts) auto

lemma hits_none: "(\<And>t. t \<in> set ts \<Longrightarrow> t < a) \<Longrightarrow> hits ts a b = 0"
  unfolding hits_def by (induction ts) fastforce+

lemma same_window:
  assumes inv: "window_inv M W ts (Some st)" and t: "ws_window_start st \<le> t" "t < ws_window_start st + W" and c: "ws_call_count st < M"
  shows "window_inv M W (ts @ [t]) (Some (st\<lparr>ws_call_count := ws_call_count st + 1\<rparr>))"
proof -
  let ?b = "ws_window_start st"
  have i: "\<forall>a. hits ts a (a + W) \<le> 2 * M" "\<forall>u\<in>set ts. u < ?b + W" "hits ts ?b (?b + W) = ws_call_count st"
      "\<forall>a. ?b < a + W \<longrightarrow> hits ts a ?b \<le> M"
    using inv by (auto simp: window_inv_def)
  have "hits (ts @ [t]) a (a + W) \<le> 2 * M" for a
  proof (cases "a \<le> t \<and> t < a + W")
    case True
    then have "hits ts a ?b \<le> M" using i(4) t by auto
    moreover have "hits ts ?b (a + W) \<le> hits ts ?b (?b + W)" by (rule hits_mono) (use i(2) in auto)
    ultimately show ?thesis using hits_split[of ts a "a + W" ?b] True i(3) c by simp
  qed (use i(1) in auto)
  moreover have "hits (ts @ [t]) a ?b \<le> M" if "?b < a + W" for a using i(4) that t by auto
  ultimately show ?thesis using i t c by (auto simp: window_inv_def)
qed

lemma new_window:
  assumes inv: "window_inv M W ts e" and t: "\<And>st. e = Some st \<Longrightarrow> ws_window_start st + W \<le> t" and pos: "0 < M" "0 < W"
  shows "window_inv M W (ts @ [t]) (Some \<lparr>ws_call_count = 1, ws_window_start = t\<rparr>)"
proof -
  have old: "u < t" if "u \<in> set ts" for u
    using inv t that by (cases e) (auto simp: window_inv_def dest: less_le_trans)
  have prior: "hits ts a t \<le> M" if "t < a + W" for a
  proof (cases e)
    case (Some st)
    then have b: "ws_window_start st + W \<le> t" using t by blast
    have "hits ts a t \<le> hits ts (ws_window_start st) (ws_window_start st + W)"
      by (rule hits_mono) (use inv Some b that in \<open>auto simp: window_inv_def\<close>)
    also have "\<dots> \<le> M" using inv Some by (simp add: window_inv_def)
    finally show ?thesis .
  qed (use inv in \<open>simp add: window_inv_def\<close>)
  have "hits (ts @ [t]) a (a + W) \<le> 2 * M" for a
  proof (cases "a \<le> t \<and> t < a + W")
    case True
    have "hits ts a (a + W) \<le> hits ts a t" by (rule hits_mono) (use old in auto)
    with prior[of a] True pos show ?thesis by simp
  qed (use inv in \<open>auto simp: window_inv_def\<close>)
  moreover have "hits ts t (t + W) = 0" by (rule hits_none) (rule old)
  moreover have "hits (ts @ [t]) a t \<le> M" if "t < a + W" for a using prior[OF that] by simp
  moreover have "\<forall>u\<in>set (ts @ [t]). u < t + W" using old pos by fastforce
  ultimately show ?thesis using pos by (auto simp: window_inv_def)
qed

text \<open>The times of one caller and operation.\<close>

definition times :: "address \<Rightarrow> Operation \<Rightarrow> (u64 \<times> address \<times> Operation) list \<Rightarrow> u64 list" where
  "times c op calls = map fst (filter (\<lambda>x. snd x = (c, op)) calls)"

lemma times_simps [simp]: "times c op [] = []" "times c op ((t, x) # calls) = (if x = (c, op) then t # times c op calls else times c op calls)"
  by (simp_all add: times_def)

lemma check_window:
  assumes ok: "check_rate_limit (at_time t) c op s = (Ok u, s')" and inv: "window_inv M W ts (rate_entry s (c, op))"
    and cfg: "rl_max_calls (limits op s) = M" "rl_window_seconds (limits op s) = W" "0 < M" "0 < W"
    and start: "\<And>st. rate_entry s (c, op) = Some st \<Longrightarrow> ws_window_start st \<le> t"
  shows "window_inv M W (ts @ [t]) (rate_entry s' (c, op)) \<and> (\<exists>st. rate_entry s' (c, op) = Some st \<and> ws_window_start st \<le> t)"
proof (cases "\<exists>st. rate_entry s (c, op) = Some st \<and> t < ws_window_start st + W")
  case True
  then obtain st where st: "rate_entry s (c, op) = Some st" "t < ws_window_start st + W" by blast
  then have "ws_call_count st < M" "rate_entry s' (c, op) = Some (st\<lparr>ws_call_count := ws_call_count st + 1\<rparr>)"
    using ok cfg(1,2) by (auto simp: check_rate_Ok Let_def split: if_splits)
  then show ?thesis using same_window[of M W ts st t] inv st start[OF st(1)] by simp
next
  case False
  then have "rate_entry s' (c, op) = Some \<lparr>ws_call_count = 1, ws_window_start = t\<rparr>"
    using ok cfg by (cases "rate_entry s (c, op)") (auto simp: check_rate_Ok Let_def)
  moreover have "window_inv M W (ts @ [t]) (Some \<lparr>ws_call_count = 1, ws_window_start = t\<rparr>)"
    using False by (intro new_window[OF inv _ cfg(3,4)]) (auto simp: not_less)
  ultimately show ?thesis by simp
qed

lemma admitted_window:
  assumes "window_inv M W ts (rate_entry s (c, op))"
    and "rl_max_calls (limits op s) = M" "rl_window_seconds (limits op s) = W" "0 < M" "0 < W" and "sorted (map fst calls)"
    and "\<And>st x. rate_entry s (c, op) = Some st \<Longrightarrow> x \<in> set calls \<Longrightarrow> ws_window_start st \<le> fst x"
  shows "hits (ts @ times c op (admitted calls s)) a (a + W) \<le> 2 * M"
  using assms
proof (induction calls arbitrary: s ts)
  case Nil
  then show ?case by (simp add: window_inv_def)
next
  case (Cons x calls)
  obtain t d o' where x: "x = (t, d, o')" by (cases x)
  show ?case
  proof (cases "\<exists>s'. check_rate_limit (at_time t) d o' s = (Ok (), s')")
    case True
    then obtain s' where ok: "check_rate_limit (at_time t) d o' s = (Ok (), s')" by blast
    have cfg: "rate_config s' = rate_config s" using ok by (auto simp: check_rate_Ok Let_def)
    show ?thesis
    proof (cases "(d, o') = (c, op)")
      case eq: True
      have w: "window_inv M W (ts @ [t]) (rate_entry s' (c, op)) \<and> (\<exists>st. rate_entry s' (c, op) = Some st \<and> ws_window_start st \<le> t)"
        using ok eq Cons.prems(1-5) Cons.prems(7)[of _ x] by (intro check_window[of t c op s "()" s' M W ts]) (simp_all add: x)
      have "hits ((ts @ [t]) @ times c op (admitted calls s')) a (a + W) \<le> 2 * M"
        using w Cons.prems cfg by (intro Cons.IH) (auto simp: x)
      then show ?thesis using ok eq by (simp add: x)
    next
      case ne: False
      then have "rate_entry s' (c, op) = rate_entry s (c, op)" using ok by (auto simp: check_rate_Ok Let_def)
      then have "hits (ts @ times c op (admitted calls s')) a (a + W) \<le> 2 * M"
        using Cons.prems cfg by (intro Cons.IH) (auto simp: x)
      then show ?thesis using ok ne by (auto simp: x)
    qed
  next
    case False
    then have "admitted (x # calls) s = admitted calls s"
      by (auto simp: x split: prod.splits outcome.splits)
    moreover have "hits (ts @ times c op (admitted calls s)) a (a + W) \<le> 2 * M"
      using Cons.prems by (intro Cons.IH) auto
    ultimately show ?thesis by simp
  qed
qed

definition no_rates :: rate_store where
  "no_rates = access_store.extend no_access \<lparr>rate_entry = Map.empty, rate_config = Map.empty\<rparr>"

lemma no_rates_simps: "rate_entry no_rates = Map.empty" "rate_config no_rates = Map.empty"
  by (simp_all add: no_rates_def access_store.defs)

section \<open>Properties\<close>

text \<open>C14. The rate limit bounds every interval. Whatever calls anybody makes, in time order, the calls of one
  caller for one operation that pass during any interval as long as the window are at most twice the configured
  maximum (the window is restarted by a call, so the factor two is attained across a restart); a caller is let
  through again as soon as the window of its last entry has passed; and only a holder of the admin role can
  change the limits, which stay positive.\<close>

theorem rate_limit_window:
  fixes s :: "'a rate_store_scheme"
  assumes cfg: "config_inv s" and fresh: "rate_entry s (c, op) = None" and order: "sorted (map fst calls)"
  shows "hits (times c op (admitted calls s)) a (a + rl_window_seconds (limits op s)) \<le> 2 * rl_max_calls (limits op s)
    \<and> (\<forall>(t :: 'a rate_store_scheme) st env. rate_entry t (c, op) = Some st \<and> config_inv t \<and> ws_window_start st + rl_window_seconds (limits op t) \<le> timestamp env
        \<and> timestamp env \<le> u64_max \<longrightarrow> fst (check_rate_limit env c op t) = Ok ())
    \<and> (\<forall>env x op2 cfg2 s'. set_rate_limit_config env x op2 cfg2 s = (Ok (), s') \<longrightarrow> auth env x \<and> has_role env admin_role x s \<and> config_inv s')"
proof (intro conjI allI impI)
  have "window_inv (rl_max_calls (limits op s)) (rl_window_seconds (limits op s)) [] (rate_entry s (c, op))"
    by (simp add: window_inv_def fresh)
  from admitted_window[OF this refl refl _ _ order, of a] limits_positive[OF cfg, of op] fresh
  show "hits (times c op (admitted calls s)) a (a + rl_window_seconds (limits op s)) \<le> 2 * rl_max_calls (limits op s)" by simp
next
  fix t :: "'a rate_store_scheme" and st and env :: env assume h: "rate_entry t (c, op) = Some st \<and> config_inv t \<and> ws_window_start st + rl_window_seconds (limits op t) \<le> timestamp env
        \<and> timestamp env \<le> u64_max"
  then have "\<exists>t'. check_rate_limit env c op t = (Ok (), t')"
    using limits_positive[of t op] by (auto simp: check_rate_Ok Let_def)
  then show "fst (check_rate_limit env c op t) = Ok ()" by auto
next
  fix env x op2 cfg2 s' assume "set_rate_limit_config env x op2 cfg2 s = (Ok (), s')"
  then show "auth env x" "has_role env admin_role x s" "config_inv s'"
    using cfg by (auto simp: set_rate_limit_config_def ok_rules config_inv_def split del: if_split split: if_split_asm)
qed

theorem rate_limit_window_witness:
  "hits (times (Addr 5) ShipUpgrade (admitted (map (\<lambda>t. (t, Addr 5, ShipUpgrade)) [0, 299, 299, 300, 300, 300, 300]) no_rates)) 299 599 = 5
   \<and> 5 \<le> 2 * rl_max_calls (limits ShipUpgrade no_rates)"
proof -
  let ?calls = "map (\<lambda>t. (t, Addr 5, ShipUpgrade)) [0, 299, 299, 300, 300, 300, 300]"
  have "config_inv no_rates" by (simp add: config_inv_def no_rates_simps)
  note b = rate_limit_window[OF this, of "Addr 5" ShipUpgrade ?calls 299]
  have "hits (times (Addr 5) ShipUpgrade (admitted ?calls no_rates)) 299 599 = 5"
    by (simp add: check_rate_limit_def no_rates_simps default_ship_upgrade_def hits_def Let_def checked_add_def)
  then show ?thesis using b by (simp add: no_rates_simps default_ship_upgrade_def)
qed

end
