(* ===== verification/Gas_Compute.thy ===== *)
theory Gas_Compute
  imports Prelude "HOL-Library.Word"
begin

unbundle bit_operations_syntax

text \<open>
  \<open>src/gas_optimized_compute.rs\<close>: the pure computations shared by the generators. The mixing
  functions work on 64-bit words with wrapping arithmetic; the list helpers work on \<open>u32\<close> values
  kept as natural numbers, with \<open>Vec::get_unchecked\<close> as indexing at positions below the length.
\<close>

section \<open>Model: mixing\<close>

type_synonym w64 = "64 word"

definition fast_hash_u64 :: "w64 \<Rightarrow> w64" where
  "fast_hash_u64 input =
    (let hash = input;
         hash = hash XOR drop_bit 33 hash;
         hash = hash * 0xff51afd7ed558ccd;
         hash = hash XOR drop_bit 33 hash;
         hash = hash * 0xc4ceb9fe1a85ec53
     in hash XOR drop_bit 33 hash)"

definition GOLDEN_GAMMA :: w64 where "GOLDEN_GAMMA = 0x9e3779b97f4a7c15"

definition splitmix64 :: "w64 \<Rightarrow> w64" where
  "splitmix64 z =
    (let z = z + GOLDEN_GAMMA;
         z = (z XOR drop_bit 30 z) * 0xbf58476d1ce4e5b9;
         z = (z XOR drop_bit 27 z) * 0x94d049bb133111eb
     in z XOR drop_bit 31 z)"

definition derive_spread :: "w64 \<Rightarrow> w64 \<Rightarrow> w64 \<Rightarrow> w64" where
  "derive_spread seed spread_index salt = splitmix64 (seed XOR splitmix64 (spread_index XOR salt))"

text \<open>\<open>u64::from_le_bytes\<close> and \<open>u64::to_le_bytes\<close>, on lists of bytes.\<close>

type_synonym byte = "8 word"

fun from_le_bytes :: "byte list \<Rightarrow> w64" where
  "from_le_bytes [] = 0"
| "from_le_bytes (b # bs) = ucast b OR push_bit 8 (from_le_bytes bs)"

fun le_bytes :: "nat \<Rightarrow> w64 \<Rightarrow> byte list" where
  "le_bytes 0 w = []"
| "le_bytes (Suc n) w = ucast w # le_bytes n (drop_bit 8 w)"

definition to_le_bytes :: "w64 \<Rightarrow> byte list" where
  "to_le_bytes w = le_bytes 8 w"

fun fold_lanes :: "nat \<Rightarrow> byte list \<Rightarrow> w64 \<Rightarrow> w64" where
  "fold_lanes 0 bytes acc = acc"
| "fold_lanes (Suc n) bytes acc = fold_lanes n (drop 8 bytes) (acc XOR from_le_bytes (take 8 bytes))"

definition fold_seed_bytes :: "byte list \<Rightarrow> w64" where
  "fold_seed_bytes bytes = fold_lanes (length bytes div 8) bytes 0"

definition is_zero_bytes32 :: "byte list \<Rightarrow> bool" where
  "is_zero_bytes32 bytes = list_all (\<lambda>b. b = 0) bytes"

definition expand_u64_to_bytes32 :: "w64 \<Rightarrow> byte list" where
  "expand_u64_to_bytes32 h = concat (map to_le_bytes
     [splitmix64 h, splitmix64 (h XOR 0xdeadcafe12345678), splitmix64 (h + 0x12345678deadbeef),
      splitmix64 (h * 0x0101010101010101 + 1)])"

section \<open>Model: unrolled loops and searches\<close>

text \<open>The sum cannot leave the \<open>u64\<close> range: at most \<open>2^32\<close> values below \<open>2^32\<close>.\<close>

function sum_unrolled :: "u32 list \<Rightarrow> nat \<Rightarrow> u64 \<Rightarrow> nat \<times> u64" where
  "sum_unrolled values i acc = (if i + 4 \<le> length values
     then sum_unrolled values (i + 4) (acc + values ! i + values ! (i + 1) + values ! (i + 2) + values ! (i + 3))
     else (i, acc))"
  by pat_completeness auto
termination by (relation "measure (\<lambda>(values, i, acc). length values - i)") auto

declare sum_unrolled.simps [simp del]

function sum_rest :: "u32 list \<Rightarrow> nat \<Rightarrow> u64 \<Rightarrow> u64" where
  "sum_rest values i acc = (if i < length values then sum_rest values (i + 1) (acc + values ! i) else acc)"
  by pat_completeness auto
termination by (relation "measure (\<lambda>(values, i, acc). length values - i)") auto

declare sum_rest.simps [simp del]

definition sum_vec_u32_optimized :: "u32 list \<Rightarrow> u64" where
  "sum_vec_u32_optimized values = (let (i, acc) = sum_unrolled values 0 0 in sum_rest values i acc)"

definition average_u32_optimized :: "u32 list \<Rightarrow> u32" where
  "average_u32_optimized values = (if values = [] then 0
     else sum_vec_u32_optimized values div length values mod 2 ^ 32)"

fun min_max_loop :: "u32 list \<Rightarrow> u32 \<Rightarrow> u32 \<Rightarrow> u32 \<times> u32" where
  "min_max_loop [] mn mx = (mn, mx)"
| "min_max_loop (val # values) mn mx =
     min_max_loop values (if val < mn then val else mn) (if val > mx then val else mx)"

definition min_max_u32 :: "u32 list \<Rightarrow> u32 \<times> u32" where
  "min_max_u32 values = (if values = [] then (0, 0) else min_max_loop (tl values) (hd values) (hd values))"

function count_unrolled :: "u32 list \<Rightarrow> nat \<Rightarrow> u32 \<Rightarrow> nat \<times> u32" where
  "count_unrolled values i cnt = (if i + 4 \<le> length values
     then count_unrolled values (i + 4)
       (cnt + of_bool (values ! i \<noteq> 0) + of_bool (values ! (i + 1) \<noteq> 0)
        + of_bool (values ! (i + 2) \<noteq> 0) + of_bool (values ! (i + 3) \<noteq> 0))
     else (i, cnt))"
  by pat_completeness auto
termination by (relation "measure (\<lambda>(values, i, cnt). length values - i)") auto

declare count_unrolled.simps [simp del]

function count_rest :: "u32 list \<Rightarrow> nat \<Rightarrow> u32 \<Rightarrow> u32" where
  "count_rest values i cnt = (if i < length values
     then count_rest values (i + 1) (if values ! i \<noteq> 0 then cnt + 1 else cnt) else cnt)"
  by pat_completeness auto
termination by (relation "measure (\<lambda>(values, i, cnt). length values - i)") auto

declare count_rest.simps [simp del]

definition count_nonzero_u32 :: "u32 list \<Rightarrow> u32" where
  "count_nonzero_u32 values = (let (i, cnt) = count_unrolled values 0 0 in count_rest values i cnt)"

definition filter_nonzero_u32 :: "u32 list \<Rightarrow> u32 list" where
  "filter_nonzero_u32 values = (if count_nonzero_u32 values = 0 then [] else filter (\<lambda>val. val \<noteq> 0) values)"

function binary_search_loop :: "u32 list \<Rightarrow> u32 \<Rightarrow> nat \<Rightarrow> nat \<Rightarrow> nat option" where
  "binary_search_loop values target left right = (if left < right then
       let mid = left + (right - left) div 2; mid_val = values ! mid in
       if mid_val = target then Some mid
       else if mid_val < target then binary_search_loop values target (mid + 1) right
       else binary_search_loop values target left mid
     else None)"
  by pat_completeness auto
termination by (relation "measure (\<lambda>(values, target, left, right). right - left)") auto

declare binary_search_loop.simps [simp del]

definition binary_search_u32 :: "u32 list \<Rightarrow> u32 \<Rightarrow> nat option" where
  "binary_search_u32 values target = binary_search_loop values target 0 (length values)"

definition is_power_of_two :: "32 word \<Rightarrow> bool" where
  "is_power_of_two n \<longleftrightarrow> n \<noteq> 0 \<and> (n AND (n - 1)) = 0"

definition clamp_u32 :: "u32 \<Rightarrow> u32 \<Rightarrow> u32 \<Rightarrow> u32" where
  "clamp_u32 val mn mx = (if val < mn then mn else if val > mx then mx else val)"

definition percentage_u32 :: "u32 \<Rightarrow> u32 \<Rightarrow> u32" where
  "percentage_u32 val percentage = val * percentage div 100 mod 2 ^ 32"

fun weighted_sums :: "u32 list \<Rightarrow> u32 list \<Rightarrow> u64 \<Rightarrow> u64 \<Rightarrow> (u64 \<times> u64) option" where
  "weighted_sums (val # values) (weight # weights) weighted_sum weight_sum =
     Option.bind (checked_mul u64_max val weight) (\<lambda>product.
     Option.bind (checked_add u64_max weighted_sum product) (\<lambda>weighted_sum.
     Option.bind (checked_add u64_max weight_sum weight) (\<lambda>weight_sum.
     weighted_sums values weights weighted_sum weight_sum)))"
| "weighted_sums values weights weighted_sum weight_sum = Some (weighted_sum, weight_sum)"

text \<open>\<open>None\<close> is an overflow trap.\<close>

definition weighted_average_u32 :: "u32 list \<Rightarrow> u32 list \<Rightarrow> u32 option" where
  "weighted_average_u32 values weights =
    (if values = [] \<or> length values \<noteq> length weights then Some 0
     else map_option (\<lambda>(weighted_sum, weight_sum). if weight_sum = 0 then 0 else weighted_sum div weight_sum mod 2 ^ 32)
       (weighted_sums values weights 0 0))"

section \<open>Lemmas: mixing is invertible\<close>

text \<open>The inverse of the xor-shift by \<open>k\<close>, when three shifts leave nothing.\<close>

definition unshift :: "nat \<Rightarrow> w64 \<Rightarrow> w64" where
  "unshift k z = z XOR drop_bit k z XOR drop_bit (k + k) z"

lemma xorshift_inverse:
  fixes z :: w64
  assumes "22 \<le> k"
  shows "unshift k (z XOR drop_bit k z) = z" "unshift k z XOR drop_bit k (unshift k z) = z"
proof -
  have far: "drop_bit (k + (k + k)) z = 0"
    by (rule bit_word_eqI) (use assms in \<open>auto simp: bit_simps dest!: bit_imp_le_length\<close>)
  have cancel: "x XOR (x XOR y) = y" for x y :: w64
    by (simp add: xor.assoc[symmetric])
  show "unshift k (z XOR drop_bit k z) = z" "unshift k z XOR drop_bit k (unshift k z) = z"
    by (simp_all add: unshift_def drop_bit_xor far add.assoc xor.assoc cancel xor.left_commute[of "drop_bit k z" z])
qed

definition unsplitmix64 :: "w64 \<Rightarrow> w64" where
  "unsplitmix64 z =
    (let z = unshift 31 z * 0x319642b2d24d8ec3;
         z = unshift 27 z * 0x96de1b173f119089
     in unshift 30 z - GOLDEN_GAMMA)"

lemma mult_inverses:
  "(0xbf58476d1ce4e5b9 :: w64) * 0x96de1b173f119089 = 1" "(0x94d049bb133111eb :: w64) * 0x319642b2d24d8ec3 = 1"
  by simp_all

lemma mult_cancel_inverse: "a * b = (1::w64) \<Longrightarrow> x * a * b = x" "a * b = (1::w64) \<Longrightarrow> x * b * a = x"
  by (simp_all add: mult.assoc mult.commute[of b a])

lemmas mix_inverses = xorshift_inverse[of 30, simplified] xorshift_inverse[of 27, simplified] xorshift_inverse[of 31, simplified]
  mult_cancel_inverse[OF mult_inverses(1)] mult_cancel_inverse[OF mult_inverses(2)]

lemma unsplitmix_splitmix: "unsplitmix64 (splitmix64 z) = z"
  by (simp only: unsplitmix64_def splitmix64_def Let_def mix_inverses add_diff_cancel_right')

lemma splitmix_unsplitmix: "splitmix64 (unsplitmix64 z) = z"
  by (simp only: unsplitmix64_def splitmix64_def Let_def mix_inverses diff_add_cancel)

text \<open>Bytes and words.\<close>

lemma from_le_bytes_le_bytes: "from_le_bytes (le_bytes n w) = take_bit (8 * n) w"
proof (induction n arbitrary: w)
  case (Suc n)
  show ?case unfolding le_bytes.simps from_le_bytes.simps Suc.IH
    by (rule bit_word_eqI) (auto simp: bit_simps not_less)
qed simp

lemma le_bytes_length [simp]: "length (le_bytes n w) = n"
  by (induction n arbitrary: w) auto

lemma to_le_bytes_length [simp]: "length (to_le_bytes w) = 8"
  by (simp add: to_le_bytes_def)

lemma from_to_le_bytes: "from_le_bytes (to_le_bytes w) = w"
  by (simp add: to_le_bytes_def from_le_bytes_le_bytes take_bit_word_eq_self)

section \<open>Lemmas: unrolled loops\<close>

lemma sum_list_drop_step: "i < length xs \<Longrightarrow> sum_list (drop i xs) = xs ! i + sum_list (drop (Suc i) (xs :: nat list))"
  by (simp add: Cons_nth_drop_Suc[symmetric])

lemma sum_rest_eq: "sum_rest xs i acc = acc + sum_list (drop i xs)"
proof (induction xs i acc rule: sum_rest.induct)
  case (1 xs i acc)
  show ?case using 1 by (subst sum_rest.simps) (auto simp: sum_list_drop_step)
qed

lemma sum_unrolled_eq: "sum_rest xs (fst (sum_unrolled xs i acc)) (snd (sum_unrolled xs i acc)) = acc + sum_list (drop i xs)"
proof (induction xs i acc rule: sum_unrolled.induct)
  case (1 xs i acc)
  show ?case
  proof (cases "i + 4 \<le> length xs")
    case True
    have "sum_list (drop i xs) = xs ! i + xs ! (i + 1) + xs ! (i + 2) + xs ! (i + 3) + sum_list (drop (i + 4) xs)"
      using True by (simp add: sum_list_drop_step numeral_eq_Suc)
    with 1[OF True] show ?thesis by (subst (1 2) sum_unrolled.simps) (simp add: True)
  next
    case False
    then show ?thesis by (subst (1 2) sum_unrolled.simps) (simp add: sum_rest_eq)
  qed
qed

lemma sum_vec_exact: "sum_vec_u32_optimized xs = sum_list xs"
  using sum_unrolled_eq[of xs 0 0] by (simp add: sum_vec_u32_optimized_def case_prod_beta)

lemma filter_drop_step: "i < length xs \<Longrightarrow>
    length (filter P (drop i xs)) = of_bool (P (xs ! i)) + length (filter P (drop (Suc i) xs))"
  by (simp add: Cons_nth_drop_Suc[symmetric])

lemma count_rest_eq: "count_rest xs i c = c + length (filter (\<lambda>v. v \<noteq> 0) (drop i xs))"
proof (induction xs i c rule: count_rest.induct)
  case (1 xs i c)
  show ?case using 1 by (subst count_rest.simps) (auto simp: filter_drop_step)
qed

lemma count_unrolled_eq:
  "count_rest xs (fst (count_unrolled xs i c)) (snd (count_unrolled xs i c)) = c + length (filter (\<lambda>v. v \<noteq> 0) (drop i xs))"
proof (induction xs i c rule: count_unrolled.induct)
  case (1 xs i c)
  show ?case
  proof (cases "i + 4 \<le> length xs")
    case True
    have "length (filter (\<lambda>v. v \<noteq> 0) (drop i xs)) = of_bool (xs ! i \<noteq> 0) + of_bool (xs ! (i + 1) \<noteq> 0) + of_bool (xs ! (i + 2) \<noteq> 0)
        + of_bool (xs ! (i + 3) \<noteq> 0) + length (filter (\<lambda>v. v \<noteq> 0) (drop (i + 4) xs))"
      using True filter_drop_step[of i xs "\<lambda>v. v \<noteq> 0"] filter_drop_step[of "i + 1" xs "\<lambda>v. v \<noteq> 0"]
        filter_drop_step[of "i + 2" xs "\<lambda>v. v \<noteq> 0"] filter_drop_step[of "i + 3" xs "\<lambda>v. v \<noteq> 0"]
      by (simp add: eval_nat_numeral)
    with 1[OF True] show ?thesis by (subst (1 2) count_unrolled.simps) (simp add: True del: filter_drop_step)
  next
    case False
    then show ?thesis by (subst (1 2) count_unrolled.simps) (simp add: count_rest_eq)
  qed
qed

lemma count_nonzero_exact: "count_nonzero_u32 xs = length (filter (\<lambda>v. v \<noteq> 0) xs)"
  using count_unrolled_eq[of xs 0 0] by (simp add: count_nonzero_u32_def case_prod_beta)

lemma filter_nonzero_exact: "filter_nonzero_u32 xs = filter (\<lambda>v. v \<noteq> 0) xs"
  by (auto simp: filter_nonzero_u32_def count_nonzero_exact)

lemma min_max_loop_exact: "min_max_loop xs mn mx = (Min (insert mn (set xs)), Max (insert mx (set xs)))"
proof (induction xs arbitrary: mn mx)
  case (Cons x xs)
  have "Min (insert mn (set (x # xs))) = Min (insert (min x mn) (set xs))" "Max (insert mx (set (x # xs))) = Max (insert (max x mx) (set xs))"
    by (cases "xs = []"; simp add: ac_simps)+
  then show ?case using Cons by (simp add: min_def max_def)
qed simp

lemma min_max_exact: "xs \<noteq> [] \<Longrightarrow> min_max_u32 xs = (Min (set xs), Max (set xs))"
  by (cases xs) (auto simp: min_max_u32_def min_max_loop_exact)

section \<open>Lemmas: binary search\<close>

lemma binary_search_loop_Some:
  "binary_search_loop xs v l r = Some i \<Longrightarrow> l \<le> i \<and> i < r \<and> xs ! i = v"
proof (induction xs v l r rule: binary_search_loop.induct)
  case (1 xs v l r)
  let ?m = "l + (r - l) div 2"
  show ?case
  proof (cases "l < r")
    case True
    then have m: "l \<le> ?m" "?m < r" by auto
    consider "xs ! ?m = v" | "xs ! ?m < v" | "xs ! ?m > v" by linarith
    then show ?thesis
    proof cases
      case 1
      with \<open>binary_search_loop xs v l r = Some i\<close> True m show ?thesis by (subst (asm) binary_search_loop.simps) (simp add: Let_def)
    next
      case 2
      then have "binary_search_loop xs v (?m + 1) r = Some i"
        using "1.prems" True by (subst (asm) binary_search_loop.simps) (simp add: Let_def)
      with "1.IH"(1)[OF True refl refl] 2 m show ?thesis by auto
    next
      case 3
      then have "binary_search_loop xs v l ?m = Some i"
        using "1.prems" True by (subst (asm) binary_search_loop.simps) (simp add: Let_def)
      with "1.IH"(2)[OF True refl refl] 3 m show ?thesis by auto
    qed
  next
    case False
    with "1.prems" show ?thesis by (subst (asm) binary_search_loop.simps) simp
  qed
qed

lemma binary_search_loop_finds:
  "sorted xs \<Longrightarrow> r \<le> length xs \<Longrightarrow> l \<le> i \<Longrightarrow> i < r \<Longrightarrow> xs ! i = v \<Longrightarrow> binary_search_loop xs v l r \<noteq> None"
proof (induction xs v l r rule: binary_search_loop.induct)
  case (1 xs v l r)
  let ?m = "l + (r - l) div 2"
  have lr: "l < r" and m: "?m < r" using 1 by auto
  have mono: "xs ! a \<le> xs ! b" if "a \<le> b" "b < length xs" for a b
    using \<open>sorted xs\<close> that by (rule sorted_nth_mono)
  consider "xs ! ?m = v" | "xs ! ?m < v" | "xs ! ?m > v" by linarith
  then show ?case
  proof cases
    case 1
    then show ?thesis using lr by (subst binary_search_loop.simps) (simp add: Let_def)
  next
    case 2
    then have "?m + 1 \<le> i" using mono[of i ?m] "1.prems" m by (intro leI notI) auto
    with "1.IH"(1)[OF lr refl refl] 2 "1.prems" have "binary_search_loop xs v (?m + 1) r \<noteq> None" by auto
    then show ?thesis using lr 2 by (subst binary_search_loop.simps) (simp add: Let_def)
  next
    case 3
    then have "i < ?m" using mono[of ?m i] "1.prems" by (cases "?m \<le> i") auto
    with "1.IH"(2)[OF lr refl refl] 3 "1.prems" m have "binary_search_loop xs v l ?m \<noteq> None" by auto
    then show ?thesis using lr 3 by (subst binary_search_loop.simps) (simp add: Let_def)
  qed
qed

lemma binary_search_exact:
  assumes "sorted xs"
  shows "(case binary_search_u32 xs v of Some i \<Rightarrow> i < length xs \<and> xs ! i = v | None \<Rightarrow> v \<notin> set xs)"
proof (cases "binary_search_u32 xs v")
  case None
  then show ?thesis using binary_search_loop_finds[OF assms, of "length xs" 0 _ v]
    by (auto simp: binary_search_u32_def in_set_conv_nth)
next
  case (Some i)
  then show ?thesis using binary_search_loop_Some[of xs v 0 "length xs" i] by (simp add: binary_search_u32_def)
qed

section \<open>Lemmas: powers of two\<close>

lemma and_pred_nat: "0 < n \<Longrightarrow> n AND (n - 1) = 0 \<longleftrightarrow> (\<exists>k. n = (2::nat) ^ k)"
proof (induction n rule: less_induct)
  case (less n)
  show ?case
  proof (cases "even n")
    case True
    then obtain m where m: "n = 2 * m" by blast
    then have pos: "0 < m" "m < n" using less.prems by auto
    have half: "(n - 1) div 2 = m - 1" "n div 2 = m" using m pos by auto
    have "n AND (n - 1) = 2 * (m AND (m - 1))" by (subst and_rec) (simp only: half, simp add: True)
    then have "n AND (n - 1) = 0 \<longleftrightarrow> (\<exists>k. m = 2 ^ k)" using less.IH[OF pos(2,1)] by simp
    also have "\<dots> \<longleftrightarrow> (\<exists>k. n = 2 ^ k)"
    proof
      assume "\<exists>k. n = 2 ^ k"
      then obtain k where k: "2 * m = 2 ^ k" using m by auto
      then have "k \<noteq> 0" by (intro notI) simp
      then show "\<exists>k. m = 2 ^ k" using k by (cases k) auto
    qed (use m in \<open>auto intro: exI[of _ "Suc _"]\<close>)
    finally show ?thesis .
  next
    case False
    then obtain m where m: "n = 2 * m + 1" by (auto elim: oddE)
    then have "n AND (n - 1) = 2 * m" by (subst and_rec) simp
    moreover have "(\<exists>k. n = 2 ^ k) \<longleftrightarrow> m = 0"
    proof
      assume "\<exists>k. n = 2 ^ k"
      then obtain k where k: "n = 2 ^ k" by blast
      with False have "k = 0" by (cases k) auto
      with k m show "m = 0" by simp
    qed (use m in \<open>auto intro: exI[of _ 0]\<close>)
    ultimately show ?thesis by simp
  qed
qed

lemma unat_pow2: "k < 32 \<Longrightarrow> unat (2 ^ k :: 32 word) = 2 ^ k"
proof -
  assume k: "k < 32"
  then have "(2::nat) ^ k < 2 ^ 32" by (intro power_strict_increasing) auto
  moreover have "(2 ^ k :: 32 word) = word_of_nat (2 ^ k)" by simp
  ultimately show ?thesis using k by (simp only: unsigned_of_nat) (simp add: take_bit_nat_eq_self)
qed

lemma power_of_two_exact: "is_power_of_two n \<longleftrightarrow> (\<exists>k<32. n = 2 ^ k)"
proof (cases "n = 0")
  case True
  have "(2::32 word) ^ k \<noteq> 0" if "k < 32" for k using that by simp
  with True show ?thesis by (auto simp: is_power_of_two_def)
next
  case False
  then have pos: "0 < unat n" by (simp add: unat_gt_0)
  have "(n AND (n - 1)) = 0 \<longleftrightarrow> unat n AND (unat n - 1) = 0"
    using False by (metis unat_minus_one unsigned_0 unsigned_and_eq unsigned_word_eqI)
  also have "\<dots> \<longleftrightarrow> (\<exists>k. unat n = 2 ^ k)" by (rule and_pred_nat[OF pos])
  also have "\<dots> \<longleftrightarrow> (\<exists>k<32. n = 2 ^ k)"
  proof
    assume "\<exists>k. unat n = 2 ^ k"
    then obtain k where k: "unat n = 2 ^ k" by blast
    moreover have "unat n < 2 ^ 32" using unsigned_less[of n] by simp
    ultimately have "(2::nat) ^ k < 2 ^ 32" by simp
    then have "k < 32" using power_less_imp_less_exp[of "2::nat" k 32] by simp
    moreover have "n = 2 ^ k"
    proof (rule unsigned_word_eqI[where ?'a = nat])
      show "unat n = unat (2 ^ k :: 32 word)" using k \<open>k < 32\<close> by (simp add: unat_pow2)
    qed
    ultimately show "\<exists>k<32. n = 2 ^ k" by blast
  qed (auto simp: unat_pow2)
  finally show ?thesis using False by (simp add: is_power_of_two_def)
qed

section \<open>Properties\<close>

text \<open>The mixing function is a bijection, as its comment says, with an explicit inverse; and a layout hash
  determines the entropy it was expanded from: the inverse applied to the first eight of the 32 bytes gives it
  back.\<close>

lemma mixing_invertible:
  "unsplitmix64 (splitmix64 z) = z \<and> splitmix64 (unsplitmix64 z) = z \<and> bij splitmix64
   \<and> length (expand_u64_to_bytes32 h) = 32
   \<and> unsplitmix64 (from_le_bytes (take 8 (expand_u64_to_bytes32 h))) = h"
proof -
  have "bij splitmix64"
    by (rule bij_betw_byWitness[of _ unsplitmix64]) (auto simp: unsplitmix_splitmix splitmix_unsplitmix)
  then show ?thesis
    by (simp add: unsplitmix_splitmix splitmix_unsplitmix expand_u64_to_bytes32_def from_to_le_bytes)
qed

text \<open>The optimised loops compute what they stand for: the unrolled sum and count equal the plain ones, the
  filter and the single-pass minimum and maximum are exact, the bit trick recognises exactly the powers of two,
  and on a sorted vector the binary search returns a position of the value or, when it is absent, nothing.\<close>

lemma optimised_loops_exact:
  "sum_vec_u32_optimized xs = sum_list xs \<and> count_nonzero_u32 xs = length (filter (\<lambda>v. v \<noteq> 0) xs)
   \<and> filter_nonzero_u32 xs = filter (\<lambda>v. v \<noteq> 0) xs
   \<and> (xs \<noteq> [] \<longrightarrow> min_max_u32 xs = (Min (set xs), Max (set xs)))
   \<and> (is_power_of_two n \<longleftrightarrow> (\<exists>k<32. n = 2 ^ k))
   \<and> (sorted xs \<longrightarrow> (case binary_search_u32 xs v of Some i \<Rightarrow> i < length xs \<and> xs ! i = v | None \<Rightarrow> v \<notin> set xs))"
  using binary_search_exact[of xs v] min_max_exact[of xs]
  by (simp add: sum_vec_exact count_nonzero_exact filter_nonzero_exact power_of_two_exact)

lemma optimised_loops_exact_example:
  "binary_search_u32 [2, 3, 5, 7, 11] 7 \<noteq> None \<and> sum_vec_u32_optimized [2, 3, 5, 7, 11] = 28
   \<and> min_max_u32 [2, 3, 5, 7, 11] = (2, 11)"
  using optimised_loops_exact[of "[2, 3, 5, 7, 11]" 4 7]
  by (auto split: option.splits)

end
