(* ===== verification/Nebula_Gen.thy ===== *)
theory Nebula_Gen
  imports Rate_Limiter Gas_Compute
begin

unbundle bit_operations_syntax

text \<open>
  \<open>src/nebula_gen.rs\<close>: deterministic generation of nebula layouts from a seed and the ledger, their
  storage with a lifetime, and the queries on them. Identifiers and sizes are natural numbers as in the
  rest of the model; the generator itself computes on 64-bit words.
\<close>

section \<open>Model: generation\<close>

abbreviation MAX_REGION_ID :: u64 where "MAX_REGION_ID \<equiv> 1000000"
abbreviation MIN_SHIP_ID :: u64 where "MIN_SHIP_ID \<equiv> 1"
abbreviation DEFAULT_LAYOUT_TTL :: u64 where "DEFAULT_LAYOUT_TTL \<equiv> 86400"

datatype NebulaError = NotInitialized | AlreadyInitialized | InvalidSeed | InvalidIndex | LayoutNotFound | InvalidSize
  | InvalidTtl | InvalidShipId | InvalidRegionId | AnomalyOutOfBounds | RateLimitExceeded

definition nebula_from_rate :: "RateLimitError \<Rightarrow> NebulaError" where
  "nebula_from_rate e = NebulaError.RateLimitExceeded"

datatype ResourceClass = Sparse | Moderate | Abundant

datatype AnomalyType = DustCloud | IonStorm | CrystalFormation | PlasmaVent | DarkMatterPocket

record Anomaly =
  an_x :: u64
  an_y :: u64
  an_rarity :: u64
  an_type :: AnomalyType
  an_class :: ResourceClass

record NebulaLayout =
  nl_ship_id :: u64
  nl_region_id :: u64
  nl_layout_hash :: "byte list"
  nl_anomalies :: "Anomaly list"
  nl_size :: u32
  nl_generated_at :: u64

record NebulaConfig =
  nc_admin :: address
  nc_default_size :: u32
  nc_min_size :: u32
  nc_max_size :: u32
  nc_layout_ttl :: u64

record nebula_store = rate_store +
  nebula_config :: "NebulaConfig option"
  active_layout :: "u64 \<rightharpoonup> NebulaLayout"

definition SALT_X :: w64 where "SALT_X = 0x9e3779b97f4a7c15"
definition SALT_Y :: w64 where "SALT_Y = 0x6c62272e07bb0142"
definition SALT_R :: w64 where "SALT_R = 0xbf58476d1ce4e5b9"
definition SALT_T :: w64 where "SALT_T = 0x94d049bb133111eb"

abbreviation ANOMALY_CHUNK :: nat where "ANOMALY_CHUNK \<equiv> 8"

definition build_layout_hash :: "w64 \<Rightarrow> byte list" where
  "build_layout_hash h = expand_u64_to_bytes32 h"

definition u64_to_anomaly_type :: "u64 \<Rightarrow> AnomalyType" where
  "u64_to_anomaly_type v = (if v mod 5 = 0 then DustCloud else if v mod 5 = 1 then IonStorm
     else if v mod 5 = 2 then CrystalFormation else if v mod 5 = 3 then PlasmaVent else DarkMatterPocket)"

definition rarity_to_class :: "u64 \<Rightarrow> ResourceClass" where
  "rarity_to_class rarity = (if rarity \<le> 33 then Sparse else if rarity \<le> 66 then Moderate else Abundant)"

definition make_anomaly :: "w64 \<Rightarrow> u32 \<Rightarrow> Anomaly" where
  "make_anomaly master index =
    (let spread = word_of_nat index * GOLDEN_GAMMA;
         x = unat (derive_spread master spread SALT_X) mod 1000;
         y = unat (derive_spread master spread SALT_Y) mod 1000;
         rarity = unat (derive_spread master spread SALT_R) mod 101;
         t = unat (derive_spread master spread SALT_T)
     in \<lparr>an_x = x, an_y = y, an_rarity = rarity, an_type = u64_to_anomaly_type t, an_class = rarity_to_class rarity\<rparr>)"

text \<open>The two loops of \<open>generate_anomalies\<close>: full chunks, then the rest. \<open>None\<close> is the overflow trap
  of \<open>base + chunk_len\<close>.\<close>

function generate_chunks :: "w64 \<Rightarrow> u32 \<Rightarrow> u32 \<Rightarrow> Anomaly list \<Rightarrow> (u32 \<times> Anomaly list) option" where
  "generate_chunks master sz base anomalies =
    (if base + ANOMALY_CHUNK > u32_max then None
     else if base + ANOMALY_CHUNK \<le> sz then
       let chunk = map (\<lambda>k. make_anomaly master (base + k)) [0..<ANOMALY_CHUNK];
           anomalies = (if base = 0 then chunk else anomalies @ chunk)
       in generate_chunks master sz (base + ANOMALY_CHUNK) anomalies
     else Some (base, anomalies))"
  by pat_completeness auto
termination by (relation "measure (\<lambda>(master, sz, base, anomalies). sz - base)") auto

declare generate_chunks.simps [simp del]

function generate_rest :: "w64 \<Rightarrow> u32 \<Rightarrow> u32 \<Rightarrow> Anomaly list \<Rightarrow> Anomaly list" where
  "generate_rest master sz base anomalies =
    (if base < sz then generate_rest master sz (base + 1) (anomalies @ [make_anomaly master base]) else anomalies)"
  by pat_completeness auto
termination by (relation "measure (\<lambda>(master, sz, base, anomalies). sz - base)") auto

declare generate_rest.simps [simp del]

definition generate_anomalies :: "w64 \<Rightarrow> u32 \<Rightarrow> Anomaly list option" where
  "generate_anomalies master sz =
     map_option (\<lambda>(base, anomalies). generate_rest master sz base anomalies) (generate_chunks master sz 0 [])"

definition ttl_to_ledgers :: "u64 \<Rightarrow> u32" where
  "ttl_to_ledgers ttl_seconds = (if ttl_seconds div 5 \<le> u32_max then ttl_seconds div 5 else u32_max)"

definition is_expired :: "u64 \<Rightarrow> u64 \<Rightarrow> u64 \<Rightarrow> bool" where
  "is_expired now generated_at ttl \<longleftrightarrow> now > saturating_add u64_max generated_at ttl"

section \<open>Model: the contract\<close>

definition nebula_init :: "env \<Rightarrow> address \<Rightarrow> u32 \<Rightarrow> u32 \<Rightarrow> u32 \<Rightarrow> u64 \<Rightarrow> 'a nebula_store_scheme
    \<Rightarrow> (NebulaError, unit) outcome \<times> 'a nebula_store_scheme" where
  "nebula_init env admin default_size min_size max_size layout_ttl s =
    (if nebula_config s \<noteq> None then (Err NebulaError.AlreadyInitialized, s)
     else if \<not> auth env admin then (Panic, s)
     else if min_size = 0 \<or> min_size > max_size then (Err NebulaError.InvalidSize, s)
     else let ttl = (if layout_ttl = 0 then DEFAULT_LAYOUT_TTL else layout_ttl);
              clamped = min (max default_size min_size) max_size
          in (Ok (), s\<lparr>nebula_config := Some \<lparr>nc_admin = admin, nc_default_size = clamped, nc_min_size = min_size,
                 nc_max_size = max_size, nc_layout_ttl = ttl\<rparr>\<rparr>))"

definition entropy_master :: "env \<Rightarrow> u64 \<Rightarrow> u64 \<Rightarrow> byte list \<Rightarrow> w64" where
  "entropy_master env ship_id region_id seed =
     splitmix64 (fold_seed_bytes seed) XOR splitmix64 (word_of_nat (sequence env)) XOR splitmix64 (word_of_nat (timestamp env))
       XOR splitmix64 (word_of_nat ship_id) XOR splitmix64 (word_of_nat region_id)"

definition generate_validated_nebula_layout :: "env \<Rightarrow> address \<Rightarrow> u64 \<Rightarrow> u64 \<Rightarrow> byte list \<Rightarrow> 'a nebula_store_scheme
    \<Rightarrow> (NebulaError, NebulaLayout) outcome \<times> 'a nebula_store_scheme" where
  "generate_validated_nebula_layout env caller ship_id region_id seed s =
    (case nebula_config s of
       None \<Rightarrow> (Err NebulaError.NotInitialized, s)
     | Some config \<Rightarrow>
     if \<not> auth env caller then (Panic, s)
     else and_then (map_err nebula_from_rate (check_rate_limit env caller NebulaGeneration s)) (\<lambda>_ s.
     if ship_id < MIN_SHIP_ID then (Err NebulaError.InvalidShipId, s)
     else if region_id < 1 \<or> region_id > MAX_REGION_ID then (Err NebulaError.InvalidRegionId, s)
     else if is_zero_bytes32 seed then (Err NebulaError.InvalidSeed, s)
     else let master = entropy_master env ship_id region_id seed;
              size = nc_default_size config in
     case generate_anomalies master size of
       None \<Rightarrow> (Panic, s)
     | Some anomalies \<Rightarrow>
     let layout_hash = build_layout_hash master;
         layout = \<lparr>nl_ship_id = ship_id, nl_region_id = region_id, nl_layout_hash = layout_hash, nl_anomalies = anomalies,
           nl_size = size, nl_generated_at = timestamp env\<rparr>;
         s = s\<lparr>active_layout := (active_layout s)(ship_id \<mapsto> layout)\<rparr>
     in (Ok layout, publish [SS ''NebulaGen'', SS ''generated'']
           ([SU ship_id] @ map (\<lambda>b. SU (unat b)) layout_hash @ [SU size]) s)))"

definition layout_ttl_in_force :: "'a nebula_store_scheme \<Rightarrow> u64" where
  "layout_ttl_in_force s = (case nebula_config s of None \<Rightarrow> DEFAULT_LAYOUT_TTL | Some c \<Rightarrow> nc_layout_ttl c)"

definition get_live_layout :: "env \<Rightarrow> u64 \<Rightarrow> 'a nebula_store_scheme \<Rightarrow> NebulaLayout option \<times> 'a nebula_store_scheme" where
  "get_live_layout env ship_id s = (case active_layout s ship_id of
     None \<Rightarrow> (None, s)
   | Some layout \<Rightarrow>
       if is_expired (timestamp env) (nl_generated_at layout) (layout_ttl_in_force s)
       then (None, s\<lparr>active_layout := (active_layout s)(ship_id := None)\<rparr>)
       else (Some layout, s))"

definition query_anomaly :: "env \<Rightarrow> u64 \<Rightarrow> u32 \<Rightarrow> 'a nebula_store_scheme \<Rightarrow> (NebulaError, Anomaly) outcome \<times> 'a nebula_store_scheme" where
  "query_anomaly env ship_id index s =
    (if ship_id < MIN_SHIP_ID then (Err NebulaError.InvalidShipId, s)
     else case get_live_layout env ship_id s of
       (None, s) \<Rightarrow> (Err NebulaError.LayoutNotFound, s)
     | (Some layout, s) \<Rightarrow>
         if index < length (nl_anomalies layout) then (Ok (nl_anomalies layout ! index), s)
         else (Err NebulaError.InvalidIndex, s))"

definition get_layout :: "env \<Rightarrow> u64 \<Rightarrow> 'a nebula_store_scheme \<Rightarrow> (NebulaError, NebulaLayout option) outcome \<times> 'a nebula_store_scheme" where
  "get_layout env ship_id s = (let (layout, s) = get_live_layout env ship_id s in (Ok layout, s))"

definition has_anomaly :: "env \<Rightarrow> u64 \<Rightarrow> u32 \<Rightarrow> 'a nebula_store_scheme \<Rightarrow> (NebulaError, bool) outcome \<times> 'a nebula_store_scheme" where
  "has_anomaly env ship_id anomaly_index s =
    (if ship_id < MIN_SHIP_ID then (Err NebulaError.InvalidShipId, s)
     else case get_live_layout env ship_id s of
       (None, s) \<Rightarrow> (Err NebulaError.LayoutNotFound, s)
     | (Some layout, s) \<Rightarrow>
         if anomaly_index \<ge> nl_size layout then (Err NebulaError.AnomalyOutOfBounds, s) else (Ok True, s))"

definition update_layout_ttl :: "env \<Rightarrow> u64 \<Rightarrow> 'a nebula_store_scheme \<Rightarrow> (NebulaError, unit) outcome \<times> 'a nebula_store_scheme" where
  "update_layout_ttl env new_ttl s = (case nebula_config s of
     None \<Rightarrow> (Err NebulaError.NotInitialized, s)
   | Some config \<Rightarrow>
       if \<not> auth env (nc_admin config) then (Panic, s)
       else if new_ttl = 0 then (Err NebulaError.InvalidTtl, s)
       else (Ok (), s\<lparr>nebula_config := Some (config\<lparr>nc_layout_ttl := new_ttl\<rparr>)\<rparr>))"

definition clean_expired_layout :: "env \<Rightarrow> u64 \<Rightarrow> 'a nebula_store_scheme \<Rightarrow> (NebulaError, bool) outcome \<times> 'a nebula_store_scheme" where
  "clean_expired_layout env ship_id s = (case nebula_config s of
     None \<Rightarrow> (Err NebulaError.NotInitialized, s)
   | Some config \<Rightarrow>
       if \<not> auth env (nc_admin config) then (Panic, s)
       else case active_layout s ship_id of
         Some layout \<Rightarrow>
           if is_expired (timestamp env) (nl_generated_at layout) (nc_layout_ttl config)
           then (Ok True, s\<lparr>active_layout := (active_layout s)(ship_id := None)\<rparr>)
           else (Ok False, s)
       | None \<Rightarrow> (Ok False, s))"

definition remove_if_expired :: "NebulaConfig \<Rightarrow> u64 \<Rightarrow> u64 \<Rightarrow> 'a nebula_store_scheme \<Rightarrow> bool \<times> 'a nebula_store_scheme" where
  "remove_if_expired config now ship_id s = (case active_layout s ship_id of
     Some l \<Rightarrow>
       if is_expired now (nl_generated_at l) (nc_layout_ttl config)
       then (True, publish [SS ''neb_gen'', SS ''cleaned''] [SU ship_id] (s\<lparr>active_layout := (active_layout s)(ship_id := None)\<rparr>))
       else (False, s)
   | None \<Rightarrow> (False, s))"

fun clean_loop :: "NebulaConfig \<Rightarrow> u64 \<Rightarrow> u64 list \<Rightarrow> u32 \<Rightarrow> 'a nebula_store_scheme \<Rightarrow> u32 \<times> 'a nebula_store_scheme" where
  "clean_loop config now [] removed s = (removed, s)"
| "clean_loop config now (ship_id # ship_ids) removed s =
    (let (gone, s) = remove_if_expired config now ship_id s
     in clean_loop config now ship_ids (if gone then removed + 1 else removed) s)"

definition clean_expired_layouts :: "env \<Rightarrow> u64 list \<Rightarrow> 'a nebula_store_scheme \<Rightarrow> (NebulaError, u32) outcome \<times> 'a nebula_store_scheme" where
  "clean_expired_layouts env ship_ids s = (case nebula_config s of
     None \<Rightarrow> (Err NebulaError.NotInitialized, s)
   | Some config \<Rightarrow>
       if \<not> auth env (nc_admin config) then (Panic, s)
       else let (removed, s) = clean_loop config (timestamp env) ship_ids 0 s in (Ok removed, s))"

section \<open>Steps and invariant\<close>

inductive nebula_step :: "env \<Rightarrow> 'a nebula_store_scheme \<Rightarrow> 'a nebula_store_scheme \<Rightarrow> bool" for env where
  init: "commits (nebula_init env a d mn mx ttl) s s' \<Longrightarrow> nebula_step env s s'"
| generate: "commits (generate_validated_nebula_layout env c i r seed) s s' \<Longrightarrow> nebula_step env s s'"
| query: "commits (query_anomaly env i k) s s' \<Longrightarrow> nebula_step env s s'"
| layout: "commits (get_layout env i) s s' \<Longrightarrow> nebula_step env s s'"
| has: "commits (has_anomaly env i k) s s' \<Longrightarrow> nebula_step env s s'"
| ttl: "commits (update_layout_ttl env n) s s' \<Longrightarrow> nebula_step env s s'"
| clean: "commits (clean_expired_layout env i) s s' \<Longrightarrow> nebula_step env s s'"
| sweep: "commits (clean_expired_layouts env is) s s' \<Longrightarrow> nebula_step env s s'"

definition anomaly_ok :: "Anomaly \<Rightarrow> bool" where
  "anomaly_ok a \<longleftrightarrow> an_x a < 1000 \<and> an_y a < 1000 \<and> an_rarity a \<le> 100 \<and> an_class a = rarity_to_class (an_rarity a)"

definition layout_ok :: "u64 \<Rightarrow> NebulaLayout \<Rightarrow> bool" where
  "layout_ok i l \<longleftrightarrow> nl_ship_id l = i \<and> 0 < i \<and> length (nl_anomalies l) = nl_size l \<and> list_all anomaly_ok (nl_anomalies l)
     \<and> length (nl_layout_hash l) = 32"

definition nebula_inv :: "'a nebula_store_scheme \<Rightarrow> bool" where
  "nebula_inv s \<longleftrightarrow> (\<forall>i l. active_layout s i = Some l \<longrightarrow> layout_ok i l)
     \<and> (\<forall>c. nebula_config s = Some c \<longrightarrow> 0 < nc_min_size c \<and> nc_min_size c \<le> nc_default_size c \<and> nc_default_size c \<le> nc_max_size c
          \<and> 0 < nc_layout_ttl c)"

section \<open>Lemmas\<close>

lemma publish_nebula_store [simp]: "nebula_config (publish t d s) = nebula_config s" "active_layout (publish t d s) = active_layout s"
  by (simp_all add: publish_def)

text \<open>The chunked loops build the plain list.\<close>

lemma map_upt_append: "i \<le> j \<Longrightarrow> map f [0..<i] @ map (\<lambda>k. f (i + k)) [0..<j - i] = map f [0..<j]"
proof -
  assume "i \<le> j"
  then have "[0..<j] = [0..<i] @ [i..<j]" by (metis le_add_diff_inverse upt_add_eq_append zero_le)
  moreover have "[i..<j] = map (\<lambda>k. i + k) [0..<j - i]" using map_add_upt[of i "j - i"] \<open>i \<le> j\<close> by (simp add: add.commute)
  ultimately show ?thesis by simp
qed

lemma next_chunk:
  "as = map (make_anomaly m) [0..<base] \<Longrightarrow>
   (if base = 0 then map (\<lambda>k. make_anomaly m (base + k)) [0..<ANOMALY_CHUNK]
    else as @ map (\<lambda>k. make_anomaly m (base + k)) [0..<ANOMALY_CHUNK]) = map (make_anomaly m) [0..<base + ANOMALY_CHUNK]"
  using map_upt_append[of base "base + ANOMALY_CHUNK" "make_anomaly m"] by (simp split: if_splits)

lemma chunks_plain:
  assumes "sz + ANOMALY_CHUNK \<le> u32_max" "base \<le> sz" "as = map (make_anomaly m) [0..<base]"
  shows "\<exists>b. b \<le> sz \<and> generate_chunks m sz base as = Some (b, map (make_anomaly m) [0..<b])"
  using assms
proof (induction m sz base as rule: generate_chunks.induct)
  case (1 m sz base as)
  show ?case
  proof (cases "base + ANOMALY_CHUNK \<le> sz")
    case True
    note next_chunk[OF "1.prems"(3)]
    moreover have "\<not> base + ANOMALY_CHUNK > u32_max" using True "1.prems" by simp
    ultimately show ?thesis
      using "1.IH"[OF _ True refl refl] "1.prems"(1) True by (subst generate_chunks.simps) (simp add: Let_def)
  next
    case False
    with "1.prems" show ?thesis by (subst generate_chunks.simps) auto
  qed
qed

lemma rest_plain:
  "base \<le> sz \<Longrightarrow> as = map (make_anomaly m) [0..<base] \<Longrightarrow> generate_rest m sz base as = map (make_anomaly m) [0..<sz]"
proof (induction m sz base as rule: generate_rest.induct)
  case (1 m sz base as)
  show ?case
  proof (cases "base < sz")
    case True
    then show ?thesis using "1.IH"[OF True] "1.prems" by (subst generate_rest.simps) simp
  next
    case False
    with "1.prems" show ?thesis by (subst generate_rest.simps) simp
  qed
qed

lemma generate_plain: "sz + ANOMALY_CHUNK \<le> u32_max \<Longrightarrow> generate_anomalies m sz = Some (map (make_anomaly m) [0..<sz])"
  using chunks_plain[of sz 0 "[]" m] rest_plain by (auto simp: generate_anomalies_def)

lemma chunks_Some: "generate_chunks m sz base as = Some r \<Longrightarrow> base \<le> sz \<Longrightarrow> as = map (make_anomaly m) [0..<base] \<Longrightarrow>
    fst r \<le> sz \<and> snd r = map (make_anomaly m) [0..<fst r]"
proof (induction m sz base as rule: generate_chunks.induct)
  case (1 m sz base as)
  show ?case
  proof (cases "base + ANOMALY_CHUNK \<le> sz")
    case True
    let ?as = "if base = 0 then map (\<lambda>k. make_anomaly m (base + k)) [0..<ANOMALY_CHUNK]
      else as @ map (\<lambda>k. make_anomaly m (base + k)) [0..<ANOMALY_CHUNK]"
    have "\<not> base + ANOMALY_CHUNK > u32_max" "generate_chunks m sz (base + ANOMALY_CHUNK) ?as = Some r"
      using "1.prems"(1) True by (subst (asm) generate_chunks.simps, simp add: Let_def split: if_splits)+
    with "1.IH"[OF _ True refl refl _ True next_chunk[OF "1.prems"(3)]] show ?thesis by blast
  next
    case False
    with "1.prems" show ?thesis by (subst (asm) generate_chunks.simps) (auto split: if_splits)
  qed
qed

lemma generate_Some: "generate_anomalies m sz = Some as \<Longrightarrow> as = map (make_anomaly m) [0..<sz]"
  using chunks_Some[of m sz 0 "[]"] rest_plain by (fastforce simp: generate_anomalies_def)

lemma make_anomaly_ok: "anomaly_ok (make_anomaly m i)"
proof -
  have "n mod 101 \<le> 100" for n :: nat using mod_less_divisor[of 101 n] by linarith
  then show ?thesis by (simp add: anomaly_ok_def make_anomaly_def Let_def)
qed

lemma hash_length: "length (build_layout_hash m) = 32"
  by (simp add: build_layout_hash_def expand_u64_to_bytes32_def)

lemma nebula_init_Ok [ok_iff]: "nebula_init env a d mn mx ttl s = (Ok u, s') \<longleftrightarrow> nebula_config s = None \<and> auth env a \<and> 0 < mn \<and> mn \<le> mx \<and>
    s' = s\<lparr>nebula_config := Some \<lparr>nc_admin = a, nc_default_size = min (max d mn) mx, nc_min_size = mn, nc_max_size = mx,
      nc_layout_ttl = (if ttl = 0 then DEFAULT_LAYOUT_TTL else ttl)\<rparr>\<rparr>"
  by (auto simp: nebula_init_def ok_rules Let_def not_less)

lemma generate_Ok [ok_iff]: "generate_validated_nebula_layout env c i r seed s = (Ok l, s') \<longleftrightarrow>
    (\<exists>cfg as t. nebula_config s = Some cfg \<and> auth env c \<and> check_rate_limit env c NebulaGeneration s = (Ok (), t) \<and> 0 < i \<and> 1 \<le> r \<and> r \<le> MAX_REGION_ID \<and>
      \<not> is_zero_bytes32 seed \<and> generate_anomalies (entropy_master env i r seed) (nc_default_size cfg) = Some as \<and>
      l = \<lparr>nl_ship_id = i, nl_region_id = r, nl_layout_hash = build_layout_hash (entropy_master env i r seed), nl_anomalies = as,
        nl_size = nc_default_size cfg, nl_generated_at = timestamp env\<rparr> \<and>
      s' = publish [SS ''NebulaGen'', SS ''generated'']
        ([SU i] @ map (\<lambda>b. SU (unat b)) (nl_layout_hash l) @ [SU (nl_size l)]) (t\<lparr>active_layout := (active_layout t)(i \<mapsto> l)\<rparr>))"
  by (simp add: generate_validated_nebula_layout_def ok_rules Let_def not_less split del: if_split) (auto simp: not_less)

lemma check_rate_nebula [frame]: "check_rate_limit env c op s = (Ok u, t) \<Longrightarrow> nebula_config t = nebula_config s \<and> active_layout t = active_layout s"
  by (auto simp: check_rate_Ok Let_def)

text \<open>A lookup, a cleaning or a sweep only removes layouts.\<close>

definition layouts_shrink :: "'a nebula_store_scheme \<Rightarrow> 'a nebula_store_scheme \<Rightarrow> bool" where
  "layouts_shrink s s' \<longleftrightarrow> nebula_config s' = nebula_config s \<and> (\<forall>i. active_layout s' i = active_layout s i \<or> active_layout s' i = None)"

lemma shrink_inv: "layouts_shrink s s' \<Longrightarrow> nebula_inv s \<Longrightarrow> nebula_inv s'"
  unfolding layouts_shrink_def nebula_inv_def by (metis option.distinct(1))

lemma shrink_refl [simp]: "layouts_shrink s s"
  by (simp add: layouts_shrink_def)

lemma live_shrink: "get_live_layout env i s = (r, s') \<Longrightarrow> layouts_shrink s s'"
  by (auto simp: get_live_layout_def layouts_shrink_def split: option.splits if_splits)

lemma remove_shrink: "remove_if_expired cfg now i s = (g, s') \<Longrightarrow> layouts_shrink s s'"
  by (auto simp: remove_if_expired_def layouts_shrink_def split: option.splits if_splits)

lemma sweep_shrink: "clean_loop cfg now is n s = (k, s') \<Longrightarrow> layouts_shrink s s'"
proof (induction "is" arbitrary: n s)
  case (Cons i "is")
  obtain g t where t: "remove_if_expired cfg now i s = (g, t)" by fastforce
  with Cons.prems have "clean_loop cfg now is (if g then n + 1 else n) t = (k, s')" by simp
  from Cons.IH[OF this] remove_shrink[OF t] show ?case unfolding layouts_shrink_def by metis
qed simp

lemma read_shrink:
  "query_anomaly env i k s = (Ok a, s') \<Longrightarrow> layouts_shrink s s'"
  "get_layout env i s = (Ok l, s') \<Longrightarrow> layouts_shrink s s'"
  "has_anomaly env i k s = (Ok b, s') \<Longrightarrow> layouts_shrink s s'"
  "clean_expired_layout env i s = (Ok b, s') \<Longrightarrow> layouts_shrink s s'"
  "clean_expired_layouts env is s = (Ok n, s') \<Longrightarrow> layouts_shrink s s'"
proof -
  show "query_anomaly env i k s = (Ok a, s') \<Longrightarrow> layouts_shrink s s'" "has_anomaly env i k s = (Ok b, s') \<Longrightarrow> layouts_shrink s s'"
      "get_layout env i s = (Ok l, s') \<Longrightarrow> layouts_shrink s s'"
    using live_shrink[of env i s] by (auto simp: query_anomaly_def has_anomaly_def get_layout_def split: prod.splits option.splits if_splits)
  show "clean_expired_layout env i s = (Ok b, s') \<Longrightarrow> layouts_shrink s s'"
    by (auto simp: clean_expired_layout_def layouts_shrink_def split: option.splits if_splits)
  show "clean_expired_layouts env is s = (Ok n, s') \<Longrightarrow> layouts_shrink s s'"
    by (auto simp: clean_expired_layouts_def split: option.splits if_splits prod.splits dest: sweep_shrink)
qed

lemma generate_inv: "nebula_inv s \<Longrightarrow> generate_validated_nebula_layout env c i r seed s = (Ok l, s') \<Longrightarrow> nebula_inv s'"
proof -
  assume inv: "nebula_inv s" and ok: "generate_validated_nebula_layout env c i r seed s = (Ok l, s')"
  from ok have l: "layout_ok i l" unfolding generate_Ok
    by (auto simp: layout_ok_def hash_length list_all_iff make_anomaly_ok dest!: generate_Some)
  from ok obtain t where "check_rate_limit env c NebulaGeneration s = (Ok (), t)"
      "nebula_config s' = nebula_config t" "active_layout s' = (active_layout t)(i \<mapsto> l)"
    unfolding generate_Ok by auto
  with l inv show ?thesis using check_rate_nebula[of env c NebulaGeneration s "()" t] by (auto simp: nebula_inv_def)
qed

lemma nebula_step_inv: "nebula_inv s \<Longrightarrow> nebula_step env s s' \<Longrightarrow> nebula_inv s'"
proof (erule nebula_step.cases)
  fix n t t' assume "nebula_inv s" "s = t" "s' = t'" "commits (update_layout_ttl env n) t t'"
  then show ?thesis by (auto simp: commits_iff update_layout_ttl_def ok_rules nebula_inv_def split del: if_split)
qed (auto simp: commits_iff nebula_init_Ok intro: generate_inv dest!: read_shrink intro: shrink_inv, auto simp: nebula_inv_def)

interpretation nebula: step_system "\<lambda>s s'. \<exists>env. nebula_step env s s'" "nebula_inv :: 'a nebula_store_scheme \<Rightarrow> bool"
  by unfold_locales (auto intro: nebula_step_inv)

text \<open>Reading a live layout.\<close>

lemma live_reads:
  assumes "active_layout s i = Some l" and "\<not> is_expired (timestamp env) (nl_generated_at l) (layout_ttl_in_force s)" and "0 < i"
  shows "query_anomaly env i k s = (if k < length (nl_anomalies l) then (Ok (nl_anomalies l ! k), s) else (Err NebulaError.InvalidIndex, s))"
    and "has_anomaly env i k s = (if k < nl_size l then (Ok True, s) else (Err NebulaError.AnomalyOutOfBounds, s))"
  using assms by (auto simp: query_anomaly_def has_anomaly_def get_live_layout_def)

lemma dead_reads:
  assumes "active_layout s i = Some l" and "is_expired (timestamp env) (nl_generated_at l) (layout_ttl_in_force s)" and "0 < i"
  shows "fst (query_anomaly env i k s) = Err NebulaError.LayoutNotFound" "fst (has_anomaly env i k s) = Err NebulaError.LayoutNotFound"
  using assms by (auto simp: query_anomaly_def has_anomaly_def get_live_layout_def)

definition no_nebulae :: nebula_store where
  "no_nebulae = rate_store.extend no_rates \<lparr>nebula_config = Some \<lparr>nc_admin = Addr 1, nc_default_size = 16, nc_min_size = 1,
     nc_max_size = 64, nc_layout_ttl = 600\<rparr>, active_layout = Map.empty\<rparr>"

lemma no_nebulae_simps: "nebula_config no_nebulae = Some \<lparr>nc_admin = Addr 1, nc_default_size = 16, nc_min_size = 1,
     nc_max_size = 64, nc_layout_ttl = 600\<rparr>" "active_layout no_nebulae = Map.empty" "rate_entry no_nebulae = Map.empty"
     "rate_config no_nebulae = Map.empty"
  by (simp_all add: no_nebulae_def rate_store.defs no_rates_simps)

lemma no_nebulae_inv: "nebula_inv no_nebulae"
  by (simp add: nebula_inv_def no_nebulae_simps)

section \<open>Properties\<close>

text \<open>C15. The chunked generator equals the plain one, and a layout serves its anomalies for exactly its lifetime. A
  successful generation stores for the ship, with a 32-byte hash of the entropy and the configured size, the anomalies
  \<open>make_anomaly master 0, 1, ...\<close> in order, each with coordinates below 1000 and a rarity up to 100; until the lifetime
  in force has passed, \<open>has_anomaly\<close> and \<open>query_anomaly\<close> agree and answer for exactly the indices below the size; past the end
  they fail with different errors, \<open>query_anomaly\<close> with \<open>InvalidIndex\<close> where its comment announces \<open>AnomalyOutOfBounds\<close>;
  afterwards both find no layout. With a size whose loop bound fits in a \<open>u32\<close>, generating never traps.\<close>

theorem nebula_layout_reference:
  assumes inv: "nebula_inv s" and gen: "generate_validated_nebula_layout env c i r seed s = (Ok l, s')"
  shows "nl_anomalies l = map (make_anomaly (entropy_master env i r seed)) [0..<nl_size l] \<and> list_all anomaly_ok (nl_anomalies l)
    \<and> length (nl_layout_hash l) = 32
    \<and> (\<exists>cfg. nebula_config s = Some cfg \<and> nc_min_size cfg \<le> nl_size l \<and> nl_size l \<le> nc_max_size cfg)
    \<and> (\<forall>later k. (if timestamp later \<le> saturating_add u64_max (timestamp env) (layout_ttl_in_force s) then
          (if k < nl_size l then query_anomaly later i k s' = (Ok (nl_anomalies l ! k), s') \<and> has_anomaly later i k s' = (Ok True, s')
           else fst (query_anomaly later i k s') = Err NebulaError.InvalidIndex \<and> fst (has_anomaly later i k s') = Err AnomalyOutOfBounds)
        else fst (query_anomaly later i k s') = Err LayoutNotFound \<and> fst (has_anomaly later i k s') = Err LayoutNotFound))
    \<and> (\<forall>m n. n + ANOMALY_CHUNK \<le> u32_max \<longrightarrow> generate_anomalies m n \<noteq> None)"
proof -
  from gen obtain cfg as t where cfg: "nebula_config s = Some cfg" "0 < i" "generate_anomalies (entropy_master env i r seed) (nc_default_size cfg) = Some as"
      "check_rate_limit env c NebulaGeneration s = (Ok (), t)"
      and l: "nl_anomalies l = as" "nl_size l = nc_default_size cfg" "nl_generated_at l = timestamp env"
        "nl_layout_hash l = build_layout_hash (entropy_master env i r seed)"
      and s': "active_layout s' i = Some l" "nebula_config s' = nebula_config t"
    unfolding generate_Ok by auto
  have as: "as = map (make_anomaly (entropy_master env i r seed)) [0..<nl_size l]" using generate_Some[OF cfg(3)] l(2) by simp
  have ttl: "layout_ttl_in_force s' = layout_ttl_in_force s"
    using check_rate_nebula[OF cfg(4)] s'(2) by (simp add: layout_ttl_in_force_def)
  have size: "nc_min_size cfg \<le> nl_size l" "nl_size l \<le> nc_max_size cfg" using inv cfg(1) l(2) by (auto simp: nebula_inv_def)
  have reads: "if timestamp later \<le> saturating_add u64_max (timestamp env) (layout_ttl_in_force s) then
          (if k < nl_size l then query_anomaly later i k s' = (Ok (nl_anomalies l ! k), s') \<and> has_anomaly later i k s' = (Ok True, s')
           else fst (query_anomaly later i k s') = Err NebulaError.InvalidIndex \<and> fst (has_anomaly later i k s') = Err AnomalyOutOfBounds)
        else fst (query_anomaly later i k s') = Err LayoutNotFound \<and> fst (has_anomaly later i k s') = Err LayoutNotFound" for later k
    using live_reads[OF s'(1) _ cfg(2), of later k] dead_reads[OF s'(1) _ cfg(2), of later k] l as
    by (auto simp: is_expired_def ttl not_le)
  have "list_all anomaly_ok (nl_anomalies l)" using as l(1) by (simp add: list_all_iff make_anomaly_ok)
  with as l size cfg(1) reads generate_plain show ?thesis by (auto simp: hash_length)
qed

theorem nebula_layout_reference_witness:
  "\<exists>l s'. generate_validated_nebula_layout (signed_at 100 7) (Addr 3) 2 9 (replicate 32 1) no_nebulae = (Ok l, s')
     \<and> has_anomaly (signed_at 700 8) 2 15 s' = (Ok True, s') \<and> fst (has_anomaly (signed_at 701 8) 2 15 s') = Err LayoutNotFound"
proof -
  have rate: "\<exists>t. check_rate_limit (signed_at 100 7) (Addr 3) NebulaGeneration no_nebulae = (Ok (), t)"
    by (simp add: check_rate_limit_def no_nebulae_simps default_nebula_generation_def checked_add_def Let_def)
  have "\<exists>as. generate_anomalies (entropy_master (signed_at 100 7) 2 9 (replicate 32 1)) 16 = Some as"
    using generate_plain[of 16] by simp
  with rate obtain l s' where gen: "generate_validated_nebula_layout (signed_at 100 7) (Addr 3) 2 9 (replicate 32 1) no_nebulae = (Ok l, s')"
      and l: "nl_size l = 16"
    unfolding generate_Ok by (auto simp: no_nebulae_simps is_zero_bytes32_def list_all_iff)
  have ttl: "layout_ttl_in_force no_nebulae = 600" by (simp add: layout_ttl_in_force_def no_nebulae_simps)
  have reads: "\<forall>later k. (if timestamp later \<le> saturating_add u64_max (timestamp (signed_at 100 7)) (layout_ttl_in_force no_nebulae) then
          (if k < nl_size l then query_anomaly later 2 k s' = (Ok (nl_anomalies l ! k), s') \<and> has_anomaly later 2 k s' = (Ok True, s')
           else fst (query_anomaly later 2 k s') = Err NebulaError.InvalidIndex \<and> fst (has_anomaly later 2 k s') = Err AnomalyOutOfBounds)
        else fst (query_anomaly later 2 k s') = Err LayoutNotFound \<and> fst (has_anomaly later 2 k s') = Err LayoutNotFound)"
    using nebula_layout_reference[OF no_nebulae_inv gen] by (elim conjE)
  have "has_anomaly (signed_at 700 8) 2 15 s' = (Ok True, s')" "fst (has_anomaly (signed_at 701 8) 2 15 s') = Err LayoutNotFound"
    using reads[rule_format, of "signed_at 700 8" 15] reads[rule_format, of "signed_at 701 8" 15] l ttl by (simp_all add: saturating_add_def)
  with gen show ?thesis by blast
qed

end
