(* ===== verification/Resource_Minter.thy ===== *)
theory Resource_Minter
  imports Nebula_Gen
begin

unbundle bit_operations_syntax

text \<open>
  \<open>src/resource_minter.rs\<close>: the ledger of minted resources (\<open>MinterKey\<close>, \<open>u64\<close> balances with a supply
  and a cumulative mint counter per type) and the ledger of harvested assets (\<open>ResourceKey\<close>, \<open>u32\<close>
  balances). The packed form of a record shares one \<open>u128\<close> for two \<open>u64\<close> fields
  (\<open>src/storage_optim.rs\<close>).
\<close>

section \<open>Model: minted resources\<close>

datatype ResourceType = StellarDust | DarkMatter | ExoticMatter

fun resource_type_to_symbol :: "ResourceType \<Rightarrow> symbol" where
  "resource_type_to_symbol StellarDust = ''stdust''"
| "resource_type_to_symbol DarkMatter = ''drmatt''"
| "resource_type_to_symbol ExoticMatter = ''exomat''"

record ResourceRecord =
  rc_owner :: address
  rc_resource_type :: ResourceType
  rc_amount :: u64
  rc_minted_at :: u64

record PackedResourceRecord =
  pr_owner :: address
  pr_resource_type :: ResourceType
  pr_packed :: "128 word"

definition pack_u64x2 :: "64 word \<Rightarrow> 64 word \<Rightarrow> 128 word" where
  "pack_u64x2 lo hi = ucast lo OR push_bit 64 (ucast hi)"

definition unpack_u64x2 :: "128 word \<Rightarrow> 64 word \<times> 64 word" where
  "unpack_u64x2 packed = (ucast packed, ucast (drop_bit 64 packed))"

definition pack_record :: "ResourceRecord \<Rightarrow> PackedResourceRecord" where
  "pack_record r = \<lparr>pr_owner = rc_owner r, pr_resource_type = rc_resource_type r,
     pr_packed = pack_u64x2 (word_of_nat (rc_amount r)) (word_of_nat (rc_minted_at r))\<rparr>"

definition unpack_record :: "PackedResourceRecord \<Rightarrow> ResourceRecord" where
  "unpack_record p = (let (amount, minted_at) = unpack_u64x2 (pr_packed p) in
     \<lparr>rc_owner = pr_owner p, rc_resource_type = pr_resource_type p, rc_amount = unat amount, rc_minted_at = unat minted_at\<rparr>)"

datatype MinterError = InvalidAmount | RateLimitExceeded | NoLayoutForShip | NoResourceAtAnomaly | ArithmeticOverflow
  | InsufficientBalance | DailyCapExceeded | Reentrancy

fun minter_from_whale :: "AntiWhaleError \<Rightarrow> MinterError" where
  "minter_from_whale AntiWhaleError.DailyCapExceeded = MinterError.DailyCapExceeded"
| "minter_from_whale OperationCapExceeded = MinterError.DailyCapExceeded"
| "minter_from_whale GuildContributionCapExceeded = MinterError.DailyCapExceeded"
| "minter_from_whale AntiWhaleError.ArithmeticOverflow = MinterError.ArithmeticOverflow"
| "minter_from_whale AntiWhaleError.InvalidAmount = MinterError.InvalidAmount"
| "minter_from_whale AntiWhaleError.InvalidConfig = MinterError.InvalidAmount"
| "minter_from_whale AntiWhaleError.Unauthorized = MinterError.InvalidAmount"
| "minter_from_whale AntiWhaleError.AlreadyInitialized = MinterError.InvalidAmount"

definition minter_from_rate :: "RateLimitError \<Rightarrow> MinterError" where
  "minter_from_rate e = MinterError.RateLimitExceeded"

fun minter_from_nebula :: "NebulaError \<Rightarrow> MinterError" where
  "minter_from_nebula LayoutNotFound = NoLayoutForShip"
| "minter_from_nebula AnomalyOutOfBounds = NoResourceAtAnomaly"
| "minter_from_nebula e = NoLayoutForShip"

record minter_store = nebula_store +
  mint_balance :: "ResourceType \<Rightarrow> address \<rightharpoonup> u64"
  mint_supply :: "ResourceType \<rightharpoonup> u64"
  mint_minted :: "ResourceType \<rightharpoonup> u64"
  resource_bal :: "(address \<times> symbol) \<rightharpoonup> u32"

abbreviation set_mint_balance :: "ResourceType \<Rightarrow> address \<Rightarrow> u64 \<Rightarrow> 'a minter_store_scheme \<Rightarrow> 'a minter_store_scheme" where
  "set_mint_balance rt a n s \<equiv> s\<lparr>mint_balance := (mint_balance s)(rt := (mint_balance s rt)(a \<mapsto> n))\<rparr>"

definition balance_of :: "address \<Rightarrow> ResourceType \<Rightarrow> 'a minter_store_scheme \<Rightarrow> u64" where
  "balance_of owner resource_type s = unwrap_or (mint_balance s resource_type owner) 0"

definition total_minted :: "ResourceType \<Rightarrow> 'a minter_store_scheme \<Rightarrow> u64" where
  "total_minted resource_type s = unwrap_or (mint_minted s resource_type) 0"

definition circulating_supply :: "ResourceType \<Rightarrow> 'a minter_store_scheme \<Rightarrow> u64" where
  "circulating_supply resource_type s = unwrap_or (mint_supply s resource_type) 0"

text \<open>The three checked writes that a mint and a credit share: balance, supply, cumulative counter.\<close>

definition add_minted :: "address \<Rightarrow> ResourceType \<Rightarrow> u64 \<Rightarrow> 'a minter_store_scheme
    \<Rightarrow> (MinterError, u64) outcome \<times> 'a minter_store_scheme" where
  "add_minted owner resource_type amount s =
    (case checked_add u64_max (balance_of owner resource_type s) amount of
       None \<Rightarrow> (Err MinterError.ArithmeticOverflow, s)
     | Some new_balance \<Rightarrow>
     let s = set_mint_balance resource_type owner new_balance s in
     case checked_add u64_max (circulating_supply resource_type s) amount of
       None \<Rightarrow> (Err MinterError.ArithmeticOverflow, s)
     | Some new_supply \<Rightarrow>
     let s = s\<lparr>mint_supply := (mint_supply s)(resource_type \<mapsto> new_supply)\<rparr> in
     case checked_add u64_max (total_minted resource_type s) amount of
       None \<Rightarrow> (Err MinterError.ArithmeticOverflow, s)
     | Some new_minted \<Rightarrow>
     (Ok new_balance, s\<lparr>mint_minted := (mint_minted s)(resource_type \<mapsto> new_minted)\<rparr>))"

definition mint_resource :: "env \<Rightarrow> address \<Rightarrow> u64 \<Rightarrow> u32 \<Rightarrow> ResourceType \<Rightarrow> u64 \<Rightarrow> 'a minter_store_scheme
    \<Rightarrow> (MinterError, ResourceRecord) outcome \<times> 'a minter_store_scheme" where
  "mint_resource env caller ship_id anomaly_index resource_type amount s =
    (if \<not> auth env caller then (Panic, s)
     else and_then (map_err minter_from_rate (check_rate_limit env caller ResourceMinting s)) (\<lambda>_ s.
     if amount = 0 then (Err MinterError.InvalidAmount, s)
     else and_then (map_err minter_from_nebula (has_anomaly env ship_id anomaly_index s)) (\<lambda>_ s.
     and_then (map_err minter_from_whale (check_operation env caller Mint 1 s)) (\<lambda>_ s.
     and_then (map_err minter_from_whale (process_anti_whale_action env caller amount s)) (\<lambda>(effective_amount, _) s.
     and_then (add_minted caller resource_type effective_amount s) (\<lambda>_ s.
     let record = \<lparr>rc_owner = caller, rc_resource_type = resource_type, rc_amount = effective_amount, rc_minted_at = timestamp env\<rparr>
     in (Ok record, publish [SS ''Minter'', SS ''minted''] [SA caller, SS (resource_type_to_symbol resource_type), SU effective_amount] s)))))))"

definition debit_balance :: "address \<Rightarrow> ResourceType \<Rightarrow> u64 \<Rightarrow> 'a minter_store_scheme
    \<Rightarrow> (MinterError, u64) outcome \<times> 'a minter_store_scheme" where
  "debit_balance owner resource_type amount s =
    (if amount = 0 then (Err MinterError.InvalidAmount, s)
     else case checked_sub (balance_of owner resource_type s) amount of
       None \<Rightarrow> (Err MinterError.InsufficientBalance, s)
     | Some new_balance \<Rightarrow> (Ok new_balance, set_mint_balance resource_type owner new_balance s))"

definition reduce_supply :: "ResourceType \<Rightarrow> u64 \<Rightarrow> 'a minter_store_scheme
    \<Rightarrow> (MinterError, u64) outcome \<times> 'a minter_store_scheme" where
  "reduce_supply resource_type amount s =
    (if amount = 0 then (Err MinterError.InvalidAmount, s)
     else case checked_sub (circulating_supply resource_type s) amount of
       None \<Rightarrow> (Err MinterError.InsufficientBalance, s)
     | Some new_supply \<Rightarrow> (Ok new_supply, s\<lparr>mint_supply := (mint_supply s)(resource_type \<mapsto> new_supply)\<rparr>))"

definition move_balance :: "address \<Rightarrow> address \<Rightarrow> ResourceType \<Rightarrow> u64 \<Rightarrow> 'a minter_store_scheme
    \<Rightarrow> (MinterError, u64) outcome \<times> 'a minter_store_scheme" where
  "move_balance frm to resource_type amount s =
    (if amount = 0 then (Err MinterError.InvalidAmount, s)
     else if frm = to then (Ok (balance_of frm resource_type s), s)
     else case checked_sub (balance_of frm resource_type s) amount of
       None \<Rightarrow> (Err MinterError.InsufficientBalance, s)
     | Some remaining \<Rightarrow>
     case checked_add u64_max (balance_of to resource_type s) amount of
       None \<Rightarrow> (Err MinterError.ArithmeticOverflow, s)
     | Some credited \<Rightarrow>
     let s = set_mint_balance resource_type frm remaining s;
         s = set_mint_balance resource_type to credited s
     in (Ok credited, s))"

definition credit_balance :: "address \<Rightarrow> ResourceType \<Rightarrow> u64 \<Rightarrow> 'a minter_store_scheme
    \<Rightarrow> (MinterError, u64) outcome \<times> 'a minter_store_scheme" where
  "credit_balance owner resource_type amount s =
    (if amount = 0 then (Err MinterError.InvalidAmount, s) else add_minted owner resource_type amount s)"

section \<open>Model: harvested assets\<close>

datatype CellType = Empty | Star | Asteroid | GasCloud | DarkMatter | ExoticMatter | StellarDust | Wormhole

record NebulaCell =
  cell_x :: u32
  cell_y :: u32
  cell_type :: CellType
  cell_energy :: u32

record ExplorerLayout =
  el_width :: u32
  el_height :: u32
  el_cells :: "NebulaCell list"
  el_seed :: bytes
  el_timestamp :: u64
  el_total_energy :: u32

fun cell_type_to_asset :: "CellType \<Rightarrow> symbol option" where
  "cell_type_to_asset CellType.StellarDust = Some ''dust''"
| "cell_type_to_asset Asteroid = Some ''ore''"
| "cell_type_to_asset GasCloud = Some ''gas''"
| "cell_type_to_asset CellType.DarkMatter = Some ''dark''"
| "cell_type_to_asset CellType.ExoticMatter = Some ''exotic''"
| "cell_type_to_asset Wormhole = Some ''worm''"
| "cell_type_to_asset Empty = None"
| "cell_type_to_asset Star = None"

record HarvestedResource =
  hr_asset_id :: symbol
  hr_amount :: u32

record HarvestResult =
  hv_ship_id :: u64
  hv_resources :: "HarvestedResource list"
  hv_total_harvested :: u32

datatype HarvestError = ShipNotFound | EmptyHarvest | InvalidPrice | AssetNotHarvested | PriceOverflow | DexFailure
  | InsufficientBalance | Reentrancy | SelfTrade | SlippageExceeded | InvalidAmount | OrderUnavailable

definition harvest_from_reentrancy :: "ReentrancyError \<Rightarrow> HarvestError" where
  "harvest_from_reentrancy e = HarvestError.Reentrancy"

definition resource_balance :: "address \<Rightarrow> symbol \<Rightarrow> 'a minter_store_scheme \<Rightarrow> u32" where
  "resource_balance owner asset s = unwrap_or (resource_bal s (owner, asset)) 0"

definition credit_resource_balance :: "address \<Rightarrow> symbol \<Rightarrow> u32 \<Rightarrow> 'a minter_store_scheme
    \<Rightarrow> (HarvestError, u32) outcome \<times> 'a minter_store_scheme" where
  "credit_resource_balance owner asset amount s =
    (case checked_add u32_max (resource_balance owner asset s) amount of
       None \<Rightarrow> (Err HarvestError.PriceOverflow, s)
     | Some nxt \<Rightarrow> (Ok nxt, s\<lparr>resource_bal := (resource_bal s)((owner, asset) \<mapsto> nxt)\<rparr>))"

definition debit_resource_balance :: "address \<Rightarrow> symbol \<Rightarrow> u32 \<Rightarrow> 'a minter_store_scheme
    \<Rightarrow> (HarvestError, u32) outcome \<times> 'a minter_store_scheme" where
  "debit_resource_balance owner asset amount s =
    (case checked_sub (resource_balance owner asset s) amount of
       None \<Rightarrow> (Err HarvestError.InsufficientBalance, s)
     | Some nxt \<Rightarrow> (Ok nxt, s\<lparr>resource_bal := (resource_bal s)((owner, asset) \<mapsto> nxt)\<rparr>))"

text \<open>Pass 1 of a harvest: the resource cells with energy, and their total; \<open>None\<close> when the total overflows.\<close>

fun raw_yield :: "NebulaCell list \<Rightarrow> HarvestedResource list \<Rightarrow> u32 \<Rightarrow> (HarvestedResource list \<times> u32) option" where
  "raw_yield [] raw raw_total = Some (raw, raw_total)"
| "raw_yield (cell # cells) raw raw_total = (case cell_type_to_asset (cell_type cell) of
     None \<Rightarrow> raw_yield cells raw raw_total
   | Some asset_id \<Rightarrow>
       if cell_energy cell = 0 then raw_yield cells raw raw_total
       else case checked_add u32_max raw_total (cell_energy cell) of
         None \<Rightarrow> None
       | Some raw_total \<Rightarrow> raw_yield cells (raw @ [\<lparr>hr_asset_id = asset_id, hr_amount = cell_energy cell\<rparr>]) raw_total)"

text \<open>Pass 2: scale every entry, skip the ones that vanish, credit the rest.\<close>

fun credit_yield :: "address \<Rightarrow> HarvestedResource list \<Rightarrow> u64 \<Rightarrow> u32 \<Rightarrow> HarvestedResource list \<Rightarrow> u32 \<Rightarrow> 'a minter_store_scheme
    \<Rightarrow> (HarvestError, HarvestedResource list \<times> u32) outcome \<times> 'a minter_store_scheme" where
  "credit_yield owner [] effective_total raw_total resources total_harvested s = (Ok (resources, total_harvested), s)"
| "credit_yield owner (entry # raw) effective_total raw_total resources total_harvested s =
    (case checked_mul u64_max (hr_amount entry) effective_total of
       None \<Rightarrow> (Panic, s)
     | Some product \<Rightarrow>
     let scaled = product div raw_total;
         amount = (if scaled \<le> u32_max then scaled else u32_max) in
     if amount = 0 then credit_yield owner raw effective_total raw_total resources total_harvested s
     else case checked_add u32_max total_harvested amount of
       None \<Rightarrow> (Err HarvestError.PriceOverflow, s)
     | Some total_harvested \<Rightarrow>
     and_then (credit_resource_balance owner (hr_asset_id entry) amount s) (\<lambda>_ s.
       credit_yield owner raw effective_total raw_total
         (resources @ [\<lparr>hr_asset_id = hr_asset_id entry, hr_amount = amount\<rparr>]) total_harvested s))"

definition harvest_resources_unguarded :: "env \<Rightarrow> u64 \<Rightarrow> ExplorerLayout \<Rightarrow> 'a minter_store_scheme
    \<Rightarrow> (HarvestError, HarvestResult) outcome \<times> 'a minter_store_scheme" where
  "harvest_resources_unguarded env ship_id layout s =
    (case get_ship ship_id s of
       Ok ship \<Rightarrow>
         (case raw_yield (el_cells layout) [] 0 of
            None \<Rightarrow> (Err HarvestError.PriceOverflow, s)
          | Some (raw, raw_total) \<Rightarrow>
          if raw_total = 0 then (Err HarvestError.EmptyHarvest, s)
          else and_then (map_err (\<lambda>_. HarvestError.PriceOverflow) (apply_gathering env (sh_owner ship) raw_total s)) (\<lambda>effective_total s.
          and_then (credit_yield (sh_owner ship) raw effective_total raw_total [] 0 s) (\<lambda>(resources, total_harvested) s.
          if total_harvested = 0 then (Err HarvestError.EmptyHarvest, s)
          else (Ok \<lparr>hv_ship_id = ship_id, hv_resources = resources, hv_total_harvested = total_harvested\<rparr>,
                publish [SS ''harvest'', SS ''done''] [SU ship_id, SU total_harvested] s))))
     | _ \<Rightarrow> (Err HarvestError.ShipNotFound, s))"

definition harvest_resources :: "env \<Rightarrow> u64 \<Rightarrow> ExplorerLayout \<Rightarrow> 'a minter_store_scheme
    \<Rightarrow> (HarvestError, HarvestResult) outcome \<times> 'a minter_store_scheme" where
  "harvest_resources env ship_id layout = with_guard harvest_from_reentrancy (harvest_resources_unguarded env ship_id layout)"

section \<open>Lemmas\<close>

lemma publish_minter_store [simp]:
  "mint_balance (publish t d s) = mint_balance s" "mint_supply (publish t d s) = mint_supply s"
  "mint_minted (publish t d s) = mint_minted s" "resource_bal (publish t d s) = resource_bal s"
  by (simp_all add: publish_def)

text \<open>Packing two 64-bit fields into one 128-bit word loses nothing.\<close>

lemma pack_unpack: "unpack_u64x2 (pack_u64x2 lo hi) = (lo, hi)"
proof -
  have "\<not> bit lo (64 + n)" for n using bit_imp_le_length[of lo "64 + n"] by auto
  then show ?thesis unfolding unpack_u64x2_def pack_u64x2_def by (auto intro!: bit_word_eqI simp: bit_simps)
qed

lemma unpack_pack: "case_prod pack_u64x2 (unpack_u64x2 w) = w"
  unfolding unpack_u64x2_def pack_u64x2_def by (auto intro!: bit_word_eqI simp: bit_simps not_less dest: bit_imp_le_length)

lemma unat_word_of_nat: "n \<le> u64_max \<Longrightarrow> unat (word_of_nat n :: 64 word) = n"
  by (simp add: unsigned_of_nat take_bit_nat_eq_self)

lemma pack_record_round_trip:
  "rc_amount r \<le> u64_max \<Longrightarrow> rc_minted_at r \<le> u64_max \<Longrightarrow> unpack_record (pack_record r) = r"
  by (simp add: unpack_record_def pack_record_def pack_unpack unat_word_of_nat)

text \<open>The harvest ledger is a balance ledger.\<close>

interpretation harvest_ledger: balance_ledger "\<lambda>s (o', a). resource_balance o' a (s :: 'a minter_store_scheme)"
    "\<lambda>s (o', a) n. committed (credit_resource_balance o' a n s)" "\<lambda>s (o', a) n. committed (debit_resource_balance o' a n s)" u32_max
proof (unfold_locales, goal_cases)
  case (2 s k n)
  then show ?case by (cases k) (auto simp: credit_resource_balance_def committed_def split: option.splits)
next
  case (4 s k n)
  then show ?case by (cases k) (auto simp: debit_resource_balance_def committed_def split: option.splits)
qed (auto simp: credit_resource_balance_def debit_resource_balance_def resource_balance_def ok_rules)

lemma add_minted_Ok [ok_iff]: "add_minted a rt n s = (Ok b, s') \<longleftrightarrow> b = balance_of a rt s + n \<and> b \<le> u64_max \<and>
    circulating_supply rt s + n \<le> u64_max \<and> total_minted rt s + n \<le> u64_max \<and>
    s' = s\<lparr>mint_balance := (mint_balance s)(rt := (mint_balance s rt)(a \<mapsto> b)), mint_supply := (mint_supply s)(rt \<mapsto> circulating_supply rt s + n),
           mint_minted := (mint_minted s)(rt \<mapsto> total_minted rt s + n)\<rparr>"
  by (auto simp: add_minted_def Let_def ok_rules circulating_supply_def total_minted_def)

lemma debit_Ok [ok_iff]: "debit_balance a rt n s = (Ok b, s') \<longleftrightarrow> 0 < n \<and> n \<le> balance_of a rt s \<and> b = balance_of a rt s - n \<and>
    s' = set_mint_balance rt a b s"
  by (auto simp: debit_balance_def ok_rules)

lemma reduce_Ok [ok_iff]: "reduce_supply rt n s = (Ok b, s') \<longleftrightarrow> 0 < n \<and> n \<le> circulating_supply rt s \<and> b = circulating_supply rt s - n \<and>
    s' = s\<lparr>mint_supply := (mint_supply s)(rt \<mapsto> b)\<rparr>"
  by (auto simp: reduce_supply_def ok_rules)

lemma move_Ok [ok_iff]: "move_balance a b rt n s = (Ok r, s') \<longleftrightarrow> 0 < n \<and> (if a = b then r = balance_of a rt s \<and> s' = s
    else n \<le> balance_of a rt s \<and> balance_of b rt s + n \<le> u64_max \<and> r = balance_of b rt s + n \<and>
      s' = s\<lparr>mint_balance := (mint_balance s)(rt := (mint_balance s rt)(a \<mapsto> balance_of a rt s - n, b \<mapsto> r))\<rparr>)"
  by (auto simp: move_balance_def Let_def ok_rules balance_of_def)

lemma credit_Ok [ok_iff]: "credit_balance a rt n s = (Ok b, s') \<longleftrightarrow> 0 < n \<and> add_minted a rt n s = (Ok b, s')"
  by (auto simp: credit_balance_def ok_rules)

text \<open>What the checks of a mint leave alone.\<close>

definition mint_view :: "'a minter_store_scheme \<Rightarrow> (ResourceType \<Rightarrow> address \<rightharpoonup> u64) \<times> (ResourceType \<rightharpoonup> u64)
    \<times> (ResourceType \<rightharpoonup> u64) \<times> ((address \<times> symbol) \<rightharpoonup> u32)" where
  "mint_view s = (mint_balance s, mint_supply s, mint_minted s, resource_bal s)"

lemma mint_checks_frame:
  "check_rate_limit env c op s = (Ok u, t) \<Longrightarrow> mint_view t = mint_view s"
  "has_anomaly env i k s = (Ok b, t) \<Longrightarrow> mint_view t = mint_view s"
  "check_operation env c kd n s = (Ok u, t) \<Longrightarrow> mint_view t = mint_view s"
  "process_anti_whale_action env c n s = (Ok x, t) \<Longrightarrow> mint_view t = mint_view s"
  "apply_gathering env c n s = (Ok y, t) \<Longrightarrow> mint_view t = mint_view s"
proof -
  show "check_rate_limit env c op s = (Ok u, t) \<Longrightarrow> mint_view t = mint_view s"
    by (auto simp: check_rate_Ok Let_def mint_view_def)
  show "has_anomaly env i k s = (Ok b, t) \<Longrightarrow> mint_view t = mint_view s"
    by (auto simp: has_anomaly_def get_live_layout_def mint_view_def split: option.splits if_splits)
  show "check_operation env c kd n s = (Ok u, t) \<Longrightarrow> mint_view t = mint_view s"
    by (auto simp: check_operation_Ok add_activity_with_def mint_view_def split: if_splits)
  show "process_anti_whale_action env c n s = (Ok x, t) \<Longrightarrow> mint_view t = mint_view s"
    by (auto simp: process_anti_whale_action_def ok_rules Let_def mint_view_def split: option.splits if_splits)
  show "apply_gathering env c n s = (Ok y, t) \<Longrightarrow> mint_view t = mint_view s"
    by (auto simp: apply_gathering_def ok_rules record_gathering_with_def add_activity_with_def update_impact_def Let_def mint_view_def
        split: option.splits if_splits)
qed

lemma mint_resource_effect:
  fixes s s' :: "'a minter_store_scheme"
  assumes "mint_resource env c i k rt n s = (Ok r, s')"
  shows "auth env c \<and> 0 < n \<and> rc_owner r = c \<and> rc_resource_type r = rt \<and> rc_amount r \<le> n \<and>
    (\<exists>(t :: 'a minter_store_scheme) t' b. mint_view t = mint_view s \<and> add_minted c rt (rc_amount r) t = (Ok b, t') \<and> mint_view s' = mint_view t')"
proof -
  from assms obtain t1 t2 t3 t4 t5 x f b eff where auth: "auth env c" and n: "n \<noteq> 0"
      and c1: "check_rate_limit env c ResourceMinting s = (Ok (), t1)" and c2: "has_anomaly env i k t1 = (Ok x, t2)"
      and c3: "check_operation env c Mint 1 t2 = (Ok (), t3)" and c4: "process_anti_whale_action env c n t3 = (Ok (eff, f), t4)"
      and add: "add_minted c rt eff t4 = (Ok b, t5)"
      and r: "r = \<lparr>rc_owner = c, rc_resource_type = rt, rc_amount = eff, rc_minted_at = timestamp env\<rparr>"
      and s': "mint_view s' = mint_view t5"
    by (auto simp: mint_resource_def ok_rules Let_def mint_view_def split del: if_split split: prod.splits)
  have "eff \<le> n" using c4 diminishing_returns_le
    by (auto simp: process_anti_whale_action_def ok_rules Let_def calculate_diminishing_returns_def split: option.splits if_splits)
  moreover have "mint_view t4 = mint_view s"
    using mint_checks_frame(1)[OF c1] mint_checks_frame(2)[OF c2] mint_checks_frame(3)[OF c3] mint_checks_frame(4)[OF c4] by simp
  ultimately show ?thesis using auth n add s' by (simp add: r) blast
qed

end
