(* ===== verification/Token_Burning.thy ===== *)
theory Token_Burning
  imports Resource_Minter
begin

text \<open>
  \<open>src/token_burning.rs\<close>: burning of minted resources with its counters and receipts, the configurable
  fee that burns part of a transfer, and the statistics.
\<close>

section \<open>Model\<close>

abbreviation BPS_DENOMINATOR :: u64 where "BPS_DENOMINATOR \<equiv> 10000"
abbreviation MAX_BURN_FEE_BPS :: u32 where "MAX_BURN_FEE_BPS \<equiv> 1000"
abbreviation DEFAULT_BURN_FEE_BPS :: u32 where "DEFAULT_BURN_FEE_BPS \<equiv> 200"

datatype BurnReason = Voluntary | Crafting | Upgrade | TransactionFee | MarketplaceFee | Governance

fun reason_symbol :: "BurnReason \<Rightarrow> symbol" where
  "reason_symbol Voluntary = ''Voluntary''" | "reason_symbol Crafting = ''Crafting''" | "reason_symbol Upgrade = ''Upgrade''"
| "reason_symbol TransactionFee = ''TransactionFee''" | "reason_symbol MarketplaceFee = ''MarketplaceFee''"
| "reason_symbol Governance = ''Governance''"

record BurnRecord =
  br_burn_id :: u64
  br_burner :: address
  br_resource_type :: ResourceType
  br_amount :: u64
  br_reason :: BurnReason
  br_burned_at :: u64
  br_supply_after :: u64

record BurnStats =
  bs_resource_type :: ResourceType
  bs_total_burned :: u64
  bs_total_minted :: u64
  bs_circulating_supply :: u64
  bs_deflation_rate_bps :: u32
  bs_burn_events :: u64
  bs_unique_burners :: u64
  bs_last_burn_at :: u64

record PlayerBurnStats =
  ps_player :: address
  ps_total_burned :: u64
  ps_burn_count :: u64
  ps_share_bps :: u32

datatype BurningError = InvalidAmount | InsufficientBalance | ArithmeticOverflow | FeeRateTooHigh | Unauthorized | AlreadyInitialized

fun burning_from_minter :: "MinterError \<Rightarrow> BurningError" where
  "burning_from_minter MinterError.InsufficientBalance = BurningError.InsufficientBalance"
| "burning_from_minter MinterError.InvalidAmount = BurningError.InvalidAmount"
| "burning_from_minter e = BurningError.ArithmeticOverflow"

record burn_store = minter_store +
  burned_total :: "ResourceType \<rightharpoonup> u64"
  player_burned :: "address \<rightharpoonup> u64"
  player_burned_type :: "ResourceType \<Rightarrow> address \<rightharpoonup> u64"
  player_burn_count :: "address \<rightharpoonup> u64"
  burn_count :: "u64 option"
  burn_records :: "u64 \<rightharpoonup> BurnRecord"
  unique_burners :: "u64 option"
  last_burn_at :: "u64 option"
  burn_fee_bps :: "u32 option"
  burn_fee_admin :: "address option"

definition initialize_burn_admin :: "env \<Rightarrow> address \<Rightarrow> 'a burn_store_scheme
    \<Rightarrow> (BurningError, unit) outcome \<times> 'a burn_store_scheme" where
  "initialize_burn_admin env admin s =
    (if \<not> auth env admin then (Panic, s)
     else if burn_fee_admin s \<noteq> None then (Err BurningError.AlreadyInitialized, s)
     else (Ok (), publish [SS ''burn'', SS ''admin''] [SA admin] (s\<lparr>burn_fee_admin := Some admin\<rparr>)))"

definition get_burn_fee_bps :: "'a burn_store_scheme \<Rightarrow> u32" where
  "get_burn_fee_bps s = unwrap_or (burn_fee_bps s) DEFAULT_BURN_FEE_BPS"

definition set_burn_fee_bps :: "env \<Rightarrow> address \<Rightarrow> u32 \<Rightarrow> 'a burn_store_scheme
    \<Rightarrow> (BurningError, unit) outcome \<times> 'a burn_store_scheme" where
  "set_burn_fee_bps env caller bps s =
    (if \<not> auth env caller then (Panic, s)
     else if bps > MAX_BURN_FEE_BPS then (Err BurningError.FeeRateTooHigh, s)
     else case burn_fee_admin s of
       None \<Rightarrow> (Err BurningError.Unauthorized, s)
     | Some admin \<Rightarrow>
         if admin \<noteq> caller then (Err BurningError.Unauthorized, s)
         else (Ok (), publish [SS ''burn'', SS ''feerate''] [SA caller, SU (get_burn_fee_bps s), SU bps] (s\<lparr>burn_fee_bps := Some bps\<rparr>)))"

definition record_burn :: "env \<Rightarrow> address \<Rightarrow> ResourceType \<Rightarrow> u64 \<Rightarrow> BurnReason \<Rightarrow> u64 \<Rightarrow> 'a burn_store_scheme
    \<Rightarrow> (BurningError, BurnRecord) outcome \<times> 'a burn_store_scheme" where
  "record_burn env burner resource_type amount reason supply_after s =
    (case checked_add u64_max (unwrap_or (burned_total s resource_type) 0) amount of
       None \<Rightarrow> (Err BurningError.ArithmeticOverflow, s)
     | Some new_total \<Rightarrow>
     let s = s\<lparr>burned_total := (burned_total s)(resource_type \<mapsto> new_total)\<rparr>;
         is_first_burn = (player_burn_count s burner = None) in
     case checked_add u64_max (unwrap_or (player_burned s burner) 0) amount of
       None \<Rightarrow> (Err BurningError.ArithmeticOverflow, s)
     | Some new_player_total \<Rightarrow>
     let s = s\<lparr>player_burned := (player_burned s)(burner \<mapsto> new_player_total)\<rparr> in
     case checked_add u64_max (unwrap_or (player_burned_type s resource_type burner) 0) amount of
       None \<Rightarrow> (Err BurningError.ArithmeticOverflow, s)
     | Some new_player_type \<Rightarrow>
     let s = s\<lparr>player_burned_type := (player_burned_type s)(resource_type := (player_burned_type s resource_type)(burner \<mapsto> new_player_type))\<rparr>;
         s = s\<lparr>player_burn_count := (player_burn_count s)(burner \<mapsto> saturating_add u64_max (unwrap_or (player_burn_count s burner) 0) 1)\<rparr>;
         s = (if is_first_burn then s\<lparr>unique_burners := Some (saturating_add u64_max (unwrap_or (unique_burners s) 0) 1)\<rparr> else s);
         burn_id = saturating_add u64_max (unwrap_or (burn_count s) 0) 1;
         s = s\<lparr>burn_count := Some burn_id\<rparr>;
         record = \<lparr>br_burn_id = burn_id, br_burner = burner, br_resource_type = resource_type, br_amount = amount, br_reason = reason,
           br_burned_at = timestamp env, br_supply_after = supply_after\<rparr>;
         s = s\<lparr>burn_records := (burn_records s)(burn_id \<mapsto> record)\<rparr>;
         s = s\<lparr>last_burn_at := Some (timestamp env)\<rparr>;
         s = publish [SS ''burn'', SS ''burned''] [SA burner, SS (resource_type_to_symbol resource_type), SU amount,
               SS (reason_symbol reason), SU supply_after] s;
         s = (if supply_after = 0 then publish [SS ''burn'', SS ''supply0''] [SS (resource_type_to_symbol resource_type), SU new_total] s else s)
     in (Ok record, s))"

definition burn_for_sink :: "env \<Rightarrow> address \<Rightarrow> ResourceType \<Rightarrow> u64 \<Rightarrow> BurnReason \<Rightarrow> 'a burn_store_scheme
    \<Rightarrow> (BurningError, BurnRecord) outcome \<times> 'a burn_store_scheme" where
  "burn_for_sink env holder resource_type amount reason s =
    (if amount = 0 then (Err BurningError.InvalidAmount, s)
     else and_then (map_err burning_from_minter (debit_balance holder resource_type amount s)) (\<lambda>_ s.
     and_then (map_err burning_from_minter (reduce_supply resource_type amount s)) (\<lambda>supply_after s.
     record_burn env holder resource_type amount reason supply_after s)))"

definition burn :: "env \<Rightarrow> address \<Rightarrow> ResourceType \<Rightarrow> u64 \<Rightarrow> BurnReason \<Rightarrow> 'a burn_store_scheme
    \<Rightarrow> (BurningError, BurnRecord) outcome \<times> 'a burn_store_scheme" where
  "burn env burner resource_type amount reason s =
    (if \<not> auth env burner then (Panic, s) else burn_for_sink env burner resource_type amount reason s)"

definition apply_deflationary_fee :: "env \<Rightarrow> address \<Rightarrow> ResourceType \<Rightarrow> u64 \<Rightarrow> BurnReason \<Rightarrow> 'a burn_store_scheme
    \<Rightarrow> (BurningError, u64) outcome \<times> 'a burn_store_scheme" where
  "apply_deflationary_fee env holder resource_type gross reason s =
    (if gross = 0 then (Err BurningError.InvalidAmount, s)
     else case checked_mul u64_max gross (get_burn_fee_bps s) of
       None \<Rightarrow> (Err BurningError.ArithmeticOverflow, s)
     | Some product \<Rightarrow>
     let fee = product div BPS_DENOMINATOR in
     if fee = 0 then (Ok gross, s)
     else and_then (burn_for_sink env holder resource_type fee reason s) (\<lambda>_ s.
       case checked_sub gross fee of None \<Rightarrow> (Panic, s) | Some net \<Rightarrow> (Ok net, s)))"

definition transfer_with_burn :: "env \<Rightarrow> address \<Rightarrow> address \<Rightarrow> ResourceType \<Rightarrow> u64 \<Rightarrow> 'a burn_store_scheme
    \<Rightarrow> (BurningError, u64) outcome \<times> 'a burn_store_scheme" where
  "transfer_with_burn env frm to resource_type amount s =
    (if \<not> auth env frm then (Panic, s)
     else if amount = 0 then (Err BurningError.InvalidAmount, s)
     else if balance_of frm resource_type s < amount then (Err BurningError.InsufficientBalance, s)
     else and_then (apply_deflationary_fee env frm resource_type amount TransactionFee s) (\<lambda>net s.
     and_then (map_err burning_from_minter (move_balance frm to resource_type net s)) (\<lambda>_ s.
     (Ok net, publish [SS ''burn'', SS ''xferburn''] [SA frm, SA to, SS (resource_type_to_symbol resource_type), SU amount, SU net] s))))"

definition total_burned :: "ResourceType \<Rightarrow> 'a burn_store_scheme \<Rightarrow> u64" where
  "total_burned resource_type s = unwrap_or (burned_total s resource_type) 0"

text \<open>The cast to \<open>u32\<close> keeps the low 32 bits of the quotient.\<close>

definition deflation_rate_bps :: "ResourceType \<Rightarrow> 'a burn_store_scheme \<Rightarrow> u32" where
  "deflation_rate_bps resource_type s = (let minted = total_minted resource_type s in
     if minted = 0 then 0 else total_burned resource_type s * BPS_DENOMINATOR div minted mod 2 ^ 32)"

definition get_burn_stats :: "ResourceType \<Rightarrow> 'a burn_store_scheme \<Rightarrow> BurnStats" where
  "get_burn_stats resource_type s = \<lparr>bs_resource_type = resource_type, bs_total_burned = total_burned resource_type s,
     bs_total_minted = total_minted resource_type s, bs_circulating_supply = circulating_supply resource_type s,
     bs_deflation_rate_bps = deflation_rate_bps resource_type s, bs_burn_events = unwrap_or (burn_count s) 0,
     bs_unique_burners = unwrap_or (unique_burners s) 0, bs_last_burn_at = unwrap_or (last_burn_at s) 0\<rparr>"

definition total_burned_all :: "'a burn_store_scheme \<Rightarrow> u64" where
  "total_burned_all s = saturating_add u64_max
     (saturating_add u64_max (total_burned ResourceType.StellarDust s) (total_burned ResourceType.DarkMatter s))
     (total_burned ResourceType.ExoticMatter s)"

definition get_player_burn_stats :: "address \<Rightarrow> 'a burn_store_scheme \<Rightarrow> PlayerBurnStats" where
  "get_player_burn_stats player s =
    (let burned = unwrap_or (player_burned s player) 0;
         global_burned = total_burned_all s;
         share_bps = (if global_burned = 0 then 0 else burned * BPS_DENOMINATOR div global_burned mod 2 ^ 32)
     in \<lparr>ps_player = player, ps_total_burned = burned, ps_burn_count = unwrap_or (player_burn_count s player) 0, ps_share_bps = share_bps\<rparr>)"

definition player_burned_of :: "address \<Rightarrow> ResourceType \<Rightarrow> 'a burn_store_scheme \<Rightarrow> u64" where
  "player_burned_of player resource_type s = unwrap_or (player_burned_type s resource_type player) 0"

definition get_burn_record :: "u64 \<Rightarrow> 'a burn_store_scheme \<Rightarrow> BurnRecord option" where
  "get_burn_record burn_id s = burn_records s burn_id"

section \<open>Steps and invariant\<close>

inductive burn_step :: "env \<Rightarrow> 'a burn_store_scheme \<Rightarrow> 'a burn_store_scheme \<Rightarrow> bool" for env where
  mint: "commits (mint_resource env c i k rt n) s s' \<Longrightarrow> burn_step env s s'"
| reward: "commits (credit_balance a rt n) s s' \<Longrightarrow> burn_step env s s'"
| move: "commits (move_balance a b rt n) s s' \<Longrightarrow> burn_step env s s'"
| admin: "commits (initialize_burn_admin env a) s s' \<Longrightarrow> burn_step env s s'"
| fee_rate: "commits (set_burn_fee_bps env a bps) s s' \<Longrightarrow> burn_step env s s'"
| burn: "commits (burn env a rt n r) s s' \<Longrightarrow> burn_step env s s'"
| sink: "commits (burn_for_sink env a rt n r) s s' \<Longrightarrow> burn_step env s s'"
| fee: "commits (apply_deflationary_fee env a rt n r) s s' \<Longrightarrow> burn_step env s s'"
| transfer: "commits (transfer_with_burn env a b rt n) s s' \<Longrightarrow> burn_step env s s'"

text \<open>The books of one resource type: balances, supply, cumulative mints and burns.\<close>

definition books :: "(address \<rightharpoonup> u64) \<Rightarrow> nat \<Rightarrow> nat \<Rightarrow> nat \<Rightarrow> (address \<rightharpoonup> u64) \<Rightarrow> bool" where
  "books bal supply_now minted burned by_player \<longleftrightarrow> finite (dom bal) \<and> finite (dom by_player) \<and> msum bal = supply_now
     \<and> minted = supply_now + burned \<and> msum by_player = burned"

definition burn_inv :: "'a burn_store_scheme \<Rightarrow> bool" where
  "burn_inv s \<longleftrightarrow> (\<forall>rt. books (mint_balance s rt) (circulating_supply rt s) (total_minted rt s) (total_burned rt s) (player_burned_type s rt))
     \<and> get_burn_fee_bps s \<le> MAX_BURN_FEE_BPS"

section \<open>Lemmas\<close>

lemma publish_burn_store [simp]:
  "burned_total (publish t d s) = burned_total s" "player_burned (publish t d s) = player_burned s"
  "player_burned_type (publish t d s) = player_burned_type s" "player_burn_count (publish t d s) = player_burn_count s"
  "burn_count (publish t d s) = burn_count s" "burn_fee_bps (publish t d s) = burn_fee_bps s"
  "burn_fee_admin (publish t d s) = burn_fee_admin s"
  by (simp_all add: publish_def)

lemma books_mint:
  assumes "books bal n m b p"
  shows "books (bal(a \<mapsto> unwrap_or (bal a) 0 + x)) (n + x) (m + x) b p"
  using assms msum_upd[of bal a "unwrap_or (bal a) 0 + x"] by (simp add: books_def)

lemma books_burn:
  assumes "books bal n m b p" and "x \<le> unwrap_or (bal a) 0"
  shows "books (bal(a \<mapsto> unwrap_or (bal a) 0 - x)) (n - x) m (b + x) (p(a \<mapsto> unwrap_or (p a) 0 + x))" and "x \<le> n"
proof -
  have fin: "finite (dom bal)" "finite (dom p)" and eq: "msum bal = n" "m = n + b" "msum p = b" using assms(1) by (auto simp: books_def)
  have "unwrap_or (bal a) 0 \<le> n" using msum_ge[OF fin(1), of a] eq by simp
  then show le: "x \<le> n" using assms(2) by simp
  show "books (bal(a \<mapsto> unwrap_or (bal a) 0 - x)) (n - x) m (b + x) (p(a \<mapsto> unwrap_or (p a) 0 + x))"
    using msum_upd[OF fin(1), of a "unwrap_or (bal a) 0 - x"] msum_upd[OF fin(2), of a "unwrap_or (p a) 0 + x"] fin eq le assms(2)
    by (simp add: books_def)
qed

lemma books_move:
  "books bal n m b p \<Longrightarrow> a \<noteq> c \<Longrightarrow> x \<le> unwrap_or (bal a) 0 \<Longrightarrow>
   books (bal(a \<mapsto> unwrap_or (bal a) 0 - x, c \<mapsto> unwrap_or (bal c) 0 + x)) n m b p"
  using msum_move[of bal a c x] by (simp add: books_def)

lemma burn_inv_books: "burn_inv s \<Longrightarrow> books (mint_balance s rt) (circulating_supply rt s) (total_minted rt s) (total_burned rt s) (player_burned_type s rt)"
  by (simp add: burn_inv_def)

lemma record_burn_Ok:
  assumes "record_burn env a rt n r left s = (Ok rec, s')"
  shows "burned_total s' = (burned_total s)(rt \<mapsto> total_burned rt s + n) \<and>
    player_burned_type s' = (player_burned_type s)(rt := (player_burned_type s rt)(a \<mapsto> player_burned_of a rt s + n)) \<and>
    mint_view s' = mint_view s \<and> get_burn_fee_bps s' = get_burn_fee_bps s \<and>
    br_burner rec = a \<and> br_amount rec = n \<and> br_supply_after rec = left \<and> burn_records s' (br_burn_id rec) = Some rec"
  using assms
  by (auto simp: record_burn_def ok_rules Let_def total_burned_def player_burned_of_def mint_view_def get_burn_fee_bps_def publish_def
      split: if_splits)

lemma sink_Ok:
  assumes "burn_for_sink env a rt n r s = (Ok rec, s')"
  shows "0 < n \<and> n \<le> balance_of a rt s \<and> n \<le> circulating_supply rt s \<and>
    mint_balance s' = (mint_balance s)(rt := (mint_balance s rt)(a \<mapsto> balance_of a rt s - n)) \<and>
    mint_supply s' = (mint_supply s)(rt \<mapsto> circulating_supply rt s - n) \<and> mint_minted s' = mint_minted s \<and>
    burned_total s' = (burned_total s)(rt \<mapsto> total_burned rt s + n) \<and>
    player_burned_type s' = (player_burned_type s)(rt := (player_burned_type s rt)(a \<mapsto> player_burned_of a rt s + n)) \<and>
    get_burn_fee_bps s' = get_burn_fee_bps s"
  using assms by (auto simp: burn_for_sink_def ok_rules debit_Ok reduce_Ok circulating_supply_def mint_view_def total_burned_def
      player_burned_of_def get_burn_fee_bps_def dest!: record_burn_Ok)

text \<open>One resource type changes at a time.\<close>

lemma burn_inv_one:
  assumes "burn_inv s" and "\<And>x. x \<noteq> rt \<Longrightarrow> mint_balance s' x = mint_balance s x \<and> circulating_supply x s' = circulating_supply x s
      \<and> total_minted x s' = total_minted x s \<and> total_burned x s' = total_burned x s \<and> player_burned_type s' x = player_burned_type s x"
    and "books (mint_balance s' rt) (circulating_supply rt s') (total_minted rt s') (total_burned rt s') (player_burned_type s' rt)"
    and "get_burn_fee_bps s' = get_burn_fee_bps s"
  shows "burn_inv s'"
  unfolding burn_inv_def
proof (intro conjI allI)
  fix x show "books (mint_balance s' x) (circulating_supply x s') (total_minted x s') (total_burned x s') (player_burned_type s' x)"
    using assms(2)[of x] assms(3) burn_inv_books[OF assms(1), of x] by (cases "x = rt") auto
qed (use assms(1,4) in \<open>simp add: burn_inv_def\<close>)

lemma sink_inv: "burn_inv s \<Longrightarrow> burn_for_sink env a rt n r s = (Ok rec, s') \<Longrightarrow> burn_inv s'"
proof -
  assume inv: "burn_inv s" and ok: "burn_for_sink env a rt n r s = (Ok rec, s')"
  note e = sink_Ok[OF ok]
  have "books ((mint_balance s rt)(a \<mapsto> balance_of a rt s - n)) (circulating_supply rt s - n) (total_minted rt s) (total_burned rt s + n)
      ((player_burned_type s rt)(a \<mapsto> player_burned_of a rt s + n))"
    using books_burn(1)[OF burn_inv_books[OF inv, of rt], of n a] e by (simp add: balance_of_def player_burned_of_def)
  then show ?thesis
    by (intro burn_inv_one[OF inv, of rt]) (use e in \<open>auto simp: circulating_supply_def total_minted_def total_burned_def\<close>)
qed

lemma add_minted_inv:
  assumes inv: "burn_inv s" and ok: "add_minted a rt n t = (Ok b, t')" and t: "mint_view t = mint_view s" "mint_view s' = mint_view t'"
    and rest: "burned_total s' = burned_total s" "player_burned_type s' = player_burned_type s" "burn_fee_bps s' = burn_fee_bps s"
  shows "burn_inv s'"
proof (rule burn_inv_one[OF inv, of rt])
  have new: "mint_balance s' = (mint_balance s)(rt := (mint_balance s rt)(a \<mapsto> balance_of a rt s + n))"
      "mint_supply s' = (mint_supply s)(rt \<mapsto> circulating_supply rt s + n)" "mint_minted s' = (mint_minted s)(rt \<mapsto> total_minted rt s + n)"
    using ok t by (auto simp: add_minted_Ok mint_view_def balance_of_def circulating_supply_def total_minted_def)
  show "books (mint_balance s' rt) (circulating_supply rt s') (total_minted rt s') (total_burned rt s') (player_burned_type s' rt)"
    using books_mint[OF burn_inv_books[OF inv, of rt], of a n] rest
    by (simp add: new balance_of_def circulating_supply_def total_minted_def total_burned_def)
  show "mint_balance s' x = mint_balance s x \<and> circulating_supply x s' = circulating_supply x s \<and> total_minted x s' = total_minted x s
      \<and> total_burned x s' = total_burned x s \<and> player_burned_type s' x = player_burned_type s x" if "x \<noteq> rt" for x
    using that rest by (simp add: new circulating_supply_def total_minted_def total_burned_def)
qed (use rest in \<open>simp add: get_burn_fee_bps_def\<close>)

text \<open>The burn counters, which a mint leaves alone.\<close>

definition burn_view :: "'a burn_store_scheme \<Rightarrow> (ResourceType \<rightharpoonup> u64) \<times> (ResourceType \<Rightarrow> address \<rightharpoonup> u64) \<times> u32 option" where
  "burn_view s = (burned_total s, player_burned_type s, burn_fee_bps s)"

lemma burn_checks_frame:
  "check_rate_limit env c op s = (Ok u, t) \<Longrightarrow> burn_view t = burn_view s"
  "has_anomaly env i k s = (Ok b, t) \<Longrightarrow> burn_view t = burn_view s"
  "check_operation env c kd n s = (Ok u, t) \<Longrightarrow> burn_view t = burn_view s"
  "process_anti_whale_action env c n s = (Ok x, t) \<Longrightarrow> burn_view t = burn_view s"
  "add_minted c rt n s = (Ok m, t) \<Longrightarrow> burn_view t = burn_view s"
proof -
  show "check_rate_limit env c op s = (Ok u, t) \<Longrightarrow> burn_view t = burn_view s"
    by (auto simp: check_rate_Ok Let_def burn_view_def)
  show "has_anomaly env i k s = (Ok b, t) \<Longrightarrow> burn_view t = burn_view s"
    by (auto simp: has_anomaly_def get_live_layout_def burn_view_def split: option.splits if_splits)
  show "check_operation env c kd n s = (Ok u, t) \<Longrightarrow> burn_view t = burn_view s"
    by (auto simp: check_operation_Ok add_activity_with_def burn_view_def split: if_splits)
  show "process_anti_whale_action env c n s = (Ok x, t) \<Longrightarrow> burn_view t = burn_view s"
    by (auto simp: process_anti_whale_action_def ok_rules Let_def burn_view_def split: option.splits if_splits)
  show "add_minted c rt n s = (Ok m, t) \<Longrightarrow> burn_view t = burn_view s"
    by (auto simp: add_minted_Ok burn_view_def)
qed

lemma mint_burn_frame: "mint_resource env c i k rt n s = (Ok r, s') \<Longrightarrow> burn_view s' = burn_view s"
proof -
  assume "mint_resource env c i k rt n s = (Ok r, s')"
  then obtain t1 t2 t3 t4 t5 x f b eff where
      c: "check_rate_limit env c ResourceMinting s = (Ok (), t1)" "has_anomaly env i k t1 = (Ok x, t2)"
        "check_operation env c Mint 1 t2 = (Ok (), t3)" "process_anti_whale_action env c n t3 = (Ok (eff, f), t4)"
        "add_minted c rt eff t4 = (Ok b, t5)" and s': "burn_view s' = burn_view t5"
    by (auto simp: mint_resource_def ok_rules Let_def burn_view_def split del: if_split split: prod.splits)
  show ?thesis using burn_checks_frame(1)[OF c(1)] burn_checks_frame(2)[OF c(2)] burn_checks_frame(3)[OF c(3)]
      burn_checks_frame(4)[OF c(4)] burn_checks_frame(5)[OF c(5)] s' by simp
qed

lemma mint_inv: "burn_inv s \<Longrightarrow> mint_resource env c i k rt n s = (Ok r, s') \<Longrightarrow> burn_inv s'"
  using mint_resource_effect[of env c i k rt n s r s'] mint_burn_frame[of env c i k rt n s r s'] add_minted_inv[of s]
  unfolding burn_view_def by blast

lemma reward_inv: "burn_inv s \<Longrightarrow> credit_balance a rt n s = (Ok b, s') \<Longrightarrow> burn_inv s'"
  by (rule add_minted_inv[of s a rt n s b s']) (auto simp: credit_Ok add_minted_Ok)

lemma move_inv: "burn_inv s \<Longrightarrow> move_balance a b rt n s = (Ok r, s') \<Longrightarrow> burn_inv s'"
proof (cases "a = b")
  case False
  assume inv: "burn_inv s" and ok: "move_balance a b rt n s = (Ok r, s')"
  then have n: "n \<le> balance_of a rt s" and s': "s' = s\<lparr>mint_balance := (mint_balance s)(rt := (mint_balance s rt)(a \<mapsto> balance_of a rt s - n, b \<mapsto> balance_of b rt s + n))\<rparr>"
    using False by (auto simp: move_Ok)
  show ?thesis
    by (rule burn_inv_one[OF inv, of rt])
      (use books_move[OF burn_inv_books[OF inv, of rt] False, of n] n in
        \<open>auto simp: s' balance_of_def circulating_supply_def total_minted_def total_burned_def get_burn_fee_bps_def\<close>)
qed (auto simp: move_Ok)

lemma fee_Ok: "apply_deflationary_fee env a rt g r s = (Ok net, s') \<Longrightarrow> 0 < g \<and> g * get_burn_fee_bps s \<le> u64_max \<and>
    net = g - g * get_burn_fee_bps s div 10000 \<and> g * get_burn_fee_bps s div 10000 \<le> g \<and>
    (if g * get_burn_fee_bps s div 10000 = 0 then s' = s else (\<exists>rec. burn_for_sink env a rt (g * get_burn_fee_bps s div 10000) r s = (Ok rec, s')))"
  by (auto simp: apply_deflationary_fee_def ok_rules Let_def split: if_splits)

lemma fee_inv: "burn_inv s \<Longrightarrow> apply_deflationary_fee env a rt g r s = (Ok net, s') \<Longrightarrow> burn_inv s'"
  by (auto dest!: fee_Ok intro: sink_inv split: if_splits)

lemma publish_burn_inv [simp]: "burn_inv (publish t d s) \<longleftrightarrow> burn_inv s"
  by (simp add: burn_inv_def circulating_supply_def total_minted_def total_burned_def get_burn_fee_bps_def)

lemma transfer_Ok: "transfer_with_burn env a b rt n s = (Ok net, s') \<Longrightarrow> auth env a \<and> 0 < n \<and> n \<le> balance_of a rt s \<and>
    (\<exists>t u r. apply_deflationary_fee env a rt n TransactionFee s = (Ok net, t) \<and> move_balance a b rt net t = (Ok r, u) \<and>
      s' = publish [SS ''burn'', SS ''xferburn''] [SA a, SA b, SS (resource_type_to_symbol rt), SU n, SU net] u)"
  by (auto simp: transfer_with_burn_def ok_rules not_less split del: if_split)

lemma transfer_inv: "burn_inv s \<Longrightarrow> transfer_with_burn env a b rt n s = (Ok net, s') \<Longrightarrow> burn_inv s'"
  using fee_inv[of s env a rt n TransactionFee] move_inv[of _ a b rt] transfer_Ok[of env a b rt n s net s'] publish_burn_inv by metis

lemma burn_step_inv: "burn_inv s \<Longrightarrow> burn_step env s s' \<Longrightarrow> burn_inv s'"
proof (erule burn_step.cases)
  fix a bps t t' assume "burn_inv s" "s = t" "s' = t'" "commits (set_burn_fee_bps env a bps) t t'"
  then show ?thesis
    by (auto simp: commits_iff set_burn_fee_bps_def ok_rules burn_inv_def circulating_supply_def total_minted_def total_burned_def
        get_burn_fee_bps_def split del: if_split)
next
  fix a t t' assume "burn_inv s" "s = t" "s' = t'" "commits (initialize_burn_admin env a) t t'"
  then show ?thesis
    by (auto simp: commits_iff initialize_burn_admin_def ok_rules burn_inv_def circulating_supply_def total_minted_def total_burned_def
        get_burn_fee_bps_def split del: if_split)
qed (auto simp: commits_iff burn_def ok_rules intro: mint_inv reward_inv move_inv sink_inv fee_inv transfer_inv)

interpretation burning: step_system "\<lambda>s s'. \<exists>env. burn_step env s s'" "burn_inv :: 'a burn_store_scheme \<Rightarrow> bool"
  by unfold_locales (auto intro: burn_step_inv)

text \<open>A player with 1000 units, all of the supply.\<close>

definition holdings :: burn_store where
  "holdings = minter_store.extend (nebula_store.extend no_nebulae
       \<lparr>mint_balance = (\<lambda>_. Map.empty)(ResourceType.DarkMatter := [Addr 1 \<mapsto> 1000]), mint_supply = [ResourceType.DarkMatter \<mapsto> 1000],
        mint_minted = [ResourceType.DarkMatter \<mapsto> 1000], resource_bal = Map.empty\<rparr>)
     \<lparr>burned_total = Map.empty, player_burned = Map.empty, player_burned_type = (\<lambda>_. Map.empty), player_burn_count = Map.empty,
      burn_count = None, burn_records = Map.empty, unique_burners = None, last_burn_at = None, burn_fee_bps = None, burn_fee_admin = None\<rparr>"

lemma holdings_simps: "mint_balance holdings = (\<lambda>_. Map.empty)(ResourceType.DarkMatter := [Addr 1 \<mapsto> 1000])"
    "mint_supply holdings = [ResourceType.DarkMatter \<mapsto> 1000]" "mint_minted holdings = [ResourceType.DarkMatter \<mapsto> 1000]"
    "burned_total holdings = Map.empty" "player_burned holdings = Map.empty" "player_burned_type holdings = (\<lambda>_. Map.empty)"
    "burn_fee_bps holdings = None"
  by (simp_all add: holdings_def minter_store.defs nebula_store.defs)

lemma holdings_inv: "burn_inv holdings"
  by (auto simp: burn_inv_def books_def holdings_simps circulating_supply_def total_minted_def total_burned_def get_burn_fee_bps_def msum_def)

section \<open>Properties\<close>

text \<open>C16. The resource books balance. After any run of mints, rewards, moves, burns, fees and fee-charging transfers
  from a state where they do, for every resource type the circulating supply is the sum of all balances, everything ever
  minted is either circulating or burned, the burned total is the sum of the players' contributions, and the deflation
  rate is at most 100 percent; and a burn by a holder with the balance can fail only by an overflow of a burn counter.\<close>

theorem resource_books_balance:
  assumes "(\<lambda>s s'. \<exists>env. burn_step env s s')\<^sup>*\<^sup>* s t" and "burn_inv s"
  shows "circulating_supply rt t = msum (mint_balance t rt) \<and> total_minted rt t = circulating_supply rt t + total_burned rt t
    \<and> total_burned rt t = msum (player_burned_type t rt)
    \<and> deflation_rate_bps rt t \<le> 10000
    \<and> (\<forall>env a n r. 0 < n \<and> n \<le> balance_of a rt t \<longrightarrow>
        (\<exists>rec u. burn_for_sink env a rt n r t = (Ok rec, u) \<and> balance_of a rt u = balance_of a rt t - n)
        \<or> fst (burn_for_sink env a rt n r t) = Err BurningError.ArithmeticOverflow)"
proof -
  have inv: "burn_inv t" using burning.run_inv[OF assms] .
  note b = burn_inv_books[OF inv, of rt]
  then have le: "total_burned rt t \<le> total_minted rt t" by (simp add: books_def)
  have "deflation_rate_bps rt t \<le> 10000"
  proof (cases "total_minted rt t = 0")
    case False
    have "total_burned rt t * 10000 div total_minted rt t \<le> total_minted rt t * 10000 div total_minted rt t"
      using le by (intro div_le_mono) simp
    then have "total_burned rt t * 10000 div total_minted rt t \<le> 10000" using False by simp
    then show ?thesis using False mod_less_eq_dividend order_trans by (simp add: deflation_rate_bps_def Let_def)
  qed (simp add: deflation_rate_bps_def)
  moreover have "(\<exists>rec u. burn_for_sink env a rt n r t = (Ok rec, u) \<and> balance_of a rt u = balance_of a rt t - n)
      \<or> fst (burn_for_sink env a rt n r t) = Err BurningError.ArithmeticOverflow" if n: "0 < n" "n \<le> balance_of a rt t" for env a n r
  proof -
    have "n \<le> circulating_supply rt t" using books_burn(2)[OF b, of n a] n by (simp add: balance_of_def)
    then obtain u where u: "burn_for_sink env a rt n r t = record_burn env a rt n r (circulating_supply rt t - n) u"
      using n by (auto simp: burn_for_sink_def debit_balance_def reduce_supply_def checked_sub_def circulating_supply_def)
    show ?thesis
    proof (cases "burn_for_sink env a rt n r t")
      case (Pair o' v)
      then show ?thesis
      proof (cases o')
        case (Ok rec)
        then show ?thesis using Pair sink_Ok[of env a rt n r t rec v] by (auto simp: balance_of_def)
      qed (use u in \<open>auto simp: record_burn_def Let_def split: option.splits\<close>)
    qed
  qed
  ultimately show ?thesis using b by (auto simp: books_def)
qed

theorem resource_books_balance_witness:
  "\<exists>rec u. burn_for_sink (signed_at 5 1) (Addr 1) ResourceType.DarkMatter 400 Crafting holdings = (Ok rec, u)
     \<and> balance_of (Addr 1) ResourceType.DarkMatter u = 600"
proof -
  have b: "balance_of (Addr 1) ResourceType.DarkMatter holdings = 1000" by (simp add: balance_of_def holdings_simps)
  have "fst (burn_for_sink (signed_at 5 1) (Addr 1) ResourceType.DarkMatter 400 Crafting holdings) \<noteq> Err BurningError.ArithmeticOverflow"
    by (simp add: burn_for_sink_def debit_balance_def reduce_supply_def checked_sub_def circulating_supply_def b record_burn_def holdings_simps
        checked_add_def Let_def)
  moreover have "\<forall>env a n r. 0 < n \<and> n \<le> balance_of a ResourceType.DarkMatter holdings \<longrightarrow>
        (\<exists>rec u. burn_for_sink env a ResourceType.DarkMatter n r holdings = (Ok rec, u)
          \<and> balance_of a ResourceType.DarkMatter u = balance_of a ResourceType.DarkMatter holdings - n)
        \<or> fst (burn_for_sink env a ResourceType.DarkMatter n r holdings) = Err BurningError.ArithmeticOverflow"
    using resource_books_balance[OF rtranclp.rtrancl_refl holdings_inv, of ResourceType.DarkMatter] by (elim conjE)
  from this[rule_format, of 400 "Addr 1" "signed_at 5 1" Crafting] have
    "(\<exists>rec u. burn_for_sink (signed_at 5 1) (Addr 1) ResourceType.DarkMatter 400 Crafting holdings = (Ok rec, u)
          \<and> balance_of (Addr 1) ResourceType.DarkMatter u = 600)
        \<or> fst (burn_for_sink (signed_at 5 1) (Addr 1) ResourceType.DarkMatter 400 Crafting holdings) = Err BurningError.ArithmeticOverflow"
    unfolding b by simp
  ultimately show ?thesis by blast
qed

text \<open>C17. A transfer charges exactly the fee. A successful transfer of \<open>n\<close> units takes \<open>n\<close> from the sender, burns the
  configured share of it, at most a tenth, gives the rest to the recipient and touches no other balance; what leaves the
  supply is exactly the fee.\<close>

theorem transfer_exact:
  assumes inv: "burn_inv s" and ok: "transfer_with_burn env a b rt n s = (Ok net, s')" and other: "a \<noteq> b"
  shows "net = n - n * get_burn_fee_bps s div 10000 \<and> n - net \<le> n div 10 \<and> 0 < net
    \<and> balance_of a rt s' = balance_of a rt s - n \<and> n \<le> balance_of a rt s \<and> balance_of b rt s' = balance_of b rt s + net
    \<and> (\<forall>x y. (x, y) \<noteq> (a, rt) \<and> (x, y) \<noteq> (b, rt) \<longrightarrow> balance_of x y s' = balance_of x y s)
    \<and> circulating_supply rt s' = circulating_supply rt s - (n - net) \<and> n - net \<le> circulating_supply rt s \<and> auth env a"
proof -
  let ?fee = "n * get_burn_fee_bps s div 10000"
  from transfer_Ok[OF ok] obtain t u r where n: "auth env a" "0 < n" "n \<le> balance_of a rt s"
      and fee: "apply_deflationary_fee env a rt n TransactionFee s = (Ok net, t)" and move: "move_balance a b rt net t = (Ok r, u)"
      and s': "mint_balance s' = mint_balance u" "circulating_supply rt s' = circulating_supply rt u"
    by (auto simp: circulating_supply_def)
  note f = fee_Ok[OF fee]
  have "get_burn_fee_bps s \<le> 1000" using inv by (simp add: burn_inv_def)
  then have "?fee \<le> n * 1000 div 10000" by (intro div_le_mono mult_le_mono2)
  then have tenth: "?fee \<le> n div 10" using div_mult2_eq[of "n * 1000" 1000 10] by simp
  have net: "net = n - ?fee" using f by simp
  have t: "balance_of a rt t = balance_of a rt s - ?fee" "circulating_supply rt t = circulating_supply rt s - ?fee" "?fee \<le> circulating_supply rt s"
      "\<And>x y. (x, y) \<noteq> (a, rt) \<Longrightarrow> balance_of x y t = balance_of x y s"
    using f sink_Ok[of env a rt ?fee TransactionFee s _ t] by (auto simp: balance_of_def circulating_supply_def split: if_splits)
  have u: "balance_of a rt s' = balance_of a rt t - net" "balance_of b rt s' = balance_of b rt t + net"
      "circulating_supply rt u = circulating_supply rt t" "\<And>x y. (x, y) \<noteq> (a, rt) \<Longrightarrow> (x, y) \<noteq> (b, rt) \<Longrightarrow> balance_of x y s' = balance_of x y t"
    using move other s' by (auto simp: move_Ok balance_of_def circulating_supply_def split: if_splits)
  have "0 < net" using net tenth n(2) by simp
  moreover have "n - net = ?fee" using net f by simp
  moreover have "balance_of a rt s' = balance_of a rt s - n" "balance_of b rt s' = balance_of b rt s + net"
    using t u(1,2) net f other by auto
  ultimately show ?thesis using n net tenth t(2-4) u(3,4) s'(2) by auto
qed

theorem transfer_exact_witness:
  "\<exists>s'. transfer_with_burn (signed_at 5 1) (Addr 1) (Addr 2) ResourceType.DarkMatter 500 holdings = (Ok 490, s')
     \<and> balance_of (Addr 2) ResourceType.DarkMatter s' = 490"
proof -
  have "fst (transfer_with_burn (signed_at 5 1) (Addr 1) (Addr 2) ResourceType.DarkMatter 500 holdings) = Ok 490"
    by (simp add: transfer_with_burn_def apply_deflationary_fee_def burn_for_sink_def debit_balance_def reduce_supply_def record_burn_def
        move_balance_def balance_of_def circulating_supply_def holdings_simps get_burn_fee_bps_def checked_add_def checked_sub_def checked_mul_def Let_def)
  then obtain s' where ok: "transfer_with_burn (signed_at 5 1) (Addr 1) (Addr 2) ResourceType.DarkMatter 500 holdings = (Ok 490, s')"
    by (metis prod.collapse)
  have "balance_of (Addr 2) ResourceType.DarkMatter holdings = 0" by (simp add: balance_of_def holdings_simps)
  with transfer_exact[OF holdings_inv ok] ok show ?thesis by simp
qed

end
