(* ===== verification/Dex_Integration.thy ===== *)
theory Dex_Integration
  imports Token_Burning
begin

text \<open>
  \<open>src/dex_integration.rs\<close> and the listing half of \<open>src/resource_minter.rs\<close>: offers that hold harvested
  assets in escrow, filling them, selling into limit orders, cancelling, and browsing.
\<close>

section \<open>Model\<close>

record DexOffer =
  do_offer_id :: u64
  do_seller :: address
  do_asset_id :: symbol
  do_amount :: u32
  do_min_price :: i128
  do_active :: bool

record DexFill =
  df_id :: u64
  df_buyer :: address
  df_seller :: address
  df_asset_id :: symbol
  df_amount :: u32
  df_price :: i128
  df_total_cost :: i128
  df_remaining :: i128

record OfferPage =
  op_offers :: "DexOffer list"
  op_next_cursor :: "u64 option"

record dex_store = burn_store +
  dex_offer_counter :: "u64 option"
  dex_offers :: "u64 \<rightharpoonup> DexOffer"
  session_listings :: "address \<rightharpoonup> u32"

abbreviation MAX_LISTINGS_PER_SESSION :: u32 where "MAX_LISTINGS_PER_SESSION \<equiv> 5"
abbreviation MAX_OFFER_PAGE :: u32 where "MAX_OFFER_PAGE \<equiv> 50"
abbreviation MAX_OFFER_SCAN :: u32 where "MAX_OFFER_SCAN \<equiv> 200"

definition next_dex_offer_id :: "'a dex_store_scheme \<Rightarrow> (u64 \<times> 'a dex_store_scheme) option" where
  "next_dex_offer_id s = map_option (\<lambda>n. (n, s\<lparr>dex_offer_counter := Some n\<rparr>))
     (checked_add u64_max (unwrap_or (dex_offer_counter s) 0) 1)"

definition dex_offer_count :: "'a dex_store_scheme \<Rightarrow> u64" where
  "dex_offer_count s = unwrap_or (dex_offer_counter s) 0"

definition get_dex_offer :: "u64 \<Rightarrow> 'a dex_store_scheme \<Rightarrow> DexOffer option" where
  "get_dex_offer offer_id s = dex_offers s offer_id"

definition open_listings :: "address \<Rightarrow> 'a dex_store_scheme \<Rightarrow> u32" where
  "open_listings seller s = unwrap_or (session_listings s seller) 0"

definition ensure_listing_slot :: "address \<Rightarrow> 'a dex_store_scheme \<Rightarrow> (HarvestError, unit) outcome \<times> 'a dex_store_scheme" where
  "ensure_listing_slot seller s =
    (if open_listings seller s \<ge> MAX_LISTINGS_PER_SESSION then (Err HarvestError.DexFailure, s) else (Ok (), s))"

definition note_listing_opened :: "address \<Rightarrow> 'a dex_store_scheme \<Rightarrow> 'a dex_store_scheme" where
  "note_listing_opened seller s = s\<lparr>session_listings := (session_listings s)(seller \<mapsto> saturating_add u32_max (open_listings seller s) 1)\<rparr>"

definition release_listing_slot :: "address \<Rightarrow> 'a dex_store_scheme \<Rightarrow> 'a dex_store_scheme" where
  "release_listing_slot seller s = s\<lparr>session_listings := (session_listings s)(seller \<mapsto> saturating_sub (open_listings seller s) 1)\<rparr>"

text \<open>The part that listing an exact amount and listing a whole balance share.\<close>

definition open_offer :: "address \<Rightarrow> symbol \<Rightarrow> u32 \<Rightarrow> i128 \<Rightarrow> 'a dex_store_scheme
    \<Rightarrow> (HarvestError, DexOffer) outcome \<times> 'a dex_store_scheme" where
  "open_offer seller resource amount min_price s = (case next_dex_offer_id s of
     None \<Rightarrow> (Err HarvestError.PriceOverflow, s)
   | Some (offer_id, s) \<Rightarrow>
       let offer = \<lparr>do_offer_id = offer_id, do_seller = seller, do_asset_id = resource, do_amount = amount, do_min_price = min_price, do_active = True\<rparr>;
           s = s\<lparr>dex_offers := (dex_offers s)(offer_id \<mapsto> offer)\<rparr>;
           s = note_listing_opened seller s
       in (Ok offer, publish [SS ''dex'', SS ''listed''] [SU offer_id, SA seller, SS resource, SU amount, SI min_price] s))"

definition auto_list_on_dex_unguarded :: "env \<Rightarrow> address \<Rightarrow> symbol \<Rightarrow> i128 \<Rightarrow> 'a dex_store_scheme
    \<Rightarrow> (HarvestError, DexOffer) outcome \<times> 'a dex_store_scheme" where
  "auto_list_on_dex_unguarded env player resource min_price s =
    (if \<not> auth env player then (Panic, s)
     else if min_price \<le> 0 then (Err HarvestError.InvalidPrice, s)
     else let amount = resource_balance player resource s in
     if amount = 0 then (Err HarvestError.InsufficientBalance, s)
     else let s = s\<lparr>resource_bal := (resource_bal s)((player, resource) \<mapsto> 0)\<rparr>
          in open_offer player resource amount min_price s)"

definition auto_list_on_dex :: "env \<Rightarrow> address \<Rightarrow> symbol \<Rightarrow> i128 \<Rightarrow> 'a dex_store_scheme
    \<Rightarrow> (HarvestError, DexOffer) outcome \<times> 'a dex_store_scheme" where
  "auto_list_on_dex env player resource min_price =
     with_guard harvest_from_reentrancy (auto_list_on_dex_unguarded env player resource min_price)"

definition escrow_and_list :: "address \<Rightarrow> symbol \<Rightarrow> u32 \<Rightarrow> i128 \<Rightarrow> 'a dex_store_scheme
    \<Rightarrow> (HarvestError, DexOffer) outcome \<times> 'a dex_store_scheme" where
  "escrow_and_list seller resource amount min_price s =
    (let balance = resource_balance seller resource s in
     if balance < amount then (Err HarvestError.InsufficientBalance, s)
     else let s = s\<lparr>resource_bal := (resource_bal s)((seller, resource) \<mapsto> balance - amount)\<rparr>
          in open_offer seller resource amount min_price s)"

fun listed_total :: "symbol \<Rightarrow> HarvestedResource list \<Rightarrow> u32 \<Rightarrow> u32 option" where
  "listed_total resource [] listed_amount = Some listed_amount"
| "listed_total resource (hr # hrs) listed_amount =
    (if hr_asset_id hr = resource then
       (case checked_add u32_max listed_amount (hr_amount hr) of None \<Rightarrow> None | Some n \<Rightarrow> listed_total resource hrs n)
     else listed_total resource hrs listed_amount)"

definition harvest_and_list_unguarded :: "env \<Rightarrow> address \<Rightarrow> u64 \<Rightarrow> ExplorerLayout \<Rightarrow> symbol \<Rightarrow> i128 \<Rightarrow> 'a dex_store_scheme
    \<Rightarrow> (HarvestError, HarvestResult \<times> DexOffer) outcome \<times> 'a dex_store_scheme" where
  "harvest_and_list_unguarded env player ship_id layout resource min_price s =
    (if \<not> auth env player then (Panic, s)
     else if min_price \<le> 0 then (Err HarvestError.InvalidPrice, s)
     else and_then (ensure_listing_slot player s) (\<lambda>_ s.
     and_then (harvest_resources_unguarded env ship_id layout s) (\<lambda>harvest_result s.
     case listed_total resource (hv_resources harvest_result) 0 of
       None \<Rightarrow> (Err HarvestError.PriceOverflow, s)
     | Some listed_amount \<Rightarrow>
     if listed_amount = 0 then (Err HarvestError.AssetNotHarvested, s)
     else and_then (escrow_and_list player resource listed_amount min_price s) (\<lambda>offer s. (Ok (harvest_result, offer), s)))))"

definition harvest_and_list :: "env \<Rightarrow> address \<Rightarrow> u64 \<Rightarrow> ExplorerLayout \<Rightarrow> symbol \<Rightarrow> i128 \<Rightarrow> 'a dex_store_scheme
    \<Rightarrow> (HarvestError, HarvestResult \<times> DexOffer) outcome \<times> 'a dex_store_scheme" where
  "harvest_and_list env player ship_id layout resource min_price =
     with_guard harvest_from_reentrancy (harvest_and_list_unguarded env player ship_id layout resource min_price)"

definition list_resource :: "env \<Rightarrow> address \<Rightarrow> symbol \<Rightarrow> u32 \<Rightarrow> i128 \<Rightarrow> 'a dex_store_scheme
    \<Rightarrow> (HarvestError, DexOffer) outcome \<times> 'a dex_store_scheme" where
  "list_resource env seller resource amount min_price = with_guard harvest_from_reentrancy (\<lambda>s.
     if \<not> auth env seller then (Panic, s)
     else if min_price \<le> 0 then (Err HarvestError.InvalidPrice, s)
     else if amount = 0 then (Err HarvestError.InvalidAmount, s)
     else and_then (ensure_listing_slot seller s) (\<lambda>_ s. escrow_and_list seller resource amount min_price s))"

definition record_fill :: "env \<Rightarrow> u64 \<Rightarrow> DexFill \<Rightarrow> 'a dex_store_scheme \<Rightarrow> 'a dex_store_scheme" where
  "record_fill env i fill s =
     publish [SS ''dex'', SS ''filled''] [SU i, SA (df_buyer fill), SA (df_seller fill), SU (df_amount fill), SI (df_price fill), SI (df_total_cost fill)]
       (push_trade_record \<lparr>tr_order_id = i, tr_trader = df_buyer fill, tr_side = Buy, tr_resource = df_asset_id fill,
          tr_quantity = int (df_amount fill), tr_price = df_price fill, tr_executed_at = timestamp env\<rparr> s)"

definition buy_offer :: "env \<Rightarrow> address \<Rightarrow> u64 \<Rightarrow> u32 \<Rightarrow> i128 \<Rightarrow> 'a dex_store_scheme
    \<Rightarrow> (HarvestError, DexFill) outcome \<times> 'a dex_store_scheme" where
  "buy_offer env buyer offer_id amount max_price = with_guard harvest_from_reentrancy (\<lambda>s.
     if \<not> auth env buyer then (Panic, s)
     else case get_dex_offer offer_id s of
       None \<Rightarrow> (Err HarvestError.DexFailure, s)
     | Some offer \<Rightarrow>
     if \<not> do_active offer then (Err HarvestError.DexFailure, s)
     else if do_seller offer = buyer then (Err HarvestError.SelfTrade, s)
     else if amount = 0 \<or> amount > do_amount offer then (Err HarvestError.InvalidAmount, s)
     else if do_min_price offer > max_price then (Err HarvestError.SlippageExceeded, s)
     else case ck (do_min_price offer * int amount) of
       None \<Rightarrow> (Err HarvestError.PriceOverflow, s)
     | Some total_cost \<Rightarrow>
     and_then (credit_resource_balance buyer (do_asset_id offer) amount s) (\<lambda>_ s.
     let offer = offer\<lparr>do_amount := do_amount offer - amount\<rparr>;
         (offer, s) = (if do_amount offer = 0 then (offer\<lparr>do_active := False\<rparr>, release_listing_slot (do_seller offer) s) else (offer, s));
         s = s\<lparr>dex_offers := (dex_offers s)(offer_id \<mapsto> offer)\<rparr>;
         fill = \<lparr>df_id = offer_id, df_buyer = buyer, df_seller = do_seller offer, df_asset_id = do_asset_id offer, df_amount = amount,
           df_price = do_min_price offer, df_total_cost = total_cost, df_remaining = int (do_amount offer)\<rparr>
     in (Ok fill, record_fill env offer_id fill s)))"

definition order_error :: "TradingError \<Rightarrow> HarvestError" where
  "order_error err = (case err of TradingError.InvalidQuantity \<Rightarrow> HarvestError.InvalidAmount | _ \<Rightarrow> HarvestError.OrderUnavailable)"

definition sell_to_order :: "env \<Rightarrow> address \<Rightarrow> u64 \<Rightarrow> symbol \<Rightarrow> u32 \<Rightarrow> i128 \<Rightarrow> 'a dex_store_scheme
    \<Rightarrow> (HarvestError, DexFill) outcome \<times> 'a dex_store_scheme" where
  "sell_to_order env seller order_id resource amount min_price = with_guard harvest_from_reentrancy (\<lambda>s.
     if \<not> auth env seller then (Panic, s)
     else case get_limit_order order_id s of
       None \<Rightarrow> (Err HarvestError.OrderUnavailable, s)
     | Some order \<Rightarrow>
     if \<not> (lo_side order = Buy \<and> lo_resource order = resource) then (Err HarvestError.OrderUnavailable, s)
     else if lo_trader order = seller then (Err HarvestError.SelfTrade, s)
     else if amount = 0 \<or> int amount > lo_quantity order then (Err HarvestError.InvalidAmount, s)
     else if lo_limit_price order < min_price then (Err HarvestError.SlippageExceeded, s)
     else case ck (lo_limit_price order * int amount) of
       None \<Rightarrow> (Err HarvestError.PriceOverflow, s)
     | Some total_cost \<Rightarrow>
     let balance = resource_balance seller resource s in
     if balance < amount then (Err HarvestError.InsufficientBalance, s)
     else let s = s\<lparr>resource_bal := (resource_bal s)((seller, resource) \<mapsto> balance - amount)\<rparr> in
     and_then (credit_resource_balance (lo_trader order) resource amount s) (\<lambda>_ s.
     and_then (map_err order_error (fill_limit_order order_id (int amount) s)) (\<lambda>_ s.
     let fill = \<lparr>df_id = order_id, df_buyer = lo_trader order, df_seller = seller, df_asset_id = resource, df_amount = amount,
           df_price = lo_limit_price order, df_total_cost = total_cost, df_remaining = lo_quantity order - int amount\<rparr>
     in (Ok fill, record_fill env order_id fill s))))"

text \<open>The scan of \<open>get_open_offers\<close>, by the number of identifiers it may still examine.\<close>

fun scan_offers :: "nat \<Rightarrow> symbol option \<Rightarrow> u64 \<Rightarrow> u64 \<Rightarrow> u32 \<Rightarrow> DexOffer list \<Rightarrow> 'a dex_store_scheme \<Rightarrow> DexOffer list \<times> u64" where
  "scan_offers 0 resource i last_id limit offers s = (offers, i)"
| "scan_offers (Suc left) resource i last_id limit offers s =
    (if i < last_id \<and> length offers < limit then
       let i = i + 1;
           offers = (case get_dex_offer i s of
               Some offer \<Rightarrow> if do_active offer \<and> (case resource of None \<Rightarrow> True | Some r \<Rightarrow> r = do_asset_id offer) then offers @ [offer] else offers
             | None \<Rightarrow> offers)
       in scan_offers left resource i last_id limit offers s
     else (offers, i))"

definition get_open_offers :: "symbol option \<Rightarrow> u64 \<Rightarrow> u32 \<Rightarrow> 'a dex_store_scheme \<Rightarrow> OfferPage" where
  "get_open_offers resource start_after limit s =
    (let limit = min limit MAX_OFFER_PAGE;
         last_id = dex_offer_count s;
         (offers, i) = scan_offers MAX_OFFER_SCAN resource start_after last_id limit [] s
     in \<lparr>op_offers = offers, op_next_cursor = (if i < last_id then Some i else None)\<rparr>)"

definition cancel_listing_unguarded :: "env \<Rightarrow> address \<Rightarrow> u64 \<Rightarrow> 'a dex_store_scheme
    \<Rightarrow> (HarvestError, DexOffer) outcome \<times> 'a dex_store_scheme" where
  "cancel_listing_unguarded env own offer_id s =
    (if \<not> auth env own then (Panic, s)
     else case get_dex_offer offer_id s of
       None \<Rightarrow> (Err HarvestError.DexFailure, s)
     | Some offer \<Rightarrow>
     if \<not> do_active offer \<or> do_seller offer \<noteq> own then (Err HarvestError.DexFailure, s)
     else let offer = offer\<lparr>do_active := False\<rparr>;
              s = s\<lparr>dex_offers := (dex_offers s)(offer_id \<mapsto> offer)\<rparr>;
              s = release_listing_slot own s in
     case checked_add u32_max (resource_balance own (do_asset_id offer) s) (do_amount offer) of
       None \<Rightarrow> (Err HarvestError.PriceOverflow, s)
     | Some refunded \<Rightarrow>
     let s = s\<lparr>resource_bal := (resource_bal s)((own, do_asset_id offer) \<mapsto> refunded)\<rparr>
     in (Ok offer, publish [SS ''dex'', SS ''canceld''] [SU offer_id, SA own] s))"

definition cancel_listing :: "env \<Rightarrow> address \<Rightarrow> u64 \<Rightarrow> 'a dex_store_scheme \<Rightarrow> (HarvestError, DexOffer) outcome \<times> 'a dex_store_scheme" where
  "cancel_listing env own offer_id = with_guard harvest_from_reentrancy (cancel_listing_unguarded env own offer_id)"

definition get_offer :: "u64 \<Rightarrow> 'a dex_store_scheme \<Rightarrow> DexOffer option" where
  "get_offer offer_id s = get_dex_offer offer_id s"

section \<open>What is held of an asset\<close>

definition wallet :: "symbol \<Rightarrow> ((address \<times> symbol) \<rightharpoonup> u32) \<Rightarrow> address \<rightharpoonup> u32" where
  "wallet x m = (\<lambda>a. m (a, x))"

definition escrow :: "symbol \<Rightarrow> (u64 \<rightharpoonup> DexOffer) \<Rightarrow> u64 \<rightharpoonup> u32" where
  "escrow x m = (\<lambda>i. case m i of Some f \<Rightarrow> if do_active f \<and> do_asset_id f = x then Some (do_amount f) else None | None \<Rightarrow> None)"

text \<open>All units of asset \<open>x\<close>: in wallets and in the escrow of active offers.\<close>

definition held :: "symbol \<Rightarrow> 'a dex_store_scheme \<Rightarrow> nat" where
  "held x s = msum (wallet x (resource_bal s)) + msum (escrow x (dex_offers s))"

definition dex_inv :: "'a dex_store_scheme \<Rightarrow> bool" where
  "dex_inv s \<longleftrightarrow> finite (dom (resource_bal s)) \<and>
     tbl_ok (\<lambda>i f. do_offer_id f = i \<and> (do_active f \<longrightarrow> 0 < do_amount f)) (dex_offer_count s) (dex_offers s)"

text \<open>Units of \<open>x\<close> in a harvest.\<close>

definition yield_of :: "HarvestedResource list \<Rightarrow> symbol \<Rightarrow> nat" where
  "yield_of rs x = (\<Sum>r\<leftarrow>rs. if hr_asset_id r = x then hr_amount r else 0)"

text \<open>One committed call, labelled with the environment and with what it harvested.\<close>

inductive dex_step :: "env \<times> (symbol \<Rightarrow> nat) \<Rightarrow> 'a dex_store_scheme \<Rightarrow> 'a dex_store_scheme \<Rightarrow> bool" where
  harvest: "harvest_resources env i l s = (Ok r, s') \<Longrightarrow> dex_step (env, yield_of (hv_resources r)) s s'"
| harvest_list: "harvest_and_list env p i l x m s = (Ok (r, f), s') \<Longrightarrow> dex_step (env, yield_of (hv_resources r)) s s'"
| auto_list: "auto_list_on_dex env p x m s = (Ok f, s') \<Longrightarrow> dex_step (env, \<lambda>_. 0) s s'"
| list: "list_resource env p x n m s = (Ok f, s') \<Longrightarrow> dex_step (env, \<lambda>_. 0) s s'"
| buy: "buy_offer env p i n m s = (Ok d, s') \<Longrightarrow> dex_step (env, \<lambda>_. 0) s s'"
| sell: "sell_to_order env p i x n m s = (Ok d, s') \<Longrightarrow> dex_step (env, \<lambda>_. 0) s s'"
| cancel: "cancel_listing env p i s = (Ok f, s') \<Longrightarrow> dex_step (env, \<lambda>_. 0) s s'"

section \<open>Lemmas\<close>

lemma publish_dex_store [simp]:
  "dex_offer_counter (publish t d s) = dex_offer_counter s" "dex_offers (publish t d s) = dex_offers s"
  "session_listings (publish t d s) = session_listings s"
  by (simp_all add: publish_def)

lemma wallet_upd: "wallet x (m((a, y) \<mapsto> v)) = (if x = y then (wallet x m)(a \<mapsto> v) else wallet x m)"
  by (auto simp: wallet_def)

lemma wallet_finite: "finite (dom m) \<Longrightarrow> finite (dom (wallet x m))"
  by (rule finite_subset[of _ "fst ` dom m"]) (force simp: wallet_def dom_def image_iff)+

lemma escrow_upd: "escrow x (m(i \<mapsto> f)) = (escrow x m)(i := (if do_active f \<and> do_asset_id f = x then Some (do_amount f) else None))"
  by (auto simp: escrow_def)

lemma escrow_finite: "finite (dom m) \<Longrightarrow> finite (dom (escrow x m))"
  by (rule finite_subset[of _ "dom m"]) (auto simp: escrow_def split: option.splits if_splits)

lemma dex_inv_finite: "dex_inv s \<Longrightarrow> finite (dom (dex_offers s))"
  by (rule finite_subset[of _ "{..dex_offer_count s}"]) (auto simp: dex_inv_def tbl_ok_def)

text \<open>Setting one balance.\<close>

lemma wallet_sum_upd:
  assumes "finite (dom m)"
  shows "msum (wallet x (m((a, y) \<mapsto> v))) + (if x = y then unwrap_or (m (a, y)) 0 else 0) = msum (wallet x m) + (if x = y then v else 0)"
  using msum_upd[OF wallet_finite[OF assms, of x], of a v] by (auto simp: wallet_upd) (simp add: wallet_def)

lemma escrow_sum_upd:
  assumes "finite (dom m)"
  shows "msum (escrow x (m(i \<mapsto> f))) + unwrap_or (escrow x m i) 0 = msum (escrow x m) + (if do_active f \<and> do_asset_id f = x then do_amount f else 0)"
  using msum_upd[OF escrow_finite[OF assms, of x], of i "do_amount f"] msum_delete[OF escrow_finite[OF assms, of x], of i]
  by (simp add: escrow_upd)

text \<open>Updates of the storage that touch neither table.\<close>

definition tables :: "'a dex_store_scheme \<Rightarrow> ((address \<times> symbol) \<rightharpoonup> u32) \<times> (u64 \<rightharpoonup> DexOffer) \<times> u64" where
  "tables s = (resource_bal s, dex_offers s, dex_offer_count s)"

lemma tables_same: "tables s' = tables s \<Longrightarrow> (dex_inv s' \<longleftrightarrow> dex_inv s) \<and> held x s' = held x s"
  by (simp add: tables_def dex_inv_def held_def)

lemma tables_publish [simp]: "tables (publish t d s) = tables s"
  by (simp add: tables_def dex_offer_count_def publish_def)

lemma tables_lock [simp]: "tables (s\<lparr>guard_lock := g\<rparr>) = tables s"
  by (simp add: tables_def dex_offer_count_def)

lemma tables_slots [simp]: "tables (note_listing_opened a s) = tables s" "tables (release_listing_slot a s) = tables s"
  by (simp_all add: tables_def dex_offer_count_def note_listing_opened_def release_listing_slot_def)

lemma tables_record [simp]: "tables (record_fill env i f s) = tables s"
  by (simp add: record_fill_def) (simp add: tables_def dex_offer_count_def push_trade_record_def Let_def)

lemma tables_fill: "fill_limit_order i q s = (Ok x, s') \<Longrightarrow> tables s' = tables s"
  by (simp add: fill_Ok remove_order_def tables_def dex_offer_count_def Let_def)

text \<open>\<open>grows x k s s'\<close>: the call keeps the invariant and adds \<open>k\<close> units of \<open>x\<close>.\<close>

definition grows :: "symbol \<Rightarrow> nat \<Rightarrow> 'a dex_store_scheme \<Rightarrow> 'a dex_store_scheme \<Rightarrow> bool" where
  "grows x k s s' \<longleftrightarrow> (dex_inv s \<longrightarrow> dex_inv s' \<and> held x s' = held x s + k)"

lemma grows_same: "tables s' = tables s \<Longrightarrow> grows x 0 s s'"
  using tables_same[of s' s x] by (simp add: grows_def)

lemma grows_trans: "grows x k s t \<Longrightarrow> grows x l t u \<Longrightarrow> grows x (k + l) s u"
  by (simp add: grows_def)

lemma grows_cong: "tables s = tables t \<Longrightarrow> tables s' = tables t' \<Longrightarrow> grows x k t t' \<Longrightarrow> grows x k s s'"
  using tables_same[of s t x] tables_same[of s' t' x] by (simp add: grows_def)

lemma grows_guard:
  assumes "with_guard h body s = (Ok r, s')" and "\<And>t t'. body t = (Ok r, t') \<Longrightarrow> grows x k t t'"
  shows "grows x k s s'"
proof -
  obtain t where t: "body (s\<lparr>guard_lock := Some True\<rparr>) = (Ok r, t)" "s' = t\<lparr>guard_lock := Some False\<rparr>"
    using assms(1) unfolding with_guard_Ok by blast
  show ?thesis by (rule grows_cong[OF _ _ assms(2)[OF t(1)]]) (simp_all add: t(2))
qed

lemma set_balance:
  assumes "dex_inv s" and s': "tables s' = ((resource_bal s)((a, y) \<mapsto> v), dex_offers s, dex_offer_count s)"
  shows "dex_inv s' \<and> held x s' + (if x = y then resource_balance a y s else 0) = held x s + (if x = y then v else 0)"
proof -
  have eq: "resource_bal s' = (resource_bal s)((a, y) \<mapsto> v)" "dex_offers s' = dex_offers s" "dex_offer_count s' = dex_offer_count s"
    using s' by (simp_all add: tables_def)
  show ?thesis using wallet_sum_upd[of "resource_bal s" x a y v] assms(1)
    by (cases "x = y") (simp_all add: dex_inv_def held_def eq resource_balance_def)
qed

definition escrowed :: "symbol \<Rightarrow> DexOffer \<Rightarrow> nat" where
  "escrowed x f = (if do_active f \<and> do_asset_id f = x then do_amount f else 0)"

lemma set_offer:
  assumes inv: "dex_inv s" and s': "tables s' = (resource_bal s, (dex_offers s)(i \<mapsto> f'), dex_offer_count s)"
    and f: "dex_offers s i = Some f" "do_offer_id f' = i" "do_active f' \<Longrightarrow> 0 < do_amount f'"
  shows "dex_inv s' \<and> held x s' + escrowed x f = held x s + escrowed x f'"
proof -
  have eq: "resource_bal s' = resource_bal s" "dex_offers s' = (dex_offers s)(i \<mapsto> f')" "dex_offer_count s' = dex_offer_count s"
    using s' by (simp_all add: tables_def)
  have "unwrap_or (escrow x (dex_offers s) i) 0 = escrowed x f" using f(1) by (simp add: escrow_def escrowed_def)
  then show ?thesis using escrow_sum_upd[OF dex_inv_finite[OF inv], of x i f'] inv f
    by (auto simp: dex_inv_def held_def eq escrowed_def intro: tbl_ok_upd)
qed

lemma new_offer:
  assumes inv: "dex_inv s" and s': "tables s' = (resource_bal s, (dex_offers s)(Suc (dex_offer_count s) \<mapsto> f), Suc (dex_offer_count s))"
    and f: "do_offer_id f = Suc (dex_offer_count s)" "0 < do_amount f"
  shows "dex_inv s' \<and> held x s' = held x s + escrowed x f"
proof -
  have tbl: "tbl_ok (\<lambda>i f. do_offer_id f = i \<and> (do_active f \<longrightarrow> 0 < do_amount f)) (dex_offer_count s) (dex_offers s)"
    using inv by (simp add: dex_inv_def)
  have eq: "resource_bal s' = resource_bal s" "dex_offers s' = (dex_offers s)(Suc (dex_offer_count s) \<mapsto> f)"
      "dex_offer_count s' = Suc (dex_offer_count s)" using s' by (simp_all add: tables_def)
  have "escrow x (dex_offers s) (Suc (dex_offer_count s)) = None" using tbl_ok_fresh[OF tbl] by (simp add: escrow_def)
  then show ?thesis using escrow_sum_upd[OF dex_inv_finite[OF inv], of x "Suc (dex_offer_count s)" f] inv f tbl_ok_new[OF tbl, of f]
    by (simp add: dex_inv_def held_def eq escrowed_def)
qed

lemma open_offer_Ok:
  assumes "open_offer a x n m s = (Ok f, s')"
  shows "f = \<lparr>do_offer_id = Suc (dex_offer_count s), do_seller = a, do_asset_id = x, do_amount = n, do_min_price = m, do_active = True\<rparr>
    \<and> tables s' = (resource_bal s, (dex_offers s)(Suc (dex_offer_count s) \<mapsto> f), Suc (dex_offer_count s))"
  using assms by (cases "next_dex_offer_id s")
    (simp_all add: open_offer_def next_dex_offer_id_def ok_rules Let_def, auto simp: tables_def dex_offer_count_def note_listing_opened_def)

text \<open>A listing moves units from a wallet into escrow.\<close>

lemma listing_grows:
  assumes ok: "open_offer a x n m (s\<lparr>resource_bal := (resource_bal s)((a, x) \<mapsto> resource_balance a x s - n)\<rparr>) = (Ok f, s')"
    and n: "0 < n" "n \<le> resource_balance a x s"
  shows "grows y 0 s s'"
proof -
  let ?t = "s\<lparr>resource_bal := (resource_bal s)((a, x) \<mapsto> resource_balance a x s - n)\<rparr>"
  note o = open_offer_Ok[OF ok]
  have "tables ?t = ((resource_bal s)((a, x) \<mapsto> resource_balance a x s - n), dex_offers s, dex_offer_count s)"
    by (simp add: tables_def dex_offer_count_def)
  then have "dex_inv ?t \<and> held y ?t + (if y = x then n else 0) = held y s" if "dex_inv s"
    using set_balance[OF that, of ?t a x "resource_balance a x s - n" y] n by (cases "y = x") auto
  then show ?thesis using new_offer[of ?t s' f y] o n by (auto simp: grows_def escrowed_def)
qed

lemma auto_list_grows: "auto_list_on_dex_unguarded env p x m s = (Ok f, s') \<Longrightarrow> grows y 0 s s'"
  by (rule listing_grows[of p x "resource_balance p x s" m s f])
    (simp_all add: auto_list_on_dex_unguarded_def ok_rules Let_def split del: if_split)

lemma escrow_list_grows: "escrow_and_list a x n m s = (Ok f, s') \<Longrightarrow> 0 < n \<Longrightarrow> grows y 0 s s'"
  by (rule listing_grows[of a x n m s f]) (simp_all add: escrow_and_list_def ok_rules Let_def not_less split del: if_split)

lemma slot_Ok [ok_rules]: "ensure_listing_slot a s = (Ok u, s') \<longleftrightarrow> open_listings a s < MAX_LISTINGS_PER_SESSION \<and> s' = s"
  by (auto simp: ensure_listing_slot_def)

lemma credit_resource_Ok: "credit_resource_balance a y n s = (Ok b, s') \<longleftrightarrow> b = resource_balance a y s + n \<and> b \<le> u32_max \<and>
    s' = s\<lparr>resource_bal := (resource_bal s)((a, y) \<mapsto> b)\<rparr>"
  by (auto simp: credit_resource_balance_def ok_rules)

lemma credit_grows: "credit_resource_balance a y n s = (Ok b, s') \<Longrightarrow> grows x (if y = x then n else 0) s s'"
  using set_balance[of s s' a y "resource_balance a y s + n" x]
  by (cases "x = y") (simp_all add: credit_resource_Ok grows_def tables_def dex_offer_count_def)

lemma yield_of_append [simp]: "yield_of (rs @ qs) x = yield_of rs x + yield_of qs x"
  by (simp add: yield_of_def)

text \<open>Pass 2 of a harvest credits exactly the entries it reports.\<close>

lemma credit_yield_grows:
  "credit_yield a raw e r rs n s = (Ok (rs', n'), s') \<Longrightarrow> \<exists>k. yield_of rs' x = yield_of rs x + k \<and> grows x k s s'"
proof (induction a raw e r rs n s rule: credit_yield.induct)
  case (1 a e r rs n s)
  then show ?case using grows_same[of s' s x] by auto
next
  case (2 a entry raw e r rs n s)
  let ?scaled = "hr_amount entry * e div r"
  let ?amount = "if ?scaled \<le> u32_max then ?scaled else u32_max"
  have mul: "checked_mul u64_max (hr_amount entry) e = Some (hr_amount entry * e)"
    using 2(3) by (cases "checked_mul u64_max (hr_amount entry) e") simp_all
  show ?case
  proof (cases "?amount = 0")
    case True
    then show ?thesis using 2(1)[OF mul refl refl] 2(3) mul by simp
  next
    case False
    then have "checked_add u32_max n ?amount = Some (n + ?amount)"
      using 2(3) mul by (cases "checked_add u32_max n ?amount") (simp_all add: Let_def)
    then obtain b t where c: "credit_resource_balance a (hr_asset_id entry) ?amount s = (Ok b, t)"
        and r: "credit_yield a raw e r (rs @ [\<lparr>hr_asset_id = hr_asset_id entry, hr_amount = ?amount\<rparr>]) (n + ?amount) t = (Ok (rs', n'), s')"
      using 2(3) mul False by (simp add: Let_def ok_rules split del: if_split) blast
    obtain k where k: "yield_of rs' x = yield_of (rs @ [\<lparr>hr_asset_id = hr_asset_id entry, hr_amount = ?amount\<rparr>]) x + k" "grows x k t s'"
      using 2(2)[OF mul refl refl False _ r] \<open>checked_add u32_max n ?amount = Some (n + ?amount)\<close> by blast
    show ?thesis using grows_trans[OF credit_grows[OF c, of x] k(2)] k(1) by (auto simp: yield_of_def)
  qed
qed

lemma tables_gathering: "apply_gathering env u n s = (Ok r, s') \<Longrightarrow> tables s' = tables s"
  by (auto simp: apply_gathering_def ok_rules record_gathering_with_def add_activity_with_def update_impact_def Let_def tables_def
      dex_offer_count_def split: if_splits)

lemma harvest_grows:
  assumes "harvest_resources_unguarded env i l s = (Ok r, s')"
  shows "grows x (yield_of (hv_resources r) x) s s'"
proof -
  obtain ship where ship: "get_ship i s = Ok ship" using assms by (cases "get_ship i s") (simp_all add: harvest_resources_unguarded_def)
  obtain raw n where raw: "raw_yield (el_cells l) [] 0 = Some (raw, n)"
    using assms ship by (cases "raw_yield (el_cells l) [] 0") (auto simp: harvest_resources_unguarded_def)
  obtain e t rs m u where g: "apply_gathering env (sh_owner ship) n s = (Ok e, t)"
      and c: "credit_yield (sh_owner ship) raw e n [] 0 t = (Ok (rs, m), u)"
      and r: "hv_resources r = rs" "s' = publish [SS ''harvest'', SS ''done''] [SU i, SU m] u"
    using assms ship raw by (auto simp: harvest_resources_unguarded_def ok_rules split del: if_split)
  obtain k where k: "yield_of rs x = k" "grows x k t u" using credit_yield_grows[OF c, of x] by (auto simp: yield_of_def)
  have "grows x k s u" using grows_trans[OF grows_same[OF tables_gathering[OF g]] k(2)] by simp
  then show ?thesis using k(1) r grows_cong[of s s s' u x k] by simp
qed

lemma harvest_list_grows:
  assumes "harvest_and_list_unguarded env p i l y m s = (Ok (r, f), s')"
  shows "grows x (yield_of (hv_resources r) x) s s'"
proof -
  obtain t n where h: "harvest_resources_unguarded env i l s = (Ok r, t)" and e: "escrow_and_list p y n m t = (Ok f, s')" "0 < n"
    using assms by (auto simp: harvest_and_list_unguarded_def ok_rules split del: if_split)
  show ?thesis using grows_trans[OF harvest_grows[OF h] escrow_list_grows[OF e]] by simp
qed

text \<open>A purchase moves units from escrow into a wallet, a cancellation all that is left.\<close>

lemma escrow_to_wallet:
  assumes s': "tables s' = ((resource_bal s)((a, do_asset_id f) \<mapsto> resource_balance a (do_asset_id f) s + n), (dex_offers s)(i \<mapsto> f'), dex_offer_count s)"
    and f: "dex_offers s i = Some f" "do_active f" "do_offer_id f' = do_offer_id f" "do_active f' \<Longrightarrow> 0 < do_amount f'"
    and n: "do_asset_id f' = do_asset_id f" "do_amount f = (if do_active f' then do_amount f' else 0) + n"
  shows "grows x 0 s s'"
proof -
  let ?t = "s\<lparr>resource_bal := (resource_bal s)((a, do_asset_id f) \<mapsto> resource_balance a (do_asset_id f) s + n)\<rparr>"
  have t: "tables ?t = ((resource_bal s)((a, do_asset_id f) \<mapsto> resource_balance a (do_asset_id f) s + n), dex_offers s, dex_offer_count s)"
    and s'': "tables s' = (resource_bal ?t, (dex_offers ?t)(i \<mapsto> f'), dex_offer_count ?t)"
    using s' by (simp_all add: tables_def dex_offer_count_def)
  have "dex_inv s' \<and> held x s' = held x s" if inv: "dex_inv s"
  proof -
    have i: "do_offer_id f = i" using inv f(1) by (auto simp: dex_inv_def dest: tbl_ok_get)
    note b = set_balance[OF inv t, of x]
    then have o: "dex_inv s' \<and> held x s' + escrowed x f = held x ?t + escrowed x f'"
      using set_offer[OF _ s'', of f x] f i by simp
    show ?thesis using b o n f by (cases "x = do_asset_id f") (auto simp: escrowed_def split: if_splits)
  qed
  then show ?thesis by (simp add: grows_def)
qed

lemma cancel_grows:
  assumes "cancel_listing_unguarded env p i s = (Ok g, s')"
  shows "grows x 0 s s'"
proof -
  obtain f where f: "dex_offers s i = Some f" "do_active f" "do_seller f = p"
    and s': "tables s' = ((resource_bal s)((p, do_asset_id f) \<mapsto> resource_balance p (do_asset_id f) s + do_amount f),
       (dex_offers s)(i \<mapsto> f\<lparr>do_active := False\<rparr>), dex_offer_count s)"
    using assms by (auto simp: cancel_listing_unguarded_def get_dex_offer_def ok_rules Let_def split del: if_split)
      (simp add: tables_def dex_offer_count_def release_listing_slot_def resource_balance_def)
  show ?thesis by (rule escrow_to_wallet[OF s' f(1,2)]) simp_all
qed

text \<open>What a purchase does, once its guards have passed.\<close>

lemma buy_Ok:
  assumes "buy_offer env b i n m s = (Ok d, s')"
  shows "\<exists>f. dex_offers s i = Some f \<and> do_active f \<and> do_seller f \<noteq> b \<and> 0 < n \<and> n \<le> do_amount f \<and> do_min_price f \<le> m \<and>
    d = \<lparr>df_id = i, df_buyer = b, df_seller = do_seller f, df_asset_id = do_asset_id f, df_amount = n, df_price = do_min_price f,
         df_total_cost = do_min_price f * int n, df_remaining = int (do_amount f - n)\<rparr> \<and>
    tables s' = ((resource_bal s)((b, do_asset_id f) \<mapsto> resource_balance b (do_asset_id f) s + n),
      (dex_offers s)(i \<mapsto> f\<lparr>do_amount := do_amount f - n, do_active := n < do_amount f\<rparr>), dex_offer_count s)"
proof -
  let ?s = "s\<lparr>guard_lock := Some True\<rparr>"
  from assms obtain f c t where f: "dex_offers s i = Some f" "do_active f" "do_seller f \<noteq> b" "0 < n" "n \<le> do_amount f" "do_min_price f \<le> m"
      and c: "credit_resource_balance b (do_asset_id f) n ?s = (Ok c, t)"
      and d: "d = \<lparr>df_id = i, df_buyer = b, df_seller = do_seller f, df_asset_id = do_asset_id f, df_amount = n, df_price = do_min_price f,
         df_total_cost = do_min_price f * int n, df_remaining = int (do_amount f - n)\<rparr>"
      and s': "tables s' = tables ((if do_amount f = n then release_listing_slot (do_seller f) t else t)
         \<lparr>dex_offers := (dex_offers t)(i \<mapsto> f\<lparr>do_amount := do_amount f - n, do_active := n < do_amount f\<rparr>)\<rparr>)"
    proof -
    note g = assms[unfolded buy_offer_def with_guard_Ok get_dex_offer_def]
    then obtain f where f: "dex_offers s i = Some f" by (cases "dex_offers s i") (auto simp: ok_rules split del: if_split)
    from g f obtain c t where "do_active f" "do_seller f \<noteq> b" "0 < n" "n \<le> do_amount f" "do_min_price f \<le> m"
        and "credit_resource_balance b (do_asset_id f) n ?s = (Ok c, t)"
        and "d = \<lparr>df_id = i, df_buyer = b, df_seller = do_seller f, df_asset_id = do_asset_id f, df_amount = n, df_price = do_min_price f,
          df_total_cost = do_min_price f * int n, df_remaining = int (do_amount f - n)\<rparr>"
        and "tables s' = tables ((if do_amount f = n then release_listing_slot (do_seller f) t else t)
         \<lparr>dex_offers := (dex_offers t)(i \<mapsto> f\<lparr>do_amount := do_amount f - n, do_active := n < do_amount f\<rparr>)\<rparr>)"
      by (cases f, cases "do_amount f = n") (auto simp: ok_rules Let_def not_less release_listing_slot_def)
    with f show ?thesis by (intro that)
  qed
  show ?thesis using f d s' c
    by (intro exI[of _ f]) (auto simp: credit_resource_Ok resource_balance_def tables_def dex_offer_count_def release_listing_slot_def)
qed

lemma buy_grows: "buy_offer env b i n m s = (Ok d, s') \<Longrightarrow> grows x 0 s s'"
  by (drule buy_Ok, elim exE conjE, rule escrow_to_wallet) (assumption | simp)+

lemma sell_Ok:
  assumes "sell_to_order env a i y n m s = (Ok d, s')"
  shows "\<exists>w. order_tbl s i = Some w \<and> lo_side w = Buy \<and> lo_resource w = y \<and> lo_trader w \<noteq> a \<and> 0 < n \<and> n \<le> resource_balance a y s \<and> m \<le> lo_limit_price w \<and>
    tables s' = ((resource_bal s)((a, y) \<mapsto> resource_balance a y s - n, (lo_trader w, y) \<mapsto> resource_balance (lo_trader w) y s + n), dex_offers s, dex_offer_count s)"
proof -
  note g = assms[unfolded sell_to_order_def with_guard_Ok get_limit_order_def]
  then obtain w where w: "order_tbl s i = Some w" by (cases "order_tbl s i") (auto simp: ok_rules split del: if_split)
  let ?t = "s\<lparr>guard_lock := Some True, resource_bal := (resource_bal s)((a, y) \<mapsto> resource_balance a y s - n)\<rparr>"
  from g w obtain c t z u where pre: "lo_side w = Buy" "lo_resource w = y" "lo_trader w \<noteq> a" "0 < n" "n \<le> resource_balance a y s" "m \<le> lo_limit_price w"
      and c: "credit_resource_balance (lo_trader w) y n ?t = (Ok c, t)" and u: "fill_limit_order i (int n) t = (Ok z, u)" and s': "tables s' = tables u"
    by (auto simp: ok_rules Let_def not_less resource_balance_def split del: if_split)
  show ?thesis using pre w s' tables_fill[OF u] c
    by (intro exI[of _ w]) (auto simp: credit_resource_Ok resource_balance_def tables_def dex_offer_count_def)
qed

lemma sell_grows:
  assumes "sell_to_order env a i y n m s = (Ok d, s')"
  shows "grows x 0 s s'"
proof -
  obtain w :: LimitOrder where n: "n \<le> resource_balance a y s" and ne: "lo_trader w \<noteq> a"
    and s': "tables s' = ((resource_bal s)((a, y) \<mapsto> resource_balance a y s - n, (lo_trader w, y) \<mapsto> resource_balance (lo_trader w) y s + n), dex_offers s, dex_offer_count s)"
    using sell_Ok[OF assms] by blast
  let ?t = "s\<lparr>resource_bal := (resource_bal s)((a, y) \<mapsto> resource_balance a y s - n)\<rparr>"
  have t: "tables ?t = ((resource_bal s)((a, y) \<mapsto> resource_balance a y s - n), dex_offers s, dex_offer_count s)"
    and s'': "tables s' = ((resource_bal ?t)((lo_trader w, y) \<mapsto> resource_balance (lo_trader w) y s + n), dex_offers ?t, dex_offer_count ?t)"
    using s' by (simp_all add: tables_def dex_offer_count_def)
  have same: "resource_balance (lo_trader w) y ?t = resource_balance (lo_trader w) y s" using ne by (simp add: resource_balance_def)
  show ?thesis using set_balance[OF _ t, of x] set_balance[OF _ s'', of x] same n
    by (cases "x = y") (auto simp: grows_def)
qed

lemmas dex_grows = grows_guard[OF _ harvest_grows] grows_guard[OF _ harvest_list_grows] grows_guard[OF _ auto_list_grows]
  grows_guard[OF _ cancel_grows]

lemma list_grows: "list_resource env p y n m s = (Ok f, s') \<Longrightarrow> grows x 0 s s'"
  unfolding list_resource_def
  by (erule grows_guard) (auto simp: ok_rules intro: escrow_list_grows split del: if_split)

lemma dex_step_grows: "dex_step (env, g) s s' \<Longrightarrow> grows x (g x) s s'"
  by (erule dex_step.cases)
    (auto simp: harvest_resources_def harvest_and_list_def auto_list_on_dex_def cancel_listing_def intro: dex_grows list_grows buy_grows sell_grows)

lemma dex_run_grows: "runs dex_step ls s t \<Longrightarrow> dex_inv s \<Longrightarrow> dex_inv t \<and> held x t = held x s + (\<Sum>l\<leftarrow>ls. snd l x)"
proof (induction rule: runs.induct)
  case (runs_snoc ls s t l u)
  then show ?case using dex_step_grows[of "fst l" "snd l" t u x] by (simp add: grows_def)
qed simp

interpretation dex: step_system "\<lambda>s s'. \<exists>l. dex_step l s s'" "dex_inv :: 'a dex_store_scheme \<Rightarrow> bool"
proof (unfold_locales, elim exE)
  fix s s' :: "'a dex_store_scheme" and l
  assume "dex_inv s" "dex_step l s s'"
  then show "dex_inv s'" using dex_step_grows[of "fst l" "snd l" s s' undefined] by (simp add: grows_def)
qed

interpretation dex_ids: id_counter dex_offer_count next_dex_offer_id
  by unfold_locales (auto simp: next_dex_offer_id_def dex_offer_count_def)

lemma cancel_enabled:
  assumes f: "dex_offers s i = Some f" "do_active f" "auth env (do_seller f)" "\<not> is_locked s"
    and room: "resource_balance (do_seller f) (do_asset_id f) s + do_amount f \<le> u32_max"
  shows "\<exists>u. cancel_listing env (do_seller f) i s = (Ok (f\<lparr>do_active := False\<rparr>), u)
    \<and> resource_balance (do_seller f) (do_asset_id f) u = resource_balance (do_seller f) (do_asset_id f) s + do_amount f"
  using assms by (simp add: cancel_listing_def with_guard_Ok cancel_listing_unguarded_def get_dex_offer_def Let_def
      resource_balance_def release_listing_slot_def checked_add_def)

text \<open>A player with 100 units of gas and nothing listed.\<close>

definition gas_wallet :: dex_store where
  "gas_wallet = burn_store.extend (holdings\<lparr>guard_lock := None, resource_bal := [(Addr 2, ''gas'') \<mapsto> 100]\<rparr>)
     \<lparr>dex_offer_counter = None, dex_offers = Map.empty, session_listings = Map.empty\<rparr>"

lemma gas_wallet_simps: "resource_bal gas_wallet = [(Addr 2, ''gas'') \<mapsto> 100]" "dex_offer_counter gas_wallet = None"
    "dex_offers gas_wallet = Map.empty" "session_listings gas_wallet = Map.empty" "guard_lock gas_wallet = None"
  by (simp_all add: gas_wallet_def burn_store.defs holdings_def minter_store.defs nebula_store.defs)

lemma gas_wallet_inv: "dex_inv gas_wallet"
  by (simp add: dex_inv_def gas_wallet_simps)

section \<open>Properties\<close>

text \<open>C18. Trading neither creates nor destroys assets. Over any run of harvests, listings, purchases, sales into limit
  orders and cancellations, the units of an asset in wallets and in the escrow of active offers grow by exactly what the
  harvests report; and the seller of an active offer can always cancel it and receives what the offer still holds, unless the
  wallet would exceed the range of a balance.\<close>

theorem dex_conservation:
  assumes run: "runs dex_step ls s t" and inv: "dex_inv s"
  shows "held x t = held x s + (\<Sum>l\<leftarrow>ls. snd l x)
    \<and> (\<forall>i f. get_dex_offer i t = Some f \<and> do_active f \<longrightarrow> 0 < do_amount f \<and> do_amount f \<le> held (do_asset_id f) t
        \<and> (\<forall>env. auth env (do_seller f) \<and> \<not> is_locked t \<and> resource_balance (do_seller f) (do_asset_id f) t + do_amount f \<le> u32_max
            \<longrightarrow> (\<exists>u. cancel_listing env (do_seller f) i t = (Ok (f\<lparr>do_active := False\<rparr>), u)
              \<and> resource_balance (do_seller f) (do_asset_id f) u = resource_balance (do_seller f) (do_asset_id f) t + do_amount f)))"
proof (intro conjI allI impI; (elim conjE)?)
  have t: "dex_inv t" using dex_run_grows[OF run inv] by blast
  show "held x t = held x s + (\<Sum>l\<leftarrow>ls. snd l x)" using dex_run_grows[OF run inv] by blast
  fix i f assume f: "get_dex_offer i t = Some f" "do_active f"
  then show "0 < do_amount f" using t by (auto simp: dex_inv_def get_dex_offer_def dest: tbl_ok_get)
  have "escrow (do_asset_id f) (dex_offers t) i = Some (do_amount f)" using f by (simp add: escrow_def get_dex_offer_def)
  then have "do_amount f \<le> msum (escrow (do_asset_id f) (dex_offers t))"
    using msum_ge[OF escrow_finite[OF dex_inv_finite[OF t]], of "do_asset_id f" i] by simp
  then show "do_amount f \<le> held (do_asset_id f) t" by (simp add: held_def)
  fix env :: env assume "auth env (do_seller f)" "\<not> is_locked t" "resource_balance (do_seller f) (do_asset_id f) t + do_amount f \<le> u32_max"
  then show "\<exists>u. cancel_listing env (do_seller f) i t = (Ok (f\<lparr>do_active := False\<rparr>), u)
      \<and> resource_balance (do_seller f) (do_asset_id f) u = resource_balance (do_seller f) (do_asset_id f) t + do_amount f"
    using cancel_enabled[of t i f env] f by (simp add: get_dex_offer_def)
qed

theorem dex_conservation_witness:
  "\<exists>f t. list_resource (signed_at 5 1) (Addr 2) ''gas'' 40 3 gas_wallet = (Ok f, t) \<and> do_amount f = 40 \<and> held ''gas'' t = 100"
proof -
  have "\<exists>f. fst (list_resource (signed_at 5 1) (Addr 2) ''gas'' 40 3 gas_wallet) = Ok f \<and> do_amount f = 40"
    by (simp add: list_resource_def with_guard_def acquire_def is_locked_def ensure_listing_slot_def open_listings_def escrow_and_list_def
        open_offer_def next_dex_offer_id_def resource_balance_def gas_wallet_simps checked_add_def Let_def)
  then obtain f t where ok: "list_resource (signed_at 5 1) (Addr 2) ''gas'' 40 3 gas_wallet = (Ok f, t)" "do_amount f = 40"
    by (metis prod.collapse)
  have "held ''gas'' gas_wallet = 100"
    using wallet_sum_upd[of Map.empty "''gas''" "Addr 2" "''gas''" 100]
    by (simp add: held_def gas_wallet_simps) (simp add: wallet_def escrow_def msum_def)
  moreover have run: "runs dex_step [(signed_at 5 1, \<lambda>_. 0)] gas_wallet t"
    by (rule runs_single) (rule dex_step.list[OF ok(1)])
  moreover have "held ''gas'' t = held ''gas'' gas_wallet + (\<Sum>l\<leftarrow>[(signed_at 5 1, \<lambda>_. 0)]. snd l ''gas'')"
    using dex_conservation[OF run gas_wallet_inv, of "''gas''"] by (elim conjE)
  ultimately show ?thesis using ok by (intro exI[of _ f] exI[of _ t]) simp
qed

end
