(* ===== verification/Alliance_Manager.thy ===== *)
theory Alliance_Manager
  imports Dex_Integration
begin

text \<open>
  \<open>src/alliance_manager.rs\<close> and \<open>src/guild_quests.rs\<close>, with the name check of \<open>src/input_validation.rs\<close>: alliances and
  their members, the shared treasury, levels, territories, bosses and cooperative quests. Membership is kept twice, as the
  member list of an alliance and as the alliance of a player; the invariant is that the two agree.
\<close>

section \<open>Model\<close>

datatype ValidationError = StringTooLong | EmptyString | InvalidUtf8 | InvalidCharacters | InvalidCidFormat | InvalidRegionId
  | InvalidSeed | ArithmeticOverflow | OutOfRange | NotPositive | InvalidPercentage | InvalidCharset | InjectionDetected
  | InvalidAddress | ZeroAddress | ArrayTooLarge | DuplicateElements

abbreviation MAX_NAME_LENGTH :: u32 where "MAX_NAME_LENGTH \<equiv> 64"
abbreviation MAX_DESCRIPTION_LENGTH :: u32 where "MAX_DESCRIPTION_LENGTH \<equiv> 512"

definition is_control_char :: "char \<Rightarrow> bool" where
  "is_control_char b \<longleftrightarrow> of_char b < (32::nat) \<or> of_char b = (127::nat)"

definition validate_string :: "bytes \<Rightarrow> u32 \<Rightarrow> bool \<Rightarrow> (ValidationError, unit) outcome" where
  "validate_string v max_length allow_empty =
    (if \<not> allow_empty \<and> length v = 0 then Err EmptyString
     else if length v > max_length then Err StringTooLong
     else if length v > MAX_DESCRIPTION_LENGTH then Err StringTooLong
     else if list_ex is_control_char v then Err InvalidCharacters
     else Ok ())"

definition validate_name :: "bytes \<Rightarrow> (ValidationError, unit) outcome" where
  "validate_name name = validate_string name MAX_NAME_LENGTH False"

record GuildLevelInfo =
  gl_level :: u32
  gl_xp :: u64

record GuildBossState =
  gb_boss_id :: u32
  gb_max_health :: u64
  gb_current_health :: u64
  gb_attack_power :: u32
  gb_active_until :: u64
  gb_defeated :: bool

datatype AllianceError = AllianceFull | AllianceNotFound | AlreadyInAlliance | NotMember | Unauthorized | InvalidName
  | InsufficientVotes | ContributionCapExceeded

record Alliance =
  al_id :: u64
  al_name :: bytes
  al_founder :: address
  al_created_at :: u64
  al_members :: "address list"
  al_voting_threshold :: u32
  al_is_active :: bool

record MembershipRecord =
  mr_alliance_id :: u64
  mr_member :: address
  mr_joined_at :: u64
  mr_contribution :: i128

record GuildQuest =
  gq_quest_id :: u64
  gq_alliance_id :: u64
  gq_quest_type :: symbol
  gq_target_count :: u64
  gq_current_progress :: u64
  gq_reward_essence :: i128
  gq_reward_xp :: u64
  gq_expires_at :: u64
  gq_completed :: bool

datatype GuildQuestError = QuestNotFound | QuestExpired | QuestAlreadyCompleted | NotAllianceMember | QuestUnauthorized

record alliance_store = dex_store +
  alliance_tbl :: "u64 \<rightharpoonup> Alliance"
  alliance_count :: "u64 option"
  member_alliance :: "address \<rightharpoonup> u64"
  alliance_treasury :: "u64 \<rightharpoonup> i128"
  member_contribution :: "(u64 \<times> address) \<rightharpoonup> i128"
  alliance_level :: "u64 \<rightharpoonup> GuildLevelInfo"
  territory_claim :: "u64 \<rightharpoonup> u64"
  guild_boss :: "u64 \<rightharpoonup> GuildBossState"
  guild_quest :: "(u64 \<times> u64) \<rightharpoonup> GuildQuest"
  quest_count :: "u64 \<rightharpoonup> u64"

abbreviation MAX_MEMBERS_PER_ALLIANCE :: u32 where "MAX_MEMBERS_PER_ALLIANCE \<equiv> 50"
abbreviation MIN_VOTING_THRESHOLD :: u32 where "MIN_VOTING_THRESHOLD \<equiv> 51"
abbreviation INITIAL_TREASURY :: i128 where "INITIAL_TREASURY \<equiv> 0"

definition found_alliance :: "env \<Rightarrow> address \<Rightarrow> bytes \<Rightarrow> 'a alliance_store_scheme \<Rightarrow> (AllianceError, u64) outcome \<times> 'a alliance_store_scheme" where
  "found_alliance env founder name s =
    (if \<not> auth env founder then (Panic, s)
     else if validate_name name \<noteq> Ok () then (Err AllianceError.InvalidName, s)
     else if member_alliance s founder \<noteq> None then (Err AlreadyInAlliance, s)
     else if length name = 0 then (Err AllianceError.InvalidName, s)
     else let alliance_id = unwrap_or (alliance_count s) 0;
              alliance = \<lparr>al_id = alliance_id, al_name = name, al_founder = founder, al_created_at = timestamp env, al_members = [founder],
                al_voting_threshold = MIN_VOTING_THRESHOLD, al_is_active = True\<rparr>;
              s = s\<lparr>alliance_tbl := (alliance_tbl s)(alliance_id \<mapsto> alliance)\<rparr> in
     case checked_add u64_max alliance_id 1 of
       None \<Rightarrow> (Panic, s)
     | Some nxt \<Rightarrow>
     let s = s\<lparr>alliance_count := Some nxt\<rparr>;
         s = s\<lparr>member_alliance := (member_alliance s)(founder \<mapsto> alliance_id)\<rparr>;
         s = s\<lparr>alliance_treasury := (alliance_treasury s)(alliance_id \<mapsto> INITIAL_TREASURY)\<rparr>;
         s = s\<lparr>member_contribution := (member_contribution s)((alliance_id, founder) \<mapsto> 0)\<rparr>
     in (Ok alliance_id, publish [SS ''alliance'', SS ''founded''] [SU alliance_id, SS name, SA founder] s))"

definition join_alliance :: "env \<Rightarrow> u64 \<Rightarrow> address \<Rightarrow> 'a alliance_store_scheme \<Rightarrow> (AllianceError, MembershipRecord) outcome \<times> 'a alliance_store_scheme" where
  "join_alliance env alliance_id player s =
    (if \<not> auth env player then (Panic, s)
     else if member_alliance s player \<noteq> None then (Err AlreadyInAlliance, s)
     else case alliance_tbl s alliance_id of
       None \<Rightarrow> (Err AllianceNotFound, s)
     | Some alliance \<Rightarrow>
     if length (al_members alliance) \<ge> MAX_MEMBERS_PER_ALLIANCE then (Err AllianceFull, s)
     else let alliance = alliance\<lparr>al_members := al_members alliance @ [player]\<rparr>;
              s = s\<lparr>alliance_tbl := (alliance_tbl s)(alliance_id \<mapsto> alliance)\<rparr>;
              s = s\<lparr>member_alliance := (member_alliance s)(player \<mapsto> alliance_id)\<rparr>;
              s = s\<lparr>member_contribution := (member_contribution s)((alliance_id, player) \<mapsto> 0)\<rparr>
          in (Ok \<lparr>mr_alliance_id = alliance_id, mr_member = player, mr_joined_at = timestamp env, mr_contribution = 0\<rparr>,
              publish [SS ''alliance'', SS ''joined''] [SU alliance_id, SA player] s))"

definition leave_alliance :: "env \<Rightarrow> address \<Rightarrow> 'a alliance_store_scheme \<Rightarrow> (AllianceError, unit) outcome \<times> 'a alliance_store_scheme" where
  "leave_alliance env player s =
    (if \<not> auth env player then (Panic, s)
     else case member_alliance s player of
       None \<Rightarrow> (Err NotMember, s)
     | Some alliance_id \<Rightarrow>
     case alliance_tbl s alliance_id of
       None \<Rightarrow> (Err AllianceNotFound, s)
     | Some alliance \<Rightarrow>
     let alliance = alliance\<lparr>al_members := filter (\<lambda>m. m \<noteq> player) (al_members alliance)\<rparr>;
         s = s\<lparr>alliance_tbl := (alliance_tbl s)(alliance_id \<mapsto> alliance)\<rparr>;
         s = s\<lparr>member_alliance := (member_alliance s)(player := None)\<rparr>
     in (Ok (), publish [SS ''alliance'', SS ''left''] [SU alliance_id, SA player] s))"

definition get_alliance_treasury :: "u64 \<Rightarrow> 'a alliance_store_scheme \<Rightarrow> i128" where
  "get_alliance_treasury alliance_id s = unwrap_or (alliance_treasury s alliance_id) INITIAL_TREASURY"

definition get_member_contribution :: "u64 \<Rightarrow> address \<Rightarrow> 'a alliance_store_scheme \<Rightarrow> i128" where
  "get_member_contribution alliance_id m s = unwrap_or (member_contribution s (alliance_id, m)) 0"

definition get_player_alliance :: "address \<Rightarrow> 'a alliance_store_scheme \<Rightarrow> u64 option" where
  "get_player_alliance player s = member_alliance s player"

definition get_alliance :: "u64 \<Rightarrow> 'a alliance_store_scheme \<Rightarrow> (AllianceError, Alliance) outcome" where
  "get_alliance alliance_id s = (case alliance_tbl s alliance_id of None \<Rightarrow> Err AllianceNotFound | Some alliance \<Rightarrow> Ok alliance)"

definition contribute_to_treasury :: "env \<Rightarrow> address \<Rightarrow> i128 \<Rightarrow> 'a alliance_store_scheme \<Rightarrow> (AllianceError, i128) outcome \<times> 'a alliance_store_scheme" where
  "contribute_to_treasury env player amount s =
    (if \<not> auth env player then (Panic, s)
     else if amount \<le> 0 then (Err AllianceError.Unauthorized, s)
     else and_then (map_err (\<lambda>_. ContributionCapExceeded) (check_guild_contribution env player amount s)) (\<lambda>_ s.
     case member_alliance s player of
       None \<Rightarrow> (Err NotMember, s)
     | Some alliance_id \<Rightarrow>
     let new_treasury = sat (get_alliance_treasury alliance_id s + amount);
         s = s\<lparr>alliance_treasury := (alliance_treasury s)(alliance_id \<mapsto> new_treasury)\<rparr>;
         new_contribution = sat (get_member_contribution alliance_id player s + amount);
         s = s\<lparr>member_contribution := (member_contribution s)((alliance_id, player) \<mapsto> new_contribution)\<rparr>
     in (Ok new_treasury, publish [SS ''alliance'', SS ''contrib''] [SU alliance_id, SA player, SI amount, SI new_treasury] s)))"

definition get_alliance_level :: "u64 \<Rightarrow> 'a alliance_store_scheme \<Rightarrow> GuildLevelInfo" where
  "get_alliance_level alliance_id s = unwrap_or (alliance_level s alliance_id) \<lparr>gl_level = 1, gl_xp = 0\<rparr>"

text \<open>The level-up loop; \<open>None\<close> when the level would leave its range.\<close>

function level_up :: "u32 \<Rightarrow> u64 \<Rightarrow> (u32 \<times> u64) option" where
  "level_up level xp =
    (if xp \<ge> level * 1000 then (if level + 1 \<le> u32_max then level_up (level + 1) (xp - level * 1000) else None)
     else Some (level, xp))"
  by auto
termination
  by (relation "measure (\<lambda>(level, xp). u32_max + 1 - level)") auto

declare level_up.simps [simp del]

definition add_alliance_xp :: "u64 \<Rightarrow> u64 \<Rightarrow> 'a alliance_store_scheme \<Rightarrow> (AllianceError, u32) outcome \<times> 'a alliance_store_scheme" where
  "add_alliance_xp alliance_id amount s =
    (let info = get_alliance_level alliance_id s;
         xp = saturating_add u64_max (gl_xp info) amount in
     case level_up (gl_level info) xp of
       None \<Rightarrow> (Panic, s)
     | Some (level, rest) \<Rightarrow>
         let s' = s\<lparr>alliance_level := (alliance_level s)(alliance_id \<mapsto> \<lparr>gl_level = level, gl_xp = rest\<rparr>)\<rparr>
         in (Ok level, if level \<noteq> gl_level info then publish [SS ''guild'', SS ''level_up''] [SU alliance_id, SU level] s' else s'))"

definition credit_alliance_treasury :: "u64 \<Rightarrow> i128 \<Rightarrow> 'a alliance_store_scheme \<Rightarrow> (AllianceError, i128) outcome \<times> 'a alliance_store_scheme" where
  "credit_alliance_treasury alliance_id amount s =
    (if amount \<le> 0 then (Ok (get_alliance_treasury alliance_id s), s)
     else let new_treasury = sat (get_alliance_treasury alliance_id s + amount);
              s = s\<lparr>alliance_treasury := (alliance_treasury s)(alliance_id \<mapsto> new_treasury)\<rparr>
          in (Ok new_treasury, publish [SS ''guild'', SS ''credited''] [SU alliance_id, SI amount, SI new_treasury] s))"

definition claim_guild_territory :: "env \<Rightarrow> address \<Rightarrow> u64 \<Rightarrow> 'a alliance_store_scheme \<Rightarrow> (AllianceError, unit) outcome \<times> 'a alliance_store_scheme" where
  "claim_guild_territory env player coordinate_hash s =
    (if \<not> auth env player then (Panic, s)
     else case get_player_alliance player s of
       None \<Rightarrow> (Err NotMember, s)
     | Some alliance_id \<Rightarrow>
     let cost = 500; current_treasury = get_alliance_treasury alliance_id s in
     if current_treasury < cost then (Err AllianceError.Unauthorized, s)
     else if territory_claim s coordinate_hash \<noteq> None then (Err AlreadyInAlliance, s)
     else let s = s\<lparr>alliance_treasury := (alliance_treasury s)(alliance_id \<mapsto> sat (current_treasury - cost))\<rparr>;
              s = s\<lparr>territory_claim := (territory_claim s)(coordinate_hash \<mapsto> alliance_id)\<rparr>
          in (Ok (), publish [SS ''guild'', SS ''claim''] [SU alliance_id, SU coordinate_hash, SA player] s))"

definition get_territory_owner :: "u64 \<Rightarrow> 'a alliance_store_scheme \<Rightarrow> u64 option" where
  "get_territory_owner coordinate_hash s = territory_claim s coordinate_hash"

definition spawn_guild_boss :: "env \<Rightarrow> address \<Rightarrow> 'a alliance_store_scheme \<Rightarrow> (AllianceError, unit) outcome \<times> 'a alliance_store_scheme" where
  "spawn_guild_boss env player s =
    (if \<not> auth env player then (Panic, s)
     else case get_player_alliance player s of
       None \<Rightarrow> (Err NotMember, s)
     | Some alliance_id \<Rightarrow>
     let cost = 1000; current_treasury = get_alliance_treasury alliance_id s in
     if current_treasury < cost then (Err AllianceError.Unauthorized, s)
     else let s = s\<lparr>alliance_treasury := (alliance_treasury s)(alliance_id \<mapsto> sat (current_treasury - cost))\<rparr> in
     case checked_add u64_max (timestamp env) 86400 of
       None \<Rightarrow> (Panic, s)
     | Some active_until \<Rightarrow>
     let s = s\<lparr>guild_boss := (guild_boss s)(alliance_id \<mapsto> \<lparr>gb_boss_id = 1, gb_max_health = 10000, gb_current_health = 10000,
           gb_attack_power = 100, gb_active_until = active_until, gb_defeated = False\<rparr>)\<rparr>
     in (Ok (), publish [SS ''guild'', SS ''boss_spn''] [SU alliance_id, SU active_until] s))"

definition create_guild_quest :: "env \<Rightarrow> address \<Rightarrow> u64 \<Rightarrow> symbol \<Rightarrow> u64 \<Rightarrow> i128 \<Rightarrow> u64 \<Rightarrow> u64 \<Rightarrow> 'a alliance_store_scheme
    \<Rightarrow> (GuildQuestError, u64) outcome \<times> 'a alliance_store_scheme" where
  "create_guild_quest env admin alliance_id quest_type target_count reward_essence reward_xp duration_secs s =
    (if \<not> auth env admin then (Panic, s)
     else case checked_add u64_max (unwrap_or (quest_count s alliance_id) 0) 1 of
       None \<Rightarrow> (Panic, s)
     | Some quest_id \<Rightarrow>
     let s = s\<lparr>quest_count := (quest_count s)(alliance_id \<mapsto> quest_id)\<rparr> in
     case checked_add u64_max (timestamp env) duration_secs of
       None \<Rightarrow> (Panic, s)
     | Some expires_at \<Rightarrow>
     let quest = \<lparr>gq_quest_id = quest_id, gq_alliance_id = alliance_id, gq_quest_type = quest_type, gq_target_count = target_count,
           gq_current_progress = 0, gq_reward_essence = reward_essence, gq_reward_xp = reward_xp, gq_expires_at = expires_at, gq_completed = False\<rparr>;
         s = s\<lparr>guild_quest := (guild_quest s)((alliance_id, quest_id) \<mapsto> quest)\<rparr>
     in (Ok quest_id, publish [SS ''g_quest'', SS ''created''] [SU alliance_id, SU quest_id, SS quest_type, SU target_count] s))"

text \<open>A call whose \<open>Result\<close> the code discards: its error is dropped, a trap is not.\<close>

definition ignoring :: "('e, 'b) outcome \<times> 's \<Rightarrow> ('s \<Rightarrow> ('f, 'c) outcome \<times> 's) \<Rightarrow> ('f, 'c) outcome \<times> 's" where
  "ignoring m k = (case m of (Panic, s) \<Rightarrow> (Panic, s) | (_, s) \<Rightarrow> k s)"

definition advance_quest :: "env \<Rightarrow> u64 \<Rightarrow> symbol \<Rightarrow> u64 \<Rightarrow> u64 \<Rightarrow> 'a alliance_store_scheme \<Rightarrow> (GuildQuestError, unit) outcome \<times> 'a alliance_store_scheme" where
  "advance_quest env alliance_id quest_type amount qid s = (case guild_quest s (alliance_id, qid) of
     None \<Rightarrow> (Ok (), s)
   | Some quest \<Rightarrow>
     if \<not> gq_completed quest \<and> timestamp env \<le> gq_expires_at quest \<and> gq_quest_type quest = quest_type then
       let quest = quest\<lparr>gq_current_progress := saturating_add u64_max (gq_current_progress quest) amount\<rparr> in
       if gq_current_progress quest \<ge> gq_target_count quest then
         let quest = quest\<lparr>gq_completed := True\<rparr> in
         ignoring (credit_alliance_treasury alliance_id (gq_reward_essence quest) s) (\<lambda>s.
         ignoring (add_alliance_xp alliance_id (gq_reward_xp quest) s) (\<lambda>s.
         let s = publish [SS ''g_quest'', SS ''done''] [SU alliance_id, SU (gq_quest_id quest), SI (gq_reward_essence quest), SU (gq_reward_xp quest)] s
         in (Ok (), s\<lparr>guild_quest := (guild_quest s)((alliance_id, qid) \<mapsto> quest)\<rparr>)))
       else (Ok (), s\<lparr>guild_quest := (guild_quest s)((alliance_id, qid) \<mapsto> quest)\<rparr>)
     else (Ok (), s))"

fun advance_quests :: "env \<Rightarrow> u64 \<Rightarrow> symbol \<Rightarrow> u64 \<Rightarrow> u64 list \<Rightarrow> 'a alliance_store_scheme \<Rightarrow> (GuildQuestError, unit) outcome \<times> 'a alliance_store_scheme" where
  "advance_quests env alliance_id quest_type amount [] s = (Ok (), s)"
| "advance_quests env alliance_id quest_type amount (qid # qids) s =
     and_then (advance_quest env alliance_id quest_type amount qid s) (\<lambda>_. advance_quests env alliance_id quest_type amount qids)"

definition contribute_quest_progress :: "env \<Rightarrow> address \<Rightarrow> symbol \<Rightarrow> u64 \<Rightarrow> 'a alliance_store_scheme
    \<Rightarrow> (GuildQuestError, unit) outcome \<times> 'a alliance_store_scheme" where
  "contribute_quest_progress env player quest_type amount s = (case get_player_alliance player s of
     None \<Rightarrow> (Err NotAllianceMember, s)
   | Some alliance_id \<Rightarrow>
       advance_quests env alliance_id quest_type amount [1..<unwrap_or (quest_count s alliance_id) 0 + 1] s)"

definition get_active_guild_quests :: "env \<Rightarrow> u64 \<Rightarrow> 'a alliance_store_scheme \<Rightarrow> GuildQuest list" where
  "get_active_guild_quests env alliance_id s =
     filter (\<lambda>quest. \<not> gq_completed quest \<and> timestamp env \<le> gq_expires_at quest)
       (concat (map (\<lambda>qid. case guild_quest s (alliance_id, qid) of None \<Rightarrow> [] | Some quest \<Rightarrow> [quest])
         [1..<unwrap_or (quest_count s alliance_id) 0 + 1]))"

definition attack_guild_boss :: "env \<Rightarrow> address \<Rightarrow> u64 \<Rightarrow> 'a alliance_store_scheme \<Rightarrow> (AllianceError, GuildBossState) outcome \<times> 'a alliance_store_scheme" where
  "attack_guild_boss env player damage s =
    (if \<not> auth env player then (Panic, s)
     else case get_player_alliance player s of
       None \<Rightarrow> (Err NotMember, s)
     | Some alliance_id \<Rightarrow>
     case guild_boss s alliance_id of
       None \<Rightarrow> (Err AllianceNotFound, s)
     | Some boss \<Rightarrow>
     if gb_defeated boss \<or> timestamp env > gb_active_until boss then (Err AllianceError.Unauthorized, s)
     else let boss = boss\<lparr>gb_current_health := saturating_sub (gb_current_health boss) damage\<rparr>;
              finish = (\<lambda>boss s. (Ok boss, publish [SS ''guild'', SS ''boss_dmg''] [SU alliance_id, SA player, SU damage, SU (gb_current_health boss)]
                (s\<lparr>guild_boss := (guild_boss s)(alliance_id \<mapsto> boss)\<rparr>))) in
     if gb_current_health boss = 0 then
       ignoring (credit_alliance_treasury alliance_id 2000 s) (\<lambda>s.
       ignoring (add_alliance_xp alliance_id 1500 s) (\<lambda>s.
       ignoring (contribute_quest_progress env player ''boss_kill'' 1 s) (finish (boss\<lparr>gb_defeated := True\<rparr>))))
     else finish boss s)"

definition get_guild_boss :: "u64 \<Rightarrow> 'a alliance_store_scheme \<Rightarrow> GuildBossState option" where
  "get_guild_boss alliance_id s = guild_boss s alliance_id"

inductive alliance_step :: "env \<Rightarrow> 'a alliance_store_scheme \<Rightarrow> 'a alliance_store_scheme \<Rightarrow> bool" for env where
  found: "commits (found_alliance env p n) s s' \<Longrightarrow> alliance_step env s s'"
| join: "commits (join_alliance env a p) s s' \<Longrightarrow> alliance_step env s s'"
| leave: "commits (leave_alliance env p) s s' \<Longrightarrow> alliance_step env s s'"
| contribute: "commits (contribute_to_treasury env p x) s s' \<Longrightarrow> alliance_step env s s'"
| territory: "commits (claim_guild_territory env p h) s s' \<Longrightarrow> alliance_step env s s'"
| spawn: "commits (spawn_guild_boss env p) s s' \<Longrightarrow> alliance_step env s s'"
| attack: "commits (attack_guild_boss env p d) s s' \<Longrightarrow> alliance_step env s s'"
| quest: "commits (create_guild_quest env p a q n x m d) s s' \<Longrightarrow> alliance_step env s s'"
| progress: "commits (contribute_quest_progress env p q n) s s' \<Longrightarrow> alliance_step env s s'"
| credit: "commits (credit_alliance_treasury a x) s s' \<Longrightarrow> alliance_step env s s'"
| xp: "commits (add_alliance_xp a n) s s' \<Longrightarrow> alliance_step env s s'"

section \<open>Invariant\<close>

text \<open>The member lists and the players' alliances agree.\<close>

definition rosters_ok :: "nat \<Rightarrow> (u64 \<rightharpoonup> Alliance) \<Rightarrow> (address \<rightharpoonup> u64) \<Rightarrow> bool" where
  "rosters_ok n tbl mem \<longleftrightarrow> (\<forall>i al. tbl i = Some al \<longrightarrow> i < n \<and> al_id al = i \<and> distinct (al_members al) \<and> length (al_members al) \<le> MAX_MEMBERS_PER_ALLIANCE)
     \<and> (\<forall>p i. mem p = Some i \<longleftrightarrow> (\<exists>al. tbl i = Some al \<and> p \<in> set (al_members al)))"

definition alliance_inv :: "'a alliance_store_scheme \<Rightarrow> bool" where
  "alliance_inv s \<longleftrightarrow> rosters_ok (unwrap_or (alliance_count s) 0) (alliance_tbl s) (member_alliance s) \<and> (\<forall>i. 0 \<le> get_alliance_treasury i s)"

text \<open>A call that changes no membership, leaves no treasury in debt and takes no territory away.\<close>

definition keeps_rosters :: "'a alliance_store_scheme \<Rightarrow> 'a alliance_store_scheme \<Rightarrow> bool" where
  "keeps_rosters s s' \<longleftrightarrow> alliance_count s' = alliance_count s \<and> alliance_tbl s' = alliance_tbl s \<and> member_alliance s' = member_alliance s
     \<and> ((\<forall>i. 0 \<le> get_alliance_treasury i s) \<longrightarrow> (\<forall>i. 0 \<le> get_alliance_treasury i s')) \<and> territory_claim s \<subseteq>\<^sub>m territory_claim s'"

text \<open>All experience an alliance has ever received, from its level and what is left over.\<close>

definition xp_of :: "u32 \<times> u64 \<Rightarrow> nat" where
  "xp_of = (\<lambda>(level, xp). 500 * level * (level - 1) + xp)"

section \<open>Lemmas\<close>

lemma publish_alliance_store [simp]:
  "alliance_tbl (publish t d s) = alliance_tbl s" "alliance_count (publish t d s) = alliance_count s" "member_alliance (publish t d s) = member_alliance s"
  "alliance_treasury (publish t d s) = alliance_treasury s" "member_contribution (publish t d s) = member_contribution s"
  "alliance_level (publish t d s) = alliance_level s" "territory_claim (publish t d s) = territory_claim s"
  "guild_boss (publish t d s) = guild_boss s" "guild_quest (publish t d s) = guild_quest s" "quest_count (publish t d s) = quest_count s"
  by (simp_all add: publish_def)

lemma sat_nonneg: "0 \<le> x \<Longrightarrow> 0 \<le> sat x"
  by (simp add: sat_def)

lemma ignoring_Ok [ok_rules]: "ignoring m k = (Ok r, s') \<longleftrightarrow> (\<exists>s. snd m = s \<and> fst m \<noteq> Panic \<and> k s = (Ok r, s'))"
  by (cases m; cases "fst m") (auto simp: ignoring_def)

lemma rosters_mem: "rosters_ok n tbl mem \<Longrightarrow> mem p = Some i \<longleftrightarrow> (\<exists>al. tbl i = Some al \<and> p \<in> set (al_members al))"
  by (simp add: rosters_ok_def)

lemma rosters_al: "rosters_ok n tbl mem \<Longrightarrow> tbl i = Some al \<Longrightarrow>
    i < n \<and> al_id al = i \<and> distinct (al_members al) \<and> length (al_members al) \<le> MAX_MEMBERS_PER_ALLIANCE"
  by (simp add: rosters_ok_def)

text \<open>Replacing the record of one alliance and the alliance of one player.\<close>

lemma rosters_change:
  assumes ok: "rosters_ok n tbl mem" and al: "i < m" "al_id al = i" "distinct (al_members al)" "length (al_members al) \<le> MAX_MEMBERS_PER_ALLIANCE"
    and n: "n \<le> m" and others: "\<And>q. q \<noteq> p \<Longrightarrow> q \<in> set (al_members al) \<longleftrightarrow> mem q = Some i"
    and p: "p \<in> set (al_members al) \<longleftrightarrow> v = Some i" "v = None \<or> v = Some i" "mem p = None \<or> mem p = Some i"
  shows "rosters_ok m (tbl(i \<mapsto> al)) (mem(p := v))"
  unfolding rosters_ok_def
proof (intro conjI allI impI)
  fix j bl assume "(tbl(i \<mapsto> al)) j = Some bl"
  then show "j < m" "al_id bl = j" "distinct (al_members bl)" "length (al_members bl) \<le> MAX_MEMBERS_PER_ALLIANCE"
    using al n rosters_al[OF ok, of j bl] by (auto split: if_splits)
next
  fix q j
  show "(mem(p := v)) q = Some j \<longleftrightarrow> (\<exists>bl. (tbl(i \<mapsto> al)) j = Some bl \<and> q \<in> set (al_members bl))"
    using others[of q] p rosters_mem[OF ok, of q j] by (cases "q = p"; cases "j = i") auto
qed

lemma rosters_new:
  assumes ok: "rosters_ok n tbl mem" and p: "mem p = None" and al: "al_members al = [p]" "al_id al = n"
  shows "rosters_ok (Suc n) (tbl(n \<mapsto> al)) (mem(p \<mapsto> n))"
proof (rule rosters_change[OF ok])
  fix q assume "q \<noteq> p"
  have "mem q \<noteq> Some n" using rosters_mem[OF ok, of q n] rosters_al[OF ok, of n] by auto
  then show "q \<in> set (al_members al) \<longleftrightarrow> mem q = Some n" using al \<open>q \<noteq> p\<close> by simp
qed (use al p in simp_all)

lemma rosters_join:
  assumes ok: "rosters_ok n tbl mem" and p: "mem p = None" and al: "tbl i = Some al" "length (al_members al) < MAX_MEMBERS_PER_ALLIANCE"
  shows "rosters_ok n (tbl(i \<mapsto> al\<lparr>al_members := al_members al @ [p]\<rparr>)) (mem(p \<mapsto> i))"
proof (rule rosters_change[OF ok])
  show "distinct (al_members (al\<lparr>al_members := al_members al @ [p]\<rparr>))"
    using rosters_al[OF ok al(1)] rosters_mem[OF ok, of p i] al(1) p by auto
qed (use rosters_al[OF ok al(1)] rosters_mem[OF ok] al p in simp_all)

lemma rosters_leave:
  assumes ok: "rosters_ok n tbl mem" and p: "mem p = Some i" and al: "tbl i = Some al"
  shows "rosters_ok n (tbl(i \<mapsto> al\<lparr>al_members := filter (\<lambda>m. m \<noteq> p) (al_members al)\<rparr>)) (mem(p := None))"
proof (rule rosters_change[OF ok])
  show "length (al_members (al\<lparr>al_members := filter (\<lambda>m. m \<noteq> p) (al_members al)\<rparr>)) \<le> MAX_MEMBERS_PER_ALLIANCE"
    using rosters_al[OF ok al] by (simp add: order_trans[OF length_filter_le])
qed (use rosters_al[OF ok al] rosters_mem[OF ok] al p in simp_all)

lemma keeps_inv: "keeps_rosters s s' \<Longrightarrow> alliance_inv s \<Longrightarrow> alliance_inv s'"
  by (simp add: keeps_rosters_def alliance_inv_def)

lemma keeps_territory: "keeps_rosters s s' \<Longrightarrow> territory_claim s \<subseteq>\<^sub>m territory_claim s'"
  by (simp add: keeps_rosters_def)

lemma keeps_refl [simp]: "keeps_rosters s s"
  by (simp add: keeps_rosters_def)

lemma keeps_trans [trans]: "keeps_rosters s t \<Longrightarrow> keeps_rosters t u \<Longrightarrow> keeps_rosters s u"
  by (auto simp: keeps_rosters_def intro: map_le_trans)

lemma keeps_publish [simp]: "keeps_rosters s (publish t d s') \<longleftrightarrow> keeps_rosters s s'"
  by (simp add: keeps_rosters_def get_alliance_treasury_def)

lemma keeps_quest [simp]: "keeps_rosters s (s'\<lparr>guild_quest := q\<rparr>) \<longleftrightarrow> keeps_rosters s s'" "keeps_rosters s (s'\<lparr>guild_boss := b\<rparr>) \<longleftrightarrow> keeps_rosters s s'"
    "keeps_rosters s (s'\<lparr>quest_count := c\<rparr>) \<longleftrightarrow> keeps_rosters s s'" "keeps_rosters s (s'\<lparr>alliance_level := l\<rparr>) \<longleftrightarrow> keeps_rosters s s'"
    "keeps_rosters s (s'\<lparr>member_contribution := m\<rparr>) \<longleftrightarrow> keeps_rosters s s'"
  by (simp_all add: keeps_rosters_def get_alliance_treasury_def)

lemma keeps_treasury:
  "((\<forall>i. 0 \<le> get_alliance_treasury i s) \<Longrightarrow> 0 \<le> x) \<Longrightarrow> keeps_rosters s (s\<lparr>alliance_treasury := (alliance_treasury s)(i \<mapsto> x)\<rparr>)"
  by (simp add: keeps_rosters_def get_alliance_treasury_def)

lemma credit_keeps: "keeps_rosters s (snd (credit_alliance_treasury a x s))"
  by (auto simp: credit_alliance_treasury_def Let_def intro!: keeps_treasury sat_nonneg add_nonneg_nonneg)

lemma xp_keeps: "keeps_rosters s (snd (add_alliance_xp a n s))"
  by (simp add: add_alliance_xp_def Let_def split: option.splits)

text \<open>\<open>keeps_rosters\<close> of everything a call leaves behind, whatever it returns.\<close>

lemma keeps_ignoring: "keeps_rosters s (snd m) \<Longrightarrow> (\<And>t. keeps_rosters s t \<Longrightarrow> keeps_rosters s (snd (k t))) \<Longrightarrow> keeps_rosters s (snd (ignoring m k))"
  by (cases m; cases "fst m") (simp_all add: ignoring_def)

lemma keeps_and_then: "keeps_rosters s (snd m) \<Longrightarrow> (\<And>r t. keeps_rosters s t \<Longrightarrow> keeps_rosters s (snd (k r t))) \<Longrightarrow> keeps_rosters s (snd (and_then m k))"
  by (cases m; cases "fst m") (simp_all add: and_then_def)

lemma credit_keeps': "keeps_rosters s t \<Longrightarrow> keeps_rosters s (snd (credit_alliance_treasury a x t))"
  by (rule keeps_trans[OF _ credit_keeps])

lemma xp_keeps': "keeps_rosters s t \<Longrightarrow> keeps_rosters s (snd (add_alliance_xp a n t))"
  by (rule keeps_trans[OF _ xp_keeps])

lemma advance_keeps: "keeps_rosters s t \<Longrightarrow> keeps_rosters s (snd (advance_quest env a q n i t))"
  by (auto simp: advance_quest_def Let_def split: option.split intro!: keeps_ignoring credit_keeps' xp_keeps')

lemma advances_keep: "keeps_rosters s t \<Longrightarrow> keeps_rosters s (snd (advance_quests env a q n is t))"
  by (induction "is" arbitrary: t) (auto intro!: keeps_and_then advance_keeps)

lemma progress_keeps: "keeps_rosters s t \<Longrightarrow> keeps_rosters s (snd (contribute_quest_progress env p q n t))"
  by (auto simp: contribute_quest_progress_def intro!: advances_keep split: option.split)

lemma attack_keeps: "keeps_rosters s (snd (attack_guild_boss env p d s))"
  by (auto simp: attack_guild_boss_def Let_def intro!: keeps_ignoring credit_keeps credit_keeps' xp_keeps' progress_keeps split: option.split)

lemma quest_keeps: "keeps_rosters s (snd (create_guild_quest env p a q n x m d s))"
  by (simp add: create_guild_quest_def Let_def split: option.split)

lemma spawn_keeps: "keeps_rosters s (snd (spawn_guild_boss env p s))"
  by (auto simp: spawn_guild_boss_def Let_def intro!: keeps_treasury sat_nonneg split: option.split)

lemma territory_keeps: "keeps_rosters s (snd (claim_guild_territory env p h s))"
proof -
  have "keeps_rosters s (s\<lparr>alliance_treasury := (alliance_treasury s)(i \<mapsto> sat x), territory_claim := (territory_claim s)(h \<mapsto> i)\<rparr>)"
    if "0 \<le> x" "territory_claim s h = None" for i x
    using that sat_nonneg[OF that(1)] by (auto simp: keeps_rosters_def get_alliance_treasury_def map_le_def dom_def)
  then show ?thesis by (auto simp: claim_guild_territory_def Let_def split: option.split)
qed

lemma keeps_whale: "keeps_rosters s (s\<lparr>aw_daily_guild := g\<rparr>)"
  by (simp add: keeps_rosters_def get_alliance_treasury_def)

lemma cap_keeps: "keeps_rosters s (snd (check_guild_contribution env p x s))"
  by (auto simp: check_guild_contribution_def record_guild_contribution_with_def Let_def and_then_def keeps_whale split: option.split prod.split outcome.split if_splits)

lemma contribute_keeps: "keeps_rosters s (snd (contribute_to_treasury env p x s))"
proof (cases "auth env p \<and> 0 < x")
  case True
  have c: "keeps_rosters s t \<Longrightarrow> keeps_rosters s (t\<lparr>alliance_treasury := (alliance_treasury t)(i \<mapsto> sat (get_alliance_treasury i t + x))\<rparr>)" for t i
    by (rule keeps_trans[OF _ keeps_treasury]) (use True in \<open>auto intro!: sat_nonneg add_nonneg_nonneg\<close>)
  have "keeps_rosters s (snd (map_err (\<lambda>_. ContributionCapExceeded) (check_guild_contribution env p x s)))"
    using cap_keeps[of s env p x] by (cases "check_guild_contribution env p x s") (simp add: map_err_def split: outcome.split)
  then show ?thesis using True unfolding contribute_to_treasury_def Let_def
    by (auto intro!: keeps_and_then c split: option.split)
qed (auto simp: contribute_to_treasury_def)

lemma commits_snd: "commits f s s' \<Longrightarrow> s' = snd (f s)"
  by (auto simp: commits_iff)

lemma alliance_step_inv: "alliance_step env s s' \<Longrightarrow> alliance_inv s \<Longrightarrow> alliance_inv s'"
proof (induction rule: alliance_step.induct)
  case (found p n s s')
  let ?al = "\<lparr>al_id = unwrap_or (alliance_count s) 0, al_name = n, al_founder = p, al_created_at = timestamp env, al_members = [p],
      al_voting_threshold = MIN_VOTING_THRESHOLD, al_is_active = True\<rparr>"
  have p: "member_alliance s p = None" and s': "alliance_count s' = Some (Suc (unwrap_or (alliance_count s) 0))"
      "alliance_tbl s' = (alliance_tbl s)(unwrap_or (alliance_count s) 0 \<mapsto> ?al)" "member_alliance s' = (member_alliance s)(p \<mapsto> unwrap_or (alliance_count s) 0)"
      "alliance_treasury s' = (alliance_treasury s)(unwrap_or (alliance_count s) 0 \<mapsto> 0)"
    using found(1) by (auto simp: commits_iff found_alliance_def ok_rules Let_def split del: if_split)
  show ?case using rosters_new[of _ _ _ p ?al] found(2) p by (simp add: alliance_inv_def s' get_alliance_treasury_def)
next
  case (join a p s s')
  obtain al where al: "member_alliance s p = None" "alliance_tbl s a = Some al" "length (al_members al) < MAX_MEMBERS_PER_ALLIANCE"
    and s': "alliance_count s' = alliance_count s" "alliance_tbl s' = (alliance_tbl s)(a \<mapsto> al\<lparr>al_members := al_members al @ [p]\<rparr>)"
      "member_alliance s' = (member_alliance s)(p \<mapsto> a)" "alliance_treasury s' = alliance_treasury s"
    using join(1) by (auto simp: commits_iff join_alliance_def ok_rules Let_def not_le split del: if_split)
  show ?case using rosters_join[where mem = "member_alliance s" and tbl = "alliance_tbl s", OF _ al] join(2) by (simp add: alliance_inv_def s' get_alliance_treasury_def)
next
  case (leave p s s')
  obtain a al where al: "member_alliance s p = Some a" "alliance_tbl s a = Some al"
    and s': "alliance_count s' = alliance_count s" "alliance_tbl s' = (alliance_tbl s)(a \<mapsto> al\<lparr>al_members := filter (\<lambda>m. m \<noteq> p) (al_members al)\<rparr>)"
      "member_alliance s' = (member_alliance s)(p := None)" "alliance_treasury s' = alliance_treasury s"
    using leave(1) by (auto simp: commits_iff leave_alliance_def ok_rules Let_def split del: if_split)
  show ?case using rosters_leave[where mem = "member_alliance s" and tbl = "alliance_tbl s", OF _ al] leave(2) by (simp add: alliance_inv_def s' get_alliance_treasury_def)
qed (drule commits_snd, erule keeps_inv[rotated],
    simp add: contribute_keeps territory_keeps spawn_keeps attack_keeps quest_keeps progress_keeps credit_keeps xp_keeps)+

interpretation alliances: step_system "\<lambda>s s'. \<exists>env. alliance_step env s s'" "alliance_inv :: 'a alliance_store_scheme \<Rightarrow> bool"
  by unfold_locales (auto intro: alliance_step_inv)

lemma alliance_step_territory: "alliance_step env s s' \<Longrightarrow> territory_claim s \<subseteq>\<^sub>m territory_claim s'"
proof (induction rule: alliance_step.induct)
  case (found p n s s')
  then have "territory_claim s' = territory_claim s" by (auto simp: commits_iff found_alliance_def ok_rules Let_def split del: if_split)
  then show ?case by simp
next
  case (join a p s s')
  then have "territory_claim s' = territory_claim s" by (auto simp: commits_iff join_alliance_def ok_rules Let_def split del: if_split)
  then show ?case by simp
next
  case (leave p s s')
  then have "territory_claim s' = territory_claim s" by (auto simp: commits_iff leave_alliance_def ok_rules Let_def split del: if_split)
  then show ?case by simp
qed (drule commits_snd, rule keeps_territory,
    simp add: contribute_keeps territory_keeps spawn_keeps attack_keeps quest_keeps progress_keeps credit_keeps xp_keeps)+

text \<open>The level-up loop conserves experience, stops below the next threshold, and does not leave the range of levels.\<close>

lemma level_up_xp: "level_up l x = Some (l', x') \<Longrightarrow> xp_of (l', x') = xp_of (l, x) \<and> x' < 1000 * l' \<and> l \<le> l'"
proof (induction l x rule: level_up.induct)
  case (1 l x)
  show ?case
  proof (cases "x \<ge> l * 1000")
    case True
    then have r: "l + 1 \<le> u32_max" "level_up (l + 1) (x - l * 1000) = Some (l', x')"
      using 1(2) by (simp_all add: level_up.simps[of l x] split: if_splits)
    have "500 * (l + 1) * (l + 1 - 1) + (x - l * 1000) = 500 * l * (l - 1) + x"
      using True by (cases l) (simp_all add: algebra_simps)
    then show ?thesis using 1(1)[OF True r] by (simp add: xp_of_def)
  qed (use 1(2) in \<open>simp add: level_up.simps[of l x]\<close>)
qed

lemma level_up_Some: "xp_of (l, x) < 500 * u32_max * (u32_max + 1) \<Longrightarrow> l \<le> u32_max \<Longrightarrow> \<exists>r. level_up l x = Some r"
proof (induction l x rule: level_up.induct)
  case (1 l x)
  show ?case
  proof (cases "x \<ge> l * 1000")
    case True
    have pot: "500 * (l + 1) * (l + 1 - 1) + (x - l * 1000) = 500 * l * (l - 1) + x"
      using True by (cases l) (simp_all add: algebra_simps)
    have "l \<noteq> u32_max"
    proof
      assume "l = u32_max"
      then show False using 1(2) True by (simp add: xp_of_def)
    qed
    then have "l + 1 \<le> u32_max" using 1(3) by simp
    then show ?thesis using 1(1)[OF True] 1(2) pot True by (simp add: xp_of_def level_up.simps[of l x])
  qed (simp add: level_up.simps[of l x])
qed

lemma alliance_run_territory: "(\<lambda>s s'. \<exists>env. alliance_step env s s')\<^sup>*\<^sup>* s t \<Longrightarrow> territory_claim s \<subseteq>\<^sub>m territory_claim t"
  by (induction rule: rtranclp_induct) (auto dest: alliance_step_territory intro: map_le_trans)

text \<open>One founded alliance with two members.\<close>

definition no_alliances :: alliance_store where
  "no_alliances = dex_store.extend gas_wallet
     \<lparr>alliance_tbl = Map.empty, alliance_count = None, member_alliance = Map.empty, alliance_treasury = Map.empty, member_contribution = Map.empty,
      alliance_level = Map.empty, territory_claim = Map.empty, guild_boss = Map.empty, guild_quest = Map.empty, quest_count = Map.empty\<rparr>"

lemma no_alliances_simps: "alliance_tbl no_alliances = Map.empty" "alliance_count no_alliances = None" "member_alliance no_alliances = Map.empty"
    "alliance_treasury no_alliances = Map.empty" "member_contribution no_alliances = Map.empty" "alliance_level no_alliances = Map.empty"
    "territory_claim no_alliances = Map.empty" "guild_boss no_alliances = Map.empty" "guild_quest no_alliances = Map.empty" "quest_count no_alliances = Map.empty"
    "resource_bal no_alliances = [(Addr 2, ''gas'') \<mapsto> 100]"
  by (simp_all add: no_alliances_def dex_store.defs gas_wallet_simps)

lemma no_alliances_inv: "alliance_inv no_alliances"
  by (simp add: alliance_inv_def rosters_ok_def no_alliances_simps get_alliance_treasury_def)

section \<open>Properties\<close>

text \<open>C19. Membership is consistent. After any run of alliance and quest operations the alliance recorded for a player is the
  one alliance whose member list has the player; no alliance has a member twice or more than 50 members, no treasury is
  negative, a territory keeps its owner, and a member who signs can always leave and is then in no alliance.\<close>

theorem alliance_membership:
  fixes s t :: "'a alliance_store_scheme"
  assumes "(\<lambda>s s'. \<exists>env. alliance_step env s s')\<^sup>*\<^sup>* s t" and "alliance_inv s"
  shows "(get_player_alliance p t = Some a \<longleftrightarrow> (\<exists>al. get_alliance a t = Ok al \<and> p \<in> set (al_members al)))
    \<and> (\<forall>al. get_alliance a t = Ok al \<longrightarrow> distinct (al_members al) \<and> length (al_members al) \<le> MAX_MEMBERS_PER_ALLIANCE)
    \<and> 0 \<le> get_alliance_treasury a t
    \<and> (get_territory_owner h s = Some b \<longrightarrow> get_territory_owner h t = Some b)
    \<and> (get_player_alliance p t = Some a \<and> auth env p \<longrightarrow>
        (\<exists>u. leave_alliance env p t = (Ok (), u) \<and> get_player_alliance p u = None
          \<and> (\<forall>b al. get_alliance b u = Ok al \<longrightarrow> p \<notin> set (al_members al))))"
proof -
  have t: "alliance_inv t" using alliances.run_inv assms by blast
  then have r: "rosters_ok (unwrap_or (alliance_count t) 0) (alliance_tbl t) (member_alliance t)" by (simp add: alliance_inv_def)
  have ok: "get_alliance b u = Ok al \<longleftrightarrow> alliance_tbl u b = Some al" for b al and u :: "'a alliance_store_scheme"
    by (simp add: get_alliance_def split: option.split)
  have "\<exists>u. leave_alliance env p t = (Ok (), u) \<and> get_player_alliance p u = None \<and> (\<forall>b al. get_alliance b u = Ok al \<longrightarrow> p \<notin> set (al_members al))"
    if m: "get_player_alliance p t = Some a" "auth env p"
  proof -
    have p: "member_alliance t p = Some a" using m by (simp add: get_player_alliance_def)
    then obtain al where al: "alliance_tbl t a = Some al" using rosters_mem[OF r] by blast
    then have run: "leave_alliance env p t = (Ok (), snd (leave_alliance env p t))"
      using p m by (simp add: leave_alliance_def Let_def)
    then have inv: "alliance_inv (snd (leave_alliance env p t))" using alliance_step_inv[OF alliance_step.leave, OF _ t] commitsI[where f = "leave_alliance env p", OF run] by blast
    have none: "member_alliance (snd (leave_alliance env p t)) p = None" using p al m by (simp add: leave_alliance_def Let_def)
    have "p \<notin> set (al_members bl)" if "alliance_tbl (snd (leave_alliance env p t)) b = Some bl" for b bl
      using inv none that rosters_mem[of _ _ _ p b] by (force simp: alliance_inv_def)
    then show ?thesis using run none by (intro exI[of _ "snd (leave_alliance env p t)"]) (simp add: ok get_player_alliance_def)
  qed
  moreover have "get_territory_owner h s = Some b \<longrightarrow> get_territory_owner h t = Some b"
    using alliance_run_territory[OF assms(1)] by (auto simp: get_territory_owner_def map_le_def dom_def)
  ultimately show ?thesis using rosters_mem[OF r, of p a] rosters_al[OF r] t by (simp add: ok get_player_alliance_def alliance_inv_def)
qed

theorem alliance_membership_witness:
  "\<exists>s. found_alliance (signed_at 5 1) (Addr 2) ''Orion'' no_alliances = (Ok 0, s) \<and> (\<exists>u. leave_alliance (signed_at 6 1) (Addr 2) s = (Ok (), u) \<and> get_player_alliance (Addr 2) u = None)"
proof -
  let ?s = "snd (found_alliance (signed_at 5 1) (Addr 2) ''Orion'' no_alliances)"
  have ok: "found_alliance (signed_at 5 1) (Addr 2) ''Orion'' no_alliances = (Ok 0, ?s) \<and> get_player_alliance (Addr 2) ?s = Some 0"
    by (simp add: found_alliance_def no_alliances_simps validate_name_def validate_string_def is_control_char_def get_player_alliance_def Let_def checked_add_def)
  have run: "(\<lambda>s s'. \<exists>env. alliance_step env s s')\<^sup>*\<^sup>* no_alliances ?s"
    using alliance_step.found commitsI[where f = "found_alliance (signed_at 5 1) (Addr 2) ''Orion''", OF conjunct1[OF ok]] by blast
  show ?thesis
    using alliance_membership[OF run no_alliances_inv, of "Addr 2" 0 0 0 "signed_at 6 1"] ok by auto
qed

text \<open>C20. Levels are exact. While the lifetime experience of an alliance stays below the range of levels, crediting experience
  succeeds and adds exactly the amount to it, the level never drops, and what is left over is below the next threshold; the
  level-up loop terminates.\<close>

theorem guild_xp_exact:
  fixes s :: "'a alliance_store_scheme"
  assumes "get_alliance_level a s = info" and "gl_level info \<le> u32_max" and "gl_xp info + n \<le> u64_max"
    and "xp_of (gl_level info, gl_xp info) + n < 500 * u32_max * (u32_max + 1)"
  shows "\<exists>s' info'. add_alliance_xp a n s = (Ok (gl_level info'), s') \<and> get_alliance_level a s' = info'
    \<and> xp_of (gl_level info', gl_xp info') = xp_of (gl_level info, gl_xp info) + n
    \<and> gl_level info \<le> gl_level info' \<and> gl_xp info' < 1000 * gl_level info'"
proof -
  have sum: "saturating_add u64_max (gl_xp info) n = gl_xp info + n" using assms(3) by (simp add: saturating_add_def)
  obtain l x where lx: "level_up (gl_level info) (gl_xp info + n) = Some (l, x)"
    using level_up_Some[of "gl_level info" "gl_xp info + n"] assms(2,4) by (auto simp: xp_of_def)
  then show ?thesis using level_up_xp[OF lx] assms(1)
    by (auto simp: add_alliance_xp_def Let_def sum get_alliance_level_def xp_of_def intro!: exI[of _ "\<lparr>gl_level = l, gl_xp = x\<rparr>"])
qed

theorem guild_xp_exact_witness:
  "\<exists>s' info'. add_alliance_xp 0 3500 no_alliances = (Ok (gl_level info'), s') \<and> get_alliance_level 0 s' = info' \<and> gl_xp info' < 1000 * gl_level info'"
proof -
  have "get_alliance_level 0 no_alliances = \<lparr>gl_level = 1, gl_xp = 0\<rparr>" by (simp add: get_alliance_level_def no_alliances_simps)
  from guild_xp_exact[OF this, of 3500] show ?thesis by (simp add: xp_of_def) blast
qed

end
