(* ===== verification/Staking.thy ===== *)
theory Staking
  imports Alliance_Manager
begin

text \<open>
  \<open>src/staking.rs\<close>: governance stakes with lock periods, tiers, voting power, delegation and slashing, and guild stakes that
  share funded rewards pro rata through an accumulated reward per unit. The admin key is the one \<open>governance.rs\<close> reads.
\<close>

section \<open>Model\<close>

datatype StakingError = AlreadyInitialized | NotInitialized | InvalidAmount | InsufficientBalance | NoActiveStake | TimeLockActive
  | StakeTooYoung | NoActiveDelegation | CircularDelegation | ActiveVotes | SelfDelegation | InvalidTier | EarlyWithdrawPenalty
  | PenaltyBelowMinimum | TierLocked | NotGuildMember | AssetMismatch | NoGuildStake | RewardReserveEmpty | Unauthorized | InvalidSlash

datatype StakingTier = Flexible | Bronze | Silver | Gold | Diamond

record StakeRecord =
  sr_staker :: address
  sr_amount :: i128
  sr_created_ledger :: u32
  sr_unlock_ledger :: u32
  sr_tier :: StakingTier
  sr_apy_bps :: u32

record DelegationRecord =
  dr_delegator :: address
  dr_delegatee :: address
  dr_set_at_ledger :: u32

record StakingTierConfig =
  tc_tier :: StakingTier
  tc_min_amount :: i128
  tc_lock_duration_ledgers :: u32
  tc_apy_bps :: u32
  tc_early_withdraw_penalty_bps :: u32
  tc_vote_multiplier :: u32

record EarlyWithdrawalResult =
  ew_amount_returned :: i128
  ew_penalty :: i128
  ew_penalty_bps :: u32

record GlobalStakingStats =
  gs_total_staked :: i128
  gs_total_stakers :: u64
  gs_total_rewards_paid :: i128
  gs_average_apy_bps :: u32
  gs_tier_breakdown :: "(StakingTier \<times> u64 \<times> i128) list"

record GuildStake =
  gk_alliance_id :: u64
  gk_member :: address
  gk_asset_id :: symbol
  gk_amount :: i128
  gk_staked_at :: u64
  gk_unlock_at :: u64
  gk_reward_debt :: i128

record stake_store = alliance_store +
  token_address :: "address option"
  min_stake :: "i128 option"
  lock_duration_ledgers :: "u32 option"
  stakes :: "address \<rightharpoonup> StakeRecord"
  total_staked :: "i128 option"
  stake_delegations :: "address \<rightharpoonup> DelegationRecord"
  tier_config :: "StakingTier \<rightharpoonup> StakingTierConfig"
  staker_count :: "u64 option"
  total_rewards_paid :: "i128 option"
  stake_tier :: "address \<rightharpoonup> StakingTier"
  guild_stakes :: "address \<rightharpoonup> GuildStake"
  guild_stake_total :: "u64 \<rightharpoonup> i128"
  guild_stake_asset :: "u64 \<rightharpoonup> symbol"
  guild_acc_reward :: "u64 \<rightharpoonup> i128"
  total_slashed :: "i128 option"

abbreviation STAKE_BPS_DENOMINATOR :: int where "STAKE_BPS_DENOMINATOR \<equiv> 10000"
abbreviation GUILD_STAKE_LOCK_SECS :: u64 where "GUILD_STAKE_LOCK_SECS \<equiv> 604800"
abbreviation REWARD_PRECISION :: int where "REWARD_PRECISION \<equiv> 1000000000000"

definition get_default_tier_configs :: "StakingTierConfig list" where
  "get_default_tier_configs =
    [\<lparr>tc_tier = Flexible, tc_min_amount = 0, tc_lock_duration_ledgers = 0, tc_apy_bps = 500, tc_early_withdraw_penalty_bps = 0, tc_vote_multiplier = 1\<rparr>,
     \<lparr>tc_tier = Bronze, tc_min_amount = 10000, tc_lock_duration_ledgers = 1000, tc_apy_bps = 1000, tc_early_withdraw_penalty_bps = 500, tc_vote_multiplier = 2\<rparr>,
     \<lparr>tc_tier = Silver, tc_min_amount = 50000, tc_lock_duration_ledgers = 3000, tc_apy_bps = 2000, tc_early_withdraw_penalty_bps = 1000, tc_vote_multiplier = 3\<rparr>,
     \<lparr>tc_tier = Gold, tc_min_amount = 250000, tc_lock_duration_ledgers = 6000, tc_apy_bps = 3500, tc_early_withdraw_penalty_bps = 1500, tc_vote_multiplier = 5\<rparr>,
     \<lparr>tc_tier = Diamond, tc_min_amount = 1000000, tc_lock_duration_ledgers = 12000, tc_apy_bps = 5000, tc_early_withdraw_penalty_bps = 2000, tc_vote_multiplier = 10\<rparr>]"

definition set_tier_config :: "env \<Rightarrow> address \<Rightarrow> StakingTierConfig \<Rightarrow> 'a stake_store_scheme \<Rightarrow> (StakingError, unit) outcome \<times> 'a stake_store_scheme" where
  "set_tier_config env admin config s =
    (if \<not> auth env admin then (Panic, s) else (Ok (), s\<lparr>tier_config := (tier_config s)(tc_tier config \<mapsto> config)\<rparr>))"

definition get_tier_config :: "StakingTier \<Rightarrow> 'a stake_store_scheme \<Rightarrow> StakingTierConfig" where
  "get_tier_config tier s = (case tier_config s tier of
     Some config \<Rightarrow> config
   | None \<Rightarrow> foldl (\<lambda>found c. if tc_tier c = tier then c else found) (hd get_default_tier_configs) get_default_tier_configs)"

definition get_optimal_tier :: "i128 \<Rightarrow> StakingTier" where
  "get_optimal_tier amount = foldl (\<lambda>best c. if amount \<ge> tc_min_amount c then tc_tier c else best) Flexible get_default_tier_configs"

definition get_variable_apy :: "i128 \<Rightarrow> u32 \<Rightarrow> 'a stake_store_scheme \<Rightarrow> u32" where
  "get_variable_apy amount duration_ledgers s =
    (let base_apy = tc_apy_bps (get_tier_config (get_optimal_tier amount) s);
         duration_bonus = (if duration_ledgers > 5000 then 500 else if duration_ledgers > 2000 then 300 else if duration_ledgers > 1000 then 150 else 0);
         amount_bonus = (if amount \<ge> 1000000 then 1000 else if amount \<ge> 500000 then 500 else if amount \<ge> 100000 then 200 else 0)
     in saturating_add u32_max (saturating_add u32_max base_apy duration_bonus) amount_bonus)"

definition get_total_staked :: "'a stake_store_scheme \<Rightarrow> i128" where
  "get_total_staked s = unwrap_or (total_staked s) 0"

definition get_global_staking_stats :: "'a stake_store_scheme \<Rightarrow> GlobalStakingStats" where
  "get_global_staking_stats s =
    (let ts = unwrap_or (total_staked s) 0
     in \<lparr>gs_total_staked = ts, gs_total_stakers = unwrap_or (staker_count s) 0, gs_total_rewards_paid = unwrap_or (total_rewards_paid s) 0,
         gs_average_apy_bps = (if ts > 0 then 2000 else 0), gs_tier_breakdown = map (\<lambda>t. (t, 0, 0)) [Flexible, Bronze, Silver, Gold, Diamond]\<rparr>)"

text \<open>The product and the difference are unchecked in the code and trap on overflow: \<open>None\<close>.\<close>

definition calculate_early_withdraw_penalty :: "StakeRecord \<Rightarrow> 'a stake_store_scheme \<Rightarrow> EarlyWithdrawalResult option" where
  "calculate_early_withdraw_penalty stake s =
    (let penalty_bps = tc_early_withdraw_penalty_bps (get_tier_config (sr_tier stake) s) in
     case ck (sr_amount stake * int penalty_bps) of
       None \<Rightarrow> None
     | Some product \<Rightarrow>
     let penalty = product sdiv STAKE_BPS_DENOMINATOR in
     case ck (sr_amount stake - penalty) of
       None \<Rightarrow> None
     | Some returned \<Rightarrow> Some \<lparr>ew_amount_returned = returned, ew_penalty = penalty, ew_penalty_bps = penalty_bps\<rparr>)"

definition initialize :: "env \<Rightarrow> address \<Rightarrow> address \<Rightarrow> i128 \<Rightarrow> u32 \<Rightarrow> 'a stake_store_scheme \<Rightarrow> (StakingError, unit) outcome \<times> 'a stake_store_scheme" where
  "initialize env admin token minimum lock_ledgers s =
    (if \<not> auth env admin then (Panic, s)
     else if inst_admin s \<noteq> None then (Err StakingError.AlreadyInitialized, s)
     else let s = s\<lparr>inst_admin := Some admin, token_address := Some token, min_stake := Some minimum, lock_duration_ledgers := Some lock_ledgers\<rparr>
          in (Ok (), publish [SS ''stake'', SS ''init''] [SA admin, SA token] s))"

text \<open>The end of both ways to stake: add to the total, which may overflow.\<close>

definition add_total :: "i128 \<Rightarrow> 'a stake_store_scheme \<Rightarrow> (StakingError, unit) outcome \<times> 'a stake_store_scheme" where
  "add_total amount s = (case ck (unwrap_or (total_staked s) 0 + amount) of
     None \<Rightarrow> (Err StakingError.InvalidAmount, s)
   | Some new_total \<Rightarrow> (Ok (), s\<lparr>total_staked := Some new_total\<rparr>))"

definition sub_total :: "i128 \<Rightarrow> 'a stake_store_scheme \<Rightarrow> (StakingError, unit) outcome \<times> 'a stake_store_scheme" where
  "sub_total amount s = (case ck (unwrap_or (total_staked s) 0 - amount) of
     None \<Rightarrow> (Err StakingError.InvalidAmount, s)
   | Some new_total \<Rightarrow> (Ok (), s\<lparr>total_staked := Some new_total\<rparr>))"

definition stake :: "env \<Rightarrow> address \<Rightarrow> i128 \<Rightarrow> 'a stake_store_scheme \<Rightarrow> (StakingError, unit) outcome \<times> 'a stake_store_scheme" where
  "stake env staker amount s =
    (if \<not> auth env staker then (Panic, s)
     else if amount \<le> 0 then (Err StakingError.InvalidAmount, s)
     else case min_stake s of
       None \<Rightarrow> (Err StakingError.NotInitialized, s)
     | Some minimum \<Rightarrow>
     if amount < minimum then (Err StakingError.InvalidAmount, s)
     else if stakes s staker \<noteq> None then (Err StakingError.InvalidAmount, s)
     else case lock_duration_ledgers s of
       None \<Rightarrow> (Err StakingError.NotInitialized, s)
     | Some lock_duration \<Rightarrow>
     case checked_add u32_max (sequence env) lock_duration of
       None \<Rightarrow> (Panic, s)
     | Some unlock_ledger \<Rightarrow>
     let record = \<lparr>sr_staker = staker, sr_amount = amount, sr_created_ledger = sequence env, sr_unlock_ledger = unlock_ledger, sr_tier = Flexible, sr_apy_bps = 500\<rparr>;
         s = s\<lparr>stakes := (stakes s)(staker \<mapsto> record)\<rparr> in
     and_then (add_total amount s) (\<lambda>_ s. (Ok (), publish [SS ''stake'', SS ''staked''] [SA staker, SI amount] s)))"

definition tier_symbol :: "StakingTier \<Rightarrow> symbol" where
  "tier_symbol t = (case t of Flexible \<Rightarrow> ''Flexible'' | Bronze \<Rightarrow> ''Bronze'' | Silver \<Rightarrow> ''Silver'' | Gold \<Rightarrow> ''Gold'' | Diamond \<Rightarrow> ''Diamond'')"

definition stake_with_tier :: "env \<Rightarrow> address \<Rightarrow> i128 \<Rightarrow> StakingTier \<Rightarrow> 'a stake_store_scheme \<Rightarrow> (StakingError, unit) outcome \<times> 'a stake_store_scheme" where
  "stake_with_tier env staker amount tier s =
    (if \<not> auth env staker then (Panic, s)
     else if amount \<le> 0 then (Err StakingError.InvalidAmount, s)
     else let config = get_tier_config tier s in
     if amount < tc_min_amount config then (Err StakingError.InvalidTier, s)
     else case checked_add u32_max (sequence env) (tc_lock_duration_ledgers config) of
       None \<Rightarrow> (Panic, s)
     | Some unlock_ledger \<Rightarrow>
     let apy = get_variable_apy amount (tc_lock_duration_ledgers config) s in
     if stakes s staker \<noteq> None then (Err StakingError.InvalidAmount, s)
     else let record = \<lparr>sr_staker = staker, sr_amount = amount, sr_created_ledger = sequence env, sr_unlock_ledger = unlock_ledger, sr_tier = tier, sr_apy_bps = apy\<rparr>;
              s = s\<lparr>stakes := (stakes s)(staker \<mapsto> record), stake_tier := (stake_tier s)(staker \<mapsto> tier)\<rparr> in
     and_then (add_total amount s) (\<lambda>_ s.
     let s = s\<lparr>staker_count := Some (saturating_add u64_max (unwrap_or (staker_count s) 0) 1)\<rparr>
     in (Ok (), publish [SS ''stake'', SS ''v2_stk''] [SA staker, SI amount, SS (tier_symbol tier), SU apy] s)))"

definition unstake_v2 :: "env \<Rightarrow> address \<Rightarrow> 'a stake_store_scheme \<Rightarrow> (StakingError, EarlyWithdrawalResult) outcome \<times> 'a stake_store_scheme" where
  "unstake_v2 env staker s =
    (if \<not> auth env staker then (Panic, s)
     else case stakes s staker of
       None \<Rightarrow> (Err StakingError.NoActiveStake, s)
     | Some rec \<Rightarrow>
     and_then
       (if sequence env < sr_unlock_ledger rec then
          (case calculate_early_withdraw_penalty rec s of
             None \<Rightarrow> (Panic, s)
           | Some penalty_result \<Rightarrow>
               and_then (sub_total (sr_amount rec) (s\<lparr>stakes := (stakes s)(staker := None)\<rparr>)) (\<lambda>_ s.
               (Ok penalty_result, publish [SS ''stake'', SS ''early''] [SA staker, SI (ew_penalty penalty_result), SU (ew_penalty_bps penalty_result)] s)))
        else and_then (sub_total (sr_amount rec) (s\<lparr>stakes := (stakes s)(staker := None)\<rparr>)) (\<lambda>_ s.
          (Ok \<lparr>ew_amount_returned = sr_amount rec, ew_penalty = 0, ew_penalty_bps = 0\<rparr>, s)))
       (\<lambda>r s. (Ok r, publish [SS ''stake'', SS ''unstk_v2''] [SA staker, SI (ew_amount_returned r), SI (ew_penalty r)] s)))"

definition unstake :: "env \<Rightarrow> address \<Rightarrow> 'a stake_store_scheme \<Rightarrow> (StakingError, i128) outcome \<times> 'a stake_store_scheme" where
  "unstake env staker s =
    (if \<not> auth env staker then (Panic, s)
     else case stakes s staker of
       None \<Rightarrow> (Err StakingError.NoActiveStake, s)
     | Some rec \<Rightarrow>
     if sequence env < sr_unlock_ledger rec then (Err StakingError.TimeLockActive, s)
     else and_then (sub_total (sr_amount rec) (s\<lparr>stakes := (stakes s)(staker := None)\<rparr>)) (\<lambda>_ s.
       (Ok (sr_amount rec), publish [SS ''stake'', SS ''unstaked''] [SA staker, SI (sr_amount rec)] s)))"

definition get_stake :: "address \<Rightarrow> 'a stake_store_scheme \<Rightarrow> StakeRecord option" where
  "get_stake a s = stakes s a"

definition get_stake_v2 :: "address \<Rightarrow> 'a stake_store_scheme \<Rightarrow> StakeRecord option" where
  "get_stake_v2 a s = stakes s a"

definition get_staking_tier :: "address \<Rightarrow> 'a stake_store_scheme \<Rightarrow> StakingTier" where
  "get_staking_tier a s = unwrap_or (stake_tier s a) Flexible"

definition get_voting_power :: "env \<Rightarrow> address \<Rightarrow> 'a stake_store_scheme \<Rightarrow> i128" where
  "get_voting_power env a s =
    (if stake_delegations s a \<noteq> None then 0
     else case stakes s a of
       None \<Rightarrow> 0
     | Some rec \<Rightarrow> if sequence env \<le> sr_created_ledger rec then 0 else sr_amount rec)"

definition delegate :: "env \<Rightarrow> address \<Rightarrow> address \<Rightarrow> 'a stake_store_scheme \<Rightarrow> (StakingError, unit) outcome \<times> 'a stake_store_scheme" where
  "delegate env delegator delegatee s =
    (if \<not> auth env delegator then (Panic, s)
     else if delegator = delegatee then (Err StakingError.SelfDelegation, s)
     else if stakes s delegator = None then (Err StakingError.NoActiveStake, s)
     else if (case stake_delegations s delegatee of None \<Rightarrow> False | Some d \<Rightarrow> dr_delegatee d = delegator) then (Err StakingError.CircularDelegation, s)
     else let s = s\<lparr>stake_delegations := (stake_delegations s)(delegator \<mapsto> \<lparr>dr_delegator = delegator, dr_delegatee = delegatee, dr_set_at_ledger = sequence env\<rparr>)\<rparr>
          in (Ok (), publish [SS ''stake'', SS ''deleg''] [SA delegator, SA delegatee] s))"

definition undelegate :: "env \<Rightarrow> address \<Rightarrow> 'a stake_store_scheme \<Rightarrow> (StakingError, unit) outcome \<times> 'a stake_store_scheme" where
  "undelegate env delegator s =
    (if \<not> auth env delegator then (Panic, s)
     else if stake_delegations s delegator = None then (Err StakingError.NoActiveDelegation, s)
     else let s = s\<lparr>stake_delegations := (stake_delegations s)(delegator := None)\<rparr>
          in (Ok (), publish [SS ''stake'', SS ''undeleg''] [SA delegator] s))"

definition guild_total :: "u64 \<Rightarrow> 'a stake_store_scheme \<Rightarrow> i128" where
  "guild_total alliance_id s = unwrap_or (guild_stake_total s alliance_id) 0"

definition guild_acc :: "u64 \<Rightarrow> 'a stake_store_scheme \<Rightarrow> i128" where
  "guild_acc alliance_id s = unwrap_or (guild_acc_reward s alliance_id) 0"

definition guild_asset :: "u64 \<Rightarrow> 'a stake_store_scheme \<Rightarrow> symbol option" where
  "guild_asset alliance_id s = guild_stake_asset s alliance_id"

definition adjust_treasury :: "u64 \<Rightarrow> i128 \<Rightarrow> 'a stake_store_scheme \<Rightarrow> 'a stake_store_scheme" where
  "adjust_treasury alliance_id delta s =
     s\<lparr>alliance_treasury := (alliance_treasury s)(alliance_id \<mapsto> max (sat (unwrap_or (alliance_treasury s alliance_id) 0 + delta)) 0)\<rparr>"

definition reward_share :: "i128 \<Rightarrow> i128 \<Rightarrow> i128" where
  "reward_share amount acc = sat (amount * acc) sdiv REWARD_PRECISION"

definition pending_guild_reward :: "GuildStake \<Rightarrow> i128 \<Rightarrow> i128" where
  "pending_guild_reward gk acc = max (sat (reward_share (gk_amount gk) acc - gk_reward_debt gk)) 0"

definition debit_units :: "address \<Rightarrow> symbol \<Rightarrow> i128 \<Rightarrow> 'a stake_store_scheme \<Rightarrow> (StakingError, unit) outcome \<times> 'a stake_store_scheme" where
  "debit_units own asset amount s =
    (if amount < 0 \<or> int u32_max < amount then (Err StakingError.InvalidAmount, s)
     else and_then (map_err (\<lambda>_. StakingError.InsufficientBalance) (debit_resource_balance own asset (nat amount) s)) (\<lambda>_ s. (Ok (), s)))"

definition credit_units :: "address \<Rightarrow> symbol \<Rightarrow> i128 \<Rightarrow> 'a stake_store_scheme \<Rightarrow> (StakingError, unit) outcome \<times> 'a stake_store_scheme" where
  "credit_units own asset amount s =
    (if amount \<le> 0 then (Ok (), s)
     else if int u32_max < amount then (Err StakingError.InvalidAmount, s)
     else and_then (map_err (\<lambda>_. StakingError.InvalidAmount) (credit_resource_balance own asset (nat amount) s)) (\<lambda>_ s. (Ok (), s)))"

definition get_guild_stake :: "address \<Rightarrow> 'a stake_store_scheme \<Rightarrow> GuildStake option" where
  "get_guild_stake m s = guild_stakes s m"

definition get_guild_stake_total :: "u64 \<Rightarrow> 'a stake_store_scheme \<Rightarrow> i128" where
  "get_guild_stake_total alliance_id s = guild_total alliance_id s"

text \<open>The stake a deposit leaves: a new one, or the old one after its pending rewards are paid.\<close>

definition updated_stake :: "env \<Rightarrow> address \<Rightarrow> u64 \<Rightarrow> symbol \<Rightarrow> i128 \<Rightarrow> 'a stake_store_scheme \<Rightarrow> (StakingError, GuildStake) outcome \<times> 'a stake_store_scheme" where
  "updated_stake env m alliance_id asset_id amount_i s =
    (let acc = guild_acc alliance_id s; now = timestamp env in
     case get_guild_stake m s of
       Some existing \<Rightarrow>
         if gk_alliance_id existing \<noteq> alliance_id then (Err StakingError.NotGuildMember, s)
         else let pending = pending_guild_reward existing acc in
         and_then (credit_units m asset_id pending s) (\<lambda>_ s.
         case ck (gk_amount existing + amount_i) of
           None \<Rightarrow> (Err StakingError.InvalidAmount, s)
         | Some amount \<Rightarrow> (Ok (existing\<lparr>gk_amount := amount, gk_staked_at := now, gk_unlock_at := saturating_add u64_max now GUILD_STAKE_LOCK_SECS,
             gk_reward_debt := reward_share amount acc\<rparr>), s))
     | None \<Rightarrow> (Ok \<lparr>gk_alliance_id = alliance_id, gk_member = m, gk_asset_id = asset_id, gk_amount = amount_i, gk_staked_at = now,
         gk_unlock_at = saturating_add u64_max now GUILD_STAKE_LOCK_SECS, gk_reward_debt = reward_share amount_i acc\<rparr>, s))"

definition stake_to_guild :: "env \<Rightarrow> address \<Rightarrow> symbol \<Rightarrow> u32 \<Rightarrow> 'a stake_store_scheme \<Rightarrow> (StakingError, GuildStake) outcome \<times> 'a stake_store_scheme" where
  "stake_to_guild env m asset_id amount s =
    (if \<not> auth env m then (Panic, s)
     else if amount = 0 then (Err StakingError.InvalidAmount, s)
     else case get_player_alliance m s of
       None \<Rightarrow> (Err StakingError.NotGuildMember, s)
     | Some alliance_id \<Rightarrow>
     if (case guild_asset alliance_id s of None \<Rightarrow> False | Some existing \<Rightarrow> existing \<noteq> asset_id) then (Err StakingError.AssetMismatch, s)
     else let s = (if guild_asset alliance_id s = None then s\<lparr>guild_stake_asset := (guild_stake_asset s)(alliance_id \<mapsto> asset_id)\<rparr> else s) in
     and_then (debit_units m asset_id (int amount) s) (\<lambda>_ s.
     and_then (updated_stake env m alliance_id asset_id (int amount) s) (\<lambda>gk s.
     let s = s\<lparr>guild_stakes := (guild_stakes s)(m \<mapsto> gk)\<rparr>;
         s = s\<lparr>guild_stake_total := (guild_stake_total s)(alliance_id \<mapsto> sat (guild_total alliance_id s + int amount))\<rparr>;
         s = adjust_treasury alliance_id (int amount) s
     in (Ok gk, publish [SS ''stake'', SS ''guild''] [SA m, SU alliance_id, SS asset_id, SU amount] s))))"

definition fund_guild_rewards :: "env \<Rightarrow> address \<Rightarrow> u64 \<Rightarrow> u32 \<Rightarrow> 'a stake_store_scheme \<Rightarrow> (StakingError, unit) outcome \<times> 'a stake_store_scheme" where
  "fund_guild_rewards env funder alliance_id amount s =
    (if \<not> auth env funder then (Panic, s)
     else if amount = 0 then (Err StakingError.InvalidAmount, s)
     else case guild_asset alliance_id s of
       None \<Rightarrow> (Err StakingError.NoGuildStake, s)
     | Some asset \<Rightarrow>
     let total = guild_total alliance_id s in
     if total \<le> 0 then (Err StakingError.NoGuildStake, s)
     else and_then (debit_units funder asset (int amount) s) (\<lambda>_ s.
     case ck (int amount * REWARD_PRECISION) of
       None \<Rightarrow> (Err StakingError.InvalidAmount, s)
     | Some scaled \<Rightarrow>
     case ck (guild_acc alliance_id s + scaled sdiv total) of
       None \<Rightarrow> (Err StakingError.InvalidAmount, s)
     | Some acc \<Rightarrow>
     let s = s\<lparr>guild_acc_reward := (guild_acc_reward s)(alliance_id \<mapsto> acc)\<rparr>
     in (Ok (), publish [SS ''stake'', SS ''g_fund''] [SA funder, SU alliance_id, SU amount] s)))"

definition claim_guild_rewards :: "env \<Rightarrow> address \<Rightarrow> 'a stake_store_scheme \<Rightarrow> (StakingError, i128) outcome \<times> 'a stake_store_scheme" where
  "claim_guild_rewards env m s =
    (if \<not> auth env m then (Panic, s)
     else case get_guild_stake m s of
       None \<Rightarrow> (Err StakingError.NoGuildStake, s)
     | Some gk \<Rightarrow>
     let acc = guild_acc (gk_alliance_id gk) s; pending = pending_guild_reward gk acc in
     if pending = 0 then (Ok 0, s)
     else and_then (credit_units m (gk_asset_id gk) pending s) (\<lambda>_ s.
     let gk = gk\<lparr>gk_reward_debt := reward_share (gk_amount gk) acc\<rparr>
     in (Ok pending, s\<lparr>guild_stakes := (guild_stakes s)(m \<mapsto> gk)\<rparr>)))"

definition unstake_from_guild :: "env \<Rightarrow> address \<Rightarrow> 'a stake_store_scheme \<Rightarrow> (StakingError, i128 \<times> i128) outcome \<times> 'a stake_store_scheme" where
  "unstake_from_guild env m s =
    (if \<not> auth env m then (Panic, s)
     else case get_guild_stake m s of
       None \<Rightarrow> (Err StakingError.NoGuildStake, s)
     | Some gk \<Rightarrow>
     if timestamp env < gk_unlock_at gk then (Err StakingError.TimeLockActive, s)
     else let acc = guild_acc (gk_alliance_id gk) s; pending = pending_guild_reward gk acc;
              s = s\<lparr>guild_stakes := (guild_stakes s)(m := None)\<rparr>;
              s = s\<lparr>guild_stake_total := (guild_stake_total s)(gk_alliance_id gk \<mapsto> max (sat (guild_total (gk_alliance_id gk) s - gk_amount gk)) 0)\<rparr>;
              s = adjust_treasury (gk_alliance_id gk) (- gk_amount gk) s in
     and_then (credit_units m (gk_asset_id gk) (gk_amount gk) s) (\<lambda>_ s.
     and_then (credit_units m (gk_asset_id gk) pending s) (\<lambda>_ s.
     (Ok (gk_amount gk, pending), publish [SS ''stake'', SS ''g_out''] [SA m, SU (gk_alliance_id gk), SI (gk_amount gk), SI pending] s))))"

definition get_total_slashed :: "'a stake_store_scheme \<Rightarrow> i128" where
  "get_total_slashed s = unwrap_or (total_slashed s) 0"

definition slash_stake :: "env \<Rightarrow> address \<Rightarrow> address \<Rightarrow> u32 \<Rightarrow> 'a stake_store_scheme \<Rightarrow> (StakingError, i128) outcome \<times> 'a stake_store_scheme" where
  "slash_stake env admin staker slash_bps s =
    (if \<not> auth env admin then (Panic, s)
     else case inst_admin s of
       None \<Rightarrow> (Err StakingError.NotInitialized, s)
     | Some stored \<Rightarrow>
     if stored \<noteq> admin then (Err StakingError.Unauthorized, s)
     else if slash_bps = 0 \<or> int slash_bps > STAKE_BPS_DENOMINATOR then (Err StakingError.InvalidSlash, s)
     else case stakes s staker of
       None \<Rightarrow> (Err StakingError.NoActiveStake, s)
     | Some rec \<Rightarrow>
     let slashed = sat (sr_amount rec * int slash_bps) sdiv STAKE_BPS_DENOMINATOR in
     case ck (sr_amount rec - slashed) of
       None \<Rightarrow> (Panic, s)
     | Some left \<Rightarrow>
     let s = (if left = 0 then s\<lparr>stakes := (stakes s)(staker := None)\<rparr> else s\<lparr>stakes := (stakes s)(staker \<mapsto> rec\<lparr>sr_amount := left\<rparr>)\<rparr>);
         s = s\<lparr>total_staked := Some (max (sat (unwrap_or (total_staked s) 0 - slashed)) 0)\<rparr>;
         s = s\<lparr>total_slashed := Some (sat (get_total_slashed s + slashed))\<rparr>
     in (Ok slashed, publish [SS ''stake'', SS ''slash''] [SA staker, SI slashed, SU slash_bps] s))"

inductive stake_step :: "env \<Rightarrow> 'a stake_store_scheme \<Rightarrow> 'a stake_store_scheme \<Rightarrow> bool" for env where
  init: "commits (initialize env p q n l) s s' \<Longrightarrow> stake_step env s s'"
| tier_config: "commits (set_tier_config env p c) s s' \<Longrightarrow> stake_step env s s'"
| stake: "commits (stake env p n) s s' \<Longrightarrow> stake_step env s s'"
| stake_tier: "commits (stake_with_tier env p n t) s s' \<Longrightarrow> stake_step env s s'"
| unstake: "commits (unstake env p) s s' \<Longrightarrow> stake_step env s s'"
| unstake_v2: "commits (unstake_v2 env p) s s' \<Longrightarrow> stake_step env s s'"
| delegate: "commits (delegate env p q) s s' \<Longrightarrow> stake_step env s s'"
| undelegate: "commits (undelegate env p) s s' \<Longrightarrow> stake_step env s s'"
| slash: "commits (slash_stake env p q b) s s' \<Longrightarrow> stake_step env s s'"

section \<open>Governance stakes\<close>

definition amounts :: "(address \<rightharpoonup> StakeRecord) \<Rightarrow> address \<rightharpoonup> i128" where
  "amounts m = (\<lambda>a. map_option sr_amount (m a))"

definition stakes_ok :: "(address \<rightharpoonup> StakeRecord) \<Rightarrow> i128 \<Rightarrow> bool" where
  "stakes_ok m n \<longleftrightarrow> finite (dom m) \<and> (\<forall>a r. m a = Some r \<longrightarrow> sr_staker r = a \<and> 0 < sr_amount r) \<and> n = msum (amounts m) \<and> in_i128 n"

definition stake_inv :: "'a stake_store_scheme \<Rightarrow> bool" where
  "stake_inv s \<longleftrightarrow> stakes_ok (stakes s) (get_total_staked s)"

lemma publish_stake_store [simp]:
  "token_address (publish t d s) = token_address s" "min_stake (publish t d s) = min_stake s" "lock_duration_ledgers (publish t d s) = lock_duration_ledgers s"
  "stakes (publish t d s) = stakes s" "total_staked (publish t d s) = total_staked s" "stake_delegations (publish t d s) = stake_delegations s"
  "tier_config (publish t d s) = tier_config s" "staker_count (publish t d s) = staker_count s" "total_rewards_paid (publish t d s) = total_rewards_paid s"
  "stake_tier (publish t d s) = stake_tier s" "guild_stakes (publish t d s) = guild_stakes s" "guild_stake_total (publish t d s) = guild_stake_total s"
  "guild_stake_asset (publish t d s) = guild_stake_asset s" "guild_acc_reward (publish t d s) = guild_acc_reward s" "total_slashed (publish t d s) = total_slashed s"
  by (simp_all add: publish_def)

lemma amounts_simps: "amounts (m(a \<mapsto> r)) = (amounts m)(a \<mapsto> sr_amount r)" "amounts (m(a := None)) = (amounts m)(a := None)"
    "dom (amounts m) = dom m"
  by (auto simp: amounts_def dom_def)

lemma stakes_set:
  assumes ok: "stakes_ok m n" and r: "sr_staker r = a" "0 < sr_amount r"
    and n': "n' = n - unwrap_or (amounts m a) 0 + sr_amount r" "in_i128 n'"
  shows "stakes_ok (m(a \<mapsto> r)) n'"
  using msum_upd[of "amounts m" a "sr_amount r"] assms by (auto simp: stakes_ok_def amounts_simps)

lemma stakes_remove:
  assumes ok: "stakes_ok m n" and r: "m a = Some r"
  shows "stakes_ok (m(a := None)) (n - sr_amount r) \<and> 0 \<le> n - sr_amount r \<and> in_i128 (n - sr_amount r)"
proof -
  have fin: "finite (dom (amounts m))" using ok by (simp add: stakes_ok_def amounts_simps)
  have eq: "msum (amounts (m(a := None))) = n - sr_amount r"
    using msum_delete[OF fin, of a] ok r by (simp add: stakes_ok_def amounts_simps) (simp add: amounts_def)
  have "0 \<le> msum (amounts (m(a := None)))"
    unfolding msum_def by (rule sum_nonneg) (use ok in \<open>fastforce simp: stakes_ok_def amounts_def dom_def split: if_splits\<close>)
  moreover have "in_i128 n" "0 < sr_amount r" using ok r by (auto simp: stakes_ok_def)
  ultimately show ?thesis using eq ok by (auto simp: stakes_ok_def in_i128_def)
qed

lemma total_Ok [ok_rules]:
  "add_total n s = (Ok u, s') \<longleftrightarrow> in_i128 (get_total_staked s + n) \<and> s' = s\<lparr>total_staked := Some (get_total_staked s + n)\<rparr>"
  "sub_total n s = (Ok u, s') \<longleftrightarrow> in_i128 (get_total_staked s - n) \<and> s' = s\<lparr>total_staked := Some (get_total_staked s - n)\<rparr>"
  by (auto simp: add_total_def sub_total_def get_total_staked_def ok_rules)

lemma total_upd [simp]: "get_total_staked (s\<lparr>stakes := m\<rparr>) = get_total_staked s" "get_total_staked (s\<lparr>stake_tier := x\<rparr>) = get_total_staked s"
    "get_total_staked (s\<lparr>total_staked := Some n\<rparr>) = n" "get_total_staked (publish t d s) = get_total_staked s"
  by (simp_all add: get_total_staked_def)

lemma stake_Ok: "stake env p n s = (Ok u, s') \<Longrightarrow> stakes s p = None \<and> 0 < n \<and> in_i128 (get_total_staked s + n) \<and>
    stakes s' = (stakes s)(p \<mapsto> the (stakes s' p)) \<and> sr_staker (the (stakes s' p)) = p \<and> sr_amount (the (stakes s' p)) = n \<and>
    get_total_staked s' = get_total_staked s + n"
  by (auto simp: stake_def ok_rules Let_def split del: if_split)

lemma stake_tier_Ok: "stake_with_tier env p n tr s = (Ok u, s') \<Longrightarrow> stakes s p = None \<and> 0 < n \<and> in_i128 (get_total_staked s + n) \<and>
    stakes s' = (stakes s)(p \<mapsto> the (stakes s' p)) \<and> sr_staker (the (stakes s' p)) = p \<and> sr_amount (the (stakes s' p)) = n \<and>
    get_total_staked s' = get_total_staked s + n"
  by (auto simp: stake_with_tier_def ok_rules Let_def get_total_staked_def split del: if_split)

lemma unstake_Ok: "unstake env p s = (Ok n, s') \<Longrightarrow> \<exists>r. stakes s p = Some r \<and> n = sr_amount r \<and> sr_unlock_ledger r \<le> sequence env \<and>
    stakes s' = (stakes s)(p := None) \<and> get_total_staked s' = get_total_staked s - sr_amount r"
  by (auto simp: unstake_def ok_rules Let_def split del: if_split)

lemma unstake_v2_Ok:
  assumes "unstake_v2 env p s = (Ok w, s')"
  shows "\<exists>r. stakes s p = Some r \<and> stakes s' = (stakes s)(p := None) \<and> get_total_staked s' = get_total_staked s - sr_amount r"
proof -
  obtain r where r: "stakes s p = Some r" using assms by (cases "stakes s p") (auto simp: unstake_v2_def split: if_splits)
  show ?thesis using assms r
    by (cases "sequence env < sr_unlock_ledger r") (auto simp: unstake_v2_def ok_rules Let_def)
qed

lemma sat_pos: "0 \<le> x \<Longrightarrow> sat x = min i128_max x"
  by (simp add: sat_def)

lemma slash_amount:
  assumes "0 < n" "in_i128 n" "0 < b" "b \<le> (10000::int)"
  shows "0 \<le> sat (n * b) sdiv 10000 \<and> sat (n * b) sdiv 10000 \<le> n"
proof -
  have s: "0 \<le> sat (n * b)" "sat (n * b) \<le> n * b" using sat_pos[of "n * b"] assms by auto
  have "sat (n * b) div 10000 \<le> n * 10000 div 10000"
    by (rule zdiv_mono1) (use s assms in \<open>auto intro: order_trans[OF s(2)] mult_left_mono\<close>)
  then show ?thesis using s(1) by (simp add: sdiv_nonneg pos_imp_zdiv_nonneg_iff)
qed

lemma slash_Ok:
  assumes "slash_stake env p q b s = (Ok x, s')"
  shows "\<exists>r. stakes s q = Some r \<and> inst_admin s = Some p \<and> auth env p \<and> 0 < b \<and> b \<le> 10000 \<and> x = sat (sr_amount r * int b) sdiv STAKE_BPS_DENOMINATOR
    \<and> in_i128 (sr_amount r - x) \<and> get_total_staked s' = max (sat (get_total_staked s - x)) 0
    \<and> stakes s' = (if sr_amount r - x = 0 then (stakes s)(q := None) else (stakes s)(q \<mapsto> r\<lparr>sr_amount := sr_amount r - x\<rparr>))"
proof -
  obtain r where r: "stakes s q = Some r" using assms by (cases "stakes s q") (auto simp: slash_stake_def split: if_splits option.splits)
  show ?thesis using assms r by (auto simp: slash_stake_def ok_rules Let_def get_total_staked_def split del: if_split split: if_split_asm)
qed

lemma slash_inv:
  assumes inv: "stake_inv s" and ok: "slash_stake env p q b s = (Ok x, s')"
  shows "stake_inv s' \<and> (\<exists>r. stakes s q = Some r \<and> 0 \<le> x \<and> x \<le> sr_amount r \<and> get_total_staked s' = get_total_staked s - x)"
proof -
  obtain r where r: "stakes s q = Some r" and b: "0 < b" "b \<le> 10000" and x: "x = sat (sr_amount r * int b) sdiv STAKE_BPS_DENOMINATOR"
    and s': "in_i128 (sr_amount r - x)" "get_total_staked s' = max (sat (get_total_staked s - x)) 0"
      "stakes s' = (if sr_amount r - x = 0 then (stakes s)(q := None) else (stakes s)(q \<mapsto> r\<lparr>sr_amount := sr_amount r - x\<rparr>))"
    using slash_Ok[OF ok] by auto
  have ok: "stakes_ok (stakes s) (get_total_staked s)" using inv by (simp add: stake_inv_def)
  have pos: "0 < sr_amount r" "sr_staker r = q" "in_i128 (get_total_staked s)" using ok r by (auto simp: stakes_ok_def)
  have rem: "0 \<le> get_total_staked s - sr_amount r" using stakes_remove[OF ok r] by simp
  have n: "in_i128 (sr_amount r)" using pos rem by (simp add: in_i128_def)
  have xr: "0 \<le> x" "x \<le> sr_amount r" using slash_amount[OF pos(1) n, of "int b"] b x by simp_all
  have tot: "get_total_staked s' = get_total_staked s - x" "in_i128 (get_total_staked s - x)"
    using s'(2) xr rem pos sat_id[of "get_total_staked s - x"] by (auto simp: in_i128_def)
  have "stakes_ok (stakes s') (get_total_staked s')"
  proof (cases "sr_amount r - x = 0")
    case True
    then show ?thesis using stakes_remove[OF ok r] s'(3) tot by simp
  next
    case False
    then show ?thesis using stakes_set[OF ok, of "r\<lparr>sr_amount := sr_amount r - x\<rparr>" q "get_total_staked s - x"] s'(3) tot xr pos r
      by (simp add: amounts_def)
  qed
  then show ?thesis using r xr tot by (auto simp: stake_inv_def)
qed

lemma stake_step_inv: "stake_step env s s' \<Longrightarrow> stake_inv s \<Longrightarrow> stake_inv s'"
proof (induction rule: stake_step.induct)
  case (stake p n s s')
  then show ?case using stake_Ok[of env p n s _ s'] stakes_set[of "stakes s" _ "the (stakes s' p)" p]
    by (auto simp: commits_iff stake_inv_def amounts_def)
next
  case (stake_tier p n tr s s')
  then show ?case using stake_tier_Ok[of env p n tr s _ s'] stakes_set[of "stakes s" _ "the (stakes s' p)" p]
    by (auto simp: commits_iff stake_inv_def amounts_def)
next
  case (unstake p s s')
  then show ?case using stakes_remove[of "stakes s"] by (auto simp: commits_iff stake_inv_def dest!: unstake_Ok)
next
  case (unstake_v2 p s s')
  then show ?case using stakes_remove[of "stakes s"] by (auto simp: commits_iff stake_inv_def dest!: unstake_v2_Ok)
next
  case (slash p q b s s')
  then show ?case using slash_inv[of s env p q b] by (auto simp: commits_iff)
qed (auto simp: commits_iff initialize_def set_tier_config_def delegate_def undelegate_def ok_rules Let_def stake_inv_def get_total_staked_def split del: if_split)

interpretation staking: step_system "\<lambda>s s'. \<exists>env. stake_step env s s'" "stake_inv :: 'a stake_store_scheme \<Rightarrow> bool"
  by unfold_locales (auto intro: stake_step_inv)

text \<open>Nobody has staked yet.\<close>

definition no_stakes :: stake_store where
  "no_stakes = alliance_store.extend no_alliances
     \<lparr>token_address = Some (Addr 9), min_stake = Some 100, lock_duration_ledgers = Some 10, stakes = Map.empty, total_staked = None, stake_delegations = Map.empty,
      tier_config = Map.empty, staker_count = None, total_rewards_paid = None, stake_tier = Map.empty, guild_stakes = Map.empty, guild_stake_total = Map.empty,
      guild_stake_asset = Map.empty, guild_acc_reward = Map.empty, total_slashed = None\<rparr>"

lemma no_stakes_simps: "min_stake no_stakes = Some 100" "lock_duration_ledgers no_stakes = Some 10" "stakes no_stakes = Map.empty" "total_staked no_stakes = None"
    "stake_delegations no_stakes = Map.empty" "tier_config no_stakes = Map.empty" "guild_stakes no_stakes = Map.empty" "guild_stake_total no_stakes = Map.empty"
    "guild_stake_asset no_stakes = Map.empty" "guild_acc_reward no_stakes = Map.empty" "resource_bal no_stakes = [(Addr 2, ''gas'') \<mapsto> 100]"
    "member_alliance no_stakes = Map.empty" "alliance_treasury no_stakes = Map.empty"
  by (simp_all add: no_stakes_def alliance_store.defs no_alliances_simps)

lemma no_stakes_inv: "stake_inv no_stakes"
  by (simp add: stake_inv_def stakes_ok_def no_stakes_simps amounts_def get_total_staked_def in_i128_def msum_def)

section \<open>Properties of governance stakes\<close>

text \<open>The penalty rate that \<open>unstake_v2\<close> applies to a stake: that of its tier's configuration while it is locked, none afterwards.\<close>

definition exit_bps :: "env \<Rightarrow> StakeRecord \<Rightarrow> 'a stake_store_scheme \<Rightarrow> int" where
  "exit_bps env r s = (if sequence env < sr_unlock_ledger r then int (tc_early_withdraw_penalty_bps (get_tier_config (sr_tier r) s)) else 0)"

lemma unstake_v2_pays:
  assumes "stakes_ok (stakes s) (get_total_staked s)" and r: "stakes s a = Some r" and au: "auth env a"
  shows "if in_i128 (sr_amount r * exit_bps env r s)
    then \<exists>w u. unstake_v2 env a s = (Ok w, u) \<and> ew_penalty w = sr_amount r * exit_bps env r s div 10000
      \<and> ew_amount_returned w = sr_amount r - ew_penalty w \<and> stakes u = (stakes s)(a := None) \<and> get_total_staked u = get_total_staked s - sr_amount r
    else fst (unstake_v2 env a s) = Panic"
proof -
  let ?n = "sr_amount r" and ?b = "int (tc_early_withdraw_penalty_bps (get_tier_config (sr_tier r) s))"
  have n: "0 < ?n" "in_i128 (get_total_staked s - ?n)" "0 \<le> get_total_staked s - ?n" "in_i128 (get_total_staked s)"
    using stakes_remove[OF assms(1) r] assms(1)[unfolded stakes_ok_def] r by blast+
  have sub: "sub_total ?n (s\<lparr>stakes := (stakes s)(a := None)\<rparr>) = (Ok (), s\<lparr>stakes := (stakes s)(a := None), total_staked := Some (get_total_staked s - ?n)\<rparr>)"
    using n(2) by (simp add: sub_total_def get_total_staked_def ck_def)
  have "in_i128 (?n - ?n * ?b div 10000)" if b: "in_i128 (?n * ?b)"
  proof -
    have "0 \<le> ?n * ?b" using n(1) by simp
    then have "0 \<le> ?n * ?b div 10000" "?n * ?b div 10000 \<le> ?n * ?b" by linarith+
    with b n show ?thesis by (simp add: in_i128_def)
  qed
  moreover have "in_i128 0" by (simp add: in_i128_def)
  ultimately show ?thesis
    using r au n sub by (auto simp: exit_bps_def unstake_v2_def calculate_early_withdraw_penalty_def ck_def sdiv_nonneg get_total_staked_def Let_def)
qed

text \<open>C21. Stakes add up and pay back. After any run of staking operations the total is the sum of all stakes, every stake is
  positive. There are two ways out, both signed by the staker: \<open>unstake\<close> pays an unlocked stake back in full and refuses a locked one;
  \<open>unstake_v2\<close> also pays an unlocked stake in full and a locked one early, less exactly the penalty of its tier rounded down, or traps when
  the product overflows. Both remove the stake from the total. Neither asks for open votes or adds a yield, as the comment of \<open>unstake\<close>
  promises. Voting power is never more than the stake, and none in the ledger in which the stake was made.\<close>

theorem stakes_add_up:
  fixes s t :: "'a stake_store_scheme"
  assumes "(\<lambda>s s'. \<exists>env. stake_step env s s')\<^sup>*\<^sup>* s t" and "stake_inv s"
  shows "get_total_staked t = msum (amounts (stakes t))
    \<and> (\<forall>a r. get_stake a t = Some r \<longrightarrow> 0 < sr_amount r \<and> sr_amount r \<le> get_total_staked t
        \<and> (sr_unlock_ledger r \<le> sequence env \<and> auth env a \<longrightarrow>
            (\<exists>u. unstake env a t = (Ok (sr_amount r), u) \<and> get_stake a u = None \<and> get_total_staked u = get_total_staked t - sr_amount r))
        \<and> (sequence env < sr_unlock_ledger r \<longrightarrow> unstake env a t = (if auth env a then Err StakingError.TimeLockActive else Panic, t))
        \<and> (auth env a \<and> in_i128 (sr_amount r * exit_bps env r t) \<longrightarrow>
            (\<exists>w u. unstake_v2 env a t = (Ok w, u) \<and> ew_penalty w = sr_amount r * exit_bps env r t div 10000
               \<and> ew_amount_returned w = sr_amount r - ew_penalty w \<and> get_stake a u = None \<and> get_total_staked u = get_total_staked t - sr_amount r))
        \<and> (\<not> (auth env a \<and> in_i128 (sr_amount r * exit_bps env r t)) \<longrightarrow> fst (unstake_v2 env a t) = Panic))
    \<and> (get_voting_power env a t \<noteq> 0 \<longrightarrow> (\<exists>r. get_stake a t = Some r \<and> get_voting_power env a t = sr_amount r \<and> sr_created_ledger r < sequence env))"
proof (intro conjI allI impI; (elim conjE)?)
  have ok: "stakes_ok (stakes t) (get_total_staked t)" using staking.run_inv[OF assms] by (simp add: stake_inv_def)
  then show "get_total_staked t = msum (amounts (stakes t))" by (simp add: stakes_ok_def)
  fix a r assume r: "get_stake a t = Some r"
  then have r': "stakes t a = Some r" by (simp add: get_stake_def)
  note rem = stakes_remove[OF ok r']
  show "0 < sr_amount r" using ok r' by (simp add: stakes_ok_def)
  show "sr_amount r \<le> get_total_staked t" using rem by simp
  show "sequence env < sr_unlock_ledger r \<Longrightarrow> unstake env a t = (if auth env a then Err StakingError.TimeLockActive else Panic, t)"
    using r' by (simp add: unstake_def)
  show "\<exists>u. unstake env a t = (Ok (sr_amount r), u) \<and> get_stake a u = None \<and> get_total_staked u = get_total_staked t - sr_amount r"
    if "sr_unlock_ledger r \<le> sequence env" "auth env a"
    using that r' rem by (auto simp: unstake_def sub_total_def get_total_staked_def get_stake_def ck_def)
  note v2 = unstake_v2_pays[OF ok r', of env]
  show "\<exists>w u. unstake_v2 env a t = (Ok w, u) \<and> ew_penalty w = sr_amount r * exit_bps env r t div 10000
      \<and> ew_amount_returned w = sr_amount r - ew_penalty w \<and> get_stake a u = None \<and> get_total_staked u = get_total_staked t - sr_amount r"
    if "auth env a" "in_i128 (sr_amount r * exit_bps env r t)"
    using v2[OF that(1)] that(2) by (fastforce simp: get_stake_def)
  show "fst (unstake_v2 env a t) = Panic" if "\<not> (auth env a \<and> in_i128 (sr_amount r * exit_bps env r t))"
  proof (cases "auth env a")
    case True
    with v2 that show ?thesis by simp
  qed (simp add: unstake_v2_def)
next
  assume "get_voting_power env a t \<noteq> 0"
  then show "\<exists>r. get_stake a t = Some r \<and> get_voting_power env a t = sr_amount r \<and> sr_created_ledger r < sequence env"
    by (auto simp: get_voting_power_def get_stake_def split: if_splits option.splits)
qed

theorem stakes_add_up_witness:
  "\<exists>t. stake (signed_at 5 7) (Addr 2) 500 no_stakes = (Ok (), t) \<and> (\<exists>u. unstake (signed_at 5 17) (Addr 2) t = (Ok 500, u) \<and> get_total_staked u = 0)"
proof -
  let ?t = "snd (stake (signed_at 5 7) (Addr 2) 500 no_stakes)"
  have ok: "stake (signed_at 5 7) (Addr 2) 500 no_stakes = (Ok (), ?t)" and rec: "get_stake (Addr 2) ?t =
      Some \<lparr>sr_staker = Addr 2, sr_amount = 500, sr_created_ledger = 7, sr_unlock_ledger = 17, sr_tier = Flexible, sr_apy_bps = 500\<rparr>" and tot: "get_total_staked ?t = 500"
    by (simp_all add: stake_def no_stakes_simps add_total_def get_stake_def get_total_staked_def Let_def checked_add_def ck_def in_i128_def)
  have run: "(\<lambda>s s'. \<exists>env. stake_step env s s')\<^sup>*\<^sup>* no_stakes ?t"
    using stake_step.stake commitsI[where f = "stake (signed_at 5 7) (Addr 2) 500", OF ok] by blast
  show ?thesis using stakes_add_up[OF run no_stakes_inv, of "signed_at 5 17"] rec tot ok by fastforce
qed

end
