(* ===== verification/Guild_Rewards.thy ===== *)
theory Guild_Rewards
  imports Staking
begin

text \<open>
  What the guild stakes of \<open>staking.rs\<close> owe and pay. Rewards are shared through an accumulated reward per unit, rounded
  down; a stake remembers the share it had when it was made, rounded down as well. Both roundings together decide whether
  more can be paid out than was put in.
\<close>

section \<open>The accounts of one guild\<close>

definition staked_in :: "u64 \<Rightarrow> (address \<rightharpoonup> GuildStake) \<Rightarrow> address \<rightharpoonup> int" where
  "staked_in a gs = (\<lambda>m. case gs m of None \<Rightarrow> None | Some gk \<Rightarrow> if gk_alliance_id gk = a then Some (gk_amount gk) else None)"

text \<open>What a stake has earned and not been paid, in units of one over the reward precision.\<close>

definition owed :: "int \<Rightarrow> GuildStake \<Rightarrow> int" where
  "owed acc gk = sat (gk_amount gk * acc) - REWARD_PRECISION * gk_reward_debt gk"

definition owed_in :: "u64 \<Rightarrow> int \<Rightarrow> (address \<rightharpoonup> GuildStake) \<Rightarrow> address \<rightharpoonup> int" where
  "owed_in a acc gs = (\<lambda>m. case gs m of None \<Rightarrow> None | Some gk \<Rightarrow> if gk_alliance_id gk = a then Some (owed acc gk) else None)"

definition pending_in :: "u64 \<Rightarrow> int \<Rightarrow> (address \<rightharpoonup> GuildStake) \<Rightarrow> address \<rightharpoonup> int" where
  "pending_in a acc gs = (\<lambda>m. case gs m of None \<Rightarrow> None | Some gk \<Rightarrow> if gk_alliance_id gk = a then Some (pending_guild_reward gk acc) else None)"

definition stake_ok :: "int \<Rightarrow> GuildStake \<Rightarrow> bool" where
  "stake_ok acc gk \<longleftrightarrow> 0 < gk_amount gk \<and> 0 \<le> gk_reward_debt gk \<and> 0 \<le> owed acc gk"

text \<open>\<open>funded\<close>, \<open>paid\<close> and \<open>deposits\<close> count what happened so far.\<close>

definition guild_ok :: "u64 \<Rightarrow> int \<Rightarrow> int \<Rightarrow> nat \<Rightarrow> (address \<rightharpoonup> GuildStake) \<Rightarrow> int \<Rightarrow> int \<Rightarrow> bool" where
  "guild_ok a funded paid deposits gs tot acc \<longleftrightarrow> finite (dom gs) \<and> 0 \<le> acc \<and> (\<forall>m gk. gs m = Some gk \<and> gk_alliance_id gk = a \<longrightarrow> stake_ok acc gk)
     \<and> tot = msum (staked_in a gs) \<and> tot \<le> int deposits * int u32_max
     \<and> REWARD_PRECISION * paid + msum (owed_in a acc gs) \<le> REWARD_PRECISION * (funded + int deposits)"

section \<open>The accounts under each change\<close>

lemma in_finite: "finite (dom gs) \<Longrightarrow> finite (dom (staked_in a gs))" "finite (dom gs) \<Longrightarrow> finite (dom (owed_in a acc gs))"
    "finite (dom gs) \<Longrightarrow> finite (dom (pending_in a acc gs))"
  by (auto elim!: finite_subset[rotated] simp: staked_in_def owed_in_def pending_in_def split: option.splits if_splits)

lemma in_upd: "staked_in a (gs(m \<mapsto> gk)) = (staked_in a gs)(m := (if gk_alliance_id gk = a then Some (gk_amount gk) else None))"
    "owed_in a acc (gs(m \<mapsto> gk)) = (owed_in a acc gs)(m := (if gk_alliance_id gk = a then Some (owed acc gk) else None))"
    "staked_in a (gs(m := None)) = (staked_in a gs)(m := None)" "owed_in a acc (gs(m := None)) = (owed_in a acc gs)(m := None)"
  by (auto simp: staked_in_def owed_in_def)

lemma reward_share_div: "0 \<le> n \<Longrightarrow> 0 \<le> acc \<Longrightarrow> reward_share n acc = sat (n * acc) div REWARD_PRECISION"
  by (simp add: reward_share_def sdiv_nonneg sat_nonneg)

text \<open>A stake whose debt is its present share is owed less than one unit.\<close>

lemma owed_fresh:
  assumes "0 \<le> gk_amount gk" "0 \<le> acc" "gk_reward_debt gk = reward_share (gk_amount gk) acc"
  shows "0 \<le> gk_reward_debt gk \<and> 0 \<le> owed acc gk \<and> owed acc gk < REWARD_PRECISION"
proof -
  have eq: "owed acc gk = sat (gk_amount gk * acc) mod REWARD_PRECISION"
    using assms reward_share_div[OF assms(1,2)] minus_mult_div_eq_mod[of "sat (gk_amount gk * acc)" REWARD_PRECISION] by (simp add: owed_def)
  have "0 \<le> sat (gk_amount gk * acc)" using assms by (simp add: sat_nonneg)
  then have "0 \<le> gk_reward_debt gk" using assms reward_share_div[OF assms(1,2)] by (simp add: pos_imp_zdiv_nonneg_iff)
  then show ?thesis by (simp add: eq)
qed

lemma owed_div: "owed acc gk div REWARD_PRECISION = sat (gk_amount gk * acc) div REWARD_PRECISION - gk_reward_debt gk"
  by (simp add: owed_def diff_conv_add_uminus del: add_uminus_conv_diff flip: mult_minus_right)

text \<open>What is paid is what is owed, rounded down.\<close>

lemma pending_owed:
  assumes "stake_ok acc gk" "0 \<le> acc"
  shows "0 \<le> pending_guild_reward gk acc \<and> pending_guild_reward gk acc = owed acc gk div REWARD_PRECISION"
proof -
  let ?x = "sat (gk_amount gk * acc)"
  have x: "0 \<le> ?x" "in_i128 ?x" using assms by (simp_all add: stake_ok_def sat_nonneg)
  have share: "reward_share (gk_amount gk) acc = ?x div REWARD_PRECISION" using assms by (intro reward_share_div) (simp_all add: stake_ok_def)
  note d = owed_div[of acc gk]
  have "0 \<le> owed acc gk div REWARD_PRECISION" using assms by (simp add: stake_ok_def pos_imp_zdiv_nonneg_iff)
  moreover have "?x div REWARD_PRECISION \<le> ?x" using x zdiv_mono2[of ?x 1 REWARD_PRECISION] by simp
  ultimately have "in_i128 (?x div REWARD_PRECISION - gk_reward_debt gk)" using x assms d by (auto simp: in_i128_def stake_ok_def)
  then show ?thesis using d share \<open>0 \<le> owed acc gk div REWARD_PRECISION\<close> by (simp add: pending_guild_reward_def sat_id)
qed

lemma staked_pos: "guild_ok a F Q D gs tot acc \<Longrightarrow> staked_in a gs m = Some n \<Longrightarrow> 0 \<le> n"
  by (fastforce simp: guild_ok_def stake_ok_def staked_in_def split: option.splits if_splits)

lemma guild_set:
  assumes ok: "guild_ok a F Q D gs tot acc" and gk: "gk_alliance_id gk = a" "stake_ok acc gk"
    and tot': "tot' = tot - unwrap_or (staked_in a gs m) 0 + gk_amount gk" "tot' \<le> int (D + d) * int u32_max"
    and pay: "REWARD_PRECISION * p + owed acc gk \<le> unwrap_or (owed_in a acc gs m) 0 + REWARD_PRECISION * int d"
  shows "guild_ok a F (Q + p) (D + d) (gs(m \<mapsto> gk)) tot' acc"
proof -
  have fin: "finite (dom gs)" using ok by (simp add: guild_ok_def)
  have t: "msum (staked_in a (gs(m \<mapsto> gk))) + unwrap_or (staked_in a gs m) 0 = msum (staked_in a gs) + gk_amount gk"
    using msum_upd[OF in_finite(1)[OF fin]] by (simp add: in_upd gk)
  have w: "msum (owed_in a acc (gs(m \<mapsto> gk))) + unwrap_or (owed_in a acc gs m) 0 = msum (owed_in a acc gs) + owed acc gk"
    using msum_upd[OF in_finite(2)[OF fin]] by (simp add: in_upd gk)
  have "REWARD_PRECISION * (Q + p) + msum (owed_in a acc (gs(m \<mapsto> gk))) \<le> REWARD_PRECISION * (F + int (D + d))"
    using ok w pay unfolding guild_ok_def distrib_left of_nat_add by linarith
  then show ?thesis using ok gk t tot' fin unfolding guild_ok_def by auto
qed

lemma guild_remove:
  assumes ok: "guild_ok a F Q D gs tot acc" and gk: "gs m = Some gk" "gk_alliance_id gk = a"
    and pay: "REWARD_PRECISION * p \<le> owed acc gk"
  shows "guild_ok a F (Q + p) D (gs(m := None)) (tot - gk_amount gk) acc \<and> 0 \<le> tot - gk_amount gk"
proof -
  have fin: "finite (dom gs)" using ok by (simp add: guild_ok_def)
  have t: "msum (staked_in a (gs(m := None))) + gk_amount gk = msum (staked_in a gs)"
    using msum_delete[OF in_finite(1)[OF fin], of a m] gk by (simp add: in_upd) (simp add: staked_in_def)
  have w: "msum (owed_in a acc (gs(m := None))) + owed acc gk = msum (owed_in a acc gs)"
    using msum_delete[OF in_finite(2)[OF fin], of a acc m] gk by (simp add: in_upd) (simp add: owed_in_def)
  have "0 \<le> msum (staked_in a (gs(m := None)))" unfolding msum_def
    by (rule sum_nonneg) (use staked_pos[OF ok] in \<open>fastforce simp: in_upd split: if_splits\<close>)
  moreover have "0 < gk_amount gk" using ok gk by (auto simp: guild_ok_def stake_ok_def)
  moreover have "REWARD_PRECISION * (Q + p) + msum (owed_in a acc (gs(m := None))) \<le> REWARD_PRECISION * (F + int D)"
    using ok w pay unfolding guild_ok_def distrib_left by linarith
  ultimately show ?thesis using ok t unfolding guild_ok_def by auto
qed

text \<open>The sums over the stakes of one guild.\<close>

definition guild_members :: "u64 \<Rightarrow> (address \<rightharpoonup> GuildStake) \<Rightarrow> address set" where
  "guild_members a gs = {m. \<exists>gk. gs m = Some gk \<and> gk_alliance_id gk = a}"

lemma in_sum: "msum (staked_in a gs) = (\<Sum>m\<in>guild_members a gs. gk_amount (the (gs m)))"
    "msum (owed_in a acc gs) = (\<Sum>m\<in>guild_members a gs. owed acc (the (gs m)))"
    "msum (pending_in a acc gs) = (\<Sum>m\<in>guild_members a gs. pending_guild_reward (the (gs m)) acc)"
  unfolding msum_def staked_in_def owed_in_def pending_in_def guild_members_def
  by (rule sum.cong; force split: option.splits if_splits)+

lemma sat_lipschitz: "0 \<le> x \<Longrightarrow> 0 \<le> y \<Longrightarrow> sat x \<le> sat (x + y) \<and> sat (x + y) \<le> sat x + y"
  by (auto simp: sat_pos min_def)

lemma mul_div_le: "0 < b \<Longrightarrow> b * (a div b) \<le> (a::int)"
  using mult_div_mod_eq[of b a] pos_mod_sign[of b a] by linarith

text \<open>Funding raises what every stake is owed by its share, and all shares together by at most what was funded.\<close>

lemma guild_fund:
  assumes ok: "guild_ok a F Q D gs tot acc" and tot: "0 < tot" and n: "0 \<le> n"
  shows "guild_ok a (F + n) Q D gs tot (acc + n * REWARD_PRECISION div tot)"
proof -
  let ?d = "n * REWARD_PRECISION div tot" let ?A = "guild_members a gs"
  have d: "0 \<le> ?d" "tot * ?d \<le> n * REWARD_PRECISION" using tot n by (simp_all add: pos_imp_zdiv_nonneg_iff mul_div_le)
  have st: "stake_ok acc (the (gs m))" if "m \<in> ?A" for m using ok that by (auto simp: guild_ok_def guild_members_def)
  have acc: "0 \<le> acc" using ok by (simp add: guild_ok_def)
  have one: "owed acc gk \<le> owed (acc + ?d) gk \<and> owed (acc + ?d) gk \<le> owed acc gk + gk_amount gk * ?d" if "stake_ok acc gk" for gk
    using sat_lipschitz[of "gk_amount gk * acc" "gk_amount gk * ?d"] that acc d(1) by (simp add: owed_def stake_ok_def distrib_left)
  have "msum (owed_in a (acc + ?d) gs) \<le> (\<Sum>m\<in>?A. owed acc (the (gs m)) + gk_amount (the (gs m)) * ?d)"
    unfolding in_sum by (rule sum_mono) (use one st in blast)
  also have "\<dots> = msum (owed_in a acc gs) + msum (staked_in a gs) * ?d"
    by (simp add: in_sum sum.distrib sum_distrib_right)
  also have "\<dots> \<le> msum (owed_in a acc gs) + n * REWARD_PRECISION" using d(2) ok by (simp add: guild_ok_def)
  finally have "REWARD_PRECISION * Q + msum (owed_in a (acc + ?d) gs) \<le> REWARD_PRECISION * (F + n + int D)"
    using ok unfolding guild_ok_def by (simp add: algebra_simps)
  moreover have "stake_ok (acc + ?d) gk" if "stake_ok acc gk" for gk using one[OF that] that by (auto simp: stake_ok_def)
  ultimately show ?thesis using ok d(1) by (auto simp: guild_ok_def)
qed

text \<open>Together the stakes cannot be paid more than they are owed.\<close>

lemma guild_solvent:
  assumes "guild_ok a F Q D gs tot acc"
  shows "Q + msum (pending_in a acc gs) \<le> F + int D"
proof -
  have "REWARD_PRECISION * pending_guild_reward gk acc \<le> owed acc gk" if "stake_ok acc gk" for gk
    using pending_owed[OF that] assms by (simp add: guild_ok_def mul_div_le)
  then have "REWARD_PRECISION * msum (pending_in a acc gs) \<le> msum (owed_in a acc gs)"
    unfolding in_sum sum_distrib_left by (intro sum_mono) (use assms in \<open>auto simp: guild_ok_def guild_members_def\<close>)
  then have "REWARD_PRECISION * (Q + msum (pending_in a acc gs)) \<le> REWARD_PRECISION * (F + int D)"
    using assms unfolding guild_ok_def distrib_left by linarith
  then show ?thesis by simp
qed

section \<open>Calls\<close>

text \<open>A committed call with what it funded, paid as rewards and deposited, per guild. Any call that does not touch the guild
  stakes may come in between.\<close>

type_synonym guild_label = "(u64 \<Rightarrow> int) \<times> (u64 \<Rightarrow> int) \<times> (u64 \<Rightarrow> nat)"

inductive guild_step :: "guild_label \<Rightarrow> 'a stake_store_scheme \<Rightarrow> 'a stake_store_scheme \<Rightarrow> bool" where
  deposit: "stake_to_guild env m x n s = (Ok gk, s') \<Longrightarrow>
    guild_step (\<lambda>_. 0, (\<lambda>_. 0)(gk_alliance_id gk := case get_guild_stake m s of None \<Rightarrow> 0 | Some g \<Rightarrow> pending_guild_reward g (guild_acc (gk_alliance_id gk) s)),
      (\<lambda>_. 0)(gk_alliance_id gk := 1)) s s'"
| fund: "fund_guild_rewards env f a n s = (Ok (), s') \<Longrightarrow> guild_step ((\<lambda>_. 0)(a := int n), \<lambda>_. 0, \<lambda>_. 0) s s'"
| claim: "claim_guild_rewards env m s = (Ok r, s') \<Longrightarrow> get_guild_stake m s = Some gk \<Longrightarrow>
    guild_step (\<lambda>_. 0, (\<lambda>_. 0)(gk_alliance_id gk := r), \<lambda>_. 0) s s'"
| exit: "unstake_from_guild env m s = (Ok (n, r), s') \<Longrightarrow> get_guild_stake m s = Some gk \<Longrightarrow>
    guild_step (\<lambda>_. 0, (\<lambda>_. 0)(gk_alliance_id gk := r), \<lambda>_. 0) s s'"
| other: "guild_stakes s' = guild_stakes s \<Longrightarrow> guild_stake_total s' = guild_stake_total s \<Longrightarrow> guild_acc_reward s' = guild_acc_reward s \<Longrightarrow>
    guild_step (\<lambda>_. 0, \<lambda>_. 0, \<lambda>_. 0) s s'"

definition guild_view :: "'a stake_store_scheme \<Rightarrow> (address \<rightharpoonup> GuildStake) \<times> (u64 \<rightharpoonup> i128) \<times> (u64 \<rightharpoonup> i128)" where
  "guild_view s = (guild_stakes s, guild_stake_total s, guild_acc_reward s)"

lemma guild_view_upd [simp]: "guild_view (publish t d s) = guild_view s" "guild_view (adjust_treasury a x s) = guild_view s"
    "guild_view (s\<lparr>resource_bal := b\<rparr>) = guild_view s" "guild_view (s\<lparr>guild_stake_asset := g\<rparr>) = guild_view s"
  by (simp_all add: guild_view_def adjust_treasury_def)

lemma units_Ok: "debit_units p x n s = (Ok u, s') \<Longrightarrow> 0 \<le> n \<and> n \<le> int u32_max \<and> guild_view s' = guild_view s"
    "credit_units p x n s = (Ok u, s') \<Longrightarrow> guild_view s' = guild_view s"
  by (auto simp: debit_units_def credit_units_def debit_resource_balance_def credit_resource_balance_def ok_rules split: if_splits)

lemma guild_deposit_Ok:
  assumes "stake_to_guild env m x n s = (Ok gk, s')"
  shows "0 < n \<and> n \<le> u32_max \<and> (case guild_stakes s m of None \<Rightarrow> gk_amount gk = int n
        | Some g \<Rightarrow> gk_alliance_id g = gk_alliance_id gk \<and> gk_amount gk = gk_amount g + int n)
    \<and> gk_reward_debt gk = reward_share (gk_amount gk) (guild_acc (gk_alliance_id gk) s)
    \<and> guild_view s' = ((guild_stakes s)(m \<mapsto> gk), (guild_stake_total s)(gk_alliance_id gk \<mapsto> sat (guild_total (gk_alliance_id gk) s + int n)), guild_acc_reward s)"
proof -
  from assms obtain a t1 t2 where n: "0 < n" and d: "debit_units m x (int n) (if guild_asset a s = None then s\<lparr>guild_stake_asset := (guild_stake_asset s)(a \<mapsto> x)\<rparr> else s) = (Ok (), t1)"
      and u: "updated_stake env m a x (int n) t1 = (Ok gk, t2)"
      and s': "guild_view s' = ((guild_stakes t2)(m \<mapsto> gk), (guild_stake_total t2)(a \<mapsto> sat (guild_total a t2 + int n)), guild_acc_reward t2)"
    by (auto simp: stake_to_guild_def ok_rules Let_def split del: if_split) (simp add: guild_view_def guild_total_def)
  have n': "n \<le> u32_max" and t1: "guild_view t1 = guild_view s" using units_Ok(1)[OF d] by (auto split: if_splits)
  have "gk_alliance_id gk = a \<and> guild_view t2 = guild_view t1 \<and> (case guild_stakes t1 m of None \<Rightarrow> gk_amount gk = int n
        | Some g \<Rightarrow> gk_alliance_id g = a \<and> gk_amount gk = gk_amount g + int n) \<and> gk_reward_debt gk = reward_share (gk_amount gk) (guild_acc a t1)"
  proof (cases "guild_stakes t1 m")
    case None
    then show ?thesis using u by (auto simp: updated_stake_def get_guild_stake_def Let_def)
  next
    case (Some g)
    then show ?thesis using u by (auto simp: updated_stake_def get_guild_stake_def ok_rules Let_def dest!: units_Ok(2) split: if_splits)
  qed
  then show ?thesis using n n' t1 s' by (auto simp: guild_view_def guild_total_def guild_acc_def)
qed

lemma fund_Ok:
  assumes "fund_guild_rewards env f a n s = (Ok u, s')"
  shows "0 < guild_total a s \<and> guild_view s' = (guild_stakes s, guild_stake_total s, (guild_acc_reward s)(a \<mapsto> guild_acc a s + int n * REWARD_PRECISION div guild_total a s))"
proof -
  obtain x t where p: "0 < guild_total a s" and d: "debit_units f x (int n) s = (Ok (), t)"
      and s': "guild_view s' = (guild_stakes t, guild_stake_total t, (guild_acc_reward t)(a \<mapsto> guild_acc a t + (int n * REWARD_PRECISION) sdiv guild_total a s))"
    using assms by (auto simp: fund_guild_rewards_def ok_rules Let_def not_le split del: if_split) (simp add: guild_view_def)
  have "guild_view t = guild_view s" using units_Ok(1)[OF d] by simp
  then show ?thesis using p s' sdiv_nonneg[of "int n * REWARD_PRECISION" "guild_total a s"] by (simp add: guild_view_def guild_acc_def)
qed

lemma guild_claim_Ok:
  assumes "claim_guild_rewards env m s = (Ok r, s')" "guild_stakes s m = Some gk"
  shows "r = pending_guild_reward gk (guild_acc (gk_alliance_id gk) s) \<and> guild_view s' = (if r = 0 then guild_view s
    else ((guild_stakes s)(m \<mapsto> gk\<lparr>gk_reward_debt := reward_share (gk_amount gk) (guild_acc (gk_alliance_id gk) s)\<rparr>), guild_stake_total s, guild_acc_reward s))"
  using assms by (auto simp: claim_guild_rewards_def get_guild_stake_def ok_rules Let_def guild_view_def dest!: units_Ok(2) split: if_splits)

lemma exit_Ok:
  assumes ok: "unstake_from_guild env m s = (Ok (n, r), s')" and gk: "guild_stakes s m = Some gk"
  shows "n = gk_amount gk \<and> r = pending_guild_reward gk (guild_acc (gk_alliance_id gk) s) \<and>
    guild_view s' = ((guild_stakes s)(m := None), (guild_stake_total s)(gk_alliance_id gk \<mapsto> max (sat (guild_total (gk_alliance_id gk) s - gk_amount gk)) 0), guild_acc_reward s)"
proof -
  let ?a = "gk_alliance_id gk"
  let ?s = "adjust_treasury ?a (- gk_amount gk) (s\<lparr>guild_stakes := (guild_stakes s)(m := None),
      guild_stake_total := (guild_stake_total s)(?a \<mapsto> max (sat (guild_total ?a s - gk_amount gk)) 0)\<rparr>)"
  obtain t u where c: "credit_units m (gk_asset_id gk) (gk_amount gk) ?s = (Ok (), t)"
      "credit_units m (gk_asset_id gk) (pending_guild_reward gk (guild_acc ?a s)) t = (Ok (), u)"
    and s': "n = gk_amount gk" "r = pending_guild_reward gk (guild_acc ?a s)" "guild_view s' = guild_view u"
    using ok gk by (auto simp: unstake_from_guild_def get_guild_stake_def ok_rules Let_def guild_total_def split del: if_split)
  show ?thesis using s' units_Ok(2)[OF c(1)] units_Ok(2)[OF c(2)] by (simp add: guild_view_def adjust_treasury_def)
qed

text \<open>The accounts of guild \<open>a\<close> in a state.\<close>

definition guild_state :: "u64 \<Rightarrow> int \<Rightarrow> int \<Rightarrow> nat \<Rightarrow> 'a stake_store_scheme \<Rightarrow> bool" where
  "guild_state a F Q D s \<longleftrightarrow> guild_ok a F Q D (guild_stakes s) (guild_total a s) (guild_acc a s)"

lemma guild_state_view: "guild_view s' = (gs, tt, ac) \<Longrightarrow> guild_state a F Q D s' \<longleftrightarrow> guild_ok a F Q D gs (unwrap_or (tt a) 0) (unwrap_or (ac a) 0)"
  by (simp add: guild_state_def guild_view_def guild_total_def guild_acc_def)

text \<open>The stakes of another guild are not affected.\<close>

lemma guild_elsewhere:
  assumes "guild_ok a F Q D gs tot acc" "gs m = None \<or> (\<exists>g. gs m = Some g \<and> gk_alliance_id g \<noteq> a)"
    "v = None \<or> (\<exists>g. v = Some g \<and> gk_alliance_id g \<noteq> a)"
  shows "guild_ok a F Q D (gs(m := v)) tot acc"
proof -
  have eq: "staked_in a (gs(m := v)) = staked_in a gs" "owed_in a acc (gs(m := v)) = owed_in a acc gs"
    using assms(2,3) by (auto simp: staked_in_def owed_in_def fun_eq_iff)
  have "finite (dom (gs(m := v)))" using assms(1) finite_subset[of "dom (gs(m := v))" "insert m (dom gs)"] by (auto simp: guild_ok_def split: if_splits)
  then show ?thesis using assms(1,3) unfolding guild_ok_def eq by (auto split: if_splits)
qed

lemma deposit_ok:
  assumes ok: "stake_to_guild env m x n s = (Ok gk, s')" and inv: "guild_state a F Q D s" and D: "D \<le> 2 ^ 90"
  shows "guild_state a F (Q + ((\<lambda>_. 0)(gk_alliance_id gk := case get_guild_stake m s of None \<Rightarrow> 0 | Some g \<Rightarrow> pending_guild_reward g (guild_acc (gk_alliance_id gk) s))) a)
    (D + ((\<lambda>_. 0)(gk_alliance_id gk := 1)) a) s'"
proof -
  note d = guild_deposit_Ok[OF ok]
  have v: "guild_view s' = ((guild_stakes s)(m \<mapsto> gk), (guild_stake_total s)(gk_alliance_id gk \<mapsto> sat (guild_total (gk_alliance_id gk) s + int n)), guild_acc_reward s)" using d by blast
  have g: "guild_ok a F Q D (guild_stakes s) (guild_total a s) (guild_acc a s)" using inv by (simp add: guild_state_def)
  show ?thesis
  proof (cases "gk_alliance_id gk = a")
    case False
    then show ?thesis using guild_elsewhere[OF g, of m "Some gk"] d
      by (auto simp: guild_state_view[OF v] guild_total_def guild_acc_def split: option.splits)
  next
    case True
    let ?acc = "guild_acc a s"
    have acc: "0 \<le> ?acc" and tot: "guild_total a s \<le> int D * int u32_max" "0 \<le> guild_total a s"
      using g sum_nonneg[of "guild_members a (guild_stakes s)"] by (auto simp: guild_ok_def in_sum guild_members_def stake_ok_def less_imp_le intro!: sum_nonneg)
    have old: "stake_ok ?acc g" if "guild_stakes s m = Some g" for g using g d that True by (auto simp: guild_ok_def)
    have amt: "0 < gk_amount gk" using d old by (auto simp: stake_ok_def split: option.splits)
    have fresh: "0 \<le> gk_reward_debt gk \<and> 0 \<le> owed ?acc gk \<and> owed ?acc gk < REWARD_PRECISION" using owed_fresh[of gk ?acc] amt acc d True by simp
    have small: "guild_total a s + int n \<le> int (D + 1) * int u32_max" using tot d by (simp add: algebra_simps)
    have "int (D + 1) * int u32_max \<le> (2 ^ 90 + 1) * int u32_max" using D by (intro mult_right_mono) auto
    then have sat: "sat (guild_total a s + int n) = guild_total a s + int n" using small tot by (intro sat_id) (simp add: in_i128_def)
    have "guild_ok a F (Q + (case guild_stakes s m of None \<Rightarrow> 0 | Some g \<Rightarrow> pending_guild_reward g ?acc)) (D + 1) ((guild_stakes s)(m \<mapsto> gk)) (guild_total a s + int n) ?acc"
    proof (rule guild_set[OF g])
      show "stake_ok ?acc gk" using amt fresh by (simp add: stake_ok_def)
      show "guild_total a s + int n = guild_total a s - unwrap_or (staked_in a (guild_stakes s) m) 0 + gk_amount gk"
        using d True by (auto simp: staked_in_def split: option.splits)
      show "REWARD_PRECISION * (case guild_stakes s m of None \<Rightarrow> 0 | Some g \<Rightarrow> pending_guild_reward g ?acc) + owed ?acc gk
          \<le> unwrap_or (owed_in a ?acc (guild_stakes s) m) 0 + REWARD_PRECISION * int 1"
        using fresh d True old pending_owed[OF _ acc] mul_div_le[of REWARD_PRECISION] by (fastforce simp: owed_in_def split: option.splits)
    qed (use True small in simp_all)
    then show ?thesis unfolding True by (simp add: guild_state_view[OF v] True sat get_guild_stake_def) (simp add: guild_acc_def)
  qed
qed

lemma fund_ok:
  assumes ok: "fund_guild_rewards env f b n s = (Ok u, s')" and inv: "guild_state a F Q D s"
  shows "guild_state a (F + ((\<lambda>_. 0)(b := int n)) a) Q D s'"
proof -
  note f = fund_Ok[OF ok]
  have "guild_ok a F Q D (guild_stakes s) (guild_total a s) (guild_acc a s)" using inv by (simp add: guild_state_def)
  then show ?thesis using guild_fund[of a F Q D "guild_stakes s" "guild_total a s" "guild_acc a s" "int n"] f
    by (cases "a = b") (simp_all add: guild_state_view[OF conjunct2[OF f]], simp_all add: guild_total_def guild_acc_def)
qed

lemma claim_ok:
  assumes ok: "claim_guild_rewards env m s = (Ok r, s')" "guild_stakes s m = Some gk" and inv: "guild_state a F Q D s"
  shows "guild_state a F (Q + ((\<lambda>_. 0)(gk_alliance_id gk := r)) a) D s'"
proof (cases "r = 0")
  case True
  then have "guild_view s' = guild_view s" using guild_claim_Ok[OF ok] by simp
  then show ?thesis using inv True by (simp add: guild_state_def guild_view_def guild_total_def guild_acc_def)
next
  case False
  let ?acc = "guild_acc (gk_alliance_id gk) s"
  let ?gk = "gk\<lparr>gk_reward_debt := reward_share (gk_amount gk) ?acc\<rparr>"
  have r: "r = pending_guild_reward gk ?acc" and v: "guild_view s' = ((guild_stakes s)(m \<mapsto> ?gk), guild_stake_total s, guild_acc_reward s)"
    using guild_claim_Ok[OF ok] False by simp_all
  have g: "guild_ok a F Q D (guild_stakes s) (guild_total a s) (guild_acc a s)" using inv by (simp add: guild_state_def)
  show ?thesis
  proof (cases "gk_alliance_id gk = a")
    case False
    then show ?thesis using guild_elsewhere[OF g, of m "Some ?gk"] ok(2) by (simp add: guild_state_view[OF v]) (simp add: guild_total_def guild_acc_def)
  next
    case True
    have st: "stake_ok ?acc gk" "0 \<le> ?acc" "guild_total a s \<le> int D * int u32_max" using g ok(2) True by (auto simp: guild_ok_def)
    have fresh: "0 \<le> gk_reward_debt ?gk \<and> 0 \<le> owed ?acc ?gk \<and> owed ?acc ?gk < REWARD_PRECISION"
      using owed_fresh[of ?gk ?acc] st by (simp add: stake_ok_def)
    have "REWARD_PRECISION * r + owed ?acc ?gk = owed ?acc gk"
      using pending_owed[OF st(1,2)] r reward_share_div[of "gk_amount gk" ?acc] st owed_div[of ?acc gk]
      by (simp add: owed_def stake_ok_def right_diff_distrib)
    then have "guild_ok a F (Q + r) (D + 0) ((guild_stakes s)(m \<mapsto> ?gk)) (guild_total a s) (guild_acc a s)"
      using g fresh st ok(2) True by (intro guild_set[OF g]) (auto simp: stake_ok_def staked_in_def owed_in_def)
    then show ?thesis using True by (simp add: guild_state_view[OF v]) (simp add: guild_total_def guild_acc_def)
  qed
qed

lemma exit_ok:
  assumes ok: "unstake_from_guild env m s = (Ok (n, r), s')" "guild_stakes s m = Some gk" and inv: "guild_state a F Q D s" and D: "D \<le> 2 ^ 90"
  shows "guild_state a F (Q + ((\<lambda>_. 0)(gk_alliance_id gk := r)) a) D s'"
proof -
  let ?b = "gk_alliance_id gk"
  have r: "r = pending_guild_reward gk (guild_acc ?b s)"
    and v: "guild_view s' = ((guild_stakes s)(m := None), (guild_stake_total s)(?b \<mapsto> max (sat (guild_total ?b s - gk_amount gk)) 0), guild_acc_reward s)"
    using exit_Ok[OF ok] by simp_all
  have g: "guild_ok a F Q D (guild_stakes s) (guild_total a s) (guild_acc a s)" using inv by (simp add: guild_state_def)
  show ?thesis
  proof (cases "?b = a")
    case False
    then show ?thesis using guild_elsewhere[OF g, of m None] ok(2) by (simp add: guild_state_view[OF v]) (simp add: guild_total_def guild_acc_def)
  next
    case True
    have st: "stake_ok (guild_acc a s) gk" "0 \<le> guild_acc a s" "guild_total a s \<le> int D * int u32_max" using g ok(2) True by (auto simp: guild_ok_def)
    have rem: "guild_ok a F (Q + r) D ((guild_stakes s)(m := None)) (guild_total a s - gk_amount gk) (guild_acc a s) \<and> 0 \<le> guild_total a s - gk_amount gk"
      by (rule guild_remove[OF g ok(2) True]) (use pending_owed[OF st(1,2)] r True mul_div_le[of REWARD_PRECISION "owed (guild_acc a s) gk"] in simp)
    have "int D * int u32_max \<le> 2 ^ 90 * int u32_max" using D by (intro mult_right_mono) auto
    then have "sat (guild_total a s - gk_amount gk) = guild_total a s - gk_amount gk"
      using rem st by (intro sat_id) (auto simp: in_i128_def stake_ok_def)
    then show ?thesis unfolding True using rem by (simp add: guild_state_view[OF v] True) (simp add: guild_acc_def)
  qed
qed

lemma guild_step_ok: "guild_step l s s' \<Longrightarrow> guild_state a F Q D s \<Longrightarrow> D \<le> 2 ^ 90 \<Longrightarrow> guild_state a (F + fst l a) (Q + fst (snd l) a) (D + snd (snd l) a) s'"
proof (induction rule: guild_step.induct)
  case (deposit env m x n s gk s')
  then show ?case using deposit_ok[OF deposit(1,2,3)] by simp
next
  case (fund env f b n s s')
  then show ?case using fund_ok[OF fund(1,2)] by simp
next
  case (claim env m s r s' gk)
  then show ?case using claim_ok[OF claim(1) _ claim(3)] by (simp add: get_guild_stake_def)
next
  case (exit env m s n r s' gk)
  then show ?case using exit_ok[OF exit(1) _ exit(3,4)] by (simp add: get_guild_stake_def)
next
  case (other s' s)
  then show ?case by (simp add: guild_state_def guild_total_def guild_acc_def)
qed

text \<open>Every step deposits at most once.\<close>

lemma guild_step_deposits: "guild_step l s s' \<Longrightarrow> snd (snd l) a \<le> 1"
  by (induction rule: guild_step.induct) auto

lemma guild_run_ok:
  "runs guild_step ls s t \<Longrightarrow> guild_state a F Q D s \<Longrightarrow> D + length ls \<le> 2 ^ 90 \<Longrightarrow>
    guild_state a (F + (\<Sum>l\<leftarrow>ls. fst l a)) (Q + (\<Sum>l\<leftarrow>ls. fst (snd l) a)) (D + (\<Sum>l\<leftarrow>ls. snd (snd l) a)) t \<and> (\<Sum>l\<leftarrow>ls. snd (snd l) a) \<le> length ls"
proof (induction rule: runs.induct)
  case (runs_snoc ls s t l u)
  then have ih: "guild_state a (F + (\<Sum>l\<leftarrow>ls. fst l a)) (Q + (\<Sum>l\<leftarrow>ls. fst (snd l) a)) (D + (\<Sum>l\<leftarrow>ls. snd (snd l) a)) t" "(\<Sum>l\<leftarrow>ls. snd (snd l) a) \<le> length ls" by simp_all
  show ?case using guild_step_ok[OF runs_snoc(2) ih(1)] guild_step_deposits[OF runs_snoc(2), of a] ih(2) runs_snoc(5) by (simp add: add.assoc)
qed simp

section \<open>Property\<close>

text \<open>Guild rewards are covered up to rounding. From a state without stakes in a guild, after any sequence of at most
  \<open>2 ^ 90\<close> deposits, fundings, claims and exits, with any other calls in between, what was paid to its members and what they
  could still claim is together at most what was funded plus one unit per deposit, and the recorded total is the sum of the
  stakes.\<close>

lemma guild_rewards_bounded:
  assumes run: "runs guild_step ls s t" and len: "length ls \<le> 2 ^ 90"
    and start: "finite (dom (guild_stakes s))" "guild_members a (guild_stakes s) = {}" "guild_total a s = 0" "0 \<le> guild_acc a s"
  shows "(\<Sum>l\<leftarrow>ls. fst (snd l) a) + (\<Sum>m\<in>guild_members a (guild_stakes t). pending_guild_reward (the (guild_stakes t m)) (guild_acc a t))
      \<le> (\<Sum>l\<leftarrow>ls. fst l a) + int (\<Sum>l\<leftarrow>ls. snd (snd l) a)
    \<and> get_guild_stake_total a t = (\<Sum>m\<in>guild_members a (guild_stakes t). gk_amount (the (guild_stakes t m)))
    \<and> (\<forall>m\<in>guild_members a (guild_stakes t). 0 < gk_amount (the (guild_stakes t m)))"
proof -
  have "guild_stakes s m = Some gk \<Longrightarrow> gk_alliance_id gk \<noteq> a" for m gk using start(2) by (auto simp: guild_members_def)
  then have "guild_state a 0 0 0 s" using start by (auto simp: guild_state_def guild_ok_def in_sum)
  from guild_run_ok[OF run this] len have g: "guild_ok a (\<Sum>l\<leftarrow>ls. fst l a) (\<Sum>l\<leftarrow>ls. fst (snd l) a) (\<Sum>l\<leftarrow>ls. snd (snd l) a) (guild_stakes t) (guild_total a t) (guild_acc a t)"
    by (simp add: guild_state_def)
  have "0 < gk_amount (the (guild_stakes t m))" if "m \<in> guild_members a (guild_stakes t)" for m
    using g that by (auto simp: guild_ok_def guild_members_def stake_ok_def)
  moreover have "guild_total a t = (\<Sum>m\<in>guild_members a (guild_stakes t). gk_amount (the (guild_stakes t m)))"
    using g unfolding guild_ok_def in_sum(1) by blast
  ultimately show ?thesis using guild_solvent[OF g] by (simp add: in_sum get_guild_stake_total_def)
qed

lemma guild_rewards_bounded_example:
  "\<exists>gk s t. stake_to_guild (signed_at 5 1) (Addr 2) ''gas'' 10 (no_stakes\<lparr>member_alliance := [Addr 2 \<mapsto> 4]\<rparr>) = (Ok gk, s)
     \<and> fund_guild_rewards (signed_at 6 1) (Addr 2) 4 5 s = (Ok (), t)
     \<and> (\<Sum>m\<in>guild_members 4 (guild_stakes t). pending_guild_reward (the (guild_stakes t m)) (guild_acc 4 t)) \<le> 6"
proof -
  let ?o = "no_stakes\<lparr>member_alliance := [Addr 2 \<mapsto> 4]\<rparr>"
  let ?gk = "\<lparr>gk_alliance_id = 4, gk_member = Addr 2, gk_asset_id = ''gas'', gk_amount = 10, gk_staked_at = 5, gk_unlock_at = 604805, gk_reward_debt = 0\<rparr>"
  obtain s where 1: "stake_to_guild (signed_at 5 1) (Addr 2) ''gas'' 10 ?o = (Ok ?gk, s)" and s: "guild_stake_asset s 4 = Some ''gas''" "guild_stake_total s 4 = Some 10"
      "guild_acc_reward s = Map.empty" "resource_bal s (Addr 2, ''gas'') = Some 90"
    by (simp add: stake_to_guild_def get_player_alliance_def guild_asset_def no_stakes_simps debit_units_def debit_resource_balance_def resource_balance_def
        checked_sub_def updated_stake_def get_guild_stake_def guild_acc_def guild_total_def adjust_treasury_def Let_def saturating_add_def reward_share_def sat_def)
  obtain t where 2: "fund_guild_rewards (signed_at 6 1) (Addr 2) 4 5 s = (Ok (), t)"
    by (simp add: fund_guild_rewards_def guild_asset_def guild_total_def guild_acc_def ck_def in_i128_def sdiv_nonneg s debit_units_def debit_resource_balance_def
        resource_balance_def checked_sub_def Let_def)
  let ?l = "(\<lambda>_. 0, (\<lambda>_. 0)(4 := 0), (\<lambda>_. 0)(4 := 1)) :: guild_label" and ?k = "((\<lambda>_. 0)(4 := int 5), \<lambda>_. 0, \<lambda>_. 0) :: guild_label"
  have "guild_step ?l ?o s" using guild_step.deposit[OF 1] by (simp add: get_guild_stake_def no_stakes_simps)
  moreover have "guild_step ?k s t" by (rule guild_step.fund[OF 2])
  ultimately have run: "runs guild_step ([?l] @ [?k]) ?o t" by (rule runs_snoc[OF runs_single])
  have start: "finite (dom (guild_stakes ?o))" "guild_members 4 (guild_stakes ?o) = {}" "guild_total 4 ?o = 0" "0 \<le> guild_acc 4 ?o"
    by (simp_all add: no_stakes_simps guild_members_def guild_total_def guild_acc_def)
  have "(\<Sum>m\<in>guild_members 4 (guild_stakes t). pending_guild_reward (the (guild_stakes t m)) (guild_acc 4 t)) \<le> 6"
    using guild_rewards_bounded[OF run _ start] by simp
  with 1 2 show ?thesis by blast
qed

end
