(* ===== verification/Dao.thy ===== *)
theory Dao
  imports Guild_Rewards
begin

text \<open>
  \<open>src/dao.rs\<close>: proposals with a voting period and a timelock, votes, execution and cancellation, and the policy functions.
  The address of the running contract, which the host knows, is an argument. Votes are stored under the pair of proposal and voter, a key that
  \<open>src/governance.rs\<close> uses in the same storage; \<open>lib.rs\<close> does not include this module, and its votes are a field of their own here.
\<close>

section \<open>Model\<close>

datatype DaoError = AlreadyInitialized | NotInitialized | ProposalNotFound | InsufficientThreshold | VotingNotActive | AlreadyVoted | TimelockNotExpired
  | QuorumNotMet | InvalidStatus | NotProposer | NotAdmin | UnauthorizedCaller | InvalidAmount | Overflow

datatype DaoProposalStatus = Active | Passed | Failed | Executed | Cancelled

datatype VoteDirection = For | Against

datatype ProposalType = ParameterChange | FeatureToggle | TreasurySpend | ContractUpgrade

datatype ExecutionMode = Automatic | Manual | Multisig

record DaoProposal =
  dp_id :: u64
  dp_proposer :: address
  dp_description :: bytes
  dp_voting_start_ledger :: u32
  dp_voting_end_ledger :: u32
  dp_timelock_end_ledger :: u32
  dp_status :: DaoProposalStatus
  dp_for_votes :: i128
  dp_against_votes :: i128

record VoteRecord =
  vr_voter :: address
  vr_proposal_id :: u64
  vr_direction :: VoteDirection
  vr_power :: i128

record DaoConfig =
  dc_quorum_basis_points :: u32
  dc_voting_period_ledgers :: u32
  dc_timelock_duration_ledgers :: u32
  dc_proposal_threshold :: i128

record GovernancePolicy =
  gp_quorum_basis_points :: u32
  gp_timelock_seconds :: u64
  gp_large_spend_threshold :: i128
  gp_multisig_threshold :: u32
  gp_multisig_signers :: u32

record dao_store = stake_store +
  dao_address :: "address option"
  dao_staking_contract :: "address option"
  dao_governance_contract :: "address option"
  dao_config :: "DaoConfig option"
  dao_proposal_counter :: "u64 option"
  dao_proposals :: "u64 \<rightharpoonup> DaoProposal"
  dao_votes :: "(u64 \<times> address) \<rightharpoonup> VoteRecord"

definition default_governance_policy :: GovernancePolicy where
  "default_governance_policy = \<lparr>gp_quorum_basis_points = 2000, gp_timelock_seconds = 172800, gp_large_spend_threshold = 50000,
     gp_multisig_threshold = 3, gp_multisig_signers = 5\<rparr>"

fun validate_proposal_type :: "ProposalType \<Rightarrow> ExecutionMode" where
  "validate_proposal_type ParameterChange = Automatic"
| "validate_proposal_type FeatureToggle = Automatic"
| "validate_proposal_type TreasurySpend = Multisig"
| "validate_proposal_type ContractUpgrade = Manual"

definition quorum_met :: "i128 \<Rightarrow> i128 \<Rightarrow> u32 \<Rightarrow> bool" where
  "quorum_met total_votes total_supply quorum_basis_points =
    (if total_votes \<le> 0 \<or> total_supply \<le> 0 then False
     else let required = sat (total_supply * int quorum_basis_points) sdiv 10000 in total_votes \<ge> required)"

definition participation_bps :: "i128 \<Rightarrow> i128 \<Rightarrow> u32" where
  "participation_bps total_votes total_supply =
    (if total_votes \<le> 0 \<or> total_supply \<le> 0 then 0
     else let bps = sat (total_votes * 10000) sdiv total_supply in nat (min bps 10000))"

definition delegation_weight :: "i128 \<Rightarrow> i128 \<Rightarrow> (DaoError, i128) outcome" where
  "delegation_weight base_power delegated_power =
    (if base_power < 0 \<or> delegated_power < 0 then Err DaoError.InvalidAmount
     else case ck (base_power + delegated_power) of None \<Rightarrow> Err DaoError.Overflow | Some w \<Rightarrow> Ok w)"

definition multisig_approved :: "u32 \<Rightarrow> GovernancePolicy \<Rightarrow> bool" where
  "multisig_approved signatures policy \<longleftrightarrow> signatures \<ge> gp_multisig_threshold policy \<and> gp_multisig_threshold policy \<le> gp_multisig_signers policy"

definition large_treasury_spend :: "i128 \<Rightarrow> GovernancePolicy \<Rightarrow> bool" where
  "large_treasury_spend amount policy \<longleftrightarrow> amount \<ge> gp_large_spend_threshold policy"

definition dao_initialize :: "env \<Rightarrow> address \<Rightarrow> address \<Rightarrow> address \<Rightarrow> address \<Rightarrow> u32 \<Rightarrow> u32 \<Rightarrow> u32 \<Rightarrow> i128 \<Rightarrow> 'a dao_store_scheme
    \<Rightarrow> (DaoError, unit) outcome \<times> 'a dao_store_scheme" where
  "dao_initialize env self admin staking_contract governance_contract quorum_basis_points voting_period_ledgers timelock_duration_ledgers proposal_threshold s =
    (if \<not> auth env admin then (Panic, s)
     else if inst_admin s \<noteq> None then (Err DaoError.AlreadyInitialized, s)
     else let s = s\<lparr>inst_admin := Some admin, dao_address := Some self, dao_staking_contract := Some staking_contract,
              dao_governance_contract := Some governance_contract, dao_config := Some \<lparr>dc_quorum_basis_points = quorum_basis_points,
                dc_voting_period_ledgers = voting_period_ledgers, dc_timelock_duration_ledgers = timelock_duration_ledgers, dc_proposal_threshold = proposal_threshold\<rparr>\<rparr>
          in (Ok (), publish [SS ''dao'', SS ''init''] [SA admin] s))"

definition dao_create_proposal :: "env \<Rightarrow> address \<Rightarrow> bytes \<Rightarrow> 'a dao_store_scheme \<Rightarrow> (DaoError, u64) outcome \<times> 'a dao_store_scheme" where
  "dao_create_proposal env proposer description s =
    (if \<not> auth env proposer then (Panic, s)
     else case dao_config s of
       None \<Rightarrow> (Err DaoError.NotInitialized, s)
     | Some config \<Rightarrow>
     let proposal_id = unwrap_or (dao_proposal_counter s) 0 in
     case checked_add u32_max (sequence env) (dc_voting_period_ledgers config) of
       None \<Rightarrow> (Panic, s)
     | Some voting_end \<Rightarrow>
     case checked_add u32_max voting_end (dc_timelock_duration_ledgers config) of
       None \<Rightarrow> (Panic, s)
     | Some timelock_end \<Rightarrow>
     let proposal = \<lparr>dp_id = proposal_id, dp_proposer = proposer, dp_description = description, dp_voting_start_ledger = sequence env,
           dp_voting_end_ledger = voting_end, dp_timelock_end_ledger = timelock_end, dp_status = Active, dp_for_votes = 0, dp_against_votes = 0\<rparr>;
         s = s\<lparr>dao_proposals := (dao_proposals s)(proposal_id \<mapsto> proposal)\<rparr> in
     case checked_add u64_max proposal_id 1 of
       None \<Rightarrow> (Panic, s)
     | Some nxt \<Rightarrow> (Ok proposal_id, publish [SS ''dao'', SS ''prop_crt''] [SU proposal_id, SA proposer] (s\<lparr>dao_proposal_counter := Some nxt\<rparr>)))"

abbreviation PLACEHOLDER_POWER :: i128 where "PLACEHOLDER_POWER \<equiv> 1000000"

definition vote :: "env \<Rightarrow> address \<Rightarrow> u64 \<Rightarrow> VoteDirection \<Rightarrow> 'a dao_store_scheme \<Rightarrow> (DaoError, unit) outcome \<times> 'a dao_store_scheme" where
  "vote env voter proposal_id direction s =
    (if \<not> auth env voter then (Panic, s)
     else case dao_proposals s proposal_id of
       None \<Rightarrow> (Err DaoError.ProposalNotFound, s)
     | Some proposal \<Rightarrow>
     if dp_status proposal \<noteq> Active then (Err VotingNotActive, s)
     else if sequence env > dp_voting_end_ledger proposal then (Err VotingNotActive, s)
     else if dao_votes s (proposal_id, voter) \<noteq> None then (Err DaoError.AlreadyVoted, s)
     else let power = PLACEHOLDER_POWER in
     if power \<le> 0 then (Err InsufficientThreshold, s)
     else case (case direction of
         For \<Rightarrow> map_option (\<lambda>n. proposal\<lparr>dp_for_votes := n\<rparr>) (ck (dp_for_votes proposal + power))
       | Against \<Rightarrow> map_option (\<lambda>n. proposal\<lparr>dp_against_votes := n\<rparr>) (ck (dp_against_votes proposal + power))) of
       None \<Rightarrow> (Err DaoError.Overflow, s)
     | Some proposal \<Rightarrow>
     let vote_record = \<lparr>vr_voter = voter, vr_proposal_id = proposal_id, vr_direction = direction, vr_power = power\<rparr>;
         s = s\<lparr>dao_votes := (dao_votes s)((proposal_id, voter) \<mapsto> vote_record)\<rparr>;
         s = s\<lparr>dao_proposals := (dao_proposals s)(proposal_id \<mapsto> proposal)\<rparr>
     in (Ok (), publish [SS ''dao'', SS ''vote''] [SU proposal_id, SA voter, SI power] s))"

text \<open>The status that executing finds: an active proposal is decided first.\<close>

definition dao_execute_proposal :: "env \<Rightarrow> u64 \<Rightarrow> 'a dao_store_scheme \<Rightarrow> (DaoError, unit) outcome \<times> 'a dao_store_scheme" where
  "dao_execute_proposal env proposal_id s = (case dao_proposals s proposal_id of
     None \<Rightarrow> (Err DaoError.ProposalNotFound, s)
   | Some proposal \<Rightarrow>
     if sequence env < dp_timelock_end_ledger proposal then (Err TimelockNotExpired, s)
     else and_then
       (if dp_status proposal = Active then
          (case dao_config s of
             None \<Rightarrow> (Err DaoError.NotInitialized, s)
           | Some config \<Rightarrow>
           case ck (dp_for_votes proposal + dp_against_votes proposal) of
             None \<Rightarrow> (Err DaoError.Overflow, s)
           | Some total_votes \<Rightarrow>
               (Ok (proposal\<lparr>dp_status := (if \<not> total_votes > 0 then Failed
                  else if dp_for_votes proposal > dp_against_votes proposal then Passed else Failed)\<rparr>), s))
        else (Ok proposal, s))
       (\<lambda>proposal s.
          if dp_status proposal \<noteq> Passed then (Err InvalidStatus, s\<lparr>dao_proposals := (dao_proposals s)(proposal_id \<mapsto> proposal)\<rparr>)
          else let s = s\<lparr>dao_proposals := (dao_proposals s)(proposal_id \<mapsto> proposal\<lparr>dp_status := Executed\<rparr>)\<rparr>
               in (Ok (), publish [SS ''dao'', SS ''exec''] [SU proposal_id] s)))"

definition dao_cancel_proposal :: "env \<Rightarrow> address \<Rightarrow> u64 \<Rightarrow> 'a dao_store_scheme \<Rightarrow> (DaoError, unit) outcome \<times> 'a dao_store_scheme" where
  "dao_cancel_proposal env caller proposal_id s =
    (if \<not> auth env caller then (Panic, s)
     else case dao_proposals s proposal_id of
       None \<Rightarrow> (Err DaoError.ProposalNotFound, s)
     | Some proposal \<Rightarrow>
     case inst_admin s of
       None \<Rightarrow> (Err DaoError.NotInitialized, s)
     | Some admin \<Rightarrow>
     if caller \<noteq> dp_proposer proposal \<and> caller \<noteq> admin then (Err NotProposer, s)
     else if dp_status proposal \<noteq> Active then (Err InvalidStatus, s)
     else let s = s\<lparr>dao_proposals := (dao_proposals s)(proposal_id \<mapsto> proposal\<lparr>dp_status := Cancelled\<rparr>)\<rparr>
          in (Ok (), publish [SS ''dao'', SS ''canc''] [SU proposal_id, SA caller] s))"

definition dao_get_proposal :: "u64 \<Rightarrow> 'a dao_store_scheme \<Rightarrow> (DaoError, DaoProposal) outcome" where
  "dao_get_proposal proposal_id s = (case dao_proposals s proposal_id of None \<Rightarrow> Err DaoError.ProposalNotFound | Some p \<Rightarrow> Ok p)"

definition get_vote :: "address \<Rightarrow> u64 \<Rightarrow> 'a dao_store_scheme \<Rightarrow> VoteRecord option" where
  "get_vote voter proposal_id s = dao_votes s (proposal_id, voter)"

definition treasury_transfer :: "address \<Rightarrow> address \<Rightarrow> i128 \<Rightarrow> 'a dao_store_scheme \<Rightarrow> (DaoError, unit) outcome \<times> 'a dao_store_scheme" where
  "treasury_transfer self recipient amount s = (case dao_address s of
     None \<Rightarrow> (Err DaoError.NotInitialized, s)
   | Some addr \<Rightarrow>
     if self \<noteq> addr then (Err UnauthorizedCaller, s)
     else if amount \<le> 0 then (Err DaoError.InvalidAmount, s)
     else (Ok (), publish [SS ''dao'', SS ''treas''] [SA recipient, SI amount] s))"

inductive dao_step :: "env \<Rightarrow> 'a dao_store_scheme \<Rightarrow> 'a dao_store_scheme \<Rightarrow> bool" for env where
  init: "commits (dao_initialize env self a b c q v l n) s s' \<Longrightarrow> dao_step env s s'"
| propose: "commits (dao_create_proposal env p d) s s' \<Longrightarrow> dao_step env s s'"
| vote: "commits (vote env p i dr) s s' \<Longrightarrow> dao_step env s s'"
| execute: "commits (dao_execute_proposal env i) s s' \<Longrightarrow> dao_step env s s'"
| cancel: "commits (dao_cancel_proposal env p i) s s' \<Longrightarrow> dao_step env s s'"
| transfer: "commits (treasury_transfer self p n) s s' \<Longrightarrow> dao_step env s s'"

section \<open>Invariant\<close>

text \<open>The recorded votes on proposal \<open>i\<close> in direction \<open>d\<close>, with their power.\<close>

definition votes_for :: "((u64 \<times> address) \<rightharpoonup> VoteRecord) \<Rightarrow> u64 \<Rightarrow> VoteDirection \<Rightarrow> address \<rightharpoonup> i128" where
  "votes_for vs i d = (\<lambda>a. case vs (i, a) of None \<Rightarrow> None | Some r \<Rightarrow> if vr_direction r = d then Some (vr_power r) else None)"

definition proposal_ok :: "nat \<Rightarrow> ((u64 \<times> address) \<rightharpoonup> VoteRecord) \<Rightarrow> u64 \<Rightarrow> DaoProposal \<Rightarrow> bool" where
  "proposal_ok n vs i p \<longleftrightarrow> i < n \<and> dp_id p = i \<and> dp_for_votes p = msum (votes_for vs i For) \<and> dp_against_votes p = msum (votes_for vs i Against)
     \<and> dp_status p \<in> {Active, Executed, Cancelled} \<and> dp_voting_end_ledger p \<le> dp_timelock_end_ledger p"

definition ballots_ok :: "nat \<Rightarrow> ((u64 \<times> address) \<rightharpoonup> VoteRecord) \<Rightarrow> bool" where
  "ballots_ok n vs \<longleftrightarrow> finite (dom vs) \<and> (\<forall>i a r. vs (i, a) = Some r \<longrightarrow> i < n \<and> vr_voter r = a \<and> vr_power r = PLACEHOLDER_POWER)"

definition dao_inv :: "'a dao_store_scheme \<Rightarrow> bool" where
  "dao_inv s \<longleftrightarrow> ballots_ok (unwrap_or (dao_proposal_counter s) 0) (dao_votes s)
     \<and> (\<forall>i p. dao_proposals s i = Some p \<longrightarrow> proposal_ok (unwrap_or (dao_proposal_counter s) 0) (dao_votes s) i p)"

section \<open>Lemmas\<close>

lemma publish_dao_store [simp]:
  "dao_address (publish t d s) = dao_address s" "dao_staking_contract (publish t d s) = dao_staking_contract s"
  "dao_governance_contract (publish t d s) = dao_governance_contract s" "dao_config (publish t d s) = dao_config s"
  "dao_proposal_counter (publish t d s) = dao_proposal_counter s" "dao_proposals (publish t d s) = dao_proposals s" "dao_votes (publish t d s) = dao_votes s"
  by (simp_all add: publish_def)

lemma votes_for_finite: "finite (dom vs) \<Longrightarrow> finite (dom (votes_for vs i d))"
  by (rule finite_subset[of _ "snd ` dom vs"]) (force simp: votes_for_def image_iff split: option.splits if_splits)+

lemma votes_for_upd: "votes_for (vs((j, a) \<mapsto> r)) i d = (if i = j then (votes_for vs i d)(a := if vr_direction r = d then Some (vr_power r) else None) else votes_for vs i d)"
  by (auto simp: votes_for_def fun_eq_iff)

text \<open>A first vote of an address adds its power to one side.\<close>

lemma votes_for_new:
  assumes "finite (dom vs)" "vs (i, a) = None"
  shows "msum (votes_for (vs((i, a) \<mapsto> r)) i d) = msum (votes_for vs i d) + (if vr_direction r = d then vr_power r else 0)"
proof -
  have none: "votes_for vs i d a = None" using assms(2) by (simp add: votes_for_def)
  show ?thesis using msum_upd[OF votes_for_finite[OF assms(1)], of i d a "vr_power r"] none
    by (simp add: votes_for_upd fun_upd_idem)
qed

lemma ballots_none: "ballots_ok n vs \<Longrightarrow> votes_for vs n d = Map.empty"
  by (auto simp: ballots_ok_def votes_for_def fun_eq_iff split: option.splits)

lemma votes_nonneg: "ballots_ok n vs \<Longrightarrow> 0 \<le> msum (votes_for vs i d)"
  unfolding msum_def by (rule sum_nonneg) (auto simp: ballots_ok_def votes_for_def split: option.splits if_splits)

lemma dao_inv_get: "dao_inv s \<Longrightarrow> dao_proposals s i = Some p \<Longrightarrow> proposal_ok (unwrap_or (dao_proposal_counter s) 0) (dao_votes s) i p"
  by (simp add: dao_inv_def)

lemma dao_inv_status:
  assumes "dao_inv s" "dao_proposals s i = Some p" "st \<in> {Active, Executed, Cancelled}"
    "dao_proposal_counter s' = dao_proposal_counter s" "dao_votes s' = dao_votes s" "dao_proposals s' = (dao_proposals s)(i \<mapsto> p\<lparr>dp_status := st\<rparr>)"
  shows "dao_inv s'"
  using assms dao_inv_get[OF assms(1,2)] unfolding dao_inv_def by (auto simp: proposal_ok_def)

lemma dao_propose_Ok: "dao_create_proposal env p d s = (Ok i, s') \<Longrightarrow> i = unwrap_or (dao_proposal_counter s) 0 \<and> dao_proposal_counter s' = Some (Suc i) \<and> dao_votes s' = dao_votes s
    \<and> dao_proposals s' = (dao_proposals s)(i \<mapsto> the (dao_proposals s' i)) \<and> dp_id (the (dao_proposals s' i)) = i \<and> dp_status (the (dao_proposals s' i)) = Active
    \<and> dp_for_votes (the (dao_proposals s' i)) = 0 \<and> dp_against_votes (the (dao_proposals s' i)) = 0
    \<and> dp_voting_end_ledger (the (dao_proposals s' i)) \<le> dp_timelock_end_ledger (the (dao_proposals s' i))"
  by (auto simp: dao_create_proposal_def ok_rules Let_def split del: if_split)

lemma vote_Ok:
  assumes "vote env a i d s = (Ok u, s')"
  shows "\<exists>p. dao_proposals s i = Some p \<and> dp_status p = Active \<and> sequence env \<le> dp_voting_end_ledger p \<and> dao_votes s (i, a) = None \<and> auth env a
    \<and> dao_proposal_counter s' = dao_proposal_counter s
    \<and> dao_votes s' = (dao_votes s)((i, a) \<mapsto> \<lparr>vr_voter = a, vr_proposal_id = i, vr_direction = d, vr_power = PLACEHOLDER_POWER\<rparr>)
    \<and> dao_proposals s' = (dao_proposals s)(i \<mapsto> (case d of For \<Rightarrow> p\<lparr>dp_for_votes := dp_for_votes p + PLACEHOLDER_POWER\<rparr>
        | Against \<Rightarrow> p\<lparr>dp_against_votes := dp_against_votes p + PLACEHOLDER_POWER\<rparr>))"
  using assms by (cases d) (auto simp: vote_def ok_rules Let_def split del: if_split)

lemma ck_in: "in_i128 x \<Longrightarrow> ck x = Some x"
  by simp

lemma dao_execute_Ok:
  assumes "dao_execute_proposal env i s = (Ok u, s')"
  shows "\<exists>p. dao_proposals s i = Some p \<and> dp_timelock_end_ledger p \<le> sequence env
      \<and> (if dp_status p = Active then dao_config s \<noteq> None \<and> in_i128 (dp_for_votes p + dp_against_votes p)
           \<and> 0 < dp_for_votes p + dp_against_votes p \<and> dp_against_votes p < dp_for_votes p else dp_status p = Passed)
      \<and> dao_proposal_counter s' = dao_proposal_counter s \<and> dao_votes s' = dao_votes s \<and> dao_proposals s' = (dao_proposals s)(i \<mapsto> p\<lparr>dp_status := Executed\<rparr>)"
proof -
  obtain p where p: "dao_proposals s i = Some p" using assms by (cases "dao_proposals s i") (auto simp: dao_execute_proposal_def)
  show ?thesis
  proof (cases "dp_status p = Active")
    case True
    then obtain c where c: "dao_config s = Some c" using assms p by (cases "dao_config s") (auto simp: dao_execute_proposal_def split: if_splits)
    have r: "in_i128 (dp_for_votes p + dp_against_votes p)" using assms p True c
      by (auto simp: dao_execute_proposal_def ck_def split: if_splits)
    then show ?thesis using assms p True c unfolding dao_execute_proposal_def
      by (cases "dp_against_votes p < dp_for_votes p"; cases "0 < dp_for_votes p + dp_against_votes p") (auto simp: Let_def ck_in split: if_splits)
  next
    case False
    then show ?thesis using assms p by (auto simp: dao_execute_proposal_def Let_def split: if_splits)
  qed
qed

lemma cancel_Ok: "dao_cancel_proposal env a i s = (Ok u, s') \<Longrightarrow> \<exists>p. dao_proposals s i = Some p \<and> dp_status p = Active \<and> auth env a
    \<and> (a = dp_proposer p \<or> inst_admin s = Some a)
    \<and> dao_proposal_counter s' = dao_proposal_counter s \<and> dao_votes s' = dao_votes s \<and> dao_proposals s' = (dao_proposals s)(i \<mapsto> p\<lparr>dp_status := Cancelled\<rparr>)"
  by (auto simp: dao_cancel_proposal_def ok_rules Let_def split del: if_split)

lemma dao_step_inv: "dao_step env s s' \<Longrightarrow> dao_inv s \<Longrightarrow> dao_inv s'"
proof (induction rule: dao_step.induct)
  case (propose p d s s')
  let ?n = "unwrap_or (dao_proposal_counter s) 0"
  have s': "dao_proposal_counter s' = Some (Suc ?n)" "dao_votes s' = dao_votes s" "dao_proposals s' = (dao_proposals s)(?n \<mapsto> the (dao_proposals s' ?n))"
    and q: "dp_id (the (dao_proposals s' ?n)) = ?n" "dp_status (the (dao_proposals s' ?n)) = Active" "dp_for_votes (the (dao_proposals s' ?n)) = 0"
      "dp_against_votes (the (dao_proposals s' ?n)) = 0" "dp_voting_end_ledger (the (dao_proposals s' ?n)) \<le> dp_timelock_end_ledger (the (dao_proposals s' ?n))"
    using propose(1) dao_propose_Ok[of env p d s _ s'] by (auto simp: commits_iff)
  have b: "ballots_ok ?n (dao_votes s)" using propose(2) by (auto simp: dao_inv_def)
  then have b': "ballots_ok (Suc ?n) (dao_votes s)" by (auto simp: ballots_ok_def less_Suc_eq)
  have new: "proposal_ok (Suc ?n) (dao_votes s) ?n (the (dao_proposals s' ?n))" using q by (simp add: proposal_ok_def ballots_none[OF b])
  have old: "dao_proposals s' j = dao_proposals s j" if "j \<noteq> ?n" for j using s'(3) that by (metis fun_upd_other)
  have "proposal_ok (Suc ?n) (dao_votes s) j r" if "dao_proposals s' j = Some r" for j r
    using that new dao_inv_get[OF propose(2), of j r] old[of j] by (cases "j = ?n") (auto simp: proposal_ok_def)
  with b' show ?case by (simp add: dao_inv_def s'(1,2))
next
  case (vote a i d s s')
  let ?n = "unwrap_or (dao_proposal_counter s) 0"
  obtain p where p: "dao_proposals s i = Some p" "dp_status p = Active" "dao_votes s (i, a) = None"
    and s': "dao_proposal_counter s' = dao_proposal_counter s"
      "dao_votes s' = (dao_votes s)((i, a) \<mapsto> \<lparr>vr_voter = a, vr_proposal_id = i, vr_direction = d, vr_power = PLACEHOLDER_POWER\<rparr>)"
      "dao_proposals s' = (dao_proposals s)(i \<mapsto> (case d of For \<Rightarrow> p\<lparr>dp_for_votes := dp_for_votes p + PLACEHOLDER_POWER\<rparr>
        | Against \<Rightarrow> p\<lparr>dp_against_votes := dp_against_votes p + PLACEHOLDER_POWER\<rparr>))"
    using vote(1) by (auto simp: commits_iff dest!: vote_Ok)
  have b: "ballots_ok ?n (dao_votes s)" "finite (dom (dao_votes s))" and q: "\<And>j q. dao_proposals s j = Some q \<Longrightarrow> proposal_ok ?n (dao_votes s) j q"
    using vote(2) by (auto simp: dao_inv_def ballots_ok_def)
  have "ballots_ok ?n (dao_votes s')" using b q[OF p(1)] by (auto simp: ballots_ok_def s' proposal_ok_def)
  moreover have "proposal_ok ?n (dao_votes s') j r" if "dao_proposals s' j = Some r" for j r
  proof (cases "j = i")
    case True
    then show ?thesis using that q[OF p(1)] votes_for_new[OF b(2) p(3)]
      by (cases d) (auto simp: s' proposal_ok_def)
  next
    case False
    then show ?thesis using that q[of j r] by (simp add: s' proposal_ok_def votes_for_upd)
  qed
  ultimately show ?case by (simp add: dao_inv_def s'(1))
next
  case (execute i s s')
  then show ?case using dao_inv_status[of s i _ Executed s'] by (auto simp: commits_iff dest!: dao_execute_Ok)
next
  case (cancel p i s s')
  then show ?case using dao_inv_status[of s i _ Cancelled s'] by (auto simp: commits_iff dest!: cancel_Ok)
qed (auto simp: commits_iff dao_initialize_def treasury_transfer_def ok_rules Let_def dao_inv_def split del: if_split)

interpretation dao: step_system "\<lambda>s s'. \<exists>env. dao_step env s s'" "dao_inv :: 'a dao_store_scheme \<Rightarrow> bool"
  by unfold_locales (auto intro: dao_step_inv)

text \<open>A decided proposal is never touched again.\<close>

lemma dao_step_final: "dao_step env s s' \<Longrightarrow> dao_inv s \<Longrightarrow> dao_proposals s i = Some p \<Longrightarrow> dp_status p \<noteq> Active \<Longrightarrow> dao_proposals s' i = Some p"
proof (induction rule: dao_step.induct)
  case (propose q d s s')
  then have "i < unwrap_or (dao_proposal_counter s) 0" using dao_inv_get[of s i p] by (simp add: proposal_ok_def)
  then show ?case using propose dao_propose_Ok[of env q d s _ s'] by (auto simp: commits_iff) (metis fun_upd_apply nat_neq_iff)
next
  case (execute j s s')
  then have "dp_status p \<noteq> Passed" using dao_inv_get[of s i p] by (auto simp: proposal_ok_def)
  then show ?case using execute by (auto simp: commits_iff dest!: dao_execute_Ok split: if_splits)
next
  case (vote a j d s s')
  then show ?case by (auto simp: commits_iff dest!: vote_Ok)
next
  case (cancel a j s s')
  then show ?case by (auto simp: commits_iff dest!: cancel_Ok)
qed (auto simp: commits_iff dao_initialize_def treasury_transfer_def ok_rules Let_def split del: if_split)

lemma dao_run_final:
  "(\<lambda>s s'. \<exists>env. dao_step env s s')\<^sup>*\<^sup>* s t \<Longrightarrow> dao_inv s \<Longrightarrow> dao_proposals s i = Some p \<Longrightarrow> dp_status p \<noteq> Active \<Longrightarrow> dao_proposals t i = Some p"
proof (induction rule: rtranclp_induct)
  case (step t u)
  then show ?case using dao.run_inv[OF step(1)] dao_step_final[of _ t u i p] by blast
qed

text \<open>A proposal that an initialised DAO has accepted.\<close>

definition fresh_dao :: dao_store where
  "fresh_dao = stake_store.extend no_stakes
     \<lparr>dao_address = Some (Addr 9), dao_staking_contract = Some (Addr 8), dao_governance_contract = Some (Addr 7),
      dao_config = Some \<lparr>dc_quorum_basis_points = 1000, dc_voting_period_ledgers = 10, dc_timelock_duration_ledgers = 5, dc_proposal_threshold = 0\<rparr>,
      dao_proposal_counter = None, dao_proposals = Map.empty, dao_votes = Map.empty\<rparr>"

lemma fresh_dao_simps: "dao_config fresh_dao = Some \<lparr>dc_quorum_basis_points = 1000, dc_voting_period_ledgers = 10, dc_timelock_duration_ledgers = 5, dc_proposal_threshold = 0\<rparr>"
    "dao_proposal_counter fresh_dao = None" "dao_proposals fresh_dao = Map.empty" "dao_votes fresh_dao = Map.empty"
  by (simp_all add: fresh_dao_def stake_store.defs)

lemma fresh_dao_inv: "dao_inv fresh_dao"
  by (simp add: dao_inv_def ballots_ok_def fresh_dao_simps)

section \<open>Property\<close>

text \<open>C22. The life of a DAO proposal. After any run, the totals of a proposal are the sums of the recorded votes, one per address; its
  stored status is active, executed or cancelled, and once it is not active the proposal never changes; executing succeeds exactly on
  an active proposal past its timelock with more votes for than against, so a proposal is executed at most once. The condition is complete: the
  configured quorum, which the module's documentation promises to enforce, is not part of it, and one vote in favour is enough.\<close>

theorem dao_lifecycle:
  assumes run: "(\<lambda>s s'. \<exists>env. dao_step env s s')\<^sup>*\<^sup>* s t" and inv: "dao_inv s" and p: "dao_get_proposal i t = Ok p"
  shows "dp_for_votes p = msum (votes_for (dao_votes t) i For) \<and> dp_against_votes p = msum (votes_for (dao_votes t) i Against)
    \<and> dp_status p \<in> {Active, Executed, Cancelled}
    \<and> (\<forall>q. dao_get_proposal i s = Ok q \<and> dp_status q \<noteq> Active \<longrightarrow> q = p)
    \<and> ((\<exists>u. dao_execute_proposal env i t = (Ok (), u)) \<longleftrightarrow> dp_status p = Active \<and> dao_config t \<noteq> None \<and> dp_timelock_end_ledger p \<le> sequence env
         \<and> dp_against_votes p < dp_for_votes p \<and> in_i128 (dp_for_votes p + dp_against_votes p))"
proof -
  have t: "dao_inv t" using dao.run_inv[OF run inv] .
  have get: "dao_get_proposal i x = Ok y \<longleftrightarrow> dao_proposals x i = Some y" for x y by (simp add: dao_get_proposal_def split: option.split)
  note p' = p[unfolded get]
  note ok = dao_inv_get[OF t p']
  have nn: "0 \<le> dp_against_votes p" using ok t votes_nonneg[of _ "dao_votes t" i Against] by (auto simp: proposal_ok_def dao_inv_def)
  have exec: "(\<exists>u. dao_execute_proposal env i t = (Ok (), u)) \<longleftrightarrow> dp_status p = Active \<and> dao_config t \<noteq> None \<and> dp_timelock_end_ledger p \<le> sequence env
         \<and> dp_against_votes p < dp_for_votes p \<and> in_i128 (dp_for_votes p + dp_against_votes p)" (is "?l = ?r")
  proof
    assume ?l
    then obtain u where "dao_execute_proposal env i t = (Ok (), u)" by blast
    from dao_execute_Ok[OF this] p' ok show ?r by (auto simp: proposal_ok_def split: if_splits)
  next
    assume r: ?r
    with nn p' show ?l by (auto simp: dao_execute_proposal_def Let_def ck_in)
  qed
  have "q = p" if "dao_get_proposal i s = Ok q" "dp_status q \<noteq> Active" for q
    using dao_run_final[OF run inv, of i q] that p' by (simp add: get)
  with exec ok show ?thesis by (simp add: proposal_ok_def)
qed

theorem dao_lifecycle_witness:
  "\<exists>s p. dao_create_proposal (signed_at 5 7) (Addr 2) ''p'' fresh_dao = (Ok 0, s) \<and> dao_get_proposal 0 s = Ok p \<and> dp_status p = Active
     \<and> \<not> (\<exists>u. dao_execute_proposal (signed_at 9 30) 0 s = (Ok (), u))"
proof -
  let ?p = "\<lparr>dp_id = 0, dp_proposer = Addr 2, dp_description = ''p'', dp_voting_start_ledger = 7, dp_voting_end_ledger = 17, dp_timelock_end_ledger = 22,
      dp_status = Active, dp_for_votes = 0, dp_against_votes = 0\<rparr>"
  obtain s where ok: "dao_create_proposal (signed_at 5 7) (Addr 2) ''p'' fresh_dao = (Ok 0, s)" and p: "dao_get_proposal 0 s = Ok ?p"
    by (simp add: dao_create_proposal_def fresh_dao_simps Let_def checked_add_def dao_get_proposal_def)
  have run: "(\<lambda>s s'. \<exists>env. dao_step env s s')\<^sup>*\<^sup>* fresh_dao s"
    using dao_step.propose commitsI[where f = "dao_create_proposal (signed_at 5 7) (Addr 2) ''p''", OF ok] by blast
  show ?thesis using dao_lifecycle[OF run fresh_dao_inv p, of "signed_at 9 30"] ok p by auto
qed

end
