(* ===== verification/Fraud_Detection.thy ===== *)
theory Fraud_Detection
  imports Prelude
begin

text \<open>
  \<open>src/fraud_detection.rs\<close>: a rolling window of event magnitudes and a fraud profile per player. The window lives in temporary
  storage, which the host may drop at any time, so its expiry is a step of its own.
\<close>

section \<open>Model\<close>

datatype FraudError = PlayerBlocked

abbreviation WINDOW_SIZE :: nat where "WINDOW_SIZE \<equiv> 20"
abbreviation MIN_SAMPLES :: nat where "MIN_SAMPLES \<equiv> 4"
abbreviation ANOMALY_RATIO_PCT :: u64 where "ANOMALY_RATIO_PCT \<equiv> 300"
abbreviation ANOMALY_SCORE_INCREMENT :: u32 where "ANOMALY_SCORE_INCREMENT \<equiv> 25"
abbreviation SUSPICION_THRESHOLD :: u32 where "SUSPICION_THRESHOLD \<equiv> 50"
abbreviation FLAGS_BEFORE_BLOCK :: u32 where "FLAGS_BEFORE_BLOCK \<equiv> 3"
abbreviation MAX_SCORE :: u32 where "MAX_SCORE \<equiv> 100"
abbreviation SCORE_DECAY :: u32 where "SCORE_DECAY \<equiv> 5"

record FraudProfile =
  fp_score :: u32
  fp_flag_count :: u32
  fp_blocked :: bool
  fp_total_events :: u64

record FraudCheckResult =
  fc_score :: u32
  fc_anomalous :: bool
  fc_blocked :: bool
  fc_bot_suspected :: bool

definition default_profile :: FraudProfile where
  "default_profile = \<lparr>fp_score = 0, fp_flag_count = 0, fp_blocked = False, fp_total_events = 0\<rparr>"

record fraud_store = host +
  fraud_windows :: "address \<rightharpoonup> u64 list"
  fraud_profiles :: "address \<rightharpoonup> FraudProfile"

text \<open>The loop of \<open>Iterator::sum\<close>, whose additions trap.\<close>

fun sum_u64 :: "u64 \<Rightarrow> u64 list \<Rightarrow> u64 option" where
  "sum_u64 acc [] = Some acc"
| "sum_u64 acc (x # xs) = (case checked_add u64_max acc x of None \<Rightarrow> None | Some acc' \<Rightarrow> sum_u64 acc' xs)"

definition is_anomalous :: "u64 list \<Rightarrow> u64 \<Rightarrow> bool option" where
  "is_anomalous window magnitude =
    (let sample_count = length window in
     if sample_count \<ge> MIN_SAMPLES then
       (case sum_u64 0 window of
          None \<Rightarrow> None
        | Some sm \<Rightarrow>
            let avg = sm div sample_count in
            if avg = 0 then Some False
            else let ratio_pct = saturating_mul u64_max magnitude 100 div avg in Some (ratio_pct \<ge> ANOMALY_RATIO_PCT))
     else Some False)"

definition escalate :: "bool \<Rightarrow> FraudProfile \<Rightarrow> (bool \<times> FraudProfile) option" where
  "escalate anomalous profile =
    (case (if anomalous then map_option (min MAX_SCORE) (checked_add u32_max (fp_score profile) ANOMALY_SCORE_INCREMENT)
           else Some (saturating_sub (fp_score profile) SCORE_DECAY)) of
       None \<Rightarrow> None
     | Some score \<Rightarrow>
     let profile = profile\<lparr>fp_score := score\<rparr>;
         (bot_suspected, profile) =
           (if fp_score profile \<ge> SUSPICION_THRESHOLD then
              let profile = profile\<lparr>fp_flag_count := saturating_add u32_max (fp_flag_count profile) 1, fp_score := 0\<rparr> in
              (True, if fp_flag_count profile \<ge> FLAGS_BEFORE_BLOCK then profile\<lparr>fp_blocked := True\<rparr> else profile)
            else (False, profile))
     in Some (bot_suspected, profile\<lparr>fp_total_events := saturating_add u64_max (fp_total_events profile) 1\<rparr>))"

definition push_window :: "u64 \<Rightarrow> u64 list \<Rightarrow> u64 list" where
  "push_window magnitude window = (if length window \<ge> WINDOW_SIZE then tl window else window) @ [magnitude]"

definition get_profile :: "address \<Rightarrow> 'a fraud_store_scheme \<Rightarrow> FraudProfile" where
  "get_profile player s = unwrap_or (fraud_profiles s player) default_profile"

definition event_window :: "address \<Rightarrow> 'a fraud_store_scheme \<Rightarrow> u64 list" where
  "event_window player s = unwrap_or (fraud_windows s player) []"

definition record_event :: "address \<Rightarrow> u64 \<Rightarrow> 'a fraud_store_scheme \<Rightarrow> ('e, FraudCheckResult) outcome \<times> 'a fraud_store_scheme" where
  "record_event player magnitude s =
    (let window = event_window player s; profile = get_profile player s in
     case is_anomalous window magnitude of
       None \<Rightarrow> (Panic, s)
     | Some anomalous \<Rightarrow>
     case escalate anomalous profile of
       None \<Rightarrow> (Panic, s)
     | Some (bot_suspected, profile) \<Rightarrow>
     let s = s\<lparr>fraud_windows := (fraud_windows s)(player \<mapsto> push_window magnitude window), fraud_profiles := (fraud_profiles s)(player \<mapsto> profile)\<rparr>
     in (Ok \<lparr>fc_score = fp_score profile, fc_anomalous = anomalous, fc_blocked = fp_blocked profile, fc_bot_suspected = bot_suspected\<rparr>, s))"

definition is_blocked :: "address \<Rightarrow> 'a fraud_store_scheme \<Rightarrow> bool" where
  "is_blocked player s = fp_blocked (get_profile player s)"

definition enforce_not_blocked :: "address \<Rightarrow> 'a fraud_store_scheme \<Rightarrow> (FraudError, unit) outcome" where
  "enforce_not_blocked player s = (if is_blocked player s then Err PlayerBlocked else Ok ())"

definition clear_block :: "address \<Rightarrow> 'a fraud_store_scheme \<Rightarrow> 'a fraud_store_scheme" where
  "clear_block player s =
    (let profile = (get_profile player s)\<lparr>fp_blocked := False, fp_flag_count := 0, fp_score := 0\<rparr>
     in s\<lparr>fraud_profiles := (fraud_profiles s)(player \<mapsto> profile)\<rparr>)"

section \<open>Well-formed profiles\<close>

text \<open>What is observed of a player: an event and the verdict on it, or a cleared record.\<close>

datatype fraud_obs = Reported address bool | Cleared address | Expired address

inductive fraud_step :: "fraud_obs \<Rightarrow> 'a fraud_store_scheme \<Rightarrow> 'a fraud_store_scheme \<Rightarrow> bool" where
  report: "(record_event p m s :: (unit, FraudCheckResult) outcome \<times> 'a fraud_store_scheme) = (Ok r, s') \<Longrightarrow> fraud_step (Reported p (fc_anomalous r)) s s'"
| clear: "fraud_step (Cleared p) s (clear_block p s)"
| expire: "fraud_step (Expired p) s (s\<lparr>fraud_windows := (fraud_windows s)(p := None)\<rparr>)"

text \<open>The anomalous events of a player since the record was last cleared.\<close>

fun anomalies :: "address \<Rightarrow> fraud_obs list \<Rightarrow> nat" where
  "anomalies p [] = 0"
| "anomalies p (Reported q b # os) = (if q = p \<and> b then Suc (anomalies p os) else anomalies p os)"
| "anomalies p (Cleared q # os) = (if q = p then 0 else anomalies p os)"
| "anomalies p (Expired q # os) = anomalies p os"

definition profile_ok :: "FraudProfile \<Rightarrow> bool" where
  "profile_ok f \<longleftrightarrow> fp_score f < SUSPICION_THRESHOLD \<and> fp_flag_count f \<le> u32_max \<and> fp_total_events f \<le> u64_max \<and> (fp_blocked f \<longleftrightarrow> FLAGS_BEFORE_BLOCK \<le> fp_flag_count f)"

lemma sum_u64_Some: "acc \<le> u64_max \<Longrightarrow> sum_u64 acc xs = Some t \<longleftrightarrow> t = acc + sum_list xs \<and> t \<le> u64_max"
proof (induction xs arbitrary: acc)
  case (Cons x xs)
  show ?case by (cases "acc + x \<le> u64_max") (simp_all add: checked_add_def Cons.IH add.assoc)
qed auto

lemma is_anomalous_Some:
  assumes "is_anomalous w m = Some b"
  shows "b \<longleftrightarrow> MIN_SAMPLES \<le> length w \<and> 0 < sum_list w div length w \<and> ANOMALY_RATIO_PCT \<le> min u64_max (m * 100) div (sum_list w div length w)"
proof (cases "MIN_SAMPLES \<le> length w")
  case True
  then obtain sm where "sum_u64 0 w = Some sm" using assms by (cases "sum_u64 0 w") (simp_all add: is_anomalous_def)
  moreover have "sm = sum_list w" using calculation by (simp add: sum_u64_Some)
  ultimately show ?thesis using assms True by (cases "sm div length w = 0") (simp_all add: is_anomalous_def saturating_mul_def)
next
  case False
  then show ?thesis using assms by (simp add: is_anomalous_def)
qed

lemma escalate_ok:
  assumes "escalate b f = Some (q, f')" "profile_ok f"
  shows "profile_ok f'" "50 * fp_flag_count f' + fp_score f' \<le> 50 * fp_flag_count f + fp_score f + (if b then 25 else 0)"
  using assms by (auto simp: escalate_def profile_ok_def Let_def saturating_add_def saturating_sub_def checked_add_def split: if_splits)

lemma escalate_total:
  assumes "profile_ok f"
  shows "\<exists>q f'. escalate b f = Some (q, f')"
  using assms by (auto simp: escalate_def profile_ok_def Let_def checked_add_def split: prod.split)

lemma default_profile_ok: "profile_ok default_profile"
  by (simp add: profile_ok_def default_profile_def)

lemma push_window_length: "length w \<le> WINDOW_SIZE \<Longrightarrow> length (push_window m w) \<le> WINDOW_SIZE"
  by (auto simp: push_window_def)

lemma record_event_Ok:
  assumes "record_event p m s = (Ok r, s')"
  shows "\<exists>q. is_anomalous (event_window p s) m = Some (fc_anomalous r) \<and> escalate (fc_anomalous r) (get_profile p s) = Some (q, get_profile p s')
    \<and> event_window p s' = push_window m (event_window p s) \<and> (\<forall>p'. p' \<noteq> p \<longrightarrow> get_profile p' s' = get_profile p' s \<and> event_window p' s' = event_window p' s)"
  using assms by (auto simp: record_event_def Let_def get_profile_def event_window_def split: option.splits)

definition fraud_ok :: "'a fraud_store_scheme \<Rightarrow> bool" where
  "fraud_ok s \<longleftrightarrow> (\<forall>p. profile_ok (get_profile p s) \<and> length (event_window p s) \<le> WINDOW_SIZE)"

lemma fraud_step_window:
  assumes "fraud_step o1 s s'" "fraud_ok s"
  shows "length (event_window p s') \<le> WINDOW_SIZE"
  using assms
proof (cases rule: fraud_step.cases)
  case (report q m r)
  then show ?thesis using assms(2) record_event_Ok[OF report(2)] push_window_length[of "event_window q s" m]
    by (cases "p = q") (auto simp: fraud_ok_def)
qed (auto simp: fraud_ok_def event_window_def clear_block_def Let_def)

lemma fraud_step_profile:
  assumes "fraud_step o1 s s'" "fraud_ok s" "50 * fp_flag_count (get_profile p s) + fp_score (get_profile p s) \<le> 25 * a p"
    "\<And>p. a' p = (case o1 of Reported q b \<Rightarrow> if q = p \<and> b then Suc (a p) else a p | Cleared q \<Rightarrow> if q = p then 0 else a p | Expired q \<Rightarrow> a p)"
  shows "profile_ok (get_profile p s') \<and> 50 * fp_flag_count (get_profile p s') + fp_score (get_profile p s') \<le> 25 * a' p"
  using assms(1)
proof (cases rule: fraud_step.cases)
  case (report q m r)
  have ok: "profile_ok (get_profile q s)" "profile_ok (get_profile p s)" using assms(2) by (simp_all add: fraud_ok_def)
  from record_event_Ok[OF report(2)] obtain u where e: "escalate (fc_anomalous r) (get_profile q s) = Some (u, get_profile q s')"
    and oth: "p \<noteq> q \<Longrightarrow> get_profile p s' = get_profile p s" by blast
  show ?thesis using assms(3,4) report(1) escalate_ok[OF e ok(1)] oth ok by (cases "p = q") (auto split: if_splits)
next
  case (clear q)
  then show ?thesis using assms(2-4) by (auto simp: fraud_ok_def clear_block_def get_profile_def profile_ok_def Let_def)
next
  case (expire q)
  then show ?thesis using assms(2-4) by (auto simp: fraud_ok_def get_profile_def)
qed

lemma anomalies_cons:
  "anomalies p (o1 # os) = (case o1 of Reported q b \<Rightarrow> if q = p \<and> b then Suc (anomalies p os) else anomalies p os | Cleared q \<Rightarrow> if q = p then 0 else anomalies p os | Expired q \<Rightarrow> anomalies p os)"
  by (cases o1) auto

definition no_fraud :: fraud_store where
  "no_fraud = \<lparr>events = [], fraud_windows = Map.empty, fraud_profiles = Map.empty\<rparr>"

text \<open>A run from the empty storage: the observations in order, and the state.\<close>

lemma fraud_run:
  assumes "runs fraud_step os s t" "fraud_windows s = Map.empty" "fraud_profiles s = Map.empty"
  shows "fraud_ok t \<and> 50 * fp_flag_count (get_profile p t) + fp_score (get_profile p t) \<le> 25 * anomalies p (rev os)"
  using assms
proof (induction arbitrary: p rule: runs.induct)
  case (runs_nil s)
  then show ?case using default_profile_ok by (simp add: fraud_ok_def get_profile_def event_window_def default_profile_def)
next
  case (runs_snoc os s t o1 u)
  then have ok: "fraud_ok t" and le: "50 * fp_flag_count (get_profile p t) + fp_score (get_profile p t) \<le> 25 * anomalies p (rev os)" for p by auto
  have "profile_ok (get_profile p u) \<and> 50 * fp_flag_count (get_profile p u) + fp_score (get_profile p u) \<le> 25 * anomalies p (rev (os @ [o1]))" for p
    using fraud_step_profile[OF runs_snoc.hyps(2) ok, where a = "\<lambda>p. anomalies p (rev os)" and a' = "\<lambda>p. anomalies p (rev (os @ [o1]))", OF le]
    by (simp add: anomalies_cons)
  with fraud_step_window[OF runs_snoc.hyps(2) ok] show ?case by (simp add: fraud_ok_def)
qed

section \<open>Property\<close>

text \<open>C23. Blocking needs a pattern. After any sequence of reported events, clearances and expired windows, a player is blocked exactly
  when three or more flags stand against them, and then at least six of their events since the last clearance were anomalous, each of
  them at least three times the mean of a window of four to twenty earlier events; a clearance always unblocks.\<close>

theorem fraud_block_needs_anomalies:
  assumes "runs fraud_step os no_fraud s"
  shows "(is_blocked p s \<longleftrightarrow> FLAGS_BEFORE_BLOCK \<le> fp_flag_count (get_profile p s))
    \<and> (is_blocked p s \<longrightarrow> 6 \<le> anomalies p (rev os))
    \<and> length (event_window p s) \<le> WINDOW_SIZE
    \<and> (\<forall>m r s'. record_event p m s = (Ok r, s') \<and> fc_anomalous r \<longrightarrow>
         MIN_SAMPLES \<le> length (event_window p s) \<and> ANOMALY_RATIO_PCT \<le> min u64_max (m * 100) div (sum_list (event_window p s) div length (event_window p s)))
    \<and> enforce_not_blocked p (clear_block p s) = Ok ()"
proof -
  have run: "fraud_ok s" "50 * fp_flag_count (get_profile p s) + fp_score (get_profile p s) \<le> 25 * anomalies p (rev os)"
    using fraud_run[OF assms, of p] by (simp_all add: no_fraud_def)
  have cl: "enforce_not_blocked p (clear_block p s) = Ok ()" by (simp add: enforce_not_blocked_def is_blocked_def clear_block_def get_profile_def Let_def)
  have an: "MIN_SAMPLES \<le> length (event_window p s) \<and> ANOMALY_RATIO_PCT \<le> min u64_max (m * 100) div (sum_list (event_window p s) div length (event_window p s))"
    if "record_event p m s = (Ok r, s')" "fc_anomalous r" for m r s'
    using is_anomalous_Some[of "event_window p s" m True] record_event_Ok[OF that(1)] that(2) by auto
  show ?thesis using run cl an by (auto simp: fraud_ok_def profile_ok_def is_blocked_def)
qed

theorem fraud_block_needs_anomalies_witness:
  "\<exists>s :: fraud_store. \<exists>r :: FraudCheckResult. (record_event (Addr 2) 7 no_fraud :: (unit, FraudCheckResult) outcome \<times> fraud_store) = (Ok r, s) \<and> \<not> is_blocked (Addr 2) s"
proof -
  obtain s r where ok: "(record_event (Addr 2) 7 no_fraud :: (unit, FraudCheckResult) outcome \<times> fraud_store) = (Ok r, s)" and na: "\<not> fc_anomalous r"
    by (simp add: record_event_def no_fraud_def get_profile_def event_window_def is_anomalous_def escalate_def default_profile_def saturating_sub_def Let_def)
  have "runs fraud_step [Reported (Addr 2) (fc_anomalous r)] no_fraud s" using fraud_step.report[OF ok] by (rule runs_single)
  from fraud_block_needs_anomalies[OF this, of "Addr 2"] na ok show ?thesis by auto
qed

end
