(* ===== verification/Reputation.thy ===== *)
theory Reputation
  imports Fraud_Detection
begin

text \<open>
  \<open>src/reputation.rs\<close>: scores between 1 and 100, behaviour records, dispute reports and bans. A \<open>u32\<close> score is cast to \<open>i32\<close>
  before points are added, and the plain \<open>i32\<close> and \<open>u32\<close> operators trap.
\<close>

section \<open>Model\<close>

datatype ReputationError = Unauthorized | ReputationNotFound | InvalidScore | ReportNotFound | MaxReportsExceeded | InvalidBehavior | AlreadyBanned | NotInitialized

datatype BehaviorType = Positive | Negative | Neutral

datatype ReportStatus = Pending | Resolved | Dismissed | Appealed

datatype ReputationSource = GameAchievement | CommunityContribution | EconomicActivity | GovernanceParticipation | SocialBehavior

datatype ReputationLevel = Newcomer | Scout | Contributor | Veteran | Legend

abbreviation MIN_REPUTATION :: u32 where "MIN_REPUTATION \<equiv> 1"
abbreviation MAX_REPUTATION :: u32 where "MAX_REPUTATION \<equiv> 100"
abbreviation INITIAL_REPUTATION :: u32 where "INITIAL_REPUTATION \<equiv> 50"
abbreviation MAX_ACTIVE_REPORTS :: nat where "MAX_ACTIVE_REPORTS \<equiv> 1000"
abbreviation REPUTATION_DECAY_BPS_PER_MONTH :: u32 where "REPUTATION_DECAY_BPS_PER_MONTH \<equiv> 500"

record ReputationBenefit =
  rb_level :: ReputationLevel
  rb_voting_weight_bonus_bps :: u32
  rb_fee_discount_bps :: u32
  rb_priority_support :: bool

record ReputationScore =
  rs_player :: address
  rs_score :: u32
  rs_total_reports :: u32
  rs_positive_actions :: u32
  rs_negative_actions :: u32
  rs_last_updated :: u64

record BehaviorRecord =
  br_id :: u64
  br_player :: address
  br_behavior_type :: BehaviorType
  br_description :: string
  br_points_change :: int
  br_timestamp :: u64
  br_reporter :: address

record DisputeReport =
  dr_id :: u64
  dr_reporter :: address
  dr_accused :: address
  dr_reason :: string
  dr_evidence :: string
  dr_status :: ReportStatus
  dr_created_at :: u64
  dr_resolved_at :: u64

record rep_store = fraud_store +
  rep_scores :: "address \<rightharpoonup> ReputationScore"
  rep_history :: "address \<rightharpoonup> BehaviorRecord list"
  rep_report_count :: "address \<rightharpoonup> u32"
  rep_disputes :: "DisputeReport list option"
  rep_admins :: "address list option"
  rep_bans :: "address \<rightharpoonup> bool"

fun source_points :: "ReputationSource \<Rightarrow> int" where
  "source_points GameAchievement = 4"
| "source_points CommunityContribution = 8"
| "source_points EconomicActivity = 3"
| "source_points GovernanceParticipation = 5"
| "source_points SocialBehavior = 2"

definition level_for_score :: "u32 \<Rightarrow> ReputationLevel" where
  "level_for_score score = (if score \<le> 20 then Newcomer else if score \<le> 40 then Scout else if score \<le> 65 then Contributor else if score \<le> 85 then Veteran else Legend)"

fun benefits_at :: "ReputationLevel \<Rightarrow> ReputationBenefit" where
  "benefits_at Newcomer = \<lparr>rb_level = Newcomer, rb_voting_weight_bonus_bps = 0, rb_fee_discount_bps = 0, rb_priority_support = False\<rparr>"
| "benefits_at Scout = \<lparr>rb_level = Scout, rb_voting_weight_bonus_bps = 100, rb_fee_discount_bps = 25, rb_priority_support = False\<rparr>"
| "benefits_at Contributor = \<lparr>rb_level = Contributor, rb_voting_weight_bonus_bps = 250, rb_fee_discount_bps = 50, rb_priority_support = True\<rparr>"
| "benefits_at Veteran = \<lparr>rb_level = Veteran, rb_voting_weight_bonus_bps = 500, rb_fee_discount_bps = 100, rb_priority_support = True\<rparr>"
| "benefits_at Legend = \<lparr>rb_level = Legend, rb_voting_weight_bonus_bps = 750, rb_fee_discount_bps = 150, rb_priority_support = True\<rparr>"

definition benefits_for_score :: "u32 \<Rightarrow> ReputationBenefit" where
  "benefits_for_score score = benefits_at (level_for_score score)"

fun decay_loop :: "nat \<Rightarrow> u32 \<Rightarrow> u32" where
  "decay_loop 0 decayed = decayed"
| "decay_loop (Suc n) decayed =
    (let loss = (decayed * REPUTATION_DECAY_BPS_PER_MONTH div 10000) mod 2 ^ 32
     in decay_loop n (max (saturating_sub decayed (max loss 1)) MIN_REPUTATION))"

definition apply_monthly_decay :: "u32 \<Rightarrow> u32 \<Rightarrow> u32" where
  "apply_monthly_decay score inactive_months = decay_loop inactive_months (min (max score MIN_REPUTATION) MAX_REPUTATION)"

text \<open>\<open>x as i32\<close> of a \<open>u32\<close>, and the \<open>i32\<close> operators that trap.\<close>

abbreviation i32_max :: int where "i32_max \<equiv> 2147483647"
abbreviation i32_min :: int where "i32_min \<equiv> - 2147483648"

definition as_i32 :: "u32 \<Rightarrow> int" where
  "as_i32 x = (if x < 2 ^ 31 then int x else int x - 2 ^ 32)"

definition ck32 :: "int \<Rightarrow> int option" where
  "ck32 x = (if i32_min \<le> x \<and> x \<le> i32_max then Some x else None)"

definition initialize_reputation :: "env \<Rightarrow> address \<Rightarrow> 'a rep_store_scheme \<Rightarrow> (ReputationError, unit) outcome \<times> 'a rep_store_scheme" where
  "initialize_reputation env admin s =
    (if \<not> auth env admin then (Panic, s)
     else let s = s\<lparr>rep_admins := Some (unwrap_or (rep_admins s) [] @ [admin])\<rparr>
          in (Ok (), publish [SS ''rep'', SS ''init''] [SA admin] s))"

definition create_player_reputation :: "env \<Rightarrow> address \<Rightarrow> 'a rep_store_scheme \<Rightarrow> (ReputationError, unit) outcome \<times> 'a rep_store_scheme" where
  "create_player_reputation env player s =
    (if rep_scores s player \<noteq> None then (Ok (), s)
     else let score = \<lparr>rs_player = player, rs_score = INITIAL_REPUTATION, rs_total_reports = 0, rs_positive_actions = 0, rs_negative_actions = 0, rs_last_updated = timestamp env\<rparr>;
              s = s\<lparr>rep_scores := (rep_scores s)(player \<mapsto> score)\<rparr>
          in (Ok (), publish [SS ''rep'', SS ''create''] [SA player, SU INITIAL_REPUTATION] s))"

definition get_reputation_score :: "address \<Rightarrow> 'a rep_store_scheme \<Rightarrow> (ReputationError, u32) outcome" where
  "get_reputation_score player s = (case rep_scores s player of None \<Rightarrow> Err ReputationNotFound | Some score \<Rightarrow> Ok (rs_score score))"

definition get_reputation_details :: "address \<Rightarrow> 'a rep_store_scheme \<Rightarrow> (ReputationError, ReputationScore) outcome" where
  "get_reputation_details player s = (case rep_scores s player of None \<Rightarrow> Err ReputationNotFound | Some score \<Rightarrow> Ok score)"

text \<open>The new score: \<open>None\<close> when the addition traps; the result is cast back to \<open>u32\<close>.\<close>

definition rescored :: "u32 \<Rightarrow> int \<Rightarrow> u32 option" where
  "rescored score points = map_option (\<lambda>n. nat ((if points > 0 then max n 1 else max (min n 100) 1) mod 2 ^ 32)) (ck32 (as_i32 score + points))"

definition count_action :: "BehaviorType \<Rightarrow> ReputationScore \<Rightarrow> ReputationScore option" where
  "count_action behavior_type score = (case behavior_type of
     Positive \<Rightarrow> map_option (\<lambda>n. score\<lparr>rs_positive_actions := n\<rparr>) (checked_add u32_max (rs_positive_actions score) 1)
   | Negative \<Rightarrow> map_option (\<lambda>n. score\<lparr>rs_negative_actions := n\<rparr>) (checked_add u32_max (rs_negative_actions score) 1)
   | Neutral \<Rightarrow> Some score)"

fun behavior_code :: "BehaviorType \<Rightarrow> nat" where
  "behavior_code Positive = 0"
| "behavior_code Negative = 1"
| "behavior_code Neutral = 2"

definition push_history :: "BehaviorRecord \<Rightarrow> BehaviorRecord list \<Rightarrow> BehaviorRecord list" where
  "push_history r history = (let history = history @ [r] in if length history > 100 then tl history else history)"

definition record_behavior :: "env \<Rightarrow> address \<Rightarrow> BehaviorType \<Rightarrow> string \<Rightarrow> int \<Rightarrow> address \<Rightarrow> 'a rep_store_scheme \<Rightarrow> (ReputationError, unit) outcome \<times> 'a rep_store_scheme" where
  "record_behavior env player behavior_type description points reporter s =
    (if \<not> auth env reporter then (Panic, s)
     else if points = i32_min then (Panic, s)
     else if \<bar>points\<bar> > 20 then (Err InvalidBehavior, s)
     else case rep_scores s player of
       None \<Rightarrow> (Err ReputationNotFound, s)
     | Some score \<Rightarrow>
     case rescored (rs_score score) points of
       None \<Rightarrow> (Panic, s)
     | Some new_score \<Rightarrow>
     if new_score > MAX_REPUTATION \<or> new_score < MIN_REPUTATION then (Err InvalidScore, s)
     else let score = score\<lparr>rs_score := new_score, rs_last_updated := timestamp env\<rparr> in
     case count_action behavior_type score of
       None \<Rightarrow> (Panic, s)
     | Some score \<Rightarrow>
     let r = \<lparr>br_id = sequence env, br_player = player, br_behavior_type = behavior_type, br_description = description, br_points_change = points,
              br_timestamp = timestamp env, br_reporter = reporter\<rparr>;
         history = push_history r (unwrap_or (rep_history s player) []);
         s = s\<lparr>rep_scores := (rep_scores s)(player \<mapsto> score), rep_history := (rep_history s)(player \<mapsto> history)\<rparr>
     in (Ok (), publish [SS ''rep'', SS ''update''] [SA player, SU (rs_score score), SU (behavior_code behavior_type)] s))"

definition submit_report :: "env \<Rightarrow> address \<Rightarrow> address \<Rightarrow> string \<Rightarrow> string \<Rightarrow> 'a rep_store_scheme \<Rightarrow> (ReputationError, u64) outcome \<times> 'a rep_store_scheme" where
  "submit_report env reporter accused reason evidence s =
    (if \<not> auth env reporter then (Panic, s)
     else let disputes = unwrap_or (rep_disputes s) [] in
     if length disputes \<ge> MAX_ACTIVE_REPORTS then (Err MaxReportsExceeded, s)
     else let report_id = sequence env;
         report = \<lparr>dr_id = report_id, dr_reporter = reporter, dr_accused = accused, dr_reason = reason, dr_evidence = evidence, dr_status = Pending,
                   dr_created_at = timestamp env, dr_resolved_at = 0\<rparr>;
         s = s\<lparr>rep_disputes := Some (disputes @ [report])\<rparr> in
     case checked_add u32_max (unwrap_or (rep_report_count s accused) 0) 1 of
       None \<Rightarrow> (Panic, s)
     | Some report_count \<Rightarrow>
     let s = s\<lparr>rep_report_count := (rep_report_count s)(accused \<mapsto> report_count)\<rparr>
     in (Ok report_id, publish [SS ''rep'', SS ''report''] [SA reporter, SA accused, SU report_id] s))"

definition require_rep_admin :: "address \<Rightarrow> 'a rep_store_scheme \<Rightarrow> (ReputationError, unit) outcome \<times> 'a rep_store_scheme" where
  "require_rep_admin admin s = (case rep_admins s of
     None \<Rightarrow> (Err Unauthorized, s)
   | Some admins \<Rightarrow> if admin \<notin> set admins then (Err Unauthorized, s) else (Ok (), s))"

text \<open>The loop of \<open>resolve_report\<close>. The iterator yields copies of the reports: the status is set on the copy, and the list that is
  written back is the one that was read. The result of \<open>record_behavior\<close> is ignored, but a trap is not.\<close>

fun resolve_loop :: "env \<Rightarrow> address \<Rightarrow> u64 \<Rightarrow> bool \<Rightarrow> DisputeReport list \<Rightarrow> DisputeReport list \<Rightarrow> 'a rep_store_scheme \<Rightarrow> (ReputationError, unit) outcome \<times> 'a rep_store_scheme" where
  "resolve_loop env admin report_id resolved disputes [] s = (Err ReportNotFound, s)"
| "resolve_loop env admin report_id resolved disputes (report # rest) s =
    (if dr_id report = report_id then
       (case (if resolved then record_behavior env (dr_accused report) Negative ''Report resolved with sanctions'' (- 5) admin s else (Ok (), s)) of
          (Panic, s) \<Rightarrow> (Panic, s)
        | (_, s) \<Rightarrow> (Ok (), publish [SS ''rep'', SS ''resolve''] [SU report_id, SB resolved] (s\<lparr>rep_disputes := Some disputes\<rparr>)))
     else resolve_loop env admin report_id resolved disputes rest s)"

definition resolve_report :: "env \<Rightarrow> address \<Rightarrow> u64 \<Rightarrow> bool \<Rightarrow> 'a rep_store_scheme \<Rightarrow> (ReputationError, unit) outcome \<times> 'a rep_store_scheme" where
  "resolve_report env admin report_id resolved s =
    (if \<not> auth env admin then (Panic, s)
     else and_then (require_rep_admin admin s) (\<lambda>_ s.
       case rep_disputes s of
         None \<Rightarrow> (Err ReportNotFound, s)
       | Some disputes \<Rightarrow> resolve_loop env admin report_id resolved disputes disputes s))"

definition ban_player :: "env \<Rightarrow> address \<Rightarrow> address \<Rightarrow> 'a rep_store_scheme \<Rightarrow> (ReputationError, unit) outcome \<times> 'a rep_store_scheme" where
  "ban_player env admin player s =
    (if \<not> auth env admin then (Panic, s)
     else and_then (require_rep_admin admin s) (\<lambda>_ s.
       if rep_bans s player \<noteq> None then (Err AlreadyBanned, s)
       else let s = s\<lparr>rep_bans := (rep_bans s)(player \<mapsto> True)\<rparr> in
       case rep_scores s player of
         None \<Rightarrow> (Err ReputationNotFound, s)
       | Some score \<Rightarrow>
       let s = s\<lparr>rep_scores := (rep_scores s)(player \<mapsto> score\<lparr>rs_score := MIN_REPUTATION\<rparr>)\<rparr>
       in (Ok (), publish [SS ''rep'', SS ''ban''] [SA player] s)))"

definition is_player_banned :: "address \<Rightarrow> 'a rep_store_scheme \<Rightarrow> bool" where
  "is_player_banned player s = unwrap_or (rep_bans s player) False"

definition get_player_history :: "address \<Rightarrow> 'a rep_store_scheme \<Rightarrow> BehaviorRecord list" where
  "get_player_history player s = unwrap_or (rep_history s player) []"

definition get_player_report_count :: "address \<Rightarrow> 'a rep_store_scheme \<Rightarrow> u32" where
  "get_player_report_count player s = unwrap_or (rep_report_count s player) 0"

definition get_all_reports :: "'a rep_store_scheme \<Rightarrow> DisputeReport list" where
  "get_all_reports s = unwrap_or (rep_disputes s) []"

definition claim_reputation_reward :: "env \<Rightarrow> address \<Rightarrow> 'a rep_store_scheme \<Rightarrow> (ReputationError, i128) outcome \<times> 'a rep_store_scheme" where
  "claim_reputation_reward env player s =
    (if \<not> auth env player then (Panic, s)
     else case rep_scores s player of
       None \<Rightarrow> (Err ReputationNotFound, s)
     | Some score \<Rightarrow>
     let reward = int (rs_score score) * 100
     in (Ok reward, publish [SS ''rep'', SS ''reward''] [SA player, SI reward] s))"

section \<open>Well-formed storage\<close>

inductive rep_step :: "env \<Rightarrow> 'a rep_store_scheme \<Rightarrow> 'a rep_store_scheme \<Rightarrow> bool" where
  init: "commits (initialize_reputation env a) s s' \<Longrightarrow> rep_step env s s'"
| create: "commits (create_player_reputation env p) s s' \<Longrightarrow> rep_step env s s'"
| behave: "commits (record_behavior env p b d n r) s s' \<Longrightarrow> rep_step env s s'"
| report: "commits (submit_report env r p w e) s s' \<Longrightarrow> rep_step env s s'"
| resolve: "commits (resolve_report env a i b) s s' \<Longrightarrow> rep_step env s s'"
| ban: "commits (ban_player env a p) s s' \<Longrightarrow> rep_step env s s'"
| claim: "commits (claim_reputation_reward env p) s s' \<Longrightarrow> rep_step env s s'"

definition score_ok :: "address \<Rightarrow> ReputationScore \<Rightarrow> bool" where
  "score_ok p r \<longleftrightarrow> rs_player r = p \<and> MIN_REPUTATION \<le> rs_score r \<and> rs_score r \<le> MAX_REPUTATION
     \<and> rs_positive_actions r \<le> u32_max \<and> rs_negative_actions r \<le> u32_max"

definition history_ok :: "address \<Rightarrow> BehaviorRecord list \<Rightarrow> bool" where
  "history_ok p h \<longleftrightarrow> length h \<le> 100 \<and> (\<forall>r\<in>set h. br_player r = p \<and> \<bar>br_points_change r\<bar> \<le> 20)"

definition reports_ok :: "(address \<rightharpoonup> u32) \<Rightarrow> DisputeReport list \<Rightarrow> bool" where
  "reports_ok n ds \<longleftrightarrow> length ds \<le> MAX_ACTIVE_REPORTS \<and> (\<forall>d\<in>set ds. dr_status d = Pending)
     \<and> (\<forall>p. unwrap_or (n p) 0 = length (filter (\<lambda>d. dr_accused d = p) ds))"

definition rep_inv :: "'a rep_store_scheme \<Rightarrow> bool" where
  "rep_inv s \<longleftrightarrow> (\<forall>p r. rep_scores s p = Some r \<longrightarrow> score_ok p r) \<and> (\<forall>p. history_ok p (get_player_history p s))
     \<and> reports_ok (rep_report_count s) (get_all_reports s)"

lemma publish_rep_store [simp]:
  "rep_scores (publish t d s) = rep_scores s" "rep_history (publish t d s) = rep_history s" "rep_report_count (publish t d s) = rep_report_count s"
  "rep_disputes (publish t d s) = rep_disputes s" "rep_admins (publish t d s) = rep_admins s" "rep_bans (publish t d s) = rep_bans s"
  by (simp_all add: publish_def)

lemma rescored_range:
  assumes "MIN_REPUTATION \<le> x" "x \<le> MAX_REPUTATION" "\<bar>n\<bar> \<le> 20"
  shows "rescored x n = Some (nat (if n > 0 then int x + n else max (int x + n) 1))"
  using assms by (auto simp: rescored_def ck32_def as_i32_def)

lemma count_action_ok: "count_action b r = Some r' \<Longrightarrow> score_ok p r \<Longrightarrow> score_ok p r' \<and> rs_score r' = rs_score r"
  by (cases b) (auto simp: count_action_def score_ok_def)

lemma push_history_ok: "history_ok p h \<Longrightarrow> br_player r = p \<Longrightarrow> \<bar>br_points_change r\<bar> \<le> 20 \<Longrightarrow> history_ok p (push_history r h)"
  by (cases h) (auto simp: history_ok_def push_history_def Let_def)

lemma push_history_nonempty [simp]: "push_history r h \<noteq> []"
  by (cases h) (auto simp: push_history_def Let_def)

lemma record_behavior_Ok:
  assumes "record_behavior env p b d n r s = (Ok (), s')"
  shows "\<exists>old new. rep_scores s p = Some old \<and> rep_scores s' = (rep_scores s)(p \<mapsto> new) \<and> MIN_REPUTATION \<le> rs_score new \<and> rs_score new \<le> MAX_REPUTATION
    \<and> rescored (rs_score old) n = Some (rs_score new) \<and> (score_ok p old \<longrightarrow> score_ok p new) \<and> \<bar>n\<bar> \<le> 20
    \<and> rep_history s' = (rep_history s)(p \<mapsto> push_history \<lparr>br_id = sequence env, br_player = p, br_behavior_type = b, br_description = d, br_points_change = n,
         br_timestamp = timestamp env, br_reporter = r\<rparr> (unwrap_or (rep_history s p) []))
    \<and> rep_report_count s' = rep_report_count s \<and> rep_disputes s' = rep_disputes s \<and> rep_admins s' = rep_admins s \<and> rep_bans s' = rep_bans s"
proof -
  from assms obtain old m new where ok: "rep_scores s p = Some old" "\<bar>n\<bar> \<le> 20" "rescored (rs_score old) n = Some m" "m \<le> MAX_REPUTATION" "MIN_REPUTATION \<le> m"
      "count_action b (old\<lparr>rs_score := m, rs_last_updated := timestamp env\<rparr>) = Some new"
    by (auto simp: record_behavior_def Let_def ok_rules)
  have new: "rs_score new = m" using ok(6) by (cases b) (auto simp: count_action_def)
  have "score_ok p old \<longrightarrow> score_ok p new" using count_action_ok[OF ok(6), of p] ok(4,5) by (auto simp: score_ok_def)
  with new ok assms show ?thesis by (intro exI[of _ old] exI[of _ new]) (auto simp: record_behavior_def Let_def ok_rules)
qed

lemma behavior_inv:
  assumes "record_behavior env p b d n r s = (Ok (), s')" "rep_inv s"
  shows "rep_inv s'"
proof -
  from record_behavior_Ok[OF assms(1)] obtain old new :: ReputationScore where ok: "rep_scores s p = Some old" "rep_scores s' = (rep_scores s)(p \<mapsto> new)"
      "score_ok p old \<longrightarrow> score_ok p new" "\<bar>n\<bar> \<le> 20" "rep_history s' = (rep_history s)(p \<mapsto> push_history \<lparr>br_id = sequence env, br_player = p, br_behavior_type = b, br_description = d, br_points_change = n,
         br_timestamp = timestamp env, br_reporter = r\<rparr> (unwrap_or (rep_history s p) []))" "rep_report_count s' = rep_report_count s" "rep_disputes s' = rep_disputes s" by blast
  have "history_ok q (get_player_history q s')" for q
    using assms(2) push_history_ok[of p "unwrap_or (rep_history s p) []"] ok(4,5) by (cases "q = p") (simp_all add: rep_inv_def get_player_history_def)
  moreover have "score_ok q x" if "rep_scores s' q = Some x" for q x
    using that assms(2) ok(1,2,3) by (auto simp: rep_inv_def split: if_splits)
  ultimately show ?thesis using assms(2) ok(6,7) by (simp add: rep_inv_def get_all_reports_def)
qed

lemma resolve_loop_Ok:
  assumes "resolve_loop env a i b ds rest s = (Ok (), s')"
  shows "\<exists>t. rep_disputes s' = Some ds \<and> rep_scores s' = rep_scores t \<and> rep_history s' = rep_history t \<and> rep_report_count s' = rep_report_count t
    \<and> (\<exists>r\<in>set rest. dr_id r = i \<and> (t = s \<or> b \<and> record_behavior env (dr_accused r) Negative ''Report resolved with sanctions'' (- 5) a s = (Ok (), t)))"
  using assms
proof (induction rest)
  case (Cons r rest)
  show ?case
  proof (cases "dr_id r = i")
    case True
    let ?m = "if b then record_behavior env (dr_accused r) Negative ''Report resolved with sanctions'' (- 5) a s else (Ok (), s)"
    obtain x t where m: "?m = (x, t)" by fastforce
    have "x \<noteq> Panic" using Cons.prems True m by auto
    moreover have "t = s" if "x = Err e" for e
      using m that by (auto simp: record_behavior_def Let_def split: if_splits option.splits)
    ultimately have t: "t = s \<or> b \<and> record_behavior env (dr_accused r) Negative ''Report resolved with sanctions'' (- 5) a s = (Ok (), t)"
      using m by (cases x) (auto split: if_splits)
    have "s' = publish [SS ''rep'', SS ''resolve''] [SU i, SB b] (t\<lparr>rep_disputes := Some ds\<rparr>)"
      using Cons.prems True m \<open>x \<noteq> Panic\<close> by (cases x) auto
    with t True show ?thesis by (intro exI[of _ t]) auto
  next
    case False
    with Cons show ?thesis by auto
  qed
qed simp

lemma resolve_report_Ok:
  assumes "resolve_report env a i b s = (Ok (), s')"
  shows "\<exists>t ds. auth env a \<and> rep_admins s \<noteq> None \<and> a \<in> set (the (rep_admins s)) \<and> rep_disputes s = Some ds \<and> rep_disputes s' = Some ds
    \<and> rep_scores s' = rep_scores t \<and> rep_history s' = rep_history t \<and> rep_report_count s' = rep_report_count t
    \<and> (\<exists>r\<in>set ds. dr_id r = i \<and> (t = s \<or> b \<and> record_behavior env (dr_accused r) Negative ''Report resolved with sanctions'' (- 5) a s = (Ok (), t)))"
proof -
  from assms obtain ds admins where "auth env a" "rep_admins s = Some admins" "a \<in> set admins" "rep_disputes s = Some ds" "resolve_loop env a i b ds ds s = (Ok (), s')"
    by (auto simp: resolve_report_def require_rep_admin_def ok_rules)
  with resolve_loop_Ok[OF this(5)] show ?thesis by auto
qed

lemma reports_push:
  assumes "reports_ok n ds" "length ds < MAX_ACTIVE_REPORTS" "dr_status d = Pending"
  shows "reports_ok (n(dr_accused d \<mapsto> unwrap_or (n (dr_accused d)) 0 + 1)) (ds @ [d])"
  using assms by (auto simp: reports_ok_def)

lemma report_inv:
  assumes "submit_report env r p w e s = (Ok i, s')" "rep_inv s"
  shows "rep_inv s'"
proof -
  let ?d = "\<lparr>dr_id = sequence env, dr_reporter = r, dr_accused = p, dr_reason = w, dr_evidence = e, dr_status = Pending, dr_created_at = timestamp env, dr_resolved_at = 0\<rparr>"
  have ok: "length (get_all_reports s) < MAX_ACTIVE_REPORTS" "get_all_reports s' = get_all_reports s @ [?d]" "rep_scores s' = rep_scores s" "rep_history s' = rep_history s"
      "rep_report_count s' = (rep_report_count s)(p \<mapsto> unwrap_or (rep_report_count s p) 0 + 1)"
    using assms(1) by (auto simp: submit_report_def Let_def ok_rules get_all_reports_def)
  then show ?thesis using assms(2) reports_push[of "rep_report_count s" "get_all_reports s" ?d] by (simp add: rep_inv_def get_player_history_def)
qed

lemma rep_inv_scores:
  assumes "rep_inv s" "rep_scores s' = (rep_scores s)(p \<mapsto> r)" "score_ok p r" "rep_history s' = rep_history s" "rep_report_count s' = rep_report_count s" "rep_disputes s' = rep_disputes s"
  shows "rep_inv s'"
  using assms by (simp add: rep_inv_def get_player_history_def get_all_reports_def)

lemma rep_inv_same:
  assumes "rep_inv s" "rep_scores s' = rep_scores s" "rep_history s' = rep_history s" "rep_report_count s' = rep_report_count s" "rep_disputes s' = rep_disputes s"
  shows "rep_inv s'"
  using assms by (simp add: rep_inv_def get_player_history_def get_all_reports_def)

lemma rep_step_inv: "rep_step env s s' \<Longrightarrow> rep_inv s \<Longrightarrow> rep_inv s'"
proof (induction rule: rep_step.induct)
  case (init env a s s')
  then show ?case by (intro rep_inv_same[of s s']) (auto simp: commits_iff initialize_reputation_def Let_def ok_rules)
next
  case (create env p s s')
  show ?case
  proof (cases "rep_scores s p")
    case None
    then show ?thesis using create by (intro rep_inv_scores[of s s' p]) (auto simp: commits_iff create_player_reputation_def Let_def ok_rules score_ok_def)
  next
    case (Some r)
    then show ?thesis using create by (auto simp: commits_iff create_player_reputation_def)
  qed
next
  case (behave env p b d n r s s')
  then show ?case using behavior_inv by (auto simp: commits_iff)
next
  case (report env r p w e s s')
  then show ?case using report_inv by (auto simp: commits_iff)
next
  case (resolve env a i b s s')
  then obtain t ds where t: "rep_disputes s = Some ds" "rep_disputes s' = Some ds" "rep_scores s' = rep_scores t" "rep_history s' = rep_history t"
      "rep_report_count s' = rep_report_count t" "rep_inv t" "t = s \<or> rep_disputes t = Some ds"
    using resolve_report_Ok[of env a i b s s'] behavior_inv record_behavior_Ok by (fastforce simp: commits_iff)
  then show ?case by (intro rep_inv_same[of t s']) auto
next
  case (ban env a p s s')
  then obtain r where "rep_scores s p = Some r" "rep_scores s' = (rep_scores s)(p \<mapsto> r\<lparr>rs_score := MIN_REPUTATION\<rparr>)"
      "rep_history s' = rep_history s" "rep_report_count s' = rep_report_count s" "rep_disputes s' = rep_disputes s"
    by (auto simp: commits_iff ban_player_def require_rep_admin_def Let_def ok_rules)
  with ban show ?case by (intro rep_inv_scores[of s s' p "r\<lparr>rs_score := MIN_REPUTATION\<rparr>"]) (auto simp: rep_inv_def score_ok_def)
next
  case (claim env p s s')
  then show ?case by (intro rep_inv_same[of s s']) (auto simp: commits_iff claim_reputation_reward_def Let_def ok_rules)
qed

interpretation rep: step_system "\<lambda>s s'. \<exists>env. rep_step env s s'" rep_inv
  by unfold_locales (auto intro: rep_step_inv)

text \<open>Resolving a report leaves the list of reports as it was, so the report stays pending.\<close>

lemma report_stays_pending: "resolve_report env a i b s = (Ok (), s') \<Longrightarrow> get_all_reports s' = get_all_reports s"
  by (drule resolve_report_Ok) (auto simp: get_all_reports_def)

lemma record_behavior_traps:
  assumes "rep_scores s p = Some r" "score_ok p r" "auth env q" "\<bar>n\<bar> \<le> 20"
  shows "fst (record_behavior env p b d n q s) = Panic \<longleftrightarrow> int (rs_score r) + n \<le> 100
     \<and> (b = Positive \<and> rs_positive_actions r = u32_max \<or> b = Negative \<and> rs_negative_actions r = u32_max)"
proof -
  have m: "rescored (rs_score r) n = Some (nat (if n > 0 then int (rs_score r) + n else max (int (rs_score r) + n) 1))"
    using rescored_range assms(2,4) by (simp add: score_ok_def)
  have c: "count_action b (r\<lparr>rs_score := m, rs_last_updated := u\<rparr>) = None \<longleftrightarrow> (b = Positive \<and> rs_positive_actions r = u32_max \<or> b = Negative \<and> rs_negative_actions r = u32_max)" for m u
    using assms(2) by (cases b) (auto simp: count_action_def score_ok_def)
  have n: "n \<noteq> i32_min" "\<not> \<bar>n\<bar> > 20" using assms(4) by auto
  let ?m = "nat (if n > 0 then int (rs_score r) + n else max (int (rs_score r) + n) 1)"
  have r: "(?m > MAX_REPUTATION \<or> ?m < MIN_REPUTATION) \<longleftrightarrow> int (rs_score r) + n > 100" using assms(2) by (auto simp: score_ok_def)
  show ?thesis
  proof (cases "int (rs_score r) + n > 100")
    case True
    then have "?m > MAX_REPUTATION \<or> ?m < MIN_REPUTATION" using r by blast
    then show ?thesis using assms(1,3) n m True by (simp add: record_behavior_def Let_def)
  next
    case False
    then have f: "\<not> (?m > MAX_REPUTATION \<or> ?m < MIN_REPUTATION)" using r by blast
    have "fst (record_behavior env p b d n q s) = Panic \<longleftrightarrow> count_action b (r\<lparr>rs_score := ?m, rs_last_updated := timestamp env\<rparr>) = None"
      using assms(1,3) n m f unfolding record_behavior_def Let_def by (simp split: option.split)
    then show ?thesis using c False by simp
  qed
qed

lemma decay_step_bounds:
  assumes "1 \<le> d" "d \<le> (100::nat)"
  shows "(d * 500 div 10000) mod 2 ^ 32 = d div 20"
proof -
  have "d * 500 div 10000 = d div 20" using div_mult_mult2[of 500 d 20] by simp
  moreover have "d div 20 < 2 ^ 32" using assms(2) by simp
  ultimately show ?thesis by simp
qed

lemma decay_loop_bounds:
  assumes "1 \<le> d" "d \<le> 100"
  shows "1 \<le> decay_loop n d \<and> decay_loop n d \<le> max 1 (d - n)"
  using assms
proof (induction n arbitrary: d)
  case (Suc n)
  let ?e = "max (d - max (d div 20) 1) 1"
  have e: "1 \<le> ?e" "?e \<le> max 1 (d - 1)" "?e \<le> 100" using Suc.prems by linarith+
  have "decay_loop (Suc n) d = decay_loop n ?e" using decay_step_bounds[OF Suc.prems] by (simp add: Let_def saturating_sub_def)
  moreover have "max 1 (?e - n) \<le> max 1 (d - Suc n)" using e(2) by linarith
  ultimately show ?case using Suc.IH[OF e(1,3)] by linarith
qed simp

lemma decay_loop_add: "decay_loop (m + n) d = decay_loop n (decay_loop m d)"
  by (induction m arbitrary: d) (simp_all add: Let_def)

definition no_reputation :: rep_store where
  "no_reputation = fraud_store.extend no_fraud \<lparr>rep_scores = Map.empty, rep_history = Map.empty, rep_report_count = Map.empty, rep_disputes = None,
     rep_admins = None, rep_bans = Map.empty\<rparr>"

lemma no_reputation_simps: "rep_scores no_reputation = Map.empty" "rep_history no_reputation = Map.empty" "rep_report_count no_reputation = Map.empty"
    "rep_disputes no_reputation = None" "rep_admins no_reputation = None" "rep_bans no_reputation = Map.empty"
  by (simp_all add: no_reputation_def fraud_store.defs)

lemma no_reputation_inv: "rep_inv no_reputation"
  by (simp add: rep_inv_def reports_ok_def history_ok_def get_player_history_def get_all_reports_def no_reputation_simps)

section \<open>Properties\<close>

text \<open>C24. Stored reputations are well formed. After any run every stored score belongs to its key and lies between 1 and 100, a history
  holds at most 100 records, all of its player and of at most 20 points, and a player's report count is the number of reports that name
  them; recording a behaviour then changes the score by exactly the points, not below 1, is refused exactly when the sum would pass 100,
  and traps only when the counter of actions is full.\<close>

theorem reputation_well_formed:
  assumes run: "(\<lambda>s s'. \<exists>env. rep_step env s s')\<^sup>*\<^sup>* s t" and inv: "rep_inv s" and p: "get_reputation_details p t = Ok r"
    and q: "auth env q" and n: "\<bar>n\<bar> \<le> 20"
  shows "rs_player r = p \<and> 1 \<le> rs_score r \<and> rs_score r \<le> 100 \<and> history_ok p (get_player_history p t)
    \<and> get_player_report_count p t = length (filter (\<lambda>d. dr_accused d = p) (get_all_reports t))
    \<and> (case record_behavior env p b d n q t of
         (Ok _, u) \<Rightarrow> get_reputation_score p u = Ok (nat (max (int (rs_score r) + n) 1)) \<and> get_player_history p u \<noteq> [] \<and> int (rs_score r) + n \<le> 100
       | (Err e, u) \<Rightarrow> e = InvalidScore \<and> 100 < int (rs_score r) + n
       | (Panic, u) \<Rightarrow> b = Positive \<and> rs_positive_actions r = u32_max \<or> b = Negative \<and> rs_negative_actions r = u32_max)"
proof -
  have t: "rep_inv t" using rep.run_inv[OF run inv] .
  have p': "rep_scores t p = Some r" using p by (simp add: get_reputation_details_def split: option.splits)
  have ok: "score_ok p r" "history_ok p (get_player_history p t)" using t p' by (auto simp: rep_inv_def)
  have m: "rescored (rs_score r) n = Some (nat (if n > 0 then int (rs_score r) + n else max (int (rs_score r) + n) 1))"
    using rescored_range ok(1) n by (simp add: score_ok_def)
  obtain x u where x: "record_behavior env p b d n q t = (x, u)" by fastforce
  have c: "case (x, u) of
         (Ok _, u) \<Rightarrow> get_reputation_score p u = Ok (nat (max (int (rs_score r) + n) 1)) \<and> get_player_history p u \<noteq> [] \<and> int (rs_score r) + n \<le> 100
       | (Err e, u) \<Rightarrow> e = InvalidScore \<and> 100 < int (rs_score r) + n
       | (Panic, u) \<Rightarrow> b = Positive \<and> rs_positive_actions r = u32_max \<or> b = Negative \<and> rs_negative_actions r = u32_max"
  proof (cases x)
    case (Ok y)
    then have "record_behavior env p b d n q t = (Ok (), u)" using x by simp
    from record_behavior_Ok[OF this] p' m Ok ok(1) show ?thesis
      by (auto simp: get_reputation_score_def get_player_history_def score_ok_def max_def split: if_splits)
  next
    case (Err e)
    then show ?thesis using x p' m q n ok(1) by (auto simp: record_behavior_def Let_def score_ok_def split: if_splits option.splits)
  next
    case Panic
    then show ?thesis using record_behavior_traps[OF p' ok(1) q n, of b d] x by simp
  qed
  show ?thesis using c x ok t by (auto simp: score_ok_def rep_inv_def reports_ok_def get_player_report_count_def)
qed

theorem reputation_well_formed_witness:
  "\<exists>s. create_player_reputation (signed_at 5 7) (Addr 2) no_reputation = (Ok (), s)
     \<and> (case record_behavior (signed_at 6 8) (Addr 2) Negative ''x'' (- 20) (Addr 3) s of (Ok _, u) \<Rightarrow> get_reputation_score (Addr 2) u = Ok 30 | _ \<Rightarrow> False)"
proof -
  let ?r = "\<lparr>rs_player = Addr 2, rs_score = 50, rs_total_reports = 0, rs_positive_actions = 0, rs_negative_actions = 0, rs_last_updated = 5\<rparr>"
  obtain s where ok: "create_player_reputation (signed_at 5 7) (Addr 2) no_reputation = (Ok (), s)" and d: "get_reputation_details (Addr 2) s = Ok ?r"
    by (simp add: create_player_reputation_def no_reputation_simps get_reputation_details_def Let_def)
  have run: "(\<lambda>s s'. \<exists>env. rep_step env s s')\<^sup>*\<^sup>* no_reputation s"
    using rep_step.create commitsI[where f = "create_player_reputation (signed_at 5 7) (Addr 2)", OF ok] by blast
  show ?thesis using reputation_well_formed[OF run no_reputation_inv d, of "signed_at 6 8" "Addr 3" "- 20" Negative "''x''"] ok
    by (auto split: prod.splits outcome.splits)
qed

text \<open>Decay of an idle reputation. The decayed score stays between 1 and 100, falls by at least one point in every idle month
  until it reaches 1, where it stays, so 99 idle months bring any score down to 1; decaying in two stretches is decaying once.\<close>

lemma reputation_decay:
  "1 \<le> apply_monthly_decay x n \<and> apply_monthly_decay x n \<le> max 1 (min x 100 - n)
    \<and> (99 \<le> n \<longrightarrow> apply_monthly_decay x n = 1)
    \<and> apply_monthly_decay (apply_monthly_decay x m) n = apply_monthly_decay x (m + n)"
proof -
  let ?d = "min (max x 1) 100"
  have b: "1 \<le> decay_loop k ?d \<and> decay_loop k ?d \<le> max 1 (?d - k)" for k by (rule decay_loop_bounds) auto
  have "min (max (decay_loop m ?d) 1) 100 = decay_loop m ?d" using b[of m] by linarith
  moreover have "max 1 (?d - n) \<le> max 1 (min x 100 - n)" by linarith
  moreover have "max 1 (?d - n) = 1" if "99 \<le> n" using that by linarith
  ultimately show ?thesis using b[of n] unfolding apply_monthly_decay_def decay_loop_add by (metis order_antisym order_trans)
qed

lemma reputation_decay_example: "apply_monthly_decay 100 99 = 1"
  using reputation_decay[of 100 99 0] by simp

end
