(* ===== verification/Nft_Marketplace.thy ===== *)
theory Nft_Marketplace
  imports Reputation "HOL-Library.Sublist"
begin

text \<open>
  \<open>src/nft_marketplace.rs\<close>: fixed-price listings, auctions, bundles, item-for-item trade offers, fees with a reputation discount, the
  wash-trading check, search and the sales statistics. The module is compiled into the contract but no entry point of \<open>lib.rs\<close>
  calls it. The four kinds of offers have counters of their own and share the table of escrowed assets.
\<close>

section \<open>Model\<close>

datatype MarketplaceError = InvalidPrice | InvalidAsset | Unauthorized | NotFound | AlreadyExists | SellerListingCapReached | ListingExpired | SelfPurchase
  | AuctionEnded | AuctionNotEnded | BidTooLow | NoBids | AutoBidTooHigh | AuctionAlreadyFinalized | BundleTooLarge | BundleEmpty | TradeOfferExpired
  | TradeOfferNotPending | NotTradeTarget | EscrowFailed | ReleaseEscrowFailed | WashTradingDetected | ArithmeticOverflow

datatype AssetCategory = Resource | ShipNFT | SkinNFT | Blueprint | HousingItem | Badge

datatype Rarity = Common | Uncommon | Rare | Epic | Legendary

datatype TradeOfferStatus = Pending | Accepted | Rejected | Cancelled | Expired

datatype SortOption = PriceLowToHigh | PriceHighToLow | DateNewest | DateOldest | RarityHighToLow

abbreviation LISTING_FEE_BPS :: i128 where "LISTING_FEE_BPS \<equiv> 100"
abbreviation SUCCESS_FEE_BPS :: i128 where "SUCCESS_FEE_BPS \<equiv> 300"
abbreviation BPS_DENOMINATOR :: i128 where "BPS_DENOMINATOR \<equiv> 10000"
abbreviation MAX_BUNDLE_ITEMS :: nat where "MAX_BUNDLE_ITEMS \<equiv> 10"
abbreviation MAX_LISTINGS_PER_SELLER :: nat where "MAX_LISTINGS_PER_SELLER \<equiv> 50"
abbreviation MAX_AUCTIONS_PER_SELLER :: nat where "MAX_AUCTIONS_PER_SELLER \<equiv> 20"
abbreviation MAX_TRADE_OFFERS_PER_USER :: nat where "MAX_TRADE_OFFERS_PER_USER \<equiv> 30"
abbreviation MIN_BID_INCREMENT_BPS :: i128 where "MIN_BID_INCREMENT_BPS \<equiv> 500"
abbreviation AUCTION_EXTENSION_SECONDS :: u64 where "AUCTION_EXTENSION_SECONDS \<equiv> 300"
abbreviation AUCTION_EXTENSION_WINDOW :: u64 where "AUCTION_EXTENSION_WINDOW \<equiv> 300"
abbreviation MAX_AUTO_BID_MULTIPLIER :: i128 where "MAX_AUTO_BID_MULTIPLIER \<equiv> 10"
abbreviation MAX_SEARCH_RESULTS :: nat where "MAX_SEARCH_RESULTS \<equiv> 100"
abbreviation REP_DISCOUNT_TIER_HIGH :: u32 where "REP_DISCOUNT_TIER_HIGH \<equiv> 80"
abbreviation REP_DISCOUNT_HIGH_BPS :: i128 where "REP_DISCOUNT_HIGH_BPS \<equiv> 150"
abbreviation REP_DISCOUNT_TIER_MID :: u32 where "REP_DISCOUNT_TIER_MID \<equiv> 60"
abbreviation REP_DISCOUNT_MID_BPS :: i128 where "REP_DISCOUNT_MID_BPS \<equiv> 75"
abbreviation WASH_TRADE_WINDOW_SECONDS :: u64 where "WASH_TRADE_WINDOW_SECONDS \<equiv> 604800"
abbreviation MAX_FUZZY_NAME_LEN :: nat where "MAX_FUZZY_NAME_LEN \<equiv> 128"

record Asset =
  as_category :: AssetCategory
  as_asset_id :: u64
  as_quantity :: i128
  as_rarity :: Rarity
  as_name :: string

record FixedPriceListing =
  fl_listing_id :: u64
  fl_seller :: address
  fl_asset :: Asset
  fl_price :: i128
  fl_listed_at :: u64
  fl_expires_at :: "u64 option"

record BundleListing =
  bl_listing_id :: u64
  bl_seller :: address
  bl_assets :: "Asset list"
  bl_bundle_price :: i128
  bl_listed_at :: u64
  bl_expires_at :: "u64 option"

record AuctionListing =
  au_auction_id :: u64
  au_seller :: address
  au_asset :: Asset
  au_starting_price :: i128
  au_current_bid :: i128
  au_highest_bidder :: "address option"
  au_started_at :: u64
  au_ends_at :: u64
  au_finalized :: bool

record Bid =
  bd_bidder :: address
  bd_amount :: i128
  bd_timestamp :: u64

record AutoBid =
  ab_bidder :: address
  ab_max_price :: i128
  ab_active :: bool

record TradeOffer =
  tf_offer_id :: u64
  tf_offerer :: address
  tf_target :: address
  tf_offered_assets :: "Asset list"
  tf_requested_assets :: "Asset list"
  tf_created_at :: u64
  tf_expires_at :: u64
  tf_status :: TradeOfferStatus

record SearchFilter =
  sf_category :: "AssetCategory option"
  sf_min_price :: "i128 option"
  sf_max_price :: "i128 option"
  sf_rarity :: "Rarity option"
  sf_sort_by :: SortOption

record MarketplaceStats =
  ms_total_volume :: i128
  ms_total_sales :: u64
  ms_active_listings :: u32
  ms_active_auctions :: u32
  ms_collected_fees :: i128

record SaleRecord =
  sr_seller :: address
  sr_buyer :: address
  sr_price :: i128
  sr_timestamp :: u64

text \<open>The escrow table holds one asset or a vector of assets, depending on who wrote the key.\<close>

datatype escrowed = OneAsset Asset | ManyAssets "Asset list"

record market_store = rep_store +
  mk_listings :: "u64 \<rightharpoonup> FixedPriceListing"
  mk_listing_counter :: "u64 option"
  mk_seller_listings :: "address \<rightharpoonup> u64 list"
  mk_auctions :: "u64 \<rightharpoonup> AuctionListing"
  mk_auction_counter :: "u64 option"
  mk_seller_auctions :: "address \<rightharpoonup> u64 list"
  mk_auction_bids :: "u64 \<rightharpoonup> Bid list"
  mk_auto_bids :: "(u64 \<times> address) \<rightharpoonup> AutoBid"
  mk_bundles :: "u64 \<rightharpoonup> BundleListing"
  mk_bundle_counter :: "u64 option"
  mk_trade_offers :: "u64 \<rightharpoonup> TradeOffer"
  mk_trade_counter :: "u64 option"
  mk_user_trades :: "address \<rightharpoonup> u64 list"
  mk_escrow :: "u64 \<rightharpoonup> escrowed"
  mk_total_volume :: "i128 option"
  mk_total_sales :: "u32 option"
  mk_total_listings :: "u32 option"
  mk_total_auctions :: "u32 option"
  mk_category_volume :: "AssetCategory \<rightharpoonup> i128"
  mk_recent_sales :: "u64 \<rightharpoonup> SaleRecord list"
  mk_collected_fees :: "i128 option"

subsection \<open>Helpers\<close>

definition next_listing_id :: "'a market_store_scheme \<Rightarrow> (u64 \<times> 'a market_store_scheme) option" where
  "next_listing_id s = map_option (\<lambda>n. (n, s\<lparr>mk_listing_counter := Some n\<rparr>)) (checked_add u64_max (unwrap_or (mk_listing_counter s) 0) 1)"

definition next_auction_id :: "'a market_store_scheme \<Rightarrow> (u64 \<times> 'a market_store_scheme) option" where
  "next_auction_id s = map_option (\<lambda>n. (n, s\<lparr>mk_auction_counter := Some n\<rparr>)) (checked_add u64_max (unwrap_or (mk_auction_counter s) 0) 1)"

definition next_bundle_id :: "'a market_store_scheme \<Rightarrow> (u64 \<times> 'a market_store_scheme) option" where
  "next_bundle_id s = map_option (\<lambda>n. (n, s\<lparr>mk_bundle_counter := Some n\<rparr>)) (checked_add u64_max (unwrap_or (mk_bundle_counter s) 0) 1)"

definition next_trade_offer_id :: "'a market_store_scheme \<Rightarrow> (u64 \<times> 'a market_store_scheme) option" where
  "next_trade_offer_id s = map_option (\<lambda>n. (n, s\<lparr>mk_trade_counter := Some n\<rparr>)) (checked_add u64_max (unwrap_or (mk_trade_counter s) 0) 1)"

definition fee_discount_bps :: "address \<Rightarrow> 'a market_store_scheme \<Rightarrow> i128" where
  "fee_discount_bps seller s = (case get_reputation_score seller s of
     Ok score \<Rightarrow> if score \<ge> REP_DISCOUNT_TIER_HIGH then REP_DISCOUNT_HIGH_BPS else if score \<ge> REP_DISCOUNT_TIER_MID then REP_DISCOUNT_MID_BPS else 0
   | _ \<Rightarrow> 0)"

definition calculate_fees :: "address \<Rightarrow> i128 \<Rightarrow> bool \<Rightarrow> 'a market_store_scheme \<Rightarrow> (MarketplaceError, i128 \<times> i128) outcome \<times> 'a market_store_scheme" where
  "calculate_fees seller price is_listing s =
    (let base_fee_bps = if is_listing then LISTING_FEE_BPS else SUCCESS_FEE_BPS;
         effective_fee_bps = max (sat (base_fee_bps - fee_discount_bps seller s)) 0 in
     case ck (price * effective_fee_bps) of
       None \<Rightarrow> (Err ArithmeticOverflow, s)
     | Some product \<Rightarrow>
     let fee = product sdiv BPS_DENOMINATOR in
     case ck (price - fee) of
       None \<Rightarrow> (Err ArithmeticOverflow, s)
     | Some proceeds \<Rightarrow> (Ok (fee, proceeds), s))"

definition recent_sales :: "u64 \<Rightarrow> 'a market_store_scheme \<Rightarrow> SaleRecord list" where
  "recent_sales asset_id s = unwrap_or (mk_recent_sales s asset_id) []"

text \<open>\<open>sale.price as u64\<close> keeps the low 64 bits.\<close>

definition as_u64 :: "i128 \<Rightarrow> u64" where
  "as_u64 x = nat (x mod 2 ^ 64)"

fun wash_loop :: "u64 \<Rightarrow> address \<Rightarrow> SaleRecord list \<Rightarrow> 'a market_store_scheme \<Rightarrow> (MarketplaceError, unit) outcome \<times> 'a market_store_scheme" where
  "wash_loop now buyer [] s = (Ok (), s)"
| "wash_loop now buyer (sale # sales) s =
    (if saturating_sub now (sr_timestamp sale) \<le> WASH_TRADE_WINDOW_SECONDS \<and> sr_seller sale = buyer
     then and_then (record_event buyer (as_u64 (sr_price sale)) s) (\<lambda>_ s. (Err WashTradingDetected, s))
     else wash_loop now buyer sales s)"

definition check_wash_trading :: "env \<Rightarrow> u64 \<Rightarrow> address \<Rightarrow> 'a market_store_scheme \<Rightarrow> (MarketplaceError, unit) outcome \<times> 'a market_store_scheme" where
  "check_wash_trading env asset_id buyer s = wash_loop (timestamp env) buyer (recent_sales asset_id s) s"

definition record_sale :: "env \<Rightarrow> u64 \<Rightarrow> address \<Rightarrow> address \<Rightarrow> i128 \<Rightarrow> 'a market_store_scheme \<Rightarrow> 'a market_store_scheme" where
  "record_sale env asset_id seller buyer price s =
    (let sales = recent_sales asset_id s @ [\<lparr>sr_seller = seller, sr_buyer = buyer, sr_price = price, sr_timestamp = timestamp env\<rparr>];
         sales = if length sales > 10 then drop (length sales - 10) sales else sales
     in s\<lparr>mk_recent_sales := (mk_recent_sales s)(asset_id \<mapsto> sales)\<rparr>)"

definition ascii_lower :: "char \<Rightarrow> char" where
  "ascii_lower b = (if 65 \<le> (of_char b :: nat) \<and> (of_char b :: nat) \<le> 90 then char_of (of_char b + 32 :: nat) else b)"

function rest_matches :: "string \<Rightarrow> string \<Rightarrow> nat \<Rightarrow> nat \<Rightarrow> bool" where
  "rest_matches h n start i =
    (if i < length n then (if ascii_lower (h ! (start + i)) \<noteq> n ! i then False else rest_matches h n start (Suc i)) else True)"
  by pat_completeness auto
termination by (relation "measure (\<lambda>(h, n, start, i). length n - i)") auto

function window_loop :: "string \<Rightarrow> string \<Rightarrow> nat \<Rightarrow> bool" where
  "window_loop h n start =
    (if start \<le> length h - length n then
       (if ascii_lower (h ! start) = ascii_lower (n ! 0) \<and> rest_matches h n start 1 then True else window_loop h n (Suc start))
     else False)"
  by pat_completeness auto
termination by (relation "measure (\<lambda>(h, n, start). Suc (length h - length n) - start)") auto

declare rest_matches.simps [simp del] window_loop.simps [simp del]

definition fuzzy_match :: "string \<Rightarrow> string \<Rightarrow> bool" where
  "fuzzy_match haystack needle =
    (let h_len = length haystack; n_len = length needle in
     if n_len = 0 then True
     else if n_len > h_len then False
     else if h_len > MAX_FUZZY_NAME_LEN \<or> n_len > MAX_FUZZY_NAME_LEN then False
     else window_loop haystack needle 0)"

definition bump :: "u32 option \<Rightarrow> int \<Rightarrow> u32" where
  "bump current delta = (if delta \<ge> 0 then saturating_add u32_max (unwrap_or current 0) (nat delta) else saturating_sub (unwrap_or current 0) (nat (- delta)))"

definition bump_volume :: "i128 \<Rightarrow> 'a market_store_scheme \<Rightarrow> (MarketplaceError, unit) outcome \<times> 'a market_store_scheme" where
  "bump_volume amount s = (case ck (unwrap_or (mk_total_volume s) 0 + amount) of
     None \<Rightarrow> (Err ArithmeticOverflow, s) | Some v \<Rightarrow> (Ok (), s\<lparr>mk_total_volume := Some v\<rparr>))"

definition bump_category_volume :: "AssetCategory \<Rightarrow> i128 \<Rightarrow> 'a market_store_scheme \<Rightarrow> (MarketplaceError, unit) outcome \<times> 'a market_store_scheme" where
  "bump_category_volume category amount s = (case ck (unwrap_or (mk_category_volume s category) 0 + amount) of
     None \<Rightarrow> (Err ArithmeticOverflow, s) | Some v \<Rightarrow> (Ok (), s\<lparr>mk_category_volume := (mk_category_volume s)(category \<mapsto> v)\<rparr>))"

definition bump_collected_fees :: "i128 \<Rightarrow> 'a market_store_scheme \<Rightarrow> (MarketplaceError, unit) outcome \<times> 'a market_store_scheme" where
  "bump_collected_fees amount s = (case ck (unwrap_or (mk_collected_fees s) 0 + amount) of
     None \<Rightarrow> (Err ArithmeticOverflow, s) | Some v \<Rightarrow> (Ok (), s\<lparr>mk_collected_fees := Some v\<rparr>))"

subsection \<open>Fixed-price listings\<close>

definition create_listing :: "env \<Rightarrow> address \<Rightarrow> Asset \<Rightarrow> i128 \<Rightarrow> u64 option \<Rightarrow> 'a market_store_scheme \<Rightarrow> (MarketplaceError, u64) outcome \<times> 'a market_store_scheme" where
  "create_listing env seller asset price expires_at s =
    (if \<not> auth env seller then (Panic, s)
     else if price \<le> 0 then (Err InvalidPrice, s)
     else let seller_listings = unwrap_or (mk_seller_listings s seller) [] in
     if length seller_listings \<ge> MAX_LISTINGS_PER_SELLER then (Err SellerListingCapReached, s)
     else and_then (calculate_fees seller price True s) (\<lambda>(listing_fee, _) s.
     case next_listing_id s of
       None \<Rightarrow> (Panic, s)
     | Some (listing_id, s) \<Rightarrow>
     let listing = \<lparr>fl_listing_id = listing_id, fl_seller = seller, fl_asset = asset, fl_price = price, fl_listed_at = timestamp env, fl_expires_at = expires_at\<rparr>;
         s = s\<lparr>mk_escrow := (mk_escrow s)(listing_id \<mapsto> OneAsset asset)\<rparr>;
         s = s\<lparr>mk_listings := (mk_listings s)(listing_id \<mapsto> listing)\<rparr>;
         s = s\<lparr>mk_seller_listings := (mk_seller_listings s)(seller \<mapsto> seller_listings @ [listing_id])\<rparr>;
         s = s\<lparr>mk_total_listings := Some (bump (mk_total_listings s) 1)\<rparr> in
     and_then (bump_collected_fees listing_fee s) (\<lambda>_ s.
       (Ok listing_id, publish [SS ''market'', SS ''list''] [SA seller, SU listing_id, SI price] s))))"

definition remove_listing :: "address \<Rightarrow> u64 \<Rightarrow> 'a market_store_scheme \<Rightarrow> 'a market_store_scheme" where
  "remove_listing seller listing_id s =
    (let listings = unwrap_or (mk_seller_listings s seller) []
     in s\<lparr>mk_listings := (mk_listings s)(listing_id := None), mk_seller_listings := (mk_seller_listings s)(seller \<mapsto> filter (\<lambda>i. i \<noteq> listing_id) listings)\<rparr>)"

definition expired :: "env \<Rightarrow> u64 option \<Rightarrow> bool" where
  "expired env expires_at = (case expires_at of None \<Rightarrow> False | Some e \<Rightarrow> timestamp env > e)"

definition buy_listing :: "env \<Rightarrow> address \<Rightarrow> u64 \<Rightarrow> 'a market_store_scheme \<Rightarrow> (MarketplaceError, unit) outcome \<times> 'a market_store_scheme" where
  "buy_listing env buyer listing_id s =
    (if \<not> auth env buyer then (Panic, s)
     else case mk_listings s listing_id of
       None \<Rightarrow> (Err NotFound, s)
     | Some listing \<Rightarrow>
     if expired env (fl_expires_at listing) then (Err ListingExpired, s)
     else if fl_seller listing = buyer then (Err SelfPurchase, s)
     else and_then (check_wash_trading env (as_asset_id (fl_asset listing)) buyer s) (\<lambda>_ s.
     and_then (calculate_fees (fl_seller listing) (fl_price listing) False s) (\<lambda>(success_fee, seller_proceeds) s.
     let s = s\<lparr>mk_escrow := (mk_escrow s)(listing_id := None)\<rparr>;
         s = record_sale env (as_asset_id (fl_asset listing)) (fl_seller listing) buyer (fl_price listing) s;
         s = s\<lparr>mk_total_sales := Some (bump (mk_total_sales s) 1)\<rparr> in
     and_then (bump_volume (fl_price listing) s) (\<lambda>_ s.
     and_then (bump_category_volume (as_category (fl_asset listing)) (fl_price listing) s) (\<lambda>_ s.
     and_then (bump_collected_fees success_fee s) (\<lambda>_ s.
     let s = s\<lparr>mk_total_listings := Some (bump (mk_total_listings s) (- 1))\<rparr>;
         s = remove_listing (fl_seller listing) listing_id s
     in (Ok (), publish [SS ''market'', SS ''sold''] [SA buyer, SA (fl_seller listing), SU listing_id, SI (fl_price listing)] s)))))))"

definition cancel_listing :: "env \<Rightarrow> address \<Rightarrow> u64 \<Rightarrow> 'a market_store_scheme \<Rightarrow> (MarketplaceError, unit) outcome \<times> 'a market_store_scheme" where
  "cancel_listing env seller listing_id s =
    (if \<not> auth env seller then (Panic, s)
     else case mk_listings s listing_id of
       None \<Rightarrow> (Err NotFound, s)
     | Some listing \<Rightarrow>
     if fl_seller listing \<noteq> seller then (Err Unauthorized, s)
     else let s = s\<lparr>mk_escrow := (mk_escrow s)(listing_id := None)\<rparr>;
         s = remove_listing seller listing_id s;
         s = s\<lparr>mk_total_listings := Some (bump (mk_total_listings s) (- 1))\<rparr>
     in (Ok (), publish [SS ''market'', SS ''cancel''] [SA seller, SU listing_id] s))"

subsection \<open>Auctions\<close>

definition create_auction :: "env \<Rightarrow> address \<Rightarrow> Asset \<Rightarrow> i128 \<Rightarrow> u64 \<Rightarrow> 'a market_store_scheme \<Rightarrow> (MarketplaceError, u64) outcome \<times> 'a market_store_scheme" where
  "create_auction env seller asset starting_price duration_seconds s =
    (if \<not> auth env seller then (Panic, s)
     else if starting_price \<le> 0 then (Err InvalidPrice, s)
     else let seller_auctions = unwrap_or (mk_seller_auctions s seller) [] in
     if length seller_auctions \<ge> MAX_AUCTIONS_PER_SELLER then (Err SellerListingCapReached, s)
     else case next_auction_id s of
       None \<Rightarrow> (Panic, s)
     | Some (auction_id, s) \<Rightarrow>
     case checked_add u64_max (timestamp env) duration_seconds of
       None \<Rightarrow> (Panic, s)
     | Some ends_at \<Rightarrow>
     let auction = \<lparr>au_auction_id = auction_id, au_seller = seller, au_asset = asset, au_starting_price = starting_price, au_current_bid = starting_price,
           au_highest_bidder = None, au_started_at = timestamp env, au_ends_at = ends_at, au_finalized = False\<rparr>;
         s = s\<lparr>mk_escrow := (mk_escrow s)(auction_id \<mapsto> OneAsset asset)\<rparr>;
         s = s\<lparr>mk_auctions := (mk_auctions s)(auction_id \<mapsto> auction)\<rparr>;
         s = s\<lparr>mk_auction_bids := (mk_auction_bids s)(auction_id \<mapsto> [])\<rparr>;
         s = s\<lparr>mk_seller_auctions := (mk_seller_auctions s)(seller \<mapsto> seller_auctions @ [auction_id])\<rparr>;
         s = s\<lparr>mk_total_auctions := Some (bump (mk_total_auctions s) 1)\<rparr>
     in (Ok auction_id, publish [SS ''auction'', SS ''create''] [SA seller, SU auction_id, SI starting_price] s))"

text \<open>The smallest bid that is accepted; the plain operators trap.\<close>

definition min_bid :: "i128 \<Rightarrow> i128 option" where
  "min_bid current_bid = (case ck (current_bid * MIN_BID_INCREMENT_BPS) of
     None \<Rightarrow> None
   | Some product \<Rightarrow> ck (current_bid + product sdiv BPS_DENOMINATOR))"

definition process_auto_bids :: "u64 \<Rightarrow> i128 \<Rightarrow> 'a market_store_scheme \<Rightarrow> (MarketplaceError, unit) outcome \<times> 'a market_store_scheme" where
  "process_auto_bids auction_id current_high_bid s = (Ok (), s)"

definition place_bid :: "env \<Rightarrow> address \<Rightarrow> u64 \<Rightarrow> i128 \<Rightarrow> 'a market_store_scheme \<Rightarrow> (MarketplaceError, unit) outcome \<times> 'a market_store_scheme" where
  "place_bid env bidder auction_id amount s =
    (if \<not> auth env bidder then (Panic, s)
     else case mk_auctions s auction_id of
       None \<Rightarrow> (Err NotFound, s)
     | Some auction \<Rightarrow>
     if timestamp env > au_ends_at auction then (Err AuctionEnded, s)
     else if au_seller auction = bidder then (Err SelfPurchase, s)
     else case min_bid (au_current_bid auction) of
       None \<Rightarrow> (Panic, s)
     | Some least \<Rightarrow>
     if amount < least then (Err BidTooLow, s)
     else let auction = auction\<lparr>au_current_bid := amount, au_highest_bidder := Some bidder\<rparr>;
         auction = (if saturating_sub (au_ends_at auction) (timestamp env) \<le> AUCTION_EXTENSION_WINDOW
                    then auction\<lparr>au_ends_at := saturating_add u64_max (au_ends_at auction) AUCTION_EXTENSION_SECONDS\<rparr> else auction);
         s = s\<lparr>mk_auctions := (mk_auctions s)(auction_id \<mapsto> auction)\<rparr>;
         bids = unwrap_or (mk_auction_bids s auction_id) [] @ [\<lparr>bd_bidder = bidder, bd_amount = amount, bd_timestamp = timestamp env\<rparr>];
         s = s\<lparr>mk_auction_bids := (mk_auction_bids s)(auction_id \<mapsto> bids)\<rparr> in
     and_then (process_auto_bids auction_id amount s) (\<lambda>_ s.
       (Ok (), publish [SS ''auction'', SS ''bid''] [SA bidder, SU auction_id, SI amount] s)))"

definition set_auto_bid :: "env \<Rightarrow> address \<Rightarrow> u64 \<Rightarrow> i128 \<Rightarrow> 'a market_store_scheme \<Rightarrow> (MarketplaceError, unit) outcome \<times> 'a market_store_scheme" where
  "set_auto_bid env bidder auction_id max_price s =
    (if \<not> auth env bidder then (Panic, s)
     else case mk_auctions s auction_id of
       None \<Rightarrow> (Err NotFound, s)
     | Some auction \<Rightarrow>
     if max_price \<le> au_current_bid auction then (Err BidTooLow, s)
     else case ck (au_starting_price auction * MAX_AUTO_BID_MULTIPLIER) of
       None \<Rightarrow> (Panic, s)
     | Some limit \<Rightarrow>
     if max_price > limit then (Err AutoBidTooHigh, s)
     else let s = s\<lparr>mk_auto_bids := (mk_auto_bids s)((auction_id, bidder) \<mapsto> \<lparr>ab_bidder = bidder, ab_max_price = max_price, ab_active = True\<rparr>)\<rparr>
     in (Ok (), publish [SS ''auction'', SS ''autobid''] [SA bidder, SU auction_id, SI max_price] s))"

definition remove_auction :: "address \<Rightarrow> u64 \<Rightarrow> 'a market_store_scheme \<Rightarrow> 'a market_store_scheme" where
  "remove_auction seller auction_id s =
    (let auctions = unwrap_or (mk_seller_auctions s seller) []
     in s\<lparr>mk_seller_auctions := (mk_seller_auctions s)(seller \<mapsto> filter (\<lambda>i. i \<noteq> auction_id) auctions)\<rparr>)"

definition settle_auction :: "env \<Rightarrow> u64 \<Rightarrow> AuctionListing \<Rightarrow> address \<Rightarrow> 'a market_store_scheme \<Rightarrow> (MarketplaceError, unit) outcome \<times> 'a market_store_scheme" where
  "settle_auction env auction_id auction winner s =
     and_then (check_wash_trading env (as_asset_id (au_asset auction)) winner s) (\<lambda>_ s.
     and_then (calculate_fees (au_seller auction) (au_current_bid auction) False s) (\<lambda>(success_fee, seller_proceeds) s.
     let s = s\<lparr>mk_escrow := (mk_escrow s)(auction_id := None)\<rparr>;
         s = record_sale env (as_asset_id (au_asset auction)) (au_seller auction) winner (au_current_bid auction) s;
         s = s\<lparr>mk_total_sales := Some (bump (mk_total_sales s) 1)\<rparr> in
     and_then (bump_volume (au_current_bid auction) s) (\<lambda>_ s.
     and_then (bump_category_volume (as_category (au_asset auction)) (au_current_bid auction) s) (\<lambda>_ s.
     and_then (bump_collected_fees success_fee s) (\<lambda>_ s.
       (Ok (), publish [SS ''auction'', SS ''won''] [SA winner, SU auction_id, SI (au_current_bid auction)] s))))))"

definition finalize_auction :: "env \<Rightarrow> address \<Rightarrow> u64 \<Rightarrow> 'a market_store_scheme \<Rightarrow> (MarketplaceError, unit) outcome \<times> 'a market_store_scheme" where
  "finalize_auction env caller auction_id s =
    (if \<not> auth env caller then (Panic, s)
     else case mk_auctions s auction_id of
       None \<Rightarrow> (Err NotFound, s)
     | Some auction \<Rightarrow>
     if timestamp env \<le> au_ends_at auction then (Err AuctionNotEnded, s)
     else if au_finalized auction then (Err AuctionAlreadyFinalized, s)
     else let auction = auction\<lparr>au_finalized := True\<rparr>;
         s = s\<lparr>mk_auctions := (mk_auctions s)(auction_id \<mapsto> auction)\<rparr> in
     and_then (case au_highest_bidder auction of
         Some winner \<Rightarrow> settle_auction env auction_id auction winner s
       | None \<Rightarrow> (Ok (), publish [SS ''auction'', SS ''nobids''] [SA (au_seller auction), SU auction_id] (s\<lparr>mk_escrow := (mk_escrow s)(auction_id := None)\<rparr>))) (\<lambda>_ s.
     let s = remove_auction (au_seller auction) auction_id s;
         s = s\<lparr>mk_total_auctions := Some (bump (mk_total_auctions s) (- 1))\<rparr>
     in (Ok (), s)))"

subsection \<open>Bundles\<close>

definition create_bundle :: "env \<Rightarrow> address \<Rightarrow> Asset list \<Rightarrow> i128 \<Rightarrow> u64 option \<Rightarrow> 'a market_store_scheme \<Rightarrow> (MarketplaceError, u64) outcome \<times> 'a market_store_scheme" where
  "create_bundle env seller assets bundle_price expires_at s =
    (if \<not> auth env seller then (Panic, s)
     else if assets = [] then (Err BundleEmpty, s)
     else if length assets > MAX_BUNDLE_ITEMS then (Err BundleTooLarge, s)
     else if bundle_price \<le> 0 then (Err InvalidPrice, s)
     else case next_bundle_id s of
       None \<Rightarrow> (Panic, s)
     | Some (listing_id, s) \<Rightarrow>
     let bundle = \<lparr>bl_listing_id = listing_id, bl_seller = seller, bl_assets = assets, bl_bundle_price = bundle_price, bl_listed_at = timestamp env, bl_expires_at = expires_at\<rparr>;
         s = s\<lparr>mk_escrow := (mk_escrow s)(listing_id \<mapsto> ManyAssets assets)\<rparr>;
         s = s\<lparr>mk_bundles := (mk_bundles s)(listing_id \<mapsto> bundle)\<rparr> in
     and_then (calculate_fees seller bundle_price True s) (\<lambda>(listing_fee, _) s.
     and_then (bump_collected_fees listing_fee s) (\<lambda>_ s.
       (Ok listing_id, publish [SS ''market'', SS ''bundle''] [SA seller, SU listing_id, SI bundle_price] s))))"

definition buy_bundle :: "env \<Rightarrow> address \<Rightarrow> u64 \<Rightarrow> 'a market_store_scheme \<Rightarrow> (MarketplaceError, unit) outcome \<times> 'a market_store_scheme" where
  "buy_bundle env buyer bundle_id s =
    (if \<not> auth env buyer then (Panic, s)
     else case mk_bundles s bundle_id of
       None \<Rightarrow> (Err NotFound, s)
     | Some bundle \<Rightarrow>
     if expired env (bl_expires_at bundle) then (Err ListingExpired, s)
     else if bl_seller bundle = buyer then (Err SelfPurchase, s)
     else and_then (calculate_fees (bl_seller bundle) (bl_bundle_price bundle) False s) (\<lambda>(success_fee, _) s.
     let s = s\<lparr>mk_escrow := (mk_escrow s)(bundle_id := None)\<rparr>;
         s = s\<lparr>mk_total_sales := Some (bump (mk_total_sales s) 1)\<rparr> in
     and_then (bump_volume (bl_bundle_price bundle) s) (\<lambda>_ s.
     and_then (bump_collected_fees success_fee s) (\<lambda>_ s.
     let s = s\<lparr>mk_bundles := (mk_bundles s)(bundle_id := None)\<rparr>
     in (Ok (), publish [SS ''market'', SS ''bndl_sold''] [SA buyer, SA (bl_seller bundle), SU bundle_id] s)))))"

subsection \<open>Trade offers\<close>

definition create_trade_offer :: "env \<Rightarrow> address \<Rightarrow> address \<Rightarrow> Asset list \<Rightarrow> Asset list \<Rightarrow> u64 \<Rightarrow> 'a market_store_scheme \<Rightarrow> (MarketplaceError, u64) outcome \<times> 'a market_store_scheme" where
  "create_trade_offer env offerer target offered_assets requested_assets duration_seconds s =
    (if \<not> auth env offerer then (Panic, s)
     else if offered_assets = [] \<or> requested_assets = [] then (Err InvalidAsset, s)
     else let user_offers = unwrap_or (mk_user_trades s offerer) [] in
     if length user_offers \<ge> MAX_TRADE_OFFERS_PER_USER then (Err SellerListingCapReached, s)
     else case next_trade_offer_id s of
       None \<Rightarrow> (Panic, s)
     | Some (offer_id, s) \<Rightarrow>
     case checked_add u64_max (timestamp env) duration_seconds of
       None \<Rightarrow> (Panic, s)
     | Some expires_at \<Rightarrow>
     let offer = \<lparr>tf_offer_id = offer_id, tf_offerer = offerer, tf_target = target, tf_offered_assets = offered_assets, tf_requested_assets = requested_assets,
           tf_created_at = timestamp env, tf_expires_at = expires_at, tf_status = Pending\<rparr>;
         s = s\<lparr>mk_escrow := (mk_escrow s)(offer_id \<mapsto> ManyAssets offered_assets)\<rparr>;
         s = s\<lparr>mk_trade_offers := (mk_trade_offers s)(offer_id \<mapsto> offer)\<rparr>;
         s = s\<lparr>mk_user_trades := (mk_user_trades s)(offerer \<mapsto> user_offers @ [offer_id])\<rparr>
     in (Ok offer_id, publish [SS ''trade'', SS ''offer''] [SA offerer, SA target, SU offer_id] s))"

definition remove_trade_offer :: "address \<Rightarrow> u64 \<Rightarrow> 'a market_store_scheme \<Rightarrow> 'a market_store_scheme" where
  "remove_trade_offer offerer offer_id s =
    (let offers = unwrap_or (mk_user_trades s offerer) []
     in s\<lparr>mk_user_trades := (mk_user_trades s)(offerer \<mapsto> filter (\<lambda>i. i \<noteq> offer_id) offers)\<rparr>)"

definition accept_trade_offer :: "env \<Rightarrow> address \<Rightarrow> u64 \<Rightarrow> 'a market_store_scheme \<Rightarrow> (MarketplaceError, unit) outcome \<times> 'a market_store_scheme" where
  "accept_trade_offer env target offer_id s =
    (if \<not> auth env target then (Panic, s)
     else case mk_trade_offers s offer_id of
       None \<Rightarrow> (Err NotFound, s)
     | Some offer \<Rightarrow>
     if tf_target offer \<noteq> target then (Err NotTradeTarget, s)
     else if tf_status offer \<noteq> Pending then (Err TradeOfferNotPending, s)
     else if timestamp env > tf_expires_at offer then (Err TradeOfferExpired, s)
     else let s = s\<lparr>mk_trade_offers := (mk_trade_offers s)(offer_id \<mapsto> offer\<lparr>tf_status := Accepted\<rparr>)\<rparr>;
         s = s\<lparr>mk_escrow := (mk_escrow s)(offer_id := None)\<rparr>;
         s = remove_trade_offer (tf_offerer offer) offer_id s
     in (Ok (), publish [SS ''trade'', SS ''accept''] [SA target, SU offer_id] s))"

definition cancel_trade_offer :: "env \<Rightarrow> address \<Rightarrow> u64 \<Rightarrow> 'a market_store_scheme \<Rightarrow> (MarketplaceError, unit) outcome \<times> 'a market_store_scheme" where
  "cancel_trade_offer env caller offer_id s =
    (if \<not> auth env caller then (Panic, s)
     else case mk_trade_offers s offer_id of
       None \<Rightarrow> (Err NotFound, s)
     | Some offer \<Rightarrow>
     if caller \<noteq> tf_offerer offer \<and> caller \<noteq> tf_target offer then (Err Unauthorized, s)
     else if tf_status offer \<noteq> Pending then (Err TradeOfferNotPending, s)
     else let offer = offer\<lparr>tf_status := if caller = tf_offerer offer then Cancelled else Rejected\<rparr>;
         s = s\<lparr>mk_trade_offers := (mk_trade_offers s)(offer_id \<mapsto> offer)\<rparr>;
         s = s\<lparr>mk_escrow := (mk_escrow s)(offer_id := None)\<rparr>;
         s = remove_trade_offer (tf_offerer offer) offer_id s
     in (Ok (), publish [SS ''trade'', SS ''cancel''] [SA caller, SU offer_id] s))"

subsection \<open>Search, statistics and queries\<close>

definition passes :: "string \<Rightarrow> SearchFilter \<Rightarrow> FixedPriceListing \<Rightarrow> bool" where
  "passes query f listing \<longleftrightarrow>
     (case sf_category f of None \<Rightarrow> True | Some cat \<Rightarrow> as_category (fl_asset listing) = cat)
   \<and> (case sf_min_price f of None \<Rightarrow> True | Some lo \<Rightarrow> \<not> fl_price listing < lo)
   \<and> (case sf_max_price f of None \<Rightarrow> True | Some hi \<Rightarrow> \<not> fl_price listing > hi)
   \<and> (case sf_rarity f of None \<Rightarrow> True | Some rarity \<Rightarrow> as_rarity (fl_asset listing) = rarity)
   \<and> (query = [] \<or> fuzzy_match (as_name (fl_asset listing)) query)"

fun search_loop :: "string \<Rightarrow> SearchFilter \<Rightarrow> u64 list \<Rightarrow> FixedPriceListing list \<Rightarrow> 'a market_store_scheme \<Rightarrow> FixedPriceListing list" where
  "search_loop query f [] results s = results"
| "search_loop query f (i # ids) results s =
    (case mk_listings s i of
       Some listing \<Rightarrow>
         if passes query f listing then
           (let results = results @ [listing] in if length results \<ge> MAX_SEARCH_RESULTS then results else search_loop query f ids results s)
         else search_loop query f ids results s
     | None \<Rightarrow> if length results \<ge> MAX_SEARCH_RESULTS then results else search_loop query f ids results s)"

definition sort_listings :: "FixedPriceListing list \<Rightarrow> SortOption \<Rightarrow> FixedPriceListing list" where
  "sort_listings listings sort_by = listings"

definition search_listings :: "string \<Rightarrow> SearchFilter \<Rightarrow> 'a market_store_scheme \<Rightarrow> FixedPriceListing list" where
  "search_listings query f s =
    (let counter = unwrap_or (mk_listing_counter s) 0;
         results = search_loop query f [1 ..< min counter MAX_SEARCH_RESULTS + 1] [] s
     in sort_listings results (sf_sort_by f))"

text \<open>\<open>TotalSales\<close> is written as a \<open>u32\<close> and read back as a \<open>u64\<close>: the conversion of the stored value fails, which traps.\<close>

definition get_marketplace_stats :: "'a market_store_scheme \<Rightarrow> (MarketplaceError, MarketplaceStats) outcome" where
  "get_marketplace_stats s = (case mk_total_sales s of
     Some _ \<Rightarrow> Panic
   | None \<Rightarrow> Ok \<lparr>ms_total_volume = unwrap_or (mk_total_volume s) 0, ms_total_sales = 0, ms_active_listings = unwrap_or (mk_total_listings s) 0,
                ms_active_auctions = unwrap_or (mk_total_auctions s) 0, ms_collected_fees = unwrap_or (mk_collected_fees s) 0\<rparr>)"

definition get_category_volume :: "AssetCategory \<Rightarrow> 'a market_store_scheme \<Rightarrow> i128" where
  "get_category_volume category s = unwrap_or (mk_category_volume s category) 0"

definition get_listing :: "u64 \<Rightarrow> 'a market_store_scheme \<Rightarrow> FixedPriceListing option" where
  "get_listing listing_id s = mk_listings s listing_id"

definition get_auction :: "u64 \<Rightarrow> 'a market_store_scheme \<Rightarrow> AuctionListing option" where
  "get_auction auction_id s = mk_auctions s auction_id"

definition get_bundle :: "u64 \<Rightarrow> 'a market_store_scheme \<Rightarrow> BundleListing option" where
  "get_bundle bundle_id s = mk_bundles s bundle_id"

definition get_trade_offer :: "u64 \<Rightarrow> 'a market_store_scheme \<Rightarrow> TradeOffer option" where
  "get_trade_offer offer_id s = mk_trade_offers s offer_id"

definition get_auction_bids :: "u64 \<Rightarrow> 'a market_store_scheme \<Rightarrow> Bid list" where
  "get_auction_bids auction_id s = unwrap_or (mk_auction_bids s auction_id) []"

section \<open>Matching and fees\<close>

lemma rest_matches_iff: "rest_matches h n start i \<longleftrightarrow> (\<forall>j. i \<le> j \<and> j < length n \<longrightarrow> ascii_lower (h ! (start + j)) = n ! j)"
proof (induction h n start i rule: rest_matches.induct)
  case (1 h n start i)
  have "(\<forall>j. i \<le> j \<and> j < length n \<longrightarrow> Q j) \<longleftrightarrow> (i < length n \<longrightarrow> Q i) \<and> (\<forall>j. Suc i \<le> j \<and> j < length n \<longrightarrow> Q j)" for Q
    by (metis Suc_leD Suc_leI le_neq_implies_less le_refl)
  from this[of "\<lambda>j. ascii_lower (h ! (start + j)) = n ! j"] 1 show ?case by (subst rest_matches.simps) auto
qed

lemma window_loop_iff: "window_loop h n start \<longleftrightarrow> (\<exists>k\<ge>start. k \<le> length h - length n \<and> ascii_lower (h ! k) = ascii_lower (n ! 0) \<and> rest_matches h n k 1)"
proof (induction h n start rule: window_loop.induct)
  case (1 h n start)
  have "(\<exists>k\<ge>start. k \<le> m \<and> Q k) \<longleftrightarrow> start \<le> m \<and> (Q start \<or> (\<exists>k\<ge>Suc start. k \<le> m \<and> Q k))" for m and Q
    by (metis Suc_leD Suc_leI le_neq_implies_less le_refl le_trans)
  from this[of "length h - length n" "\<lambda>k. ascii_lower (h ! k) = ascii_lower (n ! 0) \<and> rest_matches h n k 1"] 1
  show ?case by (subst window_loop.simps) auto
qed

lemma ascii_lower_idem: "ascii_lower (ascii_lower b) = ascii_lower b"
proof (cases "65 \<le> (of_char b :: nat) \<and> (of_char b :: nat) \<le> 90")
  case True
  then have "(of_char (char_of (of_char b + 32 :: nat)) :: nat) = of_char b + 32" by simp
  with True show ?thesis by (simp add: ascii_lower_def)
next
  case False
  then show ?thesis by (auto simp: ascii_lower_def)
qed

lemma sublist_at: "length n \<le> length h \<Longrightarrow> sublist n h \<longleftrightarrow> (\<exists>k\<le>length h - length n. \<forall>j<length n. h ! (k + j) = n ! j)"
proof -
  assume len: "length n \<le> length h"
  show ?thesis
  proof
    assume "sublist n h"
    then obtain ps ss where h: "h = ps @ n @ ss" by (auto simp: sublist_def)
    then show "\<exists>k\<le>length h - length n. \<forall>j<length n. h ! (k + j) = n ! j" by (intro exI[of _ "length ps"]) (auto simp: nth_append)
  next
    assume "\<exists>k\<le>length h - length n. \<forall>j<length n. h ! (k + j) = n ! j"
    then obtain k where k: "k \<le> length h - length n" "\<forall>j<length n. h ! (k + j) = n ! j" by blast
    then have "take (length n) (drop k h) = n" using len by (intro nth_equalityI) auto
    then have "h = take k h @ n @ drop (length n) (drop k h)" by (metis append_take_drop_id)
    then show "sublist n h" by (metis sublist_appendI)
  qed
qed

lemma discount_cases: "fee_discount_bps seller s \<in> {0, 75, 150}"
  by (auto simp: fee_discount_bps_def split: outcome.split)

text \<open>The fee rate in basis points after the discount.\<close>

definition fee_bps :: "bool \<Rightarrow> address \<Rightarrow> 'a market_store_scheme \<Rightarrow> int" where
  "fee_bps is_listing seller s = max ((if is_listing then 100 else 300) - fee_discount_bps seller s) 0"

lemma fee_bps_range: "0 \<le> fee_bps b seller s" "fee_bps b seller s \<le> (if b then 100 else 300)" "\<not> b \<Longrightarrow> 150 \<le> fee_bps b seller s"
  using discount_cases[of seller s] by (auto simp: fee_bps_def)

lemma fees_eval:
  assumes "0 < price" "in_i128 price"
  shows "calculate_fees seller price b s =
    (let fee = price * fee_bps b seller s div 10000
     in if in_i128 (price * fee_bps b seller s) then (Ok (fee, price - fee), s) else (Err ArithmeticOverflow, s))"
proof -
  let ?base = "if b then 100 else 300 :: int" and ?bps = "fee_bps b seller s"
  have "in_i128 (?base - fee_discount_bps seller s)" using discount_cases[of seller s] by (auto simp: in_i128_def)
  then have bps: "max (sat (?base - fee_discount_bps seller s)) 0 = ?bps" by (simp add: fee_bps_def sat_id)
  have nn: "0 \<le> price * ?bps" using assms fee_bps_range(1)[of b seller s] by simp
  have "price * ?bps \<le> price * 10000" using assms fee_bps_range(2)[of b seller s] by (intro mult_left_mono) (auto split: if_splits)
  then have "price * ?bps div 10000 \<le> price" "0 \<le> price * ?bps div 10000" using nn by (linarith, simp)
  then have "in_i128 (price - price * ?bps div 10000)" using assms by (auto simp: in_i128_def)
  then show ?thesis using nn unfolding calculate_fees_def Let_def bps by (auto simp: sdiv_nonneg ck_def)
qed

lemma fees_Ok:
  assumes "calculate_fees seller price b s = (Ok r, s')"
  shows "s' = s"
  using assms by (auto simp: calculate_fees_def Let_def ok_rules)

lemma wash_Ok: "wash_loop now buyer sales s = (Ok (), s') \<Longrightarrow> s' = s \<and> (\<forall>x\<in>set sales. WASH_TRADE_WINDOW_SECONDS < now - sr_timestamp x \<or> sr_seller x \<noteq> buyer)"
proof (induction sales)
  case (Cons x sales)
  then show ?case by (cases "saturating_sub now (sr_timestamp x) \<le> WASH_TRADE_WINDOW_SECONDS \<and> sr_seller x = buyer") (auto simp: saturating_sub_def ok_rules)
qed simp

lemma bumps_Ok:
  "bump_volume x s = (Ok u, s') \<Longrightarrow> s' = s\<lparr>mk_total_volume := Some (unwrap_or (mk_total_volume s) 0 + x)\<rparr>"
  "bump_category_volume c x s = (Ok u, s') \<Longrightarrow> s' = s\<lparr>mk_category_volume := (mk_category_volume s)(c \<mapsto> unwrap_or (mk_category_volume s c) 0 + x)\<rparr>"
  "bump_collected_fees x s = (Ok u, s') \<Longrightarrow> s' = s\<lparr>mk_collected_fees := Some (unwrap_or (mk_collected_fees s) 0 + x)\<rparr>"
  by (auto simp: bump_volume_def bump_category_volume_def bump_collected_fees_def ok_rules)

section \<open>Views of the storage\<close>

text \<open>Four groups of tables, each written by the operations of its own section of the file only.\<close>

definition listing_view where
  "listing_view s = (mk_listings s, mk_listing_counter s, mk_seller_listings s, mk_total_listings s)"

definition auction_view where
  "auction_view s = (mk_auctions s, mk_auction_counter s, mk_seller_auctions s, mk_auction_bids s)"

definition trade_view where
  "trade_view s = (mk_trade_offers s, mk_trade_counter s, mk_user_trades s)"

lemmas view_defs = listing_view_def auction_view_def trade_view_def

lemma publish_market [simp]: "mk_listings (publish t d s) = mk_listings s" "mk_listing_counter (publish t d s) = mk_listing_counter s"
    "mk_seller_listings (publish t d s) = mk_seller_listings s" "mk_total_listings (publish t d s) = mk_total_listings s"
    "mk_auctions (publish t d s) = mk_auctions s" "mk_auction_counter (publish t d s) = mk_auction_counter s"
    "mk_seller_auctions (publish t d s) = mk_seller_auctions s" "mk_auction_bids (publish t d s) = mk_auction_bids s"
    "mk_trade_offers (publish t d s) = mk_trade_offers s" "mk_trade_counter (publish t d s) = mk_trade_counter s" "mk_user_trades (publish t d s) = mk_user_trades s"
    "mk_escrow (publish t d s) = mk_escrow s" "mk_recent_sales (publish t d s) = mk_recent_sales s" "mk_collected_fees (publish t d s) = mk_collected_fees s"
    "mk_total_volume (publish t d s) = mk_total_volume s" "mk_total_sales (publish t d s) = mk_total_sales s" "mk_category_volume (publish t d s) = mk_category_volume s"
  by (simp_all add: publish_def)

lemma record_sale_market [simp]: "mk_listings (record_sale e x a b p s) = mk_listings s" "mk_listing_counter (record_sale e x a b p s) = mk_listing_counter s"
    "mk_seller_listings (record_sale e x a b p s) = mk_seller_listings s" "mk_total_listings (record_sale e x a b p s) = mk_total_listings s"
    "mk_auctions (record_sale e x a b p s) = mk_auctions s" "mk_auction_counter (record_sale e x a b p s) = mk_auction_counter s"
    "mk_seller_auctions (record_sale e x a b p s) = mk_seller_auctions s" "mk_auction_bids (record_sale e x a b p s) = mk_auction_bids s"
    "mk_trade_offers (record_sale e x a b p s) = mk_trade_offers s" "mk_trade_counter (record_sale e x a b p s) = mk_trade_counter s" "mk_user_trades (record_sale e x a b p s) = mk_user_trades s"
    "mk_escrow (record_sale e x a b p s) = mk_escrow s" "mk_collected_fees (record_sale e x a b p s) = mk_collected_fees s"
    "mk_total_volume (record_sale e x a b p s) = mk_total_volume s" "mk_total_sales (record_sale e x a b p s) = mk_total_sales s" "mk_category_volume (record_sale e x a b p s) = mk_category_volume s"
  by (simp_all add: record_sale_def Let_def)

lemma create_listing_Ok:
  assumes "create_listing env a x p e s = (Ok i, s')"
  shows "auth env a \<and> 0 < p \<and> length (unwrap_or (mk_seller_listings s a) []) < MAX_LISTINGS_PER_SELLER \<and> i = Suc (unwrap_or (mk_listing_counter s) 0)
    \<and> listing_view s' = ((mk_listings s)(i \<mapsto> \<lparr>fl_listing_id = i, fl_seller = a, fl_asset = x, fl_price = p, fl_listed_at = timestamp env, fl_expires_at = e\<rparr>), Some i,
         (mk_seller_listings s)(a \<mapsto> unwrap_or (mk_seller_listings s a) [] @ [i]), Some (bump (mk_total_listings s) 1))
    \<and> auction_view s' = auction_view s \<and> trade_view s' = trade_view s \<and> mk_escrow s' = (mk_escrow s)(i \<mapsto> OneAsset x)"
  using assms by (auto simp: create_listing_def Let_def ok_rules next_listing_id_def view_defs dest!: fees_Ok bumps_Ok)

lemma buy_listing_Ok:
  assumes "buy_listing env b i s = (Ok u, s')"
  shows "\<exists>l fee pay. mk_listings s i = Some l \<and> auth env b \<and> \<not> expired env (fl_expires_at l) \<and> fl_seller l \<noteq> b
    \<and> (\<forall>x\<in>set (recent_sales (as_asset_id (fl_asset l)) s). WASH_TRADE_WINDOW_SECONDS < timestamp env - sr_timestamp x \<or> sr_seller x \<noteq> b)
    \<and> calculate_fees (fl_seller l) (fl_price l) False s = (Ok (fee, pay), s)
    \<and> listing_view s' = ((mk_listings s)(i := None), mk_listing_counter s, (mk_seller_listings s)(fl_seller l \<mapsto> filter (\<lambda>j. j \<noteq> i) (unwrap_or (mk_seller_listings s (fl_seller l)) [])),
         Some (bump (mk_total_listings s) (- 1)))
    \<and> auction_view s' = auction_view s \<and> trade_view s' = trade_view s \<and> mk_escrow s' = (mk_escrow s)(i := None)
    \<and> mk_total_volume s' = Some (unwrap_or (mk_total_volume s) 0 + fl_price l) \<and> mk_collected_fees s' = Some (unwrap_or (mk_collected_fees s) 0 + fee)
    \<and> get_category_volume (as_category (fl_asset l)) s' = get_category_volume (as_category (fl_asset l)) s + fl_price l"
proof -
  let ?sold = "\<lambda>l s. record_sale env (as_asset_id (fl_asset l)) (fl_seller l) b (fl_price l) (s\<lparr>mk_escrow := (mk_escrow s)(i := None)\<rparr>)"
  let ?pre = "\<lambda>l s. (?sold l s)\<lparr>mk_total_sales := Some (bump (mk_total_sales s) 1)\<rparr>"
  from assms obtain l t1 where l: "mk_listings s i = Some l" "auth env b" "\<not> expired env (fl_expires_at l)" "fl_seller l \<noteq> b"
    and w: "wash_loop (timestamp env) b (recent_sales (as_asset_id (fl_asset l)) s) s = (Ok (), t1)"
    and k: "and_then (calculate_fees (fl_seller l) (fl_price l) False t1) (\<lambda>(success_fee, seller_proceeds) s.
       and_then (bump_volume (fl_price l) (?pre l s)) (\<lambda>_ s.
       and_then (bump_category_volume (as_category (fl_asset l)) (fl_price l) s) (\<lambda>_ s.
       and_then (bump_collected_fees success_fee s) (\<lambda>_ s.
       (Ok (), publish [SS ''market'', SS ''sold''] [SA b, SA (fl_seller l), SU i, SI (fl_price l)]
          (remove_listing (fl_seller l) i (s\<lparr>mk_total_listings := Some (bump (mk_total_listings s) (- 1))\<rparr>))))))) = (Ok (), s')"
    by (auto simp: buy_listing_def check_wash_trading_def Let_def ok_rules)
  note w' = wash_Ok[OF w]
  from k obtain fee pay t2 t3 t4 t5 where c: "calculate_fees (fl_seller l) (fl_price l) False s = (Ok (fee, pay), t2)"
      "bump_volume (fl_price l) (?pre l t2) = (Ok (), t3)" "bump_category_volume (as_category (fl_asset l)) (fl_price l) t3 = (Ok (), t4)"
      "bump_collected_fees fee t4 = (Ok (), t5)"
      "s' = publish [SS ''market'', SS ''sold''] [SA b, SA (fl_seller l), SU i, SI (fl_price l)]
          (remove_listing (fl_seller l) i (t5\<lparr>mk_total_listings := Some (bump (mk_total_listings t5) (- 1))\<rparr>))"
    using w' by (auto simp: ok_rules)
  note t = fees_Ok[OF c(1)] bumps_Ok(1)[OF c(2)] bumps_Ok(2)[OF c(3)] bumps_Ok(3)[OF c(4)]
  show ?thesis using l w' c(1,5) t by (intro exI[of _ l] exI[of _ fee] exI[of _ pay]) (simp add: view_defs remove_listing_def get_category_volume_def Let_def)
qed

lemma cancel_listing_Ok:
  assumes "cancel_listing env a i s = (Ok u, s')"
  shows "\<exists>l. mk_listings s i = Some l \<and> auth env a \<and> fl_seller l = a
    \<and> listing_view s' = ((mk_listings s)(i := None), mk_listing_counter s, (mk_seller_listings s)(a \<mapsto> filter (\<lambda>j. j \<noteq> i) (unwrap_or (mk_seller_listings s a) [])),
         Some (bump (mk_total_listings s) (- 1)))
    \<and> auction_view s' = auction_view s \<and> trade_view s' = trade_view s"
  using assms by (auto simp: cancel_listing_def Let_def ok_rules view_defs remove_listing_def)

lemma create_auction_Ok:
  assumes "create_auction env a x p d s = (Ok i, s')"
  shows "auth env a \<and> 0 < p \<and> length (unwrap_or (mk_seller_auctions s a) []) < MAX_AUCTIONS_PER_SELLER \<and> i = Suc (unwrap_or (mk_auction_counter s) 0)
    \<and> auction_view s' = ((mk_auctions s)(i \<mapsto> \<lparr>au_auction_id = i, au_seller = a, au_asset = x, au_starting_price = p, au_current_bid = p, au_highest_bidder = None,
         au_started_at = timestamp env, au_ends_at = timestamp env + d, au_finalized = False\<rparr>), Some i,
         (mk_seller_auctions s)(a \<mapsto> unwrap_or (mk_seller_auctions s a) [] @ [i]), (mk_auction_bids s)(i \<mapsto> []))
    \<and> listing_view s' = listing_view s \<and> trade_view s' = trade_view s \<and> mk_escrow s' = (mk_escrow s)(i \<mapsto> OneAsset x)"
  using assms by (auto simp: create_auction_def Let_def ok_rules next_auction_id_def view_defs)

text \<open>An accepted bid: the new entry of the auction.\<close>

definition outbid :: "env \<Rightarrow> address \<Rightarrow> i128 \<Rightarrow> AuctionListing \<Rightarrow> AuctionListing" where
  "outbid env b amt a = a\<lparr>au_current_bid := amt, au_highest_bidder := Some b,
     au_ends_at := if au_ends_at a - timestamp env \<le> AUCTION_EXTENSION_WINDOW then min u64_max (au_ends_at a + AUCTION_EXTENSION_SECONDS) else au_ends_at a\<rparr>"

lemma place_bid_Ok:
  assumes "place_bid env b i amt s = (Ok u, s')"
  shows "\<exists>a m. mk_auctions s i = Some a \<and> auth env b \<and> timestamp env \<le> au_ends_at a \<and> au_seller a \<noteq> b \<and> min_bid (au_current_bid a) = Some m \<and> m \<le> amt
    \<and> auction_view s' = ((mk_auctions s)(i \<mapsto> outbid env b amt a), mk_auction_counter s, mk_seller_auctions s,
         (mk_auction_bids s)(i \<mapsto> get_auction_bids i s @ [\<lparr>bd_bidder = b, bd_amount = amt, bd_timestamp = timestamp env\<rparr>]))
    \<and> listing_view s' = listing_view s \<and> trade_view s' = trade_view s"
proof -
  from assms obtain a m where a: "mk_auctions s i = Some a" "auth env b" "timestamp env \<le> au_ends_at a" "au_seller a \<noteq> b" "min_bid (au_current_bid a) = Some m" "m \<le> amt"
    by (auto simp: place_bid_def Let_def ok_rules)
  then show ?thesis using assms
    by (intro exI[of _ a] exI[of _ m]) (auto simp: place_bid_def process_auto_bids_def Let_def view_defs outbid_def get_auction_bids_def saturating_sub_def saturating_add_def split: if_splits)
qed

lemma auto_bid_Ok: "set_auto_bid env b i m s = (Ok (), s') \<Longrightarrow> listing_view s' = listing_view s \<and> auction_view s' = auction_view s \<and> trade_view s' = trade_view s"
  by (auto simp: set_auto_bid_def Let_def ok_rules view_defs)

lemma settle_Ok:
  assumes "settle_auction env i a b s = (Ok (), s')"
  shows "\<exists>fee pay. calculate_fees (au_seller a) (au_current_bid a) False s = (Ok (fee, pay), s)
    \<and> (\<forall>x\<in>set (recent_sales (as_asset_id (au_asset a)) s). WASH_TRADE_WINDOW_SECONDS < timestamp env - sr_timestamp x \<or> sr_seller x \<noteq> b)
    \<and> listing_view s' = listing_view s \<and> auction_view s' = auction_view s \<and> trade_view s' = trade_view s \<and> mk_escrow s' = (mk_escrow s)(i := None)
    \<and> mk_collected_fees s' = Some (unwrap_or (mk_collected_fees s) 0 + fee)"
proof -
  let ?pre = "\<lambda>s. (record_sale env (as_asset_id (au_asset a)) (au_seller a) b (au_current_bid a) (s\<lparr>mk_escrow := (mk_escrow s)(i := None)\<rparr>))\<lparr>mk_total_sales := Some (bump (mk_total_sales s) 1)\<rparr>"
  from assms obtain t1 fee pay t2 t3 t4 t5 where w: "wash_loop (timestamp env) b (recent_sales (as_asset_id (au_asset a)) s) s = (Ok (), t1)"
    and c: "calculate_fees (au_seller a) (au_current_bid a) False t1 = (Ok (fee, pay), t2)" "bump_volume (au_current_bid a) (?pre t2) = (Ok (), t3)"
      "bump_category_volume (as_category (au_asset a)) (au_current_bid a) t3 = (Ok (), t4)" "bump_collected_fees fee t4 = (Ok (), t5)"
      "s' = publish [SS ''auction'', SS ''won''] [SA b, SU i, SI (au_current_bid a)] t5"
    by (auto simp: settle_auction_def check_wash_trading_def Let_def ok_rules)
  note w' = wash_Ok[OF w]
  note t = fees_Ok[OF c(1)] bumps_Ok(1)[OF c(2)] bumps_Ok(2)[OF c(3)] bumps_Ok(3)[OF c(4)]
  show ?thesis using w' c(1,5) t by (intro exI[of _ fee] exI[of _ pay]) (simp add: view_defs)
qed

lemma finalize_auction_Ok:
  assumes "finalize_auction env c i s = (Ok u, s')"
  shows "\<exists>a. mk_auctions s i = Some a \<and> au_ends_at a < timestamp env \<and> \<not> au_finalized a
    \<and> auction_view s' = ((mk_auctions s)(i \<mapsto> a\<lparr>au_finalized := True\<rparr>), mk_auction_counter s,
         (mk_seller_auctions s)(au_seller a \<mapsto> filter (\<lambda>j. j \<noteq> i) (unwrap_or (mk_seller_auctions s (au_seller a)) [])), mk_auction_bids s)
    \<and> listing_view s' = listing_view s \<and> trade_view s' = trade_view s"
proof -
  let ?c = "\<lambda>a. case au_highest_bidder a of
         Some winner \<Rightarrow> settle_auction env i (a\<lparr>au_finalized := True\<rparr>) winner (s\<lparr>mk_auctions := (mk_auctions s)(i \<mapsto> a\<lparr>au_finalized := True\<rparr>)\<rparr>)
       | None \<Rightarrow> (Ok (), publish [SS ''auction'', SS ''nobids''] [SA (au_seller (a\<lparr>au_finalized := True\<rparr>)), SU i]
           ((s\<lparr>mk_auctions := (mk_auctions s)(i \<mapsto> a\<lparr>au_finalized := True\<rparr>)\<rparr>)\<lparr>mk_escrow := (mk_escrow (s\<lparr>mk_auctions := (mk_auctions s)(i \<mapsto> a\<lparr>au_finalized := True\<rparr>)\<rparr>))(i := None)\<rparr>))"
  let ?r = "\<lambda>a t. (remove_auction (au_seller a) i t)\<lparr>mk_total_auctions := Some (bump (mk_total_auctions (remove_auction (au_seller a) i t)) (- 1))\<rparr>"
  from assms obtain a where a1: "mk_auctions s i = Some a" by (cases "mk_auctions s i") (auto simp: finalize_auction_def split: if_splits)
  then have a: "mk_auctions s i = Some a" "au_ends_at a < timestamp env" "\<not> au_finalized a" and k: "and_then (?c a) (\<lambda>_ s. (Ok (), ?r a s)) = (Ok (), s')"
    using assms by (simp_all add: finalize_auction_def Let_def ok_guard)
  from k obtain t where c: "?c a = (Ok (), t)" and s': "s' = ?r a t" unfolding and_then_Ok by auto
  have "listing_view t = listing_view s \<and> trade_view t = trade_view s \<and> auction_view t = ((mk_auctions s)(i \<mapsto> a\<lparr>au_finalized := True\<rparr>), mk_auction_counter s, mk_seller_auctions s, mk_auction_bids s)"
  proof (cases "au_highest_bidder a")
    case None
    with c show ?thesis by (auto simp: view_defs)
  next
    case (Some w)
    with c have "settle_auction env i (a\<lparr>au_finalized := True\<rparr>) w (s\<lparr>mk_auctions := (mk_auctions s)(i \<mapsto> a\<lparr>au_finalized := True\<rparr>)\<rparr>) = (Ok (), t)" by simp
    from settle_Ok[OF this] show ?thesis by (auto simp: view_defs)
  qed
  with a s' show ?thesis by (intro exI[of _ a]) (simp add: view_defs remove_auction_def Let_def)
qed

lemma bundle_Ok:
  "create_bundle env a xs p e s = (Ok i, s') \<Longrightarrow> listing_view s' = listing_view s \<and> auction_view s' = auction_view s \<and> trade_view s' = trade_view s"
  "buy_bundle env b i s = (Ok (), s') \<Longrightarrow> listing_view s' = listing_view s \<and> auction_view s' = auction_view s \<and> trade_view s' = trade_view s"
  by (auto simp: create_bundle_def buy_bundle_def Let_def ok_rules next_bundle_id_def view_defs dest!: fees_Ok bumps_Ok)

lemma create_trade_Ok:
  assumes "create_trade_offer env a g xs ys d s = (Ok i, s')"
  shows "auth env a \<and> xs \<noteq> [] \<and> ys \<noteq> [] \<and> length (unwrap_or (mk_user_trades s a) []) < MAX_TRADE_OFFERS_PER_USER \<and> i = Suc (unwrap_or (mk_trade_counter s) 0)
    \<and> trade_view s' = ((mk_trade_offers s)(i \<mapsto> \<lparr>tf_offer_id = i, tf_offerer = a, tf_target = g, tf_offered_assets = xs, tf_requested_assets = ys,
         tf_created_at = timestamp env, tf_expires_at = timestamp env + d, tf_status = Pending\<rparr>), Some i, (mk_user_trades s)(a \<mapsto> unwrap_or (mk_user_trades s a) [] @ [i]))
    \<and> listing_view s' = listing_view s \<and> auction_view s' = auction_view s"
  using assms by (auto simp: create_trade_offer_def Let_def ok_rules next_trade_offer_id_def view_defs)

lemma accept_trade_Ok:
  assumes "accept_trade_offer env g i s = (Ok u, s')"
  shows "\<exists>t. mk_trade_offers s i = Some t \<and> auth env g \<and> tf_target t = g \<and> tf_status t = Pending \<and> timestamp env \<le> tf_expires_at t
    \<and> trade_view s' = ((mk_trade_offers s)(i \<mapsto> t\<lparr>tf_status := Accepted\<rparr>), mk_trade_counter s,
        (mk_user_trades s)(tf_offerer t \<mapsto> filter (\<lambda>j. j \<noteq> i) (unwrap_or (mk_user_trades s (tf_offerer t)) [])))
    \<and> listing_view s' = listing_view s \<and> auction_view s' = auction_view s"
  using assms by (auto simp: accept_trade_offer_def remove_trade_offer_def Let_def ok_rules view_defs)

lemma cancel_trade_Ok:
  assumes "cancel_trade_offer env c i s = (Ok u, s')"
  shows "\<exists>t. mk_trade_offers s i = Some t \<and> auth env c \<and> (c = tf_offerer t \<or> c = tf_target t) \<and> tf_status t = Pending
    \<and> trade_view s' = ((mk_trade_offers s)(i \<mapsto> t\<lparr>tf_status := if c = tf_offerer t then Cancelled else Rejected\<rparr>), mk_trade_counter s,
        (mk_user_trades s)(tf_offerer t \<mapsto> filter (\<lambda>j. j \<noteq> i) (unwrap_or (mk_user_trades s (tf_offerer t)) [])))
    \<and> listing_view s' = listing_view s \<and> auction_view s' = auction_view s"
  using assms by (auto simp: cancel_trade_offer_def remove_trade_offer_def Let_def ok_rules view_defs)

section \<open>Steps and invariants\<close>

inductive market_step :: "env \<Rightarrow> 'a market_store_scheme \<Rightarrow> 'a market_store_scheme \<Rightarrow> bool" where
  list: "commits (create_listing env a x p e) s s' \<Longrightarrow> market_step env s s'"
| buy: "commits (buy_listing env b i) s s' \<Longrightarrow> market_step env s s'"
| cancel: "commits (cancel_listing env a i) s s' \<Longrightarrow> market_step env s s'"
| auction: "commits (create_auction env a x p d) s s' \<Longrightarrow> market_step env s s'"
| bid: "commits (place_bid env b i p) s s' \<Longrightarrow> market_step env s s'"
| auto_bid: "commits (set_auto_bid env b i p) s s' \<Longrightarrow> market_step env s s'"
| final: "commits (finalize_auction env c i) s s' \<Longrightarrow> market_step env s s'"
| bundled: "commits (create_bundle env a xs p e) s s' \<Longrightarrow> market_step env s s'"
| buy_bundle: "commits (buy_bundle env b i) s s' \<Longrightarrow> market_step env s s'"
| offer: "commits (create_trade_offer env a g xs ys d) s s' \<Longrightarrow> market_step env s s'"
| accept: "commits (accept_trade_offer env g i) s s' \<Longrightarrow> market_step env s s'"
| reject: "commits (cancel_trade_offer env c i) s s' \<Longrightarrow> market_step env s s'"

lemma listing_frame:
  "create_auction env a x p d s = (Ok r, s') \<Longrightarrow> listing_view s' = listing_view s"
  "place_bid env b i p s = (Ok u, s') \<Longrightarrow> listing_view s' = listing_view s"
  "set_auto_bid env b i p s = (Ok u, s') \<Longrightarrow> listing_view s' = listing_view s"
  "finalize_auction env c i s = (Ok u, s') \<Longrightarrow> listing_view s' = listing_view s"
  "create_bundle env a xs p e s = (Ok r, s') \<Longrightarrow> listing_view s' = listing_view s"
  "buy_bundle env b i s = (Ok u, s') \<Longrightarrow> listing_view s' = listing_view s"
  "create_trade_offer env a g xs ys d s = (Ok r, s') \<Longrightarrow> listing_view s' = listing_view s"
  "accept_trade_offer env g i s = (Ok u, s') \<Longrightarrow> listing_view s' = listing_view s"
  "cancel_trade_offer env c i s = (Ok u, s') \<Longrightarrow> listing_view s' = listing_view s"
  using create_auction_Ok[of env a x p d s r s'] place_bid_Ok[of env b i p s u s'] auto_bid_Ok[of env b i p s s'] finalize_auction_Ok[of env c i s u s']
    bundle_Ok(1)[of env a xs p e s r s'] bundle_Ok(2)[of env b i s s'] create_trade_Ok[of env a g xs ys d s r s'] accept_trade_Ok[of env g i s u s'] cancel_trade_Ok[of env c i s u s']
  by (simp_all, blast+)

lemma auction_frame:
  "create_listing env a x p e s = (Ok r, s') \<Longrightarrow> auction_view s' = auction_view s"
  "buy_listing env b i s = (Ok u, s') \<Longrightarrow> auction_view s' = auction_view s"
  "cancel_listing env a i s = (Ok u, s') \<Longrightarrow> auction_view s' = auction_view s"
  "set_auto_bid env b i p s = (Ok u, s') \<Longrightarrow> auction_view s' = auction_view s"
  "create_bundle env a xs p e s = (Ok r, s') \<Longrightarrow> auction_view s' = auction_view s"
  "buy_bundle env b i s = (Ok u, s') \<Longrightarrow> auction_view s' = auction_view s"
  "create_trade_offer env a g xs ys d s = (Ok r, s') \<Longrightarrow> auction_view s' = auction_view s"
  "accept_trade_offer env g i s = (Ok u, s') \<Longrightarrow> auction_view s' = auction_view s"
  "cancel_trade_offer env c i s = (Ok u, s') \<Longrightarrow> auction_view s' = auction_view s"
  using create_listing_Ok[of env a x p e s r s'] buy_listing_Ok[of env b i s u s'] cancel_listing_Ok[of env a i s u s'] auto_bid_Ok[of env b i p s s']
    bundle_Ok(1)[of env a xs p e s r s'] bundle_Ok(2)[of env b i s s'] create_trade_Ok[of env a g xs ys d s r s'] accept_trade_Ok[of env g i s u s'] cancel_trade_Ok[of env c i s u s']
  by (simp_all, blast+)

text \<open>A table of offers and the index of their owners.\<close>

definition sellers :: "(address \<rightharpoonup> u64 list) \<Rightarrow> address \<Rightarrow> u64 list" where
  "sellers ix a = unwrap_or (ix a) []"

definition indexed :: "nat \<Rightarrow> ('v \<Rightarrow> address) \<Rightarrow> (u64 \<rightharpoonup> 'v) \<Rightarrow> (address \<rightharpoonup> u64 list) \<Rightarrow> bool" where
  "indexed cap owner tbl ix \<longleftrightarrow> (\<forall>a. distinct (sellers ix a) \<and> length (sellers ix a) \<le> cap
     \<and> (\<forall>i. i \<in> set (sellers ix a) \<longleftrightarrow> (\<exists>v. tbl i = Some v \<and> owner v = a)))"

lemma indexed_new:
  assumes "indexed cap owner tbl ix" "tbl i = None" "owner v = a" "length (sellers ix a) < cap"
  shows "indexed cap owner (tbl(i \<mapsto> v)) (ix(a \<mapsto> sellers ix a @ [i]))"
proof -
  have "i \<notin> set (sellers ix b)" for b using assms(1,2) by (auto simp: indexed_def)
  with assms show ?thesis unfolding indexed_def by (auto simp: sellers_def split: if_splits)
qed

lemma indexed_del:
  assumes "indexed cap owner tbl ix" "tbl i = Some v" "owner v = a"
  shows "indexed cap owner (tbl(i := None)) (ix(a \<mapsto> filter (\<lambda>j. j \<noteq> i) (sellers ix a)))"
proof -
  have "length (filter (\<lambda>j. j \<noteq> i) (sellers ix a)) \<le> cap" using assms(1) length_filter_le[of "\<lambda>j. j \<noteq> i" "sellers ix a"] le_trans unfolding indexed_def by blast
  moreover have "i \<notin> set (sellers ix b)" if "b \<noteq> a" for b using assms that by (auto simp: indexed_def)
  ultimately show ?thesis using assms unfolding indexed_def by (auto simp: sellers_def split: if_splits)
qed

definition live_count :: "u32 option \<Rightarrow> nat \<Rightarrow> (u64 \<rightharpoonup> 'v) \<Rightarrow> bool" where
  "live_count n c tbl \<longleftrightarrow> finite (dom tbl) \<and> card (dom tbl) \<le> c \<and> (c \<le> u32_max \<longrightarrow> unwrap_or n 0 = card (dom tbl))"

lemma live_count_new:
  assumes "live_count n c tbl" "tbl (Suc c) = None"
  shows "live_count (Some (bump n 1)) (Suc c) (tbl(Suc c \<mapsto> v))"
proof -
  have "card (insert (Suc c) (dom tbl)) = Suc (card (dom tbl))" using assms by (simp add: live_count_def domIff)
  then show ?thesis using assms(1) by (auto simp: live_count_def bump_def saturating_add_def)
qed

lemma live_count_del:
  assumes "live_count n c tbl" "tbl i = Some v"
  shows "live_count (Some (bump n (- 1))) c (tbl(i := None))"
proof -
  have "card (dom tbl - {i}) = card (dom tbl) - 1" using assms by (simp add: live_count_def domI)
  then show ?thesis using assms(1) by (auto simp: live_count_def bump_def saturating_sub_def)
qed

definition listings_inv :: "'a market_store_scheme \<Rightarrow> bool" where
  "listings_inv s \<longleftrightarrow> tbl_ok (\<lambda>i l. fl_listing_id l = i \<and> 0 < fl_price l) (unwrap_or (mk_listing_counter s) 0) (mk_listings s)
     \<and> indexed MAX_LISTINGS_PER_SELLER fl_seller (mk_listings s) (mk_seller_listings s)
     \<and> live_count (mk_total_listings s) (unwrap_or (mk_listing_counter s) 0) (mk_listings s)"

lemma listings_inv_view: "listing_view s' = listing_view s \<Longrightarrow> listings_inv s' = listings_inv s"
  by (simp add: listings_inv_def view_defs)

lemma listing_removed_inv:
  assumes "listings_inv s" "mk_listings s i = Some l" "fl_seller l = a"
    "listing_view s' = ((mk_listings s)(i := None), mk_listing_counter s, (mk_seller_listings s)(a \<mapsto> filter (\<lambda>j. j \<noteq> i) (unwrap_or (mk_seller_listings s a) [])), Some (bump (mk_total_listings s) (- 1)))"
  shows "listings_inv s'"
proof -
  have "mk_listings s' = (mk_listings s)(i := None)" "mk_listing_counter s' = mk_listing_counter s" "mk_total_listings s' = Some (bump (mk_total_listings s) (- 1))"
      "mk_seller_listings s' = (mk_seller_listings s)(a \<mapsto> filter (\<lambda>j. j \<noteq> i) (sellers (mk_seller_listings s) a))"
    using assms(4) by (simp_all add: view_defs sellers_def)
  with assms(1-3) show ?thesis by (simp add: listings_inv_def tbl_ok_del indexed_del live_count_del)
qed

lemma listed_inv:
  assumes ok: "create_listing env a x p e s = (Ok i, s')" and inv: "listings_inv s"
  shows "listings_inv s'"
proof -
  note f = create_listing_Ok[OF ok]
  let ?c = "unwrap_or (mk_listing_counter s) 0"
  have i: "i = Suc ?c" using f by simp
  have none: "mk_listings s (Suc ?c) = None" using inv tbl_ok_fresh unfolding listings_inv_def by blast
  have t: "mk_listings s' = (mk_listings s)(Suc ?c \<mapsto> \<lparr>fl_listing_id = Suc ?c, fl_seller = a, fl_asset = x, fl_price = p, fl_listed_at = timestamp env, fl_expires_at = e\<rparr>)"
      "mk_listing_counter s' = Some (Suc ?c)" "mk_seller_listings s' = (mk_seller_listings s)(a \<mapsto> sellers (mk_seller_listings s) a @ [Suc ?c])"
      "mk_total_listings s' = Some (bump (mk_total_listings s) 1)" "0 < p" "length (sellers (mk_seller_listings s) a) < MAX_LISTINGS_PER_SELLER"
    using f i by (simp_all add: view_defs sellers_def)
  show ?thesis using inv none t(5,6) unfolding listings_inv_def t by (simp add: tbl_ok_new indexed_new live_count_new)
qed

lemma bought_inv: "buy_listing env b i s = (Ok u, s') \<Longrightarrow> listings_inv s \<Longrightarrow> listings_inv s'"
  by (drule buy_listing_Ok, elim exE conjE, rule listing_removed_inv, assumption+, rule refl, assumption)

lemma cancelled_inv: "cancel_listing env a i s = (Ok u, s') \<Longrightarrow> listings_inv s \<Longrightarrow> listings_inv s'"
  by (drule cancel_listing_Ok, elim exE conjE, rule listing_removed_inv, assumption+)

lemma listings_step: "market_step env s s' \<Longrightarrow> listings_inv s \<Longrightarrow> listings_inv s'"
proof (induction rule: market_step.induct)
  case (list env a x p e s s')
  from list.hyps show ?case by (rule commitsE) (rule listed_inv[OF _ list.prems])
next
  case (buy env b i s s')
  from buy.hyps show ?case by (rule commitsE) (rule bought_inv[OF _ buy.prems])
next
  case (cancel env a i s s')
  from cancel.hyps show ?case by (rule commitsE) (rule cancelled_inv[OF _ cancel.prems])
qed (erule commitsE, drule listing_frame, drule listings_inv_view, simp)+

text \<open>Bids: each at least five percent above the one before.\<close>

fun raises :: "i128 \<Rightarrow> Bid list \<Rightarrow> bool" where
  "raises p [] = True"
| "raises p (b # bs) = (p + p * 500 div 10000 \<le> bd_amount b \<and> raises (bd_amount b) bs)"

definition top_bid :: "i128 \<Rightarrow> Bid list \<Rightarrow> i128" where
  "top_bid p bs = (if bs = [] then p else bd_amount (last bs))"

lemma raises_snoc: "raises p (bs @ [b]) \<longleftrightarrow> raises p bs \<and> top_bid p bs + top_bid p bs * 500 div 10000 \<le> bd_amount b"
  by (induction bs arbitrary: p) (auto simp: top_bid_def)

lemma raises_pos: "raises p bs \<Longrightarrow> 0 < p \<Longrightarrow> b \<in> set bs \<Longrightarrow> p \<le> bd_amount b"
proof (induction bs arbitrary: p)
  case (Cons c bs)
  then have "p \<le> bd_amount c" by (simp add: add.commute[of p]) linarith
  with Cons show ?case by fastforce
qed simp

definition auction_ok :: "Bid list \<Rightarrow> u64 \<Rightarrow> AuctionListing \<Rightarrow> bool" where
  "auction_ok bs i a \<longleftrightarrow> au_auction_id a = i \<and> 0 < au_starting_price a \<and> raises (au_starting_price a) bs \<and> au_current_bid a = top_bid (au_starting_price a) bs
     \<and> au_highest_bidder a = (if bs = [] then None else Some (bd_bidder (last bs)))
     \<and> (\<forall>b\<in>set bs. bd_bidder b \<noteq> au_seller a \<and> bd_timestamp b \<le> au_ends_at a) \<and> au_ends_at a \<le> u64_max"

definition auctions_inv :: "'a market_store_scheme \<Rightarrow> bool" where
  "auctions_inv s \<longleftrightarrow> tbl_ok (\<lambda>i. auction_ok (get_auction_bids i s) i) (unwrap_or (mk_auction_counter s) 0) (mk_auctions s)"

lemma auctions_inv_view: "auction_view s' = auction_view s \<Longrightarrow> auctions_inv s' = auctions_inv s"
  by (simp add: auctions_inv_def view_defs get_auction_bids_def)

lemma min_bid_Some: "0 < p \<Longrightarrow> min_bid p = Some m \<Longrightarrow> m = p + p * 500 div 10000"
  by (auto simp: min_bid_def sdiv_nonneg split: option.splits)

lemma outbid_ok:
  assumes "auction_ok bs i a" "min_bid (au_current_bid a) = Some m" "m \<le> amt" "timestamp env \<le> au_ends_at a" "au_seller a \<noteq> b"
  shows "auction_ok (bs @ [\<lparr>bd_bidder = b, bd_amount = amt, bd_timestamp = timestamp env\<rparr>]) i (outbid env b amt a)"
proof -
  have "0 < top_bid (au_starting_price a) bs"
    using assms(1) raises_pos[of "au_starting_price a" bs "last bs"] by (auto simp: auction_ok_def top_bid_def)
  then have "m = top_bid (au_starting_price a) bs + top_bid (au_starting_price a) bs * 500 div 10000"
    using assms(1,2) min_bid_Some by (simp add: auction_ok_def)
  with assms show ?thesis by (auto simp: auction_ok_def outbid_def raises_snoc top_bid_def)
qed

lemma auctioned_inv:
  assumes ok: "create_auction env a x p d s = (Ok i, s')" and inv: "auctions_inv s"
  shows "auctions_inv s'"
proof -
  note f = create_auction_Ok[OF ok]
  let ?c = "unwrap_or (mk_auction_counter s) 0"
  let ?a = "\<lparr>au_auction_id = Suc ?c, au_seller = a, au_asset = x, au_starting_price = p, au_current_bid = p, au_highest_bidder = None,
         au_started_at = timestamp env, au_ends_at = timestamp env + d, au_finalized = False\<rparr>"
  have d: "timestamp env + d \<le> u64_max" using ok by (auto simp: create_auction_def Let_def ok_rules next_auction_id_def)
  have t: "mk_auctions s' = (mk_auctions s)(Suc ?c \<mapsto> ?a)" "mk_auction_counter s' = Some (Suc ?c)"
     "mk_auction_bids s' = (mk_auction_bids s)(Suc ?c \<mapsto> [])" "0 < p"
    using f by (simp_all add: view_defs)
  have new: "auction_ok [] (Suc ?c) ?a" using t(4) d by (simp add: auction_ok_def top_bid_def)
  have old: "0 < j \<and> j \<le> Suc ?c \<and> auction_ok (get_auction_bids j s') j v" if "mk_auctions s j = Some v" "j \<noteq> Suc ?c" for j v
    using inv that unfolding auctions_inv_def tbl_ok_def get_auction_bids_def t by (simp add: le_SucI)
  show ?thesis unfolding auctions_inv_def tbl_ok_def t(1,2)
  proof (intro allI impI)
    fix j v assume "((mk_auctions s)(Suc ?c \<mapsto> ?a)) j = Some v"
    then show "0 < j \<and> j \<le> unwrap_or (Some (Suc ?c)) 0 \<and> auction_ok (get_auction_bids j s') j v"
      using new old[of j v] t(3) by (cases "j = Suc ?c") (simp_all add: get_auction_bids_def)
  qed
qed

lemma bid_inv:
  assumes ok: "place_bid env b i p s = (Ok u, s')" and inv: "auctions_inv s"
  shows "auctions_inv s'"
proof -
  from place_bid_Ok[OF ok] obtain a m where f: "mk_auctions s i = Some a" "timestamp env \<le> au_ends_at a" "au_seller a \<noteq> b" "min_bid (au_current_bid a) = Some m" "m \<le> p"
      "auction_view s' = ((mk_auctions s)(i \<mapsto> outbid env b p a), mk_auction_counter s, mk_seller_auctions s,
         (mk_auction_bids s)(i \<mapsto> get_auction_bids i s @ [\<lparr>bd_bidder = b, bd_amount = p, bd_timestamp = timestamp env\<rparr>]))"
    by blast
  let ?bs = "get_auction_bids i s @ [\<lparr>bd_bidder = b, bd_amount = p, bd_timestamp = timestamp env\<rparr>]"
  have t: "mk_auctions s' = (mk_auctions s)(i \<mapsto> outbid env b p a)" "mk_auction_counter s' = mk_auction_counter s"
      "get_auction_bids j s' = (if j = i then ?bs else get_auction_bids j s)" for j
    using f(6) by (simp_all add: view_defs get_auction_bids_def)
  have "auction_ok (get_auction_bids i s) i a" using inv f(1) unfolding auctions_inv_def tbl_ok_def by blast
  note new = outbid_ok[OF this f(4,5,2,3)]
  show ?thesis unfolding auctions_inv_def tbl_ok_def t
  proof (intro allI impI)
    fix j v assume "((mk_auctions s)(i \<mapsto> outbid env b p a)) j = Some v"
    then show "0 < j \<and> j \<le> unwrap_or (mk_auction_counter s) 0 \<and> auction_ok (if j = i then ?bs else get_auction_bids j s) j v"
      using new inv f(1) unfolding auctions_inv_def tbl_ok_def by (cases "j = i") simp_all
  qed
qed

lemma finalised_inv:
  assumes ok: "finalize_auction env c i s = (Ok u, s')" and inv: "auctions_inv s"
  shows "auctions_inv s'"
proof -
  from finalize_auction_Ok[OF ok] obtain a where f: "mk_auctions s i = Some a"
      "auction_view s' = ((mk_auctions s)(i \<mapsto> a\<lparr>au_finalized := True\<rparr>), mk_auction_counter s,
         (mk_seller_auctions s)(au_seller a \<mapsto> filter (\<lambda>j. j \<noteq> i) (unwrap_or (mk_seller_auctions s (au_seller a)) [])), mk_auction_bids s)"
    by blast
  have t: "mk_auctions s' = (mk_auctions s)(i \<mapsto> a\<lparr>au_finalized := True\<rparr>)" "mk_auction_counter s' = mk_auction_counter s" "get_auction_bids j s' = get_auction_bids j s" for j
    using f(2) by (simp_all add: view_defs get_auction_bids_def)
  have "auction_ok (get_auction_bids i s) i (a\<lparr>au_finalized := True\<rparr>)" using inv f(1) by (simp add: auctions_inv_def tbl_ok_def auction_ok_def)
  then show ?thesis using inv f(1) unfolding auctions_inv_def t by (intro tbl_ok_upd) simp_all
qed

lemma auctions_step: "market_step env s s' \<Longrightarrow> auctions_inv s \<Longrightarrow> auctions_inv s'"
proof (induction rule: market_step.induct)
  case (auction env a x p d s s')
  from auction.hyps show ?case by (rule commitsE) (rule auctioned_inv[OF _ auction.prems])
next
  case (bid env b i p s s')
  from bid.hyps show ?case by (rule commitsE) (rule bid_inv[OF _ bid.prems])
next
  case (final env c i s s')
  from final.hyps show ?case by (rule commitsE) (rule finalised_inv[OF _ final.prems])
qed (erule commitsE, drule auction_frame, drule auctions_inv_view, simp)+

text \<open>The live entries of a table: open auctions, pending trade offers.\<close>

definition live :: "('v \<Rightarrow> bool) \<Rightarrow> (u64 \<rightharpoonup> 'v) \<Rightarrow> u64 \<rightharpoonup> 'v" where
  "live P tbl i = (case tbl i of None \<Rightarrow> None | Some v \<Rightarrow> if P v then Some v else None)"

lemma live_upd: "live P (tbl(i \<mapsto> v)) = (if P v then (live P tbl)(i \<mapsto> v) else (live P tbl)(i := None))"
  by (auto simp: live_def fun_eq_iff)

lemma live_Some: "live P tbl i = Some v \<longleftrightarrow> tbl i = Some v \<and> P v"
  by (auto simp: live_def split: option.split)

lemma live_None: "tbl i = None \<Longrightarrow> live P tbl i = None"
  by (simp add: live_def)

lemma indexed_upd:
  assumes "indexed cap owner (live P tbl) ix" "tbl i = Some v" "owner v' = owner v" "P v' = P v"
  shows "indexed cap owner (live P (tbl(i \<mapsto> v'))) ix"
proof -
  have "(\<exists>w. live P (tbl(i \<mapsto> v')) j = Some w \<and> owner w = a) \<longleftrightarrow> (\<exists>w. live P tbl j = Some w \<and> owner w = a)" for j a
    using assms(2-4) by (cases "j = i") (simp_all add: live_Some)
  with assms(1) show ?thesis unfolding indexed_def by simp
qed

abbreviation open_auction :: "AuctionListing \<Rightarrow> bool" where "open_auction a \<equiv> \<not> au_finalized a"
abbreviation pending_offer :: "TradeOffer \<Rightarrow> bool" where "pending_offer t \<equiv> tf_status t = Pending"

definition open_index :: "'a market_store_scheme \<Rightarrow> bool" where
  "open_index s \<longleftrightarrow> indexed MAX_AUCTIONS_PER_SELLER au_seller (live open_auction (mk_auctions s)) (mk_seller_auctions s)"

definition offers_inv :: "'a market_store_scheme \<Rightarrow> bool" where
  "offers_inv s \<longleftrightarrow> tbl_ok (\<lambda>i t. tf_offer_id t = i) (unwrap_or (mk_trade_counter s) 0) (mk_trade_offers s)
     \<and> indexed MAX_TRADE_OFFERS_PER_USER tf_offerer (live pending_offer (mk_trade_offers s)) (mk_user_trades s)"

lemma trade_frame:
  "create_listing env a x p e s = (Ok r, s') \<Longrightarrow> trade_view s' = trade_view s"
  "buy_listing env b i s = (Ok u, s') \<Longrightarrow> trade_view s' = trade_view s"
  "cancel_listing env a i s = (Ok u, s') \<Longrightarrow> trade_view s' = trade_view s"
  "create_auction env a x p d s = (Ok r, s') \<Longrightarrow> trade_view s' = trade_view s"
  "place_bid env b i p s = (Ok u, s') \<Longrightarrow> trade_view s' = trade_view s"
  "set_auto_bid env b i p s = (Ok u, s') \<Longrightarrow> trade_view s' = trade_view s"
  "finalize_auction env c i s = (Ok u, s') \<Longrightarrow> trade_view s' = trade_view s"
  "create_bundle env a xs p e s = (Ok r, s') \<Longrightarrow> trade_view s' = trade_view s"
  "buy_bundle env b i s = (Ok u, s') \<Longrightarrow> trade_view s' = trade_view s"
  using create_listing_Ok[of env a x p e s r s'] buy_listing_Ok[of env b i s u s'] cancel_listing_Ok[of env a i s u s'] create_auction_Ok[of env a x p d s r s']
    place_bid_Ok[of env b i p s u s'] auto_bid_Ok[of env b i p s s'] finalize_auction_Ok[of env c i s u s'] bundle_Ok(1)[of env a xs p e s r s'] bundle_Ok(2)[of env b i s s']
  by (simp_all, blast+)

lemma open_index_view: "auction_view s' = auction_view s \<Longrightarrow> open_index s' = open_index s"
  by (simp add: open_index_def view_defs)

lemma offers_inv_view: "trade_view s' = trade_view s \<Longrightarrow> offers_inv s' = offers_inv s"
  by (simp add: offers_inv_def view_defs)

lemma auctioned_index:
  assumes ok: "create_auction env a x p d s = (Ok i, s')" and inv: "open_index s" "auctions_inv s"
  shows "open_index s'"
proof -
  note f = create_auction_Ok[OF ok]
  have "mk_auctions s (Suc (unwrap_or (mk_auction_counter s) 0)) = None" using inv(2) tbl_ok_fresh unfolding auctions_inv_def by blast
  then have none: "mk_auctions s i = None" using f by simp
  show ?thesis using f inv(1) live_None[of "mk_auctions s" i open_auction]  none unfolding open_index_def
    by (simp add: view_defs live_upd indexed_new sellers_def[symmetric])
qed

lemma bid_index:
  assumes ok: "place_bid env b i p s = (Ok u, s')" and inv: "open_index s"
  shows "open_index s'"
proof -
  from place_bid_Ok[OF ok] obtain a where a: "mk_auctions s i = Some a" and v: "mk_auctions s' = (mk_auctions s)(i \<mapsto> outbid env b p a)" "mk_seller_auctions s' = mk_seller_auctions s"
    by (auto simp: view_defs)
  show ?thesis using inv a unfolding open_index_def v by (intro indexed_upd) (auto simp: outbid_def)
qed

lemma finalised_index:
  assumes ok: "finalize_auction env c i s = (Ok u, s')" and inv: "open_index s"
  shows "open_index s'"
proof -
  from finalize_auction_Ok[OF ok] obtain a where a: "mk_auctions s i = Some a" "\<not> au_finalized a" and v: "mk_auctions s' = (mk_auctions s)(i \<mapsto> a\<lparr>au_finalized := True\<rparr>)"
      "mk_seller_auctions s' = (mk_seller_auctions s)(au_seller a \<mapsto> filter (\<lambda>j. j \<noteq> i) (sellers (mk_seller_auctions s) (au_seller a)))"
    by (auto simp: view_defs sellers_def)
  have "live open_auction (mk_auctions s) i = Some a" using a by (simp add: live_Some)
  from indexed_del[OF inv[unfolded open_index_def] this] show ?thesis unfolding open_index_def v by (simp add: live_upd)
qed

lemma open_index_step: "market_step env s s' \<Longrightarrow> open_index s \<Longrightarrow> auctions_inv s \<Longrightarrow> open_index s'"
proof (induction rule: market_step.induct)
  case (auction env a x p d s s')
  from auction.hyps show ?case by (rule commitsE) (rule auctioned_index[OF _ auction.prems])
next
  case (bid env b i p s s')
  from bid.hyps show ?case by (rule commitsE) (rule bid_index[OF _ bid.prems(1)])
next
  case (final env c i s s')
  from final.hyps show ?case by (rule commitsE) (rule finalised_index[OF _ final.prems(1)])
qed (erule commitsE, drule auction_frame, drule open_index_view, simp)+

lemma offered_inv:
  assumes ok: "create_trade_offer env a g xs ys d s = (Ok i, s')" and inv: "offers_inv s"
  shows "offers_inv s'"
proof -
  note f = create_trade_Ok[OF ok]
  let ?c = "unwrap_or (mk_trade_counter s) 0"
  have none: "mk_trade_offers s (Suc ?c) = None" using inv tbl_ok_fresh unfolding offers_inv_def by blast
  show ?thesis using f inv live_None[of "mk_trade_offers s" "Suc ?c" pending_offer] none unfolding offers_inv_def
    by (simp add: view_defs live_upd indexed_new sellers_def[symmetric] tbl_ok_new)
qed

lemma answered_inv:
  assumes inv: "offers_inv s" and t: "mk_trade_offers s i = Some t" "tf_status t = Pending" "st \<noteq> Pending"
    and v: "trade_view s' = ((mk_trade_offers s)(i \<mapsto> t\<lparr>tf_status := st\<rparr>), mk_trade_counter s,
        (mk_user_trades s)(tf_offerer t \<mapsto> filter (\<lambda>j. j \<noteq> i) (unwrap_or (mk_user_trades s (tf_offerer t)) [])))"
  shows "offers_inv s'"
proof -
  have l: "live pending_offer (mk_trade_offers s) i = Some t" using t by (simp add: live_Some)
  have e: "mk_trade_offers s' = (mk_trade_offers s)(i \<mapsto> t\<lparr>tf_status := st\<rparr>)" "mk_trade_counter s' = mk_trade_counter s"
      "mk_user_trades s' = (mk_user_trades s)(tf_offerer t \<mapsto> filter (\<lambda>j. j \<noteq> i) (sellers (mk_user_trades s) (tf_offerer t)))" using v by (simp_all add: view_defs sellers_def)
  have ok: "tbl_ok (\<lambda>i t. tf_offer_id t = i) (unwrap_or (mk_trade_counter s) 0) (mk_trade_offers s)"
    and ix: "indexed MAX_TRADE_OFFERS_PER_USER tf_offerer (live pending_offer (mk_trade_offers s)) (mk_user_trades s)"
    using inv by (simp_all add: offers_inv_def)
  have "tf_offer_id t = i" using tbl_ok_get[OF ok t(1)] .
  then have "tbl_ok (\<lambda>i t. tf_offer_id t = i) (unwrap_or (mk_trade_counter s) 0) ((mk_trade_offers s)(i \<mapsto> t\<lparr>tf_status := st\<rparr>))"
    by (intro tbl_ok_upd[where v = t, OF ok t(1)]) simp
  moreover have "indexed MAX_TRADE_OFFERS_PER_USER tf_offerer ((live pending_offer (mk_trade_offers s))(i := None)) (mk_user_trades s')"
    unfolding e(3) by (rule indexed_del[where owner = tf_offerer and v = t, OF ix l refl])
  ultimately show ?thesis using t(3) unfolding offers_inv_def e(1,2) by (simp add: live_upd)
qed

lemma accepted_inv:
  assumes ok: "accept_trade_offer env g i s = (Ok u, s')" and inv: "offers_inv s"
  shows "offers_inv s'"
  using accept_trade_Ok[OF ok] by (elim exE conjE) (rule answered_inv[OF inv, where st = Accepted], simp_all)

lemma rejected_inv:
  assumes ok: "cancel_trade_offer env c i s = (Ok u, s')" and inv: "offers_inv s"
  shows "offers_inv s'"
  using cancel_trade_Ok[OF ok] by (elim exE conjE) (rule answered_inv[OF inv], assumption+, simp_all)

lemma offers_step: "market_step env s s' \<Longrightarrow> offers_inv s \<Longrightarrow> offers_inv s'"
proof (induction rule: market_step.induct)
  case (offer env a g xs ys d s s')
  from offer.hyps show ?case by (rule commitsE) (rule offered_inv[OF _ offer.prems])
next
  case (accept env g i s s')
  from accept.hyps show ?case by (rule commitsE) (rule accepted_inv[OF _ accept.prems])
next
  case (reject env c i s s')
  from reject.hyps show ?case by (rule commitsE) (rule rejected_inv[OF _ reject.prems])
qed (erule commitsE, drule trade_frame, drule offers_inv_view, simp)+

definition market_inv :: "'a market_store_scheme \<Rightarrow> bool" where
  "market_inv s \<longleftrightarrow> listings_inv s \<and> auctions_inv s \<and> open_index s \<and> offers_inv s"

interpretation market: step_system "\<lambda>s s'. \<exists>env. market_step env s s'" market_inv
  by unfold_locales (auto simp: market_inv_def intro: listings_step auctions_step open_index_step offers_step)

text \<open>A finalised auction whose end has passed does not change any more.\<close>

definition closed_at :: "u64 \<Rightarrow> u64 \<Rightarrow> AuctionListing \<Rightarrow> Bid list \<Rightarrow> 'a market_store_scheme \<Rightarrow> bool" where
  "closed_at now i a bs s \<longleftrightarrow> get_auction i s = Some a \<and> au_finalized a \<and> au_ends_at a < now \<and> get_auction_bids i s = bs"

lemma closed_view: "auction_view s' = auction_view s \<Longrightarrow> closed_at now i a bs s \<Longrightarrow> closed_at now i a bs s'"
  by (simp add: closed_at_def view_defs get_auction_def get_auction_bids_def)

lemma closed_other:
  assumes "closed_at now i a bs s" "j \<noteq> i" "mk_auctions s' = (mk_auctions s)(j \<mapsto> v)" "\<And>k. k \<noteq> j \<Longrightarrow> mk_auction_bids s' k = mk_auction_bids s k"
  shows "closed_at now i a bs s'"
  using assms by (simp add: closed_at_def get_auction_def get_auction_bids_def)

lemma closed_step: "market_step env s s' \<Longrightarrow> closed_at now i a bs s \<Longrightarrow> auctions_inv s \<Longrightarrow> now \<le> timestamp env \<Longrightarrow> closed_at now i a bs s'"
proof (induction rule: market_step.induct)
  case (auction env b x p d s s')
  from auction.hyps obtain j where ok: "create_auction env b x p d s = (Ok j, s')" by (rule commitsE)
  have j: "j = Suc (unwrap_or (mk_auction_counter s) 0)" using create_auction_Ok[OF ok] by simp
  have "mk_auctions s i = Some a" using auction.prems(1) by (simp add: closed_at_def get_auction_def)
  from tbl_ok_bound[OF auction.prems(2)[unfolded auctions_inv_def] this] j have ne: "j \<noteq> i" by simp
  obtain v where v: "mk_auctions s' = (mk_auctions s)(j \<mapsto> v)" "mk_auction_bids s' = (mk_auction_bids s)(j \<mapsto> [])"
    using create_auction_Ok[OF ok] by (simp add: view_defs)
  show ?case by (rule closed_other[OF auction.prems(1) ne v(1)]) (simp add: v(2))
next
  case (bid env b j p s s')
  from bid.hyps obtain u where ok: "place_bid env b j p s = (Ok u, s')" by (rule commitsE)
  from place_bid_Ok[OF ok] obtain v where v: "mk_auctions s j = Some v" "timestamp env \<le> au_ends_at v" "mk_auctions s' = (mk_auctions s)(j \<mapsto> outbid env b p v)"
      "mk_auction_bids s' = (mk_auction_bids s)(j \<mapsto> get_auction_bids j s @ [\<lparr>bd_bidder = b, bd_amount = p, bd_timestamp = timestamp env\<rparr>])"
    by (auto simp: view_defs)
  have ne: "j \<noteq> i" using bid.prems(1,3) v(1,2) by (auto simp: closed_at_def get_auction_def)
  show ?case by (rule closed_other[OF bid.prems(1) ne v(3)]) (simp add: v(4))
next
  case (final env c j s s')
  from final.hyps obtain u where ok: "finalize_auction env c j s = (Ok u, s')" by (rule commitsE)
  from finalize_auction_Ok[OF ok] obtain v where v: "mk_auctions s j = Some v" "\<not> au_finalized v" "mk_auctions s' = (mk_auctions s)(j \<mapsto> v\<lparr>au_finalized := True\<rparr>)" "mk_auction_bids s' = mk_auction_bids s"
    by (auto simp: view_defs)
  have ne: "j \<noteq> i" using final.prems(1) v(1,2) by (auto simp: closed_at_def get_auction_def)
  show ?case by (rule closed_other[OF final.prems(1) ne v(3)]) (simp add: v(4))
qed (erule commitsE, drule auction_frame, erule closed_view, assumption)+

lemma closed_run: "runs market_step es s t \<Longrightarrow> closed_at now i a bs s \<Longrightarrow> auctions_inv s \<Longrightarrow> (\<forall>e\<in>set es. now \<le> timestamp e) \<Longrightarrow> closed_at now i a bs t \<and> auctions_inv t"
proof (induction rule: runs.induct)
  case (runs_snoc es s t e u)
  then show ?case using closed_step[OF runs_snoc.hyps(2)] auctions_step[OF runs_snoc.hyps(2)] by simp
qed simp

text \<open>One table of escrowed assets serves listings, auctions, bundles and trade offers, and their counters are independent: creating an
  auction replaces the escrowed asset of the listing that has the same number.\<close>

lemma escrow_key_shared:
  assumes "create_auction env a x p d s = (Ok i, s')" "get_listing i s = Some l"
  shows "get_listing i s' = Some l \<and> mk_escrow s' i = Some (OneAsset x)"
  using create_auction_Ok[OF assms(1)] assms(2) by (simp add: get_listing_def view_defs)

text \<open>Once a sale is counted the statistics cannot be read.\<close>

lemma stats_unreadable: "buy_bundle env b i s = (Ok (), s') \<Longrightarrow> get_marketplace_stats s' = Panic"
  by (auto simp: buy_bundle_def get_marketplace_stats_def Let_def ok_rules dest!: fees_Ok bumps_Ok)

definition no_market :: market_store where
  "no_market = rep_store.extend no_reputation \<lparr>mk_listings = Map.empty, mk_listing_counter = None, mk_seller_listings = Map.empty, mk_auctions = Map.empty,
     mk_auction_counter = None, mk_seller_auctions = Map.empty, mk_auction_bids = Map.empty, mk_auto_bids = Map.empty, mk_bundles = Map.empty, mk_bundle_counter = None,
     mk_trade_offers = Map.empty, mk_trade_counter = None, mk_user_trades = Map.empty, mk_escrow = Map.empty, mk_total_volume = None, mk_total_sales = None,
     mk_total_listings = None, mk_total_auctions = None, mk_category_volume = Map.empty, mk_recent_sales = Map.empty, mk_collected_fees = None\<rparr>"

lemma no_market_simps: "mk_listings no_market = Map.empty" "mk_listing_counter no_market = None" "mk_seller_listings no_market = Map.empty" "mk_auctions no_market = Map.empty"
    "mk_auction_counter no_market = None" "mk_seller_auctions no_market = Map.empty" "mk_auction_bids no_market = Map.empty" "mk_trade_offers no_market = Map.empty"
    "mk_trade_counter no_market = None" "mk_user_trades no_market = Map.empty" "mk_total_listings no_market = None" "rep_scores no_market = Map.empty"
  by (simp_all add: no_market_def rep_store.defs no_reputation_def fraud_store.defs)

lemma no_market_empty: "mk_recent_sales no_market = Map.empty" "mk_total_volume no_market = None" "mk_category_volume no_market = Map.empty" "mk_collected_fees no_market = None"
  by (simp_all add: no_market_def rep_store.defs)

lemma no_market_inv: "market_inv no_market"
  by (simp add: market_inv_def listings_inv_def auctions_inv_def open_index_def offers_inv_def indexed_def live_count_def live_def sellers_def no_market_simps)

definition some_asset :: Asset where
  "some_asset = \<lparr>as_category = ShipNFT, as_asset_id = 7, as_quantity = 1, as_rarity = Rare, as_name = ''Nebula''\<rparr>"

definition one_auction :: AuctionListing where
  "one_auction = \<lparr>au_auction_id = 1, au_seller = Addr 2, au_asset = some_asset, au_starting_price = 1000, au_current_bid = 1000, au_highest_bidder = None,
     au_started_at = 5, au_ends_at = 105, au_finalized = False\<rparr>"

lemma auction_opened:
  obtains s where "create_auction (signed_at 5 7) (Addr 2) some_asset 1000 100 no_market = (Ok 1, s)" "get_auction 1 s = Some one_auction" "get_auction_bids 1 s = []"
    "(\<lambda>s s'. \<exists>env. market_step env s s')\<^sup>*\<^sup>* no_market s" "market_inv s"
proof -
  obtain s where ok: "create_auction (signed_at 5 7) (Addr 2) some_asset 1000 100 no_market = (Ok 1, s)" and a: "get_auction 1 s = Some one_auction" "get_auction_bids 1 s = []"
    by (simp add: create_auction_def no_market_simps Let_def checked_add_def next_auction_id_def get_auction_def get_auction_bids_def one_auction_def)
  have step: "market_step (signed_at 5 7) no_market s"
    using market_step.auction commitsI[where f = "create_auction (signed_at 5 7) (Addr 2) some_asset 1000 100", OF ok] by blast
  then have "(\<lambda>s s'. \<exists>env. market_step env s s')\<^sup>*\<^sup>* no_market s" by blast
  with ok a market.run_inv[OF this no_market_inv] show ?thesis by (intro that)
qed

section \<open>Properties\<close>

text \<open>C25. Bidding. After any run, every bid of an auction exceeds the one before it, and the first the starting price, by at least five percent
  rounded down to a whole unit; the current bid and the highest bidder are those of the last bid, the seller has not bid, and no bid is later than
  the auction's end. A bid is accepted exactly when the auction has not ended, the bidder is not the seller and the amount reaches the current
  bid plus five percent of it rounded down; it becomes the current bid, and the end moves, if at all, at most five minutes later. Below a
  current bid of 20 the rounded increment is zero, and a bid that only equals the current one is accepted and takes the top.\<close>

theorem auction_bidding:
  assumes run: "(\<lambda>s s'. \<exists>env. market_step env s s')\<^sup>*\<^sup>* s t" and inv: "market_inv s" and a: "get_auction i t = Some a" and b: "auth env b"
  shows "raises (au_starting_price a) (get_auction_bids i t) \<and> au_current_bid a = top_bid (au_starting_price a) (get_auction_bids i t)
    \<and> au_highest_bidder a = (if get_auction_bids i t = [] then None else Some (bd_bidder (last (get_auction_bids i t))))
    \<and> (\<forall>x\<in>set (get_auction_bids i t). au_starting_price a \<le> bd_amount x \<and> bd_bidder x \<noteq> au_seller a \<and> bd_timestamp x \<le> au_ends_at a)
    \<and> (in_i128 (au_current_bid a * 500) \<and> in_i128 (au_current_bid a + au_current_bid a * 500 div 10000) \<longrightarrow>
        ((\<exists>u. place_bid env b i amt t = (Ok (), u)) \<longleftrightarrow>
          timestamp env \<le> au_ends_at a \<and> b \<noteq> au_seller a \<and> au_current_bid a + au_current_bid a * 500 div 10000 \<le> amt))
    \<and> (au_current_bid a < 20 \<and> timestamp env \<le> au_ends_at a \<and> b \<noteq> au_seller a \<longrightarrow> (\<exists>u. place_bid env b i (au_current_bid a) t = (Ok (), u)))
    \<and> (\<forall>u. place_bid env b i amt t = (Ok (), u) \<longrightarrow> (\<exists>a'. get_auction i u = Some a' \<and> au_current_bid a' = amt \<and> au_highest_bidder a' = Some b
          \<and> au_ends_at a \<le> au_ends_at a' \<and> au_ends_at a' \<le> au_ends_at a + 300))"
proof -
  have t: "market_inv t" using market.run_inv[OF run inv] .
  have a': "mk_auctions t i = Some a" using a by (simp add: get_auction_def)
  have ok: "auction_ok (get_auction_bids i t) i a" using t a' tbl_ok_get[of "\<lambda>i. auction_ok (get_auction_bids i t) i"] unfolding market_inv_def auctions_inv_def by blast
  have bids: "au_starting_price a \<le> bd_amount x \<and> bd_bidder x \<noteq> au_seller a \<and> bd_timestamp x \<le> au_ends_at a" if "x \<in> set (get_auction_bids i t)" for x
    using ok that raises_pos[of "au_starting_price a" "get_auction_bids i t" x] by (auto simp: auction_ok_def)
  have pos: "0 < au_current_bid a" using ok raises_pos[of "au_starting_price a" "get_auction_bids i t" "last (get_auction_bids i t)"] by (auto simp: auction_ok_def top_bid_def)
  have acc: "(\<exists>u. place_bid env b i x t = (Ok (), u)) \<longleftrightarrow> timestamp env \<le> au_ends_at a \<and> b \<noteq> au_seller a \<and> au_current_bid a + au_current_bid a * 500 div 10000 \<le> x"
    if "in_i128 (au_current_bid a * 500)" "in_i128 (au_current_bid a + au_current_bid a * 500 div 10000)" for x
  proof -
    have m: "min_bid (au_current_bid a) = Some (au_current_bid a + au_current_bid a * 500 div 10000)" using pos that by (simp add: min_bid_def ck_def sdiv_nonneg)
    show ?thesis using a' b m by (auto simp: place_bid_def Let_def process_auto_bids_def)
  qed
  have new: "\<exists>a'. get_auction i u = Some a' \<and> au_current_bid a' = amt \<and> au_highest_bidder a' = Some b \<and> au_ends_at a \<le> au_ends_at a' \<and> au_ends_at a' \<le> au_ends_at a + 300"
    if "place_bid env b i amt t = (Ok (), u)" for u
    using place_bid_Ok[OF that] a' ok by (auto simp: view_defs get_auction_def outbid_def auction_ok_def)
  have "\<exists>u. place_bid env b i (au_current_bid a) t = (Ok (), u)" if "au_current_bid a < 20 \<and> timestamp env \<le> au_ends_at a \<and> b \<noteq> au_seller a"
    using acc[of "au_current_bid a"] pos that by (simp add: in_i128_def)
  with ok bids acc[of amt] new show ?thesis by (simp add: auction_ok_def)
qed

theorem auction_bidding_witness:
  "\<exists>s. create_auction (signed_at 5 7) (Addr 2) some_asset 1000 100 no_market = (Ok 1, s)
     \<and> (\<exists>u. place_bid (signed_at 6 8) (Addr 3) 1 1050 s = (Ok (), u)) \<and> \<not> (\<exists>u. place_bid (signed_at 6 8) (Addr 3) 1 1049 s = (Ok (), u))"
proof -
  obtain s where s: "create_auction (signed_at 5 7) (Addr 2) some_asset 1000 100 no_market = (Ok 1, s)" "get_auction 1 s = Some one_auction"
    "(\<lambda>s s'. \<exists>env. market_step env s s')\<^sup>*\<^sup>* no_market s" by (rule auction_opened)
  from auction_bidding[OF s(3) no_market_inv s(2), of "signed_at 6 8" "Addr 3" 1050] auction_bidding[OF s(3) no_market_inv s(2), of "signed_at 6 8" "Addr 3" 1049]
  show ?thesis using s(1) by (auto simp: one_auction_def in_i128_def)
qed

text \<open>An auction is settled once. Finalising succeeds only after the end, and from then on, whatever is invoked at the same time or
  later, the auction and its bids stay as they are, no bid is accepted and it cannot be finalised again.\<close>

lemma auction_settled_once:
  assumes fin: "finalize_auction env c i s = (Ok (), s1)" and inv: "market_inv s" and run: "runs market_step es s1 t"
    and later: "\<forall>e\<in>set es. timestamp env \<le> timestamp e" "timestamp env \<le> timestamp e'"
  shows "\<exists>a. get_auction i s = Some a \<and> au_ends_at a < timestamp env \<and> get_auction i t = Some (a\<lparr>au_finalized := True\<rparr>)
    \<and> get_auction_bids i t = get_auction_bids i s \<and> (\<forall>u. finalize_auction e' c' i t \<noteq> (Ok (), u)) \<and> (\<forall>u. place_bid e' b i amt t \<noteq> (Ok (), u))"
proof -
  from finalize_auction_Ok[OF fin] obtain a where a: "mk_auctions s i = Some a" "au_ends_at a < timestamp env" and v: "mk_auctions s1 = (mk_auctions s)(i \<mapsto> a\<lparr>au_finalized := True\<rparr>)" "mk_auction_bids s1 = mk_auction_bids s"
    by (auto simp: view_defs)
  have c1: "closed_at (timestamp env) i (a\<lparr>au_finalized := True\<rparr>) (get_auction_bids i s) s1" using a v by (simp add: closed_at_def get_auction_def get_auction_bids_def)
  have "auctions_inv s1" using finalised_inv[OF fin] inv by (simp add: market_inv_def)
  from closed_run[OF run c1 this] later(1) have c: "closed_at (timestamp env) i (a\<lparr>au_finalized := True\<rparr>) (get_auction_bids i s) t" by simp
  have nf: "finalize_auction e' c' i t \<noteq> (Ok (), u)" for u using finalize_auction_Ok[of e' c' i t "()" u] c by (auto simp: closed_at_def get_auction_def)
  have np: "place_bid e' b i amt t \<noteq> (Ok (), u)" for u using place_bid_Ok[of e' b i amt t "()" u] c later(2) by (auto simp: closed_at_def get_auction_def)
  show ?thesis using a c nf np by (auto simp: closed_at_def get_auction_def)
qed

lemma auction_settled_once_example:
  "\<exists>s s1. create_auction (signed_at 5 7) (Addr 2) some_asset 1000 100 no_market = (Ok 1, s) \<and> finalize_auction (signed_at 106 8) (Addr 4) 1 s = (Ok (), s1)
     \<and> (\<forall>u. place_bid (signed_at 106 8) (Addr 3) 1 2000 s1 \<noteq> (Ok (), u))"
proof -
  obtain s where s: "create_auction (signed_at 5 7) (Addr 2) some_asset 1000 100 no_market = (Ok 1, s)" "get_auction 1 s = Some one_auction" "market_inv s" by (rule auction_opened)
  obtain s1 where fin: "finalize_auction (signed_at 106 8) (Addr 4) 1 s = (Ok (), s1)"
    using s(2) by (simp add: finalize_auction_def get_auction_def one_auction_def Let_def)
  from auction_settled_once[OF fin s(3) runs_nil, of "signed_at 106 8" "Addr 4" "Addr 3" 2000] s(1) fin show ?thesis by auto
qed

text \<open>The marketplace's indexes. After any run, the index of a seller lists, once each, exactly the live listings of that seller, at most
  50; the auction index exactly the auctions that are not finalised, at most 20; the trade index exactly the pending offers, at most 30;
  every listing has a positive price, and while at most \<open>u32::MAX\<close> listings were ever made the listing counter is their number.\<close>

lemma market_indexes:
  assumes "(\<lambda>s s'. \<exists>env. market_step env s s')\<^sup>*\<^sup>* s t" "market_inv s"
  shows "indexed 50 fl_seller (mk_listings t) (mk_seller_listings t)
    \<and> indexed 20 au_seller (live open_auction (mk_auctions t)) (mk_seller_auctions t)
    \<and> indexed 30 tf_offerer (live pending_offer (mk_trade_offers t)) (mk_user_trades t)
    \<and> (\<forall>i l. get_listing i t = Some l \<longrightarrow> fl_listing_id l = i \<and> 0 < fl_price l)
    \<and> (unwrap_or (mk_listing_counter t) 0 \<le> u32_max \<longrightarrow> unwrap_or (mk_total_listings t) 0 = card (dom (mk_listings t)))"
proof -
  have t: "market_inv t" using market.run_inv assms .
  have "fl_listing_id l = i \<and> 0 < fl_price l" if "get_listing i t = Some l" for i l
    using t that tbl_ok_get[of "\<lambda>i l. fl_listing_id l = i \<and> 0 < fl_price l" _ "mk_listings t" i l] unfolding market_inv_def listings_inv_def get_listing_def by blast
  with t show ?thesis by (simp add: market_inv_def listings_inv_def open_index_def offers_inv_def live_count_def)
qed

lemma market_indexes_example:
  "\<exists>s. create_auction (signed_at 5 7) (Addr 2) some_asset 1000 100 no_market = (Ok 1, s) \<and> 1 \<in> set (sellers (mk_seller_auctions s) (Addr 2))"
proof -
  obtain s where s: "create_auction (signed_at 5 7) (Addr 2) some_asset 1000 100 no_market = (Ok 1, s)" "get_auction 1 s = Some one_auction"
    "(\<lambda>s s'. \<exists>env. market_step env s s')\<^sup>*\<^sup>* no_market s" by (rule auction_opened)
  have "live open_auction (mk_auctions s) 1 = Some one_auction" "au_seller one_auction = Addr 2" using s(2) by (simp_all add: live_Some get_auction_def one_auction_def)
  with market_indexes[OF s(3) no_market_inv] s(1) show ?thesis by (auto simp: indexed_def)
qed

text \<open>A sale. Buying a listing needs a live listing of somebody else and a buyer who sold the same asset in none of its recorded sales of
  the last seven days; the listing and its escrow are gone, the volumes grow by the price and the fees by the success fee, which is
  between 1.5 and 3 percent of the price, rounded down, and leaves the rest of the price as the seller's proceeds.\<close>

lemma sale_exact:
  assumes ok: "buy_listing env b i s = (Ok (), s')" and l: "get_listing i s = Some l" and p: "0 < fl_price l" "in_i128 (fl_price l)"
  shows "b \<noteq> fl_seller l \<and> \<not> expired env (fl_expires_at l)
    \<and> (\<forall>x\<in>set (recent_sales (as_asset_id (fl_asset l)) s). sr_seller x = b \<longrightarrow> sr_timestamp x + 604800 < timestamp env)
    \<and> get_listing i s' = None \<and> mk_escrow s' i = None
    \<and> get_category_volume (as_category (fl_asset l)) s' = get_category_volume (as_category (fl_asset l)) s + fl_price l
    \<and> (\<exists>fee proceeds. calculate_fees (fl_seller l) (fl_price l) False s = (Ok (fee, proceeds), s) \<and> fee + proceeds = fl_price l
        \<and> fl_price l * 150 div 10000 \<le> fee \<and> fee \<le> fl_price l * 300 div 10000
        \<and> unwrap_or (mk_collected_fees s') 0 = unwrap_or (mk_collected_fees s) 0 + fee)"
proof -
  from buy_listing_Ok[OF ok] l obtain fee pay where f: "\<not> expired env (fl_expires_at l)" "fl_seller l \<noteq> b"
      "\<forall>x\<in>set (recent_sales (as_asset_id (fl_asset l)) s). WASH_TRADE_WINDOW_SECONDS < timestamp env - sr_timestamp x \<or> sr_seller x \<noteq> b"
      "calculate_fees (fl_seller l) (fl_price l) False s = (Ok (fee, pay), s)" "mk_listings s' = (mk_listings s)(i := None)" "mk_escrow s' = (mk_escrow s)(i := None)"
      "mk_collected_fees s' = Some (unwrap_or (mk_collected_fees s) 0 + fee)"
      "get_category_volume (as_category (fl_asset l)) s' = get_category_volume (as_category (fl_asset l)) s + fl_price l"
    by (auto simp: view_defs get_listing_def)
  let ?bps = "fee_bps False (fl_seller l) s"
  have fee: "fee = fl_price l * ?bps div 10000" "pay = fl_price l - fee" using f(4) fees_eval[OF p, of "fl_seller l" False s] by (auto simp: Let_def split: if_splits)
  have "fl_price l * 150 \<le> fl_price l * ?bps" "fl_price l * ?bps \<le> fl_price l * 300"
    using p(1) fee_bps_range(2,3)[of False "fl_seller l" s] by (auto intro!: mult_left_mono)
  then have "fl_price l * 150 div 10000 \<le> fee" "fee \<le> fl_price l * 300 div 10000" unfolding fee by (auto intro: zdiv_mono1)
  with f fee(2) show ?thesis by (auto simp: get_listing_def)
qed

lemma sale_exact_example:
  "\<exists>s s'. create_listing (signed_at 5 7) (Addr 2) some_asset 1000 None no_market = (Ok 1, s) \<and> buy_listing (signed_at 6 8) (Addr 3) 1 s = (Ok (), s')
     \<and> get_listing 1 s' = None \<and> get_category_volume ShipNFT s' = 1000"
proof -
  let ?l = "\<lparr>fl_listing_id = 1, fl_seller = Addr 2, fl_asset = some_asset, fl_price = 1000, fl_listed_at = 5, fl_expires_at = None\<rparr>"
  obtain s where s: "create_listing (signed_at 5 7) (Addr 2) some_asset 1000 None no_market = (Ok 1, s)" and l: "get_listing 1 s = Some ?l"
    and e: "rep_scores s = Map.empty" "mk_recent_sales s = Map.empty" "mk_total_volume s = None" "mk_category_volume s = Map.empty" "mk_collected_fees s = Some 10"
    by (simp add: create_listing_def fees_eval fee_bps_def fee_discount_bps_def get_reputation_score_def no_market_simps no_market_empty Let_def checked_add_def next_listing_id_def
      bump_collected_fees_def ck_def in_i128_def get_listing_def publish_def)
  obtain s' where ok: "buy_listing (signed_at 6 8) (Addr 3) 1 s = (Ok (), s')"
    using l e by (simp add: buy_listing_def get_listing_def expired_def check_wash_trading_def recent_sales_def fees_eval fee_bps_def fee_discount_bps_def get_reputation_score_def
      some_asset_def bump_volume_def bump_category_volume_def bump_collected_fees_def ck_def in_i128_def record_sale_def Let_def)
  have "get_category_volume ShipNFT s = 0" using e(4) by (simp add: get_category_volume_def)
  with sale_exact[OF ok l] s ok show ?thesis by (auto simp: in_i128_def some_asset_def)
qed

text \<open>Searching by name. The window search returns exactly whether the needle, with its first character in lower case and the others as they
  are, occurs in the lower-case name, for names of at most 128 bytes: a needle without capital letters is found whatever the case of the
  name, and one with a capital letter after its first character is never found.\<close>

lemma fuzzy_match_exact:
  "fuzzy_match name []
    \<and> (fuzzy_match name (c # needle) \<longleftrightarrow> length name \<le> 128 \<and> sublist (ascii_lower c # needle) (map ascii_lower name))
    \<and> (map ascii_lower needle \<noteq> needle \<longrightarrow> \<not> fuzzy_match name (c # needle))"
proof -
  let ?n = "c # needle" and ?m = "ascii_lower c # needle"
  have main: "fuzzy_match name ?n \<longleftrightarrow> length name \<le> 128 \<and> sublist ?m (map ascii_lower name)"
  proof (cases "length ?n \<le> length name \<and> length name \<le> 128")
    case True
    then have "sublist ?m (map ascii_lower name) \<longleftrightarrow> (\<exists>k\<le>length name - length ?n. \<forall>j<length ?n. ascii_lower (name ! (k + j)) = ?m ! j)"
      using sublist_at[of ?m "map ascii_lower name"] by auto
    also have "\<dots> \<longleftrightarrow> window_loop name ?n 0"
      unfolding window_loop_iff rest_matches_iff by (auto simp: less_Suc_eq_0_disj nth_Cons' Suc_le_eq)
    finally show ?thesis using True by (simp add: fuzzy_match_def Let_def)
  next
    case False
    then show ?thesis using sublist_length_le[of ?m "map ascii_lower name"] by (auto simp: fuzzy_match_def Let_def)
  qed
  have "map ascii_lower needle = needle" if "sublist ?m (map ascii_lower name)"
  proof (rule map_idI)
    fix x assume "x \<in> set needle"
    with set_mono_sublist[OF that] obtain y where "x = ascii_lower y" by auto
    then show "ascii_lower x = x" by (simp add: ascii_lower_idem)
  qed
  with main show ?thesis by (auto simp: fuzzy_match_def)
qed

lemma fuzzy_match_exact_example: "fuzzy_match ''Nebula'' ''Neb'' \<and> \<not> fuzzy_match ''Nebula'' ''NEB''"
proof -
  have "ascii_lower CHR ''N'' = CHR ''n''" "map ascii_lower ''Nebula'' = ''nebula''" "ascii_lower CHR ''E'' = CHR ''e''" by (simp_all add: ascii_lower_def char_of_def bit_Suc_0_iff)
  moreover have "sublist ''neb'' ''nebula''" unfolding sublist_def by (intro exI[of _ "[]"] exI[of _ "''ula''"]) simp
  ultimately show ?thesis using fuzzy_match_exact[of "''Nebula''" "CHR ''N''" "''eb''"] fuzzy_match_exact[of "''Nebula''" "CHR ''N''" "''EB''"] by auto
qed

end
