(* ===== verification/Progression_Model.thy ===== *)
theory Progression_Model
  imports Prelude
begin

text \<open>
  \<open>src/economics/progression_model.rs\<close>: level cost curves, psychological pricing and the time-to-level simulator. Everything is
  \<open>u64\<close> arithmetic without storage; the plain operators that could trap are checked (\<open>None\<close>).
\<close>

section \<open>Model\<close>

abbreviation MAX_LEVEL :: nat where "MAX_LEVEL \<equiv> 20"
abbreviation BPS :: u64 where "BPS \<equiv> 10000"
abbreviation SCANS_PER_HOUR :: u64 where "SCANS_PER_HOUR \<equiv> 10"
abbreviation UNITS_PER_SCAN :: u64 where "UNITS_PER_SCAN \<equiv> 365"
abbreviation UNITS_PER_HOUR :: u64 where "UNITS_PER_HOUR \<equiv> SCANS_PER_HOUR * UNITS_PER_SCAN"
abbreviation DEFAULT_BASE_COST :: u64 where "DEFAULT_BASE_COST \<equiv> 1449"
abbreviation DEFAULT_LEVEL_GROWTH_BPS :: u64 where "DEFAULT_LEVEL_GROWTH_BPS \<equiv> 3500"
abbreviation PSYCHOLOGICAL_PRICING_FLOOR :: u64 where "PSYCHOLOGICAL_PRICING_FLOOR \<equiv> 49"

definition LOG2_Q8 :: "u64 list" where
  "LOG2_Q8 = [0, 0, 256, 406, 512, 594, 662, 719, 768, 811, 850, 886, 918, 947, 974, 1000, 1024, 1047, 1067, 1087, 1105]"

datatype CurveKind = Linear | Exponential | Logarithmic

datatype PlayStyle = Casual | Regular | Hardcore

fun hours_per_day :: "PlayStyle \<Rightarrow> u64" where
  "hours_per_day Casual = 1"
| "hours_per_day Regular = 2"
| "hours_per_day Hardcore = 4"

definition daily_income :: "PlayStyle \<Rightarrow> u64" where
  "daily_income style = hours_per_day style * UNITS_PER_HOUR"

definition all_styles :: "PlayStyle list" where
  "all_styles = [Casual, Regular, Hardcore]"

record ProgressionCurve =
  pc_kind :: CurveKind
  pc_base_cost :: u64
  pc_growth_bps :: u64

definition default_rebalanced :: ProgressionCurve where
  "default_rebalanced = \<lparr>pc_kind = Exponential, pc_base_cost = DEFAULT_BASE_COST, pc_growth_bps = DEFAULT_LEVEL_GROWTH_BPS\<rparr>"

definition with_kind :: "CurveKind \<Rightarrow> ProgressionCurve \<Rightarrow> ProgressionCurve" where
  "with_kind kind curve = curve\<lparr>pc_kind := kind\<rparr>"

definition curve_is_valid :: "ProgressionCurve \<Rightarrow> bool" where
  "curve_is_valid curve \<longleftrightarrow> pc_base_cost curve > 0 \<and> pc_growth_bps curve \<le> 10 * BPS"

text \<open>The subtraction \<open>hundreds - 1\<close> is not reached below 100 and the sum \<open>lower + 50\<close> traps near the top of the range.\<close>

definition psychological_price :: "u64 \<Rightarrow> u64 option" where
  "psychological_price raw =
    (if raw < PSYCHOLOGICAL_PRICING_FLOOR then Some raw
     else let hundreds = raw div 100; remainder = raw mod 100 in
     case (if remainder \<ge> 99 then Some (hundreds * 100 + 99)
           else if remainder \<ge> 49 then Some (hundreds * 100 + 49)
           else map_option (\<lambda>h. h * 100 + 99) (checked_sub hundreds 1)) of
       None \<Rightarrow> None
     | Some lower \<Rightarrow>
     case checked_add u64_max lower 50 of
       None \<Rightarrow> None
     | Some upper \<Rightarrow> if raw - lower \<le> upper - raw then Some lower else Some upper)"

fun grow :: "nat \<Rightarrow> u64 \<Rightarrow> u64 \<Rightarrow> u64" where
  "grow 0 multiplier cost = cost"
| "grow (Suc n) multiplier cost = grow n multiplier (saturating_mul u64_max cost multiplier div BPS)"

definition raw_level_cost :: "ProgressionCurve \<Rightarrow> u32 \<Rightarrow> u64" where
  "raw_level_cost curve level =
    (if level = 0 \<or> level > MAX_LEVEL \<or> \<not> curve_is_valid curve then 0
     else let steps = level - 1 in
     case pc_kind curve of
       Linear \<Rightarrow> let increment = saturating_mul u64_max (pc_base_cost curve) (pc_growth_bps curve) div BPS
                in saturating_add u64_max (pc_base_cost curve) (saturating_mul u64_max increment steps)
     | Exponential \<Rightarrow> grow steps (saturating_add u64_max BPS (pc_growth_bps curve)) (pc_base_cost curve)
     | Logarithmic \<Rightarrow> let log_term = saturating_mul u64_max (pc_growth_bps curve) (LOG2_Q8 ! level) div 256
                in saturating_mul u64_max (pc_base_cost curve) (saturating_add u64_max BPS log_term) div BPS)"

definition level_cost :: "ProgressionCurve \<Rightarrow> u32 \<Rightarrow> u64 option" where
  "level_cost curve level = psychological_price (raw_level_cost curve level)"

fun cost_fold :: "ProgressionCurve \<Rightarrow> u32 list \<Rightarrow> u64 \<Rightarrow> u64 option" where
  "cost_fold curve [] acc = Some acc"
| "cost_fold curve (l # ls) acc = (case level_cost curve l of None \<Rightarrow> None | Some c \<Rightarrow> cost_fold curve ls (saturating_add u64_max acc c))"

definition cumulative_cost :: "ProgressionCurve \<Rightarrow> u32 \<Rightarrow> u64 option" where
  "cumulative_cost curve level = cost_fold curve [1 ..< min level MAX_LEVEL + 1] 0"

definition div_ceil :: "nat \<Rightarrow> nat \<Rightarrow> nat" where
  "div_ceil a b = (if a mod b = 0 then a div b else a div b + 1)"

definition days_to_level :: "ProgressionCurve \<Rightarrow> PlayStyle \<Rightarrow> u32 \<Rightarrow> u64 option" where
  "days_to_level curve style level = (case cumulative_cost curve level of
     None \<Rightarrow> None
   | Some total_cost \<Rightarrow>
   let income = daily_income style in
   if total_cost = 0 \<or> income = 0 then Some 0 else Some (div_ceil total_cost income))"

function afford_loop :: "ProgressionCurve \<Rightarrow> u64 \<Rightarrow> u32 \<Rightarrow> u32 option" where
  "afford_loop curve banked level =
    (if level < MAX_LEVEL then
       (case cumulative_cost curve (level + 1) of
          None \<Rightarrow> None
        | Some c \<Rightarrow> if c \<le> banked then afford_loop curve banked (level + 1) else Some level)
     else Some level)"
  by pat_completeness auto
termination by (relation "measure (\<lambda>(curve, banked, level). MAX_LEVEL - level)") auto

declare afford_loop.simps [simp del]

definition level_after_days :: "ProgressionCurve \<Rightarrow> PlayStyle \<Rightarrow> u64 \<Rightarrow> u32 option" where
  "level_after_days curve style days = afford_loop curve (saturating_mul u64_max (daily_income style) days) 0"

record ProgressionReport =
  pg_casual_level_5 :: u64
  pg_casual_level_10 :: u64
  pg_regular_level_5 :: u64
  pg_regular_level_10 :: u64
  pg_hardcore_level_5 :: u64
  pg_hardcore_level_10 :: u64
  pg_hardcore_max_level :: u64
  pg_total_cost_to_max :: u64

definition simulate :: "ProgressionCurve \<Rightarrow> ProgressionReport option" where
  "simulate curve =
     Option.bind (days_to_level curve Casual 5) (\<lambda>c5. Option.bind (days_to_level curve Casual 10) (\<lambda>c10.
     Option.bind (days_to_level curve Regular 5) (\<lambda>r5. Option.bind (days_to_level curve Regular 10) (\<lambda>r10.
     Option.bind (days_to_level curve Hardcore 5) (\<lambda>h5. Option.bind (days_to_level curve Hardcore 10) (\<lambda>h10.
     Option.bind (days_to_level curve Hardcore MAX_LEVEL) (\<lambda>hm. Option.bind (cumulative_cost curve MAX_LEVEL) (\<lambda>tc.
       Some \<lparr>pg_casual_level_5 = c5, pg_casual_level_10 = c10, pg_regular_level_5 = r5, pg_regular_level_10 = r10, pg_hardcore_level_5 = h5,
             pg_hardcore_level_10 = h10, pg_hardcore_max_level = hm, pg_total_cost_to_max = tc\<rparr>))))))))"

definition meets_retention_targets :: "ProgressionCurve \<Rightarrow> bool option" where
  "meets_retention_targets curve = map_option (\<lambda>r. pg_casual_level_5 r \<le> 7 \<and> pg_casual_level_10 r \<le> 30 \<and> pg_regular_level_5 r \<le> 3 \<and> pg_regular_level_10 r \<le> 14
     \<and> pg_hardcore_level_5 r \<le> 1 \<and> pg_hardcore_level_10 r \<le> 7 \<and> pg_hardcore_max_level r \<ge> 60) (simulate curve)"

section \<open>Prices\<close>

lemma psychological_price_near:
  assumes "raw + 50 \<le> u64_max"
  shows "\<exists>p. psychological_price raw = Some p \<and> (raw < 49 \<longrightarrow> p = raw) \<and> (49 \<le> raw \<longrightarrow> (p mod 50 = 49 \<and> p \<le> raw + 25 \<and> raw \<le> p + 25))"
proof (cases "raw < 49")
  case True
  then show ?thesis by (simp add: psychological_price_def)
next
  case False
  define h r where "h = raw div 100" and "r = raw mod 100"
  have raw: "raw = h * 100 + r" "r < 100" by (simp_all add: h_def r_def)
  obtain lower where l: "(if r \<ge> 99 then Some (h * 100 + 99) else if r \<ge> 49 then Some (h * 100 + 49) else map_option (\<lambda>h. h * 100 + 99) (checked_sub h 1)) = Some lower"
      "lower \<le> raw" "raw < lower + 50" "lower mod 50 = 49"
  proof -
    consider "r \<ge> 99" | "49 \<le> r" "r < 99" | "r < 49" "1 \<le> h" using False raw by linarith
    then show ?thesis
    proof cases
      case 1
      then show ?thesis using raw by (intro that[of "h * 100 + 99"]) (simp_all, presburger)
    next
      case 2
      then show ?thesis using raw by (intro that[of "h * 100 + 49"]) (simp_all, presburger)
    next
      case 3
      then obtain k where "h = Suc k" by (cases h) auto
      then show ?thesis using raw 3 by (intro that[of "k * 100 + 99"]) (simp_all add: checked_sub_def, presburger)
    qed
  qed
  have s: "checked_add u64_max lower 50 = Some (lower + 50)" using l(2) assms by (simp add: checked_add_def)
  have "psychological_price raw = (if raw - lower \<le> lower + 50 - raw then Some lower else Some (lower + 50))"
    unfolding psychological_price_def Let_def h_def[symmetric] r_def[symmetric] l(1) option.case s using False by (simp only: if_False)
  moreover have "(lower + 50) mod 50 = 49" using l(4) by simp
  ultimately show ?thesis using l(2-4) False by (cases "raw - lower \<le> lower + 50 - raw") auto
qed

lemma grow_numeral: "grow (numeral k) m c = grow (pred_numeral k) m (saturating_mul u64_max c m div BPS)"
  by (subst numeral_eq_Suc[of k]) (rule grow.simps(2))

lemmas cost_eval = level_cost_def raw_level_cost_def default_rebalanced_def curve_is_valid_def grow_numeral psychological_price_def
  saturating_mul_def saturating_add_def checked_add_def checked_sub_def Let_def

text \<open>The prices of the default ladder, level by level.\<close>

lemma default_costs:
  "level_cost default_rebalanced (Suc 0) = Some 1449"
  "level_cost default_rebalanced 2 = Some 1949"
  "level_cost default_rebalanced 3 = Some 2649"
  "level_cost default_rebalanced 4 = Some 3549"
  "level_cost default_rebalanced 5 = Some 4799"
  "level_cost default_rebalanced 6 = Some 6499"
  "level_cost default_rebalanced 7 = Some 8749"
  "level_cost default_rebalanced 8 = Some 11849"
  "level_cost default_rebalanced 9 = Some 15999"
  "level_cost default_rebalanced 10 = Some 21549"
  "level_cost default_rebalanced 11 = Some 29099"
  "level_cost default_rebalanced 12 = Some 39299"
  "level_cost default_rebalanced 13 = Some 53049"
  "level_cost default_rebalanced 14 = Some 71649"
  "level_cost default_rebalanced 15 = Some 96699"
  "level_cost default_rebalanced 16 = Some 130549"
  "level_cost default_rebalanced 17 = Some 176249"
  "level_cost default_rebalanced 18 = Some 237899"
  "level_cost default_rebalanced 19 = Some 321199"
  "level_cost default_rebalanced 20 = Some 433599"
  by (simp_all add: cost_eval)

lemma level_lists: "[1 ..< 6] = [1, 2, 3, 4, 5 :: nat]" "[1 ..< 11] = [1, 2, 3, 4, 5, 6, 7, 8, 9, 10 :: nat]"
    "[1 ..< 21] = [1, 2, 3, 4, 5, 6, 7, 8, 9, 10, 11, 12, 13, 14, 15, 16, 17, 18, 19, 20 :: nat]"
  by (simp_all add: upt_conv_Cons)

lemma default_totals: "cumulative_cost default_rebalanced 5 = Some 14395" "cumulative_cost default_rebalanced 10 = Some 79040" "cumulative_cost default_rebalanced 20 = Some 1668330"
  unfolding cumulative_cost_def by (simp_all add: level_lists[simplified] default_costs saturating_add_def)

section \<open>The ladder\<close>

lemma cost_fold_append: "cost_fold curve (xs @ ys) acc = Option.bind (cost_fold curve xs acc) (cost_fold curve ys)"
  by (induction xs arbitrary: acc) (auto split: option.split)

lemma cumulative_Suc: "l < 20 \<Longrightarrow> cumulative_cost curve (Suc l) = Option.bind (cumulative_cost curve l) (\<lambda>c. map_option (saturating_add u64_max c) (level_cost curve (Suc l)))"
  by (simp add: cumulative_cost_def cost_fold_append split: option.split) (auto split: option.split bind_split)

lemma cumulative_range: "cumulative_cost curve l = Some c \<Longrightarrow> c \<le> u64_max"
proof -
  have "cost_fold curve ls acc = Some c \<Longrightarrow> acc \<le> u64_max \<Longrightarrow> c \<le> u64_max" for ls acc
    by (induction ls arbitrary: acc) (auto simp: saturating_add_def split: option.splits)
  then show "cumulative_cost curve l = Some c \<Longrightarrow> c \<le> u64_max" unfolding cumulative_cost_def by (metis zero_le)
qed

lemma cumulative_mono:
  assumes "cumulative_cost curve n = Some c" "n \<le> 20" "l \<le> n"
  shows "\<exists>b. cumulative_cost curve l = Some b \<and> b \<le> c"
  using assms
proof (induction n arbitrary: c)
  case (Suc n)
  from Suc.prems(1,2) obtain a x where a: "cumulative_cost curve n = Some a" "c = saturating_add u64_max a x"
    using cumulative_Suc[of n curve] by (auto simp: bind_eq_Some_conv)
  have ac: "a \<le> c" using cumulative_range[OF a(1)] a(2) by (simp add: saturating_add_def)
  show ?case
  proof (cases "l = Suc n")
    case False
    then obtain b where "cumulative_cost curve l = Some b" "b \<le> a" using Suc.IH[OF a(1)] Suc.prems(2,3) by auto
    then show ?thesis using ac by auto
  qed (use Suc.prems in auto)
qed simp

lemma afford_loop_exact:
  assumes "cumulative_cost curve 20 = Some tc" "l0 \<le> 20"
  shows "\<exists>L. afford_loop curve banked l0 = Some L \<and> l0 \<le> L \<and> L \<le> 20 \<and> (l0 < L \<longrightarrow> the (cumulative_cost curve L) \<le> banked)
    \<and> (L < 20 \<longrightarrow> banked < the (cumulative_cost curve (Suc L)))"
  using assms(2)
proof (induction "20 - l0" arbitrary: l0)
  case 0
  then show ?case by (subst afford_loop.simps) simp
next
  case (Suc n)
  then have lt: "l0 < 20" by simp
  obtain c where c: "cumulative_cost curve (Suc l0) = Some c" using cumulative_mono[OF assms(1), of "Suc l0"] lt by auto
  show ?case
  proof (cases "c \<le> banked")
    case True
    have step: "afford_loop curve banked l0 = afford_loop curve banked (Suc l0)" using lt c True by (subst afford_loop.simps) simp
    have "n = 20 - Suc l0" using Suc.hyps(2) by simp
    from Suc.hyps(1)[OF this] lt obtain L where L: "afford_loop curve banked (Suc l0) = Some L" "Suc l0 \<le> L" "L \<le> 20"
      "Suc l0 < L \<longrightarrow> the (cumulative_cost curve L) \<le> banked" "L < 20 \<longrightarrow> banked < the (cumulative_cost curve (Suc L))" by auto
    then have "the (cumulative_cost curve L) \<le> banked" using c True by (cases "L = Suc l0") auto
    with step L show ?thesis by auto
  next
    case False
    then have "afford_loop curve banked l0 = Some l0" using lt c by (subst afford_loop.simps) simp
    then show ?thesis using lt c False by auto
  qed
qed

lemma div_ceil_le:
  assumes "0 < b"
  shows "div_ceil a b \<le> k \<longleftrightarrow> a \<le> b * k"
proof (cases "a mod b = 0")
  case True
  then obtain q where "a = b * q" by (metis mod_0_imp_dvd dvdE)
  then show ?thesis using assms by (simp add: div_ceil_def)
next
  case False
  have "div_ceil a b \<le> k \<longleftrightarrow> a div b < k" using False by (simp add: div_ceil_def Suc_le_eq)
  also have "\<dots> \<longleftrightarrow> a < b * k" using assms by (simp add: div_less_iff_less_mult mult.commute)
  also have "\<dots> \<longleftrightarrow> a \<le> b * k" using False by (metis le_neq_implies_less less_imp_le mod_mult_self1_is_0)
  finally show ?thesis .
qed

section \<open>Properties\<close>

text \<open>The default ladder keeps its promises: the twenty levels cost 1,668,330 units in total, and every retention target of the module holds, from a
  hardcore player's level 5 on the first day to at least sixty days for the top level.\<close>

lemma default_curve_meets_targets:
  "meets_retention_targets default_rebalanced = Some True \<and> cumulative_cost default_rebalanced MAX_LEVEL = Some 1668330"
  by (simp add: meets_retention_targets_def simulate_def days_to_level_def default_totals daily_income_def div_ceil_def)

text \<open>The two simulators agree. For every curve whose prices do not trap, the days computed for a level are the least number of days after which a
  player of that style can afford the level, and both computations end.\<close>

lemma days_to_level_least:
  assumes "cumulative_cost curve MAX_LEVEL \<noteq> None" "l \<le> MAX_LEVEL"
  shows "\<exists>d L. days_to_level curve style l = Some d \<and> level_after_days curve style k = Some L \<and> L \<le> MAX_LEVEL \<and> (l \<le> L \<longleftrightarrow> d \<le> k)"
proof -
  obtain tc where top: "cumulative_cost curve 20 = Some tc" using assms(1) by auto
  obtain c where c: "cumulative_cost curve l = Some c" using cumulative_mono[OF top, of l] assms(2) by auto
  let ?in = "daily_income style" and ?b = "saturating_mul u64_max (daily_income style) k"
  have inc: "0 < ?in" by (cases style) (simp_all add: daily_income_def)
  have d: "days_to_level curve style l = Some (div_ceil c ?in)" using c inc by (auto simp: days_to_level_def div_ceil_def Let_def)
  have le: "div_ceil c ?in \<le> k \<longleftrightarrow> c \<le> ?b" using div_ceil_le[OF inc] cumulative_range[OF c] by (auto simp: saturating_mul_def)
  obtain L where L: "afford_loop curve ?b 0 = Some L" "L \<le> 20" "0 < L \<longrightarrow> the (cumulative_cost curve L) \<le> ?b" "L < 20 \<longrightarrow> ?b < the (cumulative_cost curve (Suc L))"
    using afford_loop_exact[OF top, of 0 ?b] by auto
  have "l \<le> L \<longleftrightarrow> c \<le> ?b"
  proof
    assume lL: "l \<le> L"
    show "c \<le> ?b"
    proof (cases "L = 0")
      case True
      then have "c = 0" using lL c by (simp add: cumulative_cost_def)
      then show ?thesis by simp
    next
      case False
      obtain e where e: "cumulative_cost curve L = Some e" using cumulative_mono[OF top, of L] L(2) by auto
      then show ?thesis using cumulative_mono[OF e L(2) lL] c L(3) False by auto
    qed
  next
    assume cb: "c \<le> ?b"
    show "l \<le> L"
    proof (rule ccontr)
      assume "\<not> l \<le> L"
      then have l: "Suc L \<le> l" "L < 20" using assms(2) by auto
      from cumulative_mono[OF c assms(2) l(1)] L(4) l(2) cb show False by auto
    qed
  qed
  with d le L show ?thesis by (auto simp: level_after_days_def)
qed

lemma days_to_level_least_example:
  "\<exists>d L. days_to_level default_rebalanced Casual 5 = Some d \<and> level_after_days default_rebalanced Casual 4 = Some L \<and> (5 \<le> L \<longleftrightarrow> d \<le> 4)"
  using days_to_level_least[of default_rebalanced 5 Casual 4] by (auto simp: default_totals)

end
