(* ===== verification/Ship_Upgrade.thy ===== *)
theory Ship_Upgrade
  imports Staking Progression_Model
begin

text \<open>
  \<open>src/ship_upgrade.rs\<close>: upgrade modules priced by a compounding curve, the module and mass limits, batches, and the ladder of ship
  levels priced by \<open>progression_model.rs\<close>. Costs are taken from the harvested balances of the resource minter. The key
  \<open>Admin\<close> of the instance storage is the one that other modules use under the same name.
\<close>

section \<open>Model\<close>

abbreviation MAX_MODULES :: u32 where "MAX_MODULES \<equiv> 5"
abbreviation MAX_MASS :: u32 where "MAX_MASS \<equiv> 100"
abbreviation MAX_BATCH_UPGRADES :: nat where "MAX_BATCH_UPGRADES \<equiv> 2"
abbreviation UPGRADE_BPS_DENOMINATOR :: u32 where "UPGRADE_BPS_DENOMINATOR \<equiv> 10000"
abbreviation DEFAULT_GROWTH_BPS :: u32 where "DEFAULT_GROWTH_BPS \<equiv> 6000"
abbreviation DEFAULT_MAX_COST :: u32 where "DEFAULT_MAX_COST \<equiv> 100000"

record UpgradeEconomy =
  ue_growth_bps :: u32
  ue_max_cost :: u32

definition default_economy :: UpgradeEconomy where
  "default_economy = \<lparr>ue_growth_bps = DEFAULT_GROWTH_BPS, ue_max_cost = DEFAULT_MAX_COST\<rparr>"

fun compound_cost :: "nat \<Rightarrow> u64 \<Rightarrow> u64 \<Rightarrow> u64 \<Rightarrow> u64" where
  "compound_cost 0 multiplier cap cost = (if cost \<ge> cap then cap else cost)"
| "compound_cost (Suc n) multiplier cap cost =
    (let cost = saturating_mul u64_max cost multiplier div UPGRADE_BPS_DENOMINATOR in if cost \<ge> cap then cap else compound_cost n multiplier cap cost)"

definition to_u32_or_max :: "u64 \<Rightarrow> u32" where
  "to_u32_or_max x = (if x \<le> u32_max then x else u32_max)"

definition scaled_upgrade_cost :: "u32 \<Rightarrow> u32 \<Rightarrow> u32 \<Rightarrow> u32 \<Rightarrow> u32" where
  "scaled_upgrade_cost base_cost installed_modules growth_bps max_cost =
    (if base_cost = 0 then 0
     else let cap = (if max_cost = 0 then u32_max else max_cost);
              multiplier = max (saturating_add u32_max UPGRADE_BPS_DENOMINATOR growth_bps) 1
          in to_u32_or_max (compound_cost (min installed_modules MAX_MODULES) multiplier cap base_cost))"

datatype ShipUpgradeError = NotInitialized | AlreadyInitialized | InsufficientResources | UnknownComponent | InvariantViolation | BatchTooLarge | InvalidShipId
  | EmptyBatch | InvalidBlueprint | UpgradeRateLimitExceeded | InvalidEconomy | MaxLevelReached | NotShipOwner | InvalidProgressionCurve

record ShipState =
  st_ship_id :: u64
  st_module_count :: u32
  st_total_mass :: u32
  st_scanner_bonus :: u32
  st_hull_bonus :: u32
  st_regen_bonus :: u32

record UpgradeBlueprint =
  ub_asset_id :: symbol
  ub_resource_cost :: u32
  ub_mass :: u32
  ub_scanner_bonus :: u32
  ub_hull_bonus :: u32
  ub_regen_bonus :: u32

record LevelUpgradeResult =
  lu_ship_id :: u64
  lu_level :: u32
  lu_cost :: u32
  lu_asset_id :: symbol

text \<open>The blueprint map is an association list with distinct keys.\<close>

record upgrade_store = stake_store +
  upgrade_config :: "(symbol \<times> UpgradeBlueprint) list option"
  upgrade_state :: "u64 \<rightharpoonup> ShipState"
  upgrade_economy :: "UpgradeEconomy option"
  upgrade_spend :: "u32 option"
  ship_levels :: "u64 \<rightharpoonup> u32"
  upgrade_progression :: "ProgressionCurve option"
  level_spend :: "u64 option"

definition init_upgrade_config :: "env \<Rightarrow> address \<Rightarrow> (symbol \<times> UpgradeBlueprint) list \<Rightarrow> 'a upgrade_store_scheme \<Rightarrow> (ShipUpgradeError, unit) outcome \<times> 'a upgrade_store_scheme" where
  "init_upgrade_config env admin blueprints s =
    (if inst_admin s \<noteq> None then (Err ShipUpgradeError.AlreadyInitialized, s)
     else if \<not> auth env admin then (Panic, s)
     else if blueprints = [] then (Err InvalidBlueprint, s)
     else (Ok (), s\<lparr>inst_admin := Some admin, upgrade_config := Some blueprints\<rparr>))"

definition validate_invariants :: "ShipState \<Rightarrow> (ShipUpgradeError, unit) outcome" where
  "validate_invariants ship =
    (if st_module_count ship > MAX_MODULES then Err InvariantViolation
     else if st_total_mass ship > MAX_MASS then Err InvariantViolation
     else Ok ())"

definition get_ship_state :: "u64 \<Rightarrow> 'a upgrade_store_scheme \<Rightarrow> ShipState option" where
  "get_ship_state ship_id s = upgrade_state s ship_id"

definition get_upgrade_config :: "'a upgrade_store_scheme \<Rightarrow> (symbol \<times> UpgradeBlueprint) list option" where
  "get_upgrade_config s = upgrade_config s"

definition get_upgrade_economy :: "'a upgrade_store_scheme \<Rightarrow> UpgradeEconomy" where
  "get_upgrade_economy s = unwrap_or (upgrade_economy s) default_economy"

definition installed_modules :: "u64 \<Rightarrow> 'a upgrade_store_scheme \<Rightarrow> u32" where
  "installed_modules ship_id s = (case upgrade_state s ship_id of None \<Rightarrow> 0 | Some st \<Rightarrow> st_module_count st)"

definition bare_state :: "u64 \<Rightarrow> ShipState" where
  "bare_state ship_id = \<lparr>st_ship_id = ship_id, st_module_count = 0, st_total_mass = 0, st_scanner_bonus = 0, st_hull_bonus = 0, st_regen_bonus = 0\<rparr>"

definition with_module :: "u64 \<Rightarrow> UpgradeBlueprint \<Rightarrow> ShipState \<Rightarrow> ShipState" where
  "with_module ship_id blueprint before =
    \<lparr>st_ship_id = ship_id, st_module_count = saturating_add u32_max (st_module_count before) 1, st_total_mass = saturating_add u32_max (st_total_mass before) (ub_mass blueprint),
     st_scanner_bonus = saturating_add u32_max (st_scanner_bonus before) (ub_scanner_bonus blueprint), st_hull_bonus = saturating_add u32_max (st_hull_bonus before) (ub_hull_bonus blueprint),
     st_regen_bonus = saturating_add u32_max (st_regen_bonus before) (ub_regen_bonus blueprint)\<rparr>"

definition state_svals :: "ShipState \<Rightarrow> sval list" where
  "state_svals st = [SU (st_ship_id st), SU (st_module_count st), SU (st_total_mass st), SU (st_scanner_bonus st), SU (st_hull_bonus st), SU (st_regen_bonus st)]"

definition apply_upgrade_inner :: "address \<Rightarrow> u64 \<Rightarrow> symbol \<Rightarrow> 'a upgrade_store_scheme \<Rightarrow> (ShipUpgradeError, ShipState) outcome \<times> 'a upgrade_store_scheme" where
  "apply_upgrade_inner player ship_id component s =
    (if ship_id = 0 then (Err InvalidShipId, s)
     else case upgrade_config s of
       None \<Rightarrow> (Err ShipUpgradeError.NotInitialized, s)
     | Some blueprints \<Rightarrow>
     case map_of blueprints component of
       None \<Rightarrow> (Err UnknownComponent, s)
     | Some blueprint \<Rightarrow>
     let economy = get_upgrade_economy s;
         upgrade_cost = scaled_upgrade_cost (ub_resource_cost blueprint) (installed_modules ship_id s) (ue_growth_bps economy) (ue_max_cost economy);
         balance = resource_balance player (ub_asset_id blueprint) s in
     if balance < upgrade_cost then (Err InsufficientResources, s)
     else let s = s\<lparr>resource_bal := (resource_bal s)((player, ub_asset_id blueprint) \<mapsto> balance - upgrade_cost)\<rparr>;
         s = s\<lparr>upgrade_spend := Some (saturating_add u32_max (unwrap_or (upgrade_spend s) 0) upgrade_cost)\<rparr>;
         before = unwrap_or (upgrade_state s ship_id) (bare_state ship_id);
         after = with_module ship_id blueprint before in
     and_then (validate_invariants after, s) (\<lambda>_ s.
       let s = s\<lparr>upgrade_state := (upgrade_state s)(ship_id \<mapsto> after)\<rparr>
       in (Ok after, publish [SS ''ship_upg'', SU ship_id, SA player] (state_svals before @ state_svals after @ [SS component]) s)))"

definition apply_upgrade :: "env \<Rightarrow> address \<Rightarrow> u64 \<Rightarrow> symbol \<Rightarrow> 'a upgrade_store_scheme \<Rightarrow> (ShipUpgradeError, ShipState) outcome \<times> 'a upgrade_store_scheme" where
  "apply_upgrade env player ship_id component s =
    (if \<not> auth env player then (Panic, s)
     else and_then (map_err (\<lambda>_. UpgradeRateLimitExceeded) (check_rate_limit env player ShipUpgrade s)) (\<lambda>_ s.
       apply_upgrade_inner player ship_id component s))"

fun batch_upgrade_loop :: "address \<Rightarrow> u64 \<Rightarrow> symbol list \<Rightarrow> ShipState list \<Rightarrow> 'a upgrade_store_scheme \<Rightarrow> (ShipUpgradeError, ShipState list) outcome \<times> 'a upgrade_store_scheme" where
  "batch_upgrade_loop player ship_id [] results s = (Ok results, s)"
| "batch_upgrade_loop player ship_id (component # components) results s =
    and_then (apply_upgrade_inner player ship_id component s) (\<lambda>state s. batch_upgrade_loop player ship_id components (results @ [state]) s)"

definition batch_upgrade :: "env \<Rightarrow> address \<Rightarrow> u64 \<Rightarrow> symbol list \<Rightarrow> 'a upgrade_store_scheme \<Rightarrow> (ShipUpgradeError, ShipState list) outcome \<times> 'a upgrade_store_scheme" where
  "batch_upgrade env player ship_id components s =
    (if length components > MAX_BATCH_UPGRADES then (Err BatchTooLarge, s)
     else if components = [] then (Err EmptyBatch, s)
     else if \<not> auth env player then (Panic, s)
     else and_then (map_err (\<lambda>_. UpgradeRateLimitExceeded) (check_rate_limit env player ShipUpgrade s)) (\<lambda>_ s.
       batch_upgrade_loop player ship_id components [] s))"

definition require_upgrade_admin :: "env \<Rightarrow> address \<Rightarrow> 'a upgrade_store_scheme \<Rightarrow> (ShipUpgradeError, unit) outcome \<times> 'a upgrade_store_scheme" where
  "require_upgrade_admin env admin s = (case inst_admin s of
     None \<Rightarrow> (Err ShipUpgradeError.NotInitialized, s)
   | Some stored \<Rightarrow>
     if \<not> auth env admin then (Panic, s)
     else if admin \<noteq> stored then (Err ShipUpgradeError.NotInitialized, s)
     else (Ok (), s))"

definition set_upgrade_economy :: "env \<Rightarrow> address \<Rightarrow> UpgradeEconomy \<Rightarrow> 'a upgrade_store_scheme \<Rightarrow> (ShipUpgradeError, unit) outcome \<times> 'a upgrade_store_scheme" where
  "set_upgrade_economy env admin economy s = and_then (require_upgrade_admin env admin s) (\<lambda>_ s.
     if ue_growth_bps economy > 100000 then (Err InvalidEconomy, s) else (Ok (), s\<lparr>upgrade_economy := Some economy\<rparr>))"

definition quote_upgrade_cost :: "u64 \<Rightarrow> symbol \<Rightarrow> 'a upgrade_store_scheme \<Rightarrow> (ShipUpgradeError, u32) outcome" where
  "quote_upgrade_cost ship_id component s =
    (if ship_id = 0 then Err InvalidShipId
     else case upgrade_config s of
       None \<Rightarrow> Err ShipUpgradeError.NotInitialized
     | Some blueprints \<Rightarrow>
     case map_of blueprints component of
       None \<Rightarrow> Err UnknownComponent
     | Some blueprint \<Rightarrow>
     let economy = get_upgrade_economy s in
     Ok (scaled_upgrade_cost (ub_resource_cost blueprint) (installed_modules ship_id s) (ue_growth_bps economy) (ue_max_cost economy)))"

definition get_total_upgrade_spend :: "'a upgrade_store_scheme \<Rightarrow> u32" where
  "get_total_upgrade_spend s = unwrap_or (upgrade_spend s) 0"

definition apply_regen_upgrade :: "env \<Rightarrow> u64 \<Rightarrow> u32 \<Rightarrow> 'a upgrade_store_scheme \<Rightarrow> (ShipUpgradeError, unit) outcome \<times> 'a upgrade_store_scheme" where
  "apply_regen_upgrade env ship_id bonus s = (case inst_admin s of
     None \<Rightarrow> (Err ShipUpgradeError.NotInitialized, s)
   | Some admin \<Rightarrow>
     if \<not> auth env admin then (Panic, s)
     else if bonus = 0 then (Ok (), s)
     else case upgrade_state s ship_id of
       None \<Rightarrow> (Err ShipUpgradeError.NotInitialized, s)
     | Some ship_state \<Rightarrow>
     let new_regen = st_regen_bonus ship_state;
         s = s\<lparr>upgrade_state := (upgrade_state s)(ship_id \<mapsto> ship_state\<lparr>st_regen_bonus := new_regen\<rparr>)\<rparr>
     in (Ok (), publish [SS ''ship_upg'', SS ''regen''] [SU ship_id, SU new_regen] s))"

definition get_ship_level :: "u64 \<Rightarrow> 'a upgrade_store_scheme \<Rightarrow> u32" where
  "get_ship_level ship_id s = unwrap_or (ship_levels s ship_id) 0"

definition get_progression_curve :: "'a upgrade_store_scheme \<Rightarrow> ProgressionCurve" where
  "get_progression_curve s = unwrap_or (upgrade_progression s) default_rebalanced"

definition set_progression_curve :: "env \<Rightarrow> address \<Rightarrow> ProgressionCurve \<Rightarrow> 'a upgrade_store_scheme \<Rightarrow> (ShipUpgradeError, unit) outcome \<times> 'a upgrade_store_scheme" where
  "set_progression_curve env admin curve s = and_then (require_upgrade_admin env admin s) (\<lambda>_ s.
     if \<not> curve_is_valid curve then (Err InvalidProgressionCurve, s) else (Ok (), s\<lparr>upgrade_progression := Some curve\<rparr>))"

definition level_upgrade_cost :: "u64 \<Rightarrow> 'a upgrade_store_scheme \<Rightarrow> (ShipUpgradeError, u64) outcome" where
  "level_upgrade_cost ship_id s =
    (if ship_id = 0 then Err InvalidShipId
     else let level = get_ship_level ship_id s in
     if level \<ge> MAX_LEVEL then Err MaxLevelReached
     else case level_cost (get_progression_curve s) (level + 1) of None \<Rightarrow> Panic | Some c \<Rightarrow> Ok c)"

definition level_cost_at :: "u32 \<Rightarrow> 'a upgrade_store_scheme \<Rightarrow> u64 option" where
  "level_cost_at level s = level_cost (get_progression_curve s) level"

definition simulate_progression :: "'a upgrade_store_scheme \<Rightarrow> ProgressionReport option" where
  "simulate_progression s = simulate (get_progression_curve s)"

definition get_total_level_spend :: "'a upgrade_store_scheme \<Rightarrow> u64" where
  "get_total_level_spend s = unwrap_or (level_spend s) 0"

definition upgrade_ship_level :: "env \<Rightarrow> address \<Rightarrow> u64 \<Rightarrow> symbol \<Rightarrow> 'a upgrade_store_scheme \<Rightarrow> (ShipUpgradeError, LevelUpgradeResult) outcome \<times> 'a upgrade_store_scheme" where
  "upgrade_ship_level env player ship_id asset_id s =
    (if \<not> auth env player then (Panic, s)
     else and_then (map_err (\<lambda>_. UpgradeRateLimitExceeded) (check_rate_limit env player ShipUpgrade s)) (\<lambda>_ s.
     if ship_id = 0 then (Err InvalidShipId, s)
     else and_then (map_err (\<lambda>_. InvalidShipId) (get_ship ship_id s, s)) (\<lambda>ship s.
     if sh_owner ship \<noteq> player then (Err NotShipOwner, s)
     else let level = get_ship_level ship_id s in
     if level \<ge> MAX_LEVEL then (Err MaxLevelReached, s)
     else let nxt = level + 1 in
     case level_cost (get_progression_curve s) nxt of
       None \<Rightarrow> (Panic, s)
     | Some cost_u64 \<Rightarrow>
     if cost_u64 > u32_max then (Err InsufficientResources, s)
     else let cost = cost_u64; balance = resource_balance player asset_id s in
     if balance < cost then (Err InsufficientResources, s)
     else let s = s\<lparr>resource_bal := (resource_bal s)((player, asset_id) \<mapsto> balance - cost)\<rparr>;
         spend = get_total_level_spend s;
         s = s\<lparr>level_spend := Some (saturating_add u64_max spend cost)\<rparr>;
         s = s\<lparr>ship_levels := (ship_levels s)(ship_id \<mapsto> nxt)\<rparr>;
         s = publish [SS ''upgrade'', SS ''level''] [SA player, SU ship_id, SU nxt, SU cost, SS asset_id] s
     in (Ok \<lparr>lu_ship_id = ship_id, lu_level = nxt, lu_cost = cost, lu_asset_id = asset_id\<rparr>, s))))"

section \<open>The cost curve\<close>

lemma compound_cap: "compound_cost n m cap c \<le> cap"
  by (induction n arbitrary: c) (auto simp: Let_def)

lemma compound_next:
  assumes "c \<le> u32_max" "10000 \<le> m" "m \<le> u32_max"
  shows "saturating_mul u64_max c m = c * m" "c \<le> c * m div 10000"
proof -
  have "c * m \<le> u32_max * u32_max" using assms by (intro mult_le_mono)
  then show "saturating_mul u64_max c m = c * m" by (simp add: saturating_mul_def)
  have "c * 10000 \<le> c * m" using assms(2) by (rule mult_le_mono2)
  then show "c \<le> c * m div 10000" using div_le_mono[of "c * 10000" "c * m" 10000] by simp
qed

lemma compound_mono:
  assumes "c \<le> u32_max" "10000 \<le> m" "m \<le> u32_max" "cap \<le> u32_max"
  shows "compound_cost n m cap c \<le> compound_cost (Suc n) m cap c"
  using assms(1)
proof (induction n arbitrary: c)
  case 0
  then show ?case using compound_next[OF 0 assms(2,3)] by (simp add: Let_def)
next
  case (Suc n)
  note nx = compound_next[OF Suc.prems assms(2,3)]
  show ?case
  proof (cases "c * m div 10000 \<ge> cap")
    case True
    then show ?thesis by (simp add: nx(1) Let_def)
  next
    case False
    then have "c * m div 10000 \<le> u32_max" using assms(4) by linarith
    moreover have "compound_cost (Suc k) m cap c = compound_cost k m cap (c * m div 10000)" for k using False by (simp add: nx(1))
    ultimately show ?thesis using Suc.IH[of "c * m div 10000"] by simp
  qed
qed

definition cost_cap :: "u32 \<Rightarrow> u32" where
  "cost_cap max_cost = (if max_cost = 0 then u32_max else max_cost)"

lemma scaled_eval:
  assumes "mc \<le> u32_max" "0 < b"
  shows "scaled_upgrade_cost b n g mc = compound_cost (min n 5) (saturating_add u32_max 10000 g) (cost_cap mc) b"
proof -
  have "max (saturating_add u32_max 10000 g) 1 = saturating_add u32_max 10000 g" by (simp add: saturating_add_def)
  moreover have "compound_cost (min n 5) (saturating_add u32_max 10000 g) (cost_cap mc) b \<le> u32_max"
    using compound_cap[of "min n 5" _ "cost_cap mc" b] assms(1) le_trans by (fastforce simp: cost_cap_def split: if_splits)
  ultimately show ?thesis using assms(2) by (simp add: scaled_upgrade_cost_def Let_def to_u32_or_max_def cost_cap_def[symmetric])
qed

lemma scaled_mono:
  assumes "mc \<le> u32_max" "b \<le> u32_max" "n \<le> k"
  shows "scaled_upgrade_cost b n g mc \<le> scaled_upgrade_cost b k g mc"
proof (cases "b = 0")
  case False
  let ?f = "\<lambda>i. compound_cost i (saturating_add u32_max 10000 g) (cost_cap mc) b"
  have "?f i \<le> ?f (Suc i)" for i
    using assms(1,2) by (intro compound_mono) (auto simp: saturating_add_def cost_cap_def)
  then have "?f i \<le> ?f j" if "i \<le> j" for i j using that by (rule lift_Suc_mono_le)
  then show ?thesis using False assms by (simp add: scaled_eval)
qed (simp add: scaled_upgrade_cost_def)

text \<open>The iterated floor falls more than one unit below the exact curve: the fifth module of base cost 100 costs 654, while 100 times 1.6 to the
  fourth is 655.36.\<close>

lemma compound_numeral: "compound_cost (numeral k) m cap c =
    (let c = saturating_mul u64_max c m div 10000 in if c \<ge> cap then cap else compound_cost (pred_numeral k) m cap c)"
  by (subst numeral_eq_Suc[of k]) (rule compound_cost.simps(2))

lemma curve_more_than_one_below: "scaled_upgrade_cost 100 4 6000 100000 = 654 \<and> (654 + 1) * 10 ^ 4 < 100 * (16::nat) ^ 4"
  by (simp add: scaled_upgrade_cost_def Let_def to_u32_or_max_def saturating_add_def saturating_mul_def compound_numeral)

section \<open>Steps and invariants\<close>

inductive upgrade_step :: "env \<Rightarrow> 'a upgrade_store_scheme \<Rightarrow> 'a upgrade_store_scheme \<Rightarrow> bool" where
  init: "commits (init_upgrade_config env a bs) s s' \<Longrightarrow> upgrade_step env s s'"
| single: "commits (apply_upgrade env p i c) s s' \<Longrightarrow> upgrade_step env s s'"
| batch: "commits (batch_upgrade env p i cs) s s' \<Longrightarrow> upgrade_step env s s'"
| economy: "commits (set_upgrade_economy env a e) s s' \<Longrightarrow> upgrade_step env s s'"
| regen: "commits (apply_regen_upgrade env i n) s s' \<Longrightarrow> upgrade_step env s s'"
| curve: "commits (set_progression_curve env a k) s s' \<Longrightarrow> upgrade_step env s s'"
| level: "commits (upgrade_ship_level env p i c) s s' \<Longrightarrow> upgrade_step env s s'"

definition upgrade_inv :: "'a upgrade_store_scheme \<Rightarrow> bool" where
  "upgrade_inv s \<longleftrightarrow> (\<forall>i st. upgrade_state s i = Some st \<longrightarrow> st_ship_id st = i \<and> st_module_count st \<le> MAX_MODULES \<and> st_total_mass st \<le> MAX_MASS)
     \<and> (\<forall>i. get_ship_level i s \<le> MAX_LEVEL)"

text \<open>The sink: \<open>a\<close> units left the balances for modules and \<open>b\<close> for levels, and the counters of what was spent record them.\<close>

definition sinks :: "nat \<Rightarrow> nat \<Rightarrow> 'a upgrade_store_scheme \<Rightarrow> 'a upgrade_store_scheme \<Rightarrow> bool" where
  "sinks a b s s' \<longleftrightarrow> finite (dom (resource_bal s')) \<and> msum (resource_bal s') + a + b = msum (resource_bal s)
     \<and> get_total_upgrade_spend s' = min u32_max (get_total_upgrade_spend s + a) \<and> get_total_level_spend s' = min u64_max (get_total_level_spend s + b)"

definition spends_ok :: "'a upgrade_store_scheme \<Rightarrow> bool" where
  "spends_ok s \<longleftrightarrow> finite (dom (resource_bal s)) \<and> get_total_upgrade_spend s \<le> u32_max \<and> get_total_level_spend s \<le> u64_max"

lemma sinks_ok: "sinks a b s s' \<Longrightarrow> spends_ok s'"
  by (simp add: sinks_def spends_ok_def)

lemma sinks_none:
  assumes "spends_ok s" "resource_bal s' = resource_bal s" "upgrade_spend s' = upgrade_spend s" "level_spend s' = level_spend s"
  shows "sinks 0 0 s s'"
  using assms by (simp add: sinks_def spends_ok_def get_total_upgrade_spend_def get_total_level_spend_def)

lemma sinks_trans: "sinks a b s t \<Longrightarrow> sinks c d t u \<Longrightarrow> sinks (a + c) (b + d) s u"
proof -
  have m: "min m (min m (x + y) + z) = min m (x + (y + z))" for m x y z :: nat by linarith
  show "sinks a b s t \<Longrightarrow> sinks c d t u \<Longrightarrow> sinks (a + c) (b + d) s u" by (simp add: sinks_def m)
qed

lemma publish_upgrade_store [simp]: "upgrade_config (publish t d s) = upgrade_config s" "upgrade_state (publish t d s) = upgrade_state s"
    "upgrade_economy (publish t d s) = upgrade_economy s" "upgrade_spend (publish t d s) = upgrade_spend s" "ship_levels (publish t d s) = ship_levels s"
    "upgrade_progression (publish t d s) = upgrade_progression s" "level_spend (publish t d s) = level_spend s"
  by (simp_all add: publish_def)

lemma validate_Ok [simp]: "validate_invariants st = Ok u \<longleftrightarrow> st_module_count st \<le> MAX_MODULES \<and> st_total_mass st \<le> MAX_MASS"
  by (auto simp: validate_invariants_def)

lemma inner_Ok:
  assumes "apply_upgrade_inner p i c s = (Ok st, s')"
  shows "\<exists>cost bs b. quote_upgrade_cost i c s = Ok cost \<and> upgrade_config s = Some bs \<and> map_of bs c = Some b \<and> cost \<le> resource_balance p (ub_asset_id b) s
    \<and> resource_bal s' = (resource_bal s)((p, ub_asset_id b) \<mapsto> resource_balance p (ub_asset_id b) s - cost)
    \<and> upgrade_spend s' = Some (saturating_add u32_max (get_total_upgrade_spend s) cost) \<and> level_spend s' = level_spend s \<and> ship_levels s' = ship_levels s
    \<and> upgrade_state s' = (upgrade_state s)(i \<mapsto> st) \<and> st = with_module i b (unwrap_or (upgrade_state s i) (bare_state i)) \<and> st_module_count st \<le> MAX_MODULES \<and> st_total_mass st \<le> MAX_MASS"
  using assms by (auto simp: apply_upgrade_inner_def quote_upgrade_cost_def get_total_upgrade_spend_def Let_def ok_rules)

lemma inner_sinks:
  assumes ok: "apply_upgrade_inner p i c s = (Ok st, s')" and s: "spends_ok s"
  shows "\<exists>a. sinks a 0 s s'"
proof -
  from inner_Ok[OF ok] obtain cost and b :: UpgradeBlueprint where f: "cost \<le> resource_balance p (ub_asset_id b) s"
      "resource_bal s' = (resource_bal s)((p, ub_asset_id b) \<mapsto> resource_balance p (ub_asset_id b) s - cost)"
      "upgrade_spend s' = Some (saturating_add u32_max (get_total_upgrade_spend s) cost)" "level_spend s' = level_spend s" by blast
  have "finite (dom (resource_bal s))" using s by (simp add: spends_ok_def)
  from msum_upd[OF this, of "(p, ub_asset_id b)" "resource_balance p (ub_asset_id b) s - cost"] f(1)
  have "msum (resource_bal s') + cost = msum (resource_bal s)" unfolding f(2) by (simp add: resource_balance_def)
  then have "sinks cost 0 s s'" using f s by (simp add: sinks_def spends_ok_def get_total_upgrade_spend_def get_total_level_spend_def saturating_add_def)
  then show ?thesis by blast
qed

lemma inner_inv:
  assumes ok: "apply_upgrade_inner p i c s = (Ok st, s')" and inv: "upgrade_inv s"
  shows "upgrade_inv s'"
proof -
  from inner_Ok[OF ok] obtain b where f: "upgrade_state s' = (upgrade_state s)(i \<mapsto> st)" "ship_levels s' = ship_levels s"
      "st = with_module i b (unwrap_or (upgrade_state s i) (bare_state i))" "st_module_count st \<le> MAX_MODULES" "st_total_mass st \<le> MAX_MASS" by blast
  have "st_ship_id st = i" unfolding f(3) by (simp add: with_module_def)
  then show ?thesis using inv f(1,2,4,5) by (simp add: upgrade_inv_def get_ship_level_def)
qed

lemma batch_loop_Ok:
  assumes "batch_upgrade_loop p i cs rs s = (Ok out, s')" "upgrade_inv s" "spends_ok s"
  shows "upgrade_inv s' \<and> (\<exists>a. sinks a 0 s s')"
  using assms
proof (induction cs arbitrary: rs s)
  case Nil
  then show ?case using sinks_none[of s s] by auto
next
  case (Cons c cs)
  from Cons.prems(1) obtain st t where t: "apply_upgrade_inner p i c s = (Ok st, t)" "batch_upgrade_loop p i cs (rs @ [st]) t = (Ok out, s')" by (auto simp: ok_rules)
  obtain a where a: "sinks a 0 s t" using inner_sinks[OF t(1) Cons.prems(3)] by blast
  from Cons.IH[OF t(2) inner_inv[OF t(1) Cons.prems(2)] sinks_ok[OF a]] sinks_trans[OF a] show ?case by fastforce
qed

lemma rate_limit_frame:
  assumes "check_rate_limit env p o1 s = (Ok u, t)"
  shows "upgrade_inv t = upgrade_inv s" "spends_ok t = spends_ok s" "spends_ok s \<Longrightarrow> sinks 0 0 s t" "resource_bal t = resource_bal s" "ship_levels t = ship_levels s" "ship_tbl t = ship_tbl s"
    "upgrade_progression t = upgrade_progression s" "quote_upgrade_cost i c t = quote_upgrade_cost i c s" "upgrade_config t = upgrade_config s" "upgrade_state t = upgrade_state s" "level_spend t = level_spend s" "upgrade_spend t = upgrade_spend s"
proof -
  from assms obtain m where t: "t = s\<lparr>rate_entry := m\<rparr>" by (auto simp: check_rate_Ok Let_def)
  show "upgrade_inv t = upgrade_inv s" "spends_ok t = spends_ok s" "resource_bal t = resource_bal s" "ship_levels t = ship_levels s" "ship_tbl t = ship_tbl s"
    "upgrade_progression t = upgrade_progression s" "quote_upgrade_cost i c t = quote_upgrade_cost i c s" "upgrade_config t = upgrade_config s" "upgrade_state t = upgrade_state s" "level_spend t = level_spend s" "upgrade_spend t = upgrade_spend s"
    by (simp_all add: t upgrade_inv_def spends_ok_def get_ship_level_def get_total_upgrade_spend_def get_total_level_spend_def quote_upgrade_cost_def get_upgrade_economy_def installed_modules_def split: option.split)
  show "spends_ok s \<Longrightarrow> sinks 0 0 s t" by (rule sinks_none) (simp_all add: t)
qed

lemma apply_upgrade_Ok:
  assumes "apply_upgrade env p i c s = (Ok st, s')"
  shows "\<exists>t. auth env p \<and> check_rate_limit env p ShipUpgrade s = (Ok (), t) \<and> apply_upgrade_inner p i c t = (Ok st, s')"
  using assms by (auto simp: apply_upgrade_def and_then_Ok map_err_Ok split: if_splits)

lemma batch_upgrade_Ok:
  assumes "batch_upgrade env p i cs s = (Ok out, s')"
  shows "\<exists>t. auth env p \<and> check_rate_limit env p ShipUpgrade s = (Ok (), t) \<and> batch_upgrade_loop p i cs [] t = (Ok out, s')"
  using assms by (auto simp: batch_upgrade_def and_then_Ok map_err_Ok split: if_splits)

lemma level_Ok:
  assumes "upgrade_ship_level env p i x s = (Ok r, s')"
  shows "\<exists>t ship cost. auth env p \<and> check_rate_limit env p ShipUpgrade s = (Ok (), t) \<and> i \<noteq> 0 \<and> ship_tbl t i = Some ship \<and> sh_owner ship = p \<and> get_ship_level i t < MAX_LEVEL
    \<and> level_cost (get_progression_curve t) (get_ship_level i t + 1) = Some cost \<and> cost \<le> resource_balance p x t \<and> cost \<le> u32_max
    \<and> resource_bal s' = (resource_bal t)((p, x) \<mapsto> resource_balance p x t - cost) \<and> upgrade_spend s' = upgrade_spend t
    \<and> level_spend s' = Some (saturating_add u64_max (get_total_level_spend t) cost) \<and> upgrade_state s' = upgrade_state t
    \<and> ship_levels s' = (ship_levels t)(i \<mapsto> get_ship_level i t + 1) \<and> r = \<lparr>lu_ship_id = i, lu_level = get_ship_level i t + 1, lu_cost = cost, lu_asset_id = x\<rparr>"
proof -
  from assms obtain t where t: "auth env p" "check_rate_limit env p ShipUpgrade s = (Ok (), t)" and k: "i \<noteq> 0"
    and k2: "and_then (map_err (\<lambda>_. InvalidShipId) (get_ship i t, t)) (\<lambda>ship s.
     if sh_owner ship \<noteq> p then (Err NotShipOwner, s)
     else let level = get_ship_level i s in
     if level \<ge> MAX_LEVEL then (Err MaxLevelReached, s)
     else let nxt = level + 1 in
     case level_cost (get_progression_curve s) nxt of
       None \<Rightarrow> (Panic, s)
     | Some cost_u64 \<Rightarrow>
     if cost_u64 > u32_max then (Err InsufficientResources, s)
     else let cost = cost_u64; balance = resource_balance p x s in
     if balance < cost then (Err InsufficientResources, s)
     else let s = s\<lparr>resource_bal := (resource_bal s)((p, x) \<mapsto> balance - cost)\<rparr>;
         spend = get_total_level_spend s;
         s = s\<lparr>level_spend := Some (saturating_add u64_max spend cost)\<rparr>;
         s = s\<lparr>ship_levels := (ship_levels s)(i \<mapsto> nxt)\<rparr>;
         s = publish [SS ''upgrade'', SS ''level''] [SA p, SU i, SU nxt, SU cost, SS x] s
     in (Ok \<lparr>lu_ship_id = i, lu_level = nxt, lu_cost = cost, lu_asset_id = x\<rparr>, s)) = (Ok r, s')"
    by (auto simp: upgrade_ship_level_def and_then_Ok[of "map_err _ (check_rate_limit _ _ _ _)"] map_err_Ok split: if_splits)
  from k2 obtain ship where ship: "ship_tbl t i = Some ship" by (auto simp: and_then_Ok map_err_Ok get_ship_def split: option.splits)
  then show ?thesis using k2 t k by (auto simp: get_ship_def Let_def ok_guard ok_lookup ok_result get_total_level_spend_def)
qed

lemma level_keeps:
  assumes ok: "upgrade_ship_level env p i x s = (Ok r, s')" and inv: "upgrade_inv s" "spends_ok s"
  shows "upgrade_inv s' \<and> (\<exists>b. sinks 0 b s s')"
proof -
  from level_Ok[OF ok] obtain t cost where c: "check_rate_limit env p ShipUpgrade s = (Ok (), t)" and f: "get_ship_level i t < MAX_LEVEL" "cost \<le> resource_balance p x t"
      "resource_bal s' = (resource_bal t)((p, x) \<mapsto> resource_balance p x t - cost)" "upgrade_spend s' = upgrade_spend t"
      "level_spend s' = Some (saturating_add u64_max (get_total_level_spend t) cost)" "upgrade_state s' = upgrade_state t"
      "ship_levels s' = (ship_levels t)(i \<mapsto> get_ship_level i t + 1)" by blast
  note fr = rate_limit_frame[OF c]
  have t: "upgrade_inv t" "spends_ok t" "sinks 0 0 s t" using fr inv by simp_all
  have "finite (dom (resource_bal t))" using t(2) by (simp add: spends_ok_def)
  from msum_upd[OF this, of "(p, x)" "resource_balance p x t - cost"] f(2)
  have "msum (resource_bal s') + cost = msum (resource_bal t)" unfolding f(3) by (simp add: resource_balance_def)
  then have "sinks 0 cost t s'"
    using t(2) f(3-5) by (simp add: sinks_def spends_ok_def get_total_upgrade_spend_def get_total_level_spend_def saturating_add_def)
  then have "sinks 0 cost s s'" using sinks_trans[OF t(3)] by fastforce
  moreover have "upgrade_inv s'" using t(1) f(1,6,7) by (simp add: upgrade_inv_def get_ship_level_def)
  ultimately show ?thesis by blast
qed

lemma upgrade_keeps:
  assumes ok: "apply_upgrade env p i c s = (Ok st, s')" and inv: "upgrade_inv s" "spends_ok s"
  shows "upgrade_inv s' \<and> (\<exists>a. sinks a 0 s s')"
proof -
  from apply_upgrade_Ok[OF ok] obtain t where t: "check_rate_limit env p ShipUpgrade s = (Ok (), t)" "apply_upgrade_inner p i c t = (Ok st, s')" by blast
  note fr = rate_limit_frame[OF t(1)]
  have "upgrade_inv t" "spends_ok t" "sinks 0 0 s t" using fr inv by simp_all
  then show ?thesis using inner_inv[OF t(2)] inner_sinks[OF t(2)] sinks_trans[of 0 0 s t] by fastforce
qed

lemma batch_keeps:
  assumes ok: "batch_upgrade env p i cs s = (Ok out, s')" and inv: "upgrade_inv s" "spends_ok s"
  shows "upgrade_inv s' \<and> (\<exists>a. sinks a 0 s s')"
proof -
  from batch_upgrade_Ok[OF ok] obtain t where t: "check_rate_limit env p ShipUpgrade s = (Ok (), t)" "batch_upgrade_loop p i cs [] t = (Ok out, s')" by blast
  note fr = rate_limit_frame[OF t(1)]
  have "upgrade_inv t" "spends_ok t" "sinks 0 0 s t" using fr inv by simp_all
  then show ?thesis using batch_loop_Ok[OF t(2)] sinks_trans[of 0 0 s t] by fastforce
qed

lemma upgrade_charges:
  assumes ok: "apply_upgrade env p i c t = (Ok st, u)" and inv: "upgrade_inv t"
  shows "\<exists>cost bs b. upgrade_config t = Some bs \<and> map_of bs c = Some b \<and> quote_upgrade_cost i c t = Ok cost \<and> auth env p \<and> get_ship_state i u = Some st \<and> st_module_count st = installed_modules i t + 1
    \<and> (\<forall>j. j \<noteq> i \<longrightarrow> get_ship_state j u = get_ship_state j t) \<and> resource_balance p (ub_asset_id b) u + cost = resource_balance p (ub_asset_id b) t"
proof -
  from apply_upgrade_Ok[OF ok] obtain w where a: "auth env p" and w: "check_rate_limit env p ShipUpgrade t = (Ok (), w)" "apply_upgrade_inner p i c w = (Ok st, u)" by blast
  note fr = rate_limit_frame[OF w(1)]
  from inner_Ok[OF w(2)] obtain cost bs b where cfg: "upgrade_config w = Some bs" "map_of bs c = Some b" and f: "quote_upgrade_cost i c w = Ok cost" "cost \<le> resource_balance p (ub_asset_id b) w"
      "resource_bal u = (resource_bal w)((p, ub_asset_id b) \<mapsto> resource_balance p (ub_asset_id b) w - cost)"
      "upgrade_state u = (upgrade_state w)(i \<mapsto> st)" "st = with_module i b (unwrap_or (upgrade_state w i) (bare_state i))" by blast
  have "installed_modules i t \<le> 5" using inv by (auto simp: upgrade_inv_def installed_modules_def split: option.splits)
  then have "st_module_count st = installed_modules i t + 1"
    unfolding f(5) by (simp add: fr with_module_def installed_modules_def bare_state_def saturating_add_def split: option.splits)
  moreover have "resource_balance p (ub_asset_id b) u + cost = resource_balance p (ub_asset_id b) t" using f(2,3) by (simp add: resource_balance_def fr)
  moreover have "quote_upgrade_cost i c t = Ok cost" using f(1) by (simp add: fr)
  moreover have "get_ship_state i u = Some st" "\<forall>j. j \<noteq> i \<longrightarrow> get_ship_state j u = get_ship_state j t" using f(4) by (simp_all add: get_ship_state_def fr)
  moreover have "upgrade_config t = Some bs" using cfg(1) by (simp add: fr)
  ultimately show ?thesis using a cfg(2) by (intro exI conjI)
qed

lemma level_charges:
  assumes ok: "upgrade_ship_level env p i x t = (Ok r, u)"
  shows "auth env p \<and> (\<exists>ship. ship_tbl t i = Some ship \<and> sh_owner ship = p) \<and> level_upgrade_cost i t = Ok (lu_cost r)
    \<and> get_ship_level i u = get_ship_level i t + 1 \<and> resource_balance p x u + lu_cost r = resource_balance p x t"
proof -
  from level_Ok[OF ok] obtain w ship cost where a: "auth env p" and w: "check_rate_limit env p ShipUpgrade t = (Ok (), w)"
      and f: "i \<noteq> 0" "ship_tbl w i = Some ship" "sh_owner ship = p" "get_ship_level i w < MAX_LEVEL"
      "level_cost (get_progression_curve w) (get_ship_level i w + 1) = Some cost" "cost \<le> resource_balance p x w"
      "resource_bal u = (resource_bal w)((p, x) \<mapsto> resource_balance p x w - cost)" "ship_levels u = (ship_levels w)(i \<mapsto> get_ship_level i w + 1)"
      "r = \<lparr>lu_ship_id = i, lu_level = get_ship_level i w + 1, lu_cost = cost, lu_asset_id = x\<rparr>" by blast
  note fr = rate_limit_frame[OF w]
  have v: "get_ship_level i w = get_ship_level i t" "get_progression_curve w = get_progression_curve t" "resource_balance p x w = resource_balance p x t"
    by (simp_all add: get_ship_level_def get_progression_curve_def resource_balance_def fr)
  have "level_upgrade_cost i t = Ok cost" using f(1,4,5) by (simp add: level_upgrade_cost_def Let_def v)
  moreover have "resource_balance p x u + cost = resource_balance p x t" using f(6,7) unfolding v by (simp add: resource_balance_def)
  moreover have "get_ship_level i u = get_ship_level i t + 1" using f(8) by (simp add: get_ship_level_def fr)
  moreover have "ship_tbl t i = Some ship" using f(2) by (simp add: fr)
  ultimately show ?thesis using a f(3) unfolding f(9) by auto
qed

lemma require_upgrade_Ok: "require_upgrade_admin env a s = (Ok u, s') \<longleftrightarrow> auth env a \<and> inst_admin s = Some a \<and> s' = s"
  by (auto simp: require_upgrade_admin_def ok_rules)

definition upgrade_view :: "'a upgrade_store_scheme \<Rightarrow> (u64 \<rightharpoonup> ShipState) \<times> (u64 \<rightharpoonup> u32) \<times> (address \<times> symbol \<rightharpoonup> u32) \<times> u32 option \<times> u64 option" where
  "upgrade_view s = (upgrade_state s, ship_levels s, resource_bal s, upgrade_spend s, level_spend s)"

lemma regen_keeps:
  assumes "apply_regen_upgrade env i n s = (Ok u, s')"
  shows "upgrade_view s' = upgrade_view s"
proof (cases "n = 0 \<or> upgrade_state s i = None")
  case True
  then show ?thesis using assms by (auto simp: apply_regen_upgrade_def ok_rules split: if_splits)
next
  case False
  then obtain st where "upgrade_state s i = Some st" "n \<noteq> 0" by blast
  then show ?thesis using assms by (auto simp: apply_regen_upgrade_def upgrade_view_def ok_rules Let_def fun_upd_idem)
qed

lemma config_keeps:
  assumes "init_upgrade_config env a bs s = (Ok u, s') \<or> set_upgrade_economy env a e s = (Ok u, s') \<or> set_progression_curve env a k s = (Ok u, s')
    \<or> apply_regen_upgrade env i n s = (Ok u, s')"
  shows "upgrade_view s' = upgrade_view s"
  using assms regen_keeps[of env i n s u s']
  by (elim disjE) (auto simp: init_upgrade_config_def set_upgrade_economy_def set_progression_curve_def and_then_Ok require_upgrade_Ok upgrade_view_def ok_rules)

lemma frame_keeps:
  assumes "upgrade_view s' = upgrade_view s" "upgrade_inv s" "spends_ok s"
  shows "upgrade_inv s' \<and> (\<exists>a b. sinks a b s s')"
proof -
  have "upgrade_inv s'" using assms(1,2) by (simp add: upgrade_inv_def get_ship_level_def upgrade_view_def)
  moreover have "sinks 0 0 s s'" using assms by (intro sinks_none) (simp_all add: upgrade_view_def)
  ultimately show ?thesis by blast
qed

lemma upgrade_step_keeps:
  assumes "upgrade_step env s s'" "upgrade_inv s" "spends_ok s"
  shows "upgrade_inv s' \<and> (\<exists>a b. sinks a b s s')"
  using assms
proof (induction rule: upgrade_step.induct)
  case (single env p i c s s')
  from single.hyps show ?case by (rule commitsE) (use upgrade_keeps single.prems in blast)
next
  case (batch env p i cs s s')
  from batch.hyps show ?case by (rule commitsE) (use batch_keeps batch.prems in blast)
next
  case (level env p i c s s')
  from level.hyps show ?case by (rule commitsE) (use level_keeps level.prems in blast)
qed (erule commitsE, rule frame_keeps[OF config_keeps], blast, assumption, assumption)+

lemma upgrade_step_inv: "upgrade_inv s \<and> spends_ok s \<Longrightarrow> \<exists>env. upgrade_step env s s' \<Longrightarrow> upgrade_inv s' \<and> spends_ok s'"
  using upgrade_step_keeps sinks_ok by metis

interpretation upgrading: step_system "\<lambda>s s'. \<exists>env. upgrade_step env s s'" "\<lambda>s. upgrade_inv s \<and> spends_ok s"
  by unfold_locales (rule upgrade_step_inv)

lemma upgrade_run_sinks:
  assumes "(\<lambda>s s'. \<exists>env. upgrade_step env s s')\<^sup>*\<^sup>* s t" "upgrade_inv s" "spends_ok s"
  shows "\<exists>a b. sinks a b s t"
  using assms(1)
proof (induction rule: rtranclp_induct)
  case base
  then show ?case using sinks_none[OF assms(3)] by blast
next
  case (step t u)
  have "upgrade_inv t \<and> spends_ok t" using upgrading.run_inv[OF step(1)] assms(2,3) by blast
  then show ?case using step(2,3) upgrade_step_keeps[of _ t u] sinks_trans[of _ _ s t] by blast
qed

section \<open>A store with a catalogue\<close>

definition shipyard :: upgrade_store where
  "shipyard = (stake_store.extend no_stakes
     \<lparr>upgrade_config = Some [(''gun'', \<lparr>ub_asset_id = ''gas'', ub_resource_cost = 20, ub_mass = 30, ub_scanner_bonus = 0, ub_hull_bonus = 5, ub_regen_bonus = 0\<rparr>)],
      upgrade_state = Map.empty, upgrade_economy = None, upgrade_spend = None, ship_levels = Map.empty, upgrade_progression = None, level_spend = None\<rparr>)\<lparr>rate_entry := Map.empty, rate_config := Map.empty\<rparr>"

lemma shipyard_simps: "upgrade_state shipyard = Map.empty" "upgrade_economy shipyard = None" "upgrade_spend shipyard = None" "ship_levels shipyard = Map.empty"
    "upgrade_progression shipyard = None" "level_spend shipyard = None" "resource_bal shipyard = [(Addr 2, ''gas'') \<mapsto> 100]" "rate_entry shipyard = Map.empty" "rate_config shipyard = Map.empty"
    "upgrade_config shipyard = Some [(''gun'', \<lparr>ub_asset_id = ''gas'', ub_resource_cost = 20, ub_mass = 30, ub_scanner_bonus = 0, ub_hull_bonus = 5, ub_regen_bonus = 0\<rparr>)]"
  by (simp_all add: shipyard_def stake_store.defs no_stakes_def alliance_store.defs no_alliances_simps)

lemma shipyard_inv: "upgrade_inv shipyard \<and> spends_ok shipyard"
  by (simp add: upgrade_inv_def spends_ok_def shipyard_simps get_ship_level_def get_total_upgrade_spend_def get_total_level_spend_def)

section \<open>Properties\<close>

text \<open>C26. Upgrades keep their limits and their books. After any run of upgrade operations no ship has more than five modules or a mass above 100, no
  level is above twenty, and the units that left all balances are what the two spending counters record (as long as those are below their
  ceilings). A successful module upgrade charges the quoted price, which never falls as modules are added, adds one module to that ship only, and a level
  is bought only by the ship's owner, at the price of the curve in force.\<close>

theorem upgrades_bounded_and_paid:
  fixes s t :: "'a upgrade_store_scheme"
  assumes "(\<lambda>s s'. \<exists>env. upgrade_step env s s')\<^sup>*\<^sup>* s t" and "upgrade_inv s" "spends_ok s"
  shows "(\<forall>i st. get_ship_state i t = Some st \<longrightarrow> st_module_count st \<le> 5 \<and> st_total_mass st \<le> 100) \<and> (\<forall>i. get_ship_level i t \<le> 20)
    \<and> (get_total_upgrade_spend t < u32_max \<and> get_total_level_spend t < u64_max \<longrightarrow>
        msum (resource_bal t) + get_total_upgrade_spend t + get_total_level_spend t = msum (resource_bal s) + get_total_upgrade_spend s + get_total_level_spend s)
    \<and> (apply_upgrade env p i c t = (Ok st, u) \<longrightarrow> (\<exists>cost bs b. upgrade_config t = Some bs \<and> map_of bs c = Some b \<and> quote_upgrade_cost i c t = Ok cost \<and> auth env p
        \<and> get_ship_state i u = Some st \<and> st_module_count st = installed_modules i t + 1 \<and> (\<forall>j. j \<noteq> i \<longrightarrow> get_ship_state j u = get_ship_state j t)
        \<and> resource_balance p (ub_asset_id b) u + cost = resource_balance p (ub_asset_id b) t))
    \<and> (upgrade_ship_level env p i x t = (Ok r, u) \<longrightarrow> auth env p \<and> (\<exists>ship. ship_tbl t i = Some ship \<and> sh_owner ship = p)
        \<and> level_upgrade_cost i t = Ok (lu_cost r) \<and> get_ship_level i u = get_ship_level i t + 1
        \<and> resource_balance p x u + lu_cost r = resource_balance p x t)
    \<and> (base \<le> u32_max \<and> ceiling \<le> u32_max \<and> n \<le> k \<longrightarrow> scaled_upgrade_cost base n growth ceiling \<le> scaled_upgrade_cost base k growth ceiling)"
proof (intro conjI impI allI; (elim conjE)?)
  have inv: "upgrade_inv t" "spends_ok t" using upgrading.run_inv[OF assms(1)] assms(2,3) by blast+
  show "base \<le> u32_max \<Longrightarrow> ceiling \<le> u32_max \<Longrightarrow> n \<le> k \<Longrightarrow> scaled_upgrade_cost base n growth ceiling \<le> scaled_upgrade_cost base k growth ceiling"
    by (rule scaled_mono)
  show "get_ship_level i t \<le> 20" for i using inv(1) by (simp add: upgrade_inv_def)
  show "st_module_count st \<le> 5" "st_total_mass st \<le> 100" if "get_ship_state i t = Some st" for i st
    using inv(1) that by (simp_all add: upgrade_inv_def get_ship_state_def)
  obtain a b where ab: "sinks a b s t" using upgrade_run_sinks[OF assms] by blast
  show "msum (resource_bal t) + get_total_upgrade_spend t + get_total_level_spend t = msum (resource_bal s) + get_total_upgrade_spend s + get_total_level_spend s"
    if "get_total_upgrade_spend t < u32_max" "get_total_level_spend t < u64_max"
    using ab that unfolding sinks_def by linarith
  show "\<exists>cost bs b. upgrade_config t = Some bs \<and> map_of bs c = Some b \<and> quote_upgrade_cost i c t = Ok cost \<and> auth env p \<and> get_ship_state i u = Some st \<and> st_module_count st = installed_modules i t + 1
      \<and> (\<forall>j. j \<noteq> i \<longrightarrow> get_ship_state j u = get_ship_state j t) \<and> resource_balance p (ub_asset_id b) u + cost = resource_balance p (ub_asset_id b) t"
    if "apply_upgrade env p i c t = (Ok st, u)" by (rule upgrade_charges[OF that inv(1)])
  assume "upgrade_ship_level env p i x t = (Ok r, u)"
  from level_charges[OF this] show "auth env p" "\<exists>ship. ship_tbl t i = Some ship \<and> sh_owner ship = p" "level_upgrade_cost i t = Ok (lu_cost r)"
    "get_ship_level i u = get_ship_level i t + 1" "resource_balance p x u + lu_cost r = resource_balance p x t" by simp_all
qed

theorem upgrades_bounded_and_paid_witness:
  "\<exists>t. apply_upgrade (signed_at 5 7) (Addr 2) 3 ''gun'' shipyard = (Ok \<lparr>st_ship_id = 3, st_module_count = 1, st_total_mass = 30, st_scanner_bonus = 0, st_hull_bonus = 5, st_regen_bonus = 0\<rparr>, t)
    \<and> msum (resource_bal t) + get_total_upgrade_spend t + get_total_level_spend t = 100"
proof -
  let ?t = "snd (apply_upgrade (signed_at 5 7) (Addr 2) 3 ''gun'' shipyard)"
  have ok: "apply_upgrade (signed_at 5 7) (Addr 2) 3 ''gun'' shipyard =
      (Ok \<lparr>st_ship_id = 3, st_module_count = 1, st_total_mass = 30, st_scanner_bonus = 0, st_hull_bonus = 5, st_regen_bonus = 0\<rparr>, ?t)" and sp: "get_total_upgrade_spend ?t = 20" "get_total_level_spend ?t = 0"
    by (simp_all add: apply_upgrade_def check_rate_limit_def default_ship_upgrade_def apply_upgrade_inner_def shipyard_simps get_upgrade_economy_def default_economy_def installed_modules_def
        scaled_upgrade_cost_def saturating_add_def to_u32_or_max_def resource_balance_def bare_state_def with_module_def validate_invariants_def
        get_total_upgrade_spend_def get_total_level_spend_def checked_add_def Let_def)
  have run: "(\<lambda>s s'. \<exists>env. upgrade_step env s s')\<^sup>*\<^sup>* shipyard ?t"
    using upgrade_step.single commitsI[where f = "apply_upgrade (signed_at 5 7) (Addr 2) 3 ''gun''", OF ok] by blast
  have z: "msum (resource_bal shipyard) = 100" "get_total_upgrade_spend shipyard = 0" "get_total_level_spend shipyard = 0"
    by (simp_all add: shipyard_simps msum_def get_total_upgrade_spend_def get_total_level_spend_def)
  note books = upgrades_bounded_and_paid[OF run, THEN conjunct2, THEN conjunct2, THEN conjunct1, OF shipyard_inv[THEN conjunct1] shipyard_inv[THEN conjunct2]]
  have "msum (resource_bal ?t) + get_total_upgrade_spend ?t + get_total_level_spend ?t = 100" using books sp z by simp
  then show ?thesis using ok by blast
qed

end
