(* ===== verification/Apy_Calculator.thy ===== *)
theory Apy_Calculator
  imports Newton_Sqrt
begin

text \<open>
  \<open>src/economics/apy_calculator.rs\<close>: the yield arithmetic shared by staking and farming. No storage; \<open>None\<close> is the result of a
  checked operation that overflows, or a trap where the code uses a plain operator (the text says which).
\<close>

section \<open>Model\<close>

abbreviation APY_BPS_DENOMINATOR :: nat where "APY_BPS_DENOMINATOR \<equiv> 10000"
abbreviation SECONDS_PER_DAY :: u64 where "SECONDS_PER_DAY \<equiv> 86400"
abbreviation SECONDS_PER_YEAR :: u64 where "SECONDS_PER_YEAR \<equiv> 31536000"
abbreviation APY_7_DAYS_BPS :: u32 where "APY_7_DAYS_BPS \<equiv> 500"
abbreviation APY_30_DAYS_BPS :: u32 where "APY_30_DAYS_BPS \<equiv> 1500"
abbreviation APY_90_DAYS_BPS :: u32 where "APY_90_DAYS_BPS \<equiv> 3500"
abbreviation EMERGENCY_PENALTY_BPS :: int where "EMERGENCY_PENALTY_BPS \<equiv> 5000"
abbreviation NFT_BASE_DAILY_YIELD :: i128 where "NFT_BASE_DAILY_YIELD \<equiv> 10"
abbreviation IL_PROTECTION_FULL_SECS :: u64 where "IL_PROTECTION_FULL_SECS \<equiv> 7776000"
abbreviation TVL_APY_FLOOR_BPS :: int where "TVL_APY_FLOOR_BPS \<equiv> 2000"
abbreviation u128_max :: nat where "u128_max \<equiv> 340282366920938463463374607431768211455"

datatype LockTier = Days7 | Days30 | Days90

fun tier_days :: "LockTier \<Rightarrow> u64" where
  "tier_days Days7 = 7"
| "tier_days Days30 = 30"
| "tier_days Days90 = 90"

definition duration_secs :: "LockTier \<Rightarrow> u64" where
  "duration_secs tier = tier_days tier * SECONDS_PER_DAY"

fun tier_apy_bps :: "LockTier \<Rightarrow> u32" where
  "tier_apy_bps Days7 = APY_7_DAYS_BPS"
| "tier_apy_bps Days30 = APY_30_DAYS_BPS"
| "tier_apy_bps Days90 = APY_90_DAYS_BPS"

definition all_tiers :: "LockTier list" where
  "all_tiers = [Days7, Days30, Days90]"

definition tier_for_days :: "u64 \<Rightarrow> LockTier option" where
  "tier_for_days days = (if days = 7 then Some Days7 else if days = 30 then Some Days30 else if days = 90 then Some Days90 else None)"

definition simple_yield :: "i128 \<Rightarrow> u32 \<Rightarrow> u64 \<Rightarrow> i128 option" where
  "simple_yield prin apy_bps elapsed_secs =
    (if prin < 0 then None
     else Option.bind (ck (int APY_BPS_DENOMINATOR * int SECONDS_PER_YEAR)) (\<lambda>denominator.
          Option.bind (ck (prin * int apy_bps)) (\<lambda>a.
          Option.bind (ck (a * int elapsed_secs)) (\<lambda>b. tdiv b denominator))))"

text \<open>\<open>TimeProvider::elapsed_since\<close> of the ledger's clock.\<close>

definition elapsed_since :: "env \<Rightarrow> u64 \<Rightarrow> u64" where
  "elapsed_since env since = saturating_sub (timestamp env) since"

definition accrued_yield :: "env \<Rightarrow> i128 \<Rightarrow> u32 \<Rightarrow> u64 \<Rightarrow> u64 \<Rightarrow> i128 option" where
  "accrued_yield env prin apy_bps opened_at max_secs = (let elapsed = min (elapsed_since env opened_at) max_secs in simple_yield prin apy_bps elapsed)"

definition u32_of :: "int \<Rightarrow> u32 option" where
  "u32_of x = (if 0 \<le> x \<and> x \<le> int u32_max then Some (nat x) else None)"

definition tvl_adjusted_apy_bps :: "u32 \<Rightarrow> i128 \<Rightarrow> i128 \<Rightarrow> u32" where
  "tvl_adjusted_apy_bps base_apy_bps tvl target_tvl =
    (if target_tvl \<le> 0 \<or> tvl \<le> target_tvl then base_apy_bps
     else let scaled = unwrap_or (tdiv (sat (int base_apy_bps * target_tvl)) tvl) 0;
         floor = unwrap_or (tdiv (sat (int base_apy_bps * TVL_APY_FLOOR_BPS)) (int APY_BPS_DENOMINATOR)) 0;
         bounded = min (max scaled floor) (int base_apy_bps)
     in unwrap_or (u32_of bounded) base_apy_bps)"

definition nft_daily_yield :: "u32 \<Rightarrow> u32 \<Rightarrow> i128" where
  "nft_daily_yield level rarity_bps = sat (sat (NFT_BASE_DAILY_YIELD * int level) * int rarity_bps) sdiv int APY_BPS_DENOMINATOR"

definition nft_accrued_yield :: "u32 \<Rightarrow> u32 \<Rightarrow> u64 \<Rightarrow> i128 option" where
  "nft_accrued_yield level rarity_bps elapsed_secs =
    Option.bind (ck (nft_daily_yield level rarity_bps * int elapsed_secs)) (\<lambda>a. tdiv a (int SECONDS_PER_DAY))"

text \<open>The plain additions of the rounding trap at the top of the range (\<open>None\<close>).\<close>

definition emergency_withdrawal :: "i128 \<Rightarrow> (i128 \<times> i128) option" where
  "emergency_withdrawal prin =
    (if prin \<le> 0 then Some (0, 0)
     else let numerator = sat (prin * EMERGENCY_PENALTY_BPS); denominator = int APY_BPS_DENOMINATOR in
     Option.bind (ck (numerator + denominator)) (\<lambda>a. Option.bind (ck (a - 1)) (\<lambda>b.
     let penalty = b sdiv denominator in map_option (\<lambda>r. (r, penalty)) (ck (prin - penalty)))))"

definition pro_rata_share :: "i128 \<Rightarrow> i128 \<Rightarrow> i128 \<Rightarrow> i128" where
  "pro_rata_share tot part whole = (if whole \<le> 0 \<or> part \<le> 0 \<or> tot \<le> 0 then 0 else sat (tot * part) sdiv whole)"

definition isqrt :: "nat \<Rightarrow> nat option" where
  "isqrt n = (if n < 2 then Some n else newton_loop u128_max n n (n div 2 + n mod 2))"

text \<open>The products are in \<open>u128\<close>; \<open>u64\<close> inputs keep them in range, so only the root can fail.\<close>

definition impermanent_loss_bps :: "u64 \<Rightarrow> u32 option" where
  "impermanent_loss_bps price_ratio_bps =
    (if price_ratio_bps = 0 then Some APY_BPS_DENOMINATOR
     else let bps = APY_BPS_DENOMINATOR; r = price_ratio_bps in
     Option.bind (checked_mul u128_max r bps) (\<lambda>rb.
     Option.bind (isqrt rb) (\<lambda>sqrt_r.
     Option.bind (checked_add u128_max bps r) (\<lambda>held.
     Option.bind (checked_mul u128_max 2 sqrt_r) (\<lambda>a.
     Option.bind (checked_mul u128_max a bps) (\<lambda>b.
     let lp = b div held in Some (unwrap_or (u32_of (int (saturating_sub bps lp))) APY_BPS_DENOMINATOR)))))))"

definition il_protection_bps :: "u64 \<Rightarrow> u32" where
  "il_protection_bps elapsed_secs =
    (if elapsed_secs \<ge> IL_PROTECTION_FULL_SECS then APY_BPS_DENOMINATOR
     else let scaled = elapsed_secs * APY_BPS_DENOMINATOR div IL_PROTECTION_FULL_SECS in unwrap_or (u32_of (int scaled)) APY_BPS_DENOMINATOR)"

definition unprotected_il_bps :: "u64 \<Rightarrow> u64 \<Rightarrow> u32 option" where
  "unprotected_il_bps price_ratio_bps elapsed_secs =
    Option.bind (impermanent_loss_bps price_ratio_bps) (\<lambda>il.
    Option.bind (checked_sub APY_BPS_DENOMINATOR (il_protection_bps elapsed_secs)) (\<lambda>uncovered.
    Option.bind (checked_mul u64_max il uncovered) (\<lambda>a. Some (unwrap_or (u32_of (int (a div APY_BPS_DENOMINATOR))) APY_BPS_DENOMINATOR))))"

section \<open>Square root and impermanent loss\<close>

lemma isqrt_floor:
  assumes "n \<le> u128_max"
  shows "\<exists>q. isqrt n = Some q \<and> q * q \<le> n \<and> n < Suc q * Suc q"
proof (cases "n < 2")
  case True
  then show ?thesis by (cases n) (auto simp: isqrt_def)
next
  case False
  let ?s = "n div 2 + n mod 2"
  have s: "0 < ?s" "?s < n" "?s \<le> n div 2 + 1" "n \<le> 2 * ?s" using False by presburger+
  have "n < Suc ?s * Suc ?s"
  proof -
    have "n < 2 * Suc ?s" using s(4) unfolding mult_Suc_right by simp
    also have "\<dots> \<le> Suc ?s * Suc ?s" using s(1) by (intro mult_le_mono1) linarith
    finally show ?thesis .
  qed
  moreover have "n < Suc n * Suc n" by simp
  ultimately have "\<exists>q. newton_loop u128_max n n ?s = Some q \<and> q * q \<le> n \<and> n < Suc q * Suc q"
    using assms False s by (intro newton_loop_correct) auto
  then show ?thesis using False by (simp add: isqrt_def)
qed

lemma loss_eval:
  assumes "0 < r" "r \<le> u64_max"
  shows "\<exists>q. q * q \<le> r * 10000 \<and> r * 10000 < Suc q * Suc q \<and> impermanent_loss_bps r = Some (10000 - 2 * q * 10000 div (10000 + r))"
proof -
  have r: "r * 10000 \<le> u128_max" using assms(2) by simp
  obtain q where q: "isqrt (r * 10000) = Some q" "q * q \<le> r * 10000" "r * 10000 < Suc q * Suc q" using isqrt_floor[OF r] by blast
  have "q \<le> r * 10000" using q(2) le_trans[OF le_square] by blast
  then have b: "2 * q * 10000 \<le> u128_max" "2 * q \<le> u128_max" "10000 + r \<le> u128_max" using assms(2) by simp_all
  have "impermanent_loss_bps r = Some (unwrap_or (u32_of (int (10000 - 2 * q * 10000 div (10000 + r)))) 10000)"
    using assms(1) r q(1) b by (simp add: impermanent_loss_bps_def checked_mul_def checked_add_def saturating_sub_def Let_def)
  moreover have "u32_of (int (10000 - 2 * q * 10000 div (10000 + r))) = Some (10000 - 2 * q * 10000 div (10000 + r))" by (simp add: u32_of_def)
  ultimately show ?thesis using q by auto
qed

lemma loss_le: "r \<le> u64_max \<Longrightarrow> \<exists>il. impermanent_loss_bps r = Some il \<and> il \<le> 10000"
  using loss_eval[of r] by (cases "r = 0") (auto simp: impermanent_loss_bps_def)

lemma loss_unchanged: "impermanent_loss_bps 10000 = Some 0"
proof -
  obtain q where q: "q * q \<le> (10000::nat) * 10000" "10000 * 10000 < Suc q * Suc q" "impermanent_loss_bps 10000 = Some (10000 - 2 * q * 10000 div (10000 + 10000))"
    using loss_eval[of 10000] by auto
  have "q \<le> 10000" using q(1) power2_nat_le_eq_le[of q 10000] by (simp add: power2_eq_square)
  moreover have "10000 < Suc q" using q(2) power2_nat_le_eq_le[of "Suc q" 10000] by (auto simp: power2_eq_square simp flip: not_le)
  ultimately have "q = 10000" by simp
  with q(3) show ?thesis by simp
qed

lemma protection_le: "il_protection_bps e \<le> 10000"
proof (cases "e \<ge> 7776000")
  case False
  then have "e * 10000 div 7776000 \<le> 10000" using div_le_mono[of "e * 10000" "7776000 * 10000" 7776000] by simp
  with False show ?thesis by (simp add: il_protection_bps_def u32_of_def Let_def)
qed (simp add: il_protection_bps_def)

lemma unprotected_eval:
  assumes "impermanent_loss_bps r = Some il" "il \<le> 10000"
  shows "unprotected_il_bps r e = Some (il * (10000 - il_protection_bps e) div 10000)"
proof -
  have "il * (10000 - il_protection_bps e) \<le> 10000 * 10000" using assms(2) by (intro mult_le_mono) auto
  moreover then have "il * (10000 - il_protection_bps e) div 10000 \<le> 10000" using div_le_mono[of _ "10000 * 10000" 10000] by simp
  ultimately show ?thesis using assms(1) protection_le[of e]
    by (simp add: unprotected_il_bps_def checked_sub_def checked_mul_def u32_of_def)
qed

lemma tvl_bounds:
  assumes "0 < target" "target < tvl" "in_i128 (int base * target)" "base \<le> u32_max" "in_i128 tvl"
  shows "tvl_adjusted_apy_bps base tvl target = max (nat (int base * target div tvl)) (base div 5)"
proof -
  let ?s = "int base * target div tvl" and ?f = "int base * 2000 div 10000"
  have s0: "0 \<le> int base * target" using assms(1) by simp
  have "int base * target \<le> int base * tvl" using assms(1,2) by (intro mult_left_mono) auto
  then have sb: "0 \<le> ?s" "?s \<le> int base" using s0 assms(1,2) zdiv_mono1[of "int base * target" "int base * tvl" tvl] by (auto simp: pos_imp_zdiv_nonneg_iff)
  have f: "?f = int (base div 5)" using zdiv_zmult2_eq[of 5 "int base" 1] div_mult_mult2[of "2000::int" "int base" 5] by (simp add: zdiv_int)
  have "unwrap_or (tdiv (sat (int base * target)) tvl) 0 = ?s" using s0 assms by (simp add: sat_id tdiv_nonneg)
  moreover have "in_i128 (int base * 2000)" using assms(4) by (simp add: in_i128_def)
  then have "unwrap_or (tdiv (sat (int base * 2000)) 10000) 0 = ?f" by (simp add: sat_id tdiv_nonneg)
  moreover have "min (max ?s ?f) (int base) = max ?s ?f" using sb f by simp
  moreover have "u32_of (max ?s ?f) = Some (nat (max ?s ?f))" using sb f assms(4) le_trans[OF div_le_dividend[of base 5]] by (simp add: u32_of_def max_def)
  ultimately have "tvl_adjusted_apy_bps base tvl target = nat (max ?s ?f)" using assms(1,2) by (simp add: tvl_adjusted_apy_bps_def Let_def)
  then show ?thesis using sb f by (simp add: max_def)
qed

lemma emergency_eval:
  assumes "0 \<le> p" "p \<le> int u32_max"
  shows "emergency_withdrawal p = Some (p div 2, p - p div 2)"
proof (cases "p = 0")
  case False
  have "sat (p * 5000) = p * 5000" using assms by (intro sat_id) (simp add: in_i128_def)
  moreover have "(p * 5000 + 10000 - 1) sdiv 10000 = (p * 5000 + 9999) div 10000" using assms by (simp add: sdiv_nonneg)
  moreover have "(p * 5000 + 9999) div 10000 = p - p div 2" by linarith
  ultimately show ?thesis using False assms by (auto simp: emergency_withdrawal_def ck_def in_i128_def Let_def)
qed (simp add: emergency_withdrawal_def)

section \<open>Properties\<close>

text \<open>Impermanent loss. For every \<open>u64\<close> price ratio the loss is computed without a trap, from the exact floor of the square root, and lies
  between 0 and 10000 basis points, 0 at an unchanged ratio; what protection leaves uncovered is never more than the loss, all of it at
  deposit and nothing after ninety days.\<close>

lemma impermanent_loss_bounds:
  assumes "r \<le> u64_max"
  shows "\<exists>il un. impermanent_loss_bps r = Some il \<and> il \<le> 10000 \<and> unprotected_il_bps r e = Some un \<and> un \<le> il
    \<and> (0 < r \<longrightarrow> (\<exists>q. q * q \<le> r * 10000 \<and> r * 10000 < (q + 1) * (q + 1) \<and> il = 10000 - 2 * q * 10000 div (10000 + r)))
    \<and> (r = 10000 \<longrightarrow> il = 0) \<and> (e = 0 \<longrightarrow> un = il) \<and> (90 * 86400 \<le> e \<longrightarrow> un = 0)"
proof -
  obtain il where il: "impermanent_loss_bps r = Some il" "il \<le> 10000" using loss_le[OF assms] by blast
  let ?un = "il * (10000 - il_protection_bps e) div 10000"
  have un: "unprotected_il_bps r e = Some ?un" using unprotected_eval[OF il] .
  have "il * (10000 - il_protection_bps e) \<le> il * 10000" by (intro mult_le_mono) auto
  then have le: "?un \<le> il" using div_le_mono[of _ "il * 10000" 10000] by fastforce
  have "e = 0 \<longrightarrow> il_protection_bps e = 0" "90 * 86400 \<le> e \<longrightarrow> il_protection_bps e = 10000" by (auto simp: il_protection_bps_def u32_of_def)
  then have ends: "e = 0 \<longrightarrow> ?un = il" "90 * 86400 \<le> e \<longrightarrow> ?un = 0" by auto
  show ?thesis using il un le ends loss_eval[of r] assms loss_unchanged by (intro exI[of _ il] exI[of _ ?un]) auto
qed

lemma impermanent_loss_bounds_example: "\<exists>il un. impermanent_loss_bps 10000 = Some il \<and> unprotected_il_bps 10000 0 = Some un \<and> il = 0 \<and> un = 0"
  using impermanent_loss_bounds[of 10000 0] by auto

text \<open>Leaving early. The emergency split of a stake that fits a balance returns the smaller half: the two parts add up to the principal and
  the penalty is half of it, rounded up.\<close>

lemma emergency_split:
  assumes "0 \<le> p" "p \<le> int u32_max"
  shows "\<exists>r pen. emergency_withdrawal p = Some (r, pen) \<and> r + pen = p \<and> r = p div 2 \<and> r \<le> pen \<and> pen \<le> r + 1"
  using emergency_eval[OF assms] by auto

lemma emergency_split_example: "\<exists>r pen. emergency_withdrawal 101 = Some (r, pen) \<and> r = 50 \<and> pen \<le> 51"
  using emergency_split[of 101] by auto

end
