(* ===== verification/Yield_Farming.thy ===== *)
theory Yield_Farming
  imports Ship_Upgrade Apy_Calculator
begin

text \<open>
  \<open>src/yield_farming.rs\<close>: the two generations of farm pools, and the staking products: resources locked for a tier, ships, and liquidity shares. Yield is
  paid in harvested units from a reserve per asset. Farm pools of both generations are stored under a bare \<open>u64\<close>, the second at \<open>id + 100000\<close>,
  so the model has one map for both; reading an entry of the other generation traps. Staked ships are in the field \<open>nft_stake\<close> of the ship
  registry, liquidity shares in the field \<open>lp_balance\<close> of the pools of \<open>trading.rs\<close>.
\<close>

section \<open>Model\<close>

datatype FarmError = LockNotMet | InsufficientBalance | InvalidPool | WhaleCapExceeded | ArithmeticOverflow | PoolNotActive | RewardNotReady | YieldReserveEmpty
  | NotOwner | AlreadyStaked | NotStaked | InvalidTier

datatype RewardSchedule = Linear | Accelerated | Stepwise "u64 list"

record FarmPoolV2 =
  fv_id :: u64
  fv_owner :: address
  fv_amount :: i128
  fv_lock_period :: u32
  fv_start_time :: u64
  fv_last_harvest :: u64
  fv_apy_bps :: u32
  fv_reward_schedule :: RewardSchedule
  fv_compound_enabled :: bool
  fv_penalty_bps :: u32

record FarmPool =
  fp_id :: u64
  fp_owner :: address
  fp_amount :: i128
  fp_lock_period :: u32
  fp_start_time :: u64
  fp_last_harvest :: u64

datatype farm_slot = SlotV1 FarmPool | SlotV2 FarmPoolV2

record YieldFarmStats =
  fs_total_value_locked :: i128
  fs_active_pools :: u32
  fs_total_rewards_distributed :: i128
  fs_average_apy_bps :: u32

abbreviation BASE_APY_BPS :: int where "BASE_APY_BPS \<equiv> 1500"
abbreviation WHALE_CAP :: int where "WHALE_CAP \<equiv> 1000000000000"
abbreviation FARM_BPS_DENOMINATOR :: int where "FARM_BPS_DENOMINATOR \<equiv> 10000"
abbreviation V2_OFFSET :: nat where "V2_OFFSET \<equiv> 100000"
abbreviation DEFAULT_TVL_TARGET :: int where "DEFAULT_TVL_TARGET \<equiv> 10000000"
abbreviation IL_POT_SHARE_BPS :: int where "IL_POT_SHARE_BPS \<equiv> 2000"
abbreviation RARITY_FIGHTER_BPS :: u32 where "RARITY_FIGHTER_BPS \<equiv> 10000"
abbreviation RARITY_EXPLORER_BPS :: u32 where "RARITY_EXPLORER_BPS \<equiv> 11000"
abbreviation RARITY_HAULER_BPS :: u32 where "RARITY_HAULER_BPS \<equiv> 12000"

record ResourceStake =
  rs_id :: u64
  rs_owner :: address
  rs_asset_id :: symbol
  rs_amount :: i128
  rs_tier :: LockTier
  rs_apy_bps :: u32
  rs_staked_at :: u64
  rs_unlock_at :: u64
  rs_yield_claimed :: i128

record LpStake =
  ls_owner :: address
  ls_pool_id :: u64
  ls_amount :: i128
  ls_staked_at :: u64
  ls_entry_ratio_bps :: u64
  ls_reward_debt :: i128

record LpPoolState =
  lps_total_staked :: i128
  lps_acc_reward_per_share :: i128
  lps_reward_asset :: symbol
  lps_il_pot :: i128

record EmergencyWithdrawal =
  ew_returned :: i128
  ew_penalty :: i128
  ew_yield_forfeited :: i128

record TvlReport =
  tr_resource_units :: i128
  tr_ships_staked :: u32
  tr_total_yield_paid :: i128

record farm_store = upgrade_store +
  next_pid :: "u64 option"
  farm_slots :: "u64 \<rightharpoonup> farm_slot"
  total_locked :: "i128 option"
  next_stake_id :: "u64 option"
  resource_stakes :: "u64 \<rightharpoonup> ResourceStake"
  lp_stakes :: "u64 \<times> address \<rightharpoonup> LpStake"
  lp_pools :: "u64 \<rightharpoonup> LpPoolState"
  tvl :: "symbol \<rightharpoonup> i128"
  tvl_total :: "i128 option"
  nft_count :: "u32 option"
  yield_reserve :: "symbol \<rightharpoonup> i128"
  total_yield_paid :: "i128 option"
  nft_yield_asset :: "symbol option"
  tvl_target :: "i128 option"

subsection \<open>Farm pools\<close>

definition calculate_farm_reward :: "i128 \<Rightarrow> u64 \<Rightarrow> i128 \<Rightarrow> i128 option" where
  "calculate_farm_reward amount elapsed apy_bps =
    Option.bind (ck (amount * apy_bps)) (\<lambda>a. Option.bind (ck (a * int elapsed)) (\<lambda>b.
    Option.bind (ck (FARM_BPS_DENOMINATOR * int SECONDS_PER_YEAR)) (\<lambda>d. tdiv b d)))"

definition deposit_to_pool :: "env \<Rightarrow> address \<Rightarrow> i128 \<Rightarrow> u32 \<Rightarrow> 'a farm_store_scheme \<Rightarrow> (FarmError, u64) outcome \<times> 'a farm_store_scheme" where
  "deposit_to_pool env owner amount lock_period s =
    (if \<not> auth env owner then (Panic, s)
     else if amount > WHALE_CAP then (Err WhaleCapExceeded, s)
     else let pool_id = unwrap_or (next_pid s) 0;
         pool = \<lparr>fp_id = pool_id, fp_owner = owner, fp_amount = amount, fp_lock_period = lock_period, fp_start_time = timestamp env, fp_last_harvest = timestamp env\<rparr>;
         s = s\<lparr>farm_slots := (farm_slots s)(pool_id \<mapsto> SlotV1 pool)\<rparr> in
     case checked_add u64_max pool_id 1 of
       None \<Rightarrow> (Err ArithmeticOverflow, s)
     | Some next_id \<Rightarrow>
     let s = s\<lparr>next_pid := Some next_id\<rparr>
     in (Ok pool_id, publish [SS ''farm'', SS ''deposit''] [SA owner, SI amount, SU lock_period, SU pool_id] s))"

definition penalty_for_lock :: "u32 \<Rightarrow> u32" where
  "penalty_for_lock lock_period = (if lock_period < 1000 then 2000 else if lock_period < 3000 then 1000 else 0)"

definition deposit_to_pool_v2 :: "env \<Rightarrow> address \<Rightarrow> i128 \<Rightarrow> u32 \<Rightarrow> u32 \<Rightarrow> RewardSchedule \<Rightarrow> bool \<Rightarrow> 'a farm_store_scheme \<Rightarrow> (FarmError, u64) outcome \<times> 'a farm_store_scheme" where
  "deposit_to_pool_v2 env owner amount lock_period apy_bps reward_schedule compound_enabled s =
    (if \<not> auth env owner then (Panic, s)
     else if amount > WHALE_CAP then (Err WhaleCapExceeded, s)
     else let pool_id = unwrap_or (next_pid s) 0;
         penalty_bps = penalty_for_lock lock_period;
         pool = \<lparr>fv_id = pool_id, fv_owner = owner, fv_amount = amount, fv_lock_period = lock_period, fv_start_time = timestamp env, fv_last_harvest = timestamp env,
           fv_apy_bps = apy_bps, fv_reward_schedule = reward_schedule, fv_compound_enabled = compound_enabled, fv_penalty_bps = penalty_bps\<rparr> in
     case checked_add u64_max pool_id V2_OFFSET of
       None \<Rightarrow> (Panic, s)
     | Some key \<Rightarrow>
     let s = s\<lparr>farm_slots := (farm_slots s)(key \<mapsto> SlotV2 pool)\<rparr> in
     case checked_add u64_max pool_id 1 of
       None \<Rightarrow> (Err ArithmeticOverflow, s)
     | Some next_id \<Rightarrow>
     let s = s\<lparr>next_pid := Some next_id\<rparr>
     in (Ok pool_id, publish [SS ''farm'', SS ''v2_dep''] [SA owner, SI amount, SU lock_period, SU apy_bps, SB compound_enabled] s))"

definition load_pool :: "u64 \<Rightarrow> 'a farm_store_scheme \<Rightarrow> (FarmError, FarmPool) outcome" where
  "load_pool key s = (case farm_slots s key of None \<Rightarrow> Err InvalidPool | Some (SlotV1 pool) \<Rightarrow> Ok pool | Some (SlotV2 _) \<Rightarrow> Panic)"

definition load_pool_v2 :: "u64 \<Rightarrow> 'a farm_store_scheme \<Rightarrow> (FarmError, FarmPoolV2) outcome" where
  "load_pool_v2 key s = (case farm_slots s key of None \<Rightarrow> Err InvalidPool | Some (SlotV2 pool) \<Rightarrow> Ok pool | Some (SlotV1 _) \<Rightarrow> Panic)"

definition harvest_farm_rewards :: "env \<Rightarrow> address \<Rightarrow> u64 \<Rightarrow> 'a farm_store_scheme \<Rightarrow> (FarmError, i128) outcome \<times> 'a farm_store_scheme" where
  "harvest_farm_rewards env owner pool_id s =
    (if \<not> auth env owner then (Panic, s)
     else and_then (load_pool pool_id s, s) (\<lambda>pool s.
     if fp_owner pool \<noteq> owner then (Err InvalidPool, s)
     else let now = timestamp env; elapsed = saturating_sub now (fp_last_harvest pool) in
     if elapsed = 0 then (Ok 0, s)
     else case calculate_farm_reward (fp_amount pool) elapsed BASE_APY_BPS of
       None \<Rightarrow> (Err ArithmeticOverflow, s)
     | Some reward \<Rightarrow>
     let s = s\<lparr>farm_slots := (farm_slots s)(pool_id \<mapsto> SlotV1 (pool\<lparr>fp_last_harvest := now\<rparr>))\<rparr>
     in (Ok reward, publish [SS ''farm'', SS ''harvest''] [SA owner, SI reward, SU pool_id] s)))"

fun stepwise_reward :: "u64 list \<Rightarrow> u64 \<Rightarrow> i128 \<Rightarrow> i128" where
  "stepwise_reward [] total_elapsed reward = reward"
| "stepwise_reward (t # thresholds) total_elapsed reward =
    stepwise_reward thresholds total_elapsed (if total_elapsed \<ge> t then sat (reward * 12) sdiv 10 else reward)"

fun scheduled_reward :: "RewardSchedule \<Rightarrow> u64 \<Rightarrow> i128 \<Rightarrow> i128" where
  "scheduled_reward Accelerated total_elapsed reward = sat (reward * 15) sdiv 10"
| "scheduled_reward (Stepwise thresholds) total_elapsed reward = stepwise_reward thresholds total_elapsed reward"
| "scheduled_reward Linear total_elapsed reward = reward"

definition harvest_v2_rewards :: "env \<Rightarrow> address \<Rightarrow> u64 \<Rightarrow> 'a farm_store_scheme \<Rightarrow> (FarmError, i128) outcome \<times> 'a farm_store_scheme" where
  "harvest_v2_rewards env owner pool_id s =
    (if \<not> auth env owner then (Panic, s)
     else case checked_add u64_max pool_id V2_OFFSET of
       None \<Rightarrow> (Panic, s)
     | Some v2_pool_id \<Rightarrow>
     and_then (load_pool_v2 v2_pool_id s, s) (\<lambda>pool s.
     if fv_owner pool \<noteq> owner then (Err InvalidPool, s)
     else let now = timestamp env; elapsed = saturating_sub now (fv_last_harvest pool) in
     if elapsed = 0 then (Ok 0, s)
     else case calculate_farm_reward (fv_amount pool) elapsed (int (fv_apy_bps pool)) of
       None \<Rightarrow> (Err ArithmeticOverflow, s)
     | Some base \<Rightarrow>
     let reward = scheduled_reward (fv_reward_schedule pool) (saturating_sub now (fv_start_time pool)) base;
         pool = (if fv_compound_enabled pool then pool\<lparr>fv_amount := sat (fv_amount pool + reward)\<rparr> else pool);
         pool = pool\<lparr>fv_last_harvest := now\<rparr>;
         s = s\<lparr>farm_slots := (farm_slots s)(v2_pool_id \<mapsto> SlotV2 pool)\<rparr>
     in (Ok reward, publish [SS ''farm'', SS ''v2_harv''] [SA owner, SI reward, SU pool_id, SI (fv_amount pool)] s)))"

definition withdraw_from_pool :: "env \<Rightarrow> address \<Rightarrow> u64 \<Rightarrow> 'a farm_store_scheme \<Rightarrow> (FarmError, i128) outcome \<times> 'a farm_store_scheme" where
  "withdraw_from_pool env owner pool_id s =
    (if \<not> auth env owner then (Panic, s)
     else and_then (load_pool pool_id s, s) (\<lambda>pool s.
     if fp_owner pool \<noteq> owner then (Err InvalidPool, s)
     else case checked_add u64_max (fp_start_time pool) (fp_lock_period pool) of
       None \<Rightarrow> (Err ArithmeticOverflow, s)
     | Some unlock_at \<Rightarrow>
     if timestamp env < unlock_at then (Err LockNotMet, s)
     else and_then (harvest_farm_rewards env owner pool_id s) (\<lambda>reward s.
     let s = s\<lparr>farm_slots := (farm_slots s)(pool_id := None)\<rparr> in
     case ck (fp_amount pool + reward) of None \<Rightarrow> (Err ArithmeticOverflow, s) | Some t \<Rightarrow> (Ok t, s))))"

definition withdraw_v2_with_penalty :: "env \<Rightarrow> address \<Rightarrow> u64 \<Rightarrow> 'a farm_store_scheme \<Rightarrow> (FarmError, i128) outcome \<times> 'a farm_store_scheme" where
  "withdraw_v2_with_penalty env owner pool_id s =
    (if \<not> auth env owner then (Panic, s)
     else case checked_add u64_max pool_id V2_OFFSET of
       None \<Rightarrow> (Panic, s)
     | Some v2_pool_id \<Rightarrow>
     and_then (load_pool_v2 v2_pool_id s, s) (\<lambda>pool s.
     if fv_owner pool \<noteq> owner then (Err InvalidPool, s)
     else case checked_add u64_max (fv_start_time pool) (fv_lock_period pool) of
       None \<Rightarrow> (Err ArithmeticOverflow, s)
     | Some unlock_at \<Rightarrow>
     and_then (harvest_v2_rewards env owner pool_id s) (\<lambda>reward s.
     case ck (fv_amount pool + reward) of
       None \<Rightarrow> (Err ArithmeticOverflow, s)
     | Some tot \<Rightarrow>
     case (if timestamp env < unlock_at \<and> fv_penalty_bps pool > 0
           then map_option (\<lambda>a. sat (tot - a sdiv FARM_BPS_DENOMINATOR)) (ck (tot * int (fv_penalty_bps pool)))
           else Some tot) of
       None \<Rightarrow> (Panic, s)
     | Some final_amount \<Rightarrow>
     let s = s\<lparr>farm_slots := (farm_slots s)(v2_pool_id := None)\<rparr>
     in (Ok final_amount, publish [SS ''farm'', SS ''v2_wd''] [SA owner, SI final_amount, SU pool_id] s))))"

definition get_yield_farm_stats :: "'a farm_store_scheme \<Rightarrow> YieldFarmStats" where
  "get_yield_farm_stats s = \<lparr>fs_total_value_locked = unwrap_or (total_locked s) 0, fs_active_pools = 0, fs_total_rewards_distributed = 0, fs_average_apy_bps = nat BASE_APY_BPS\<rparr>"

subsection \<open>Units and reserves\<close>

definition farm_debit :: "address \<Rightarrow> symbol \<Rightarrow> i128 \<Rightarrow> 'a farm_store_scheme \<Rightarrow> (FarmError, unit) outcome \<times> 'a farm_store_scheme" where
  "farm_debit owner asset amount s = (case u32_of amount of
     None \<Rightarrow> (Err ArithmeticOverflow, s)
   | Some n \<Rightarrow> and_then (map_err (\<lambda>_. FarmError.InsufficientBalance) (debit_resource_balance owner asset n s)) (\<lambda>_ s. (Ok (), s)))"

definition farm_credit :: "address \<Rightarrow> symbol \<Rightarrow> i128 \<Rightarrow> 'a farm_store_scheme \<Rightarrow> (FarmError, unit) outcome \<times> 'a farm_store_scheme" where
  "farm_credit owner asset amount s = (case u32_of amount of
     None \<Rightarrow> (Err ArithmeticOverflow, s)
   | Some n \<Rightarrow> and_then (map_err (\<lambda>_. ArithmeticOverflow) (credit_resource_balance owner asset n s)) (\<lambda>_ s. (Ok (), s)))"

definition get_tvl :: "symbol \<Rightarrow> 'a farm_store_scheme \<Rightarrow> i128" where
  "get_tvl asset s = unwrap_or (tvl s asset) 0"

definition adjust_tvl :: "symbol \<Rightarrow> i128 \<Rightarrow> 'a farm_store_scheme \<Rightarrow> (FarmError, unit) outcome \<times> 'a farm_store_scheme" where
  "adjust_tvl asset delta s =
    (case ck (get_tvl asset s + delta) of
       None \<Rightarrow> (Err ArithmeticOverflow, s)
     | Some per_asset \<Rightarrow>
     case ck (unwrap_or (tvl_total s) 0 + delta) of
       None \<Rightarrow> (Err ArithmeticOverflow, s)
     | Some tot \<Rightarrow> (Ok (), s\<lparr>tvl := (tvl s)(asset \<mapsto> per_asset), tvl_total := Some tot, total_locked := Some tot\<rparr>))"

definition require_staking_admin :: "env \<Rightarrow> address \<Rightarrow> 'a farm_store_scheme \<Rightarrow> (FarmError, unit) outcome \<times> 'a farm_store_scheme" where
  "require_staking_admin env caller s =
    (if \<not> auth env caller then (Panic, s)
     else case inst_admin s of
       None \<Rightarrow> (Err FarmError.NotOwner, s)
     | Some admin \<Rightarrow> if admin \<noteq> caller then (Err FarmError.NotOwner, s) else (Ok (), s))"

definition get_tvl_report :: "'a farm_store_scheme \<Rightarrow> TvlReport" where
  "get_tvl_report s = \<lparr>tr_resource_units = unwrap_or (tvl_total s) 0, tr_ships_staked = unwrap_or (nft_count s) 0, tr_total_yield_paid = unwrap_or (total_yield_paid s) 0\<rparr>"

definition get_tvl_target :: "'a farm_store_scheme \<Rightarrow> i128" where
  "get_tvl_target s = unwrap_or (tvl_target s) DEFAULT_TVL_TARGET"

definition set_tvl_target :: "i128 \<Rightarrow> 'a farm_store_scheme \<Rightarrow> 'a farm_store_scheme" where
  "set_tvl_target target s = s\<lparr>tvl_target := Some target\<rparr>"

definition get_yield_reserve :: "symbol \<Rightarrow> 'a farm_store_scheme \<Rightarrow> i128" where
  "get_yield_reserve asset s = unwrap_or (yield_reserve s asset) 0"

definition add_to_reserve :: "symbol \<Rightarrow> i128 \<Rightarrow> 'a farm_store_scheme \<Rightarrow> (FarmError, unit) outcome \<times> 'a farm_store_scheme" where
  "add_to_reserve asset amount s = (case ck (get_yield_reserve asset s + amount) of
     None \<Rightarrow> (Err ArithmeticOverflow, s)
   | Some reserve \<Rightarrow> (Ok (), s\<lparr>yield_reserve := (yield_reserve s)(asset \<mapsto> reserve)\<rparr>))"

definition fund_yield_reserve :: "env \<Rightarrow> address \<Rightarrow> symbol \<Rightarrow> u32 \<Rightarrow> 'a farm_store_scheme \<Rightarrow> (FarmError, i128) outcome \<times> 'a farm_store_scheme" where
  "fund_yield_reserve env funder asset amount s =
    (if \<not> auth env funder then (Panic, s)
     else if amount = 0 then (Err FarmError.InsufficientBalance, s)
     else and_then (farm_debit funder asset (int amount) s) (\<lambda>_ s.
     case ck (get_yield_reserve asset s + int amount) of
       None \<Rightarrow> (Err ArithmeticOverflow, s)
     | Some reserve \<Rightarrow>
     let s = s\<lparr>yield_reserve := (yield_reserve s)(asset \<mapsto> reserve)\<rparr>
     in (Ok reserve, publish [SS ''stake'', SS ''fund''] [SA funder, SS asset, SU amount] s)))"

definition pay_yield :: "address \<Rightarrow> symbol \<Rightarrow> i128 \<Rightarrow> 'a farm_store_scheme \<Rightarrow> (FarmError, unit) outcome \<times> 'a farm_store_scheme" where
  "pay_yield to asset amount s =
    (if amount \<le> 0 then (Ok (), s)
     else let reserve = get_yield_reserve asset s in
     if reserve < amount then (Err YieldReserveEmpty, s)
     else let s = s\<lparr>yield_reserve := (yield_reserve s)(asset \<mapsto> reserve - amount)\<rparr> in
     and_then (farm_credit to asset amount s) (\<lambda>_ s.
     let paid = unwrap_or (total_yield_paid s) 0
     in (Ok (), s\<lparr>total_yield_paid := Some (sat (paid + amount))\<rparr>)))"

subsection \<open>Resource stakes\<close>

definition resource_yield_with :: "env \<Rightarrow> ResourceStake \<Rightarrow> i128" where
  "resource_yield_with env r =
    max (sat (unwrap_or (accrued_yield env (rs_amount r) (rs_apy_bps r) (rs_staked_at r) (duration_secs (rs_tier r))) 0 - rs_yield_claimed r)) 0"

definition get_resource_stake :: "u64 \<Rightarrow> 'a farm_store_scheme \<Rightarrow> ResourceStake option" where
  "get_resource_stake stake_id s = resource_stakes s stake_id"

definition load_resource_stake :: "address \<Rightarrow> u64 \<Rightarrow> 'a farm_store_scheme \<Rightarrow> (FarmError, ResourceStake) outcome" where
  "load_resource_stake owner stake_id s = (case get_resource_stake stake_id s of
     None \<Rightarrow> Err NotStaked
   | Some r \<Rightarrow> if rs_owner r \<noteq> owner then Err FarmError.NotOwner else Ok r)"

definition stake_resource :: "env \<Rightarrow> address \<Rightarrow> symbol \<Rightarrow> u32 \<Rightarrow> LockTier \<Rightarrow> 'a farm_store_scheme \<Rightarrow> (FarmError, u64) outcome \<times> 'a farm_store_scheme" where
  "stake_resource env owner asset_id amount tier s =
    (if \<not> auth env owner then (Panic, s)
     else if amount = 0 then (Err FarmError.InsufficientBalance, s)
     else let amount_i = int amount in
     and_then (farm_debit owner asset_id amount_i s) (\<lambda>_ s.
     let locked = get_tvl asset_id s;
         apy_bps = tvl_adjusted_apy_bps (tier_apy_bps tier) locked (get_tvl_target s);
         now = timestamp env;
         id = unwrap_or (next_stake_id s) 1;
         r = \<lparr>rs_id = id, rs_owner = owner, rs_asset_id = asset_id, rs_amount = amount_i, rs_tier = tier, rs_apy_bps = apy_bps, rs_staked_at = now,
           rs_unlock_at = saturating_add u64_max now (duration_secs tier), rs_yield_claimed = 0\<rparr>;
         s = s\<lparr>resource_stakes := (resource_stakes s)(id \<mapsto> r)\<rparr> in
     case checked_add u64_max id 1 of
       None \<Rightarrow> (Err ArithmeticOverflow, s)
     | Some next_id \<Rightarrow>
     let s = s\<lparr>next_stake_id := Some next_id\<rparr> in
     and_then (adjust_tvl asset_id amount_i s) (\<lambda>_ s.
     (Ok id, publish [SS ''stake'', SS ''res_lock''] [SA owner, SU id, SS asset_id, SU amount, SU (tier_days tier), SU apy_bps] s))))"

definition claim_resource_yield :: "env \<Rightarrow> address \<Rightarrow> u64 \<Rightarrow> 'a farm_store_scheme \<Rightarrow> (FarmError, i128) outcome \<times> 'a farm_store_scheme" where
  "claim_resource_yield env owner stake_id s =
    (if \<not> auth env owner then (Panic, s)
     else and_then (load_resource_stake owner stake_id s, s) (\<lambda>r s.
     let due = resource_yield_with env r in
     if due = 0 then (Ok 0, s)
     else and_then (pay_yield owner (rs_asset_id r) due s) (\<lambda>_ s.
     let r = r\<lparr>rs_yield_claimed := sat (rs_yield_claimed r + due)\<rparr>;
         s = s\<lparr>resource_stakes := (resource_stakes s)(stake_id \<mapsto> r)\<rparr>
     in (Ok due, publish [SS ''stake'', SS ''res_yld''] [SA owner, SU stake_id, SI due] s))))"

definition unstake_resource_inner :: "env \<Rightarrow> address \<Rightarrow> u64 \<Rightarrow> 'a farm_store_scheme \<Rightarrow> (FarmError, i128) outcome \<times> 'a farm_store_scheme" where
  "unstake_resource_inner env owner stake_id s =
    and_then (load_resource_stake owner stake_id s, s) (\<lambda>r s.
     if timestamp env < rs_unlock_at r then (Err LockNotMet, s)
     else let due = resource_yield_with env r in
     and_then (pay_yield owner (rs_asset_id r) due s) (\<lambda>_ s.
     let s = s\<lparr>resource_stakes := (resource_stakes s)(stake_id := None)\<rparr> in
     case ck (- rs_amount r) of
       None \<Rightarrow> (Panic, s)
     | Some delta \<Rightarrow>
     and_then (adjust_tvl (rs_asset_id r) delta s) (\<lambda>_ s.
     and_then (farm_credit owner (rs_asset_id r) (rs_amount r) s) (\<lambda>_ s.
     (Ok (sat (rs_amount r + due)), publish [SS ''stake'', SS ''res_out''] [SA owner, SU stake_id, SI (rs_amount r), SI due] s)))))"

definition unstake_resource :: "env \<Rightarrow> address \<Rightarrow> u64 \<Rightarrow> 'a farm_store_scheme \<Rightarrow> (FarmError, i128) outcome \<times> 'a farm_store_scheme" where
  "unstake_resource env owner stake_id s = (if \<not> auth env owner then (Panic, s) else unstake_resource_inner env owner stake_id s)"

definition emergency_unstake_resource :: "env \<Rightarrow> address \<Rightarrow> u64 \<Rightarrow> 'a farm_store_scheme \<Rightarrow> (FarmError, EmergencyWithdrawal) outcome \<times> 'a farm_store_scheme" where
  "emergency_unstake_resource env owner stake_id s =
    (if \<not> auth env owner then (Panic, s)
     else and_then (load_resource_stake owner stake_id s, s) (\<lambda>r s.
     if timestamp env \<ge> rs_unlock_at r then
       and_then (unstake_resource_inner env owner stake_id s) (\<lambda>tot s. (Ok \<lparr>ew_returned = tot, ew_penalty = 0, ew_yield_forfeited = 0\<rparr>, s))
     else let forfeited = resource_yield_with env r in
     case emergency_withdrawal (rs_amount r) of
       None \<Rightarrow> (Panic, s)
     | Some (returned, penalty) \<Rightarrow>
     let s = s\<lparr>resource_stakes := (resource_stakes s)(stake_id := None)\<rparr> in
     case ck (- rs_amount r) of
       None \<Rightarrow> (Panic, s)
     | Some delta \<Rightarrow>
     and_then (adjust_tvl (rs_asset_id r) delta s) (\<lambda>_ s.
     and_then (add_to_reserve (rs_asset_id r) penalty s) (\<lambda>_ s.
     and_then (farm_credit owner (rs_asset_id r) returned s) (\<lambda>_ s.
     let s = publish [SS ''stake'', SS ''res_emrg''] [SA owner, SU stake_id, SI returned, SI penalty, SI forfeited] s
     in (Ok \<lparr>ew_returned = returned, ew_penalty = penalty, ew_yield_forfeited = forfeited\<rparr>, s))))))"

subsection \<open>Ship stakes\<close>

definition nft_rarity_bps :: "symbol \<Rightarrow> u32" where
  "nft_rarity_bps ship_type = (if ship_type = ''hauler'' then RARITY_HAULER_BPS else if ship_type = ''explorer'' then RARITY_EXPLORER_BPS else RARITY_FIGHTER_BPS)"

definition get_nft_yield_asset :: "'a farm_store_scheme \<Rightarrow> symbol" where
  "get_nft_yield_asset s = unwrap_or (nft_yield_asset s) ''dust''"

definition set_nft_yield_asset :: "symbol \<Rightarrow> 'a farm_store_scheme \<Rightarrow> 'a farm_store_scheme" where
  "set_nft_yield_asset asset s = s\<lparr>nft_yield_asset := Some asset\<rparr>"

definition get_ship_stake :: "u64 \<Rightarrow> 'a farm_store_scheme \<Rightarrow> NftStake option" where
  "get_ship_stake ship_id s = nft_stake s ship_id"

definition nft_yield_with :: "env \<Rightarrow> NftStake \<Rightarrow> i128" where
  "nft_yield_with env n =
    max (sat (unwrap_or (nft_accrued_yield (ns_level n) (ns_rarity_bps n) (elapsed_since env (ns_staked_at n))) 0 - ns_yield_claimed n)) 0"

definition set_nft_count :: "int \<Rightarrow> 'a farm_store_scheme \<Rightarrow> 'a farm_store_scheme" where
  "set_nft_count delta s =
    (let cnt = unwrap_or (nft_count s) 0;
         nxt = (if delta \<ge> 0 then saturating_add u32_max cnt (nat delta) else saturating_sub cnt (nat \<bar>delta\<bar>))
     in s\<lparr>nft_count := Some nxt\<rparr>)"

definition stake_ship :: "env \<Rightarrow> address \<Rightarrow> u64 \<Rightarrow> 'a farm_store_scheme \<Rightarrow> (FarmError, NftStake) outcome \<times> 'a farm_store_scheme" where
  "stake_ship env owner ship_id s =
    (if \<not> auth env owner then (Panic, s)
     else and_then (map_err (\<lambda>_. NotStaked) (get_ship ship_id s, s)) (\<lambda>ship s.
     if sh_owner ship \<noteq> owner then (Err FarmError.NotOwner, s)
     else if is_ship_staked ship_id s then (Err AlreadyStaked, s)
     else let n = \<lparr>ns_ship_id = ship_id, ns_owner = owner, ns_level = max (get_ship_level ship_id s) 1, ns_rarity_bps = nft_rarity_bps (sh_type ship),
           ns_staked_at = timestamp env, ns_yield_claimed = 0\<rparr>;
         s = s\<lparr>nft_stake := (nft_stake s)(ship_id \<mapsto> n)\<rparr>;
         s = set_nft_count 1 s
     in (Ok n, publish [SS ''stake'', SS ''nft_lock''] [SA owner, SU ship_id, SU (ns_level n), SU (ns_rarity_bps n)] s)))"

definition load_nft_stake :: "address \<Rightarrow> u64 \<Rightarrow> 'a farm_store_scheme \<Rightarrow> (FarmError, NftStake) outcome" where
  "load_nft_stake owner ship_id s = (case get_ship_stake ship_id s of
     None \<Rightarrow> Err NotStaked
   | Some n \<Rightarrow> if ns_owner n \<noteq> owner then Err FarmError.NotOwner else Ok n)"

definition claim_ship_yield :: "env \<Rightarrow> address \<Rightarrow> u64 \<Rightarrow> 'a farm_store_scheme \<Rightarrow> (FarmError, i128) outcome \<times> 'a farm_store_scheme" where
  "claim_ship_yield env owner ship_id s =
    (if \<not> auth env owner then (Panic, s)
     else and_then (load_nft_stake owner ship_id s, s) (\<lambda>n s.
     let due = nft_yield_with env n in
     if due = 0 then (Ok 0, s)
     else and_then (pay_yield owner (get_nft_yield_asset s) due s) (\<lambda>_ s.
     let n = n\<lparr>ns_yield_claimed := sat (ns_yield_claimed n + due)\<rparr>;
         s = s\<lparr>nft_stake := (nft_stake s)(ship_id \<mapsto> n)\<rparr>
     in (Ok due, publish [SS ''stake'', SS ''nft_yld''] [SA owner, SU ship_id, SI due] s))))"

definition unstake_ship :: "env \<Rightarrow> address \<Rightarrow> u64 \<Rightarrow> 'a farm_store_scheme \<Rightarrow> (FarmError, i128) outcome \<times> 'a farm_store_scheme" where
  "unstake_ship env owner ship_id s =
    (if \<not> auth env owner then (Panic, s)
     else and_then (load_nft_stake owner ship_id s, s) (\<lambda>n s.
     let due = nft_yield_with env n in
     and_then (pay_yield owner (get_nft_yield_asset s) due s) (\<lambda>_ s.
     let s = s\<lparr>nft_stake := (nft_stake s)(ship_id := None)\<rparr>;
         s = set_nft_count (- 1) s
     in (Ok due, publish [SS ''stake'', SS ''nft_out''] [SA owner, SU ship_id, SI due] s))))"

subsection \<open>Liquidity stakes\<close>

definition get_lp_pool_state :: "u64 \<Rightarrow> 'a farm_store_scheme \<Rightarrow> LpPoolState option" where
  "get_lp_pool_state pool_id s = lp_pools s pool_id"

definition get_lp_stake :: "u64 \<Rightarrow> address \<Rightarrow> 'a farm_store_scheme \<Rightarrow> LpStake option" where
  "get_lp_stake pool_id provider s = lp_stakes s (pool_id, provider)"

definition pool_state_or_init :: "u64 \<Rightarrow> 'a farm_store_scheme \<Rightarrow> (FarmError, LpPoolState) outcome" where
  "pool_state_or_init pool_id s = (case get_lp_pool_state pool_id s of
     Some state \<Rightarrow> Ok state
   | None \<Rightarrow> (case get_pool pool_id s of
       None \<Rightarrow> Err InvalidPool
     | Some pool \<Rightarrow> Ok \<lparr>lps_total_staked = 0, lps_acc_reward_per_share = 0, lps_reward_asset = lp_resource_a pool, lps_il_pot = 0\<rparr>))"

definition current_ratio_bps :: "u64 \<Rightarrow> 'a farm_store_scheme \<Rightarrow> (FarmError, u64) outcome" where
  "current_ratio_bps pool_id s = (case get_pool pool_id s of
     None \<Rightarrow> Err InvalidPool
   | Some pool \<Rightarrow>
     if lp_reserve_a pool \<le> 0 then Ok 10000
     else let ratio = unwrap_or (tdiv (sat (lp_reserve_b pool * 10000)) (lp_reserve_a pool)) 10000
     in Ok (if 0 \<le> ratio \<and> ratio \<le> int u64_max then nat ratio else u64_max))"

definition pending_lp_reward :: "LpStake \<Rightarrow> LpPoolState \<Rightarrow> i128" where
  "pending_lp_reward k state =
    max (sat (unwrap_or (tdiv (sat (ls_amount k * lps_acc_reward_per_share state)) REWARD_PRECISION) 0 - ls_reward_debt k)) 0"

definition move_lp :: "u64 \<Rightarrow> address \<Rightarrow> i128 \<Rightarrow> 'a farm_store_scheme \<Rightarrow> (FarmError, unit) outcome \<times> 'a farm_store_scheme" where
  "move_lp pool_id provider delta s =
    (let balance = unwrap_or (lp_balance s (pool_id, provider)) 0 in
     case ck (balance + delta) of
       None \<Rightarrow> (Err ArithmeticOverflow, s)
     | Some nxt \<Rightarrow>
     if nxt < 0 then (Err FarmError.InsufficientBalance, s)
     else (Ok (), s\<lparr>lp_balance := (lp_balance s)((pool_id, provider) \<mapsto> nxt)\<rparr>))"

definition lp_debt :: "i128 \<Rightarrow> LpPoolState \<Rightarrow> i128" where
  "lp_debt amount state = sat (amount * lps_acc_reward_per_share state) sdiv REWARD_PRECISION"

definition enlarged_stake :: "env \<Rightarrow> address \<Rightarrow> u64 \<Rightarrow> i128 \<Rightarrow> LpPoolState \<Rightarrow> 'a farm_store_scheme \<Rightarrow> (FarmError, LpStake) outcome \<times> 'a farm_store_scheme" where
  "enlarged_stake env provider pool_id amount state s = (case get_lp_stake pool_id provider s of
     Some existing \<Rightarrow>
       let pending = pending_lp_reward existing state in
       and_then (pay_yield provider (lps_reward_asset state) pending s) (\<lambda>_ s.
       case ck (ls_amount existing + amount) of
         None \<Rightarrow> (Err ArithmeticOverflow, s)
       | Some n \<Rightarrow> (Ok (existing\<lparr>ls_amount := n, ls_reward_debt := lp_debt n state\<rparr>), s))
   | None \<Rightarrow> and_then (current_ratio_bps pool_id s, s) (\<lambda>ratio s.
       (Ok \<lparr>ls_owner = provider, ls_pool_id = pool_id, ls_amount = amount, ls_staked_at = timestamp env, ls_entry_ratio_bps = ratio, ls_reward_debt = lp_debt amount state\<rparr>, s)))"

definition stake_lp :: "env \<Rightarrow> address \<Rightarrow> u64 \<Rightarrow> i128 \<Rightarrow> 'a farm_store_scheme \<Rightarrow> (FarmError, LpStake) outcome \<times> 'a farm_store_scheme" where
  "stake_lp env provider pool_id amount s =
    (if \<not> auth env provider then (Panic, s)
     else if amount \<le> 0 then (Err FarmError.InsufficientBalance, s)
     else and_then (pool_state_or_init pool_id s, s) (\<lambda>state s.
     and_then (move_lp pool_id provider (- amount) s) (\<lambda>_ s.
     and_then (enlarged_stake env provider pool_id amount state s) (\<lambda>k s.
     case ck (lps_total_staked state + amount) of
       None \<Rightarrow> (Err ArithmeticOverflow, s)
     | Some tot \<Rightarrow>
     let state = state\<lparr>lps_total_staked := tot\<rparr>;
         s = s\<lparr>lp_stakes := (lp_stakes s)((pool_id, provider) \<mapsto> k)\<rparr>;
         s = s\<lparr>lp_pools := (lp_pools s)(pool_id \<mapsto> state)\<rparr>
     in (Ok k, publish [SS ''stake'', SS ''lp_lock''] [SA provider, SU pool_id, SI amount] s)))))"

definition fund_lp_rewards :: "env \<Rightarrow> address \<Rightarrow> u64 \<Rightarrow> u32 \<Rightarrow> 'a farm_store_scheme \<Rightarrow> (FarmError, unit) outcome \<times> 'a farm_store_scheme" where
  "fund_lp_rewards env funder pool_id amount s =
    (if \<not> auth env funder then (Panic, s)
     else if amount = 0 then (Err FarmError.InsufficientBalance, s)
     else and_then (pool_state_or_init pool_id s, s) (\<lambda>state s.
     let amount_i = int amount in
     and_then (farm_debit funder (lps_reward_asset state) amount_i s) (\<lambda>_ s.
     and_then (add_to_reserve (lps_reward_asset state) amount_i s) (\<lambda>_ s.
     let to_pot = (if lps_total_staked state > 0 then (amount_i * IL_POT_SHARE_BPS) sdiv 10000 else amount_i);
         to_stakers = amount_i - to_pot in
     case (if to_stakers > 0
           then Option.bind (ck (to_stakers * REWARD_PRECISION)) (\<lambda>a. Option.bind (tdiv a (lps_total_staked state)) (\<lambda>d. ck (lps_acc_reward_per_share state + d)))
           else Some (lps_acc_reward_per_share state)) of
       None \<Rightarrow> (Err ArithmeticOverflow, s)
     | Some acc \<Rightarrow>
     case ck (lps_il_pot state + to_pot) of
       None \<Rightarrow> (Err ArithmeticOverflow, s)
     | Some pot \<Rightarrow>
     let state = state\<lparr>lps_acc_reward_per_share := acc, lps_il_pot := pot\<rparr>;
         s = s\<lparr>lp_pools := (lp_pools s)(pool_id \<mapsto> state)\<rparr>
     in (Ok (), publish [SS ''stake'', SS ''lp_fund''] [SA funder, SU pool_id, SI to_stakers, SI to_pot] s)))))"

definition claim_lp_rewards :: "env \<Rightarrow> address \<Rightarrow> u64 \<Rightarrow> 'a farm_store_scheme \<Rightarrow> (FarmError, i128) outcome \<times> 'a farm_store_scheme" where
  "claim_lp_rewards env provider pool_id s =
    (if \<not> auth env provider then (Panic, s)
     else case get_lp_pool_state pool_id s of
       None \<Rightarrow> (Err NotStaked, s)
     | Some state \<Rightarrow>
     case get_lp_stake pool_id provider s of
       None \<Rightarrow> (Err NotStaked, s)
     | Some k \<Rightarrow>
     let pending = pending_lp_reward k state in
     if pending = 0 then (Ok 0, s)
     else and_then (pay_yield provider (lps_reward_asset state) pending s) (\<lambda>_ s.
     (Ok pending, s\<lparr>lp_stakes := (lp_stakes s)((pool_id, provider) \<mapsto> k\<lparr>ls_reward_debt := lp_debt (ls_amount k) state\<rparr>)\<rparr>)))"

definition il_compensation_with :: "env \<Rightarrow> LpStake \<Rightarrow> u64 \<Rightarrow> i128 \<Rightarrow> i128 option" where
  "il_compensation_with env k ratio_bps il_pot =
    (if ls_entry_ratio_bps k = 0 then Some 0
     else let change = ratio_bps * 10000 div ls_entry_ratio_bps k;
         change_bps = (if change \<le> u64_max then change else u64_max) in
     Option.bind (impermanent_loss_bps change_bps) (\<lambda>il.
     Option.bind (unprotected_il_bps change_bps (elapsed_since env (ls_staked_at k))) (\<lambda>un.
     let protected = saturating_sub il un;
         owed = sat (ls_amount k * int protected) sdiv 10000
     in Some (max (min owed il_pot) 0))))"

definition unstake_lp :: "env \<Rightarrow> address \<Rightarrow> u64 \<Rightarrow> i128 \<Rightarrow> 'a farm_store_scheme \<Rightarrow> (FarmError, i128 \<times> i128) outcome \<times> 'a farm_store_scheme" where
  "unstake_lp env provider pool_id amount s =
    (if \<not> auth env provider then (Panic, s)
     else if amount \<le> 0 then (Err FarmError.InsufficientBalance, s)
     else case get_lp_pool_state pool_id s of
       None \<Rightarrow> (Err NotStaked, s)
     | Some state \<Rightarrow>
     case get_lp_stake pool_id provider s of
       None \<Rightarrow> (Err NotStaked, s)
     | Some k \<Rightarrow>
     if amount > ls_amount k then (Err FarmError.InsufficientBalance, s)
     else let pending = pending_lp_reward k state in
     and_then (pay_yield provider (lps_reward_asset state) pending s) (\<lambda>_ s.
     and_then (current_ratio_bps pool_id s, s) (\<lambda>ratio s.
     case il_compensation_with env (k\<lparr>ls_amount := amount\<rparr>) ratio (lps_il_pot state) of
       None \<Rightarrow> (Panic, s)
     | Some compensation \<Rightarrow>
     case (if compensation > 0 then ck (lps_il_pot state - compensation) else Some (lps_il_pot state)) of
       None \<Rightarrow> (Panic, s)
     | Some pot \<Rightarrow>
     and_then (if compensation > 0 then pay_yield provider (lps_reward_asset state) compensation s else (Ok (), s)) (\<lambda>_ s.
     case ck (ls_amount k - amount) of
       None \<Rightarrow> (Panic, s)
     | Some rest \<Rightarrow>
     case ck (lps_total_staked state - amount) of
       None \<Rightarrow> (Panic, s)
     | Some tot \<Rightarrow>
     and_then (move_lp pool_id provider amount s) (\<lambda>_ s.
     let s = s\<lparr>lp_stakes := (lp_stakes s)((pool_id, provider) := if rest = 0 then None else Some (k\<lparr>ls_amount := rest, ls_reward_debt := lp_debt rest state\<rparr>))\<rparr>;
         s = s\<lparr>lp_pools := (lp_pools s)(pool_id \<mapsto> state\<lparr>lps_il_pot := pot, lps_total_staked := tot\<rparr>)\<rparr>
     in (Ok (pending, compensation), publish [SS ''stake'', SS ''lp_out''] [SA provider, SU pool_id, SI amount, SI pending, SI compensation] s))))))"

text \<open>The entry points of \<open>lib.rs\<close> that restrict the two setters to the staking administrator.\<close>

definition entry_set_tvl_target :: "env \<Rightarrow> address \<Rightarrow> i128 \<Rightarrow> 'a farm_store_scheme \<Rightarrow> (FarmError, unit) outcome \<times> 'a farm_store_scheme" where
  "entry_set_tvl_target env admin target s = and_then (require_staking_admin env admin s) (\<lambda>_ s. (Ok (), set_tvl_target target s))"

definition entry_set_nft_yield_asset :: "env \<Rightarrow> address \<Rightarrow> symbol \<Rightarrow> 'a farm_store_scheme \<Rightarrow> (FarmError, unit) outcome \<times> 'a farm_store_scheme" where
  "entry_set_nft_yield_asset env admin asset_id s = and_then (require_staking_admin env admin s) (\<lambda>_ s. (Ok (), set_nft_yield_asset asset_id s))"

section \<open>Units: wallets and reserves\<close>

definition funds :: "symbol \<Rightarrow> 'a farm_store_scheme \<Rightarrow> int" where
  "funds x s = int (msum (\<lambda>a. resource_bal s (a, x))) + get_yield_reserve x s"

definition funds_ok :: "'a farm_store_scheme \<Rightarrow> bool" where
  "funds_ok s \<longleftrightarrow> (\<forall>x. finite (dom (\<lambda>a. resource_bal s (a, x))) \<and> 0 \<le> get_yield_reserve x s)"

text \<open>What the primitives on units leave alone.\<close>

definition farm_frame :: "'a farm_store_scheme \<Rightarrow> ((u64 \<rightharpoonup> ResourceStake) \<times> u64 option \<times> (symbol \<rightharpoonup> i128) \<times> i128 option \<times> i128 option)
    \<times> ((u64 \<times> address \<rightharpoonup> LpStake) \<times> (u64 \<rightharpoonup> LpPoolState) \<times> (u64 \<times> address \<rightharpoonup> i128))" where
  "farm_frame s = ((resource_stakes s, next_stake_id s, tvl s, tvl_total s, total_locked s), (lp_stakes s, lp_pools s, lp_balance s))"

text \<open>\<open>shifts d s s'\<close>: only wallets and reserves change, by \<open>d x\<close> units of each asset \<open>x\<close> together.\<close>

definition shifts :: "(symbol \<Rightarrow> int) \<Rightarrow> 'a farm_store_scheme \<Rightarrow> 'a farm_store_scheme \<Rightarrow> bool" where
  "shifts d s s' \<longleftrightarrow> farm_frame s' = farm_frame s \<and> (funds_ok s \<longrightarrow> funds_ok s' \<and> (\<forall>x. funds x s' = funds x s + d x))"

abbreviation at :: "symbol \<Rightarrow> int \<Rightarrow> symbol \<Rightarrow> int" where
  "at x n \<equiv> (\<lambda>_. 0)(x := n)"

lemma publish_farm_store [simp]: "farm_frame (publish t d s) = farm_frame s" "funds x (publish t d s) = funds x s" "funds_ok (publish t d s) = funds_ok s"
    "get_yield_reserve x (publish t d s) = get_yield_reserve x s" "get_tvl x (publish t d s) = get_tvl x s"
    "tvl (publish t d s) = tvl s" "resource_stakes (publish t d s) = resource_stakes s" "lp_stakes (publish t d s) = lp_stakes s" "lp_pools (publish t d s) = lp_pools s"
  by (simp_all add: publish_def farm_frame_def funds_def funds_ok_def get_yield_reserve_def get_tvl_def)

lemma shifts_same: "farm_frame s' = farm_frame s \<Longrightarrow> resource_bal s' = resource_bal s \<Longrightarrow> yield_reserve s' = yield_reserve s \<Longrightarrow> shifts (\<lambda>_. 0) s s'"
  by (simp add: shifts_def funds_def funds_ok_def get_yield_reserve_def)

lemma shifts_trans: "shifts d s t \<Longrightarrow> shifts e t u \<Longrightarrow> shifts (\<lambda>x. d x + e x) s u"
  by (simp add: shifts_def)

lemma shifts_wallet:
  assumes v: "int v = int (resource_balance p y s) + n"
  shows "shifts (at y n) s (s\<lparr>resource_bal := (resource_bal s)((p, y) \<mapsto> v)\<rparr>)"
proof -
  let ?s = "s\<lparr>resource_bal := (resource_bal s)((p, y) \<mapsto> v)\<rparr>"
  have w: "(\<lambda>a. resource_bal ?s (a, x)) = (if x = y then (\<lambda>a. resource_bal s (a, x))(p \<mapsto> v) else (\<lambda>a. resource_bal s (a, x)))" for x by auto
  have "int (msum ((\<lambda>a. resource_bal s (a, y))(p \<mapsto> v))) = int (msum (\<lambda>a. resource_bal s (a, y))) + n" if "finite (dom (\<lambda>a. resource_bal s (a, y)))"
    using msum_upd[OF that, of p v] v unfolding resource_balance_def by linarith
  moreover have "get_yield_reserve x ?s = get_yield_reserve x s" "farm_frame ?s = farm_frame s" for x by (simp_all add: get_yield_reserve_def farm_frame_def)
  ultimately show ?thesis unfolding shifts_def funds_def funds_ok_def w by simp
qed

lemma shifts_reserve:
  assumes "0 \<le> get_yield_reserve y s \<Longrightarrow> 0 \<le> get_yield_reserve y s + n"
  shows "shifts (at y n) s (s\<lparr>yield_reserve := (yield_reserve s)(y \<mapsto> get_yield_reserve y s + n)\<rparr>)"
  using assms by (auto simp: shifts_def farm_frame_def funds_def funds_ok_def get_yield_reserve_def)

lemma u32_of_Some: "u32_of x = Some n \<longleftrightarrow> 0 \<le> x \<and> x \<le> int u32_max \<and> n = nat x"
  by (auto simp: u32_of_def)

lemma farm_debit_Ok:
  assumes "farm_debit p y n s = (Ok u, s')"
  shows "shifts (at y (- n)) s s'" "0 \<le> n" "n \<le> int u32_max"
proof -
  from assms obtain v where v: "0 \<le> n" "n \<le> int u32_max" "nat n \<le> resource_balance p y s" "v = resource_balance p y s - nat n"
      "s' = s\<lparr>resource_bal := (resource_bal s)((p, y) \<mapsto> v)\<rparr>"
    by (auto simp: farm_debit_def debit_resource_balance_def ok_rules u32_of_Some and_then_Ok map_err_Ok)
  have "int v = int (resource_balance p y s) + - n" using v(1,3,4) by linarith
  from shifts_wallet[OF this] show "shifts (at y (- n)) s s'" using v(5) by simp
qed (use assms in \<open>auto simp: farm_debit_def u32_of_Some ok_rules\<close>)

lemma farm_credit_Ok:
  assumes "farm_credit p y n s = (Ok u, s')"
  shows "shifts (at y n) s s'" "0 \<le> n" "s' = s\<lparr>resource_bal := (resource_bal s)((p, y) \<mapsto> resource_balance p y s + nat n)\<rparr>"
proof -
  from assms have v: "0 \<le> n" and s': "s' = s\<lparr>resource_bal := (resource_bal s)((p, y) \<mapsto> resource_balance p y s + nat n)\<rparr>"
    by (auto simp: farm_credit_def credit_resource_balance_def ok_rules u32_of_Some and_then_Ok map_err_Ok)
  then show "0 \<le> n" "s' = s\<lparr>resource_bal := (resource_bal s)((p, y) \<mapsto> resource_balance p y s + nat n)\<rparr>" by simp_all
  have "int (resource_balance p y s + nat n) = int (resource_balance p y s) + n" using v by simp
  from shifts_wallet[OF this] show "shifts (at y n) s s'" using s' by simp
qed

lemma add_to_reserve_Ok: "add_to_reserve y n s = (Ok u, s') \<Longrightarrow> 0 \<le> n \<Longrightarrow> shifts (at y n) s s'"
  using shifts_reserve[of y s n] by (auto simp: add_to_reserve_def ok_rules)

lemma pay_yield_Ok:
  assumes "pay_yield p y n s = (Ok u, s')"
  shows "shifts (\<lambda>_. 0) s s'"
proof (cases "n \<le> 0")
  case True
  then show ?thesis using assms by (auto simp: pay_yield_def intro: shifts_same)
next
  case False
  let ?s = "s\<lparr>yield_reserve := (yield_reserve s)(y \<mapsto> get_yield_reserve y s + - n)\<rparr>"
  from False assms obtain t where r: "n \<le> get_yield_reserve y s" and t: "farm_credit p y n ?s = (Ok (), t)" and s': "s' = t\<lparr>total_yield_paid := Some (sat (unwrap_or (total_yield_paid t) 0 + n))\<rparr>"
    by (auto simp: pay_yield_def ok_rules Let_def and_then_Ok)
  have 1: "shifts (at y (- n)) s ?s" using r by (intro shifts_reserve) simp
  have 2: "shifts (\<lambda>_. 0) t s'" unfolding s' by (rule shifts_same) (simp_all add: farm_frame_def)
  have "(\<lambda>x. at y (- n) x + (at y n x + 0)) = (\<lambda>_. 0)" by auto
  then show ?thesis using shifts_trans[OF 1 shifts_trans[OF farm_credit_Ok(1)[OF t] 2]] by simp
qed

section \<open>Resource stakes\<close>

type_synonym locks = "(u64 \<rightharpoonup> ResourceStake) \<times> u64 option \<times> (symbol \<rightharpoonup> i128) \<times> i128 option \<times> i128 option"

abbreviation lock_view :: "'a farm_store_scheme \<Rightarrow> locks" where
  "lock_view s \<equiv> fst (farm_frame s)"

abbreviation share_view :: "'a farm_store_scheme \<Rightarrow> (u64 \<times> address \<rightharpoonup> LpStake) \<times> (u64 \<rightharpoonup> LpPoolState) \<times> (u64 \<times> address \<rightharpoonup> i128)" where
  "share_view s \<equiv> snd (farm_frame s)"

text \<open>The yield of a stake over its whole term, and the stakes of one asset.\<close>

definition full_yield :: "ResourceStake \<Rightarrow> int" where
  "full_yield r = rs_amount r * int (rs_apy_bps r) * int (duration_secs (rs_tier r)) div (10000 * 31536000)"

definition stake_wf :: "u64 \<Rightarrow> ResourceStake \<Rightarrow> bool" where
  "stake_wf i r \<longleftrightarrow> rs_id r = i \<and> 0 < rs_amount r \<and> rs_amount r \<le> int u32_max \<and> rs_apy_bps r \<le> tier_apy_bps (rs_tier r)
     \<and> 0 \<le> rs_yield_claimed r \<and> rs_yield_claimed r \<le> full_yield r"

definition locked_in :: "symbol \<Rightarrow> (u64 \<rightharpoonup> ResourceStake) \<Rightarrow> (u64 \<rightharpoonup> i128)" where
  "locked_in x st = (\<lambda>i. case st i of None \<Rightarrow> None | Some r \<Rightarrow> if rs_asset_id r = x then Some (rs_amount r) else None)"

definition lock_amounts :: "(u64 \<rightharpoonup> ResourceStake) \<Rightarrow> (u64 \<rightharpoonup> i128)" where
  "lock_amounts st = (\<lambda>i. map_option rs_amount (st i))"

fun locks_ok :: "locks \<Rightarrow> bool" where
  "locks_ok (st, nx, tv, tt, lg) \<longleftrightarrow> finite (dom st) \<and> (\<forall>i r. st i = Some r \<longrightarrow> stake_wf i r \<and> i < unwrap_or nx 1)
     \<and> (\<forall>x. unwrap_or (tv x) 0 = msum (locked_in x st)) \<and> unwrap_or tt 0 = msum (lock_amounts st) \<and> lg = tt"

lemma tier_apy_le: "tier_apy_bps t \<le> 3500" "duration_secs t \<le> 7776000"
  by (cases t; simp add: duration_secs_def)+

lemma tvl_adjusted_le: "tvl_adjusted_apy_bps b n m \<le> b"
proof -
  have "unwrap_or (u32_of (min k (int b))) b \<le> b" for k by (simp add: u32_of_def nat_le_iff)
  then show ?thesis by (simp add: tvl_adjusted_apy_bps_def Let_def)
qed

lemma accrued_eval:
  assumes "stake_wf i r"
  shows "\<exists>y. accrued_yield env (rs_amount r) (rs_apy_bps r) (rs_staked_at r) (duration_secs (rs_tier r)) = Some y \<and> 0 \<le> y \<and> y \<le> full_yield r"
proof -
  let ?e = "min (elapsed_since env (rs_staked_at r)) (duration_secs (rs_tier r))"
  have a: "0 \<le> rs_amount r" "rs_amount r \<le> int u32_max" "int (rs_apy_bps r) \<le> 3500" and e: "int ?e \<le> 7776000"
    using assms tier_apy_le[of "rs_tier r"] by (auto simp: stake_wf_def)
  have "rs_amount r * int (rs_apy_bps r) \<le> int u32_max * 3500" using a by (intro mult_mono) auto
  moreover have "rs_amount r * int (rs_apy_bps r) * int ?e \<le> int u32_max * 3500 * 7776000" by (rule mult_mono[OF calculation e]) auto
  moreover have z: "0 \<le> rs_amount r * int (rs_apy_bps r)" "0 \<le> rs_amount r * int (rs_apy_bps r) * int ?e" using a(1) by simp_all
  ultimately have r: "in_i128 (rs_amount r * int (rs_apy_bps r))" "in_i128 (rs_amount r * int (rs_apy_bps r) * int ?e)" unfolding in_i128_def by linarith+
  have "accrued_yield env (rs_amount r) (rs_apy_bps r) (rs_staked_at r) (duration_secs (rs_tier r)) = Some (rs_amount r * int (rs_apy_bps r) * int ?e div (10000 * 31536000))"
    using r z a(1) tdiv_nonneg[OF z(2) _ r(2), of 315360000000] by (simp add: accrued_yield_def simple_yield_def ck_def Let_def) (simp add: in_i128_def)
  moreover have "rs_amount r * int (rs_apy_bps r) * int ?e \<le> rs_amount r * int (rs_apy_bps r) * int (duration_secs (rs_tier r))" using z(1) by (intro mult_left_mono) auto
  ultimately show ?thesis using z(2) unfolding full_yield_def by (auto intro: zdiv_mono1)
qed

lemma due_bounds:
  assumes "stake_wf i r"
  shows "0 \<le> resource_yield_with env r" "rs_yield_claimed r + resource_yield_with env r \<le> full_yield r"
proof -
  obtain y where y: "accrued_yield env (rs_amount r) (rs_apy_bps r) (rs_staked_at r) (duration_secs (rs_tier r)) = Some y" "0 \<le> y" "y \<le> full_yield r"
    using accrued_eval[OF assms] by blast
  have c: "0 \<le> rs_yield_claimed r" "rs_yield_claimed r \<le> full_yield r" using assms by (auto simp: stake_wf_def)
  show "0 \<le> resource_yield_with env r" by (simp add: resource_yield_with_def)
  have "sat d \<le> max d 0" for d unfolding sat_def by linarith
  from this[of "y - rs_yield_claimed r"] show "rs_yield_claimed r + resource_yield_with env r \<le> full_yield r" using y c by (simp add: resource_yield_with_def max_def split: if_splits)
qed

lemma locked_upd: "locked_in x (st(i \<mapsto> r)) = (if rs_asset_id r = x then (locked_in x st)(i \<mapsto> rs_amount r) else (locked_in x st)(i := None))"
    "locked_in x (st(i := None)) = (locked_in x st)(i := None)" "lock_amounts (st(i \<mapsto> r)) = (lock_amounts st)(i \<mapsto> rs_amount r)"
    "lock_amounts (st(i := None)) = (lock_amounts st)(i := None)"
  by (auto simp: locked_in_def lock_amounts_def)

lemma locked_finite: "finite (dom st) \<Longrightarrow> finite (dom (locked_in x st))" "finite (dom st) \<Longrightarrow> finite (dom (lock_amounts st))"
  by (auto simp: locked_in_def lock_amounts_def dom_def elim!: rev_finite_subset split: option.splits)

lemma locks_new:
  assumes ok: "locks_ok (st, nx, tv, tt, lg)" and wf: "stake_wf (unwrap_or nx 1) r"
  shows "locks_ok (st(unwrap_or nx 1 \<mapsto> r), Some (unwrap_or nx 1 + 1), tv(rs_asset_id r \<mapsto> unwrap_or (tv (rs_asset_id r)) 0 + rs_amount r),
    Some (unwrap_or tt 0 + rs_amount r), Some (unwrap_or tt 0 + rs_amount r))"
proof -
  let ?i = "unwrap_or nx 1"
  have fin: "finite (dom st)" and free: "st ?i = None" using ok by (auto, metis not_None_eq less_irrefl)
  have "locked_in x st ?i = None" "lock_amounts st ?i = None" for x using free by (simp_all add: locked_in_def lock_amounts_def)
  then have "msum ((locked_in x st)(?i \<mapsto> v)) = msum (locked_in x st) + v" "msum ((lock_amounts st)(?i \<mapsto> v)) = msum (lock_amounts st) + v"
      "msum ((locked_in x st)(?i := None)) = msum (locked_in x st)" for x v
    using msum_upd[OF locked_finite(1)[OF fin], of x ?i v] msum_upd[OF locked_finite(2)[OF fin], of ?i v] by (simp_all add: fun_upd_idem)
  then show ?thesis using ok wf by (simp add: locked_upd less_Suc_eq)
qed

lemma locks_drop:
  assumes ok: "locks_ok (st, nx, tv, tt, lg)" and r: "st i = Some r"
  shows "locks_ok (st(i := None), nx, tv(rs_asset_id r \<mapsto> unwrap_or (tv (rs_asset_id r)) 0 + - rs_amount r), Some (unwrap_or tt 0 + - rs_amount r), Some (unwrap_or tt 0 + - rs_amount r))"
proof -
  have fin: "finite (dom st)" using ok by simp
  have "msum ((locked_in x st)(i := None)) = msum (locked_in x st) - (if rs_asset_id r = x then rs_amount r else 0)" for x
    using msum_delete[OF locked_finite(1)[OF fin], of x i] r by (simp add: locked_in_def split: if_splits)
  moreover have "msum ((lock_amounts st)(i := None)) = msum (lock_amounts st) - rs_amount r"
    using msum_delete[OF locked_finite(2)[OF fin], of i] r by (simp add: lock_amounts_def)
  ultimately show ?thesis using ok by (simp add: locked_upd)
qed

lemma locks_same:
  assumes ok: "locks_ok (st, nx, tv, tt, lg)" and r: "st i = Some r" and q: "stake_wf i q" "rs_asset_id q = rs_asset_id r" "rs_amount q = rs_amount r"
  shows "locks_ok (st(i \<mapsto> q), nx, tv, tt, lg)"
proof -
  have "locked_in x (st(i \<mapsto> q)) = locked_in x st" "lock_amounts (st(i \<mapsto> q)) = lock_amounts st" for x
    using r q by (auto simp: locked_in_def lock_amounts_def)
  then show ?thesis using ok r q(1) by simp
qed

text \<open>\<open>books s s'\<close>: the call keeps the invariant, and the wallets, the reserve and the locked units of every asset add up to the same.\<close>

definition farm_inv :: "'a farm_store_scheme \<Rightarrow> bool" where
  "farm_inv s \<longleftrightarrow> funds_ok s \<and> locks_ok (lock_view s)"

definition books :: "'a farm_store_scheme \<Rightarrow> 'a farm_store_scheme \<Rightarrow> bool" where
  "books s s' \<longleftrightarrow> (farm_inv s \<longrightarrow> farm_inv s' \<and> (\<forall>x. funds x s' + get_tvl x s' = funds x s + get_tvl x s))"

lemma lock_view_eq: "lock_view s = (resource_stakes s, next_stake_id s, tvl s, tvl_total s, total_locked s)"
  by (simp add: farm_frame_def)

lemma share_view_eq: "share_view s = (lp_stakes s, lp_pools s, lp_balance s)"
  by (simp add: farm_frame_def)

lemma frame_tvl: "lock_view s' = lock_view s \<Longrightarrow> get_tvl x s' = get_tvl x s"
  by (simp add: farm_frame_def get_tvl_def)

lemma shifts_books: "shifts (\<lambda>_. 0) s s' \<Longrightarrow> books s s'"
  using frame_tvl[of s' s] by (simp add: shifts_def books_def farm_inv_def)

lemma books_trans: "books s t \<Longrightarrow> books t u \<Longrightarrow> books s u"
  by (simp add: books_def)

lemma books_lock:
  assumes "shifts d s t" and "funds_ok s' = funds_ok t" "\<And>x. funds x s' = funds x t"
    and "farm_inv s \<Longrightarrow> locks_ok (lock_view s')" and "\<And>x. get_tvl x s' + d x = get_tvl x t"
  shows "books s s'"
  unfolding books_def farm_inv_def
proof (intro impI conjI allI; (elim conjE)?)
  assume ok: "funds_ok s" "locks_ok (lock_view s)"
  show "funds_ok s'" using assms(1,2) ok by (simp add: shifts_def)
  show "locks_ok (lock_view s')" using assms(4) ok by (simp add: farm_inv_def)
  have "get_tvl x t = get_tvl x s" "funds x t = funds x s + d x" for x using assms(1) ok frame_tvl[of t s x] by (simp_all add: shifts_def)
  then show "funds x s' + get_tvl x s' = funds x s + get_tvl x s" for x using assms(3,5)[of x] by simp
qed

lemma adjust_tvl_Ok: "adjust_tvl x d s = (Ok u, s') \<Longrightarrow> s' = s\<lparr>tvl := (tvl s)(x \<mapsto> get_tvl x s + d), tvl_total := Some (unwrap_or (tvl_total s) 0 + d), total_locked := Some (unwrap_or (tvl_total s) 0 + d)\<rparr>"
  by (auto simp: adjust_tvl_def ok_rules)

lemma load_resource_Ok: "load_resource_stake p i s = Ok r \<longleftrightarrow> resource_stakes s i = Some r \<and> rs_owner r = p"
  by (auto simp: load_resource_stake_def get_resource_stake_def split: option.splits)

lemma funds_upd: "funds x (s\<lparr>resource_stakes := m\<rparr>) = funds x s" "funds_ok (s\<lparr>resource_stakes := m\<rparr>) = funds_ok s"
    "funds x (s\<lparr>next_stake_id := i\<rparr>) = funds x s" "funds_ok (s\<lparr>next_stake_id := i\<rparr>) = funds_ok s"
    "funds x (s\<lparr>tvl := v, tvl_total := w, total_locked := z\<rparr>) = funds x s" "funds_ok (s\<lparr>tvl := v, tvl_total := w, total_locked := z\<rparr>) = funds_ok s"
    "funds x (s\<lparr>nft_stake := n\<rparr>) = funds x s" "funds_ok (s\<lparr>nft_stake := n\<rparr>) = funds_ok s"
    "funds x (s\<lparr>nft_count := c\<rparr>) = funds x s" "funds_ok (s\<lparr>nft_count := c\<rparr>) = funds_ok s"
    "funds x (s\<lparr>farm_slots := f\<rparr>) = funds x s" "funds_ok (s\<lparr>farm_slots := f\<rparr>) = funds_ok s"
    "funds x (s\<lparr>next_pid := i\<rparr>) = funds x s" "funds_ok (s\<lparr>next_pid := i\<rparr>) = funds_ok s"
    "funds x (s\<lparr>lp_stakes := k\<rparr>) = funds x s" "funds_ok (s\<lparr>lp_stakes := k\<rparr>) = funds_ok s"
    "funds x (s\<lparr>lp_pools := l\<rparr>) = funds x s" "funds_ok (s\<lparr>lp_pools := l\<rparr>) = funds_ok s"
    "funds x (s\<lparr>lp_balance := b\<rparr>) = funds x s" "funds_ok (s\<lparr>lp_balance := b\<rparr>) = funds_ok s"
    "funds x (s\<lparr>tvl_target := y\<rparr>) = funds x s" "funds_ok (s\<lparr>tvl_target := y\<rparr>) = funds_ok s"
    "funds x (s\<lparr>nft_yield_asset := a\<rparr>) = funds x s" "funds_ok (s\<lparr>nft_yield_asset := a\<rparr>) = funds_ok s"
  by (simp_all add: funds_def funds_ok_def get_yield_reserve_def)

lemma stake_resource_Ok:
  assumes "stake_resource env p x n tier s = (Ok i, s')"
  shows "books s s'" "share_view s' = share_view s"
proof -
  let ?r = "\<lambda>t::'a farm_store_scheme. \<lparr>rs_id = unwrap_or (next_stake_id t) 1, rs_owner = p, rs_asset_id = x, rs_amount = int n, rs_tier = tier,
      rs_apy_bps = tvl_adjusted_apy_bps (tier_apy_bps tier) (get_tvl x t) (get_tvl_target t), rs_staked_at = timestamp env,
      rs_unlock_at = saturating_add u64_max (timestamp env) (duration_secs tier), rs_yield_claimed = 0\<rparr>"
  let ?s1 = "\<lambda>t::'a farm_store_scheme. t\<lparr>resource_stakes := (resource_stakes t)(unwrap_or (next_stake_id t) 1 \<mapsto> ?r t), next_stake_id := Some (unwrap_or (next_stake_id t) 1 + 1)\<rparr>"
  from assms obtain t w e where n: "n \<noteq> 0" and t: "farm_debit p x (int n) s = (Ok (), t)" and w: "adjust_tvl x (int n) (?s1 t) = (Ok (), w)" and s': "s' = publish [SS ''stake'', SS ''res_lock''] e w"
    by (auto simp: stake_resource_def ok_rules Let_def and_then_Ok)
  note d = farm_debit_Ok[OF t] and w' = adjust_tvl_Ok[OF w]
  have wf: "stake_wf (unwrap_or (next_stake_id t) 1) (?r t)" using n d(3) tvl_adjusted_le
    by (auto simp: stake_wf_def full_yield_def pos_imp_zdiv_nonneg_iff)
  have lv: "lock_view t = lock_view s" using d(1) by (simp add: shifts_def)
  show "books s s'"
  proof (rule books_lock[OF d(1)])
    show "funds_ok s' = funds_ok t" "funds y s' = funds y t" for y unfolding s' w' by (simp_all add: funds_upd)
    show "get_tvl y s' + at x (- int n) y = get_tvl y t" for y unfolding s' w' by (simp add: get_tvl_def)
    assume "farm_inv s"
    then have "locks_ok (lock_view t)" using lv by (simp add: farm_inv_def)
    from locks_new[OF this[unfolded lock_view_eq] wf] show "locks_ok (lock_view s')" unfolding s' w' lock_view_eq by (simp add: get_tvl_def publish_def)
  qed
  have "share_view s' = share_view t" unfolding s' w' by (simp add: share_view_eq publish_def)
  then show "share_view s' = share_view s" using d(1) by (simp add: shifts_def)
qed

lemma claim_resource_Ok:
  assumes "claim_resource_yield env p i s = (Ok d, s')"
  shows "books s s'" "share_view s' = share_view s"
proof -
  from assms obtain r where r: "resource_stakes s i = Some r" by (auto simp: claim_resource_yield_def ok_rules and_then_Ok load_resource_Ok)
  have "books s s' \<and> share_view s' = share_view s"
  proof (cases "resource_yield_with env r = 0")
    case True
    then show ?thesis using assms r by (auto simp: claim_resource_yield_def ok_rules and_then_Ok load_resource_Ok books_def)
  next
    case False
    let ?q = "r\<lparr>rs_yield_claimed := sat (rs_yield_claimed r + resource_yield_with env r)\<rparr>"
    from False assms r obtain t e where t: "pay_yield p (rs_asset_id r) (resource_yield_with env r) s = (Ok (), t)"
        and s': "s' = publish [SS ''stake'', SS ''res_yld''] e (t\<lparr>resource_stakes := (resource_stakes t)(i \<mapsto> ?q)\<rparr>)"
      by (auto simp: claim_resource_yield_def ok_rules and_then_Ok load_resource_Ok Let_def)
    note d = pay_yield_Ok[OF t]
    have lv: "farm_frame t = farm_frame s" using d by (simp add: shifts_def)
    have "books s s'"
    proof (rule books_lock[OF d])
      show "funds_ok s' = funds_ok t" "funds y s' = funds y t" "get_tvl y s' + 0 = get_tvl y t" for y unfolding s' by (simp_all add: funds_upd get_tvl_def)
      assume "farm_inv s"
      then have ok: "locks_ok (lock_view t)" using lv by (simp add: farm_inv_def)
      have rt: "resource_stakes t i = Some r" using lv r by (simp add: farm_frame_def)
      have wf: "stake_wf i r" using ok rt unfolding lock_view_eq by simp
      have "stake_wf i ?q"
      proof -
        have "0 \<le> sat k \<and> sat k \<le> k" if "0 \<le> k" for k using that unfolding sat_def by linarith
        from this[of "rs_yield_claimed r + resource_yield_with env r"] show ?thesis
          using wf due_bounds[OF wf, of env] by (simp add: stake_wf_def full_yield_def)
      qed
      from locks_same[OF ok[unfolded lock_view_eq] rt this] show "locks_ok (lock_view s')" unfolding s' lock_view_eq by (simp add: publish_def)
    qed
    moreover have "share_view s' = share_view t" unfolding s' by (simp add: share_view_eq publish_def)
    ultimately show ?thesis using lv by simp
  qed
  then show "books s s'" "share_view s' = share_view s" by simp_all
qed

lemma books_drop:
  assumes r: "resource_stakes t i = Some r" and w: "adjust_tvl (rs_asset_id r) (- rs_amount r) (t\<lparr>resource_stakes := (resource_stakes t)(i := None)\<rparr>) = (Ok v, w)"
    and u: "shifts (at (rs_asset_id r) (rs_amount r)) w u"
  shows "books t u" "share_view u = share_view t"
proof -
  let ?y = "rs_asset_id r"
  note w' = adjust_tvl_Ok[OF w]
  have fw: "funds_ok w = funds_ok t" "funds x w = funds x t" for x unfolding w' by (simp_all add: funds_upd)
  have tv: "get_tvl x u = get_tvl x w" "get_tvl x w + at ?y (rs_amount r) x = get_tvl x t" for x
    using u frame_tvl[of u w x] unfolding w' shifts_def by (simp_all add: get_tvl_def)
  show "books t u" unfolding books_def farm_inv_def
  proof (intro impI conjI allI; (elim conjE)?)
    assume ok: "funds_ok t" "locks_ok (lock_view t)"
    show "funds_ok u" using u ok fw by (simp add: shifts_def)
    have "locks_ok (lock_view w)" using locks_drop[OF ok(2)[unfolded lock_view_eq] r] unfolding w' lock_view_eq by (simp add: get_tvl_def)
    then show "locks_ok (lock_view u)" using u by (simp add: shifts_def)
    have "funds x u = funds x t + at ?y (rs_amount r) x" for x using u ok fw by (simp add: shifts_def)
    then show "funds x u + get_tvl x u = funds x t + get_tvl x t" for x using tv[of x] by simp
  qed
  have "share_view w = share_view t" unfolding w' by (simp add: share_view_eq)
  then show "share_view u = share_view t" using u by (simp add: shifts_def)
qed

lemma unstake_inner_Ok:
  assumes "unstake_resource_inner env p i s = (Ok d, s')"
  shows "books s s'" "share_view s' = share_view s"
    "\<exists>r. resource_stakes s i = Some r \<and> rs_owner r = p \<and> rs_unlock_at r \<le> timestamp env \<and> d = sat (rs_amount r + resource_yield_with env r)"
proof -
  from assms obtain r t w u e where r: "resource_stakes s i = Some r" "rs_owner r = p" "rs_unlock_at r \<le> timestamp env" "d = sat (rs_amount r + resource_yield_with env r)"
      and t: "pay_yield p (rs_asset_id r) (resource_yield_with env r) s = (Ok (), t)"
      and w: "adjust_tvl (rs_asset_id r) (- rs_amount r) (t\<lparr>resource_stakes := (resource_stakes t)(i := None)\<rparr>) = (Ok (), w)"
      and u: "farm_credit p (rs_asset_id r) (rs_amount r) w = (Ok (), u)" and s': "s' = publish [SS ''stake'', SS ''res_out''] e u"
    by (auto simp: unstake_resource_inner_def ok_rules and_then_Ok load_resource_Ok Let_def)
  note d = pay_yield_Ok[OF t]
  have rt: "resource_stakes t i = Some r" using d r(1) by (simp add: shifts_def farm_frame_def)
  note dr = books_drop[OF rt w farm_credit_Ok(1)[OF u]]
  have "books s u" using books_trans[OF shifts_books[OF d] dr(1)] .
  then show "books s s'" unfolding s' by (simp add: books_def farm_inv_def)
  show "share_view s' = share_view s" using d dr(2) unfolding s' by (simp add: shifts_def)
  show "\<exists>r. resource_stakes s i = Some r \<and> rs_owner r = p \<and> rs_unlock_at r \<le> timestamp env \<and> d = sat (rs_amount r + resource_yield_with env r)" using r by blast
qed

lemma emergency_Ok:
  assumes "emergency_unstake_resource env p i s = (Ok d, s')"
  shows "books s s'" "share_view s' = share_view s"
proof -
  from assms obtain r where r: "resource_stakes s i = Some r" "rs_owner r = p" by (auto simp: emergency_unstake_resource_def ok_rules and_then_Ok load_resource_Ok)
  have "books s s' \<and> share_view s' = share_view s"
  proof (cases "rs_unlock_at r \<le> timestamp env")
    case True
    then obtain v where "unstake_resource_inner env p i s = (Ok v, s')"
      using assms r by (auto simp: emergency_unstake_resource_def ok_rules and_then_Ok load_resource_Ok)
    then show ?thesis using unstake_inner_Ok by blast
  next
    case False
    from False assms r obtain a b w u v e where ab: "emergency_withdrawal (rs_amount r) = Some (a, b)"
      and w: "adjust_tvl (rs_asset_id r) (- rs_amount r) (s\<lparr>resource_stakes := (resource_stakes s)(i := None)\<rparr>) = (Ok (), w)"
      and u: "add_to_reserve (rs_asset_id r) b w = (Ok (), u)" and v: "farm_credit p (rs_asset_id r) a u = (Ok (), v)" and s': "s' = publish [SS ''stake'', SS ''res_emrg''] e v"
      by (auto simp: emergency_unstake_resource_def ok_rules and_then_Ok load_resource_Ok Let_def)
    have "books s v \<and> share_view v = share_view s" if inv: "farm_inv s"
    proof -
      have "stake_wf i r" using inv r(1) unfolding farm_inv_def lock_view_eq by simp
      then have sum: "a + b = rs_amount r" "0 \<le> b" using emergency_eval[of "rs_amount r"] ab by (auto simp: stake_wf_def)
      have "shifts (at (rs_asset_id r) (rs_amount r)) w v"
        using shifts_trans[OF add_to_reserve_Ok[OF u sum(2)] farm_credit_Ok(1)[OF v]] sum(1) by (simp add: fun_upd_def if_distrib add.commute cong: if_cong)
      then show ?thesis using books_drop[OF r(1) w] by blast
    qed
    moreover have "share_view v = share_view s"
      using adjust_tvl_Ok[OF w] u farm_credit_Ok(3)[OF v] by (auto simp: add_to_reserve_def ok_rules share_view_eq)
    ultimately show ?thesis unfolding s' by (auto simp: books_def farm_inv_def)
  qed
  then show "books s s'" "share_view s' = share_view s" by simp_all
qed

section \<open>Liquidity shares\<close>

type_synonym shares = "(u64 \<times> address \<rightharpoonup> LpStake) \<times> (u64 \<rightharpoonup> LpPoolState) \<times> (u64 \<times> address \<rightharpoonup> i128)"

definition staked_of :: "u64 \<Rightarrow> (u64 \<times> address \<rightharpoonup> LpStake) \<Rightarrow> (address \<rightharpoonup> i128)" where
  "staked_of i ks = (\<lambda>a. map_option ls_amount (ks (i, a)))"

fun shares_ok :: "shares \<Rightarrow> bool" where
  "shares_ok (ks, ps, bal) \<longleftrightarrow> (\<forall>i. finite (dom (\<lambda>a. ks (i, a))) \<and> finite (dom (\<lambda>a. bal (i, a))) \<and> (\<forall>a k. ks (i, a) = Some k \<longrightarrow> 0 < ls_amount k)
     \<and> (case ps i of None \<Rightarrow> (\<forall>a. ks (i, a) = None) | Some st \<Rightarrow> lps_total_staked st = msum (staked_of i ks) \<and> 0 \<le> lps_il_pot st))"

fun share_units :: "u64 \<Rightarrow> shares \<Rightarrow> int" where
  "share_units i (ks, ps, bal) = msum (\<lambda>a. bal (i, a)) + msum (staked_of i ks)"

definition keeps_shares :: "shares \<Rightarrow> shares \<Rightarrow> bool" where
  "keeps_shares v v' \<longleftrightarrow> (shares_ok v \<longrightarrow> shares_ok v' \<and> (\<forall>i. share_units i v' = share_units i v))"

lemma keeps_shares_refl [simp]: "keeps_shares v v"
  by (simp add: keeps_shares_def)

lemma msum_set:
  fixes m :: "'k \<rightharpoonup> int"
  assumes "finite (dom m)"
  shows "msum (m(a := v)) = msum m - unwrap_or (m a) 0 + unwrap_or v 0"
proof (cases v)
  case None
  then show ?thesis using msum_delete[OF assms, of a] by simp
next
  case (Some w)
  then show ?thesis using msum_upd[OF assms, of a w] by simp
qed

lemma staked_upd: "staked_of j (ks((i, a) := q)) = (if j = i then (staked_of j ks)(a := map_option ls_amount q) else staked_of j ks)"
  by (auto simp: staked_of_def)

lemma column_upd: "(\<lambda>b. (m((i, a) := q)) (j, b)) = (if j = i then (\<lambda>b. m (j, b))(a := q) else (\<lambda>b. m (j, b)))"
  by auto

lemma staked_finite: "finite (dom (\<lambda>a. ks (i, a))) \<Longrightarrow> finite (dom (staked_of i ks))"
  by (auto simp: staked_of_def dom_def elim!: rev_finite_subset)

lemma shares_move:
  assumes ok: "shares_ok (ks, ps, bal)" and st: "lps_total_staked st = msum (staked_of i ks) + d" "0 \<le> lps_il_pot st"
    and q: "unwrap_or (map_option ls_amount q) 0 = unwrap_or (staked_of i ks a) 0 + d" "\<And>k. q = Some k \<Longrightarrow> 0 < ls_amount k"
  shows "shares_ok (ks((i, a) := q), ps(i \<mapsto> st), bal((i, a) \<mapsto> unwrap_or (bal (i, a)) 0 - d))
    \<and> share_units j (ks((i, a) := q), ps(i \<mapsto> st), bal((i, a) \<mapsto> unwrap_or (bal (i, a)) 0 - d)) = share_units j (ks, ps, bal)"
proof -
  have fin: "finite (dom (\<lambda>a. ks (j, a)))" "finite (dom (\<lambda>a. bal (j, a)))" for j using ok by simp_all
  have m: "msum ((staked_of i ks)(a := map_option ls_amount q)) = msum (staked_of i ks) + d"
    using msum_set[OF staked_finite[OF fin(1)], of i a "map_option ls_amount q"] q(1) by simp
  have b: "msum ((\<lambda>b. bal (i, b))(a \<mapsto> unwrap_or (bal (i, a)) 0 - d)) = msum (\<lambda>b. bal (i, b)) - d"
    using msum_set[OF fin(2), of i a "Some (unwrap_or (bal (i, a)) 0 - d)"] by simp
  have "finite (dom (\<lambda>b. (ks((i, a) := q)) (j, b)))" "finite (dom (\<lambda>b. (bal((i, a) \<mapsto> unwrap_or (bal (i, a)) 0 - d)) (j, b)))" for j
    unfolding column_upd using fin by (cases q; simp)+
  moreover have "0 < ls_amount k" if "(ks((i, a) := q)) (j, b) = Some k" for j b k using that ok q(2) by (auto split: if_splits)
  moreover have "case (ps(i \<mapsto> st)) j of None \<Rightarrow> (\<forall>b. (ks((i, a) := q)) (j, b) = None) | Some u \<Rightarrow> lps_total_staked u = msum (staked_of j (ks((i, a) := q))) \<and> 0 \<le> lps_il_pot u" for j
  proof (cases "j = i")
    case True
    then show ?thesis using st m by (simp add: staked_upd)
  next
    case False
    moreover from ok have "case ps j of None \<Rightarrow> (\<forall>b. ks (j, b) = None) | Some u \<Rightarrow> lps_total_staked u = msum (staked_of j ks) \<and> 0 \<le> lps_il_pot u" by simp
    ultimately show ?thesis by (simp add: staked_upd split: option.splits)
  qed
  ultimately have "shares_ok (ks((i, a) := q), ps(i \<mapsto> st), bal((i, a) \<mapsto> unwrap_or (bal (i, a)) 0 - d))" unfolding shares_ok.simps by blast
  moreover have "share_units j (ks((i, a) := q), ps(i \<mapsto> st), bal((i, a) \<mapsto> unwrap_or (bal (i, a)) 0 - d)) = share_units j (ks, ps, bal)"
    unfolding share_units.simps column_upd staked_upd using m b by simp
  ultimately show ?thesis by blast
qed

lemma shares_same_stake:
  assumes ok: "shares_ok (ks, ps, bal)" and k: "ks (i, a) = Some k" "ls_amount k' = ls_amount k"
  shows "shares_ok (ks((i, a) \<mapsto> k'), ps, bal) \<and> share_units j (ks((i, a) \<mapsto> k'), ps, bal) = share_units j (ks, ps, bal)"
proof -
  have 1: "staked_of j (ks((i, a) \<mapsto> k')) = staked_of j ks" for j using k by (auto simp: staked_of_def)
  have 2: "dom (\<lambda>b. (ks((i, a) \<mapsto> k')) (j, b)) = dom (\<lambda>b. ks (j, b))" for j using k(1) by (auto split: if_splits)
  have 3: "(\<forall>b. (ks((i, a) \<mapsto> k')) (j, b) = None) = (\<forall>b. ks (j, b) = None)" for j using k(1) by (auto split: if_splits)
  have "0 < ls_amount k'" using ok k by simp
  then have "0 < ls_amount q" if "(ks((i, a) \<mapsto> k')) (j, b) = Some q" for j b q using that ok by (auto split: if_splits)
  then show ?thesis using ok unfolding shares_ok.simps share_units.simps 1 2 3 by blast
qed

lemma pool_state_Ok:
  assumes "pool_state_or_init i s = Ok st" "shares_ok (share_view s)"
  shows "lps_total_staked st = msum (staked_of i (lp_stakes s)) \<and> 0 \<le> lps_il_pot st"
proof -
  have c: "case lp_pools s i of None \<Rightarrow> (\<forall>a. lp_stakes s (i, a) = None) | Some u \<Rightarrow> lps_total_staked u = msum (staked_of i (lp_stakes s)) \<and> 0 \<le> lps_il_pot u"
    using assms(2) unfolding share_view_eq shares_ok.simps by blast
  show ?thesis
  proof (cases "lp_pools s i")
    case None
    then have "staked_of i (lp_stakes s) = Map.empty" using c by (simp add: staked_of_def)
    then show ?thesis using None assms(1) by (auto simp: pool_state_or_init_def get_lp_pool_state_def split: option.splits)
  next
    case (Some q)
    then show ?thesis using c assms(1) by (simp add: pool_state_or_init_def get_lp_pool_state_def)
  qed
qed

lemma move_lp_Ok: "move_lp i a d s = (Ok u, s') \<Longrightarrow> s' = s\<lparr>lp_balance := (lp_balance s)((i, a) \<mapsto> unwrap_or (lp_balance s (i, a)) 0 + d)\<rparr>"
  by (auto simp: move_lp_def Let_def ok_rules split: if_splits)

lemma books_locks_same: "lock_view s' = lock_view s \<Longrightarrow> funds_ok s' = funds_ok s \<Longrightarrow> (\<And>x. funds x s' = funds x s) \<Longrightarrow> books s s'"
  using frame_tvl[of s' s] by (simp add: books_def farm_inv_def)

lemma enlarged_Ok:
  assumes "enlarged_stake env p i n st s = (Ok k, s')"
  shows "shifts (\<lambda>_. 0) s s' \<and> ls_amount k = unwrap_or (staked_of i (lp_stakes s) p) 0 + n"
proof (cases "lp_stakes s (i, p)")
  case None
  then show ?thesis using assms by (auto simp: enlarged_stake_def get_lp_stake_def staked_of_def ok_rules and_then_Ok intro: shifts_same)
next
  case (Some e)
  then show ?thesis using assms by (auto simp: enlarged_stake_def get_lp_stake_def staked_of_def ok_rules and_then_Ok Let_def dest: pay_yield_Ok)
qed

lemma stake_lp_Ok:
  assumes "stake_lp env p i n s = (Ok k, s')"
  shows "books s s'" "keeps_shares (share_view s) (share_view s')"
proof -
  from assms obtain st t u e where n: "0 < n" and st: "pool_state_or_init i s = Ok st" and t: "move_lp i p (- n) s = (Ok (), t)" and u: "enlarged_stake env p i n st t = (Ok k, u)"
      and s': "s' = publish [SS ''stake'', SS ''lp_lock''] e (u\<lparr>lp_stakes := (lp_stakes u)((i, p) \<mapsto> k), lp_pools := (lp_pools u)(i \<mapsto> st\<lparr>lps_total_staked := lps_total_staked st + n\<rparr>)\<rparr>)"
    by (auto simp: stake_lp_def ok_rules and_then_Ok Let_def)
  note t' = move_lp_Ok[OF t] and sh = enlarged_Ok[OF u, THEN conjunct1] and k = enlarged_Ok[OF u, THEN conjunct2]
  have "books s t" unfolding t' by (rule books_locks_same) (simp_all add: lock_view_eq funds_upd)
  moreover have "books u s'" unfolding s' by (rule books_locks_same) (simp_all add: lock_view_eq funds_upd)
  ultimately show "books s s'" using shifts_books[OF sh] books_trans by blast
  have fr: "farm_frame u = farm_frame t" using sh by (simp add: shifts_def)
  then have v: "share_view s' = ((lp_stakes s)((i, p) := Some k), (lp_pools s)(i \<mapsto> st\<lparr>lps_total_staked := lps_total_staked st + n\<rparr>), (lp_balance s)((i, p) \<mapsto> unwrap_or (lp_balance s (i, p)) 0 - n))"
    unfolding s' by (simp add: farm_frame_def t')
  show "keeps_shares (share_view s) (share_view s')" unfolding keeps_shares_def v
  proof (intro impI)
    assume ok: "shares_ok (share_view s)"
    have ok': "shares_ok (lp_stakes s, lp_pools s, lp_balance s)" using ok unfolding share_view_eq .
    have "0 \<le> unwrap_or (staked_of i (lp_stakes s) p) 0" using ok' by (cases "lp_stakes s (i, p)") (auto simp: staked_of_def intro: less_imp_le)
    then have "unwrap_or (map_option ls_amount (Some k)) 0 = unwrap_or (staked_of i (lp_stakes s) p) 0 + n" "0 < ls_amount k" using k n by (simp_all add: t')
    from shares_move[OF ok' _ _ this(1), of "st\<lparr>lps_total_staked := lps_total_staked st + n\<rparr>"] this(2) pool_state_Ok[OF st ok]
    show "shares_ok ((lp_stakes s)((i, p) := Some k), (lp_pools s)(i \<mapsto> st\<lparr>lps_total_staked := lps_total_staked st + n\<rparr>), (lp_balance s)((i, p) \<mapsto> unwrap_or (lp_balance s (i, p)) 0 - n))
      \<and> (\<forall>j. share_units j ((lp_stakes s)((i, p) := Some k), (lp_pools s)(i \<mapsto> st\<lparr>lps_total_staked := lps_total_staked st + n\<rparr>), (lp_balance s)((i, p) \<mapsto> unwrap_or (lp_balance s (i, p)) 0 - n)) = share_units j (share_view s))"
      unfolding share_view_eq by simp
  qed
qed

lemma shares_pool:
  assumes ok: "shares_ok (ks, ps, bal)" and st: "lps_total_staked st = msum (staked_of i ks)" "0 \<le> lps_il_pot st"
  shows "shares_ok (ks, ps(i \<mapsto> st), bal) \<and> share_units j (ks, ps(i \<mapsto> st), bal) = share_units j (ks, ps, bal)"
proof -
  have "case (ps(i \<mapsto> st)) j of None \<Rightarrow> (\<forall>b. ks (j, b) = None) | Some u \<Rightarrow> lps_total_staked u = msum (staked_of j ks) \<and> 0 \<le> lps_il_pot u" for j
  proof (cases "j = i")
    case False
    have "case ps j of None \<Rightarrow> (\<forall>b. ks (j, b) = None) | Some u \<Rightarrow> lps_total_staked u = msum (staked_of j ks) \<and> 0 \<le> lps_il_pot u" using ok by simp
    then show ?thesis using False by simp
  qed (use st in simp)
  then show ?thesis using ok unfolding shares_ok.simps by auto
qed

lemma fund_lp_Ok:
  assumes "fund_lp_rewards env p i n s = (Ok u, s')"
  shows "books s s'" "keeps_shares (share_view s) (share_view s')"
proof -
  from assms obtain st t w acc pot e where n: "n \<noteq> 0" and st: "pool_state_or_init i s = Ok st" and t: "farm_debit p (lps_reward_asset st) (int n) s = (Ok (), t)"
      and w: "add_to_reserve (lps_reward_asset st) (int n) t = (Ok (), w)" and pot: "pot = lps_il_pot st + (if lps_total_staked st > 0 then (int n * 2000) sdiv 10000 else int n)"
      and s': "s' = publish [SS ''stake'', SS ''lp_fund''] e (w\<lparr>lp_pools := (lp_pools w)(i \<mapsto> st\<lparr>lps_acc_reward_per_share := acc, lps_il_pot := pot\<rparr>)\<rparr>)"
    by (auto simp: fund_lp_rewards_def ok_rules and_then_Ok Let_def)
  have sh: "shifts (\<lambda>_. 0) s w" using shifts_trans[OF farm_debit_Ok(1)[OF t] add_to_reserve_Ok[OF w]] by (simp add: fun_upd_def if_distrib cong: if_cong)
  have "books w s'" unfolding s' by (rule books_locks_same) (simp_all add: lock_view_eq funds_upd)
  then show "books s s'" using shifts_books[OF sh] books_trans by blast
  have v: "share_view s' = (lp_stakes s, (lp_pools s)(i \<mapsto> st\<lparr>lps_acc_reward_per_share := acc, lps_il_pot := pot\<rparr>), lp_balance s)"
    using sh unfolding s' by (simp add: shifts_def farm_frame_def)
  show "keeps_shares (share_view s) (share_view s')" unfolding keeps_shares_def v
  proof (intro impI conjI allI)
    assume ok: "shares_ok (share_view s)"
    note ps = pool_state_Ok[OF st ok]
    have "0 \<le> pot" using ps unfolding pot by (simp add: sdiv_nonneg)
    then show "shares_ok (lp_stakes s, (lp_pools s)(i \<mapsto> st\<lparr>lps_acc_reward_per_share := acc, lps_il_pot := pot\<rparr>), lp_balance s)"
        "share_units j (lp_stakes s, (lp_pools s)(i \<mapsto> st\<lparr>lps_acc_reward_per_share := acc, lps_il_pot := pot\<rparr>), lp_balance s) = share_units j (share_view s)" for j
      using shares_pool[OF ok[unfolded share_view_eq], of "st\<lparr>lps_acc_reward_per_share := acc, lps_il_pot := pot\<rparr>" i] ps unfolding share_view_eq by simp_all
  qed
qed

lemma claim_lp_Ok:
  assumes "claim_lp_rewards env p i s = (Ok d, s')"
  shows "books s s'" "keeps_shares (share_view s) (share_view s')"
proof -
  from assms obtain st k where st: "lp_pools s i = Some st" and k: "lp_stakes s (i, p) = Some k"
    by (auto simp: claim_lp_rewards_def get_lp_pool_state_def get_lp_stake_def ok_rules)
  have "books s s' \<and> keeps_shares (share_view s) (share_view s')"
  proof (cases "pending_lp_reward k st = 0")
    case True
    then show ?thesis using assms st k by (auto simp: claim_lp_rewards_def get_lp_pool_state_def get_lp_stake_def ok_rules books_def)
  next
    case False
    let ?k = "k\<lparr>ls_reward_debt := lp_debt (ls_amount k) st\<rparr>"
    from False obtain t where t: "pay_yield p (lps_reward_asset st) (pending_lp_reward k st) s = (Ok (), t)" and s': "s' = t\<lparr>lp_stakes := (lp_stakes t)((i, p) \<mapsto> ?k)\<rparr>"
      using assms st k by (auto simp: claim_lp_rewards_def get_lp_pool_state_def get_lp_stake_def ok_rules Let_def and_then_Ok)
    note sh = pay_yield_Ok[OF t]
    have "books t s'" unfolding s' by (rule books_locks_same) (simp_all add: lock_view_eq funds_upd)
    then have "books s s'" using shifts_books[OF sh] books_trans by blast
    moreover have "share_view s' = ((lp_stakes s)((i, p) \<mapsto> ?k), lp_pools s, lp_balance s)" using sh unfolding s' by (simp add: shifts_def farm_frame_def)
    ultimately show ?thesis using shares_same_stake[of "lp_stakes s" "lp_pools s" "lp_balance s" i p k ?k] k by (simp add: keeps_shares_def share_view_eq)
  qed
  then show "books s s'" "keeps_shares (share_view s) (share_view s')" by simp_all
qed

lemma compensation_le: "il_compensation_with env k ratio pot = Some c \<Longrightarrow> 0 \<le> c \<and> c \<le> max pot 0"
  by (auto simp: il_compensation_with_def Let_def split: if_splits bind_splits)

lemma unstake_lp_Ok:
  assumes "unstake_lp env p i n s = (Ok d, s')"
  shows "books s s'" "keeps_shares (share_view s) (share_view s')"
proof -
  from assms obtain st k where n: "0 < n" and st: "lp_pools s i = Some st" and k: "lp_stakes s (i, p) = Some k" and le: "n \<le> ls_amount k"
    by (auto simp: unstake_lp_def get_lp_pool_state_def get_lp_stake_def ok_rules)
  let ?rest = "ls_amount k - n"
  let ?q = "if ?rest = 0 then None else Some (k\<lparr>ls_amount := ?rest, ls_reward_debt := lp_debt ?rest st\<rparr>)"
  from assms st k n le obtain t ratio c pot u w e where t: "pay_yield p (lps_reward_asset st) (pending_lp_reward k st) s = (Ok (), t)"
      and c: "il_compensation_with env (k\<lparr>ls_amount := n\<rparr>) ratio (lps_il_pot st) = Some c"
      and pot: "pot = (if c > 0 then lps_il_pot st - c else lps_il_pot st)"
      and u: "(if c > 0 then pay_yield p (lps_reward_asset st) c t else (Ok (), t)) = (Ok (), u)"
      and w: "move_lp i p n u = (Ok (), w)"
      and s': "s' = publish [SS ''stake'', SS ''lp_out''] e (w\<lparr>lp_stakes := (lp_stakes w)((i, p) := ?q),
          lp_pools := (lp_pools w)(i \<mapsto> st\<lparr>lps_il_pot := pot, lps_total_staked := lps_total_staked st - n\<rparr>)\<rparr>)"
    unfolding unstake_lp_def get_lp_pool_state_def get_lp_stake_def
    by (auto simp: ok_rules and_then_Ok Let_def ck_def split: if_splits option.splits)
  have "shifts (\<lambda>_. 0) t u" using u pay_yield_Ok shifts_same[of t t] by (auto split: if_splits)
  from shifts_trans[OF pay_yield_Ok[OF t] this] have sh: "shifts (\<lambda>_. 0) s u" by simp
  note w' = move_lp_Ok[OF w]
  have "books u s'" unfolding s' w' by (rule books_locks_same) (simp_all add: lock_view_eq funds_upd)
  then show "books s s'" using shifts_books[OF sh] books_trans by blast
  have v: "share_view s' = ((lp_stakes s)((i, p) := ?q), (lp_pools s)(i \<mapsto> st\<lparr>lps_il_pot := pot, lps_total_staked := lps_total_staked st - n\<rparr>),
      (lp_balance s)((i, p) \<mapsto> unwrap_or (lp_balance s (i, p)) 0 - (- n)))"
    using sh unfolding s' w' by (simp add: shifts_def farm_frame_def)
  show "keeps_shares (share_view s) (share_view s')" unfolding keeps_shares_def v
  proof (intro impI)
    assume ok: "shares_ok (share_view s)"
    have ps: "lps_total_staked st = msum (staked_of i (lp_stakes s))" "0 \<le> lps_il_pot st"
      using pool_state_Ok[OF _ ok, of i st] st by (simp_all add: pool_state_or_init_def get_lp_pool_state_def)
    have "0 \<le> pot" using compensation_le[OF c] ps(2) unfolding pot by auto
    moreover have "unwrap_or (map_option ls_amount ?q) 0 = unwrap_or (staked_of i (lp_stakes s) p) 0 + - n" using k by (simp add: staked_of_def)
    moreover have "0 < ls_amount x" if "?q = Some x" for x using that le by (auto split: if_splits)
    ultimately show "shares_ok ((lp_stakes s)((i, p) := ?q), (lp_pools s)(i \<mapsto> st\<lparr>lps_il_pot := pot, lps_total_staked := lps_total_staked st - n\<rparr>), (lp_balance s)((i, p) \<mapsto> unwrap_or (lp_balance s (i, p)) 0 - (- n)))
      \<and> (\<forall>j. share_units j ((lp_stakes s)((i, p) := ?q), (lp_pools s)(i \<mapsto> st\<lparr>lps_il_pot := pot, lps_total_staked := lps_total_staked st - n\<rparr>), (lp_balance s)((i, p) \<mapsto> unwrap_or (lp_balance s (i, p)) 0 - (- n))) = share_units j (share_view s))"
      using shares_move[OF ok[unfolded share_view_eq], of "st\<lparr>lps_il_pot := pot, lps_total_staked := lps_total_staked st - n\<rparr>" i "- n" ?q p] ps unfolding share_view_eq by simp
  qed
qed

section \<open>Steps\<close>

text \<open>The remaining calls move nothing between assets, locks and shares.\<close>

lemma load_nft_Ok: "load_nft_stake p i s = Ok n \<longleftrightarrow> nft_stake s i = Some n \<and> ns_owner n = p"
  by (auto simp: load_nft_stake_def get_ship_stake_def split: option.splits)

lemma neutral_upd: "farm_frame (s\<lparr>nft_stake := n\<rparr>) = farm_frame s" "farm_frame (s\<lparr>nft_count := c\<rparr>) = farm_frame s" "farm_frame (s\<lparr>farm_slots := f\<rparr>) = farm_frame s"
    "farm_frame (s\<lparr>next_pid := i\<rparr>) = farm_frame s" "farm_frame (s\<lparr>tvl_target := y\<rparr>) = farm_frame s" "farm_frame (s\<lparr>nft_yield_asset := a\<rparr>) = farm_frame s"
  by (simp_all add: farm_frame_def)

definition neutral :: "'a farm_store_scheme \<Rightarrow> 'a farm_store_scheme \<Rightarrow> bool" where
  "neutral s s' \<longleftrightarrow> books s s' \<and> share_view s' = share_view s"

lemma neutral_shifts: "shifts (\<lambda>_. 0) s t \<Longrightarrow> farm_frame s' = farm_frame t \<Longrightarrow> funds_ok s' = funds_ok t \<Longrightarrow> (\<And>x. funds x s' = funds x t) \<Longrightarrow> neutral s s'"
  using shifts_books[of s s'] by (simp add: neutral_def shifts_def)

lemmas neutral_same = neutral_shifts[OF shifts_same[OF refl refl refl]]

lemma fund_yield_neutral:
  assumes "fund_yield_reserve env p x n s = (Ok d, s')"
  shows "neutral s s'"
proof -
  from assms obtain t e where t: "farm_debit p x (int n) s = (Ok (), t)" and s': "s' = publish [SS ''stake'', SS ''fund''] e (t\<lparr>yield_reserve := (yield_reserve t)(x \<mapsto> get_yield_reserve x t + int n)\<rparr>)"
    by (auto simp: fund_yield_reserve_def ok_rules and_then_Ok Let_def)
  have "shifts (at x (int n)) t (t\<lparr>yield_reserve := (yield_reserve t)(x \<mapsto> get_yield_reserve x t + int n)\<rparr>)" by (rule shifts_reserve) simp
  from shifts_trans[OF farm_debit_Ok(1)[OF t] this]
  have "shifts (\<lambda>_. 0) s (t\<lparr>yield_reserve := (yield_reserve t)(x \<mapsto> get_yield_reserve x t + int n)\<rparr>)" by (simp add: fun_upd_def if_distrib cong: if_cong)
  then show ?thesis by (rule neutral_shifts) (simp_all add: s')
qed

lemma ship_stake_neutral: "stake_ship env p i s = (Ok n, s') \<Longrightarrow> neutral s s'"
  by (auto simp: stake_ship_def ok_rules and_then_Ok Let_def set_nft_count_def neutral_upd funds_upd intro!: neutral_same)

lemma ship_claim_neutral:
  assumes "claim_ship_yield env p i s = (Ok d, s')"
  shows "neutral s s'"
proof -
  from assms obtain n where n: "nft_stake s i = Some n" "ns_owner n = p" by (auto simp: claim_ship_yield_def ok_rules and_then_Ok load_nft_Ok)
  show ?thesis
  proof (cases "nft_yield_with env n = 0")
    case True
    then show ?thesis using assms n by (auto simp: claim_ship_yield_def ok_rules and_then_Ok load_nft_Ok intro: neutral_same)
  next
    case False
    then show ?thesis using assms n
      by (auto simp: claim_ship_yield_def ok_rules and_then_Ok load_nft_Ok Let_def neutral_upd funds_upd dest!: pay_yield_Ok intro: neutral_shifts)
  qed
qed

lemma ship_out_neutral: "unstake_ship env p i s = (Ok d, s') \<Longrightarrow> neutral s s'"
  by (auto simp: unstake_ship_def ok_rules and_then_Ok load_nft_Ok Let_def set_nft_count_def neutral_upd funds_upd dest!: pay_yield_Ok intro: neutral_shifts)

definition only_slots :: "'a farm_store_scheme \<Rightarrow> 'a farm_store_scheme \<Rightarrow> bool" where
  "only_slots s s' \<longleftrightarrow> farm_frame s' = farm_frame s \<and> resource_bal s' = resource_bal s \<and> yield_reserve s' = yield_reserve s"

lemma only_slots_neutral: "only_slots s s' \<Longrightarrow> neutral s s'"
  by (rule neutral_shifts[OF shifts_same]) (auto simp: only_slots_def)

lemma only_slots_upd: "only_slots s s" "only_slots s (s\<lparr>farm_slots := f\<rparr>)" "only_slots s (publish t d (s\<lparr>farm_slots := f\<rparr>))" "only_slots s (publish t d (s\<lparr>farm_slots := f, next_pid := n\<rparr>))"
    "only_slots s (s\<lparr>tvl_target := y\<rparr>)" "only_slots s (s\<lparr>nft_yield_asset := a\<rparr>)"
  by (simp_all add: only_slots_def neutral_upd publish_def farm_frame_def)

lemma only_slots_trans: "only_slots s t \<Longrightarrow> only_slots t u \<Longrightarrow> only_slots s u"
  by (simp add: only_slots_def)

lemma setter_only_slots:
  "deposit_to_pool env p n l s = (Ok i, s') \<Longrightarrow> only_slots s s'"
  "deposit_to_pool_v2 env p n l apy rs c s = (Ok i, s') \<Longrightarrow> only_slots s s'"
  "entry_set_tvl_target env p y s = (Ok u, s') \<Longrightarrow> only_slots s s'"
  "entry_set_nft_yield_asset env p x s = (Ok u, s') \<Longrightarrow> only_slots s s'"
  by (auto simp: deposit_to_pool_def deposit_to_pool_v2_def entry_set_tvl_target_def entry_set_nft_yield_asset_def
      require_staking_admin_def set_tvl_target_def set_nft_yield_asset_def ok_rules and_then_Ok Let_def only_slots_upd)

lemma load_pool_Ok: "load_pool i s = Ok q \<longleftrightarrow> farm_slots s i = Some (SlotV1 q)" "load_pool_v2 i s = Ok r \<longleftrightarrow> farm_slots s i = Some (SlotV2 r)"
  by (auto simp: load_pool_def load_pool_v2_def split: option.splits farm_slot.splits)

lemma harvest_Ok:
  assumes "harvest_farm_rewards env p i s = (Ok d, s')"
  shows "only_slots s s' \<and> (\<exists>q. farm_slots s i = Some (SlotV1 q) \<and> fp_owner q = p \<and> (timestamp env \<le> fp_last_harvest q \<longrightarrow> d = 0)
    \<and> (fp_last_harvest q < timestamp env \<longrightarrow> calculate_farm_reward (fp_amount q) (timestamp env - fp_last_harvest q) BASE_APY_BPS = Some d
        \<and> farm_slots s' = (farm_slots s)(i \<mapsto> SlotV1 (q\<lparr>fp_last_harvest := timestamp env\<rparr>))))"
proof -
  from assms obtain q where q: "farm_slots s i = Some (SlotV1 q)" "fp_owner q = p" by (auto simp: harvest_farm_rewards_def ok_rules and_then_Ok load_pool_Ok)
  show ?thesis
  proof (cases "timestamp env \<le> fp_last_harvest q")
    case True
    then show ?thesis using assms q by (auto simp: harvest_farm_rewards_def ok_rules and_then_Ok load_pool_Ok saturating_sub_def only_slots_upd)
  next
    case False
    then have "timestamp env - fp_last_harvest q \<noteq> 0" by simp
    then show ?thesis using assms q False
      by (auto simp: harvest_farm_rewards_def ok_rules and_then_Ok load_pool_Ok saturating_sub_def only_slots_upd Let_def publish_def[of _ _ "farm_slots_update _ _"] intro: only_slots_upd)
        (simp_all add: only_slots_def farm_frame_def)
  qed
qed

lemma harvest_v2_Ok:
  assumes "harvest_v2_rewards env p i s = (Ok d, s')"
  shows "only_slots s s'"
proof -
  from assms obtain q where q: "farm_slots s (i + V2_OFFSET) = Some (SlotV2 q)" "fv_owner q = p" "i + V2_OFFSET \<le> u64_max" by (auto simp: harvest_v2_rewards_def ok_rules and_then_Ok load_pool_Ok)
  show ?thesis
  proof (cases "timestamp env - fv_last_harvest q = 0")
    case True
    then show ?thesis using assms q by (auto simp: harvest_v2_rewards_def ok_rules and_then_Ok load_pool_Ok saturating_sub_def only_slots_upd)
  next
    case False
    then show ?thesis using assms q by (auto simp: harvest_v2_rewards_def ok_rules and_then_Ok load_pool_Ok saturating_sub_def only_slots_upd Let_def)
  qed
qed

lemma withdraw_only_slots:
  "withdraw_from_pool env p i s = (Ok d, s') \<Longrightarrow> only_slots s s'"
  "withdraw_v2_with_penalty env p i s = (Ok d, s') \<Longrightarrow> only_slots s s'"
  by (auto simp: withdraw_from_pool_def withdraw_v2_with_penalty_def ok_rules and_then_Ok Let_def dest!: harvest_Ok harvest_v2_Ok intro: only_slots_trans only_slots_upd)

inductive farm_step :: "env \<Rightarrow> 'a farm_store_scheme \<Rightarrow> 'a farm_store_scheme \<Rightarrow> bool" where
  deposit: "commits (deposit_to_pool env p n l) s s' \<Longrightarrow> farm_step env s s'"
| deposit_v2: "commits (deposit_to_pool_v2 env p n l apy rs c) s s' \<Longrightarrow> farm_step env s s'"
| harvest: "commits (harvest_farm_rewards env p i) s s' \<Longrightarrow> farm_step env s s'"
| harvest_v2: "commits (harvest_v2_rewards env p i) s s' \<Longrightarrow> farm_step env s s'"
| withdraw: "commits (withdraw_from_pool env p i) s s' \<Longrightarrow> farm_step env s s'"
| withdraw_v2: "commits (withdraw_v2_with_penalty env p i) s s' \<Longrightarrow> farm_step env s s'"
| target: "commits (entry_set_tvl_target env p y) s s' \<Longrightarrow> farm_step env s s'"
| yield_asset: "commits (entry_set_nft_yield_asset env p x) s s' \<Longrightarrow> farm_step env s s'"
| fund: "commits (fund_yield_reserve env p x n) s s' \<Longrightarrow> farm_step env s s'"
| lock: "commits (stake_resource env p x n tier) s s' \<Longrightarrow> farm_step env s s'"
| claim: "commits (claim_resource_yield env p i) s s' \<Longrightarrow> farm_step env s s'"
| unlock: "commits (unstake_resource env p i) s s' \<Longrightarrow> farm_step env s s'"
| emergency: "commits (emergency_unstake_resource env p i) s s' \<Longrightarrow> farm_step env s s'"
| ship: "commits (stake_ship env p i) s s' \<Longrightarrow> farm_step env s s'"
| ship_yield: "commits (claim_ship_yield env p i) s s' \<Longrightarrow> farm_step env s s'"
| ship_out: "commits (unstake_ship env p i) s s' \<Longrightarrow> farm_step env s s'"
| lp_in: "commits (stake_lp env p i n) s s' \<Longrightarrow> farm_step env s s'"
| lp_fund: "commits (fund_lp_rewards env p i n) s s' \<Longrightarrow> farm_step env s s'"
| lp_claim: "commits (claim_lp_rewards env p i) s s' \<Longrightarrow> farm_step env s s'"
| lp_out: "commits (unstake_lp env p i n) s s' \<Longrightarrow> farm_step env s s'"

definition farm_keeps :: "'a farm_store_scheme \<Rightarrow> 'a farm_store_scheme \<Rightarrow> bool" where
  "farm_keeps s s' \<longleftrightarrow> books s s' \<and> keeps_shares (share_view s) (share_view s')"

lemma farm_keepsI: "books s s' \<Longrightarrow> keeps_shares (share_view s) (share_view s') \<Longrightarrow> farm_keeps s s'"
    "books s s' \<Longrightarrow> share_view s' = share_view s \<Longrightarrow> farm_keeps s s'" "neutral s s' \<Longrightarrow> farm_keeps s s'" "only_slots s s' \<Longrightarrow> farm_keeps s s'"
  by (auto simp: farm_keeps_def neutral_def dest: only_slots_neutral)

lemma unstake_resource_Ok: "unstake_resource env p i s = (Ok d, s') \<longleftrightarrow> auth env p \<and> unstake_resource_inner env p i s = (Ok d, s')"
  by (simp add: unstake_resource_def)

lemma farm_step_keeps: "farm_step env s s' \<Longrightarrow> farm_keeps s s'"
proof (induction rule: farm_step.induct)
  case (lock env p x n tier s s')
  then show ?case by (rule commitsE) (rule farm_keepsI(2)[OF stake_resource_Ok])
next
  case (claim env p i s s')
  then show ?case by (rule commitsE) (rule farm_keepsI(2)[OF claim_resource_Ok])
next
  case (unlock env p i s s')
  then show ?case by (rule commitsE) (simp only: unstake_resource_Ok, elim conjE, rule farm_keepsI(2)[OF unstake_inner_Ok(1,2)])
next
  case (emergency env p i s s')
  then show ?case by (rule commitsE) (rule farm_keepsI(2)[OF emergency_Ok])
next
  case (lp_in env p i n s s')
  then show ?case by (rule commitsE) (rule farm_keepsI(1)[OF stake_lp_Ok])
next
  case (lp_fund env p i n s s')
  then show ?case by (rule commitsE) (rule farm_keepsI(1)[OF fund_lp_Ok])
next
  case (lp_claim env p i s s')
  then show ?case by (rule commitsE) (rule farm_keepsI(1)[OF claim_lp_Ok])
next
  case (lp_out env p i n s s')
  then show ?case by (rule commitsE) (rule farm_keepsI(1)[OF unstake_lp_Ok])
qed (erule commitsE; rule farm_keepsI(3,4);
  (erule setter_only_slots fund_yield_neutral ship_stake_neutral ship_claim_neutral ship_out_neutral harvest_v2_Ok withdraw_only_slots | drule harvest_Ok, erule conjunct1))+

lemma farm_step_inv: "farm_inv s \<and> shares_ok (share_view s) \<Longrightarrow> \<exists>env. farm_step env s s' \<Longrightarrow> farm_inv s' \<and> shares_ok (share_view s')"
  using farm_step_keeps by (auto simp: farm_keeps_def books_def keeps_shares_def)

interpretation farming: step_system "\<lambda>s s'. \<exists>env. farm_step env s s'" "\<lambda>s. farm_inv s \<and> shares_ok (share_view s)"
  by unfold_locales (rule farm_step_inv)

lemma farm_run_keeps:
  assumes "(\<lambda>s s'. \<exists>env. farm_step env s s')\<^sup>*\<^sup>* s t"
  shows "farm_keeps s t"
  using assms
proof (induction rule: rtranclp_induct)
  case base
  then show ?case by (simp add: farm_keeps_def books_def)
next
  case (step t u)
  then obtain env where "farm_step env t u" by blast
  from step.IH farm_step_keeps[OF this] show ?case by (simp add: farm_keeps_def books_def keeps_shares_def)
qed

section \<open>Leaving a resource stake\<close>

lemma pay_due:
  assumes "0 \<le> d" "d \<le> get_yield_reserve x s" "int (resource_balance p x s) + d \<le> int u32_max"
  shows "\<exists>t. pay_yield p x d s = (Ok (), t) \<and> farm_frame t = farm_frame s \<and> int (resource_balance p x t) = int (resource_balance p x s) + d"
proof (cases "d = 0")
  case False
  let ?s = "s\<lparr>yield_reserve := (yield_reserve s)(x \<mapsto> get_yield_reserve x s - d)\<rparr>"
  have n: "resource_balance p x ?s + nat d \<le> u32_max" "u32_of d = Some (nat d)" using assms by (auto simp: resource_balance_def u32_of_def)
  then show ?thesis using False assms(1,2)
    by (simp add: pay_yield_def farm_credit_def credit_resource_balance_def checked_add_def farm_frame_def Let_def resource_balance_def)
qed (use assms in \<open>simp add: pay_yield_def\<close>)

lemma credit_runs:
  assumes "0 \<le> d" "int (resource_balance p x s) + d \<le> int u32_max"
  shows "farm_credit p x d s = (Ok (), s\<lparr>resource_bal := (resource_bal s)((p, x) \<mapsto> resource_balance p x s + nat d)\<rparr>)"
proof -
  have "resource_balance p x s + nat d \<le> u32_max" "u32_of d = Some (nat d)" using assms by (auto simp: u32_of_def)
  then show ?thesis by (simp add: farm_credit_def credit_resource_balance_def checked_add_def)
qed

lemma adjust_runs:
  assumes "in_i128 (get_tvl x s + d)" "in_i128 (unwrap_or (tvl_total s) 0 + d)"
  shows "adjust_tvl x d s = (Ok (), s\<lparr>tvl := (tvl s)(x \<mapsto> get_tvl x s + d), tvl_total := Some (unwrap_or (tvl_total s) 0 + d), total_locked := Some (unwrap_or (tvl_total s) 0 + d)\<rparr>)"
  using assms by (simp add: adjust_tvl_def ck_def)

lemma locked_ge:
  assumes "locks_ok (lock_view s)" "resource_stakes s i = Some r"
  shows "rs_amount r \<le> get_tvl (rs_asset_id r) s" "rs_amount r \<le> unwrap_or (tvl_total s) 0"
proof -
  note ok = assms(1)[unfolded lock_view_eq locks_ok.simps]
  have fin: "finite (dom (resource_stakes s))" using ok by blast
  have "0 \<le> rs_amount q" if "resource_stakes s j = Some q" for j q using ok that by (auto simp: stake_wf_def intro: less_imp_le)
  then have pos: "0 \<le> unwrap_or (locked_in x (resource_stakes s) j) 0" "0 \<le> unwrap_or (lock_amounts (resource_stakes s) j) 0" for x j
    by (cases "resource_stakes s j"; simp add: locked_in_def lock_amounts_def)+
  have "rs_amount r \<le> msum (locked_in (rs_asset_id r) (resource_stakes s))"
    using msum_ge_int[OF locked_finite(1)[OF fin] pos(1), of "rs_asset_id r" i] assms(2) by (simp add: locked_in_def)
  then show "rs_amount r \<le> get_tvl (rs_asset_id r) s" using ok by (simp add: get_tvl_def)
  have "rs_amount r \<le> msum (lock_amounts (resource_stakes s))"
    using msum_ge_int[OF locked_finite(2)[OF fin] pos(2), of i] assms(2) by (simp add: lock_amounts_def)
  then show "rs_amount r \<le> unwrap_or (tvl_total s) 0" using ok by simp
qed

lemma drop_runs:
  assumes ok: "locks_ok (lock_view s)" and r: "resource_stakes s i = Some r" and t: "farm_frame t = farm_frame s"
    and rng: "in_i128 (get_tvl (rs_asset_id r) s)" "in_i128 (unwrap_or (tvl_total s) 0)"
  shows "in_i128 (- rs_amount r)"
    "\<exists>w. adjust_tvl (rs_asset_id r) (- rs_amount r) (t\<lparr>resource_stakes := (resource_stakes t)(i := None)\<rparr>) = (Ok (), w) \<and> resource_bal w = resource_bal t
      \<and> yield_reserve w = yield_reserve t \<and> resource_stakes w i = None"
proof -
  have wf: "stake_wf i r" using ok r unfolding lock_view_eq by simp
  then show "in_i128 (- rs_amount r)" by (simp add: in_i128_def stake_wf_def)
  let ?t = "t\<lparr>resource_stakes := (resource_stakes t)(i := None)\<rparr>"
  have e: "get_tvl x ?t = get_tvl x s" "tvl_total ?t = tvl_total s" for x using t by (simp_all add: farm_frame_def get_tvl_def)
  have "in_i128 (get_tvl (rs_asset_id r) ?t + - rs_amount r)" "in_i128 (unwrap_or (tvl_total ?t) 0 + - rs_amount r)"
    using locked_ge[OF ok r] rng wf unfolding e in_i128_def stake_wf_def by linarith+
  from adjust_runs[OF this] show "\<exists>w. adjust_tvl (rs_asset_id r) (- rs_amount r) ?t = (Ok (), w) \<and> resource_bal w = resource_bal t
      \<and> yield_reserve w = yield_reserve t \<and> resource_stakes w i = None" by simp
qed

lemma exit_after:
  assumes inv: "farm_inv s" and r: "resource_stakes s i = Some r" and rng: "in_i128 (get_tvl (rs_asset_id r) s)" "in_i128 (unwrap_or (tvl_total s) 0)"
    and room: "int (resource_balance (rs_owner r) (rs_asset_id r) s) + rs_amount r + full_yield r \<le> int u32_max"
    and time: "rs_unlock_at r \<le> timestamp env" and due: "resource_yield_with env r \<le> get_yield_reserve (rs_asset_id r) s"
  shows "\<exists>s'. unstake_resource_inner env (rs_owner r) i s = (Ok (rs_amount r + resource_yield_with env r), s') \<and> resource_stakes s' i = None
    \<and> int (resource_balance (rs_owner r) (rs_asset_id r) s') = int (resource_balance (rs_owner r) (rs_asset_id r) s) + rs_amount r + resource_yield_with env r"
proof -
  let ?p = "rs_owner r" and ?x = "rs_asset_id r" and ?d = "resource_yield_with env r"
  have ok: "locks_ok (lock_view s)" using inv by (simp add: farm_inv_def)
  then have wf: "stake_wf i r" using r unfolding lock_view_eq by simp
  note db = due_bounds[OF wf, of env]
  have b: "0 \<le> rs_amount r" "?d \<le> full_yield r" using wf db by (simp_all add: stake_wf_def)
  obtain t where t: "pay_yield ?p ?x ?d s = (Ok (), t)" "farm_frame t = farm_frame s" "int (resource_balance ?p ?x t) = int (resource_balance ?p ?x s) + ?d"
    using pay_due[OF db(1) due, of ?p] room b by auto
  obtain w where w: "adjust_tvl ?x (- rs_amount r) (t\<lparr>resource_stakes := (resource_stakes t)(i := None)\<rparr>) = (Ok (), w)" "resource_bal w = resource_bal t" "resource_stakes w i = None"
    using drop_runs(2)[OF ok r t(2) rng] by blast
  have bw: "resource_balance ?p ?x w = resource_balance ?p ?x t" using w(2) by (simp add: resource_balance_def)
  have c: "farm_credit ?p ?x (rs_amount r) w = (Ok (), w\<lparr>resource_bal := (resource_bal w)((?p, ?x) \<mapsto> resource_balance ?p ?x w + nat (rs_amount r))\<rparr>)"
    using b room t(3) by (intro credit_runs) (simp_all add: bw)
  have "sat (rs_amount r + ?d) = rs_amount r + ?d" using b room db(1) by (intro sat_id) (simp add: in_i128_def)
  then show ?thesis using r time t(1,3) w(1,3) b(1) bw drop_runs(1)[OF ok r t(2) rng]
    by (simp add: unstake_resource_inner_def load_resource_stake_def get_resource_stake_def Let_def c ck_def) (simp add: resource_balance_def publish_def)
qed

lemma exit_early:
  assumes inv: "farm_inv s" and r: "resource_stakes s i = Some r" and rng: "in_i128 (get_tvl (rs_asset_id r) s)" "in_i128 (unwrap_or (tvl_total s) 0)"
    and room: "int (resource_balance (rs_owner r) (rs_asset_id r) s) + rs_amount r \<le> int u32_max" "in_i128 (get_yield_reserve (rs_asset_id r) s + rs_amount r)"
    and time: "timestamp env < rs_unlock_at r" and a: "auth env (rs_owner r)"
  shows "\<exists>s'. emergency_unstake_resource env (rs_owner r) i s = (Ok \<lparr>ew_returned = rs_amount r div 2, ew_penalty = rs_amount r - rs_amount r div 2, ew_yield_forfeited = resource_yield_with env r\<rparr>, s')
    \<and> resource_stakes s' i = None \<and> int (resource_balance (rs_owner r) (rs_asset_id r) s') = int (resource_balance (rs_owner r) (rs_asset_id r) s) + rs_amount r div 2
    \<and> get_yield_reserve (rs_asset_id r) s' = get_yield_reserve (rs_asset_id r) s + (rs_amount r - rs_amount r div 2)"
proof -
  let ?p = "rs_owner r" and ?x = "rs_asset_id r" and ?h = "rs_amount r div 2"
  have ok: "locks_ok (lock_view s)" "funds_ok s" using inv by (simp_all add: farm_inv_def)
  then have wf: "stake_wf i r" using r unfolding lock_view_eq by simp
  have b: "0 \<le> rs_amount r" "rs_amount r \<le> int u32_max" "0 \<le> get_yield_reserve ?x s" using wf ok(2) by (simp_all add: stake_wf_def funds_ok_def)
  note em = emergency_eval[OF b(1,2)]
  obtain w where w: "adjust_tvl ?x (- rs_amount r) (s\<lparr>resource_stakes := (resource_stakes s)(i := None)\<rparr>) = (Ok (), w)" "resource_bal w = resource_bal s" "yield_reserve w = yield_reserve s"
      "resource_stakes w i = None" using drop_runs(2)[OF ok(1) r refl rng] by blast
  let ?u = "w\<lparr>yield_reserve := (yield_reserve w)(?x \<mapsto> get_yield_reserve ?x s + (rs_amount r - ?h))\<rparr>"
  have "in_i128 (get_yield_reserve ?x s + (rs_amount r - ?h))" using room(2) b unfolding in_i128_def by linarith
  then have u: "add_to_reserve ?x (rs_amount r - ?h) w = (Ok (), ?u)" using w(3) by (simp add: add_to_reserve_def ck_def get_yield_reserve_def)
  have bu: "resource_balance ?p ?x ?u = resource_balance ?p ?x s" using w(2) by (simp add: resource_balance_def)
  have "int (resource_balance ?p ?x ?u) + ?h \<le> int u32_max" using b room(1) unfolding bu by linarith
  then have c: "farm_credit ?p ?x ?h ?u = (Ok (), ?u\<lparr>resource_bal := (resource_bal ?u)((?p, ?x) \<mapsto> resource_balance ?p ?x ?u + nat ?h)\<rparr>)"
    using b(1) by (intro credit_runs) simp_all
  show ?thesis using r time a w(1,2,4) b(1) drop_runs(1)[OF ok(1) r refl rng]
    by (simp add: emergency_unstake_resource_def load_resource_stake_def get_resource_stake_def Let_def em u c ck_def) (simp add: bu resource_balance_def get_yield_reserve_def publish_def)
qed

lemma exit_blocked:
  assumes "resource_stakes s i = Some r" "rs_unlock_at r \<le> timestamp env" "auth env (rs_owner r)" "get_yield_reserve (rs_asset_id r) s < resource_yield_with env r" "farm_inv s"
  shows "unstake_resource env (rs_owner r) i s = (Err YieldReserveEmpty, s) \<and> emergency_unstake_resource env (rs_owner r) i s = (Err YieldReserveEmpty, s)"
proof -
  have "0 \<le> get_yield_reserve (rs_asset_id r) s" using assms(5) by (simp add: farm_inv_def funds_ok_def)
  then have "pay_yield (rs_owner r) (rs_asset_id r) (resource_yield_with env r) s = (Err YieldReserveEmpty, s)" using assms(4) by (simp add: pay_yield_def Let_def)
  then show ?thesis using assms(1-3) by (simp add: unstake_resource_def emergency_unstake_resource_def unstake_resource_inner_def load_resource_stake_def get_resource_stake_def Let_def)
qed

text \<open>The two generations of pools share their keys: the pool of the first generation with number \<open>i + 100000\<close> replaces the pool \<open>i\<close> of the second, whose
  owner can no longer withdraw. A deposit moves no units, whatever its amount.\<close>

lemma v2_pool_lost:
  assumes "auth env p" "n \<le> WHALE_CAP" "next_pid s = Some (i + V2_OFFSET)" "i + V2_OFFSET < u64_max"
  shows "\<exists>s'. deposit_to_pool env p n l s = (Ok (i + V2_OFFSET), s') \<and> resource_bal s' = resource_bal s \<and> (\<forall>env' q. fst (withdraw_v2_with_penalty env' q i s') = Panic)"
  using assms by (simp add: deposit_to_pool_def checked_add_def Let_def withdraw_v2_with_penalty_def load_pool_v2_def publish_def)

section \<open>A farm\<close>

definition farmland :: farm_store where
  "farmland = upgrade_store.extend shipyard
     \<lparr>next_pid = None, farm_slots = Map.empty, total_locked = None, next_stake_id = None, resource_stakes = Map.empty, lp_stakes = Map.empty, lp_pools = Map.empty, tvl = Map.empty,
      tvl_total = None, nft_count = None, yield_reserve = [''gas'' \<mapsto> 5], total_yield_paid = None, nft_yield_asset = None, tvl_target = None\<rparr>\<lparr>lp_balance := [(4, Addr 2) \<mapsto> 50],
      amm_pool := [4 \<mapsto> \<lparr>lp_pool_id = 4, lp_resource_a = ''gas'', lp_resource_b = ''ore'', lp_reserve_a = 50, lp_reserve_b = 50, lp_supply = 50, lp_fee_bps = 30, lp_created_at = 0\<rparr>]\<rparr>"

lemma farmland_simps: "next_pid farmland = None" "farm_slots farmland = Map.empty" "total_locked farmland = None" "next_stake_id farmland = None" "resource_stakes farmland = Map.empty"
    "lp_stakes farmland = Map.empty" "lp_pools farmland = Map.empty" "tvl farmland = Map.empty" "tvl_total farmland = None" "yield_reserve farmland = [''gas'' \<mapsto> 5]" "tvl_target farmland = None"
    "resource_bal farmland = [(Addr 2, ''gas'') \<mapsto> 100]" "lp_balance farmland = [(4, Addr 2) \<mapsto> 50]"
    "amm_pool farmland = [4 \<mapsto> \<lparr>lp_pool_id = 4, lp_resource_a = ''gas'', lp_resource_b = ''ore'', lp_reserve_a = 50, lp_reserve_b = 50, lp_supply = 50, lp_fee_bps = 30, lp_created_at = 0\<rparr>]"
proof -
  have "resource_bal (upgrade_store.extend shipyard m) = resource_bal shipyard" for m :: "'b" by (simp add: upgrade_store.defs)
  then show "resource_bal farmland = [(Addr 2, ''gas'') \<mapsto> 100]" by (simp add: farmland_def shipyard_simps)
qed (simp_all add: farmland_def upgrade_store.defs)

lemma farmland_inv: "farm_inv farmland" "shares_ok (share_view farmland)"
proof -
  have "finite (dom (\<lambda>a. if a = Addr 2 \<and> x = ''gas'' then Some (100::nat) else None))" for x by (rule finite_subset[of _ "{Addr 2}"]) (auto split: if_splits)
  then show "farm_inv farmland"
    unfolding farm_inv_def funds_ok_def lock_view_eq by (simp add: farmland_simps get_yield_reserve_def locked_in_def lock_amounts_def msum_def)
  have "finite (dom (\<lambda>a. if i = 4 \<and> a = Addr 2 then Some (50::int) else None))" for i :: nat by (rule finite_subset[of _ "{Addr 2}"]) (auto split: if_splits)
  then show "shares_ok (share_view farmland)" unfolding share_view_eq by (simp add: farmland_simps)
qed

section \<open>Properties\<close>

text \<open>C27. Staking creates no units. After any run of farming calls (pools, resource, ship and liquidity stakes, funding, setters), for every
  asset the wallets, the units locked and the yield reserve add up to what they were before; the locked value reported for the asset, in total
  and by the older statistics is the sum of the open stakes, no reserve is negative, and no stake has been paid more than the yield of its full
  term.\<close>

theorem farm_units_conserved:
  fixes s t :: "'a farm_store_scheme"
  assumes "(\<lambda>s s'. \<exists>env. farm_step env s s')\<^sup>*\<^sup>* s t" and "farm_inv s"
  shows "int (msum (\<lambda>a. resource_bal t (a, x))) + get_tvl x t + get_yield_reserve x t = int (msum (\<lambda>a. resource_bal s (a, x))) + get_tvl x s + get_yield_reserve x s
    \<and> get_tvl x t = msum (locked_in x (resource_stakes t)) \<and> tr_resource_units (get_tvl_report t) = msum (lock_amounts (resource_stakes t))
    \<and> fs_total_value_locked (get_yield_farm_stats t) = tr_resource_units (get_tvl_report t) \<and> 0 \<le> get_yield_reserve x t
    \<and> (\<forall>i r. get_resource_stake i t = Some r \<longrightarrow> 0 < rs_amount r \<and> rs_yield_claimed r \<le> full_yield r)"
proof -
  have k: "farm_inv t" "funds x t + get_tvl x t = funds x s + get_tvl x s" using farm_run_keeps[OF assms(1)] assms(2) by (simp_all add: farm_keeps_def books_def)
  note ok = k(1)[unfolded farm_inv_def lock_view_eq locks_ok.simps]
  show ?thesis using ok k(2) by (auto simp: get_tvl_def get_tvl_report_def get_yield_farm_stats_def get_resource_stake_def stake_wf_def funds_def funds_ok_def)
qed

theorem farm_units_conserved_witness:
  "\<exists>t. stake_resource (signed_at 5 7) (Addr 2) ''gas'' 60 Days7 farmland = (Ok 1, t) \<and> int (msum (\<lambda>a. resource_bal t (a, ''gas''))) + get_tvl ''gas'' t + get_yield_reserve ''gas'' t = 105"
proof -
  let ?t = "snd (stake_resource (signed_at 5 7) (Addr 2) ''gas'' 60 Days7 farmland)"
  have ok: "stake_resource (signed_at 5 7) (Addr 2) ''gas'' 60 Days7 farmland = (Ok 1, ?t)"
    by (simp add: stake_resource_def farm_debit_def u32_of_def debit_resource_balance_def resource_balance_def farmland_simps get_tvl_def adjust_tvl_def checked_sub_def checked_add_def
        ck_def in_i128_def Let_def)
  have run: "(\<lambda>s s'. \<exists>env. farm_step env s s')\<^sup>*\<^sup>* farmland ?t"
    using farm_step.lock commitsI[where f = "stake_resource (signed_at 5 7) (Addr 2) ''gas'' 60 Days7", OF ok] by blast
  have "(\<lambda>a. resource_bal farmland (a, ''gas'')) = [Addr 2 \<mapsto> 100]" by (auto simp: farmland_simps)
  then have "int (msum (\<lambda>a. resource_bal farmland (a, ''gas''))) + get_tvl ''gas'' farmland + get_yield_reserve ''gas'' farmland = 105"
    by (simp add: msum_def get_tvl_def get_yield_reserve_def farmland_simps)
  then show ?thesis using farm_units_conserved[OF run farmland_inv(1), of "''gas''"] ok by metis
qed

text \<open>Liquidity stakes. After any run of farming calls the staked total of every pool is the sum of its positions, each positive; staked shares
  and the shares left in balances add up to what they were, and the pot against impermanent loss is never negative.\<close>

lemma lp_stakes_conserved:
  fixes s t :: "'a farm_store_scheme"
  assumes "(\<lambda>s s'. \<exists>env. farm_step env s s')\<^sup>*\<^sup>* s t" and "shares_ok (share_view s)"
  shows "msum (\<lambda>a. lp_balance t (i, a)) + msum (staked_of i (lp_stakes t)) = msum (\<lambda>a. lp_balance s (i, a)) + msum (staked_of i (lp_stakes s))
    \<and> (\<forall>st. get_lp_pool_state i t = Some st \<longrightarrow> lps_total_staked st = msum (staked_of i (lp_stakes t)) \<and> 0 \<le> lps_il_pot st)
    \<and> (\<forall>a k. get_lp_stake i a t = Some k \<longrightarrow> 0 < ls_amount k \<and> get_lp_pool_state i t \<noteq> None)"
proof -
  have k: "shares_ok (share_view t)" "share_units i (share_view t) = share_units i (share_view s)" using farm_run_keeps[OF assms(1)] assms(2) by (simp_all add: farm_keeps_def keeps_shares_def)
  have "case lp_pools t i of None \<Rightarrow> (\<forall>a. lp_stakes t (i, a) = None) | Some st \<Rightarrow> lps_total_staked st = msum (staked_of i (lp_stakes t)) \<and> 0 \<le> lps_il_pot st"
    "\<forall>a k. lp_stakes t (i, a) = Some k \<longrightarrow> 0 < ls_amount k" using k(1)[unfolded share_view_eq shares_ok.simps] by blast+
  then show ?thesis using k(2) unfolding share_view_eq share_units.simps by (auto simp: get_lp_pool_state_def get_lp_stake_def split: option.splits)
qed

lemma lp_stakes_conserved_example:
  "\<exists>k t. stake_lp (signed_at 5 7) (Addr 2) 4 20 farmland = (Ok k, t) \<and> ls_amount k = 20 \<and> msum (\<lambda>a. lp_balance t (4, a)) + msum (staked_of 4 (lp_stakes t)) = 50"
proof -
  let ?k = "\<lparr>ls_owner = Addr 2, ls_pool_id = 4, ls_amount = 20, ls_staked_at = 5, ls_entry_ratio_bps = 10000, ls_reward_debt = 0\<rparr>"
  let ?t = "snd (stake_lp (signed_at 5 7) (Addr 2) 4 20 farmland)"
  have ok: "stake_lp (signed_at 5 7) (Addr 2) 4 20 farmland = (Ok ?k, ?t)"
    by (simp add: stake_lp_def pool_state_or_init_def get_lp_pool_state_def get_pool_def farmland_simps move_lp_def enlarged_stake_def get_lp_stake_def current_ratio_bps_def lp_debt_def
        ck_def in_i128_def tdiv_def sat_def sdiv_nonneg Let_def)
  have run: "(\<lambda>s s'. \<exists>env. farm_step env s s')\<^sup>*\<^sup>* farmland ?t"
    using farm_step.lp_in commitsI[where f = "stake_lp (signed_at 5 7) (Addr 2) 4 20", OF ok] by blast
  have "(\<lambda>a. lp_balance farmland (4, a)) = [Addr 2 \<mapsto> 50]" "staked_of 4 (lp_stakes farmland) = Map.empty" by (auto simp: farmland_simps staked_of_def)
  then have "msum (\<lambda>a. lp_balance farmland (4, a)) + msum (staked_of 4 (lp_stakes farmland)) = 50" by (simp add: msum_def)
  then have "msum (\<lambda>a. lp_balance ?t (4, a)) + msum (staked_of 4 (lp_stakes ?t)) = 50" using lp_stakes_conserved[OF run farmland_inv(2), of 4] by simp
  then show ?thesis using ok by (intro exI[of _ ?k] exI[of _ ?t]) simp
qed

text \<open>C28. Leaving a resource stake. For the stake's owner, with room in the wallet: before the unlock the plain exit is refused and the emergency
  exit pays half the principal and moves the other half to the reserve; from the unlock on, the exit pays principal and accrued yield if the
  reserve covers the yield, and otherwise both exits are refused, so the principal stays locked until someone funds the reserve.\<close>

theorem resource_exit:
  fixes s :: "'a farm_store_scheme"
  assumes "farm_inv s" and "get_resource_stake i s = Some r" and "auth env (rs_owner r)"
    and "in_i128 (get_tvl (rs_asset_id r) s)" "in_i128 (tr_resource_units (get_tvl_report s))" "in_i128 (get_yield_reserve (rs_asset_id r) s + rs_amount r)"
    and "int (resource_balance (rs_owner r) (rs_asset_id r) s) + rs_amount r + full_yield r \<le> int u32_max"
  shows "(timestamp env < rs_unlock_at r \<longrightarrow> unstake_resource env (rs_owner r) i s = (Err LockNotMet, s)
      \<and> (\<exists>s'. emergency_unstake_resource env (rs_owner r) i s = (Ok \<lparr>ew_returned = rs_amount r div 2, ew_penalty = rs_amount r - rs_amount r div 2, ew_yield_forfeited = resource_yield_with env r\<rparr>, s')
        \<and> get_resource_stake i s' = None \<and> int (resource_balance (rs_owner r) (rs_asset_id r) s') = int (resource_balance (rs_owner r) (rs_asset_id r) s) + rs_amount r div 2
        \<and> get_yield_reserve (rs_asset_id r) s' = get_yield_reserve (rs_asset_id r) s + (rs_amount r - rs_amount r div 2)))
    \<and> (rs_unlock_at r \<le> timestamp env \<and> resource_yield_with env r \<le> get_yield_reserve (rs_asset_id r) s \<longrightarrow>
      (\<exists>s'. unstake_resource env (rs_owner r) i s = (Ok (rs_amount r + resource_yield_with env r), s') \<and> get_resource_stake i s' = None
        \<and> int (resource_balance (rs_owner r) (rs_asset_id r) s') = int (resource_balance (rs_owner r) (rs_asset_id r) s) + rs_amount r + resource_yield_with env r))
    \<and> (rs_unlock_at r \<le> timestamp env \<and> get_yield_reserve (rs_asset_id r) s < resource_yield_with env r \<longrightarrow>
      unstake_resource env (rs_owner r) i s = (Err YieldReserveEmpty, s) \<and> emergency_unstake_resource env (rs_owner r) i s = (Err YieldReserveEmpty, s))"
proof (intro conjI impI; (elim conjE)?)
  have r: "resource_stakes s i = Some r" using assms(2) by (simp add: get_resource_stake_def)
  have "stake_wf i r" using assms(1) r unfolding farm_inv_def lock_view_eq by simp
  then have room: "int (resource_balance (rs_owner r) (rs_asset_id r) s) + rs_amount r \<le> int u32_max" using assms(7) by (simp add: stake_wf_def)
  have rng: "in_i128 (unwrap_or (tvl_total s) 0)" using assms(5) by (simp add: get_tvl_report_def)
  show "unstake_resource env (rs_owner r) i s = (Err LockNotMet, s)" if "timestamp env < rs_unlock_at r"
    using that r assms(3) by (simp add: unstake_resource_def unstake_resource_inner_def load_resource_stake_def get_resource_stake_def)
  show "\<exists>s'. emergency_unstake_resource env (rs_owner r) i s = (Ok \<lparr>ew_returned = rs_amount r div 2, ew_penalty = rs_amount r - rs_amount r div 2, ew_yield_forfeited = resource_yield_with env r\<rparr>, s')
        \<and> get_resource_stake i s' = None \<and> int (resource_balance (rs_owner r) (rs_asset_id r) s') = int (resource_balance (rs_owner r) (rs_asset_id r) s) + rs_amount r div 2
        \<and> get_yield_reserve (rs_asset_id r) s' = get_yield_reserve (rs_asset_id r) s + (rs_amount r - rs_amount r div 2)" if "timestamp env < rs_unlock_at r"
    using exit_early[OF assms(1) r assms(4) rng room assms(6) that assms(3)] unfolding get_resource_stake_def .
  show "\<exists>s'. unstake_resource env (rs_owner r) i s = (Ok (rs_amount r + resource_yield_with env r), s') \<and> get_resource_stake i s' = None
        \<and> int (resource_balance (rs_owner r) (rs_asset_id r) s') = int (resource_balance (rs_owner r) (rs_asset_id r) s) + rs_amount r + resource_yield_with env r"
    if "rs_unlock_at r \<le> timestamp env" "resource_yield_with env r \<le> get_yield_reserve (rs_asset_id r) s"
    using exit_after[OF assms(1) r assms(4) rng assms(7) that] assms(3) unfolding get_resource_stake_def unstake_resource_def by simp
  show "unstake_resource env (rs_owner r) i s = (Err YieldReserveEmpty, s)" "emergency_unstake_resource env (rs_owner r) i s = (Err YieldReserveEmpty, s)"
    if "rs_unlock_at r \<le> timestamp env" "get_yield_reserve (rs_asset_id r) s < resource_yield_with env r" using exit_blocked[OF r that(1) assms(3) that(2) assms(1)] by simp_all
qed

theorem resource_exit_witness:
  "\<exists>(s::farm_store) t. farm_inv s \<and> get_resource_stake 1 s \<noteq> None \<and> unstake_resource (signed_at 6 7) (Addr 2) 1 s = (Err LockNotMet, s)
    \<and> emergency_unstake_resource (signed_at 6 7) (Addr 2) 1 s = (Ok \<lparr>ew_returned = 30, ew_penalty = 30, ew_yield_forfeited = 0\<rparr>, t)"
proof -
  let ?r = "\<lparr>rs_id = 1, rs_owner = Addr 2, rs_asset_id = ''gas'', rs_amount = 60, rs_tier = Days7, rs_apy_bps = 500, rs_staked_at = 5, rs_unlock_at = 604805, rs_yield_claimed = 0\<rparr>"
  let ?s = "snd (stake_resource (signed_at 5 7) (Addr 2) ''gas'' 60 Days7 farmland)"
  have ok: "stake_resource (signed_at 5 7) (Addr 2) ''gas'' 60 Days7 farmland = (Ok 1, ?s)" and r: "get_resource_stake 1 ?s = Some ?r"
    and v: "get_tvl ''gas'' ?s = 60" "tr_resource_units (get_tvl_report ?s) = 60" "get_yield_reserve ''gas'' ?s = 5" "resource_balance (Addr 2) ''gas'' ?s = 40"
    by (simp_all add: stake_resource_def farm_debit_def u32_of_def debit_resource_balance_def resource_balance_def farmland_simps get_tvl_def adjust_tvl_def checked_sub_def checked_add_def
        ck_def in_i128_def Let_def get_resource_stake_def get_tvl_report_def get_yield_reserve_def tvl_adjusted_apy_bps_def get_tvl_target_def saturating_add_def duration_secs_def publish_def)
  have inv: "farm_inv ?s" using stake_resource_Ok(1)[OF ok] farmland_inv(1) by (simp add: books_def)
  have "resource_yield_with (signed_at 6 7) ?r = 0"
    by (simp add: resource_yield_with_def accrued_yield_def simple_yield_def elapsed_since_def saturating_sub_def duration_secs_def tdiv_def ck_def in_i128_def sat_def sdiv_nonneg)
  moreover have "full_yield ?r = 0" by (simp add: full_yield_def duration_secs_def)
  ultimately obtain t where u: "unstake_resource (signed_at 6 7) (Addr 2) 1 ?s = (Err LockNotMet, ?s)"
      and e: "emergency_unstake_resource (signed_at 6 7) (Addr 2) 1 ?s = (Ok \<lparr>ew_returned = 30, ew_penalty = 30, ew_yield_forfeited = 0\<rparr>, t)"
    using resource_exit[OF inv r, of "signed_at 6 7", THEN conjunct1] v by (auto simp: in_i128_def)
  show ?thesis by (rule exI[of _ ?s], rule exI[of _ t]) (intro conjI inv u e, simp only: r option.distinct not_False_eq_True)
qed

end
