(* ===== verification/Dynamic_Pricing.thy ===== *)
theory Dynamic_Pricing
  imports Dex_Integration
begin

text \<open>
  \<open>src/dynamic_pricing.rs\<close> and \<open>list_at_market\<close> of \<open>src/dex_integration.rs\<close>: prices smoothed by a moving average, with prints too far from
  the average discarded and the published price kept in a band around it. \<open>clamp\<close> traps when its bounds are reversed.
\<close>

section \<open>Model\<close>

abbreviation PRICING_BPS_DENOMINATOR :: nat where "PRICING_BPS_DENOMINATOR \<equiv> 10000"
abbreviation DEFAULT_SMOOTHING_BPS :: u32 where "DEFAULT_SMOOTHING_BPS \<equiv> 2000"
abbreviation DEFAULT_MAX_DEVIATION_BPS :: u32 where "DEFAULT_MAX_DEVIATION_BPS \<equiv> 5000"
abbreviation DEFAULT_BASE_VOLATILITY_BAND_BPS :: u32 where "DEFAULT_BASE_VOLATILITY_BAND_BPS \<equiv> 3000"
abbreviation MAX_VOLATILITY_BAND_BPS :: u32 where "MAX_VOLATILITY_BAND_BPS \<equiv> 5000"
abbreviation DEFAULT_MIN_COOLDOWN_SECS :: u64 where "DEFAULT_MIN_COOLDOWN_SECS \<equiv> 60"
abbreviation DEFAULT_SUPPLY_DEMAND_ADJ_BPS :: u32 where "DEFAULT_SUPPLY_DEMAND_ADJ_BPS \<equiv> 2500"
abbreviation MAX_SMOOTHING_BPS :: u32 where "MAX_SMOOTHING_BPS \<equiv> 5000"
abbreviation MAX_HISTORY_ENTRIES :: nat where "MAX_HISTORY_ENTRIES \<equiv> 24"

datatype PricingError = NotInitialized | Unauthorized | InvalidPrice | InvalidConfig | ResourceNotFound | CooldownActive | ArithmeticOverflow

record PricingConfig =
  pr_smoothing_bps :: u32
  pr_max_deviation_bps :: u32
  pr_base_volatility_band_bps :: u32
  pr_max_volatility_band_bps :: u32
  pr_min_cooldown_secs :: u64
  pr_supply_demand_adj_bps :: u32

definition default_issue_452 :: PricingConfig where
  "default_issue_452 = \<lparr>pr_smoothing_bps = DEFAULT_SMOOTHING_BPS, pr_max_deviation_bps = DEFAULT_MAX_DEVIATION_BPS, pr_base_volatility_band_bps = DEFAULT_BASE_VOLATILITY_BAND_BPS,
     pr_max_volatility_band_bps = MAX_VOLATILITY_BAND_BPS, pr_min_cooldown_secs = DEFAULT_MIN_COOLDOWN_SECS, pr_supply_demand_adj_bps = DEFAULT_SUPPLY_DEMAND_ADJ_BPS\<rparr>"

record PriceState =
  ps_resource :: symbol
  ps_sma :: i128
  ps_last_accepted :: i128
  ps_last_update :: u64
  ps_volatility_bps :: u32
  ps_rejected_prints :: u32
  ps_rejected_last :: bool
  ps_observation_count :: u32
  ps_supply_demand_bps :: i128

record PricePoint =
  pp_sma :: i128
  pp_raw :: i128
  pp_published :: i128
  pp_volatility_bps :: u32
  pp_timestamp :: u64

record DynamicPrice =
  dp_resource :: symbol
  dp_sma :: i128
  dp_volatility_bps :: u32
  dp_band_bps :: u32
  dp_supply_demand_bps :: i128
  dp_published :: i128

record pricing_store = dex_store +
  pricing_config :: "PricingConfig option"
  pricing_admin :: "address option"
  pricing_state :: "symbol \<rightharpoonup> PriceState"
  pricing_history :: "symbol \<rightharpoonup> PricePoint list"

subsection \<open>Integer helpers\<close>

definition clamp :: "int \<Rightarrow> int \<Rightarrow> int \<Rightarrow> int option" where
  "clamp value lower upper = (if lower > upper then None else Some (min (max value lower) upper))"

definition ema_step :: "i128 \<Rightarrow> i128 \<Rightarrow> u32 \<Rightarrow> i128 option" where
  "ema_step sma raw alpha_bps = (case ck (raw - sma) of
     None \<Rightarrow> None
   | Some delta \<Rightarrow>
     let scaled = unwrap_or (tdiv (sat (delta * int alpha_bps)) (int PRICING_BPS_DENOMINATOR)) 0;
         nxt = sat (sma + scaled);
         nxt = (if nxt = sma \<and> delta \<noteq> 0 then sat (sma + (if delta > 0 then 1 else - 1)) else nxt)
     in Some (if nxt \<le> 0 then 1 else nxt))"

definition deviation_bps :: "i128 \<Rightarrow> i128 \<Rightarrow> u32 option" where
  "deviation_bps sma raw =
    (if sma \<le> 0 then Some u32_max
     else case ck \<bar>sat (raw - sma)\<bar> of
       None \<Rightarrow> None
     | Some diff \<Rightarrow>
     let scaled = sat (diff * int PRICING_BPS_DENOMINATOR) sdiv sma
     in Some (if scaled \<ge> int u32_max then u32_max else nat scaled))"

abbreviation i64_max :: int where "i64_max \<equiv> 9223372036854775807"

definition sat64 :: "int \<Rightarrow> int" where
  "sat64 x = max (- i64_max - 1) (min i64_max x)"

text \<open>The additions stay within \<open>i64\<close>: the quotient is below \<open>2 ^ 63 div 10000\<close> and the other term below \<open>2 ^ 32\<close>.\<close>

definition ewma_bps :: "u32 \<Rightarrow> u32 \<Rightarrow> u32 \<Rightarrow> u32" where
  "ewma_bps prev sample alpha_bps =
    (let prev_i = int prev;
         delta = int sample - prev_i;
         nxt = prev_i + sat64 (delta * int alpha_bps) sdiv int PRICING_BPS_DENOMINATOR;
         nxt = (if nxt = prev_i \<and> delta \<noteq> 0 then prev_i + (if delta > 0 then 1 else - 1) else nxt)
     in nat (min (max nxt 0) (int u32_max)))"

definition clamp_to_band :: "i128 \<Rightarrow> i128 \<Rightarrow> u32 \<Rightarrow> i128 option" where
  "clamp_to_band anchor value band_bps =
    (if anchor \<le> 0 then Some (max value 1)
     else let band = unwrap_or (tdiv (sat (anchor * int band_bps)) (int PRICING_BPS_DENOMINATOR)) 0;
         lower = max (sat (anchor - band)) 1;
         upper = sat (anchor + band)
     in clamp value lower upper)"

definition effective_band :: "PricingConfig \<Rightarrow> u32 \<Rightarrow> u32" where
  "effective_band config volatility_bps =
    (let base = min (pr_base_volatility_band_bps config) (pr_max_volatility_band_bps config);
         headroom = saturating_sub (pr_max_volatility_band_bps config) base in
     if headroom = 0 then base
     else let scale = (if pr_max_deviation_bps config = 0 then 0
                       else min volatility_bps (pr_max_deviation_bps config) * headroom div pr_max_deviation_bps config)
     in min (saturating_add u32_max base scale) (pr_max_volatility_band_bps config))"

subsection \<open>Configuration\<close>

definition validate_config :: "PricingConfig \<Rightarrow> (PricingError, unit) outcome" where
  "validate_config config =
    (if pr_smoothing_bps config = 0 \<or> pr_smoothing_bps config > MAX_SMOOTHING_BPS then Err InvalidConfig
     else if pr_max_deviation_bps config = 0 \<or> pr_max_deviation_bps config > PRICING_BPS_DENOMINATOR * 2 then Err InvalidConfig
     else if pr_base_volatility_band_bps config = 0 \<or> pr_base_volatility_band_bps config > MAX_VOLATILITY_BAND_BPS
        \<or> pr_max_volatility_band_bps config < pr_base_volatility_band_bps config \<or> pr_max_volatility_band_bps config > MAX_VOLATILITY_BAND_BPS then Err InvalidConfig
     else if pr_supply_demand_adj_bps config > PRICING_BPS_DENOMINATOR then Err InvalidConfig
     else Ok ())"

definition init_pricing_config :: "env \<Rightarrow> address \<Rightarrow> PricingConfig \<Rightarrow> 'a pricing_store_scheme \<Rightarrow> (PricingError, unit) outcome \<times> 'a pricing_store_scheme" where
  "init_pricing_config env admin config s =
    (if pricing_admin s \<noteq> None then (Err InvalidConfig, s)
     else if \<not> auth env admin then (Panic, s)
     else and_then (validate_config config, s) (\<lambda>_ s. (Ok (), s\<lparr>pricing_admin := Some admin, pricing_config := Some config\<rparr>)))"

definition require_pricing_admin :: "env \<Rightarrow> address \<Rightarrow> 'a pricing_store_scheme \<Rightarrow> (PricingError, unit) outcome \<times> 'a pricing_store_scheme" where
  "require_pricing_admin env admin s = (case pricing_admin s of
     None \<Rightarrow> (Err PricingError.NotInitialized, s)
   | Some stored \<Rightarrow>
     if \<not> auth env admin then (Panic, s)
     else if admin \<noteq> stored then (Err PricingError.Unauthorized, s)
     else (Ok (), s))"

definition set_pricing_config :: "env \<Rightarrow> address \<Rightarrow> PricingConfig \<Rightarrow> 'a pricing_store_scheme \<Rightarrow> (PricingError, unit) outcome \<times> 'a pricing_store_scheme" where
  "set_pricing_config env admin config s = and_then (require_pricing_admin env admin s) (\<lambda>_ s.
     and_then (validate_config config, s) (\<lambda>_ s. (Ok (), s\<lparr>pricing_config := Some config\<rparr>)))"

definition get_pricing_config :: "'a pricing_store_scheme \<Rightarrow> PricingConfig" where
  "get_pricing_config s = unwrap_or (pricing_config s) default_issue_452"

subsection \<open>Prices\<close>

definition clamp_supply_demand_bps :: "PricingConfig \<Rightarrow> i128 \<Rightarrow> i128 option" where
  "clamp_supply_demand_bps config bps = clamp bps (- int (pr_supply_demand_adj_bps config)) (int (pr_supply_demand_adj_bps config))"

definition price_from_state :: "PricingConfig \<Rightarrow> PriceState \<Rightarrow> DynamicPrice option" where
  "price_from_state config state =
    (let band_bps = effective_band config (ps_volatility_bps state) in
     case clamp_supply_demand_bps config (ps_supply_demand_bps state) of
       None \<Rightarrow> None
     | Some nudge \<Rightarrow>
     let nudged = max (sat (ps_sma state + unwrap_or (tdiv (sat (nudge * ps_sma state)) (int PRICING_BPS_DENOMINATOR)) 0)) 1 in
     case clamp_to_band (ps_sma state) nudged band_bps of
       None \<Rightarrow> None
     | Some published \<Rightarrow> Some \<lparr>dp_resource = ps_resource state, dp_sma = ps_sma state, dp_volatility_bps = ps_volatility_bps state, dp_band_bps = band_bps,
         dp_supply_demand_bps = nudge, dp_published = published\<rparr>)"

fun trim_front :: "PricePoint list \<Rightarrow> PricePoint list" where
  "trim_front [] = []"
| "trim_front (p # ps) = (if length (p # ps) > MAX_HISTORY_ENTRIES then trim_front ps else p # ps)"

definition push_history :: "symbol \<Rightarrow> PricePoint \<Rightarrow> 'a pricing_store_scheme \<Rightarrow> 'a pricing_store_scheme" where
  "push_history resource point s =
    (let history = unwrap_or (pricing_history s resource) [] @ [point]
     in s\<lparr>pricing_history := (pricing_history s)(resource \<mapsto> trim_front history)\<rparr>)"

definition seed_state :: "env \<Rightarrow> symbol \<Rightarrow> i128 \<Rightarrow> PriceState" where
  "seed_state env resource raw_price =
    \<lparr>ps_resource = resource, ps_sma = raw_price, ps_last_accepted = raw_price, ps_last_update = timestamp env, ps_volatility_bps = 0, ps_rejected_prints = 0,
     ps_rejected_last = False, ps_observation_count = 1, ps_supply_demand_bps = 0\<rparr>"

definition fold_print :: "env \<Rightarrow> PricingConfig \<Rightarrow> i128 \<Rightarrow> u32 \<Rightarrow> PriceState \<Rightarrow> PriceState option" where
  "fold_print env config raw_price dev prior = map_option (\<lambda>sma.
     prior\<lparr>ps_sma := sma, ps_last_accepted := raw_price, ps_last_update := timestamp env, ps_volatility_bps := ewma_bps (ps_volatility_bps prior) dev (pr_smoothing_bps config),
       ps_observation_count := saturating_add u32_max (ps_observation_count prior) 1, ps_rejected_last := False\<rparr>) (ema_step (ps_sma prior) raw_price (pr_smoothing_bps config))"

text \<open>The common tail of an accepted print: the published price, the state, the history and the event.\<close>

definition record_print :: "env \<Rightarrow> PricingConfig \<Rightarrow> symbol \<Rightarrow> i128 \<Rightarrow> PriceState \<Rightarrow> 'a pricing_store_scheme \<Rightarrow> (PricingError, PriceState) outcome \<times> 'a pricing_store_scheme" where
  "record_print env config resource raw_price state s = (case price_from_state config state of
     None \<Rightarrow> (Panic, s)
   | Some price \<Rightarrow>
     let published = dp_published price;
         s = s\<lparr>pricing_state := (pricing_state s)(resource \<mapsto> state)\<rparr>;
         s = push_history resource \<lparr>pp_sma = ps_sma state, pp_raw = raw_price, pp_published = published, pp_volatility_bps = ps_volatility_bps state, pp_timestamp = timestamp env\<rparr> s
     in (Ok state, publish [SS ''pricing'', SS ''observed''] [SS resource, SI raw_price, SI (ps_sma state), SI published] s))"

definition observe_price :: "env \<Rightarrow> address \<Rightarrow> symbol \<Rightarrow> i128 \<Rightarrow> 'a pricing_store_scheme \<Rightarrow> (PricingError, PriceState) outcome \<times> 'a pricing_store_scheme" where
  "observe_price env source resource raw_price s = and_then (require_pricing_admin env source s) (\<lambda>_ s.
     if raw_price \<le> 0 then (Err PricingError.InvalidPrice, s)
     else let config = get_pricing_config s in
     case pricing_state s resource of
       None \<Rightarrow> record_print env config resource raw_price (seed_state env resource raw_price) s
     | Some prior \<Rightarrow>
     if saturating_sub (timestamp env) (ps_last_update prior) < pr_min_cooldown_secs config then (Err CooldownActive, s)
     else case deviation_bps (ps_sma prior) raw_price of
       None \<Rightarrow> (Panic, s)
     | Some dev \<Rightarrow>
     if dev > pr_max_deviation_bps config then
       let prior = prior\<lparr>ps_rejected_prints := saturating_add u32_max (ps_rejected_prints prior) 1, ps_rejected_last := True\<rparr>;
           s = s\<lparr>pricing_state := (pricing_state s)(resource \<mapsto> prior)\<rparr>
       in (Ok prior, publish [SS ''pricing'', SS ''rejected''] [SS resource, SU dev] s)
     else case fold_print env config raw_price dev prior of
       None \<Rightarrow> (Panic, s)
     | Some state \<Rightarrow> record_print env config resource raw_price state s)"

definition observe_supply_demand :: "env \<Rightarrow> address \<Rightarrow> symbol \<Rightarrow> i128 \<Rightarrow> i128 \<Rightarrow> 'a pricing_store_scheme \<Rightarrow> (PricingError, i128) outcome \<times> 'a pricing_store_scheme" where
  "observe_supply_demand env source resource supply demand s = and_then (require_pricing_admin env source s) (\<lambda>_ s.
     if supply < 0 \<or> demand < 0 then (Err PricingError.InvalidPrice, s)
     else let config = get_pricing_config s in
     case (if demand > 0 then map_option (\<lambda>a. a sdiv demand) (ck (supply * 1000)) else Some 1000) of
       None \<Rightarrow> (Err ArithmeticOverflow, s)
     | Some ratio \<Rightarrow>
     let raw_bps = sat (sat (ratio - 1000) * 10) in
     case clamp_supply_demand_bps config raw_bps of
       None \<Rightarrow> (Panic, s)
     | Some clamped \<Rightarrow>
     case pricing_state s resource of
       None \<Rightarrow> (Err ResourceNotFound, s)
     | Some state \<Rightarrow>
     let s = s\<lparr>pricing_state := (pricing_state s)(resource \<mapsto> state\<lparr>ps_supply_demand_bps := clamped\<rparr>)\<rparr>
     in (Ok clamped, publish [SS ''pricing'', SS ''sd''] [SS resource, SI ratio, SI clamped] s))"

definition get_price_state :: "symbol \<Rightarrow> 'a pricing_store_scheme \<Rightarrow> (PricingError, PriceState) outcome" where
  "get_price_state resource s = (case pricing_state s resource of None \<Rightarrow> Err ResourceNotFound | Some st \<Rightarrow> Ok st)"

definition get_sma :: "symbol \<Rightarrow> 'a pricing_store_scheme \<Rightarrow> (PricingError, i128) outcome" where
  "get_sma resource s = (case get_price_state resource s of Ok st \<Rightarrow> Ok (ps_sma st) | Err e \<Rightarrow> Err e | Panic \<Rightarrow> Panic)"

definition get_volatility_bps :: "symbol \<Rightarrow> 'a pricing_store_scheme \<Rightarrow> (PricingError, u32) outcome" where
  "get_volatility_bps resource s = (case get_price_state resource s of Ok st \<Rightarrow> Ok (ps_volatility_bps st) | Err e \<Rightarrow> Err e | Panic \<Rightarrow> Panic)"

definition get_pricing_history :: "symbol \<Rightarrow> 'a pricing_store_scheme \<Rightarrow> PricePoint list" where
  "get_pricing_history resource s = unwrap_or (pricing_history s resource) []"

definition dynamic_price :: "symbol \<Rightarrow> 'a pricing_store_scheme \<Rightarrow> (PricingError, DynamicPrice) outcome" where
  "dynamic_price resource s = (case get_price_state resource s of
     Ok state \<Rightarrow> (case price_from_state (get_pricing_config s) state of None \<Rightarrow> Panic | Some p \<Rightarrow> Ok p)
   | Err e \<Rightarrow> Err e | Panic \<Rightarrow> Panic)"

definition listing_price :: "symbol \<Rightarrow> 'a pricing_store_scheme \<Rightarrow> (PricingError, i128) outcome" where
  "listing_price resource s = (case dynamic_price resource s of Ok p \<Rightarrow> Ok (max (dp_published p) 1) | Err e \<Rightarrow> Err e | Panic \<Rightarrow> Panic)"

subsection \<open>Listing at the market price\<close>

datatype DynamicListError = HarvestFailed | PriceUnavailable | InvalidListPrice

definition list_from_pricing :: "PricingError \<Rightarrow> DynamicListError" where
  "list_from_pricing e = (if e = PricingError.InvalidPrice then InvalidListPrice else PriceUnavailable)"

fun harvest_code :: "HarvestError \<Rightarrow> u32" where
  "harvest_code ShipNotFound = 1"
| "harvest_code EmptyHarvest = 2"
| "harvest_code HarvestError.InvalidPrice = 3"
| "harvest_code AssetNotHarvested = 4"
| "harvest_code PriceOverflow = 5"
| "harvest_code DexFailure = 6"
| "harvest_code HarvestError.InsufficientBalance = 7"
| "harvest_code HarvestError.Reentrancy = 8"
| "harvest_code HarvestError.SelfTrade = 9"
| "harvest_code HarvestError.SlippageExceeded = 10"
| "harvest_code HarvestError.InvalidAmount = 11"
| "harvest_code HarvestError.OrderUnavailable = 12"

definition list_at_market :: "env \<Rightarrow> address \<Rightarrow> u64 \<Rightarrow> ExplorerLayout \<Rightarrow> symbol \<Rightarrow> 'a pricing_store_scheme
    \<Rightarrow> (DynamicListError, HarvestResult \<times> DexOffer \<times> i128) outcome \<times> 'a pricing_store_scheme" where
  "list_at_market env player ship_id layout resource s = and_then (map_err list_from_pricing (listing_price resource s, s)) (\<lambda>price s.
     if price \<le> 0 then (Err InvalidListPrice, s)
     else case harvest_and_list env player ship_id layout resource price s of
       (Ok result, s) \<Rightarrow> (Ok (fst result, snd result, price), s)
     | (Err e, s) \<Rightarrow> (Err HarvestFailed, publish [SS ''dlist'', SS ''failed''] [SS resource, SU (harvest_code e)] s)
     | (Panic, s) \<Rightarrow> (Panic, s))"

section \<open>The moving average\<close>

lemma sat_shrink: "0 \<le> x \<Longrightarrow> 0 \<le> sat x \<and> sat x \<le> x" "x \<le> 0 \<Longrightarrow> x \<le> sat x \<and> sat x \<le> 0"
  unfolding sat_def by linarith+

lemma sdiv_pos: "0 \<le> a \<Longrightarrow> 0 < b \<Longrightarrow> 0 \<le> (a::int) sdiv b \<and> (a sdiv b) * b \<le> a"
  by (simp add: sdiv_nonneg pos_imp_zdiv_nonneg_iff minus_mod_eq_div_mult[symmetric])

lemma sdiv_minus: "(- a) sdiv b = - ((a::int) sdiv b)"
  by (simp add: signed_divide_int_def)

lemma tdiv_small: "in_i128 a \<Longrightarrow> unwrap_or (tdiv a 10000) 0 = a sdiv 10000"
proof -
  assume a: "in_i128 a"
  have "in_i128 (a sdiv 10000)"
  proof (cases "0 \<le> a")
    case True
    then show ?thesis using a sdiv_pos[of a 10000] by (simp add: in_i128_def)
  next
    case False
    then show ?thesis using a sdiv_pos[of "- a" 10000] by (simp add: in_i128_def sdiv_minus)
  qed
  then show ?thesis by (simp add: tdiv_def ck_def)
qed

text \<open>The weighted gap lies between zero and the gap.\<close>

lemma weighted_gap:
  assumes "n \<le> 10000"
  shows "0 \<le> d \<Longrightarrow> 0 \<le> sat (d * int n) sdiv 10000 \<and> sat (d * int n) sdiv 10000 * 10000 \<le> d * int n \<and> sat (d * int n) sdiv 10000 \<le> d"
    "d \<le> 0 \<Longrightarrow> sat (d * int n) sdiv 10000 \<le> 0 \<and> d * int n \<le> sat (d * int n) sdiv 10000 * 10000 \<and> d \<le> sat (d * int n) sdiv 10000"
proof -
  have le: "e * int n \<le> e * 10000" if "0 \<le> e" for e using assms that by (intro mult_left_mono) auto
  show "0 \<le> sat (d * int n) sdiv 10000 \<and> sat (d * int n) sdiv 10000 * 10000 \<le> d * int n \<and> sat (d * int n) sdiv 10000 \<le> d" if "0 \<le> d"
  proof -
    have z: "0 \<le> d * int n" using that by simp
    show ?thesis using sdiv_pos[of "sat (d * int n)" 10000] sat_shrink(1)[OF z] le[OF that] by linarith
  qed
  show "sat (d * int n) sdiv 10000 \<le> 0 \<and> d * int n \<le> sat (d * int n) sdiv 10000 * 10000 \<and> d \<le> sat (d * int n) sdiv 10000" if "d \<le> 0"
  proof -
    have z: "d * int n \<le> 0" using that by (simp add: mult_nonpos_nonneg)
    have "sat (d * int n) sdiv 10000 = - ((- sat (d * int n)) sdiv 10000)" by (simp add: sdiv_minus)
    moreover have "0 \<le> (- sat (d * int n)) sdiv 10000 \<and> (- sat (d * int n)) sdiv 10000 * 10000 \<le> - sat (d * int n)"
      using sat_shrink(2)[OF z] by (intro sdiv_pos) auto
    moreover have "- d * int n \<le> - d * 10000" using that by (intro le) simp
    ultimately show ?thesis using sat_shrink(2)[OF z] by linarith
  qed
qed

lemma ema_eval:
  assumes "0 < sma" "sma \<le> i128_max" "0 < raw" "raw \<le> i128_max" "n \<le> 10000"
  shows "\<exists>nxt. ema_step sma raw n = Some nxt \<and> min sma raw \<le> nxt \<and> nxt \<le> max sma raw \<and> (nxt = sma \<longleftrightarrow> raw = sma)
    \<and> (\<bar>nxt - sma\<bar> \<le> 1 \<or> \<bar>nxt - sma\<bar> * 10000 \<le> \<bar>raw - sma\<bar> * int n)"
proof -
  let ?d = "raw - sma"
  define g where "g = sat (?d * int n) sdiv 10000"
  have d: "in_i128 ?d" using assms by (simp add: in_i128_def)
  have g: "unwrap_or (tdiv (sat (?d * int n)) 10000) 0 = g" unfolding g_def by (rule tdiv_small) simp
  have b: "(0 \<le> ?d \<and> 0 \<le> g \<and> g \<le> ?d \<and> g * 10000 \<le> ?d * int n) \<or> (?d \<le> 0 \<and> g \<le> 0 \<and> ?d \<le> g \<and> ?d * int n \<le> g * 10000)"
    using weighted_gap[OF assms(5), of ?d] unfolding g_def[symmetric] by linarith
  then have r: "min sma raw \<le> sma + g" "sma + g \<le> max sma raw" by linarith+
  have s: "sat (sma + g) = sma + g" using r assms unfolding sat_def by linarith
  have w: "\<bar>g\<bar> * 10000 \<le> \<bar>?d\<bar> * int n"
    using b
  proof
    assume "?d \<le> 0 \<and> g \<le> 0 \<and> ?d \<le> g \<and> ?d * int n \<le> g * 10000"
    then show ?thesis by (simp only: abs_of_nonpos mult_minus_left neg_le_iff_le)
  qed simp
  show ?thesis
  proof (cases "g = 0 \<and> ?d \<noteq> 0")
    case True
    define x where "x = sma + (if ?d > 0 then 1 else - 1)"
    have x: "0 < x" "min sma raw \<le> x" "x \<le> max sma raw" "x \<noteq> sma" "\<bar>x - sma\<bar> \<le> 1" using True assms(1,3) unfolding x_def by (auto split: if_splits)
    have "sat x = x" using x(2,3) assms unfolding sat_def by linarith
    then have "ema_step sma raw n = Some x" using True x(1) s by (simp add: ema_step_def ck_def Let_def d g x_def)
    then show ?thesis using True x by (intro exI[of _ x]) simp
  next
    case False
    have z: "0 < sma + g" using r(1) assms(1,3) by linarith
    have "raw = sma \<longleftrightarrow> g = 0" using False b by linarith
    moreover have "ema_step sma raw n = Some (sma + g)" using False z s by (auto simp: ema_step_def ck_def Let_def d g)
    ultimately show ?thesis using r w by (intro exI[of _ "sma + g"]) simp
  qed
qed

lemma deviation_eval:
  assumes "0 < sma" "sma \<le> i128_max" "0 < raw" "raw \<le> i128_max"
  shows "\<exists>dev. deviation_bps sma raw = Some dev \<and> dev \<le> u32_max
    \<and> (\<bar>raw - sma\<bar> * 10000 \<le> i128_max \<and> dev < u32_max \<longrightarrow> \<bar>raw - sma\<bar> * 10000 < sma * (int dev + 1))"
proof -
  let ?d = "\<bar>raw - sma\<bar>"
  have "sat (raw - sma) = raw - sma" using assms by (simp add: sat_def)
  moreover have "in_i128 ?d" using assms by (auto simp: in_i128_def abs_if)
  ultimately
  have e: "deviation_bps sma raw = Some (if sat (?d * 10000) sdiv sma \<ge> int u32_max then u32_max else nat (sat (?d * 10000) sdiv sma))"
    using assms(1) by (simp add: deviation_bps_def ck_def Let_def)
  have s: "0 \<le> sat (?d * 10000)" using sat_shrink(1)[of "?d * 10000"] by simp
  define q where "q = sat (?d * 10000) div sma"
  have q: "sat (?d * 10000) sdiv sma = q" "0 \<le> q" using s assms(1) by (simp_all add: q_def sdiv_nonneg pos_imp_zdiv_nonneg_iff)
  have "?d * 10000 < sma * (q + 1)" if "?d * 10000 \<le> i128_max"
  proof -
    have "sat (?d * 10000) = ?d * 10000" using that by (intro sat_id in_i128_small) simp
    then show ?thesis using assms(1) unfolding q_def by (simp add: distrib_left) (metis add.commute add_less_cancel_right mult_div_mod_eq mult.commute pos_mod_bound)
  qed
  then show ?thesis unfolding e q(1) using q(2) by auto
qed

section \<open>The published price\<close>

definition config_ok :: "PricingConfig \<Rightarrow> bool" where
  "config_ok c \<longleftrightarrow> validate_config c = Ok ()"

lemma config_okD:
  assumes "config_ok c"
  shows "pr_smoothing_bps c \<le> 5000" "0 < pr_smoothing_bps c" "pr_max_deviation_bps c \<le> 20000" "pr_max_volatility_band_bps c \<le> 5000" "pr_supply_demand_adj_bps c \<le> 10000"
  using assms by (auto simp: config_ok_def validate_config_def split: if_splits)

lemma default_config_ok: "config_ok default_issue_452"
  by (simp add: config_ok_def validate_config_def default_issue_452_def)

lemma effective_band_le: "effective_band c v \<le> pr_max_volatility_band_bps c"
  by (simp add: effective_band_def Let_def)

lemma clamp_Some: "lower \<le> upper \<Longrightarrow> \<exists>v. clamp x lower upper = Some v \<and> lower \<le> v \<and> v \<le> upper"
  by (auto simp: clamp_def)

lemma band_clamp:
  assumes "0 < a" "a \<le> i128_max" "n \<le> 10000"
  shows "\<exists>v. clamp_to_band a x n = Some v \<and> 1 \<le> v \<and> v \<le> i128_max \<and> a * (10000 - int n) \<le> v * 10000 \<and> v * 10000 \<le> a * (10000 + int n)"
proof -
  define b where "b = sat (a * int n) sdiv 10000"
  have w: "0 \<le> b" "b * 10000 \<le> a * int n" "b \<le> a" using weighted_gap(1)[OF assms(3), of a] assms(1) by (simp_all add: b_def)
  have e: "unwrap_or (tdiv (sat (a * int n)) 10000) 0 = b" unfolding b_def by (rule tdiv_small) simp
  have s: "sat (a - b) = a - b" using w(1,3) assms(1,2) by (intro sat_id) (simp add: in_i128_def)
  have u: "sat (a + b) \<le> a + b" "a \<le> sat (a + b)" "sat (a + b) \<le> i128_max" using w(1,3) assms(1,2) by (auto simp: sat_def)
  have "max (a - b) 1 \<le> sat (a + b)" using u(2) w(1) assms(1) by auto
  then obtain v where v: "clamp x (max (a - b) 1) (sat (a + b)) = Some v" "max (a - b) 1 \<le> v" "v \<le> sat (a + b)" using clamp_Some by blast
  have "a - b \<le> v" "v \<le> a + b" "1 \<le> v" "v \<le> i128_max" using v(2,3) u(1,3) by auto
  moreover from this have "a * 10000 - a * int n \<le> v * 10000" "v * 10000 \<le> a * 10000 + a * int n" using w(2) by linarith+
  moreover have "clamp_to_band a x n = Some v" using assms(1) v(1) by (simp add: clamp_to_band_def Let_def e s)
  ultimately show ?thesis unfolding right_diff_distrib distrib_left by blast
qed

lemma price_eval:
  assumes "config_ok c" "0 < ps_sma st" "ps_sma st \<le> i128_max"
  shows "\<exists>p. price_from_state c st = Some p \<and> 1 \<le> dp_published p \<and> dp_published p \<le> i128_max \<and> dp_sma p = ps_sma st \<and> dp_band_bps p \<le> 5000
    \<and> ps_sma st * (10000 - int (dp_band_bps p)) \<le> dp_published p * 10000 \<and> dp_published p * 10000 \<le> ps_sma st * (10000 + int (dp_band_bps p))"
proof -
  let ?n = "effective_band c (ps_volatility_bps st)"
  have n: "?n \<le> 5000" using effective_band_le[of c] config_okD(4)[OF assms(1)] by (rule order_trans)
  obtain g where g: "clamp_supply_demand_bps c (ps_supply_demand_bps st) = Some g" unfolding clamp_supply_demand_bps_def clamp_def by simp
  let ?x = "max (sat (ps_sma st + unwrap_or (tdiv (sat (g * ps_sma st)) (int 10000)) 0)) 1"
  have n': "?n \<le> 10000" using n by simp
  obtain v where "clamp_to_band (ps_sma st) ?x ?n = Some v" "1 \<le> v" "v \<le> i128_max" "ps_sma st * (10000 - int ?n) \<le> v * 10000" "v * 10000 \<le> ps_sma st * (10000 + int ?n)"
    using band_clamp[OF assms(2,3) n', of ?x] by blast
  then show ?thesis using g n by (simp add: price_from_state_def Let_def)
qed

section \<open>Steps\<close>

inductive pricing_step :: "env \<Rightarrow> 'a pricing_store_scheme \<Rightarrow> 'a pricing_store_scheme \<Rightarrow> bool" where
  init: "commits (init_pricing_config env a c) s s' \<Longrightarrow> pricing_step env s s'"
| config: "commits (set_pricing_config env a c) s s' \<Longrightarrow> pricing_step env s s'"
| print: "in_i128 n \<Longrightarrow> commits (observe_price env a x n) s s' \<Longrightarrow> pricing_step env s s'"
| balance: "commits (observe_supply_demand env a x n m) s s' \<Longrightarrow> pricing_step env s s'"

definition state_ok :: "symbol \<Rightarrow> PriceState \<Rightarrow> bool" where
  "state_ok x st \<longleftrightarrow> ps_resource st = x \<and> 0 < ps_sma st \<and> ps_sma st \<le> i128_max \<and> ps_volatility_bps st \<le> u32_max \<and> 0 < ps_last_accepted st"

definition pricing_inv :: "'a pricing_store_scheme \<Rightarrow> bool" where
  "pricing_inv s \<longleftrightarrow> config_ok (get_pricing_config s) \<and> (\<forall>x st. pricing_state s x = Some st \<longrightarrow> state_ok x st)
     \<and> (\<forall>x. length (get_pricing_history x s) \<le> MAX_HISTORY_ENTRIES \<and> (\<forall>p \<in> set (get_pricing_history x s). 0 < pp_sma p \<and> 1 \<le> pp_published p))"

lemma publish_pricing [simp]: "pricing_config (publish t d s) = pricing_config s" "pricing_admin (publish t d s) = pricing_admin s"
    "pricing_state (publish t d s) = pricing_state s" "pricing_history (publish t d s) = pricing_history s"
  by (simp_all add: publish_def)

lemma trim_front_set: "set (trim_front ps) \<subseteq> set ps" and trim_front_length: "length (trim_front ps) \<le> MAX_HISTORY_ENTRIES"
  by (induction ps) auto

lemma trim_front_last: "ps \<noteq> [] \<Longrightarrow> trim_front ps \<noteq> [] \<and> last (trim_front ps) = last ps"
proof (induction ps)
  case (Cons p ps)
  then show ?case by (cases "ps = []") auto
qed simp

lemma require_pricing_Ok: "require_pricing_admin env a s = (Ok u, s') \<longleftrightarrow> auth env a \<and> pricing_admin s = Some a \<and> s' = s"
  by (auto simp: require_pricing_admin_def ok_rules)

lemma record_print_Ok:
  assumes "record_print env c x n st s = (Ok st', s')"
  shows "\<exists>p q. price_from_state c st = Some p \<and> st' = st \<and> pricing_config s' = pricing_config s \<and> pricing_admin s' = pricing_admin s \<and> pricing_state s' = (pricing_state s)(x \<mapsto> st)
    \<and> pp_sma q = ps_sma st \<and> pp_published q = dp_published p \<and> pricing_history s' = (pricing_history s)(x \<mapsto> trim_front (get_pricing_history x s @ [q]))"
proof -
  from assms obtain p where p: "price_from_state c st = Some p" by (auto simp: record_print_def ok_rules)
  let ?q = "\<lparr>pp_sma = ps_sma st, pp_raw = n, pp_published = dp_published p, pp_volatility_bps = ps_volatility_bps st, pp_timestamp = timestamp env\<rparr>"
  show ?thesis using assms p by (intro exI[of _ p] exI[of _ ?q]) (auto simp: record_print_def push_history_def get_pricing_history_def Let_def)
qed

lemma record_print_inv:
  assumes ok: "record_print env (get_pricing_config s) x n st s = (Ok st', s')" and inv: "pricing_inv s" and st: "state_ok x st"
  shows "pricing_inv s'"
proof -
  obtain p q where f: "price_from_state (get_pricing_config s) st = Some p" "pricing_config s' = pricing_config s" "pricing_state s' = (pricing_state s)(x \<mapsto> st)"
      "pp_sma q = ps_sma st" "pp_published q = dp_published p" "pricing_history s' = (pricing_history s)(x \<mapsto> trim_front (get_pricing_history x s @ [q]))"
    using record_print_Ok[OF ok] by blast
  have c: "get_pricing_config s' = get_pricing_config s" using f(2) by (simp add: get_pricing_config_def)
  have "0 < pp_sma q" "1 \<le> pp_published q" using price_eval[of "get_pricing_config s" st] inv st f(1,4,5) by (auto simp: pricing_inv_def state_ok_def)
  then have "length (get_pricing_history y s') \<le> MAX_HISTORY_ENTRIES \<and> (\<forall>p \<in> set (get_pricing_history y s'). 0 < pp_sma p \<and> 1 \<le> pp_published p)" for y
    using inv trim_front_set[of "get_pricing_history x s @ [q]"] trim_front_length[of "get_pricing_history x s @ [q]"]
    unfolding pricing_inv_def by (cases "y = x") (auto simp: get_pricing_history_def[of _ s'] f(6) get_pricing_history_def[of y s, symmetric] dest!: subsetD)
  then show ?thesis using inv st f(3) by (simp add: pricing_inv_def c)
qed

lemma observe_Ok:
  assumes "observe_price env a x n s = (Ok st, s')"
  shows "auth env a \<and> pricing_admin s = Some a \<and> 0 < n \<and> (case pricing_state s x of
      None \<Rightarrow> record_print env (get_pricing_config s) x n (seed_state env x n) s = (Ok st, s')
    | Some prior \<Rightarrow> pr_min_cooldown_secs (get_pricing_config s) \<le> timestamp env - ps_last_update prior \<and> (\<exists>dev. deviation_bps (ps_sma prior) n = Some dev
        \<and> (if dev > pr_max_deviation_bps (get_pricing_config s)
           then st = prior\<lparr>ps_rejected_prints := saturating_add u32_max (ps_rejected_prints prior) 1, ps_rejected_last := True\<rparr>
             \<and> pricing_state s' = (pricing_state s)(x \<mapsto> st) \<and> pricing_history s' = pricing_history s \<and> pricing_config s' = pricing_config s \<and> pricing_admin s' = pricing_admin s
           else \<exists>w. fold_print env (get_pricing_config s) n dev prior = Some w \<and> record_print env (get_pricing_config s) x n w s = (Ok st, s'))))"
proof (cases "pricing_state s x")
  case None
  then show ?thesis using assms by (auto simp: observe_price_def ok_rules and_then_Ok require_pricing_Ok Let_def)
next
  case (Some prior)
  from assms have a: "auth env a" "pricing_admin s = Some a" "0 < n" by (auto simp: observe_price_def ok_rules and_then_Ok require_pricing_Ok Let_def)
  from assms Some obtain dev where dev: "deviation_bps (ps_sma prior) n = Some dev" "pr_min_cooldown_secs (get_pricing_config s) \<le> timestamp env - ps_last_update prior"
    by (auto simp: observe_price_def ok_rules and_then_Ok require_pricing_Ok Let_def saturating_sub_def)
  show ?thesis
  proof (cases "dev > pr_max_deviation_bps (get_pricing_config s)")
    case True
    then show ?thesis using assms Some a dev by (auto simp: observe_price_def require_pricing_admin_def Let_def saturating_sub_def)
  next
    case False
    then show ?thesis using assms Some a dev by (auto simp: observe_price_def require_pricing_admin_def Let_def saturating_sub_def ok_rules)
  qed
qed

lemma fold_print_Some:
  assumes "fold_print env c n dev prior = Some st" "state_ok x prior" "config_ok c" "0 < n" "n \<le> i128_max"
  shows "state_ok x st" "ema_step (ps_sma prior) n (pr_smoothing_bps c) = Some (ps_sma st)" "\<not> ps_rejected_last st" "ps_supply_demand_bps st = ps_supply_demand_bps prior"
proof -
  from assms(1) obtain m where m: "ema_step (ps_sma prior) n (pr_smoothing_bps c) = Some m"
      and st: "st = prior\<lparr>ps_sma := m, ps_last_accepted := n, ps_last_update := timestamp env, ps_volatility_bps := ewma_bps (ps_volatility_bps prior) dev (pr_smoothing_bps c),
        ps_observation_count := saturating_add u32_max (ps_observation_count prior) 1, ps_rejected_last := False\<rparr>"
    by (auto simp: fold_print_def)
  have o: "0 < ps_sma prior" "ps_sma prior \<le> i128_max" "pr_smoothing_bps c \<le> 10000" using assms(2) config_okD(1)[OF assms(3)] by (simp_all add: state_ok_def)
  have "0 < m" "m \<le> i128_max" using ema_eval[OF o(1,2) assms(4,5) o(3)] m o assms(4,5) by auto
  moreover have "ewma_bps a b d \<le> u32_max" for a b d by (simp add: ewma_bps_def Let_def nat_le_iff)
  ultimately show "state_ok x st" using assms(2,4) by (simp add: state_ok_def st)
  show "ema_step (ps_sma prior) n (pr_smoothing_bps c) = Some (ps_sma st)" "\<not> ps_rejected_last st" "ps_supply_demand_bps st = ps_supply_demand_bps prior" by (simp_all add: st m)
qed

lemma average_moves:
  assumes "0 < sma" "sma \<le> i128_max" "0 < raw" "raw \<le> i128_max" "al \<le> 5000" "mx \<le> 20000" and dev: "deviation_bps sma raw = Some dev" "dev \<le> mx" and nxt: "ema_step sma raw al = Some nxt"
  shows "min sma raw \<le> nxt \<and> nxt \<le> max sma raw \<and> (nxt = sma \<longleftrightarrow> raw = sma)
    \<and> (raw * 10000 \<le> i128_max \<and> sma * 10000 \<le> i128_max \<longrightarrow> \<bar>nxt - sma\<bar> \<le> 1 \<or> \<bar>nxt - sma\<bar> * 100000000 < sma * int al * (int mx + 1))"
proof -
  have al: "al \<le> 10000" using assms(5) by simp
  have e: "min sma raw \<le> nxt \<and> nxt \<le> max sma raw \<and> (nxt = sma \<longleftrightarrow> raw = sma)" "\<bar>nxt - sma\<bar> \<le> 1 \<or> \<bar>nxt - sma\<bar> * 10000 \<le> \<bar>raw - sma\<bar> * int al"
    using ema_eval[OF assms(1-4) al] nxt by auto
  have "\<bar>nxt - sma\<bar> * 100000000 < sma * int al * (int mx + 1)" if rng: "raw * 10000 \<le> i128_max" "sma * 10000 \<le> i128_max" and big: "\<not> \<bar>nxt - sma\<bar> \<le> 1"
  proof -
    have "\<bar>raw - sma\<bar> * 10000 \<le> i128_max" using rng assms(1,3) by (simp add: abs_if)
    moreover have "dev < u32_max" using dev(2) assms(6) by linarith
    ultimately have r: "\<bar>raw - sma\<bar> * 10000 < sma * (int dev + 1)" using deviation_eval[OF assms(1-4)] dev(1) by auto
    have al0: "0 < int al" using e(2) big by (cases "al = 0") auto
    have "\<bar>nxt - sma\<bar> * 100000000 \<le> (\<bar>raw - sma\<bar> * 10000) * int al" using e(2) big by (simp add: ac_simps)
    also have "\<dots> < sma * (int dev + 1) * int al" using r al0 by (rule mult_strict_right_mono)
    also have "\<dots> \<le> sma * (int mx + 1) * int al" using assms(1) dev(2) by (intro mult_right_mono mult_left_mono) auto
    finally show ?thesis by (simp add: ac_simps)
  qed
  then show ?thesis using e(1) by blast
qed

lemma price_rejected: "price_from_state c (prior\<lparr>ps_rejected_prints := k, ps_rejected_last := b\<rparr>) = price_from_state c prior"
  unfolding price_from_state_def by (simp cong: option.case_cong)

lemma pricing_inv_view:
  assumes "pricing_config s' = pricing_config s" "pricing_history s' = pricing_history s" "pricing_state s' = (pricing_state s)(x \<mapsto> st)" "state_ok x st" "pricing_inv s"
  shows "pricing_inv s'"
  using assms by (simp add: pricing_inv_def get_pricing_config_def get_pricing_history_def)

lemma pricing_print_inv:
  assumes ok: "observe_price env a x n s = (Ok st, s')" and inv: "pricing_inv s" and n: "in_i128 n"
  shows "pricing_inv s'"
proof (cases "pricing_state s x")
  case None
  have r: "record_print env (get_pricing_config s) x n (seed_state env x n) s = (Ok st, s')" "0 < n" using observe_Ok[OF ok] None by simp_all
  have "state_ok x (seed_state env x n)" using r(2) n by (simp add: state_ok_def seed_state_def in_i128_def)
  then show ?thesis using record_print_inv[OF r(1) inv] by simp
next
  case (Some prior)
  have o: "state_ok x prior" "config_ok (get_pricing_config s)" "n \<le> i128_max" using inv Some n by (simp_all add: pricing_inv_def in_i128_def)
  from observe_Ok[OF ok] Some obtain dev where n0: "0 < n" and d: "if dev > pr_max_deviation_bps (get_pricing_config s)
           then st = prior\<lparr>ps_rejected_prints := saturating_add u32_max (ps_rejected_prints prior) 1, ps_rejected_last := True\<rparr>
             \<and> pricing_state s' = (pricing_state s)(x \<mapsto> st) \<and> pricing_history s' = pricing_history s \<and> pricing_config s' = pricing_config s \<and> pricing_admin s' = pricing_admin s
           else \<exists>w. fold_print env (get_pricing_config s) n dev prior = Some w \<and> record_print env (get_pricing_config s) x n w s = (Ok st, s')" by auto
  show ?thesis
  proof (cases "dev > pr_max_deviation_bps (get_pricing_config s)")
    case True
    then have v: "st = prior\<lparr>ps_rejected_prints := saturating_add u32_max (ps_rejected_prints prior) 1, ps_rejected_last := True\<rparr>" "pricing_state s' = (pricing_state s)(x \<mapsto> st)"
      "pricing_history s' = pricing_history s" "pricing_config s' = pricing_config s" using d by simp_all
    have "state_ok x st" using o(1) by (simp add: v(1) state_ok_def)
    then show ?thesis using pricing_inv_view[OF v(4,3,2)] inv by blast
  next
    case False
    then obtain w where "fold_print env (get_pricing_config s) n dev prior = Some w" "record_print env (get_pricing_config s) x n w s = (Ok st, s')" using d by auto
    then show ?thesis using record_print_inv[OF _ inv] fold_print_Some(1) o n0 by blast
  qed
qed

lemma pricing_config_inv:
  assumes "init_pricing_config env a c s = (Ok u, s') \<or> set_pricing_config env a c s = (Ok u, s')" "pricing_inv s"
  shows "pricing_inv s'"
proof -
  from assms(1) have v: "validate_config c = Ok ()" "pricing_config s' = Some c" "pricing_state s' = pricing_state s" "pricing_history s' = pricing_history s"
    by (auto simp: init_pricing_config_def set_pricing_config_def ok_rules and_then_Ok require_pricing_Ok)
  then show ?thesis using assms(2) by (simp add: pricing_inv_def get_pricing_config_def get_pricing_history_def config_ok_def)
qed

lemma pricing_balance_inv:
  assumes "observe_supply_demand env a x n m s = (Ok d, s')" "pricing_inv s"
  shows "pricing_inv s'"
proof -
  from assms(1) obtain st where st: "pricing_state s x = Some st" "pricing_state s' = (pricing_state s)(x \<mapsto> st\<lparr>ps_supply_demand_bps := d\<rparr>)" "pricing_config s' = pricing_config s"
      "pricing_history s' = pricing_history s" by (auto simp: observe_supply_demand_def ok_rules and_then_Ok require_pricing_Ok Let_def split del: if_split)
  have "state_ok x (st\<lparr>ps_supply_demand_bps := d\<rparr>)" using assms(2) st(1) by (simp add: pricing_inv_def state_ok_def)
  then show ?thesis using pricing_inv_view[OF st(3,4,2)] assms(2) by blast
qed

lemma pricing_step_inv: "pricing_step env s s' \<Longrightarrow> pricing_inv s \<Longrightarrow> pricing_inv s'"
proof (induction rule: pricing_step.induct)
  case (print n env a x s s')
  from print.hyps(2) show ?case by (rule commitsE) (rule pricing_print_inv[OF _ print.prems print.hyps(1)])
next
  case (balance env a x n m s s')
  from balance.hyps show ?case by (rule commitsE) (rule pricing_balance_inv[OF _ balance.prems])
qed (erule commitsE, rule pricing_config_inv, blast, assumption)+

interpretation pricing: step_system "\<lambda>s s'. \<exists>env. pricing_step env s s'" pricing_inv
  by unfold_locales (blast intro: pricing_step_inv)

lemma market_list_Ok:
  assumes "list_at_market env p i l x s = (Ok (r, f, n), s')"
  shows "listing_price x s = Ok n \<and> 0 < n \<and> harvest_and_list env p i l x n s = (Ok (r, f), s')"
proof -
  from assms obtain m where m: "listing_price x s = Ok m" "0 < m"
    by (auto simp: list_at_market_def and_then_Ok map_err_Ok ok_rules not_le)
  obtain h u where hu: "harvest_and_list env p i l x m s = (h, u)" by (cases "harvest_and_list env p i l x m s")
  show ?thesis using assms m hu by (cases h) (auto simp: list_at_market_def)
qed

text \<open>The nudge has the wrong sign: twice as much supply as demand raises the price. And the deviation of very large prices saturates, so that a print
  seventeen times the average counts as seventeen basis points.\<close>

lemma oversupply_raises:
  assumes "auth env a" "pricing_admin s = Some a" "pricing_config s = None" "pricing_state s x = Some st"
  shows "fst (observe_supply_demand env a x 200 100 s) = Ok 2500"
  using assms by (simp add: observe_supply_demand_def require_pricing_admin_def get_pricing_config_def default_issue_452_def clamp_supply_demand_bps_def clamp_def ck_def in_i128_def
      sat_def sdiv_nonneg Let_def)

lemma deviation_saturates: "deviation_bps (10 ^ 37) (17 * 10 ^ 37) = Some 17"
  by (simp add: deviation_bps_def ck_def in_i128_def sat_def sdiv_nonneg Let_def)

section \<open>A market\<close>

definition quoted :: pricing_store where
  "quoted = dex_store.extend gas_wallet \<lparr>pricing_config = None, pricing_admin = Some (Addr 1),
     pricing_state = [''gas'' \<mapsto> seed_state (signed_at 0 1) ''gas'' 100], pricing_history = Map.empty\<rparr>"

lemma quoted_simps: "pricing_config quoted = None" "pricing_admin quoted = Some (Addr 1)" "pricing_state quoted = [''gas'' \<mapsto> seed_state (signed_at 0 1) ''gas'' 100]"
    "pricing_history quoted = Map.empty"
  by (simp_all add: quoted_def dex_store.defs)

lemma quoted_inv: "pricing_inv quoted"
  using default_config_ok by (simp add: pricing_inv_def get_pricing_config_def get_pricing_history_def quoted_simps state_ok_def seed_state_def)

section \<open>Properties\<close>

text \<open>C29. The published price. After any run of pricing calls the price and the listing price of every observed resource exist, agree, are at least
  one and lie within half of the moving average, whatever was printed; the history keeps at most 24 points.\<close>

theorem published_price_banded:
  fixes s t :: "'a pricing_store_scheme"
  assumes "(\<lambda>s s'. \<exists>env. pricing_step env s s')\<^sup>*\<^sup>* s t" and "pricing_inv s" and "get_price_state x t = Ok st"
  shows "\<exists>p. dynamic_price x t = Ok p \<and> listing_price x t = Ok (dp_published p) \<and> 1 \<le> dp_published p \<and> get_sma x t = Ok (dp_sma p)
    \<and> dp_sma p \<le> 2 * dp_published p \<and> 2 * dp_published p \<le> 3 * dp_sma p \<and> length (get_pricing_history x t) \<le> 24"
proof -
  have inv: "pricing_inv t" using pricing.run_inv[OF assms(1,2)] .
  have st: "pricing_state t x = Some st" using assms(3) by (auto simp: get_price_state_def split: option.splits)
  then have o: "config_ok (get_pricing_config t)" "0 < ps_sma st" "ps_sma st \<le> i128_max" "length (get_pricing_history x t) \<le> 24" using inv by (simp_all add: pricing_inv_def state_ok_def)
  obtain p where p: "price_from_state (get_pricing_config t) st = Some p" "1 \<le> dp_published p" "dp_sma p = ps_sma st" "dp_band_bps p \<le> 5000"
      "ps_sma st * (10000 - int (dp_band_bps p)) \<le> dp_published p * 10000" "dp_published p * 10000 \<le> ps_sma st * (10000 + int (dp_band_bps p))" using price_eval[OF o(1-3)] by blast
  have "ps_sma st * 5000 \<le> ps_sma st * (10000 - int (dp_band_bps p))" "ps_sma st * (10000 + int (dp_band_bps p)) \<le> ps_sma st * 15000"
    using o(2) p(4) by (intro mult_left_mono; simp)+
  then have "ps_sma st \<le> 2 * dp_published p" "2 * dp_published p \<le> 3 * ps_sma st" using p(5,6) by linarith+
  moreover have "dynamic_price x t = Ok p" using st p(1) by (simp add: dynamic_price_def get_price_state_def)
  ultimately show ?thesis using p(2,3) o(4) st by (intro exI[of _ p]) (simp add: listing_price_def get_sma_def get_price_state_def max_def)
qed

theorem published_price_banded_witness:
  "\<exists>p. dynamic_price ''gas'' quoted = Ok p \<and> 50 \<le> dp_published p \<and> dp_published p \<le> 150"
proof -
  have st: "get_price_state ''gas'' quoted = Ok (seed_state (signed_at 0 1) ''gas'' 100)" by (simp add: get_price_state_def quoted_simps)
  have "get_sma ''gas'' quoted = Ok 100" by (simp add: get_sma_def st seed_state_def)
  then show ?thesis using published_price_banded[OF rtranclp.rtrancl_refl quoted_inv st] by auto
qed

text \<open>A print touches the state and history of its own resource only.\<close>

lemma observe_frame:
  assumes "observe_price env a x n s = (Ok st, s')"
  shows "get_price_state x s' = Ok st" "pricing_config s' = pricing_config s" "pricing_admin s' = pricing_admin s"
    "y \<noteq> x \<Longrightarrow> get_price_state y s' = get_price_state y s \<and> get_pricing_history y s' = get_pricing_history y s"
proof -
  have "pricing_state s' = (pricing_state s)(x \<mapsto> st) \<and> pricing_config s' = pricing_config s \<and> pricing_admin s' = pricing_admin s \<and> (\<exists>h. pricing_history s' = (pricing_history s)(x := h))"
    using observe_Ok[OF assms] by (auto split: option.splits if_splits dest!: record_print_Ok) (metis fun_upd_triv)
  then show "get_price_state x s' = Ok st" "pricing_config s' = pricing_config s" "pricing_admin s' = pricing_admin s"
    "y \<noteq> x \<Longrightarrow> get_price_state y s' = get_price_state y s \<and> get_pricing_history y s' = get_pricing_history y s"
    by (auto simp: get_price_state_def get_pricing_history_def)
qed

lemma later_print:
  fixes s :: "'a pricing_store_scheme"
  assumes "pricing_inv s" and "observe_price env a x n s = (Ok st, s')" and "in_i128 n" and "get_price_state x s = Ok prior"
  shows "pr_min_cooldown_secs (get_pricing_config s) \<le> timestamp env - ps_last_update prior
    \<and> (ps_rejected_last st \<longleftrightarrow> (\<exists>dev. deviation_bps (ps_sma prior) n = Some dev \<and> pr_max_deviation_bps (get_pricing_config s) < dev))
    \<and> (ps_rejected_last st \<longrightarrow> st = prior\<lparr>ps_rejected_prints := min u32_max (ps_rejected_prints prior + 1), ps_rejected_last := True\<rparr>
        \<and> dynamic_price x s' = dynamic_price x s \<and> get_pricing_history x s' = get_pricing_history x s)
    \<and> (\<not> ps_rejected_last st \<longrightarrow> ps_last_update st = timestamp env \<and> ps_last_accepted st = n \<and> ps_rejected_prints st = ps_rejected_prints prior
        \<and> min (ps_sma prior) n \<le> ps_sma st \<and> ps_sma st \<le> max (ps_sma prior) n \<and> (ps_sma st = ps_sma prior \<longleftrightarrow> n = ps_sma prior)
        \<and> (n * 10000 \<le> i128_max \<and> ps_sma prior * 10000 \<le> i128_max \<longrightarrow> \<bar>ps_sma st - ps_sma prior\<bar> \<le> 1
            \<or> \<bar>ps_sma st - ps_sma prior\<bar> * 100000000 < ps_sma prior * int (pr_smoothing_bps (get_pricing_config s)) * (int (pr_max_deviation_bps (get_pricing_config s)) + 1)))"
proof -
  let ?c = "get_pricing_config s"
  have pr: "pricing_state s x = Some prior" using assms(4) by (auto simp: get_price_state_def split: option.splits)
  have o: "state_ok x prior" "config_ok ?c" using assms(1) pr by (simp_all add: pricing_inv_def)
  from observe_Ok[OF assms(2)] pr obtain dev where a: "0 < n" "pr_min_cooldown_secs ?c \<le> timestamp env - ps_last_update prior"
      and dev: "deviation_bps (ps_sma prior) n = Some dev" and d: "if dev > pr_max_deviation_bps ?c
           then st = prior\<lparr>ps_rejected_prints := saturating_add u32_max (ps_rejected_prints prior) 1, ps_rejected_last := True\<rparr>
             \<and> pricing_state s' = (pricing_state s)(x \<mapsto> st) \<and> pricing_history s' = pricing_history s \<and> pricing_config s' = pricing_config s \<and> pricing_admin s' = pricing_admin s
           else \<exists>w. fold_print env ?c n dev prior = Some w \<and> record_print env ?c x n w s = (Ok st, s')" by auto
  have b: "0 < ps_sma prior" "ps_sma prior \<le> i128_max" "n \<le> i128_max" using o(1) assms(3) by (simp_all add: state_ok_def in_i128_def)
  show ?thesis
  proof (cases "dev > pr_max_deviation_bps ?c")
    case True
    then have v: "st = prior\<lparr>ps_rejected_prints := saturating_add u32_max (ps_rejected_prints prior) 1, ps_rejected_last := True\<rparr>" "pricing_state s' = (pricing_state s)(x \<mapsto> st)"
      "pricing_history s' = pricing_history s" "pricing_config s' = pricing_config s" using d by simp_all
    have "dynamic_price x s' = dynamic_price x s" using v pr by (simp add: dynamic_price_def get_price_state_def get_pricing_config_def price_rejected)
    then show ?thesis using a(2) v(1,3) dev True by (simp add: get_pricing_history_def saturating_add_def)
  next
    case False
    then obtain w where w: "fold_print env ?c n dev prior = Some w" "record_print env ?c x n w s = (Ok st, s')" using d by auto
    note f = fold_print_Some[OF w(1) o a(1) b(3)]
    have st: "st = w" using record_print_Ok[OF w(2)] by blast
    have k: "ps_last_update w = timestamp env" "ps_last_accepted w = n" "ps_rejected_prints w = ps_rejected_prints prior" using w(1) by (auto simp: fold_print_def)
    note e = average_moves[OF b(1,2) a(1) b(3) config_okD(1,3)[OF o(2)] dev _ f(2)]
    show ?thesis using a(2) f(3) e False k dev by (simp add: st)
  qed
qed

text \<open>C30. What one print can do. Every print that counts, the first of a resource included, is made and signed by the administrator and has a positive
  price; it leaves the states and histories of all other resources, the configuration and the administrator alone. The first print of a
  resource, which no guard compares with anything, becomes the average. A later print needs the cooldown since the last accepted one to have
  passed. It is discarded exactly when it deviates from the average by more than the configured share: then only the counter of discarded prints
  grows and the flag is set, every other field of the state (the average, the last accepted price, the start of the cooldown), the
  published price and the history stay. Otherwise it starts a new cooldown and moves the average towards the print, strictly if they differ and never past
  it, and (for prices below the range where the deviation saturates) by at most one unit or the configured share of the largest accepted deviation.\<close>

theorem print_moves_average:
  fixes s :: "'a pricing_store_scheme"
  assumes "pricing_inv s" and "observe_price env a x n s = (Ok st, s')" and "in_i128 n"
  shows "auth env a \<and> pricing_admin s = Some a \<and> 0 < n \<and> get_price_state x s' = Ok st
    \<and> (\<forall>y. y \<noteq> x \<longrightarrow> get_price_state y s' = get_price_state y s \<and> get_pricing_history y s' = get_pricing_history y s)
    \<and> get_pricing_config s' = get_pricing_config s \<and> pricing_admin s' = Some a
    \<and> (get_price_state x s = Err ResourceNotFound \<longrightarrow> ps_sma st = n \<and> ps_last_accepted st = n \<and> ps_last_update st = timestamp env
        \<and> ps_rejected_prints st = 0 \<and> \<not> ps_rejected_last st)
    \<and> (\<forall>prior. get_price_state x s = Ok prior \<longrightarrow>
        pr_min_cooldown_secs (get_pricing_config s) \<le> timestamp env - ps_last_update prior
        \<and> (ps_rejected_last st \<longleftrightarrow> (\<exists>dev. deviation_bps (ps_sma prior) n = Some dev \<and> pr_max_deviation_bps (get_pricing_config s) < dev))
        \<and> (ps_rejected_last st \<longrightarrow> st = prior\<lparr>ps_rejected_prints := min u32_max (ps_rejected_prints prior + 1), ps_rejected_last := True\<rparr>
            \<and> dynamic_price x s' = dynamic_price x s \<and> get_pricing_history x s' = get_pricing_history x s)
        \<and> (\<not> ps_rejected_last st \<longrightarrow> ps_last_update st = timestamp env \<and> ps_last_accepted st = n \<and> ps_rejected_prints st = ps_rejected_prints prior
            \<and> min (ps_sma prior) n \<le> ps_sma st \<and> ps_sma st \<le> max (ps_sma prior) n \<and> (ps_sma st = ps_sma prior \<longleftrightarrow> n = ps_sma prior)
            \<and> (n * 10000 \<le> i128_max \<and> ps_sma prior * 10000 \<le> i128_max \<longrightarrow> \<bar>ps_sma st - ps_sma prior\<bar> \<le> 1
                \<or> \<bar>ps_sma st - ps_sma prior\<bar> * 100000000 < ps_sma prior * int (pr_smoothing_bps (get_pricing_config s)) * (int (pr_max_deviation_bps (get_pricing_config s)) + 1))))"
proof -
  let ?c = "get_pricing_config s"
  note ob = observe_Ok[OF assms(2)] and fr = observe_frame[OF assms(2)]
  have a: "auth env a" "pricing_admin s = Some a" "0 < n" using ob by blast+
  have seed: "ps_sma st = n \<and> ps_last_accepted st = n \<and> ps_last_update st = timestamp env \<and> ps_rejected_prints st = 0 \<and> \<not> ps_rejected_last st"
    if "get_price_state x s = Err ResourceNotFound"
  proof -
    have "pricing_state s x = None" using that by (simp add: get_price_state_def split: option.splits)
    then have "record_print env ?c x n (seed_state env x n) s = (Ok st, s')" using ob by simp
    from record_print_Ok[OF this] have "st = seed_state env x n" by blast
    then show ?thesis by (simp add: seed_state_def)
  qed
  have cfg: "get_pricing_config s' = ?c" using fr(2) by (simp add: get_pricing_config_def)
  show ?thesis
    by (intro conjI; (rule allI, rule impI, erule later_print[OF assms])?) (use a fr cfg seed in simp_all)
qed

theorem print_moves_average_witness:
  "\<exists>st s'. observe_price (signed_at 100 1) (Addr 1) ''gas'' 120 quoted = (Ok st, s') \<and> \<not> ps_rejected_last st \<and> 100 < ps_sma st \<and> ps_sma st \<le> 120"
proof -
  let ?r = "observe_price (signed_at 100 1) (Addr 1) ''gas'' 120 quoted"
  have dev: "deviation_bps 100 120 = Some 2000" by (simp add: deviation_bps_def ck_def in_i128_def sat_def sdiv_nonneg)
  obtain st where st: "fold_print (signed_at 100 1) default_issue_452 120 2000 (seed_state (signed_at 0 1) ''gas'' 100) = Some st" "\<not> ps_rejected_last st" "0 < ps_sma st" "ps_sma st \<le> i128_max"
    using ema_eval[of 100 120 2000] by (auto simp: fold_print_def seed_state_def default_issue_452_def)
  obtain p where p: "price_from_state default_issue_452 st = Some p" using price_eval[OF default_config_ok st(3,4)] by blast
  have c: "get_pricing_config quoted = default_issue_452" by (simp add: get_pricing_config_def quoted_simps)
  have v: "pr_max_deviation_bps default_issue_452 = 5000" "pr_min_cooldown_secs default_issue_452 = 60" "ps_sma (seed_state (signed_at 0 1) ''gas'' 100) = 100"
    "ps_last_update (seed_state (signed_at 0 1) ''gas'' 100) = 0" by (simp_all add: default_issue_452_def seed_state_def)
  obtain s' where ok: "?r = (Ok st, s')"
    using st(1) p dev c v by (simp add: observe_price_def require_pricing_admin_def quoted_simps(2,3) Let_def saturating_sub_def record_print_def)
  have prior: "get_price_state ''gas'' quoted = Ok (seed_state (signed_at 0 1) ''gas'' 100)" by (simp add: get_price_state_def quoted_simps)
  have "in_i128 120" by (simp add: in_i128_def)
  from print_moves_average[OF quoted_inv ok this] prior st(2) have "100 < ps_sma st" "ps_sma st \<le> 120" by (auto simp: seed_state_def)
  then show ?thesis using ok st(2) by blast
qed

end
