(* ===== verification/Pvp_Combat.thy ===== *)
theory Pvp_Combat
  imports Access_Control Complex_Main
begin

text \<open>
  \<open>src/pvp_combat.rs\<close>: challenges, turn-based combats, ratings with decay, the matchmaking queue and spectators.
  The module's \<open>Admin\<close> key is a unit variant stored persistently, so it is the same storage entry as the \<open>Admin\<close> key of
  \<open>src/access_control.rs\<close>, the field \<open>ac_admin\<close>. The rating change of a combat is computed in \<open>f64\<close> with the \<open>libm\<close> crate:
  an \<open>f64\<close> is a real number, each \<open>f64\<close> operator rounds its exact result, and the rounding and the two functions of the
  crate are parameters (\<open>f64_env\<close>).
\<close>

section \<open>Model: data\<close>

datatype PvPError = PlayerNotFound | ChallengeAlreadyExists | ChallengeNotFound | Unauthorized | InvalidCombatParams | AlreadyInCombat | CombatNotFound
  | InvalidMove | EloUpdateFailed | QueueFull | NotInQueue | SpectatorLimitReached | AlreadyInitialized

record CombatStats =
  pcs_wins :: u32
  pcs_losses :: u32
  pcs_draws :: u32
  pcs_total_damage_dealt :: u64
  pcs_total_damage_received :: u64
  pcs_elo_rating :: u32
  pcs_combat_count :: u32

record Challenge =
  pch_challenge_id :: u64
  pch_challenger :: address
  pch_opponent :: address
  pch_stake :: i128
  pch_status :: symbol
  pch_created_at :: u64
  pch_expires_at :: u64

record CombatState =
  pcb_combat_id :: u64
  pcb_player1 :: address
  pcb_player2 :: address
  pcb_player1_hp :: u32
  pcb_player2_hp :: u32
  pcb_player1_energy :: u32
  pcb_player2_energy :: u32
  pcb_turn :: address
  pcb_status :: symbol
  pcb_winner :: "address option"
  pcb_started_at :: u64
  pcb_history :: "symbol list"

record CombatHistory =
  phi_combat_id :: u64
  phi_player1 :: address
  phi_player2 :: address
  phi_winner :: "address option"
  phi_rewards :: i128
  phi_played_at :: u64
  phi_duration :: u64

record MatchmakingEntry =
  pmq_player :: address
  pmq_elo_rating :: u32
  pmq_queued_at :: u64
  pmq_preferred_stake :: i128

record RewardsConfig =
  prw_base_reward :: i128
  prw_win_bonus :: i128
  prw_elo_bonus_multiplier :: u32
  prw_streak_bonus :: i128

record SpectatorInfo =
  psi_spectators :: "address list"
  psi_max_spectators :: u32

record EloDecayConfig =
  ped_inactivity_secs :: u64
  ped_decay_points :: u32
  ped_floor :: u32

abbreviation INITIAL_ELO :: u32 where "INITIAL_ELO \<equiv> 1200"
abbreviation K_FACTOR :: u32 where "K_FACTOR \<equiv> 32"
abbreviation MAX_HP :: u32 where "MAX_HP \<equiv> 100"
abbreviation COMBAT_MAX_ENERGY :: u32 where "COMBAT_MAX_ENERGY \<equiv> 100"
abbreviation COMBAT_TIMEOUT :: u64 where "COMBAT_TIMEOUT \<equiv> 3600"
abbreviation CHALLENGE_EXPIRY :: u64 where "CHALLENGE_EXPIRY \<equiv> 86400"
abbreviation MAX_SPECTATORS :: u32 where "MAX_SPECTATORS \<equiv> 50"
abbreviation MAX_QUEUE_SIZE :: u32 where "MAX_QUEUE_SIZE \<equiv> 100"
abbreviation ELO_DECAY_INACTIVITY_SECS :: u64 where "ELO_DECAY_INACTIVITY_SECS \<equiv> 604800"
abbreviation ELO_DECAY_BASE_POINTS :: u32 where "ELO_DECAY_BASE_POINTS \<equiv> 10"
abbreviation ELO_DECAY_FLOOR :: u32 where "ELO_DECAY_FLOOR \<equiv> 1000"

record pvp_store = access_store +
  player_stats :: "address \<rightharpoonup> CombatStats"
  pvp_challenges :: "u64 \<rightharpoonup> Challenge"
  challenge_counter :: "u64 option"
  combats :: "u64 \<rightharpoonup> CombatState"
  combat_counter :: "u64 option"
  combat_history :: "(address \<times> u64) \<rightharpoonup> CombatHistory"
  combat_history_counter :: "address \<rightharpoonup> u64"
  matchmaking_queue :: "MatchmakingEntry list option"
  elo_rating :: "address \<rightharpoonup> u32"
  spectators :: "u64 \<rightharpoonup> SpectatorInfo"
  rewards_config :: "RewardsConfig option"
  last_active :: "address \<rightharpoonup> u64"
  elo_decay_config :: "EloDecayConfig option"

section \<open>Model: administration, ratings and decay\<close>

definition set_pvp_admin :: "env \<Rightarrow> address \<Rightarrow> 'a pvp_store_scheme \<Rightarrow> (PvPError, unit) outcome \<times> 'a pvp_store_scheme" where
  "set_pvp_admin env admin s =
    (if \<not> auth env admin then (Panic, s)
     else if ac_admin s \<noteq> None then (Err AlreadyInitialized, s)
     else (Ok (), publish [SS ''pvp'', SS ''admin_set''] [SA admin] (s\<lparr>ac_admin := Some admin\<rparr>)))"

definition require_pvp_admin :: "env \<Rightarrow> address \<Rightarrow> 'a pvp_store_scheme \<Rightarrow> (PvPError, unit) outcome \<times> 'a pvp_store_scheme" where
  "require_pvp_admin env caller s =
    (if \<not> auth env caller then (Panic, s)
     else case ac_admin s of
       None \<Rightarrow> (Err Unauthorized, s)
     | Some admin \<Rightarrow> if caller \<noteq> admin then (Err Unauthorized, s) else (Ok (), s))"

definition get_elo_rating :: "address \<Rightarrow> 'a pvp_store_scheme \<Rightarrow> u32" where
  "get_elo_rating player s = unwrap_or (elo_rating s player) INITIAL_ELO"

definition write_elo_rating :: "address \<Rightarrow> u32 \<Rightarrow> u32 \<Rightarrow> 'a pvp_store_scheme \<Rightarrow> 'a pvp_store_scheme" where
  "write_elo_rating player old_elo new_rating s =
    publish [SS ''pvp'', SS ''elo_upd''] [SA player, SU old_elo, SU new_rating] (s\<lparr>elo_rating := (elo_rating s)(player \<mapsto> new_rating)\<rparr>)"

text \<open>The \<open>f64\<close> arithmetic: the rounding of an exact result to a double, and \<open>libm::pow\<close> and \<open>libm::round\<close>. A \<open>u32\<close> converts
  exactly; the conversion back saturates. Infinity is not represented: for rating gaps above about 123000 points \<open>pow\<close> overflows to it, and the
  expected score is then zero as for any power that is large enough.\<close>

record f64_env =
  fl :: "real \<Rightarrow> real"
  libm_pow :: "real \<Rightarrow> real \<Rightarrow> real"
  libm_round :: "real \<Rightarrow> real"

definition as_u32 :: "real \<Rightarrow> u32" where
  "as_u32 x = nat (min (int u32_max) (max 0 \<lfloor>x\<rfloor>))"

definition calculate_elo_change :: "f64_env \<Rightarrow> u32 \<Rightarrow> u32 \<Rightarrow> u32 \<times> u32" where
  "calculate_elo_change fp winner_rating loser_rating =
    (let expected_winner = fl fp (1 / fl fp (1 + libm_pow fp 10 (fl fp (fl fp (real loser_rating - real winner_rating) / 400))));
         expected_loser = fl fp (1 / fl fp (1 + libm_pow fp 10 (fl fp (fl fp (real winner_rating - real loser_rating) / 400))));
         winner_change = as_u32 (libm_round fp (fl fp (real K_FACTOR * fl fp (1 - expected_winner))));
         loser_change = as_u32 \<bar>libm_round fp (fl fp (real K_FACTOR * fl fp (0 - expected_loser)))\<bar>
     in (winner_change, loser_change))"

definition update_last_active :: "env \<Rightarrow> address \<Rightarrow> 'a pvp_store_scheme \<Rightarrow> 'a pvp_store_scheme" where
  "update_last_active env player s =
    publish [SS ''pvp'', SS ''last_act''] [SA player, SU (timestamp env)] (s\<lparr>last_active := (last_active s)(player \<mapsto> timestamp env)\<rparr>)"

definition get_last_active :: "address \<Rightarrow> 'a pvp_store_scheme \<Rightarrow> u64" where
  "get_last_active player s = unwrap_or (last_active s player) 0"

definition set_elo_decay_config :: "env \<Rightarrow> address \<Rightarrow> EloDecayConfig \<Rightarrow> 'a pvp_store_scheme \<Rightarrow> (PvPError, unit) outcome \<times> 'a pvp_store_scheme" where
  "set_elo_decay_config env caller config s = and_then (require_pvp_admin env caller s) (\<lambda>_ s.
     (Ok (), publish [SS ''pvp'', SS ''elo_cfg''] [SA caller, SU (ped_inactivity_secs config), SU (ped_decay_points config), SU (ped_floor config)]
        (s\<lparr>elo_decay_config := Some config\<rparr>)))"

definition get_elo_decay_config :: "'a pvp_store_scheme \<Rightarrow> EloDecayConfig" where
  "get_elo_decay_config s = unwrap_or (elo_decay_config s)
     \<lparr>ped_inactivity_secs = ELO_DECAY_INACTIVITY_SECS, ped_decay_points = ELO_DECAY_BASE_POINTS, ped_floor = ELO_DECAY_FLOOR\<rparr>"

text \<open>The division by \<open>inactivity_secs\<close> traps when it is zero.\<close>

definition decay_elo :: "env \<Rightarrow> address \<Rightarrow> 'a pvp_store_scheme \<Rightarrow> (PvPError, u32 \<times> u32) outcome \<times> 'a pvp_store_scheme" where
  "decay_elo env player s =
    (let current_elo = get_elo_rating player s; seen = get_last_active player s in
     if seen = 0 then (Ok (current_elo, current_elo), s)
     else let inactive_duration = saturating_sub (timestamp env) seen; config = get_elo_decay_config s in
     if inactive_duration < ped_inactivity_secs config then (Ok (current_elo, current_elo), s)
     else case checked_div inactive_duration (ped_inactivity_secs config) of
       None \<Rightarrow> (Panic, s)
     | Some periods \<Rightarrow>
     let points = saturating_mul u64_max (ped_decay_points config) periods;
         total_decay = (if points \<le> u32_max then points else u32_max);
         new_elo = max (saturating_sub current_elo total_decay) (ped_floor config)
     in (Ok (current_elo, new_elo),
         if new_elo \<noteq> current_elo
         then publish [SS ''pvp'', SS ''elo_decay''] [SA player, SU current_elo, SU new_elo] (write_elo_rating player current_elo new_elo s)
         else s))"

definition apply_elo_decay :: "env \<Rightarrow> address \<Rightarrow> 'a pvp_store_scheme \<Rightarrow> (PvPError, u32) outcome \<times> 'a pvp_store_scheme" where
  "apply_elo_decay env player s = and_then (decay_elo env player s) (\<lambda>(before, after) s.
     (Ok after, if after \<noteq> before then update_last_active env player s else s))"

fun decay_players :: "env \<Rightarrow> address list \<Rightarrow> u32 \<Rightarrow> 'a pvp_store_scheme \<Rightarrow> (PvPError, u32) outcome \<times> 'a pvp_store_scheme" where
  "decay_players env [] affected s = (Ok affected, s)"
| "decay_players env (player # players) affected s = and_then (decay_elo env player s) (\<lambda>(before, after) s.
     if after \<noteq> before then
       let s = update_last_active env player s in
       (case checked_add u32_max affected 1 of None \<Rightarrow> (Panic, s) | Some affected \<Rightarrow> decay_players env players affected s)
     else decay_players env players affected s)"

definition apply_batch_elo_decay :: "env \<Rightarrow> address \<Rightarrow> address list \<Rightarrow> 'a pvp_store_scheme \<Rightarrow> (PvPError, u32) outcome \<times> 'a pvp_store_scheme" where
  "apply_batch_elo_decay env caller players s = and_then (require_pvp_admin env caller s) (\<lambda>_ s. decay_players env players 0 s)"

definition load_stats_with_elo :: "env \<Rightarrow> address \<Rightarrow> 'a pvp_store_scheme \<Rightarrow> (PvPError, CombatStats \<times> u32) outcome \<times> 'a pvp_store_scheme" where
  "load_stats_with_elo env player s =
    (let stats = unwrap_or (player_stats s player) \<lparr>pcs_wins = 0, pcs_losses = 0, pcs_draws = 0, pcs_total_damage_dealt = 0, pcs_total_damage_received = 0,
           pcs_elo_rating = INITIAL_ELO, pcs_combat_count = 0\<rparr>
     in and_then (decay_elo env player s) (\<lambda>(_, elo) s. (Ok (stats, elo), update_last_active env player s)))"

definition get_or_init_stats :: "env \<Rightarrow> address \<Rightarrow> 'a pvp_store_scheme \<Rightarrow> (PvPError, CombatStats) outcome \<times> 'a pvp_store_scheme" where
  "get_or_init_stats env player s = and_then (load_stats_with_elo env player s) (\<lambda>(stats, _) s. (Ok stats, s))"

definition get_combat_stats :: "env \<Rightarrow> address \<Rightarrow> 'a pvp_store_scheme \<Rightarrow> (PvPError, CombatStats) outcome \<times> 'a pvp_store_scheme" where
  "get_combat_stats env player s = get_or_init_stats env player s"

definition update_stats :: "address \<Rightarrow> CombatStats \<Rightarrow> 'a pvp_store_scheme \<Rightarrow> 'a pvp_store_scheme" where
  "update_stats player stats s =
    publish [SS ''pvp'', SS ''stats_upd''] [SA player, SU (pcs_wins stats), SU (pcs_losses stats), SU (pcs_draws stats)]
      (s\<lparr>player_stats := (player_stats s)(player \<mapsto> stats)\<rparr>)"

section \<open>Model: challenges and combats\<close>

definition create_challenge :: "env \<Rightarrow> address \<Rightarrow> address \<Rightarrow> i128 \<Rightarrow> 'a pvp_store_scheme \<Rightarrow> (PvPError, u64) outcome \<times> 'a pvp_store_scheme" where
  "create_challenge env challenger opponent stake_amount s =
    (if \<not> auth env challenger then (Panic, s)
     else and_then (get_or_init_stats env opponent s) (\<lambda>_ s.
     let s = update_last_active env challenger s in
     case checked_add u64_max (unwrap_or (challenge_counter s) 0) 1 of
       None \<Rightarrow> (Panic, s)
     | Some challenge_id \<Rightarrow>
     let s = s\<lparr>challenge_counter := Some challenge_id\<rparr>; now = timestamp env in
     case checked_add u64_max now CHALLENGE_EXPIRY of
       None \<Rightarrow> (Panic, s)
     | Some expires \<Rightarrow>
     let challenge = \<lparr>pch_challenge_id = challenge_id, pch_challenger = challenger, pch_opponent = opponent, pch_stake = stake_amount,
           pch_status = ''pending'', pch_created_at = now, pch_expires_at = expires\<rparr>;
         s = s\<lparr>pvp_challenges := (pvp_challenges s)(challenge_id \<mapsto> challenge)\<rparr>
     in (Ok challenge_id, publish [SS ''pvp'', SS ''chall''] [SA challenger, SA opponent, SU challenge_id] s)))"

text \<open>Entering a player into a combat: read the statistics (with decay), count the combat, write them back.\<close>

definition count_combat :: "env \<Rightarrow> address \<Rightarrow> 'a pvp_store_scheme \<Rightarrow> (PvPError, unit) outcome \<times> 'a pvp_store_scheme" where
  "count_combat env player s = and_then (get_or_init_stats env player s) (\<lambda>stats s.
     case checked_add u32_max (pcs_combat_count stats) 1 of
       None \<Rightarrow> (Panic, s)
     | Some n \<Rightarrow> (Ok (), update_stats player (stats\<lparr>pcs_combat_count := n\<rparr>) s))"

definition start_combat :: "env \<Rightarrow> address \<Rightarrow> address \<Rightarrow> u64 \<Rightarrow> 'a pvp_store_scheme \<Rightarrow> (PvPError, u64) outcome \<times> 'a pvp_store_scheme" where
  "start_combat env player1 player2 challenge_id s =
    (case checked_add u64_max (unwrap_or (combat_counter s) 0) 1 of
       None \<Rightarrow> (Panic, s)
     | Some combat_id \<Rightarrow>
     let s = s\<lparr>combat_counter := Some combat_id\<rparr>;
         now = timestamp env;
         turn = (if now mod 2 = 0 then player1 else player2);
         combat = \<lparr>pcb_combat_id = combat_id, pcb_player1 = player1, pcb_player2 = player2, pcb_player1_hp = MAX_HP, pcb_player2_hp = MAX_HP,
           pcb_player1_energy = COMBAT_MAX_ENERGY, pcb_player2_energy = COMBAT_MAX_ENERGY, pcb_turn = turn, pcb_status = ''active'', pcb_winner = None,
           pcb_started_at = now, pcb_history = []\<rparr>;
         s = s\<lparr>combats := (combats s)(combat_id \<mapsto> combat)\<rparr>
     in and_then (count_combat env player1 s) (\<lambda>_ s. and_then (count_combat env player2 s) (\<lambda>_ s.
     (Ok combat_id, publish [SS ''pvp'', SS ''start''] [SU combat_id, SA player1, SA player2, SU challenge_id] s))))"

definition accept_challenge :: "env \<Rightarrow> address \<Rightarrow> u64 \<Rightarrow> 'a pvp_store_scheme \<Rightarrow> (PvPError, u64) outcome \<times> 'a pvp_store_scheme" where
  "accept_challenge env caller challenge_id s =
    (if \<not> auth env caller then (Panic, s)
     else case pvp_challenges s challenge_id of
       None \<Rightarrow> (Err ChallengeNotFound, s)
     | Some challenge \<Rightarrow>
     if pch_opponent challenge \<noteq> caller then (Err Unauthorized, s)
     else if pch_status challenge \<noteq> ''pending'' then (Err InvalidCombatParams, s)
     else if timestamp env > pch_expires_at challenge then
       (Err ChallengeNotFound, s\<lparr>pvp_challenges := (pvp_challenges s)(challenge_id \<mapsto> challenge\<lparr>pch_status := ''expired''\<rparr>)\<rparr>)
     else let s = s\<lparr>pvp_challenges := (pvp_challenges s)(challenge_id \<mapsto> challenge\<lparr>pch_status := ''accepted''\<rparr>)\<rparr>;
         s = update_last_active env caller s;
         s = update_last_active env (pch_challenger challenge) s
     in start_combat env (pch_challenger challenge) caller challenge_id s)"

definition decline_challenge :: "env \<Rightarrow> address \<Rightarrow> u64 \<Rightarrow> 'a pvp_store_scheme \<Rightarrow> (PvPError, unit) outcome \<times> 'a pvp_store_scheme" where
  "decline_challenge env caller challenge_id s =
    (if \<not> auth env caller then (Panic, s)
     else case pvp_challenges s challenge_id of
       None \<Rightarrow> (Err ChallengeNotFound, s)
     | Some challenge \<Rightarrow>
     if pch_opponent challenge \<noteq> caller \<and> pch_challenger challenge \<noteq> caller then (Err Unauthorized, s)
     else (Ok (), publish [SS ''pvp'', SS ''decline''] [SA caller, SU challenge_id]
       (s\<lparr>pvp_challenges := (pvp_challenges s)(challenge_id \<mapsto> challenge\<lparr>pch_status := ''declined''\<rparr>)\<rparr>)))"

definition get_challenge :: "u64 \<Rightarrow> 'a pvp_store_scheme \<Rightarrow> (PvPError, Challenge) outcome" where
  "get_challenge challenge_id s = (case pvp_challenges s challenge_id of None \<Rightarrow> Err ChallengeNotFound | Some c \<Rightarrow> Ok c)"

definition record_combat_history :: "address \<Rightarrow> CombatHistory \<Rightarrow> 'a pvp_store_scheme \<Rightarrow> (PvPError, unit) outcome \<times> 'a pvp_store_scheme" where
  "record_combat_history player history s =
    (let counter = unwrap_or (combat_history_counter s player) 0;
         s = s\<lparr>combat_history := (combat_history s)((player, counter) \<mapsto> history)\<rparr>
     in case checked_add u64_max counter 1 of
       None \<Rightarrow> (Panic, s)
     | Some n \<Rightarrow> (Ok (), s\<lparr>combat_history_counter := (combat_history_counter s)(player \<mapsto> n)\<rparr>))"

text \<open>The result of a combat in the two statistics records; \<open>None\<close> is the trap of a counter at its maximum.\<close>

definition add_win :: "CombatStats \<Rightarrow> CombatStats option" where
  "add_win st = map_option (\<lambda>n. st\<lparr>pcs_wins := n\<rparr>) (checked_add u32_max (pcs_wins st) 1)"

definition add_loss :: "CombatStats \<Rightarrow> CombatStats option" where
  "add_loss st = map_option (\<lambda>n. st\<lparr>pcs_losses := n\<rparr>) (checked_add u32_max (pcs_losses st) 1)"

definition add_draw :: "CombatStats \<Rightarrow> CombatStats option" where
  "add_draw st = map_option (\<lambda>n. st\<lparr>pcs_draws := n\<rparr>) (checked_add u32_max (pcs_draws st) 1)"

definition score_stats :: "CombatState \<Rightarrow> CombatStats \<Rightarrow> CombatStats \<Rightarrow> (CombatStats \<times> CombatStats) option" where
  "score_stats combat stats1 stats2 = (case pcb_winner combat of
     Some w \<Rightarrow> if w = pcb_player1 combat
       then (case add_win stats1 of None \<Rightarrow> None | Some stats1 \<Rightarrow> map_option (\<lambda>stats2. (stats1, stats2)) (add_loss stats2))
       else (case add_win stats2 of None \<Rightarrow> None | Some stats2 \<Rightarrow> map_option (\<lambda>stats1. (stats1, stats2)) (add_loss stats1))
   | None \<Rightarrow> (case add_draw stats1 of None \<Rightarrow> None | Some stats1 \<Rightarrow> map_option (\<lambda>stats2. (stats1, stats2)) (add_draw stats2)))"

definition score_ratings :: "f64_env \<Rightarrow> CombatState \<Rightarrow> u32 \<Rightarrow> u32 \<Rightarrow> 'a pvp_store_scheme \<Rightarrow> 'a pvp_store_scheme" where
  "score_ratings fp combat elo1 elo2 s = (case pcb_winner combat of
     None \<Rightarrow> s
   | Some w \<Rightarrow>
     let (change1, change2) = calculate_elo_change fp elo1 elo2 in
     if w = pcb_player1 combat
     then write_elo_rating (pcb_player2 combat) elo2 (saturating_sub elo2 (min change2 elo2))
            (write_elo_rating (pcb_player1 combat) elo1 (saturating_add u32_max elo1 change1) s)
     else write_elo_rating (pcb_player1 combat) elo1 (saturating_sub elo1 (min change2 elo1))
            (write_elo_rating (pcb_player2 combat) elo2 (saturating_add u32_max elo2 change1) s))"

definition end_combat :: "f64_env \<Rightarrow> env \<Rightarrow> CombatState \<Rightarrow> 'a pvp_store_scheme \<Rightarrow> (PvPError, unit) outcome \<times> 'a pvp_store_scheme" where
  "end_combat fp env combat s =
    (case checked_sub (timestamp env) (pcb_started_at combat) of
       None \<Rightarrow> (Panic, s)
     | Some duration \<Rightarrow>
     and_then (load_stats_with_elo env (pcb_player1 combat) s) (\<lambda>(stats1, elo1) s.
     and_then (load_stats_with_elo env (pcb_player2 combat) s) (\<lambda>(stats2, elo2) s.
     case score_stats combat stats1 stats2 of
       None \<Rightarrow> (Panic, s)
     | Some (stats1, stats2) \<Rightarrow>
     let s = score_ratings fp combat elo1 elo2 s;
         s = update_stats (pcb_player1 combat) stats1 s;
         s = update_stats (pcb_player2 combat) stats2 s;
         history = \<lparr>phi_combat_id = pcb_combat_id combat, phi_player1 = pcb_player1 combat, phi_player2 = pcb_player2 combat, phi_winner = pcb_winner combat,
           phi_rewards = 0, phi_played_at = pcb_started_at combat, phi_duration = duration\<rparr>
     in and_then (record_combat_history (pcb_player1 combat) history s) (\<lambda>_ s.
        and_then (record_combat_history (pcb_player2 combat) history s) (\<lambda>_ s.
        (Ok (), publish [SS ''pvp'', SS ''end'']
           (SU (pcb_combat_id combat) # (case pcb_winner combat of None \<Rightarrow> [] | Some w \<Rightarrow> [SA w]) @ [SU duration]) s))))))"

definition spend_energy :: "u32 \<Rightarrow> bool \<Rightarrow> CombatState \<Rightarrow> CombatState option" where
  "spend_energy energy_cost is_player1 combat =
    (if is_player1
     then if pcb_player1_energy combat < energy_cost then None else Some (combat\<lparr>pcb_player1_energy := pcb_player1_energy combat - energy_cost\<rparr>)
     else if pcb_player2_energy combat < energy_cost then None else Some (combat\<lparr>pcb_player2_energy := pcb_player2_energy combat - energy_cost\<rparr>))"

definition hit :: "u32 \<Rightarrow> bool \<Rightarrow> CombatState \<Rightarrow> CombatState" where
  "hit damage is_player1 combat =
    (if is_player1 then combat\<lparr>pcb_player2_hp := saturating_sub (pcb_player2_hp combat) damage\<rparr>
     else combat\<lparr>pcb_player1_hp := saturating_sub (pcb_player1_hp combat) damage\<rparr>)"

definition log_move :: "bool \<Rightarrow> symbol \<Rightarrow> symbol \<Rightarrow> CombatState \<Rightarrow> CombatState" where
  "log_move is_player1 l1 l2 combat = combat\<lparr>pcb_history := pcb_history combat @ [if is_player1 then l1 else l2]\<rparr>"

definition process_move :: "symbol \<Rightarrow> u32 \<Rightarrow> bool \<Rightarrow> CombatState \<Rightarrow> (PvPError, CombatState) outcome" where
  "process_move move_type move_power is_player1 combat =
    (if move_type = ''attack'' then Ok (log_move is_player1 ''p1_attack'' ''p2_attack'' (hit move_power is_player1 combat))
     else if move_type = ''defend'' then
       Ok (log_move is_player1 ''p1_defend'' ''p2_defend''
         (if is_player1 then combat\<lparr>pcb_player1_energy := saturating_add u32_max (pcb_player1_energy combat) 10\<rparr>
          else combat\<lparr>pcb_player2_energy := saturating_add u32_max (pcb_player2_energy combat) 10\<rparr>))
     else if move_type = ''special'' then
       (case checked_mul u32_max move_power 2 of None \<Rightarrow> Panic
        | Some damage \<Rightarrow> Ok (log_move is_player1 ''p1_special'' ''p2_special'' (hit damage is_player1 combat)))
     else if move_type = ''heal'' then
       (case checked_add u32_max (if is_player1 then pcb_player1_hp combat else pcb_player2_hp combat) (move_power div 2) of None \<Rightarrow> Panic
        | Some hp \<Rightarrow> Ok (log_move is_player1 ''p1_heal'' ''p2_heal''
            (if is_player1 then combat\<lparr>pcb_player1_hp := min hp MAX_HP\<rparr> else combat\<lparr>pcb_player2_hp := min hp MAX_HP\<rparr>)))
     else Err InvalidMove)"

text \<open>The end of a move: a winner if somebody has no hit points left, otherwise the other side's turn.\<close>

definition conclude_move :: "f64_env \<Rightarrow> env \<Rightarrow> bool \<Rightarrow> CombatState \<Rightarrow> 'a pvp_store_scheme \<Rightarrow> (PvPError, CombatState) outcome \<times> 'a pvp_store_scheme" where
  "conclude_move fp env is_player1 combat s =
    (if pcb_player1_hp combat = 0 then
       let combat = combat\<lparr>pcb_winner := Some (pcb_player2 combat), pcb_status := ''finished''\<rparr>
       in and_then (end_combat fp env combat s) (\<lambda>_ s. (Ok combat, s))
     else if pcb_player2_hp combat = 0 then
       let combat = combat\<lparr>pcb_winner := Some (pcb_player1 combat), pcb_status := ''finished''\<rparr>
       in and_then (end_combat fp env combat s) (\<lambda>_ s. (Ok combat, s))
     else (Ok (combat\<lparr>pcb_turn := if is_player1 then pcb_player2 combat else pcb_player1 combat\<rparr>), s))"

definition execute_move :: "f64_env \<Rightarrow> env \<Rightarrow> address \<Rightarrow> u64 \<Rightarrow> symbol \<Rightarrow> u32 \<Rightarrow> 'a pvp_store_scheme \<Rightarrow> (PvPError, unit) outcome \<times> 'a pvp_store_scheme" where
  "execute_move fp env player combat_id move_type move_power s =
    (if \<not> auth env player then (Panic, s)
     else case combats s combat_id of
       None \<Rightarrow> (Err CombatNotFound, s)
     | Some combat \<Rightarrow>
     if pcb_status combat \<noteq> ''active'' then (Err InvalidCombatParams, s)
     else if pcb_turn combat \<noteq> player then (Err InvalidMove, s)
     else let s = update_last_active env player s in
     case checked_add u64_max (pcb_started_at combat) COMBAT_TIMEOUT of
       None \<Rightarrow> (Panic, s)
     | Some deadline \<Rightarrow>
     if timestamp env > deadline then (Err CombatNotFound, s\<lparr>combats := (combats s)(combat_id \<mapsto> combat\<lparr>pcb_status := ''cancelled''\<rparr>)\<rparr>)
     else let is_player1 = (player = pcb_player1 combat) in
     case spend_energy (move_power div 2) is_player1 combat of
       None \<Rightarrow> (Err InvalidMove, s)
     | Some combat \<Rightarrow>
     and_then (process_move move_type move_power is_player1 combat, s) (\<lambda>combat s.
     and_then (conclude_move fp env is_player1 combat s) (\<lambda>combat s.
     (Ok (), s\<lparr>combats := (combats s)(combat_id \<mapsto> combat)\<rparr>))))"

definition get_combat :: "u64 \<Rightarrow> 'a pvp_store_scheme \<Rightarrow> (PvPError, CombatState) outcome" where
  "get_combat combat_id s = (case combats s combat_id of None \<Rightarrow> Err CombatNotFound | Some c \<Rightarrow> Ok c)"

definition get_player_combat_history :: "address \<Rightarrow> u32 \<Rightarrow> 'a pvp_store_scheme \<Rightarrow> CombatHistory list" where
  "get_player_combat_history player limit s =
    (let counter = unwrap_or (combat_history_counter s player) 0;
         start = (if counter > limit then counter - limit else 0)
     in concat (map (\<lambda>i. case combat_history s (player, i) of None \<Rightarrow> [] | Some h \<Rightarrow> [h]) [start..<counter]))"

section \<open>Model: matchmaking, spectators and rewards\<close>

definition join_matchmaking :: "env \<Rightarrow> address \<Rightarrow> i128 \<Rightarrow> 'a pvp_store_scheme \<Rightarrow> (PvPError, unit) outcome \<times> 'a pvp_store_scheme" where
  "join_matchmaking env player preferred_stake s =
    (if \<not> auth env player then (Panic, s)
     else let s = update_last_active env player s; queue = unwrap_or (matchmaking_queue s) [] in
     if length queue \<ge> MAX_QUEUE_SIZE then (Err QueueFull, s)
     else if list_ex (\<lambda>entry. pmq_player entry = player) queue then (Err AlreadyInCombat, s)
     else let elo = get_elo_rating player s;
         entry = \<lparr>pmq_player = player, pmq_elo_rating = elo, pmq_queued_at = timestamp env, pmq_preferred_stake = preferred_stake\<rparr>
     in (Ok (), publish [SS ''pvp'', SS ''queue''] [SA player, SU elo] (s\<lparr>matchmaking_queue := Some (queue @ [entry])\<rparr>)))"

definition leave_matchmaking :: "env \<Rightarrow> address \<Rightarrow> 'a pvp_store_scheme \<Rightarrow> (PvPError, unit) outcome \<times> 'a pvp_store_scheme" where
  "leave_matchmaking env player s =
    (if \<not> auth env player then (Panic, s)
     else let queue = unwrap_or (matchmaking_queue s) [];
         new_queue = filter (\<lambda>entry. pmq_player entry \<noteq> player) queue;
         found = list_ex (\<lambda>entry. pmq_player entry = player) queue in
     if \<not> found then (Err NotInQueue, s)
     else (Ok (), publish [SS ''pvp'', SS ''mq_leave''] [SA player] (s\<lparr>matchmaking_queue := Some new_queue\<rparr>)))"

definition process_matchmaking :: "'a pvp_store_scheme \<Rightarrow> (PvPError, (address \<times> address) option) outcome \<times> 'a pvp_store_scheme" where
  "process_matchmaking s = (case unwrap_or (matchmaking_queue s) [] of
     entry1 # entry2 # new_queue \<Rightarrow> (Ok (Some (pmq_player entry1, pmq_player entry2)), s\<lparr>matchmaking_queue := Some new_queue\<rparr>)
   | _ \<Rightarrow> (Ok None, s))"

definition get_matchmaking_queue_size :: "'a pvp_store_scheme \<Rightarrow> u32" where
  "get_matchmaking_queue_size s = length (unwrap_or (matchmaking_queue s) [])"

definition add_spectator :: "env \<Rightarrow> address \<Rightarrow> u64 \<Rightarrow> 'a pvp_store_scheme \<Rightarrow> (PvPError, unit) outcome \<times> 'a pvp_store_scheme" where
  "add_spectator env spectator combat_id s =
    (if \<not> auth env spectator then (Panic, s)
     else case combats s combat_id of
       None \<Rightarrow> (Err CombatNotFound, s)
     | Some combat \<Rightarrow>
     if pcb_status combat \<noteq> ''active'' then (Err InvalidCombatParams, s)
     else let info = unwrap_or (spectators s combat_id) \<lparr>psi_spectators = [], psi_max_spectators = MAX_SPECTATORS\<rparr> in
     if length (psi_spectators info) \<ge> psi_max_spectators info then (Err SpectatorLimitReached, s)
     else if spectator \<in> set (psi_spectators info) then (Ok (), s)
     else (Ok (), publish [SS ''pvp'', SS ''spectate''] [SA spectator, SU combat_id]
       (s\<lparr>spectators := (spectators s)(combat_id \<mapsto> info\<lparr>psi_spectators := psi_spectators info @ [spectator]\<rparr>)\<rparr>)))"

definition remove_spectator :: "env \<Rightarrow> address \<Rightarrow> u64 \<Rightarrow> 'a pvp_store_scheme \<Rightarrow> (PvPError, unit) outcome \<times> 'a pvp_store_scheme" where
  "remove_spectator env spectator combat_id s =
    (if \<not> auth env spectator then (Panic, s)
     else case spectators s combat_id of
       None \<Rightarrow> (Err CombatNotFound, s)
     | Some info \<Rightarrow> (Ok (), publish [SS ''pvp'', SS ''spec_rm''] [SA spectator, SU combat_id]
       (s\<lparr>spectators := (spectators s)(combat_id \<mapsto> info\<lparr>psi_spectators := filter (\<lambda>x. x \<noteq> spectator) (psi_spectators info)\<rparr>)\<rparr>)))"

definition get_spectators :: "u64 \<Rightarrow> 'a pvp_store_scheme \<Rightarrow> address list" where
  "get_spectators combat_id s = psi_spectators (unwrap_or (spectators s combat_id) \<lparr>psi_spectators = [], psi_max_spectators = MAX_SPECTATORS\<rparr>)"

definition set_rewards_config :: "env \<Rightarrow> address \<Rightarrow> RewardsConfig \<Rightarrow> 'a pvp_store_scheme \<Rightarrow> (PvPError, unit) outcome \<times> 'a pvp_store_scheme" where
  "set_rewards_config env caller config s = and_then (require_pvp_admin env caller s) (\<lambda>_ s. (Ok (), s\<lparr>rewards_config := Some config\<rparr>))"

definition get_rewards_config :: "'a pvp_store_scheme \<Rightarrow> RewardsConfig" where
  "get_rewards_config s = unwrap_or (rewards_config s) \<lparr>prw_base_reward = 100, prw_win_bonus = 50, prw_elo_bonus_multiplier = 1, prw_streak_bonus = 10\<rparr>"

text \<open>A committed call of the module; the entry points that only read are functions of the store.\<close>

inductive pvp_step :: "f64_env \<Rightarrow> env \<Rightarrow> 'a pvp_store_scheme \<Rightarrow> 'a pvp_store_scheme \<Rightarrow> bool" for fp env where
  admin: "commits (set_pvp_admin env a) s s' \<Longrightarrow> pvp_step fp env s s'"
| stats: "commits (get_combat_stats env a) s s' \<Longrightarrow> pvp_step fp env s s'"
| decay: "commits (apply_elo_decay env a) s s' \<Longrightarrow> pvp_step fp env s s'"
| decay_config: "commits (set_elo_decay_config env a ec) s s' \<Longrightarrow> pvp_step fp env s s'"
| batch: "commits (apply_batch_elo_decay env a ps) s s' \<Longrightarrow> pvp_step fp env s s'"
| challenge: "commits (create_challenge env a b n) s s' \<Longrightarrow> pvp_step fp env s s'"
| accept: "commits (accept_challenge env a i) s s' \<Longrightarrow> pvp_step fp env s s'"
| decline: "commits (decline_challenge env a i) s s' \<Longrightarrow> pvp_step fp env s s'"
| move: "commits (execute_move fp env a i m k) s s' \<Longrightarrow> pvp_step fp env s s'"
| join: "commits (join_matchmaking env a n) s s' \<Longrightarrow> pvp_step fp env s s'"
| leave: "commits (leave_matchmaking env a) s s' \<Longrightarrow> pvp_step fp env s s'"
| match: "commits process_matchmaking s s' \<Longrightarrow> pvp_step fp env s s'"
| watch: "commits (add_spectator env a i) s s' \<Longrightarrow> pvp_step fp env s s'"
| unwatch: "commits (remove_spectator env a i) s s' \<Longrightarrow> pvp_step fp env s s'"
| rewards: "commits (set_rewards_config env a rc) s s' \<Longrightarrow> pvp_step fp env s s'"

section \<open>What an operation writes\<close>

definition fresh_stats :: CombatStats where
  "fresh_stats = \<lparr>pcs_wins = 0, pcs_losses = 0, pcs_draws = 0, pcs_total_damage_dealt = 0, pcs_total_damage_received = 0, pcs_elo_rating = INITIAL_ELO, pcs_combat_count = 0\<rparr>"

abbreviation stats_of :: "address \<Rightarrow> 'a pvp_store_scheme \<Rightarrow> CombatStats" where
  "stats_of p s \<equiv> unwrap_or (player_stats s p) fresh_stats"

abbreviation combat_count :: "'a pvp_store_scheme \<Rightarrow> nat" where
  "combat_count s \<equiv> unwrap_or (combat_counter s) 0"

abbreviation fights :: "'a pvp_store_scheme \<Rightarrow> address \<Rightarrow> nat" where
  "fights s p \<equiv> unwrap_or (combat_history_counter s p) 0"

text \<open>Ratings, activity marks and events are the only entries decay touches.\<close>

definition unmarked :: "'a pvp_store_scheme \<Rightarrow> 'a pvp_store_scheme" where
  "unmarked s = s\<lparr>events := [], elo_rating := Map.empty, last_active := Map.empty\<rparr>"

definition marks :: "'a pvp_store_scheme \<Rightarrow> 'a pvp_store_scheme \<Rightarrow> bool" where
  "marks s s' \<longleftrightarrow> unmarked s' = unmarked s"

lemma marks_refl [simp]: "marks s s"
  by (simp add: marks_def)

lemma marks_trans: "marks s t \<Longrightarrow> marks t u \<Longrightarrow> marks s u"
  by (simp add: marks_def)

lemma marks_write [simp]:
  "marks s (publish t d u) = marks s u" "marks s (write_elo_rating p a b u) = marks s u" "marks s (update_last_active env p u) = marks s u"
  by (simp_all add: marks_def unmarked_def publish_def write_elo_rating_def update_last_active_def)

lemma decay_marks: "decay_elo env p s = (Ok r, s') \<Longrightarrow> marks s s' \<and> fst r = get_elo_rating p s"
  by (auto simp: decay_elo_def Let_def ok_rules split: if_splits)

lemma load_stats_Ok: "load_stats_with_elo env p s = (Ok (st, elo), s') \<Longrightarrow> marks s s' \<and> st = stats_of p s"
  by (auto simp: load_stats_with_elo_def Let_def ok_rules fresh_stats_def dest!: decay_marks split: prod.splits)

lemma get_stats_Ok: "get_or_init_stats env p s = (Ok st, s') \<Longrightarrow> marks s s' \<and> st = stats_of p s"
  by (auto simp: get_or_init_stats_def ok_rules dest: load_stats_Ok split: prod.splits)

lemma decay_players_marks: "decay_players env ps n s = (Ok k, s') \<Longrightarrow> marks s s'"
proof (induction ps arbitrary: n s)
  case (Cons p ps)
  from Cons(2) obtain x y t where d: "decay_elo env p s = (Ok (x, y), t)" and m: "marks s t" by (auto simp: ok_rules split: prod.splits dest: decay_marks)
  have "decay_players env ps n t = (Ok k, s') \<or> (\<exists>n'. decay_players env ps n' (update_last_active env p t) = (Ok k, s'))" using Cons(2) d
    by (cases "y = x") (auto simp: Let_def ok_rules)
  moreover have "marks s (update_last_active env p t)" using m by simp
  ultimately show ?case using Cons(1) m marks_trans by blast
qed simp

lemma marks_keeps:
  assumes "marks s s'"
  shows "player_stats s' = player_stats s" "pvp_challenges s' = pvp_challenges s" "challenge_counter s' = challenge_counter s" "combats s' = combats s"
    "combat_counter s' = combat_counter s" "combat_history s' = combat_history s" "combat_history_counter s' = combat_history_counter s"
    "matchmaking_queue s' = matchmaking_queue s" "spectators s' = spectators s" "ac_admin s' = ac_admin s" "elo_decay_config s' = elo_decay_config s" "rewards_config s' = rewards_config s"
  using assms arg_cong[of _ _ player_stats, OF assms[unfolded marks_def]] arg_cong[of _ _ pvp_challenges, OF assms[unfolded marks_def]]
    arg_cong[of _ _ challenge_counter, OF assms[unfolded marks_def]] arg_cong[of _ _ combats, OF assms[unfolded marks_def]]
    arg_cong[of _ _ combat_counter, OF assms[unfolded marks_def]] arg_cong[of _ _ combat_history, OF assms[unfolded marks_def]]
    arg_cong[of _ _ combat_history_counter, OF assms[unfolded marks_def]] arg_cong[of _ _ matchmaking_queue, OF assms[unfolded marks_def]]
    arg_cong[of _ _ spectators, OF assms[unfolded marks_def]] arg_cong[of _ _ ac_admin, OF assms[unfolded marks_def]]
    arg_cong[of _ _ elo_decay_config, OF assms[unfolded marks_def]] arg_cong[of _ _ rewards_config, OF assms[unfolded marks_def]]
  by (simp_all add: unmarked_def)

lemmas publish_keeps [simp] = marks_keeps[OF marks_write(1)[THEN iffD2, OF marks_refl]]
lemmas active_keeps [simp] = marks_keeps[OF marks_write(3)[THEN iffD2, OF marks_refl]]

lemma count_combat_Ok:
  assumes "count_combat env p s = (Ok u, s')"
  shows "\<exists>t. marks s t \<and> s' = update_stats p ((stats_of p s)\<lparr>pcs_combat_count := pcs_combat_count (stats_of p s) + 1\<rparr>) t"
  using assms by (auto simp: count_combat_def ok_rules dest!: get_stats_Ok)

lemma update_stats_keeps [simp]:
  "player_stats (update_stats p st s) = (player_stats s)(p \<mapsto> st)" "pvp_challenges (update_stats p st s) = pvp_challenges s"
  "challenge_counter (update_stats p st s) = challenge_counter s" "combats (update_stats p st s) = combats s"
  "combat_counter (update_stats p st s) = combat_counter s" "combat_history (update_stats p st s) = combat_history s"
  "combat_history_counter (update_stats p st s) = combat_history_counter s" "matchmaking_queue (update_stats p st s) = matchmaking_queue s"
  "spectators (update_stats p st s) = spectators s" "ac_admin (update_stats p st s) = ac_admin s" "elo_rating (update_stats p st s) = elo_rating s"
  by (simp_all add: update_stats_def publish_def)

section \<open>Invariant: the arena\<close>

text \<open>A combat is active with both sides standing, or finished with exactly one side standing, the winner.\<close>

definition combat_ok :: "u64 \<Rightarrow> CombatState \<Rightarrow> bool" where
  "combat_ok i c \<longleftrightarrow> pcb_combat_id c = i \<and> pcb_player1_hp c \<le> MAX_HP \<and> pcb_player2_hp c \<le> MAX_HP \<and> pcb_turn c \<in> {pcb_player1 c, pcb_player2 c}
    \<and> (if pcb_status c = ''active'' then pcb_winner c = None \<and> 0 < pcb_player1_hp c \<and> 0 < pcb_player2_hp c
       else pcb_status c = ''finished'' \<and> (if pcb_player1_hp c = 0 then 0 < pcb_player2_hp c \<and> pcb_winner c = Some (pcb_player2 c)
              else pcb_player2_hp c = 0 \<and> pcb_winner c = Some (pcb_player1 c)))"

lemma combat_ok_cases:
  assumes "combat_ok i c"
  shows "pcb_status c = ''active'' \<and> pcb_winner c = None \<and> 0 < pcb_player1_hp c \<and> 0 < pcb_player2_hp c
    \<or> pcb_status c = ''finished'' \<and> (pcb_winner c = Some (pcb_player1 c) \<and> 0 < pcb_player1_hp c \<and> pcb_player2_hp c = 0
        \<or> pcb_winner c = Some (pcb_player2 c) \<and> 0 < pcb_player2_hp c \<and> pcb_player1_hp c = 0)"
  using assms unfolding combat_ok_def by (cases "pcb_status c = ''active''"; cases "pcb_player1_hp c = 0") simp_all

definition arena_inv :: "'a pvp_store_scheme \<Rightarrow> bool" where
  "arena_inv s \<longleftrightarrow> dom (combats s) = {1..combat_count s} \<and> (\<forall>i c. combats s i = Some c \<longrightarrow> combat_ok i c)"

text \<open>The sum of a figure over a table, and the two ways a finished combat counts: in a combat of a player against itself
  the statistics with the loss overwrite those with the win.\<close>

definition table_sum :: "('v \<Rightarrow> nat) \<Rightarrow> ('k \<rightharpoonup> 'v) \<Rightarrow> nat" where
  "table_sum f m = msum (\<lambda>k. map_option f (m k))"

definition over :: "CombatState \<Rightarrow> nat" where
  "over c = (if pcb_status c = ''finished'' then 1 else 0)"

definition fair_over :: "CombatState \<Rightarrow> nat" where
  "fair_over c = (if pcb_status c = ''finished'' \<and> pcb_player1 c \<noteq> pcb_player2 c then 1 else 0)"

definition tally_inv :: "'a pvp_store_scheme \<Rightarrow> bool" where
  "tally_inv s \<longleftrightarrow> finite (dom (player_stats s)) \<and> finite (dom (combat_history_counter s)) \<and> table_sum pcs_combat_count (player_stats s) = 2 * combat_count s
    \<and> table_sum pcs_losses (player_stats s) = table_sum over (combats s) \<and> table_sum pcs_wins (player_stats s) = table_sum fair_over (combats s) \<and> table_sum pcs_draws (player_stats s) = 0
    \<and> msum (combat_history_counter s) = 2 * table_sum over (combats s)"

text \<open>The lobby: bounded duplicate-free queue and audiences; a stored challenge is pending, accepted or declined.\<close>

definition lobby_inv :: "'a pvp_store_scheme \<Rightarrow> bool" where
  "lobby_inv s \<longleftrightarrow> get_matchmaking_queue_size s \<le> MAX_QUEUE_SIZE \<and> distinct (map pmq_player (unwrap_or (matchmaking_queue s) []))
    \<and> (\<forall>i info. spectators s i = Some info \<longrightarrow> psi_max_spectators info = MAX_SPECTATORS \<and> length (psi_spectators info) \<le> MAX_SPECTATORS \<and> distinct (psi_spectators info))
    \<and> tbl_ok (\<lambda>i c. pch_challenge_id c = i \<and> pch_status c \<in> {''pending'', ''accepted'', ''declined''}) (unwrap_or (challenge_counter s) 0) (pvp_challenges s)"

lemma table_sum_upd: "finite (dom m) \<Longrightarrow> table_sum f (m(k \<mapsto> v)) + unwrap_or (map_option f (m k)) 0 = table_sum f m + f v"
proof -
  assume "finite (dom m)"
  then have "finite (dom (\<lambda>k. map_option f (m k)))" by (simp add: dom_def)
  from msum_upd[OF this, of k "f v"] show ?thesis by (simp add: table_sum_def fun_upd_def if_distrib cong: if_cong)
qed

lemma table_sum_stats: "finite (dom m) \<Longrightarrow> f fresh_stats = 0 \<Longrightarrow> table_sum f (m(k \<mapsto> v)) + f (unwrap_or (m k) fresh_stats) = table_sum f m + f v"
  using table_sum_upd[of m f k v] by (cases "m k") auto

lemma fresh_counts [simp]: "pcs_wins fresh_stats = 0" "pcs_losses fresh_stats = 0" "pcs_draws fresh_stats = 0" "pcs_combat_count fresh_stats = 0"
  by (simp_all add: fresh_stats_def)

lemma marks_inv:
  assumes "marks s s'"
  shows "arena_inv s' = arena_inv s" "tally_inv s' = tally_inv s" "lobby_inv s' = lobby_inv s"
  by (simp_all add: arena_inv_def tally_inv_def lobby_inv_def get_matchmaking_queue_size_def marks_keeps[OF assms])

text \<open>Counting one combat for a player adds one to the sum of the combat counts and nothing else.\<close>

lemma count_stats:
  fixes m :: "address \<rightharpoonup> CombatStats" and k :: address
  assumes "finite (dom m)"
  defines "m' \<equiv> m(k \<mapsto> (unwrap_or (m k) fresh_stats)\<lparr>pcs_combat_count := pcs_combat_count (unwrap_or (m k) fresh_stats) + 1\<rparr>)"
  shows "finite (dom m') \<and> table_sum pcs_combat_count m' = table_sum pcs_combat_count m + 1 \<and> table_sum pcs_losses m' = table_sum pcs_losses m
    \<and> table_sum pcs_wins m' = table_sum pcs_wins m \<and> table_sum pcs_draws m' = table_sum pcs_draws m"
proof -
  let ?x = "unwrap_or (m k) fresh_stats"
  let ?v = "?x\<lparr>pcs_combat_count := pcs_combat_count ?x + 1\<rparr>"
  note t = table_sum_stats[OF assms(1), of _ k ?v]
  show ?thesis using assms(1) t[of pcs_combat_count] t[of pcs_losses] t[of pcs_wins] t[of pcs_draws] by (simp add: m'_def)
qed

text \<open>What a new combat changes.\<close>

definition new_combat :: "env \<Rightarrow> address \<Rightarrow> address \<Rightarrow> u64 \<Rightarrow> CombatState" where
  "new_combat env a b i = \<lparr>pcb_combat_id = i, pcb_player1 = a, pcb_player2 = b, pcb_player1_hp = MAX_HP, pcb_player2_hp = MAX_HP,
     pcb_player1_energy = COMBAT_MAX_ENERGY, pcb_player2_energy = COMBAT_MAX_ENERGY, pcb_turn = (if timestamp env mod 2 = 0 then a else b), pcb_status = ''active'', pcb_winner = None,
     pcb_started_at = timestamp env, pcb_history = []\<rparr>"

lemma start_combat_Ok:
  assumes "start_combat env a b ch s = (Ok i, s')"
  shows "i = combat_count s + 1 \<and> combat_counter s' = Some i \<and> combats s' = (combats s)(i \<mapsto> new_combat env a b i)
    \<and> (\<exists>m. m = (player_stats s)(a \<mapsto> (stats_of a s)\<lparr>pcs_combat_count := pcs_combat_count (stats_of a s) + 1\<rparr>)
        \<and> player_stats s' = m(b \<mapsto> (unwrap_or (m b) fresh_stats)\<lparr>pcs_combat_count := pcs_combat_count (unwrap_or (m b) fresh_stats) + 1\<rparr>))
    \<and> pvp_challenges s' = pvp_challenges s \<and> challenge_counter s' = challenge_counter s \<and> combat_history_counter s' = combat_history_counter s
    \<and> matchmaking_queue s' = matchmaking_queue s \<and> spectators s' = spectators s"
proof -
  let ?i = "combat_count s + 1" and ?c = "new_combat env a b (combat_count s + 1)"
  let ?s = "s\<lparr>combat_counter := Some ?i, combats := (combats s)(?i \<mapsto> ?c)\<rparr>"
  from assms obtain t1 t2 where "count_combat env a ?s = (Ok (), t1)" "count_combat env b t1 = (Ok (), t2)" "i = ?i"
      and s': "s' = publish [SS ''pvp'', SS ''start''] [SU i, SA a, SA b, SU ch] t2"
    by (auto simp: start_combat_def Let_def ok_rules new_combat_def)
  then obtain u1 u2 where "marks ?s u1" "t1 = update_stats a ((stats_of a ?s)\<lparr>pcs_combat_count := pcs_combat_count (stats_of a ?s) + 1\<rparr>) u1"
      "marks t1 u2" "t2 = update_stats b ((stats_of b t1)\<lparr>pcs_combat_count := pcs_combat_count (stats_of b t1) + 1\<rparr>) u2"
    using count_combat_Ok[of env a ?s "()" t1] count_combat_Ok[of env b t1 "()" t2] by blast
  then show ?thesis using s' \<open>i = ?i\<close> by (simp add: marks_keeps[of ?s u1] marks_keeps[of t1 u2])
qed

lemma new_combat_ok: "combat_ok i (new_combat env a b i)" "over (new_combat env a b i) = 0" "fair_over (new_combat env a b i) = 0"
  by (simp_all add: combat_ok_def new_combat_def over_def fair_over_def)

lemma arena_new:
  assumes "arena_inv s" and "combats s' = (combats s)(combat_count s + 1 \<mapsto> c)" and "combat_counter s' = Some (combat_count s + 1)" and "combat_ok (combat_count s + 1) c"
  shows "arena_inv s'"
  using assms by (auto simp: arena_inv_def)

lemma arena_finite: "arena_inv s \<Longrightarrow> finite (dom (combats s))"
  by (simp add: arena_inv_def)

lemma arena_fresh: "arena_inv s \<Longrightarrow> combats s (Suc (combat_count s)) = None"
  unfolding arena_inv_def by (metis Suc_n_not_le_n atLeastAtMost_iff domIff)

lemma start_inv:
  assumes "start_combat env a b ch s = (Ok i, s')" and "arena_inv s" and "tally_inv s" and "lobby_inv s"
  shows "arena_inv s' \<and> tally_inv s' \<and> lobby_inv s'"
proof -
  let ?f = "\<lambda>m k. m(k \<mapsto> (unwrap_or (m k) fresh_stats)\<lparr>pcs_combat_count := pcs_combat_count (unwrap_or (m k) fresh_stats) + 1\<rparr>)"
  note o = start_combat_Ok[OF assms(1)]
  have st: "player_stats s' = ?f (?f (player_stats s) a) b" using o by simp
  have fin: "finite (dom (player_stats s))" using assms(3) by (simp add: tally_inv_def)
  note c1 = count_stats[OF fin, of a] and c2 = count_stats[of "?f (player_stats s) a" b]
  have t: "table_sum g (combats s') = table_sum g (combats s)" if "g (new_combat env a b i) = 0" for g
    using table_sum_upd[OF arena_finite[OF assms(2)], of g i "new_combat env a b i"] arena_fresh[OF assms(2)] o that by simp
  have "arena_inv s'" using arena_new[OF assms(2), of s' "new_combat env a b i"] o new_combat_ok(1)[of i env a b] by simp
  moreover have "tally_inv s'" using assms(3) o t[of over] t[of fair_over] new_combat_ok(2,3) c1 c2 unfolding tally_inv_def st by simp
  moreover have "lobby_inv s'" using assms(4) o by (simp add: lobby_inv_def get_matchmaking_queue_size_def)
  ultimately show ?thesis by blast
qed

text \<open>A move leaves the combat's identity alone, keeps the hit points in range and takes at most one side down.\<close>

definition same_bout :: "CombatState \<Rightarrow> CombatState \<Rightarrow> bool" where
  "same_bout c d \<longleftrightarrow> pcb_combat_id d = pcb_combat_id c \<and> pcb_player1 d = pcb_player1 c \<and> pcb_player2 d = pcb_player2 c \<and> pcb_started_at d = pcb_started_at c
    \<and> pcb_status d = pcb_status c \<and> pcb_winner d = pcb_winner c \<and> pcb_turn d = pcb_turn c"

lemma spend_Some: "spend_energy n b c = Some d \<Longrightarrow> same_bout c d \<and> pcb_player1_hp d = pcb_player1_hp c \<and> pcb_player2_hp d = pcb_player2_hp c"
  by (auto simp: spend_energy_def same_bout_def split: if_splits)

lemma process_Ok:
  assumes "process_move m n b c = Ok d" and "0 < pcb_player1_hp c" and "0 < pcb_player2_hp c" and "pcb_player1_hp c \<le> MAX_HP" and "pcb_player2_hp c \<le> MAX_HP"
  shows "same_bout c d \<and> pcb_player1_hp d \<le> MAX_HP \<and> pcb_player2_hp d \<le> MAX_HP \<and> (0 < pcb_player1_hp d \<or> 0 < pcb_player2_hp d)"
  using assms by (auto simp: process_move_def hit_def log_move_def same_bout_def saturating_sub_def split: if_splits option.splits)

lemma score_stats_tallies:
  fixes m :: "address \<rightharpoonup> CombatStats"
  assumes "score_stats c (unwrap_or (m (pcb_player1 c)) fresh_stats) (unwrap_or (m (pcb_player2 c)) fresh_stats) = Some (x1, x2)"
    and "finite (dom m)" and "pcb_winner c = Some w" and "w \<in> {pcb_player1 c, pcb_player2 c}"
  defines "m' \<equiv> m(pcb_player1 c \<mapsto> x1, pcb_player2 c \<mapsto> x2)"
  shows "finite (dom m') \<and> table_sum pcs_combat_count m' = table_sum pcs_combat_count m \<and> table_sum pcs_losses m' = table_sum pcs_losses m + 1
    \<and> table_sum pcs_wins m' = table_sum pcs_wins m + (if pcb_player1 c = pcb_player2 c then 0 else 1) \<and> table_sum pcs_draws m' = table_sum pcs_draws m"
proof -
  let ?a = "pcb_player1 c" and ?b = "pcb_player2 c"
  have fin: "finite (dom (m(?a \<mapsto> x1)))" using assms(2) by simp
  have one: "table_sum f (m(?a \<mapsto> x1)) + f (unwrap_or (m ?a) fresh_stats) = table_sum f m + f x1" if "f fresh_stats = 0" for f
    using table_sum_stats[of m f ?a x1] assms(2) that by simp
  have two: "table_sum f m' + f (unwrap_or ((m(?a \<mapsto> x1)) ?b) fresh_stats) = table_sum f (m(?a \<mapsto> x1)) + f x2" if "f fresh_stats = 0" for f
    using table_sum_stats[of "m(?a \<mapsto> x1)" f ?b x2] fin that by (simp add: m'_def)
  have x: "x1 = (unwrap_or (m ?a) fresh_stats)\<lparr>pcs_wins := pcs_wins (unwrap_or (m ?a) fresh_stats) + 1\<rparr> \<and> x2 = (unwrap_or (m ?b) fresh_stats)\<lparr>pcs_losses := pcs_losses (unwrap_or (m ?b) fresh_stats) + 1\<rparr>" if "w = ?a"
    using assms(1,3) that by (auto simp: score_stats_def add_win_def add_loss_def split: if_splits option.splits)
  have y: "x1 = (unwrap_or (m ?a) fresh_stats)\<lparr>pcs_losses := pcs_losses (unwrap_or (m ?a) fresh_stats) + 1\<rparr> \<and> x2 = (unwrap_or (m ?b) fresh_stats)\<lparr>pcs_wins := pcs_wins (unwrap_or (m ?b) fresh_stats) + 1\<rparr>" if "w = ?b" "?a \<noteq> ?b"
    using assms(1,3) that by (auto simp: score_stats_def add_win_def add_loss_def split: if_splits option.splits)
  have "finite (dom m')" using assms(2) by (simp add: m'_def)
  note sums = this one[of pcs_combat_count] two[of pcs_combat_count] one[of pcs_losses] two[of pcs_losses] one[of pcs_wins] two[of pcs_wins] one[of pcs_draws] two[of pcs_draws]
  consider "w = ?a" "?a = ?b" | "w = ?a" "?a \<noteq> ?b" | "w = ?b" "?a \<noteq> ?b" using assms(4) by (cases "?a = ?b") auto
  then show ?thesis by cases (use sums x y in simp_all)
qed

lemma record_history_Ok:
  "record_combat_history p h s = (Ok u, s') \<longleftrightarrow> fights s p + 1 \<le> u64_max \<and>
    s' = s\<lparr>combat_history := (combat_history s)((p, fights s p) \<mapsto> h), combat_history_counter := (combat_history_counter s)(p \<mapsto> fights s p + 1)\<rparr>"
  by (auto simp: record_combat_history_def Let_def ok_rules)

lemma score_ratings_marks [simp]: "marks s (score_ratings fp c e1 e2 t) = marks s t"
  by (simp add: score_ratings_def split: option.split prod.split)

lemma end_combat_Ok:
  assumes "end_combat fp env c s = (Ok u, s')"
  shows "\<exists>x1 x2 hc. score_stats c (stats_of (pcb_player1 c) s) (stats_of (pcb_player2 c) s) = Some (x1, x2)
    \<and> player_stats s' = (player_stats s)(pcb_player1 c \<mapsto> x1, pcb_player2 c \<mapsto> x2)
    \<and> hc = (combat_history_counter s)(pcb_player1 c \<mapsto> fights s (pcb_player1 c) + 1)
    \<and> combat_history_counter s' = hc(pcb_player2 c \<mapsto> unwrap_or (hc (pcb_player2 c)) 0 + 1)
    \<and> combats s' = combats s \<and> combat_counter s' = combat_counter s \<and> pvp_challenges s' = pvp_challenges s \<and> challenge_counter s' = challenge_counter s
    \<and> matchmaking_queue s' = matchmaking_queue s \<and> spectators s' = spectators s \<and> pcb_started_at c \<le> timestamp env"
proof -
  from assms obtain st1 e1 t1 st2 e2 t2 x1 x2 h u2 where l: "load_stats_with_elo env (pcb_player1 c) s = (Ok (st1, e1), t1)"
      "load_stats_with_elo env (pcb_player2 c) t1 = (Ok (st2, e2), t2)" and sc: "score_stats c st1 st2 = Some (x1, x2)" and time: "pcb_started_at c \<le> timestamp env"
      and h: "record_combat_history (pcb_player1 c) h (update_stats (pcb_player2 c) x2 (update_stats (pcb_player1 c) x1 (score_ratings fp c e1 e2 t2))) = (Ok (), u2)"
      and k: "and_then (record_combat_history (pcb_player2 c) h u2) (\<lambda>_ s. (Ok (), publish [SS ''pvp'', SS ''end''] (SU (pcb_combat_id c) # (case pcb_winner c of None \<Rightarrow> [] | Some w \<Rightarrow> [SA w]) @ [SU (timestamp env - pcb_started_at c)]) s)) = (Ok u, s')"
    unfolding end_combat_def by (simp add: Let_def ok_rules split: prod.splits) blast
  let ?t = "score_ratings fp c e1 e2 t2"
  note m1 = load_stats_Ok[OF l(1)] and m2 = load_stats_Ok[OF l(2)]
  have m: "marks s ?t" using m1 m2 marks_trans by (simp, blast)
  have st: "st1 = stats_of (pcb_player1 c) s" "st2 = stats_of (pcb_player2 c) s" using m1 m2 marks_keeps(1)[of s t1] by simp_all
  from k obtain u3 where u3: "record_combat_history (pcb_player2 c) h u2 = (Ok (), u3)" and s': "marks u3 s'" by (auto simp: ok_rules)
  show ?thesis using sc time h u3 unfolding st by (auto simp: record_history_Ok marks_keeps[OF m] marks_keeps[OF s'])
qed

lemma conclude_Ok:
  assumes "conclude_move fp env b c s = (Ok d, s')"
  shows "(0 < pcb_player1_hp c \<and> 0 < pcb_player2_hp c \<and> d = c\<lparr>pcb_turn := if b then pcb_player2 c else pcb_player1 c\<rparr> \<and> s' = s)
    \<or> (\<exists>w. (if pcb_player1_hp c = 0 then w = pcb_player2 c else pcb_player2_hp c = 0 \<and> w = pcb_player1 c)
        \<and> d = c\<lparr>pcb_winner := Some w, pcb_status := ''finished''\<rparr> \<and> end_combat fp env d s = (Ok (), s'))"
  using assms by (auto simp: conclude_move_def Let_def ok_rules split: if_splits)

lemma execute_move_Ok:
  assumes "execute_move fp env a i m n s = (Ok u, s')"
  obtains c c1 c2 d t where "auth env a" and "combats s i = Some c" and "pcb_status c = ''active''" and "pcb_turn c = a" and "timestamp env \<le> pcb_started_at c + COMBAT_TIMEOUT"
    and "spend_energy (n div 2) (a = pcb_player1 c) c = Some c1" and "process_move m n (a = pcb_player1 c) c1 = Ok c2"
    and "conclude_move fp env (a = pcb_player1 c) c2 (update_last_active env a s) = (Ok d, t)" and "s' = t\<lparr>combats := (combats t)(i \<mapsto> d)\<rparr>"
proof -
  from assms obtain c where c: "auth env a" "combats s i = Some c" "pcb_status c = ''active''" "pcb_turn c = a" by (auto simp: execute_move_def ok_rules)
  with assms obtain c1 where c1: "timestamp env \<le> pcb_started_at c + COMBAT_TIMEOUT" "spend_energy (n div 2) (a = pcb_player1 c) c = Some c1"
      and k: "and_then (process_move m n (a = pcb_player1 c) c1, update_last_active env a s) (\<lambda>combat s.
       and_then (conclude_move fp env (a = pcb_player1 c) combat s) (\<lambda>combat s. (Ok (), s\<lparr>combats := (combats s)(i \<mapsto> combat)\<rparr>))) = (Ok u, s')"
    by (auto simp: execute_move_def Let_def ok_guard ok_lookup)
  from k obtain c2 d t where "process_move m n (a = pcb_player1 c) c1 = Ok c2"
      "conclude_move fp env (a = pcb_player1 c) c2 (update_last_active env a s) = (Ok d, t)" "s' = t\<lparr>combats := (combats t)(i \<mapsto> d)\<rparr>" by (auto simp: ok_rules)
  with that c c1 show thesis by blast
qed

lemma move_combat:
  assumes "combat_ok i c" and "pcb_status c = ''active''" and "spend_energy k b c = Some c1" and "process_move m n b c1 = Ok c2"
  shows "same_bout c c2 \<and> pcb_player1_hp c2 \<le> MAX_HP \<and> pcb_player2_hp c2 \<le> MAX_HP \<and> (0 < pcb_player1_hp c2 \<or> 0 < pcb_player2_hp c2)"
proof -
  note s = spend_Some[OF assms(3)]
  have "0 < pcb_player1_hp c1" "0 < pcb_player2_hp c1" "pcb_player1_hp c1 \<le> MAX_HP" "pcb_player2_hp c1 \<le> MAX_HP" using s assms(1,2) by (simp_all add: combat_ok_def)
  note p = process_Ok[OF assms(4) this]
  then show ?thesis using s by (simp add: same_bout_def)
qed

lemma table_sum_set: "finite (dom m) \<Longrightarrow> m k = Some x \<Longrightarrow> table_sum f (m(k \<mapsto> v)) + f x = table_sum f m + f v"
  using table_sum_upd[of m f k v] by simp

lemma pvp_move_inv:
  assumes "execute_move fp env a i m n s = (Ok u, s')" and "arena_inv s" and "tally_inv s" and "lobby_inv s"
  shows "arena_inv s' \<and> tally_inv s' \<and> lobby_inv s'"
  using assms(1)
proof (rule execute_move_Ok)
  fix c c1 c2 d t
  assume c: "combats s i = Some c" "pcb_status c = ''active''" "spend_energy (n div 2) (a = pcb_player1 c) c = Some c1" "process_move m n (a = pcb_player1 c) c1 = Ok c2"
    "conclude_move fp env (a = pcb_player1 c) c2 (update_last_active env a s) = (Ok d, t)" "s' = t\<lparr>combats := (combats t)(i \<mapsto> d)\<rparr>"
  let ?s = "update_last_active env a s"
  have ok: "combat_ok i c" and fin: "finite (dom (combats s))" using assms(2) c(1) by (auto simp: arena_inv_def)
  have i: "i \<in> {1..combat_count s}" using assms(2) c(1) unfolding arena_inv_def by blast
  note mc = move_combat[OF ok c(2,3,4)]
  note upd = table_sum_set[OF fin c(1), of _ d]
  from conclude_Ok[OF c(5)] show ?thesis
  proof (elim disjE exE conjE)
    assume h: "0 < pcb_player1_hp c2" "0 < pcb_player2_hp c2" and d: "d = c2\<lparr>pcb_turn := if a = pcb_player1 c then pcb_player2 c2 else pcb_player1 c2\<rparr>" "t = ?s"
    have "combat_ok i d" "over d = over c" "fair_over d = fair_over c" using mc h ok c(2) by (auto simp: d combat_ok_def same_bout_def over_def fair_over_def)
    then show ?thesis using assms(2-4) i upd[of over] upd[of fair_over] by (auto simp: c(6) d(2) arena_inv_def tally_inv_def lobby_inv_def get_matchmaking_queue_size_def)
  next
    fix w
    assume w: "if pcb_player1_hp c2 = 0 then w = pcb_player2 c2 else pcb_player2_hp c2 = 0 \<and> w = pcb_player1 c2"
      and d: "d = c2\<lparr>pcb_winner := Some w, pcb_status := ''finished''\<rparr>" and e: "end_combat fp env d ?s = (Ok (), t)"
    have dp: "pcb_player1 d = pcb_player1 c" "pcb_player2 d = pcb_player2 c" "pcb_winner d = Some w" "w \<in> {pcb_player1 d, pcb_player2 d}"
      using mc w by (auto simp: d same_bout_def split: if_splits)
    have dok: "combat_ok i d" "over d = over c + 1" "fair_over d = fair_over c + (if pcb_player1 d = pcb_player2 d then 0 else 1)"
      using mc w ok c(2) by (auto simp: d combat_ok_def same_bout_def over_def fair_over_def split: if_splits)
    from end_combat_Ok[OF e] obtain x1 x2 hc where x: "score_stats d (stats_of (pcb_player1 d) s) (stats_of (pcb_player2 d) s) = Some (x1, x2)"
      and st: "player_stats t = (player_stats s)(pcb_player1 d \<mapsto> x1, pcb_player2 d \<mapsto> x2)" "hc = (combat_history_counter s)(pcb_player1 d \<mapsto> fights s (pcb_player1 d) + 1)"
        "combat_history_counter t = hc(pcb_player2 d \<mapsto> unwrap_or (hc (pcb_player2 d)) 0 + 1)"
      and fr: "combats t = combats s" "combat_counter t = combat_counter s" "pvp_challenges t = pvp_challenges s" "challenge_counter t = challenge_counter s"
        "matchmaking_queue t = matchmaking_queue s" "spectators t = spectators s" by auto
    have fins: "finite (dom (player_stats s))" "finite (dom (combat_history_counter s))" using assms(3) by (simp_all add: tally_inv_def)
    have sums: "msum (combat_history_counter t) = msum (combat_history_counter s) + 2" "finite (dom (combat_history_counter t))"
      using msum_upd[OF fins(2), of "pcb_player1 d" "fights s (pcb_player1 d) + 1"] msum_upd[of hc "pcb_player2 d" "unwrap_or (hc (pcb_player2 d)) 0 + 1"] fins(2) unfolding st(2,3) by simp_all
    note ts = score_stats_tallies[OF x fins(1) dp(3,4), folded st(1)]
    have "arena_inv s'" using assms(2) i dok(1) by (auto simp: c(6) arena_inv_def fr)
    moreover have "tally_inv s'" using assms(3) ts sums upd[of over] upd[of fair_over] dok(2,3) by (simp add: c(6) tally_inv_def fr)
    moreover have "lobby_inv s'" using assms(4) by (simp add: c(6) lobby_inv_def get_matchmaking_queue_size_def fr)
    ultimately show ?thesis by blast
  qed
qed

definition pvp_inv :: "'a pvp_store_scheme \<Rightarrow> bool" where
  "pvp_inv s \<longleftrightarrow> arena_inv s \<and> tally_inv s \<and> lobby_inv s"

lemma pvp_inv_marks: "marks s s' \<Longrightarrow> pvp_inv s \<Longrightarrow> pvp_inv s'"
  by (simp add: pvp_inv_def marks_inv)

lemma pvp_inv_lobby:
  assumes "pvp_inv s" and "lobby_inv s'" and "player_stats s' = player_stats s" and "combats s' = combats s" and "combat_counter s' = combat_counter s"
    and "combat_history_counter s' = combat_history_counter s"
  shows "pvp_inv s'"
  using assms by (simp add: pvp_inv_def arena_inv_def tally_inv_def)

lemmas lobby_defs = lobby_inv_def get_matchmaking_queue_size_def

lemma challenge_inv:
  assumes "create_challenge env a b n s = (Ok i, s')" and "pvp_inv s"
  shows "pvp_inv s'"
proof -
  from assms(1) obtain st t where t: "get_or_init_stats env b s = (Ok st, t)" by (auto simp: create_challenge_def ok_rules)
  have inv: "pvp_inv t" using assms(2) get_stats_Ok[OF t] pvp_inv_marks by blast
  let ?j = "unwrap_or (challenge_counter t) 0 + 1"
  define ch where "ch = \<lparr>pch_challenge_id = ?j, pch_challenger = a, pch_opponent = b, pch_stake = n, pch_status = ''pending'', pch_created_at = timestamp env,
    pch_expires_at = timestamp env + CHALLENGE_EXPIRY\<rparr>"
  have ch: "pch_challenge_id ch = ?j" "pch_status ch = ''pending''" by (simp_all add: ch_def)
  have s': "pvp_challenges s' = (pvp_challenges t)(?j \<mapsto> ch)" "challenge_counter s' = Some ?j"
    and fr: "matchmaking_queue s' = matchmaking_queue t" "spectators s' = spectators t" "player_stats s' = player_stats t" "combats s' = combats t" "combat_counter s' = combat_counter t"
        "combat_history_counter s' = combat_history_counter t"
    using assms(1) t by (auto simp: create_challenge_def ok_rules Let_def ch_def)
  have "lobby_inv t" using inv by (simp add: pvp_inv_def)
  then have "lobby_inv s'" using ch tbl_ok_new[of _ "unwrap_or (challenge_counter t) 0" "pvp_challenges t" ch] by (simp add: lobby_defs fr s')
  from pvp_inv_lobby[OF inv this fr(3-6)] show ?thesis .
qed

lemma answer_inv:
  assumes "pvp_inv s" and "pvp_challenges s i = Some c" and "v \<in> {''accepted'', ''declined''}"
  shows "pvp_inv (s\<lparr>pvp_challenges := (pvp_challenges s)(i \<mapsto> c\<lparr>pch_status := v\<rparr>)\<rparr>)"
proof -
  let ?P = "\<lambda>i c. pch_challenge_id c = i \<and> pch_status c \<in> {''pending'', ''accepted'', ''declined''}"
  have "tbl_ok ?P (unwrap_or (challenge_counter s) 0) (pvp_challenges s)" using assms(1) by (simp add: pvp_inv_def lobby_defs)
  from tbl_ok_upd[OF this assms(2), of "c\<lparr>pch_status := v\<rparr>"] tbl_ok_get[OF this assms(2)] assms(3)
  have "tbl_ok ?P (unwrap_or (challenge_counter s) 0) ((pvp_challenges s)(i \<mapsto> c\<lparr>pch_status := v\<rparr>))" by auto
  then show ?thesis using assms(1) by (simp add: pvp_inv_def lobby_defs arena_inv_def tally_inv_def)
qed

lemma accept_Ok:
  assumes "accept_challenge env a i s = (Ok k, s')"
  obtains c where "pvp_challenges s i = Some c" and "start_combat env (pch_challenger c) a i (update_last_active env (pch_challenger c) (update_last_active env a
        (s\<lparr>pvp_challenges := (pvp_challenges s)(i \<mapsto> c\<lparr>pch_status := ''accepted''\<rparr>)\<rparr>))) = (Ok k, s')"
  using assms by (auto simp: accept_challenge_def ok_rules Let_def split: if_splits)

lemma pvp_accept_inv:
  assumes "accept_challenge env a i s = (Ok k, s')" and "pvp_inv s"
  shows "pvp_inv s'"
proof -
  from accept_Ok[OF assms(1)] obtain c where c: "pvp_challenges s i = Some c"
      and st: "start_combat env (pch_challenger c) a i (update_last_active env (pch_challenger c) (update_last_active env a
        (s\<lparr>pvp_challenges := (pvp_challenges s)(i \<mapsto> c\<lparr>pch_status := ''accepted''\<rparr>)\<rparr>))) = (Ok k, s')" by blast
  have "pvp_inv (update_last_active env (pch_challenger c) (update_last_active env a (s\<lparr>pvp_challenges := (pvp_challenges s)(i \<mapsto> c\<lparr>pch_status := ''accepted''\<rparr>)\<rparr>)))"
    by (rule pvp_inv_marks[OF _ answer_inv[OF assms(2) c, of "''accepted''"]]) simp_all
  then show ?thesis using start_inv[OF st] by (simp add: pvp_inv_def)
qed

lemma decline_inv:
  assumes "decline_challenge env a i s = (Ok u, s')" and "pvp_inv s"
  shows "pvp_inv s'"
proof -
  from assms(1) obtain c where c: "pvp_challenges s i = Some c" and m: "marks (s\<lparr>pvp_challenges := (pvp_challenges s)(i \<mapsto> c\<lparr>pch_status := ''declined''\<rparr>)\<rparr>) s'"
    by (auto simp: decline_challenge_def ok_rules)
  show ?thesis using pvp_inv_marks[OF m answer_inv[OF assms(2) c]] by simp
qed

lemma queue_inv:
  assumes "pvp_inv s" and "length q \<le> MAX_QUEUE_SIZE" and "distinct (map pmq_player q)" and "matchmaking_queue s' = Some q"
    and "marks (s\<lparr>matchmaking_queue := Some q\<rparr>) s'"
  shows "pvp_inv s'"
proof -
  have "pvp_inv (s\<lparr>matchmaking_queue := Some q\<rparr>)" using assms(1-3) by (simp add: pvp_inv_def lobby_defs arena_inv_def tally_inv_def)
  then show ?thesis using assms(5) pvp_inv_marks by blast
qed

lemma join_inv:
  assumes "join_matchmaking env a n s = (Ok u, s')" and "pvp_inv s"
  shows "pvp_inv s'"
proof -
  let ?q = "unwrap_or (matchmaking_queue s) []"
  define e where "e = \<lparr>pmq_player = a, pmq_elo_rating = get_elo_rating a s, pmq_queued_at = timestamp env, pmq_preferred_stake = n\<rparr>"
  have q: "length ?q < MAX_QUEUE_SIZE" "\<not> list_ex (\<lambda>x. pmq_player x = a) ?q" "pmq_player e = a"
    and m: "matchmaking_queue s' = Some (?q @ [e])" "marks (s\<lparr>matchmaking_queue := Some (?q @ [e])\<rparr>) s'"
    using assms(1) by (auto simp: join_matchmaking_def ok_rules Let_def marks_def unmarked_def publish_def update_last_active_def get_elo_rating_def e_def)
  have "distinct (map pmq_player ?q)" using assms(2) by (simp add: pvp_inv_def lobby_defs)
  then show ?thesis using q by (intro queue_inv[OF assms(2) _ _ m]) (auto simp: list_ex_iff)
qed

lemma leave_inv:
  assumes "leave_matchmaking env a s = (Ok u, s')" and "pvp_inv s"
  shows "pvp_inv s'"
proof -
  let ?q = "unwrap_or (matchmaking_queue s) []" and ?f = "filter (\<lambda>x. pmq_player x \<noteq> a)"
  from assms(1) have m: "matchmaking_queue s' = Some (?f ?q)" "marks (s\<lparr>matchmaking_queue := Some (?f ?q)\<rparr>) s'"
    by (auto simp: leave_matchmaking_def ok_rules Let_def)
  have "distinct (map pmq_player ?q)" "length ?q \<le> MAX_QUEUE_SIZE" using assms(2) by (simp_all add: pvp_inv_def lobby_defs)
  then show ?thesis using le_trans[OF length_filter_le] by (intro queue_inv[OF assms(2) _ _ m]) (simp_all add: distinct_map_filter)
qed

lemma match_inv: "process_matchmaking s = (Ok r, s') \<Longrightarrow> pvp_inv s \<Longrightarrow> pvp_inv s'"
proof -
  assume m: "process_matchmaking s = (Ok r, s')" and inv: "pvp_inv s"
  let ?q = "unwrap_or (matchmaking_queue s) []"
  have q: "length ?q \<le> MAX_QUEUE_SIZE" "distinct (map pmq_player ?q)" using inv by (simp_all add: pvp_inv_def lobby_defs)
  from m consider "s' = s" | x y xs where "?q = x # y # xs" "s' = s\<lparr>matchmaking_queue := Some xs\<rparr>" by (auto simp: process_matchmaking_def split: list.splits)
  then show ?thesis
  proof cases
    case (2 x y xs)
    then show ?thesis using q by (intro queue_inv[OF inv, of xs]) auto
  qed (use inv in simp)
qed

lemma audience_inv:
  assumes "pvp_inv s" and "length xs \<le> MAX_SPECTATORS" and "distinct xs"
  shows "pvp_inv (s\<lparr>spectators := (spectators s)(i \<mapsto> \<lparr>psi_spectators = xs, psi_max_spectators = MAX_SPECTATORS\<rparr>)\<rparr>)"
  using assms by (simp add: pvp_inv_def lobby_defs arena_inv_def tally_inv_def)

lemma audience_ok:
  assumes "pvp_inv s"
  shows "psi_max_spectators (unwrap_or (spectators s i) \<lparr>psi_spectators = [], psi_max_spectators = MAX_SPECTATORS\<rparr>) = MAX_SPECTATORS"
    and "distinct (psi_spectators (unwrap_or (spectators s i) \<lparr>psi_spectators = [], psi_max_spectators = MAX_SPECTATORS\<rparr>))"
    and "length (psi_spectators (unwrap_or (spectators s i) \<lparr>psi_spectators = [], psi_max_spectators = MAX_SPECTATORS\<rparr>)) \<le> MAX_SPECTATORS"
proof -
  have "\<forall>info. spectators s i = Some info \<longrightarrow> psi_max_spectators info = MAX_SPECTATORS \<and> length (psi_spectators info) \<le> MAX_SPECTATORS \<and> distinct (psi_spectators info)"
    using assms by (simp add: pvp_inv_def lobby_inv_def)
  then show "psi_max_spectators (unwrap_or (spectators s i) \<lparr>psi_spectators = [], psi_max_spectators = MAX_SPECTATORS\<rparr>) = MAX_SPECTATORS"
    "distinct (psi_spectators (unwrap_or (spectators s i) \<lparr>psi_spectators = [], psi_max_spectators = MAX_SPECTATORS\<rparr>))"
    "length (psi_spectators (unwrap_or (spectators s i) \<lparr>psi_spectators = [], psi_max_spectators = MAX_SPECTATORS\<rparr>)) \<le> MAX_SPECTATORS"
    by (cases "spectators s i"; simp)+
qed

lemma watch_inv:
  assumes "add_spectator env a i s = (Ok u, s')" and "pvp_inv s"
  shows "pvp_inv s'"
proof -
  let ?x = "unwrap_or (spectators s i) \<lparr>psi_spectators = [], psi_max_spectators = MAX_SPECTATORS\<rparr>"
  have x: "?x = \<lparr>psi_spectators = psi_spectators ?x, psi_max_spectators = MAX_SPECTATORS\<rparr>" using audience_ok(1)[OF assms(2), of i] by simp
  from assms(1) have "s' = s \<or> length (psi_spectators ?x) < MAX_SPECTATORS \<and> a \<notin> set (psi_spectators ?x)
      \<and> marks (s\<lparr>spectators := (spectators s)(i \<mapsto> ?x\<lparr>psi_spectators := psi_spectators ?x @ [a]\<rparr>)\<rparr>) s'"
    unfolding add_spectator_def Let_def by (auto simp: ok_rules audience_ok(1)[OF assms(2)] split: if_splits)
  moreover have "?x\<lparr>psi_spectators := psi_spectators ?x @ [a]\<rparr> = \<lparr>psi_spectators = psi_spectators ?x @ [a], psi_max_spectators = MAX_SPECTATORS\<rparr>" using x by (metis SpectatorInfo.update_convs(1))
  ultimately show ?thesis using assms(2) audience_ok(2)[OF assms(2), of i] pvp_inv_marks audience_inv[OF assms(2), of "psi_spectators ?x @ [a]" i] by auto
qed

lemma unwatch_inv:
  assumes "remove_spectator env a i s = (Ok u, s')" and "pvp_inv s"
  shows "pvp_inv s'"
proof -
  from assms(1) obtain x where x: "spectators s i = Some x"
      and m: "marks (s\<lparr>spectators := (spectators s)(i \<mapsto> x\<lparr>psi_spectators := filter (\<lambda>y. y \<noteq> a) (psi_spectators x)\<rparr>)\<rparr>) s'" by (auto simp: remove_spectator_def ok_rules)
  note ok = audience_ok[OF assms(2), of i, unfolded x, simplified]
  have "x\<lparr>psi_spectators := filter (\<lambda>y. y \<noteq> a) (psi_spectators x)\<rparr> = \<lparr>psi_spectators = filter (\<lambda>y. y \<noteq> a) (psi_spectators x), psi_max_spectators = MAX_SPECTATORS\<rparr>" using ok(1) by simp
  moreover have "length (filter (\<lambda>y. y \<noteq> a) (psi_spectators x)) \<le> MAX_SPECTATORS" using ok(3) le_trans[OF length_filter_le] by blast
  ultimately show ?thesis using pvp_inv_marks[OF m] audience_inv[OF assms(2), of "filter (\<lambda>y. y \<noteq> a) (psi_spectators x)" i] ok(2) by simp
qed

lemma plain_inv:
  "set_pvp_admin env a s = (Ok u, s') \<Longrightarrow> pvp_inv s \<Longrightarrow> pvp_inv s'"
  "get_combat_stats env a s = (Ok st, s') \<Longrightarrow> pvp_inv s \<Longrightarrow> pvp_inv s'"
  "apply_elo_decay env a s = (Ok k, s') \<Longrightarrow> pvp_inv s \<Longrightarrow> pvp_inv s'"
  "set_elo_decay_config env a ec s = (Ok u, s') \<Longrightarrow> pvp_inv s \<Longrightarrow> pvp_inv s'"
  "apply_batch_elo_decay env a ps s = (Ok k, s') \<Longrightarrow> pvp_inv s \<Longrightarrow> pvp_inv s'"
  "set_rewards_config env a rc s = (Ok u, s') \<Longrightarrow> pvp_inv s \<Longrightarrow> pvp_inv s'"
proof -
  have same: "pvp_inv s \<Longrightarrow> marks t s' \<Longrightarrow> player_stats t = player_stats s \<Longrightarrow> combats t = combats s \<Longrightarrow> combat_counter t = combat_counter s \<Longrightarrow> combat_history_counter t = combat_history_counter s
      \<Longrightarrow> matchmaking_queue t = matchmaking_queue s \<Longrightarrow> spectators t = spectators s \<Longrightarrow> pvp_challenges t = pvp_challenges s \<Longrightarrow> challenge_counter t = challenge_counter s \<Longrightarrow> pvp_inv s'" for t
    by (rule pvp_inv_marks[of t s']) (simp_all add: pvp_inv_def lobby_defs arena_inv_def tally_inv_def)
  show "set_pvp_admin env a s = (Ok u, s') \<Longrightarrow> pvp_inv s \<Longrightarrow> pvp_inv s'"
    using same[of "s\<lparr>ac_admin := Some a\<rparr>"] by (auto simp: set_pvp_admin_def ok_rules)
  show "get_combat_stats env a s = (Ok st, s') \<Longrightarrow> pvp_inv s \<Longrightarrow> pvp_inv s'"
    using get_stats_Ok pvp_inv_marks unfolding get_combat_stats_def by blast
  show "apply_elo_decay env a s = (Ok k, s') \<Longrightarrow> pvp_inv s \<Longrightarrow> pvp_inv s'"
    by (auto simp: apply_elo_decay_def ok_rules dest!: decay_marks intro: pvp_inv_marks[rotated] split: prod.splits if_splits)
  show "set_elo_decay_config env a ec s = (Ok u, s') \<Longrightarrow> pvp_inv s \<Longrightarrow> pvp_inv s'"
    using same[of "s\<lparr>elo_decay_config := Some ec\<rparr>"] by (auto simp: set_elo_decay_config_def require_pvp_admin_def ok_rules split: if_splits option.splits)
  show "apply_batch_elo_decay env a ps s = (Ok k, s') \<Longrightarrow> pvp_inv s \<Longrightarrow> pvp_inv s'"
    by (auto simp: apply_batch_elo_decay_def require_pvp_admin_def ok_rules dest: decay_players_marks intro: pvp_inv_marks split: if_splits option.splits)
  show "set_rewards_config env a rc s = (Ok u, s') \<Longrightarrow> pvp_inv s \<Longrightarrow> pvp_inv s'"
    using same[of "s\<lparr>rewards_config := Some rc\<rparr>"] by (auto simp: set_rewards_config_def require_pvp_admin_def ok_rules split: if_splits option.splits)
qed

lemma move_pvp_inv: "execute_move fp env a i m n s = (Ok u, s') \<Longrightarrow> pvp_inv s \<Longrightarrow> pvp_inv s'"
  using pvp_move_inv unfolding pvp_inv_def by blast

lemmas pvp_op_inv = plain_inv challenge_inv pvp_accept_inv decline_inv move_pvp_inv join_inv leave_inv match_inv watch_inv unwatch_inv

lemma pvp_step_inv: "pvp_step fp env s s' \<Longrightarrow> pvp_inv s \<Longrightarrow> pvp_inv s'"
  by (cases rule: pvp_step.cases, assumption) (auto elim!: commitsE dest: pvp_op_inv)

interpretation pvp: step_system "\<lambda>s s'. \<exists>env. pvp_step fp env s s'" pvp_inv for fp
  by unfold_locales (use pvp_step_inv in blast)

section \<open>Ratings and time\<close>

lemma table_count: "finite (dom m) \<Longrightarrow> table_sum (\<lambda>c. if P c then 1 else 0) m = card {k. \<exists>c. m k = Some c \<and> P c}"
proof -
  assume fin: "finite (dom m)"
  have "table_sum (\<lambda>c. if P c then 1 else 0) m = (\<Sum>k\<in>dom m. if P (the (m k)) then 1 else 0)"
    by (auto simp: table_sum_def msum_def dom_def intro!: sum.cong)
  also have "\<dots> = card {k \<in> dom m. P (the (m k))}" using fin by (simp add: sum.If_cases Int_def)
  also have "{k \<in> dom m. P (the (m k))} = {k. \<exists>c. m k = Some c \<and> P c}" by auto
  finally show ?thesis .
qed

text \<open>Combats change by a move before the timeout or by a new combat under a new number.\<close>

lemma step_combats:
  assumes "pvp_step fp env s s'"
  shows "combats s' = combats s \<or> (\<exists>c. combats s' = (combats s)(Suc (combat_count s) \<mapsto> c))
    \<or> (\<exists>i c d. combats s i = Some c \<and> timestamp env \<le> pcb_started_at c + COMBAT_TIMEOUT \<and> combats s' = (combats s)(i \<mapsto> d))"
  using assms
proof cases
  case (accept a i)
  then obtain k where "accept_challenge env a i s = (Ok k, s')" by (rule commitsE)
  then show ?thesis by (rule accept_Ok) (drule start_combat_Ok, auto)
next
  case (move a i m n)
  then obtain r where "execute_move fp env a i m n s = (Ok r, s')" by (rule commitsE)
  then show ?thesis
  proof (rule execute_move_Ok)
    fix c c1 c2 d t
    assume c: "combats s i = Some c" "timestamp env \<le> pcb_started_at c + COMBAT_TIMEOUT" and k: "conclude_move fp env (a = pcb_player1 c) c2 (update_last_active env a s) = (Ok d, t)"
      and s': "s' = t\<lparr>combats := (combats t)(i \<mapsto> d)\<rparr>"
    have "combats t = combats s" using conclude_Ok[OF k] by (auto dest: end_combat_Ok)
    then show ?thesis using c s' by auto
  qed
qed (auto elim!: commitsE simp: set_pvp_admin_def get_combat_stats_def apply_elo_decay_def set_elo_decay_config_def apply_batch_elo_decay_def create_challenge_def
  decline_challenge_def join_matchmaking_def leave_matchmaking_def process_matchmaking_def add_spectator_def remove_spectator_def set_rewards_config_def require_pvp_admin_def
  ok_rules Let_def dest!: get_stats_Ok decay_marks decay_players_marks marks_keeps(4) split: if_splits option.splits prod.splits list.splits)

text \<open>What the program relies on of the double arithmetic: rounding is monotone and exact at the small integers involved, the
  power of a non-negative base is non-negative, and rounding to an integer gives a nearest one.\<close>

definition f64_ok :: "f64_env \<Rightarrow> bool" where
  "f64_ok fp \<longleftrightarrow> mono (fl fp) \<and> (\<forall>n\<in>{0, 1, -1, 32, -32}. fl fp n = n) \<and> (\<forall>x y. 0 \<le> x \<longrightarrow> 0 \<le> libm_pow fp x y)
    \<and> (\<forall>x. libm_round fp x \<in> \<int> \<and> \<bar>libm_round fp x - x\<bar> \<le> 1 / 2)"

lemma fl_between:
  assumes "f64_ok fp" and "a \<le> x" and "x \<le> b" and "a \<in> {0, 1, -1, 32, -32}" and "b \<in> {0, 1, -1, 32, -32}"
  shows "a \<le> fl fp x \<and> fl fp x \<le> b"
proof -
  have m: "mono (fl fp)" and e: "fl fp a = a" "fl fp b = b" using assms(1,4,5) unfolding f64_ok_def by blast+
  show ?thesis using monoD[OF m assms(2)] monoD[OF m assms(3)] e by simp
qed

lemma expected_between:
  assumes "f64_ok fp"
  shows "0 \<le> fl fp (1 / fl fp (1 + libm_pow fp 10 z)) \<and> fl fp (1 / fl fp (1 + libm_pow fp 10 z)) \<le> 1"
proof -
  have p: "0 \<le> libm_pow fp 10 z" and m: "mono (fl fp)" and e: "fl fp 1 = 1" using assms unfolding f64_ok_def by auto
  have "1 \<le> fl fp (1 + libm_pow fp 10 z)" using monoD[OF m, of 1 "1 + libm_pow fp 10 z"] p e by simp
  then have "0 \<le> 1 / fl fp (1 + libm_pow fp 10 z)" "1 / fl fp (1 + libm_pow fp 10 z) \<le> 1" by auto
  from fl_between[OF assms this] show ?thesis by simp
qed

lemma round_bound:
  assumes "f64_ok fp" and "\<bar>x\<bar> \<le> 32"
  shows "as_u32 (libm_round fp x) \<le> 32 \<and> as_u32 \<bar>libm_round fp x\<bar> \<le> 32"
proof -
  have r: "libm_round fp x \<in> \<int>" "\<bar>libm_round fp x - x\<bar> \<le> 1 / 2" using assms(1) unfolding f64_ok_def by blast+
  then obtain k where k: "libm_round fp x = of_int k" by (auto elim: Ints_cases)
  have "of_int \<bar>k\<bar> \<le> (32 + 1 / 2 :: real)" using r(2) assms(2) unfolding k by linarith
  then have "\<bar>k\<bar> \<le> 32" by linarith
  then show ?thesis unfolding k as_u32_def by (simp add: nat_le_iff flip: of_int_abs)
qed

lemma elo_change_le:
  assumes "f64_ok fp"
  shows "fst (calculate_elo_change fp a b) \<le> 32 \<and> snd (calculate_elo_change fp a b) \<le> 32"
proof -
  define x where "x = fl fp (1 / fl fp (1 + libm_pow fp 10 (fl fp (fl fp (real b - real a) / 400))))"
  define y where "y = fl fp (1 / fl fp (1 + libm_pow fp 10 (fl fp (fl fp (real a - real b) / 400))))"
  have x: "0 \<le> x" "x \<le> 1" and y: "0 \<le> y" "y \<le> 1" using expected_between[OF assms] by (simp_all add: x_def y_def)
  have "0 \<le> fl fp (1 - x) \<and> fl fp (1 - x) \<le> 1" "-1 \<le> fl fp (0 - y) \<and> fl fp (0 - y) \<le> 0" using fl_between[OF assms, of 0 "1 - x" 1] fl_between[OF assms, of "-1" "0 - y" 0] x y by simp_all
  then have "\<bar>fl fp (32 * fl fp (1 - x))\<bar> \<le> 32" "\<bar>fl fp (32 * fl fp (0 - y))\<bar> \<le> 32"
    using fl_between[OF assms, of 0 "32 * fl fp (1 - x)" 32] fl_between[OF assms, of "-32" "32 * fl fp (0 - y)" 0] by simp_all
  from round_bound[OF assms this(1)] round_bound[OF assms this(2)] show ?thesis by (simp add: calculate_elo_change_def Let_def flip: x_def y_def)
qed

text \<open>The rating of a player once the decay due has been applied.\<close>

definition decayed :: "env \<Rightarrow> address \<Rightarrow> 'a pvp_store_scheme \<Rightarrow> u32" where
  "decayed env p s = (case fst (decay_elo env p s) of Ok (_, e) \<Rightarrow> e | _ \<Rightarrow> get_elo_rating p s)"

lemma decay_local:
  assumes "elo_rating t p = elo_rating s p" and "last_active t p = last_active s p" and "elo_decay_config t = elo_decay_config s"
  shows "fst (decay_elo env p t) = fst (decay_elo env p s)"
proof -
  have "get_elo_rating p t = get_elo_rating p s" "get_last_active p t = get_last_active p s" "get_elo_decay_config t = get_elo_decay_config s"
    using assms by (simp_all add: get_elo_rating_def get_last_active_def get_elo_decay_config_def)
  then show ?thesis by (simp add: decay_elo_def Let_def checked_div_def)
qed

lemma decay_writes:
  assumes "decay_elo env p s = (Ok (b, e), s')"
  shows "e = decayed env p s \<and> get_elo_rating p s' = e \<and> (\<forall>q. q \<noteq> p \<longrightarrow> elo_rating s' q = elo_rating s q) \<and> last_active s' = last_active s \<and> elo_decay_config s' = elo_decay_config s"
proof -
  have "decayed env p s = e" using assms by (simp add: decayed_def)
  then show ?thesis using assms by (auto simp: decay_elo_def get_elo_rating_def write_elo_rating_def publish_def Let_def ok_rules split: if_splits)
qed

lemma load_writes:
  assumes "load_stats_with_elo env p s = (Ok (st, e), s')"
  shows "e = decayed env p s \<and> (\<forall>q. q \<noteq> p \<longrightarrow> elo_rating s' q = elo_rating s q \<and> last_active s' q = last_active s q) \<and> elo_decay_config s' = elo_decay_config s"
proof -
  from assms obtain b t where d: "decay_elo env p s = (Ok (b, e), t)" and s': "s' = update_last_active env p t"
    by (auto simp: load_stats_with_elo_def Let_def ok_rules split: prod.splits)
  show ?thesis using decay_writes[OF d] by (simp add: s' update_last_active_def publish_def)
qed

lemma write_rating_get [simp]: "elo_rating (write_elo_rating p x y s) = (elo_rating s)(p \<mapsto> y)"
  by (simp add: write_elo_rating_def publish_def)

lemma last_active_update [simp]: "last_active (update_last_active env p s) = (last_active s)(p \<mapsto> timestamp env)"
  by (simp add: update_last_active_def publish_def)

lemma rating_update [simp]: "elo_rating (update_last_active env p s) = elo_rating s"
  by (simp add: update_last_active_def publish_def)

lemma publish_rating [simp]: "elo_rating (publish t d s) = elo_rating s"
  by (simp add: publish_def)

lemma end_combat_ratings:
  assumes "end_combat fp env c s = (Ok u, s')" and "pcb_winner c = Some w" and "pcb_player1 c \<noteq> pcb_player2 c" and "{w, l} = {pcb_player1 c, pcb_player2 c}" and "f64_ok fp"
  shows "(\<exists>j k. j \<le> 32 \<and> k \<le> 32 \<and> get_elo_rating w s' = min u32_max (decayed env w s + j) \<and> get_elo_rating l s' = decayed env l s - k)
    \<and> (\<forall>q. q \<notin> {w, l} \<longrightarrow> get_elo_rating q s' = get_elo_rating q s)"
proof -
  let ?a = "pcb_player1 c" and ?b = "pcb_player2 c"
  from assms(1) obtain st1 e1 t1 st2 e2 t2 where l: "load_stats_with_elo env ?a s = (Ok (st1, e1), t1)" "load_stats_with_elo env ?b t1 = (Ok (st2, e2), t2)"
      and r: "elo_rating s' = elo_rating (score_ratings fp c e1 e2 t2)"
    unfolding end_combat_def by (auto simp: Let_def ok_rules record_history_Ok split: prod.splits)
  note w1 = load_writes[OF l(1)] and w2 = load_writes[OF l(2)]
  have "decayed env ?b t1 = decayed env ?b s" using decay_local[of t1 ?b s env] w1 assms(3)[symmetric] by (simp add: decayed_def get_elo_rating_def split: outcome.split)
  then have e: "e1 = decayed env ?a s" "e2 = decayed env ?b s" using w1 w2 by simp_all
  obtain x y where xy: "calculate_elo_change fp e1 e2 = (x, y)" by fastforce
  have b: "x \<le> 32" "min y z \<le> 32" for z using elo_change_le[OF assms(5), of e1 e2] xy by auto
  have rest: "elo_rating t2 q = elo_rating s q" if "q \<notin> {?a, ?b}" for q using w1 w2 that by simp
  show ?thesis
  proof (cases "w = ?a")
    case True
    then have "l = ?b" using assms(3,4) by (auto simp: doubleton_eq_iff)
    then show ?thesis using True assms(2,3) xy b(1) b(2)[of e2] rest e by (auto simp: r score_ratings_def get_elo_rating_def saturating_add_def saturating_sub_def)
  next
    case False
    then have "w = ?b" "l = ?a" using assms(3,4) by (auto simp: doubleton_eq_iff)
    then show ?thesis using False assms(2,3) xy b(1) b(2)[of e1] rest e by (auto simp: r score_ratings_def get_elo_rating_def saturating_add_def saturating_sub_def)
  qed
qed

section \<open>A concrete arena\<close>

text \<open>Exact real arithmetic, with the real power function and rounding to the nearest integer, is an instance of what the program relies on.\<close>

definition exact_f64 :: f64_env where
  "exact_f64 = \<lparr>fl = (\<lambda>x. x), libm_pow = (\<lambda>x y. x powr y), libm_round = (\<lambda>x. of_int (round x))\<rparr>"

lemma exact_f64_ok: "f64_ok exact_f64"
  using of_int_round_abs_le by (auto simp: f64_ok_def exact_f64_def mono_def)

definition no_pvp :: pvp_store where
  "no_pvp = access_store.extend no_access \<lparr>player_stats = Map.empty, pvp_challenges = Map.empty, challenge_counter = None, combats = Map.empty, combat_counter = None,
     combat_history = Map.empty, combat_history_counter = Map.empty, matchmaking_queue = None, elo_rating = Map.empty, spectators = Map.empty, rewards_config = None,
     last_active = Map.empty, elo_decay_config = None\<rparr>"

text \<open>One combat between players 1 and 2, begun at time 100 with player 1 to move.\<close>

definition arena :: pvp_store where
  "arena = no_pvp\<lparr>combats := [1 \<mapsto> new_combat (signed_at 100 1) (Addr 1) (Addr 2) 1], combat_counter := Some 1,
     player_stats := [Addr 1 \<mapsto> fresh_stats\<lparr>pcs_combat_count := 1\<rparr>, Addr 2 \<mapsto> fresh_stats\<lparr>pcs_combat_count := 1\<rparr>]\<rparr>"

lemma no_pvp_simps [simp]: "ac_admin no_pvp = None" "player_stats no_pvp = Map.empty" "pvp_challenges no_pvp = Map.empty" "challenge_counter no_pvp = None" "combats no_pvp = Map.empty" "combat_counter no_pvp = None"
    "combat_history no_pvp = Map.empty" "combat_history_counter no_pvp = Map.empty" "matchmaking_queue no_pvp = None" "elo_rating no_pvp = Map.empty" "spectators no_pvp = Map.empty"
    "last_active no_pvp = Map.empty" "elo_decay_config no_pvp = None" "role_member no_pvp = Map.empty"
  by (simp_all add: no_pvp_def access_store.defs no_access_simps)

lemma table_sum_empty [simp]: "table_sum f Map.empty = 0"
  by (simp add: table_sum_def)

lemma arena_pvp_inv: "pvp_inv arena"
proof -
  have c: "table_sum f (combats arena) = f (new_combat (signed_at 100 1) (Addr 1) (Addr 2) 1)" for f
    using table_sum_upd[of Map.empty f "Suc 0" "new_combat (signed_at 100 1) (Addr 1) (Addr 2) 1"] by (simp add: arena_def)
  have p: "table_sum f (player_stats arena) = f (fresh_stats\<lparr>pcs_combat_count := 1\<rparr>) + f (fresh_stats\<lparr>pcs_combat_count := 1\<rparr>)" for f
    using table_sum_upd[of Map.empty f "Addr 1" "fresh_stats\<lparr>pcs_combat_count := 1\<rparr>"] table_sum_upd[of "[Addr 1 \<mapsto> fresh_stats\<lparr>pcs_combat_count := 1\<rparr>]" f "Addr 2" "fresh_stats\<lparr>pcs_combat_count := 1\<rparr>"]
    by (simp add: arena_def)
  have "arena_inv arena" using new_combat_ok(1) by (auto simp: arena_inv_def arena_def split: if_splits)
  moreover have "tally_inv arena" using new_combat_ok(2,3) by (simp add: tally_inv_def c p) (simp add: arena_def)
  moreover have "lobby_inv arena" by (simp add: lobby_defs arena_def)
  ultimately show ?thesis by (simp add: pvp_inv_def)
qed

text \<open>A special move of power 50 takes player 2 down.\<close>

lemma no_decay: "get_last_active p s = 0 \<or> timestamp env - get_last_active p s < ped_inactivity_secs (get_elo_decay_config s) \<Longrightarrow> decay_elo env p s = (Ok (get_elo_rating p s, get_elo_rating p s), s)"
  by (auto simp: decay_elo_def Let_def saturating_sub_def)

lemma end_combat_enabled:
  assumes "pcb_started_at c \<le> timestamp env" and "pcb_winner c = Some (pcb_player1 c)" and "pcb_player1 c \<noteq> pcb_player2 c"
    and "decay_elo env (pcb_player1 c) s = (Ok (r, r), s)" and "decay_elo env (pcb_player2 c) (update_last_active env (pcb_player1 c) s) = (Ok (q, q), update_last_active env (pcb_player1 c) s)"
    and "pcs_wins (stats_of (pcb_player1 c) s) < u32_max" and "pcs_losses (stats_of (pcb_player2 c) s) < u32_max" and "fights s (pcb_player1 c) < u64_max" and "fights s (pcb_player2 c) < u64_max"
  shows "\<exists>t. end_combat fp env c s = (Ok (), t) \<and> combats t = combats s"
proof -
  let ?t = "update_last_active env (pcb_player2 c) (update_last_active env (pcb_player1 c) s)"
  define u where "u = score_ratings fp c r q ?t"
  have m: "marks s u" by (simp add: u_def)
  have l: "load_stats_with_elo env (pcb_player1 c) s = (Ok (stats_of (pcb_player1 c) s, r), update_last_active env (pcb_player1 c) s)"
    "load_stats_with_elo env (pcb_player2 c) (update_last_active env (pcb_player1 c) s) = (Ok (stats_of (pcb_player2 c) s, q), ?t)"
    using assms(4,5) by (simp_all add: load_stats_with_elo_def fresh_stats_def)
  obtain x1 x2 where sc: "score_stats c (stats_of (pcb_player1 c) s) (stats_of (pcb_player2 c) s) = Some (x1, x2)"
    using assms(2,6,7) by (auto simp: score_stats_def add_win_def add_loss_def checked_add_def)
  show ?thesis using assms(1,3,8,9) marks_keeps[OF m]
    by (simp add: end_combat_def checked_sub_def l sc record_combat_history_def checked_add_def Let_def flip: u_def)
qed

lemma arena_knockout:
  "\<exists>s' d. execute_move exact_f64 (signed_at 200 1) (Addr 1) 1 ''special'' 50 arena = (Ok (), s') \<and> get_combat 1 s' = Ok d
     \<and> pcb_status d = ''finished'' \<and> pcb_winner d = Some (Addr 1) \<and> pcb_player1 d = Addr 1 \<and> pcb_player2 d = Addr 2"
proof -
  let ?e = "signed_at 200 1" and ?s = "update_last_active (signed_at 200 1) (Addr 1) arena"
  let ?c = "new_combat (signed_at 100 1) (Addr 1) (Addr 2) 1"
  define d where "d = (log_move True ''p1_special'' ''p2_special'' (?c\<lparr>pcb_player1_energy := 75, pcb_player2_hp := 0\<rparr>))\<lparr>pcb_winner := Some (Addr 1), pcb_status := ''finished''\<rparr>"
  have d: "pcb_player1 d = Addr 1" "pcb_player2 d = Addr 2" "pcb_winner d = Some (Addr 1)" "pcb_status d = ''finished''" "pcb_started_at d = 100" by (simp_all add: d_def log_move_def new_combat_def)
  have a: "last_active arena = Map.empty" "elo_decay_config arena = None" by (simp_all add: arena_def)
  have dec: "decay_elo ?e (Addr 1) ?s = (Ok (get_elo_rating (Addr 1) ?s, get_elo_rating (Addr 1) ?s), ?s)"
    by (rule no_decay) (simp add: get_last_active_def get_elo_decay_config_def a)
  have dec2: "decay_elo ?e (Addr 2) (update_last_active ?e (Addr 1) ?s) = (Ok (get_elo_rating (Addr 2) (update_last_active ?e (Addr 1) ?s), get_elo_rating (Addr 2) (update_last_active ?e (Addr 1) ?s)), update_last_active ?e (Addr 1) ?s)"
    by (rule no_decay) (simp add: get_last_active_def a)
  have st: "player_stats arena = [Addr 1 \<mapsto> fresh_stats\<lparr>pcs_combat_count := 1\<rparr>, Addr 2 \<mapsto> fresh_stats\<lparr>pcs_combat_count := 1\<rparr>]" "combat_history_counter arena = Map.empty" "combats arena = [1 \<mapsto> ?c]"
    by (simp_all add: arena_def)
  obtain t where t: "end_combat exact_f64 ?e d ?s = (Ok (), t)"
    using end_combat_enabled[of d ?e ?s _ _ exact_f64, unfolded d, OF _ _ _ dec dec2] by (auto simp: st)
  have mv: "process_move ''special'' 50 True (?c\<lparr>pcb_player1_energy := 75\<rparr>) = Ok (log_move True ''p1_special'' ''p2_special'' (?c\<lparr>pcb_player1_energy := 75, pcb_player2_hp := 0\<rparr>))"
    by (simp add: process_move_def hit_def checked_mul_def saturating_sub_def new_combat_def)
  have sp: "spend_energy 25 True ?c = Some (?c\<lparr>pcb_player1_energy := 75\<rparr>)" by (simp add: spend_energy_def new_combat_def)
  have cl: "conclude_move exact_f64 ?e True (log_move True ''p1_special'' ''p2_special'' (?c\<lparr>pcb_player1_energy := 75, pcb_player2_hp := 0\<rparr>)) ?s = (Ok d, t)"
    using t by (simp add: conclude_move_def d_def log_move_def new_combat_def)
  have c: "pcb_status ?c = ''active''" "pcb_turn ?c = Addr 1" "pcb_player1 ?c = Addr 1" "pcb_started_at ?c = 100" by (simp_all add: new_combat_def)
  have "execute_move exact_f64 ?e (Addr 1) 1 ''special'' 50 arena = (Ok (), t\<lparr>combats := (combats t)(1 \<mapsto> d)\<rparr>)"
    using sp mv cl by (simp add: execute_move_def st(3) c checked_add_def del: One_nat_def)
  then show ?thesis using d by (intro exI[of _ "t\<lparr>combats := (combats t)(1 \<mapsto> d)\<rparr>"] exI[of _ d]) (simp add: get_combat_def)
qed

section \<open>Properties\<close>

text \<open>C31. The arena's books. After any run of calls every stored combat is active with both sides standing or finished with exactly its winner
  standing; the players' counters add up to the combats: twice the number of combats started, one loss per finished combat, one win
  per finished combat between two players, no draws, and two history entries per finished combat; the queue and the audiences keep
  their bounds without duplicates.\<close>

theorem pvp_books_consistent:
  fixes s t :: "'a pvp_store_scheme"
  assumes "(\<lambda>s s'. \<exists>env. pvp_step fp env s s')\<^sup>*\<^sup>* s t" and "pvp_inv s"
  defines "finished \<equiv> \<lambda>P. card {i. \<exists>c. get_combat i t = Ok c \<and> pcb_status c = ''finished'' \<and> P c}"
  shows "(\<forall>i c. get_combat i t = Ok c \<longrightarrow> 1 \<le> i \<and> i \<le> combat_count t
      \<and> (pcb_status c = ''active'' \<and> pcb_winner c = None \<and> 0 < pcb_player1_hp c \<and> 0 < pcb_player2_hp c
        \<or> pcb_status c = ''finished'' \<and> (pcb_winner c = Some (pcb_player1 c) \<and> 0 < pcb_player1_hp c \<and> pcb_player2_hp c = 0
            \<or> pcb_winner c = Some (pcb_player2 c) \<and> 0 < pcb_player2_hp c \<and> pcb_player1_hp c = 0)))
    \<and> table_sum pcs_combat_count (player_stats t) = 2 * combat_count t \<and> table_sum pcs_losses (player_stats t) = finished (\<lambda>_. True)
    \<and> table_sum pcs_wins (player_stats t) = finished (\<lambda>c. pcb_player1 c \<noteq> pcb_player2 c) \<and> table_sum pcs_draws (player_stats t) = 0
    \<and> msum (combat_history_counter t) = 2 * finished (\<lambda>_. True)
    \<and> get_matchmaking_queue_size t \<le> 100 \<and> distinct (map pmq_player (unwrap_or (matchmaking_queue t) [])) \<and> (\<forall>i. length (get_spectators i t) \<le> 50 \<and> distinct (get_spectators i t))"
proof -
  have inv: "pvp_inv t" using pvp.run_inv[OF assms(1,2)] .
  have get: "get_combat i t = Ok c \<longleftrightarrow> combats t i = Some c" for i c by (auto simp: get_combat_def split: option.splits)
  have ar: "arena_inv t" using inv by (simp add: pvp_inv_def)
  have over: "table_sum over (combats t) = finished (\<lambda>_. True)" "table_sum fair_over (combats t) = finished (\<lambda>c. pcb_player1 c \<noteq> pcb_player2 c)"
    using table_count[OF arena_finite[OF ar], of "\<lambda>c. pcb_status c = ''finished''"] table_count[OF arena_finite[OF ar], of "\<lambda>c. pcb_status c = ''finished'' \<and> pcb_player1 c \<noteq> pcb_player2 c"]
    by (simp_all add: over_def[abs_def] fair_over_def[abs_def] finished_def get)
  have rng: "1 \<le> i \<and> i \<le> combat_count t \<and> combat_ok i c" if "combats t i = Some c" for i c using ar that unfolding arena_inv_def by (metis atLeastAtMost_iff domI)
  note sums = inv[unfolded pvp_inv_def tally_inv_def lobby_inv_def over, THEN conjunct2]
  have "\<forall>i c. get_combat i t = Ok c \<longrightarrow> 1 \<le> i \<and> i \<le> combat_count t
      \<and> (pcb_status c = ''active'' \<and> pcb_winner c = None \<and> 0 < pcb_player1_hp c \<and> 0 < pcb_player2_hp c
        \<or> pcb_status c = ''finished'' \<and> (pcb_winner c = Some (pcb_player1 c) \<and> 0 < pcb_player1_hp c \<and> pcb_player2_hp c = 0
            \<or> pcb_winner c = Some (pcb_player2 c) \<and> 0 < pcb_player2_hp c \<and> pcb_player1_hp c = 0))"
    unfolding get using rng combat_ok_cases by blast
  moreover have "\<forall>i. length (get_spectators i t) \<le> 50 \<and> distinct (get_spectators i t)" using audience_ok(2,3)[OF inv] unfolding get_spectators_def by blast
  ultimately show ?thesis using sums by blast
qed

theorem pvp_books_consistent_witness:
  "\<exists>s'. commits (execute_move exact_f64 (signed_at 200 1) (Addr 1) 1 ''special'' 50) arena s' \<and> table_sum pcs_losses (player_stats s') = card {i. \<exists>c. get_combat i s' = Ok c \<and> pcb_status c = ''finished''}
     \<and> msum (combat_history_counter s') = 2 * card {i. \<exists>c. get_combat i s' = Ok c \<and> pcb_status c = ''finished''}"
proof -
  obtain s' where s': "execute_move exact_f64 (signed_at 200 1) (Addr 1) 1 ''special'' 50 arena = (Ok (), s')" using arena_knockout by blast
  then have c: "commits (execute_move exact_f64 (signed_at 200 1) (Addr 1) 1 ''special'' 50) arena s'" by (rule commitsI)
  then have "(\<lambda>s s'. \<exists>env. pvp_step exact_f64 env s s')\<^sup>*\<^sup>* arena s'" by (blast intro: pvp_step.move)
  from pvp_books_consistent[OF this arena_pvp_inv] c show ?thesis by auto
qed

text \<open>C34. What a combat does to the ratings. With double arithmetic that behaves as documented, the move that ends a combat between two
  players raises the winner's decayed rating by at most 32 points, lowers the loser's by at most 32 without going below zero, and
  changes no other rating.\<close>

theorem rating_change_bounded:
  fixes s :: "'a pvp_store_scheme"
  assumes "f64_ok fp" and "execute_move fp env a i m n s = (Ok u, s')" and "get_combat i s' = Ok d" and "pcb_status d = ''finished''" and "pcb_player1 d \<noteq> pcb_player2 d" and "pvp_inv s"
  shows "\<exists>w l j k. {w, l} = {pcb_player1 d, pcb_player2 d} \<and> pcb_winner d = Some w \<and> j \<le> 32 \<and> k \<le> 32
    \<and> get_elo_rating w s' = min u32_max (decayed env w (update_last_active env a s) + j) \<and> get_elo_rating l s' = decayed env l (update_last_active env a s) - k
    \<and> (\<forall>q. q \<notin> {w, l} \<longrightarrow> get_elo_rating q s' = get_elo_rating q s)"
  using assms(2)
proof (rule execute_move_Ok)
  fix c c1 c2 e t
  let ?s = "update_last_active env a s"
  assume c: "combats s i = Some c" "pcb_status c = ''active''" "spend_energy (n div 2) (a = pcb_player1 c) c = Some c1" "process_move m n (a = pcb_player1 c) c1 = Ok c2"
    "conclude_move fp env (a = pcb_player1 c) c2 ?s = (Ok e, t)" "s' = t\<lparr>combats := (combats t)(i \<mapsto> e)\<rparr>"
  have d: "d = e" using assms(3) by (simp add: get_combat_def c(6))
  have ok: "combat_ok i c" using assms(6) c(1) by (simp add: pvp_inv_def arena_inv_def)
  have "pcb_status c2 = ''active''" using move_combat[OF ok c(2,3,4)] c(2) by (simp add: same_bout_def)
  then obtain w where w: "w \<in> {pcb_player1 d, pcb_player2 d}" "pcb_winner d = Some w" "end_combat fp env d ?s = (Ok (), t)"
    using conclude_Ok[OF c(5)] assms(4) by (auto simp: d split: if_splits)
  from w(1) obtain l where l: "{w, l} = {pcb_player1 d, pcb_player2 d}" by blast
  have r: "elo_rating s' = elo_rating t" "elo_rating ?s = elo_rating s" by (simp_all add: c(6))
  from end_combat_ratings[OF w(3,2) assms(5) l assms(1)] l w(2) show ?thesis unfolding get_elo_rating_def r by blast
qed

theorem rating_change_bounded_witness:
  "\<exists>s' j k. execute_move exact_f64 (signed_at 200 1) (Addr 1) 1 ''special'' 50 arena = (Ok (), s') \<and> j \<le> 32 \<and> k \<le> 32
     \<and> get_elo_rating (Addr 1) s' = 1200 + j \<and> get_elo_rating (Addr 2) s' = 1200 - k"
proof -
  obtain s' d where k: "execute_move exact_f64 (signed_at 200 1) (Addr 1) 1 ''special'' 50 arena = (Ok (), s')" and d: "get_combat 1 s' = Ok d" "pcb_status d = ''finished''"
      "pcb_winner d = Some (Addr 1)" "pcb_player1 d = Addr 1" "pcb_player2 d = Addr 2" using arena_knockout by blast
  let ?s = "update_last_active (signed_at 200 1) (Addr 1) arena"
  have a: "last_active arena = Map.empty" "elo_decay_config arena = None" "elo_rating arena = Map.empty" by (simp_all add: arena_def)
  have "decayed (signed_at 200 1) p ?s = 1200" if "p = Addr 1 \<or> p = Addr 2" for p
    unfolding decayed_def using that by (subst no_decay) (auto simp: get_last_active_def get_elo_decay_config_def get_elo_rating_def a)
  with rating_change_bounded[OF exact_f64_ok k d(1,2) _ arena_pvp_inv] d(3-5) obtain l j m where "{Addr 1, l} = {Addr 1, Addr 2}" "j \<le> 32" "m \<le> 32"
      "get_elo_rating (Addr 1) s' = min u32_max (1200 + j)" "get_elo_rating l s' = decayed (signed_at 200 1) l ?s - m" by auto
  then show ?thesis using k \<open>\<And>p. p = Addr 1 \<or> p = Addr 2 \<Longrightarrow> decayed (signed_at 200 1) p ?s = 1200\<close> by (auto simp: doubleton_eq_iff)
qed

text \<open>C33. A combat that runs out of time is stuck. The timeout branch marks the combat cancelled and then returns an error, so the host rolls
  the mark back: once an active combat is past its hour, no call ever changes it again, it is never cancelled and never has a winner.\<close>

theorem timed_out_combat_frozen:
  fixes s t :: "'a pvp_store_scheme"
  assumes "(\<lambda>s s'. \<exists>env. pcb_started_at c + COMBAT_TIMEOUT < timestamp env \<and> pvp_step fp env s s')\<^sup>*\<^sup>* s t" and "pvp_inv s"
    and "get_combat i s = Ok c" and "pcb_status c = ''active''"
  shows "get_combat i t = Ok c \<and> pcb_winner c = None \<and> (\<forall>env a m n. pcb_started_at c + COMBAT_TIMEOUT < timestamp env \<longrightarrow> (\<nexists>s'. commits (execute_move fp env a i m n) t s'))"
proof -
  have c: "combats s i = Some c" using assms(3) by (auto simp: get_combat_def split: option.splits)
  have "pvp_inv t \<and> combats t i = Some c" using assms(1)
  proof (induction rule: rtranclp_induct)
    case base
    then show ?case using assms(2) c by blast
  next
    case (step u v)
    then obtain env where env: "pcb_started_at c + COMBAT_TIMEOUT < timestamp env" "pvp_step fp env u v" by blast
    have "i \<noteq> Suc (combat_count u)" using step(3) arena_fresh[of u] by (auto simp: pvp_inv_def)
    then have "combats v i = Some c" using step_combats[OF env(2)] step(3) env(1) by auto
    then show ?case using pvp_step_inv[OF env(2)] step(3) by blast
  qed
  moreover have "pcb_winner c = None" using assms(2,4) c by (auto simp: pvp_inv_def arena_inv_def combat_ok_def)
  moreover have "\<not> commits (execute_move fp env a i m n) t s'" if "combats t i = Some c" "pcb_started_at c + COMBAT_TIMEOUT < timestamp env" for env a m n s'
    using that by (auto elim!: commitsE execute_move_Ok)
  ultimately show ?thesis by (auto simp: get_combat_def)
qed

theorem timed_out_combat_frozen_witness:
  "get_combat 1 arena = Ok (new_combat (signed_at 100 1) (Addr 1) (Addr 2) 1) \<and> (\<nexists>s'. commits (execute_move exact_f64 (signed_at 3701 1) (Addr 1) 1 ''attack'' 10) arena s')"
proof -
  let ?c = "new_combat (signed_at 100 1) (Addr 1) (Addr 2) 1"
  have g: "get_combat 1 arena = Ok ?c" "pcb_status ?c = ''active''" "pcb_started_at ?c = 100" by (simp_all add: get_combat_def arena_def new_combat_def)
  from timed_out_combat_frozen[OF rtranclp.rtrancl_refl arena_pvp_inv g(1,2), of exact_f64] g show ?thesis by simp
qed

text \<open>C32. One administrator for two modules. The combat module and the role registry keep their administrator under the same storage
  key: whoever signs the first \<open>set_pvp_admin\<close> call on a contract without roles can grant every role and blocks the registry's own
  initialisation for everybody, and on a contract with roles the combat module can have no administrator of its own.\<close>

theorem admin_key_shared:
  fixes s :: "'a pvp_store_scheme"
  shows "(set_pvp_admin env a s = (Ok (), s') \<longrightarrow> (\<forall>env' b t. init_roles env' b s' \<noteq> (Ok (), t))
      \<and> (\<forall>env' role b. auth env' a \<longrightarrow> (\<exists>t. grant_role env' a role b None s' = (Ok (), t) \<and> has_role env' role b t)))
    \<and> (init_roles env a s = (Ok (), s') \<longrightarrow> (\<forall>env' b t. set_pvp_admin env' b s' \<noteq> (Ok (), t))
      \<and> (\<forall>env' b. require_pvp_admin env' b s' = (Ok (), s') \<longleftrightarrow> auth env' b \<and> b = a))"
  by (auto simp: set_pvp_admin_def init_roles_def require_pvp_admin_def grant_role_def admin_only_def expiry_passed_def has_role_def set_role_record_def new_role_record_def
      register_known_role_def ok_rules Let_def publish_def)

theorem admin_key_shared_witness:
  "\<exists>s' t. set_pvp_admin (signed_at 5 1) (Addr 7) no_pvp = (Ok (), s') \<and> fst (init_roles (signed_at 6 2) (Addr 1) s') \<noteq> Ok ()
     \<and> grant_role (signed_at 6 2) (Addr 7) admin_role (Addr 7) None s' = (Ok (), t) \<and> has_role (signed_at 6 2) admin_role (Addr 7) t"
proof -
  obtain s' where s': "set_pvp_admin (signed_at 5 1) (Addr 7) no_pvp = (Ok (), s')" by (simp add: set_pvp_admin_def)
  with admin_key_shared[of "signed_at 5 1" "Addr 7" no_pvp s'] obtain t where
    "grant_role (signed_at 6 2) (Addr 7) admin_role (Addr 7) None s' = (Ok (), t)" "has_role (signed_at 6 2) admin_role (Addr 7) t" "\<forall>t. init_roles (signed_at 6 2) (Addr 1) s' \<noteq> (Ok (), t)"
    by (metis signed_at_simps(3))
  then show ?thesis using s' by (metis prod.collapse)
qed

end
