(* ===== verification/Leaderboards.thy ===== *)
theory Leaderboards
  imports Pvp_Combat "HOL-Library.Multiset"
begin

text \<open>
  \<open>src/leaderboards.rs\<close>: score boards per category and period, guild, regional and achievement boards, seasons with
  archives, and paginated reads. The administrator key is the persistent unit variant \<open>Admin\<close>, the same entry as in
  \<open>src/access_control.rs\<close> and \<open>src/pvp_combat.rs\<close> (\<open>ac_admin\<close>). The four boards share their update (raise the first entry of the player or append
  one) and their exchange sort; the locale \<open>ranking\<close> states what a board needs for both to keep it ranked.
\<close>

section \<open>Model: data\<close>

datatype LeaderboardError = InvalidCategory | InvalidTimePeriod | InvalidRegion | PlayerNotFound | Unauthorized | LeaderboardFull | ResetNotDue
  | AlreadyInitialized | InvalidPagination

record LeaderboardEntry =
  le_player :: address
  le_score :: u64
  le_timestamp :: u64
  le_metadata :: "symbol \<rightharpoonup> string"

record GuildEntry =
  ge_guild_name :: string
  ge_score :: u64
  ge_member_count :: u32

record RegionalEntry =
  re_player :: address
  re_region :: symbol
  re_score :: u64

record AchievementEntry =
  ae_player :: address
  ae_achievement_count :: u32
  ae_total_points :: u64

record LeaderboardRewards =
  lr_top_1_reward :: u64
  lr_top_2_reward :: u64
  lr_top_3_reward :: u64
  lr_top_10_reward :: u64

record PageMeta =
  pm_page :: u32
  pm_page_size :: u32
  pm_total :: u32
  pm_has_more :: bool

abbreviation MAX_LEADERBOARD_ENTRIES :: u32 where "MAX_LEADERBOARD_ENTRIES \<equiv> 100"
abbreviation MAX_GUILD_BOARD_ENTRIES :: u32 where "MAX_GUILD_BOARD_ENTRIES \<equiv> 50"
abbreviation MAX_PAGE_SIZE :: u32 where "MAX_PAGE_SIZE \<equiv> 50"
abbreviation WEEKLY_DURATION :: u64 where "WEEKLY_DURATION \<equiv> 604800"
abbreviation MONTHLY_DURATION :: u64 where "MONTHLY_DURATION \<equiv> 2592000"
abbreviation PERIOD_SEASONAL :: symbol where "PERIOD_SEASONAL \<equiv> ''seasonal''"

record board_store = pvp_store +
  boards :: "(symbol \<times> symbol) \<rightharpoonup> LeaderboardEntry list"
  player_guild :: "address \<rightharpoonup> string"
  guild_board :: "symbol \<rightharpoonup> GuildEntry list"
  regional_board :: "(symbol \<times> symbol) \<rightharpoonup> RegionalEntry list"
  achievement_board :: "AchievementEntry list option"
  board_season :: "(symbol \<times> symbol) \<rightharpoonup> u32"
  board_archive :: "(symbol \<times> symbol \<times> u32) \<rightharpoonup> LeaderboardEntry list"
  last_reset :: "(symbol \<times> symbol) \<rightharpoonup> u64"

section \<open>Model: shared helpers\<close>

definition set_board_admin :: "env \<Rightarrow> address \<Rightarrow> 'a board_store_scheme \<Rightarrow> (LeaderboardError, unit) outcome \<times> 'a board_store_scheme" where
  "set_board_admin env admin s =
    (if \<not> auth env admin then (Panic, s)
     else if ac_admin s \<noteq> None then (Err AlreadyInitialized, s)
     else (Ok (), s\<lparr>ac_admin := Some admin\<rparr>))"

definition require_board_admin :: "env \<Rightarrow> address \<Rightarrow> 'a board_store_scheme \<Rightarrow> (LeaderboardError, unit) outcome \<times> 'a board_store_scheme" where
  "require_board_admin env caller s =
    (if \<not> auth env caller then (Panic, s)
     else case ac_admin s of
       None \<Rightarrow> (Err Unauthorized, s)
     | Some admin \<Rightarrow> if caller \<noteq> admin then (Err Unauthorized, s) else (Ok (), s))"

definition validate_category :: "symbol \<Rightarrow> 's \<Rightarrow> (LeaderboardError, unit) outcome \<times> 's" where
  "validate_category c s =
    (if c = ''essence'' \<or> c = ''scans'' \<or> c = ''missions'' \<or> c = ''nebulae'' \<or> c = ''ships'' \<or> c = ''trades'' \<or> c = ''crafts'' \<or> c = ''bounties''
        \<or> c = ''pvp_wins'' \<or> c = ''pvp_rating'' \<or> c = ''guild_contrib'' \<or> c = ''achievements''
     then (Ok (), s) else (Err InvalidCategory, s))"

definition validate_time_period :: "symbol \<Rightarrow> 's \<Rightarrow> (LeaderboardError, unit) outcome \<times> 's" where
  "validate_time_period p s =
    (if p = ''daily'' \<or> p = ''weekly'' \<or> p = ''monthly'' \<or> p = ''all_time'' \<or> p = PERIOD_SEASONAL then (Ok (), s) else (Err InvalidTimePeriod, s))"

definition validate_region :: "symbol \<Rightarrow> 's \<Rightarrow> (LeaderboardError, unit) outcome \<times> 's" where
  "validate_region r s =
    (if r = ''namerica'' \<or> r = ''europe'' \<or> r = ''asia'' \<or> r = ''samerica'' \<or> r = ''africa'' \<or> r = ''oceania'' then (Ok (), s) else (Err InvalidRegion, s))"

text \<open>The exchange sort: position \<open>i\<close> is compared with every later position \<open>j\<close> and swapped when the later entry scores more.\<close>

definition exchange :: "('e \<Rightarrow> nat) \<Rightarrow> nat \<Rightarrow> nat \<Rightarrow> 'e list \<Rightarrow> 'e list" where
  "exchange key i j es = (if key (es ! j) > key (es ! i) then es[i := es ! j, j := es ! i] else es)"

definition exchange_row :: "('e \<Rightarrow> nat) \<Rightarrow> nat \<Rightarrow> 'e list \<Rightarrow> 'e list" where
  "exchange_row key i es = fold (exchange key i) [Suc i..<length es] es"

definition exchange_sort :: "('e \<Rightarrow> nat) \<Rightarrow> 'e list \<Rightarrow> 'e list" where
  "exchange_sort key es = fold (exchange_row key) [0..<length es] es"

definition sort_entries_descending :: "LeaderboardEntry list \<Rightarrow> LeaderboardEntry list" where
  "sort_entries_descending = exchange_sort le_score"

definition sort_guild_entries_descending :: "GuildEntry list \<Rightarrow> GuildEntry list" where
  "sort_guild_entries_descending = exchange_sort ge_score"

definition sort_regional_entries_descending :: "RegionalEntry list \<Rightarrow> RegionalEntry list" where
  "sort_regional_entries_descending = exchange_sort re_score"

definition sort_achievement_entries_descending :: "AchievementEntry list \<Rightarrow> AchievementEntry list" where
  "sort_achievement_entries_descending = exchange_sort ae_total_points"

text \<open>The update every board makes: improve the first matching entry, or append a new one while there is room.\<close>

fun improve_first :: "('e \<Rightarrow> bool) \<Rightarrow> ('e \<Rightarrow> 'e) \<Rightarrow> 'e list \<Rightarrow> 'e list option" where
  "improve_first is_it improve [] = None"
| "improve_first is_it improve (e # es) = (if is_it e then Some (improve e # es) else map_option ((#) e) (improve_first is_it improve es))"

definition upsert :: "('e \<Rightarrow> bool) \<Rightarrow> ('e \<Rightarrow> 'e) \<Rightarrow> 'e \<Rightarrow> nat \<Rightarrow> 'e list \<Rightarrow> 'e list option" where
  "upsert is_it improve new_entry room es = (case improve_first is_it improve es of
     Some es' \<Rightarrow> Some es'
   | None \<Rightarrow> if length es \<ge> room then None else Some (es @ [new_entry]))"

definition take_range :: "'e list \<Rightarrow> u32 \<Rightarrow> u32 \<Rightarrow> 'e list" where
  "take_range entries start stop =
    (let start = min start (length entries); stop = min stop (length entries) in map (\<lambda>index. entries ! index) [start..<stop])"

definition paginate :: "'e list \<Rightarrow> u32 \<Rightarrow> u32 \<Rightarrow> 's \<Rightarrow> (LeaderboardError, 'e list \<times> PageMeta) outcome \<times> 's" where
  "paginate entries page page_size s =
    (if page_size = 0 \<or> page_size > MAX_PAGE_SIZE then (Err InvalidPagination, s)
     else let total_entries = length entries;
         start = min (saturating_mul u32_max page page_size) total_entries;
         stop = min (saturating_add u32_max start page_size) total_entries
     in (Ok (take_range entries start stop, \<lparr>pm_page = page, pm_page_size = page_size, pm_total = total_entries, pm_has_more = stop < total_entries\<rparr>), s))"

section \<open>Model: the boards\<close>

abbreviation board_of :: "symbol \<Rightarrow> symbol \<Rightarrow> 'a board_store_scheme \<Rightarrow> LeaderboardEntry list" where
  "board_of c p s \<equiv> unwrap_or (boards s (c, p)) []"

definition update_score :: "env \<Rightarrow> address \<Rightarrow> symbol \<Rightarrow> symbol \<Rightarrow> u64 \<Rightarrow> 'a board_store_scheme \<Rightarrow> (LeaderboardError, unit) outcome \<times> 'a board_store_scheme" where
  "update_score env player category time_period score s =
    (if \<not> auth env player then (Panic, s)
     else and_then (validate_category category s) (\<lambda>_ s. and_then (validate_time_period time_period s) (\<lambda>_ s.
     case upsert (\<lambda>entry. le_player entry = player) (\<lambda>entry. entry\<lparr>le_score := max (le_score entry) score, le_timestamp := timestamp env\<rparr>)
            \<lparr>le_player = player, le_score = score, le_timestamp = timestamp env, le_metadata = Map.empty\<rparr> MAX_LEADERBOARD_ENTRIES (board_of category time_period s) of
       None \<Rightarrow> (Err LeaderboardFull, s)
     | Some entries \<Rightarrow>
     let s = s\<lparr>boards := (boards s)((category, time_period) \<mapsto> sort_entries_descending entries)\<rparr>
     in (Ok (), publish [SS ''lb'', SS ''update''] [SA player, SS category, SS time_period, SU score] s))))"

text \<open>The entry point of \<open>src/lib.rs\<close> mirrors the score onto the player's power-tier board.\<close>

definition update_leaderboard_score :: "env \<Rightarrow> address \<Rightarrow> symbol \<Rightarrow> symbol \<Rightarrow> u64 \<Rightarrow> 'a board_store_scheme \<Rightarrow> (LeaderboardError, unit) outcome \<times> 'a board_store_scheme" where
  "update_leaderboard_score env player category time_period score s = and_then (update_score env player category time_period score s) (\<lambda>_ s.
     (Ok (), snd (record_tier_score env player score s)))"

definition get_leaderboard :: "symbol \<Rightarrow> symbol \<Rightarrow> u32 \<Rightarrow> 'a board_store_scheme \<Rightarrow> (LeaderboardError, LeaderboardEntry list) outcome \<times> 'a board_store_scheme" where
  "get_leaderboard category time_period limit s = and_then (validate_category category s) (\<lambda>_ s. and_then (validate_time_period time_period s) (\<lambda>_ s.
     (Ok (take_range (board_of category time_period s) 0 limit), s)))"

definition update_guild_score :: "env \<Rightarrow> address \<Rightarrow> string \<Rightarrow> u64 \<Rightarrow> u32 \<Rightarrow> 'a board_store_scheme \<Rightarrow> (LeaderboardError, unit) outcome \<times> 'a board_store_scheme" where
  "update_guild_score env caller guild_name score member_count s = and_then (require_board_admin env caller s) (\<lambda>_ s.
     case upsert (\<lambda>entry. ge_guild_name entry = guild_name) (\<lambda>entry. entry\<lparr>ge_score := max (ge_score entry) score, ge_member_count := member_count\<rparr>)
            \<lparr>ge_guild_name = guild_name, ge_score = score, ge_member_count = member_count\<rparr> MAX_GUILD_BOARD_ENTRIES (unwrap_or (guild_board s ''guild'') []) of
       None \<Rightarrow> (Err LeaderboardFull, s)
     | Some entries \<Rightarrow> (Ok (), s\<lparr>guild_board := (guild_board s)(''guild'' \<mapsto> sort_guild_entries_descending entries)\<rparr>))"

definition get_guild_leaderboard :: "u32 \<Rightarrow> 'a board_store_scheme \<Rightarrow> GuildEntry list" where
  "get_guild_leaderboard limit s = take_range (unwrap_or (guild_board s ''guild'') []) 0 limit"

definition set_player_guild :: "env \<Rightarrow> address \<Rightarrow> string \<Rightarrow> 'a board_store_scheme \<Rightarrow> (LeaderboardError, unit) outcome \<times> 'a board_store_scheme" where
  "set_player_guild env player guild_name s =
    (if \<not> auth env player then (Panic, s) else (Ok (), s\<lparr>player_guild := (player_guild s)(player \<mapsto> guild_name)\<rparr>))"

definition get_player_guild :: "address \<Rightarrow> 'a board_store_scheme \<Rightarrow> string option" where
  "get_player_guild player s = player_guild s player"

definition update_regional_score :: "env \<Rightarrow> address \<Rightarrow> symbol \<Rightarrow> u64 \<Rightarrow> 'a board_store_scheme \<Rightarrow> (LeaderboardError, unit) outcome \<times> 'a board_store_scheme" where
  "update_regional_score env player region score s =
    (if \<not> auth env player then (Panic, s)
     else and_then (validate_region region s) (\<lambda>_ s.
     case upsert (\<lambda>entry. re_player entry = player) (\<lambda>entry. entry\<lparr>re_score := max (re_score entry) score\<rparr>)
            \<lparr>re_player = player, re_region = region, re_score = score\<rparr> MAX_LEADERBOARD_ENTRIES (unwrap_or (regional_board s (region, ''board'')) []) of
       None \<Rightarrow> (Err LeaderboardFull, s)
     | Some entries \<Rightarrow> (Ok (), s\<lparr>regional_board := (regional_board s)((region, ''board'') \<mapsto> sort_regional_entries_descending entries)\<rparr>)))"

definition get_regional_leaderboard :: "symbol \<Rightarrow> u32 \<Rightarrow> 'a board_store_scheme \<Rightarrow> (LeaderboardError, RegionalEntry list) outcome \<times> 'a board_store_scheme" where
  "get_regional_leaderboard region limit s = and_then (validate_region region s) (\<lambda>_ s.
     (Ok (take_range (unwrap_or (regional_board s (region, ''board'')) []) 0 limit), s))"

definition update_achievement_score :: "env \<Rightarrow> address \<Rightarrow> u32 \<Rightarrow> u64 \<Rightarrow> 'a board_store_scheme \<Rightarrow> (LeaderboardError, unit) outcome \<times> 'a board_store_scheme" where
  "update_achievement_score env player achievement_count points s =
    (if \<not> auth env player then (Panic, s)
     else case upsert (\<lambda>entry. ae_player entry = player)
            (\<lambda>entry. entry\<lparr>ae_achievement_count := max (ae_achievement_count entry) achievement_count, ae_total_points := max (ae_total_points entry) points\<rparr>)
            \<lparr>ae_player = player, ae_achievement_count = achievement_count, ae_total_points = points\<rparr> MAX_LEADERBOARD_ENTRIES (unwrap_or (achievement_board s) []) of
       None \<Rightarrow> (Err LeaderboardFull, s)
     | Some entries \<Rightarrow> (Ok (), s\<lparr>achievement_board := Some (sort_achievement_entries_descending entries)\<rparr>))"

definition get_achievement_leaderboard :: "u32 \<Rightarrow> 'a board_store_scheme \<Rightarrow> AchievementEntry list" where
  "get_achievement_leaderboard limit s = take_range (unwrap_or (achievement_board s) []) 0 limit"

text \<open>The pay-out event: the winners with a positive reward, in order.\<close>

definition reward_at :: "LeaderboardRewards \<Rightarrow> nat \<Rightarrow> u64" where
  "reward_at rewards i = (if i = 0 then lr_top_1_reward rewards else if i = 1 then lr_top_2_reward rewards else if i = 2 then lr_top_3_reward rewards else lr_top_10_reward rewards)"

definition payouts :: "LeaderboardRewards \<Rightarrow> LeaderboardEntry list \<Rightarrow> (address \<times> u64) list" where
  "payouts rewards entries = filter (\<lambda>(_, r). r > 0) (map (\<lambda>i. (le_player (entries ! i), reward_at rewards i)) [0..<length entries])"

definition distribute_rewards :: "env \<Rightarrow> address \<Rightarrow> symbol \<Rightarrow> symbol \<Rightarrow> LeaderboardRewards \<Rightarrow> 'a board_store_scheme \<Rightarrow> (LeaderboardError, unit) outcome \<times> 'a board_store_scheme" where
  "distribute_rewards env caller category time_period rewards s = and_then (require_board_admin env caller s) (\<lambda>_ s.
     and_then (validate_category category s) (\<lambda>_ s. and_then (validate_time_period time_period s) (\<lambda>_ s.
     and_then (get_leaderboard category time_period 10 s) (\<lambda>entries s.
     let ws = payouts rewards entries in
     (Ok (), if ws \<noteq> [] then publish [SS ''lb'', SS ''rewards''] (SS category # SS time_period # map (SA \<circ> fst) ws @ map (SU \<circ> snd) ws) s else s)))))"

section \<open>Model: seasons and archives\<close>

definition get_current_season :: "symbol \<Rightarrow> symbol \<Rightarrow> 'a board_store_scheme \<Rightarrow> u32" where
  "get_current_season category time_period s = unwrap_or (board_season s (category, time_period)) 1"

definition reset_leaderboard :: "env \<Rightarrow> address \<Rightarrow> symbol \<Rightarrow> symbol \<Rightarrow> 'a board_store_scheme \<Rightarrow> (LeaderboardError, u32) outcome \<times> 'a board_store_scheme" where
  "reset_leaderboard env caller category time_period s = and_then (require_board_admin env caller s) (\<lambda>_ s.
     and_then (validate_category category s) (\<lambda>_ s. and_then (validate_time_period time_period s) (\<lambda>_ s.
     let current_season = get_current_season category time_period s;
         entries = board_of category time_period s;
         s = s\<lparr>board_archive := (board_archive s)((category, time_period, current_season) \<mapsto> entries)\<rparr>;
         s = s\<lparr>boards := (boards s)((category, time_period) \<mapsto> [])\<rparr>
     in case checked_add u32_max current_season 1 of
       None \<Rightarrow> (Panic, s)
     | Some new_season \<Rightarrow>
     let s = s\<lparr>board_season := (board_season s)((category, time_period) \<mapsto> new_season)\<rparr>;
         s = s\<lparr>last_reset := (last_reset s)((category, time_period) \<mapsto> timestamp env)\<rparr>
     in (Ok new_season, publish [SS ''lb'', SS ''reset''] [SS category, SS time_period, SU new_season] s))))"

definition get_archived_leaderboard :: "symbol \<Rightarrow> symbol \<Rightarrow> u32 \<Rightarrow> u32 \<Rightarrow> 'a board_store_scheme \<Rightarrow> (LeaderboardError, LeaderboardEntry list) outcome \<times> 'a board_store_scheme" where
  "get_archived_leaderboard category time_period season limit s = and_then (validate_category category s) (\<lambda>_ s. and_then (validate_time_period time_period s) (\<lambda>_ s.
     (Ok (take_range (unwrap_or (board_archive s (category, time_period, season)) []) 0 limit), s)))"

definition reset_if_due :: "env \<Rightarrow> address \<Rightarrow> symbol \<Rightarrow> symbol \<Rightarrow> 'a board_store_scheme \<Rightarrow> (LeaderboardError, bool) outcome \<times> 'a board_store_scheme" where
  "reset_if_due env caller category time_period s = and_then (validate_category category s) (\<lambda>_ s.
     case (if time_period = ''weekly'' then Some WEEKLY_DURATION else if time_period = ''monthly'' then Some MONTHLY_DURATION else None) of
       None \<Rightarrow> (Err InvalidTimePeriod, s)
     | Some duration \<Rightarrow>
     let due = (case last_reset s (category, time_period) of None \<Rightarrow> True | Some ts \<Rightarrow> saturating_sub (timestamp env) ts \<ge> duration) in
     if due then and_then (reset_leaderboard env caller category time_period s) (\<lambda>_ s. (Ok True, s)) else (Ok False, s))"

text \<open>The season number is cast to \<open>u32\<close>.\<close>

definition reset_seasonal_leaderboard :: "env \<Rightarrow> address \<Rightarrow> symbol \<Rightarrow> u64 \<Rightarrow> 'a board_store_scheme \<Rightarrow> (LeaderboardError, u32) outcome \<times> 'a board_store_scheme" where
  "reset_seasonal_leaderboard env caller category season_id s = and_then (require_board_admin env caller s) (\<lambda>_ s. and_then (validate_category category s) (\<lambda>_ s.
     let entries = board_of category PERIOD_SEASONAL s;
         archive_season = season_id mod 2 ^ 32;
         s = s\<lparr>board_archive := (board_archive s)((category, PERIOD_SEASONAL, archive_season) \<mapsto> entries)\<rparr>;
         s = s\<lparr>boards := (boards s)((category, PERIOD_SEASONAL) \<mapsto> [])\<rparr>
     in case checked_add u32_max archive_season 1 of
       None \<Rightarrow> (Panic, s)
     | Some next_season \<Rightarrow>
     let s = s\<lparr>board_season := (board_season s)((category, PERIOD_SEASONAL) \<mapsto> next_season)\<rparr>;
         s = s\<lparr>last_reset := (last_reset s)((category, PERIOD_SEASONAL) \<mapsto> timestamp env)\<rparr>
     in (Ok next_season, publish [SS ''lb'', SS ''seas_rst''] [SS category, SU season_id, SU next_season] s)))"

section \<open>Model: pages\<close>

definition get_leaderboard_page :: "symbol \<Rightarrow> symbol \<Rightarrow> u32 \<Rightarrow> u32 \<Rightarrow> 'a board_store_scheme \<Rightarrow> (LeaderboardError, LeaderboardEntry list \<times> PageMeta) outcome \<times> 'a board_store_scheme" where
  "get_leaderboard_page category time_period page page_size s = and_then (validate_category category s) (\<lambda>_ s. and_then (validate_time_period time_period s) (\<lambda>_ s.
     paginate (board_of category time_period s) page page_size s))"

definition get_guild_leaderboard_page :: "u32 \<Rightarrow> u32 \<Rightarrow> 'a board_store_scheme \<Rightarrow> (LeaderboardError, GuildEntry list \<times> PageMeta) outcome \<times> 'a board_store_scheme" where
  "get_guild_leaderboard_page page page_size s = paginate (unwrap_or (guild_board s ''guild'') []) page page_size s"

definition get_regional_leaderboard_page :: "symbol \<Rightarrow> u32 \<Rightarrow> u32 \<Rightarrow> 'a board_store_scheme \<Rightarrow> (LeaderboardError, RegionalEntry list \<times> PageMeta) outcome \<times> 'a board_store_scheme" where
  "get_regional_leaderboard_page region page page_size s = and_then (validate_region region s) (\<lambda>_ s.
     paginate (unwrap_or (regional_board s (region, ''board'')) []) page page_size s)"

definition get_achievement_leaderboard_page :: "u32 \<Rightarrow> u32 \<Rightarrow> 'a board_store_scheme \<Rightarrow> (LeaderboardError, AchievementEntry list \<times> PageMeta) outcome \<times> 'a board_store_scheme" where
  "get_achievement_leaderboard_page page page_size s = paginate (unwrap_or (achievement_board s) []) page page_size s"

definition get_archived_leaderboard_page :: "symbol \<Rightarrow> symbol \<Rightarrow> u32 \<Rightarrow> u32 \<Rightarrow> u32 \<Rightarrow> 'a board_store_scheme \<Rightarrow> (LeaderboardError, LeaderboardEntry list \<times> PageMeta) outcome \<times> 'a board_store_scheme" where
  "get_archived_leaderboard_page category time_period season page page_size s = and_then (validate_category category s) (\<lambda>_ s. and_then (validate_time_period time_period s) (\<lambda>_ s.
     paginate (unwrap_or (board_archive s (category, time_period, season)) []) page page_size s))"

inductive board_step :: "env \<Rightarrow> 'a board_store_scheme \<Rightarrow> 'a board_store_scheme \<Rightarrow> bool" for env where
  admin: "commits (set_board_admin env a) s s' \<Longrightarrow> board_step env s s'"
| score: "commits (update_leaderboard_score env a c p n) s s' \<Longrightarrow> board_step env s s'"
| guild: "commits (update_guild_score env a g n k) s s' \<Longrightarrow> board_step env s s'"
| member: "commits (set_player_guild env a g) s s' \<Longrightarrow> board_step env s s'"
| regional: "commits (update_regional_score env a r n) s s' \<Longrightarrow> board_step env s s'"
| achievement: "commits (update_achievement_score env a k n) s s' \<Longrightarrow> board_step env s s'"
| rewards: "commits (distribute_rewards env a c p rw) s s' \<Longrightarrow> board_step env s s'"
| reset: "commits (reset_leaderboard env a c p) s s' \<Longrightarrow> board_step env s s'"
| due: "commits (reset_if_due env a c p) s s' \<Longrightarrow> board_step env s s'"
| seasonal: "commits (reset_seasonal_leaderboard env a c n) s s' \<Longrightarrow> board_step env s s'"

section \<open>The exchange sort\<close>

text \<open>Every position before \<open>i\<close> is at least as good as all later ones.\<close>

definition dominates :: "('e \<Rightarrow> nat) \<Rightarrow> nat \<Rightarrow> 'e list \<Rightarrow> bool" where
  "dominates key i es \<longleftrightarrow> (\<forall>a<i. \<forall>b. a < b \<and> b < length es \<longrightarrow> key (es ! b) \<le> key (es ! a))"

lemma exchange_length [simp]: "length (exchange key i j es) = length es"
  by (simp add: exchange_def)

lemma exchange_mset: "i < length es \<Longrightarrow> j < length es \<Longrightarrow> mset (exchange key i j es) = mset es"
  using mset_swap[of j es i] by (simp add: exchange_def)

lemma exchange_dominates: "dominates key i es \<Longrightarrow> i < j \<Longrightarrow> j < length es \<Longrightarrow> dominates key i (exchange key i j es)"
  by (auto simp: dominates_def exchange_def nth_list_update)

lemma row_loop:
  assumes "dominates key i es" and "Suc i \<le> k" and "k \<le> length es"
  shows "length (fold (exchange key i) [Suc i..<k] es) = length es \<and> mset (fold (exchange key i) [Suc i..<k] es) = mset es \<and> dominates key i (fold (exchange key i) [Suc i..<k] es)
    \<and> (\<forall>b. i < b \<and> b < k \<longrightarrow> key (fold (exchange key i) [Suc i..<k] es ! b) \<le> key (fold (exchange key i) [Suc i..<k] es ! i))"
  using assms(2,3)
proof (induction k rule: nat_induct_at_least)
  case base
  then show ?case using assms(1) by simp
next
  case (Suc k)
  define xs where "xs = fold (exchange key i) [Suc i..<k] es"
  have ih: "length xs = length es" "mset xs = mset es" "dominates key i xs" "\<forall>b. i < b \<and> b < k \<longrightarrow> key (xs ! b) \<le> key (xs ! i)" using Suc by (simp_all add: xs_def)
  have "\<forall>b. i < b \<and> b < Suc k \<longrightarrow> key (exchange key i k xs ! b) \<le> key (exchange key i k xs ! i)"
    using ih Suc(1,3) by (auto simp: exchange_def nth_list_update less_Suc_eq order_less_imp_le le_less_trans)
  then show ?case using ih Suc(1,3) exchange_dominates[OF ih(3), of k] exchange_mset[of i xs k key] by (simp flip: xs_def)
qed

lemma row_step:
  assumes "dominates key i es" and "i < length es"
  shows "length (exchange_row key i es) = length es \<and> mset (exchange_row key i es) = mset es \<and> dominates key (Suc i) (exchange_row key i es)"
  using row_loop[OF assms(1), of "length es"] assms(2) by (auto simp: exchange_row_def dominates_def less_Suc_eq)

lemma sort_loop: "k \<le> length es \<Longrightarrow> length (fold (exchange_row key) [0..<k] es) = length es \<and> mset (fold (exchange_row key) [0..<k] es) = mset es \<and> dominates key k (fold (exchange_row key) [0..<k] es)"
proof (induction k)
  case (Suc k)
  then show ?case using row_step[of key k "fold (exchange_row key) [0..<k] es"] by simp
qed (simp add: dominates_def)

lemma exchange_sort_mset [simp]: "mset (exchange_sort key es) = mset es"
  using sort_loop[of "length es" es key] by (simp add: exchange_sort_def)

lemma exchange_sort_set [simp]: "set (exchange_sort key es) = set es"
  by (metis exchange_sort_mset set_mset_mset)

lemma exchange_sort_sorted: "sorted_wrt (\<lambda>x y. key y \<le> key x) (exchange_sort key es)"
  using sort_loop[of "length es" es key] by (auto simp: exchange_sort_def dominates_def sorted_wrt_iff_nth_less)

section \<open>Ranked boards\<close>

definition ranked :: "('e \<Rightarrow> 'p) \<Rightarrow> ('e \<Rightarrow> nat) \<Rightarrow> nat \<Rightarrow> 'e list \<Rightarrow> bool" where
  "ranked who key room es \<longleftrightarrow> distinct (map who es) \<and> length es \<le> room \<and> sorted_wrt (\<lambda>x y. key y \<le> key x) es"

text \<open>What a board stands for: the best score of every participant.\<close>

definition best_scores :: "('e \<Rightarrow> 'p) \<Rightarrow> ('e \<Rightarrow> nat) \<Rightarrow> 'e list \<Rightarrow> 'p \<rightharpoonup> nat" where
  "best_scores who key es = map_of (map (\<lambda>e. (who e, key e)) es)"

lemma ranked_empty [simp]: "ranked who key room []"
  by (simp add: ranked_def)

lemma best_perm:
  assumes "mset es' = mset es" and "distinct (map who es)"
  shows "best_scores who key es' = best_scores who key es"
proof -
  have d: "distinct (map who es')" using assms by (metis mset_map mset_eq_imp_distinct_iff)
  have "set es' = set es" using assms(1) by (metis set_mset_mset)
  then show ?thesis using assms(2) d unfolding best_scores_def by (subst map_of_inject_set) (simp_all add: comp_def)
qed

lemma best_Some: "distinct (map who es) \<Longrightarrow> best_scores who key es p = Some n \<longleftrightarrow> (\<exists>e\<in>set es. who e = p \<and> key e = n)"
  unfolding best_scores_def by (subst map_of_eq_Some_iff) (auto simp: comp_def)

lemma best_None: "best_scores who key es p = None \<longleftrightarrow> (\<forall>e\<in>set es. who e \<noteq> p)"
  by (auto simp: best_scores_def map_of_eq_None_iff image_image)

text \<open>The contract of a board: who an entry belongs to and what it scores, an improvement that keeps the owner and raises the
  score to the reported one, and a new entry.\<close>

locale ranking =
  fixes who :: "'e \<Rightarrow> 'p" and key :: "'e \<Rightarrow> nat" and val :: "'n \<Rightarrow> nat" and improve :: "'n \<Rightarrow> 'e \<Rightarrow> 'e" and fresh :: "'p \<Rightarrow> 'n \<Rightarrow> 'e"
  assumes who_improve: "who (improve n e) = who e" and key_improve: "key (improve n e) = max (key e) (val n)"
    and who_fresh: "who (fresh p n) = p" and key_fresh: "key (fresh p n) = val n"
begin

lemma improve_first_Some:
  "improve_first (\<lambda>e. who e = p) (improve n) es = Some es' \<Longrightarrow> map who es' = map who es \<and> p \<in> who ` set es
    \<and> best_scores who key es' = (best_scores who key es)(p \<mapsto> max (the (best_scores who key es p)) (val n))"
proof (induction es arbitrary: es')
  case (Cons e es)
  show ?case
  proof (cases "who e = p")
    case True
    then have "es' = improve n e # es" using Cons(2) by simp
    then show ?thesis using True who_improve[of n e] key_improve[of n e] by (auto simp: best_scores_def)
  next
    case False
    then obtain es'' where "improve_first (\<lambda>e. who e = p) (improve n) es = Some es''" "es' = e # es''" using Cons(2) by auto
    then show ?thesis using Cons(1) False by (auto simp: best_scores_def)
  qed
qed simp

lemma improve_first_None: "improve_first (\<lambda>e. who e = p) (improve n) es = None \<longleftrightarrow> (\<forall>e\<in>set es. who e \<noteq> p)"
  by (induction es) auto

lemma upsert_Some:
  assumes "ranked who key room es" and "upsert (\<lambda>e. who e = p) (improve n) (fresh p n) room es = Some es'"
  shows "distinct (map who es') \<and> length es' \<le> room \<and> best_scores who key es' = (best_scores who key es)(p \<mapsto> max (unwrap_or (best_scores who key es p) 0) (val n))"
proof (cases "improve_first (\<lambda>e. who e = p) (improve n) es")
  case None
  then have p: "p \<notin> who ` set es" using improve_first_None by auto
  have e: "es' = es @ [fresh p n]" "length es < room" using assms(2) None by (auto simp: upsert_def split: if_splits)
  have b: "best_scores who key es p = None" using p best_None[of who key es p] by auto
  have "best_scores who key es' q = ((best_scores who key es)(p \<mapsto> val n)) q" for q
    using b who_fresh[of p n] key_fresh[of p n] by (auto simp: e best_scores_def map_add_def split: option.split)
  then show ?thesis using assms(1) p e b who_fresh[of p n] by (auto simp: ranked_def)
next
  case (Some es'')
  then have "es' = es''" using assms(2) by (simp add: upsert_def)
  moreover note i = improve_first_Some[OF Some]
  moreover have "best_scores who key es p \<noteq> None" using i best_None[of who key es p] by auto
  moreover have "length es'' = length es" using i map_eq_imp_length_eq by blast
  ultimately show ?thesis using assms(1) by (auto simp: ranked_def)
qed

lemma update_ranked:
  assumes "ranked who key room es" and "upsert (\<lambda>e. who e = p) (improve n) (fresh p n) room es = Some es'"
  shows "ranked who key room (exchange_sort key es')"
proof -
  note u = upsert_Some[OF assms]
  have "distinct (map who (exchange_sort key es'))" using u by (metis exchange_sort_mset mset_eq_imp_distinct_iff mset_map)
  moreover have "length (exchange_sort key es') = length es'" by (metis exchange_sort_mset size_mset)
  ultimately show ?thesis using u exchange_sort_sorted[of key es'] by (simp add: ranked_def)
qed

lemma update_best:
  assumes "ranked who key room es" and "upsert (\<lambda>e. who e = p) (improve n) (fresh p n) room es = Some es'"
  shows "best_scores who key (exchange_sort key es') = (best_scores who key es)(p \<mapsto> max (unwrap_or (best_scores who key es p) 0) (val n))"
  using upsert_Some[OF assms] best_perm[of "exchange_sort key es'" es' who key] by simp

text \<open>An update is refused only on a full board without the participant.\<close>

lemma update_refused: "upsert (\<lambda>e. who e = p) (improve n) (fresh p n) room es = None \<longleftrightarrow> room \<le> length es \<and> best_scores who key es p = None"
  using improve_first_None[of p n es] best_None[of who key es p] by (auto simp: upsert_def split: option.split)

end

interpretation score_board: ranking le_player le_score snd
    "\<lambda>(now, n) e. e\<lparr>le_score := max (le_score e) n, le_timestamp := now\<rparr>" "\<lambda>p (now, n). \<lparr>le_player = p, le_score = n, le_timestamp = now, le_metadata = Map.empty\<rparr>"
  by unfold_locales auto

interpretation guild_board: ranking ge_guild_name ge_score fst
    "\<lambda>(n, k) e. e\<lparr>ge_score := max (ge_score e) n, ge_member_count := k\<rparr>" "\<lambda>g (n, k). \<lparr>ge_guild_name = g, ge_score = n, ge_member_count = k\<rparr>"
  by unfold_locales auto

interpretation regional_board: ranking re_player re_score snd
    "\<lambda>(r, n) e. e\<lparr>re_score := max (re_score e) n\<rparr>" "\<lambda>p (r, n). \<lparr>re_player = p, re_region = r, re_score = n\<rparr>"
  by unfold_locales auto

interpretation achievement_board: ranking ae_player ae_total_points snd
    "\<lambda>(k, n) e. e\<lparr>ae_achievement_count := max (ae_achievement_count e) k, ae_total_points := max (ae_total_points e) n\<rparr>"
    "\<lambda>p (k, n). \<lparr>ae_player = p, ae_achievement_count = k, ae_total_points = n\<rparr>"
  by unfold_locales auto

section \<open>Invariant\<close>

definition boards_ok :: "'a board_store_scheme \<Rightarrow> bool" where
  "boards_ok s \<longleftrightarrow> (\<forall>k es. boards s k = Some es \<longrightarrow> ranked le_player le_score MAX_LEADERBOARD_ENTRIES es)
    \<and> (\<forall>k es. guild_board s k = Some es \<longrightarrow> ranked ge_guild_name ge_score MAX_GUILD_BOARD_ENTRIES es)
    \<and> (\<forall>k es. regional_board s k = Some es \<longrightarrow> ranked re_player re_score MAX_LEADERBOARD_ENTRIES es)
    \<and> (\<forall>es. achievement_board s = Some es \<longrightarrow> ranked ae_player ae_total_points MAX_LEADERBOARD_ENTRIES es)
    \<and> (\<forall>k es. board_archive s k = Some es \<longrightarrow> ranked le_player le_score MAX_LEADERBOARD_ENTRIES es)"

text \<open>Except on the seasonal boards, whose archive number the caller chooses, an archived season is before the current one.\<close>

definition seasons_ok :: "'a board_store_scheme \<Rightarrow> bool" where
  "seasons_ok s \<longleftrightarrow> (\<forall>c p n es. board_archive s (c, p, n) = Some es \<longrightarrow> p \<noteq> PERIOD_SEASONAL \<longrightarrow> n < get_current_season c p s)"

lemma valid_Ok [ok_rules]:
  "validate_category c s = (Ok u, s') \<longleftrightarrow> fst (validate_category c s) = Ok () \<and> s' = s"
  "validate_time_period p s = (Ok u, s') \<longleftrightarrow> fst (validate_time_period p s) = Ok () \<and> s' = s"
  "validate_region r s = (Ok u, s') \<longleftrightarrow> fst (validate_region r s) = Ok () \<and> s' = s"
  by (auto simp: validate_category_def validate_time_period_def validate_region_def)

lemma valid_anywhere:
  "fst (validate_category c s) = Ok () \<Longrightarrow> validate_category c t = (Ok (), t)" "fst (validate_time_period p s) = Ok () \<Longrightarrow> validate_time_period p t = (Ok (), t)"
  unfolding validate_category_def validate_time_period_def by (simp_all split: if_split_asm)

lemma board_admin_Ok [ok_rules]: "require_board_admin env a s = (Ok u, s') \<longleftrightarrow> auth env a \<and> ac_admin s = Some a \<and> s' = s"
  by (auto simp: require_board_admin_def ok_rules split: option.splits)

lemma publish_boards [simp]:
  "boards (publish t d s) = boards s" "guild_board (publish t d s) = guild_board s" "regional_board (publish t d s) = regional_board s" "achievement_board (publish t d s) = achievement_board s"
  "board_archive (publish t d s) = board_archive s" "board_season (publish t d s) = board_season s" "ac_admin (publish t d s) = ac_admin s"
  by (simp_all add: publish_def)

lemma tier_boards [simp]:
  "boards (snd (record_tier_score env a n s)) = boards s" "guild_board (snd (record_tier_score env a n s)) = guild_board s" "regional_board (snd (record_tier_score env a n s)) = regional_board s"
  "achievement_board (snd (record_tier_score env a n s)) = achievement_board s" "board_archive (snd (record_tier_score env a n s)) = board_archive s"
  "board_season (snd (record_tier_score env a n s)) = board_season s"
  by (simp_all add: record_tier_score_def Let_def)

lemma board_ranked: "boards_ok s \<Longrightarrow> ranked le_player le_score MAX_LEADERBOARD_ENTRIES (board_of c p s)"
  by (cases "boards s (c, p)") (auto simp: boards_ok_def)

text \<open>What a score report does.\<close>

lemma update_score_Ok:
  assumes "update_score env a c p n s = (Ok u, s')"
  shows "auth env a \<and> (\<exists>es. upsert (\<lambda>e. le_player e = a) (\<lambda>e. e\<lparr>le_score := max (le_score e) n, le_timestamp := timestamp env\<rparr>)
        \<lparr>le_player = a, le_score = n, le_timestamp = timestamp env, le_metadata = Map.empty\<rparr> MAX_LEADERBOARD_ENTRIES (board_of c p s) = Some es
      \<and> boards s' = (boards s)((c, p) \<mapsto> exchange_sort le_score es))
    \<and> guild_board s' = guild_board s \<and> regional_board s' = regional_board s \<and> achievement_board s' = achievement_board s \<and> board_archive s' = board_archive s
    \<and> board_season s' = board_season s"
  using assms by (auto simp: update_score_def ok_rules Let_def sort_entries_descending_def)

lemma reset_Ok:
  assumes "reset_leaderboard env a c p s = (Ok k, s')"
  shows "auth env a \<and> ac_admin s = Some a \<and> k = get_current_season c p s + 1 \<and> boards s' = (boards s)((c, p) \<mapsto> [])
    \<and> board_archive s' = (board_archive s)((c, p, get_current_season c p s) \<mapsto> board_of c p s) \<and> board_season s' = (board_season s)((c, p) \<mapsto> k)
    \<and> guild_board s' = guild_board s \<and> regional_board s' = regional_board s \<and> achievement_board s' = achievement_board s"
  using assms by (auto simp: reset_leaderboard_def ok_rules Let_def get_current_season_def)

lemma seasonal_Ok:
  assumes "reset_seasonal_leaderboard env a c n s = (Ok k, s')"
  shows "boards s' = (boards s)((c, PERIOD_SEASONAL) \<mapsto> []) \<and> board_archive s' = (board_archive s)((c, PERIOD_SEASONAL, n mod 2 ^ 32) \<mapsto> board_of c PERIOD_SEASONAL s)
    \<and> board_season s' = (board_season s)((c, PERIOD_SEASONAL) \<mapsto> k) \<and> guild_board s' = guild_board s \<and> regional_board s' = regional_board s \<and> achievement_board s' = achievement_board s"
  using assms by (auto simp: reset_seasonal_leaderboard_def ok_rules Let_def)

lemma boards_ok_keep:
  "boards_ok s \<Longrightarrow> boards s' = boards s \<Longrightarrow> guild_board s' = guild_board s \<Longrightarrow> regional_board s' = regional_board s \<Longrightarrow> achievement_board s' = achievement_board s
    \<Longrightarrow> board_archive s' = board_archive s \<Longrightarrow> boards_ok s'"
  by (simp add: boards_ok_def)

lemma score_boards_ok:
  assumes "update_leaderboard_score env a c p n s = (Ok u, s')" and "boards_ok s"
  shows "boards_ok s'"
proof -
  from assms(1) obtain v t where t: "update_score env a c p n s = (Ok v, t)" and s': "s' = snd (record_tier_score env a n t)" by (auto simp: update_leaderboard_score_def ok_rules)
  from update_score_Ok[OF t] obtain es where es: "upsert (\<lambda>e. le_player e = a) (\<lambda>e. e\<lparr>le_score := max (le_score e) n, le_timestamp := timestamp env\<rparr>)
        \<lparr>le_player = a, le_score = n, le_timestamp = timestamp env, le_metadata = Map.empty\<rparr> MAX_LEADERBOARD_ENTRIES (board_of c p s) = Some es"
      and b: "boards t = (boards s)((c, p) \<mapsto> exchange_sort le_score es)" by blast
  have "ranked le_player le_score MAX_LEADERBOARD_ENTRIES (exchange_sort le_score es)"
    using score_board.update_ranked[OF board_ranked[OF assms(2)], of a "(timestamp env, n)"] es by simp
  then show ?thesis using assms(2) update_score_Ok[OF t] b by (auto simp: boards_ok_def s')
qed

lemma guild_boards_ok:
  assumes "update_guild_score env a g n k s = (Ok u, s')" and "boards_ok s"
  shows "boards_ok s'"
proof -
  have r: "ranked ge_guild_name ge_score MAX_GUILD_BOARD_ENTRIES (unwrap_or (guild_board s ''guild'') [])" using assms(2) by (cases "guild_board s ''guild''") (auto simp: boards_ok_def)
  show ?thesis using assms guild_board.update_ranked[OF r, of g "(n, k)"]
    by (auto simp: update_guild_score_def ok_rules sort_guild_entries_descending_def boards_ok_def split: if_splits)
qed

lemma regional_boards_ok:
  assumes "update_regional_score env a r n s = (Ok u, s')" and "boards_ok s"
  shows "boards_ok s'"
proof -
  have r: "ranked re_player re_score MAX_LEADERBOARD_ENTRIES (unwrap_or (regional_board s (r, ''board'')) [])" using assms(2) by (cases "regional_board s (r, ''board'')") (auto simp: boards_ok_def)
  show ?thesis using assms regional_board.update_ranked[OF r, of a "(r, n)"]
    by (auto simp: update_regional_score_def ok_rules sort_regional_entries_descending_def boards_ok_def split: if_splits)
qed

lemma achievement_boards_ok:
  assumes "update_achievement_score env a k n s = (Ok u, s')" and "boards_ok s"
  shows "boards_ok s'"
proof -
  have r: "ranked ae_player ae_total_points MAX_LEADERBOARD_ENTRIES (unwrap_or (achievement_board s) [])" using assms(2) by (cases "achievement_board s") (auto simp: boards_ok_def)
  show ?thesis using assms achievement_board.update_ranked[OF r, of a "(k, n)"]
    by (auto simp: update_achievement_score_def ok_rules sort_achievement_entries_descending_def boards_ok_def split: if_splits)
qed

lemma reset_boards_ok:
  "reset_leaderboard env a c p s = (Ok k, s') \<Longrightarrow> boards_ok s \<Longrightarrow> boards_ok s'"
  "reset_seasonal_leaderboard env a c n s = (Ok k, s') \<Longrightarrow> boards_ok s \<Longrightarrow> boards_ok s'"
  using board_ranked[of s] by (auto dest!: reset_Ok seasonal_Ok simp: boards_ok_def split: if_splits)

lemma due_Ok: "reset_if_due env a c p s = (Ok b, s') \<Longrightarrow> s' = s \<or> p \<noteq> PERIOD_SEASONAL \<and> (\<exists>k. reset_leaderboard env a c p s = (Ok k, s'))"
  by (auto simp: reset_if_due_def ok_rules Let_def split: if_splits option.splits)

lemma other_boards_keep:
  "set_board_admin env a s = (Ok u, s') \<Longrightarrow> boards s' = boards s \<and> guild_board s' = guild_board s \<and> regional_board s' = regional_board s \<and> achievement_board s' = achievement_board s \<and> board_archive s' = board_archive s \<and> board_season s' = board_season s"
  "set_player_guild env a g s = (Ok u, s') \<Longrightarrow> boards s' = boards s \<and> guild_board s' = guild_board s \<and> regional_board s' = regional_board s \<and> achievement_board s' = achievement_board s \<and> board_archive s' = board_archive s \<and> board_season s' = board_season s"
  "distribute_rewards env a c p rw s = (Ok u, s') \<Longrightarrow> boards s' = boards s \<and> guild_board s' = guild_board s \<and> regional_board s' = regional_board s \<and> achievement_board s' = achievement_board s \<and> board_archive s' = board_archive s \<and> board_season s' = board_season s"
  by (auto simp: set_board_admin_def set_player_guild_def distribute_rewards_def get_leaderboard_def ok_rules Let_def)

lemma board_step_ok: "board_step env s s' \<Longrightarrow> boards_ok s \<Longrightarrow> boards_ok s'"
proof (induction rule: board_step.induct)
  case (due a c p s s')
  then show ?case by (elim commitsE) (auto dest!: due_Ok intro: reset_boards_ok)
qed (auto elim!: commitsE dest!: other_boards_keep intro: score_boards_ok guild_boards_ok regional_boards_ok achievement_boards_ok reset_boards_ok boards_ok_keep)

interpretation ranks: step_system "\<lambda>s s'. \<exists>env. board_step env s s'" boards_ok
  by unfold_locales (use board_step_ok in blast)

text \<open>Archives: a call adds at most the current season's, except under the seasonal period.\<close>

lemma step_archive:
  "board_step env s s' \<Longrightarrow> (\<exists>a c p k. reset_leaderboard env a c p s = (Ok k, s')) \<or> (\<exists>a c n k. reset_seasonal_leaderboard env a c n s = (Ok k, s'))
    \<or> board_archive s' = board_archive s \<and> board_season s' = board_season s"
  by (cases rule: board_step.cases, assumption) (auto elim!: commitsE dest!: other_boards_keep update_score_Ok due_Ok
    simp: update_leaderboard_score_def update_guild_score_def update_regional_score_def update_achievement_score_def ok_rules)

lemma archive_step:
  assumes "board_step env s s'" and "seasons_ok s"
  shows "seasons_ok s' \<and> (\<forall>c p n es. p \<noteq> PERIOD_SEASONAL \<longrightarrow> board_archive s (c, p, n) = Some es \<longrightarrow> board_archive s' (c, p, n) = Some es)"
proof -
  have res: "seasons_ok t \<and> (\<forall>c p n es. p \<noteq> PERIOD_SEASONAL \<longrightarrow> board_archive s (c, p, n) = Some es \<longrightarrow> board_archive t (c, p, n) = Some es)"
    if "reset_leaderboard env a c p s = (Ok k, t)" for t a c p k
  proof -
    have old: "n < get_current_season c' p' s" if "board_archive s (c', p', n) = Some es" "p' \<noteq> PERIOD_SEASONAL" for c' p' n es using assms(2) that unfolding seasons_ok_def by blast
    show ?thesis using reset_Ok[OF that] unfolding seasons_ok_def by (auto simp: get_current_season_def dest: old[unfolded get_current_season_def] split: if_splits)
  qed
  have keep: "seasons_ok t \<and> (\<forall>c p n es. p \<noteq> PERIOD_SEASONAL \<longrightarrow> board_archive s (c, p, n) = Some es \<longrightarrow> board_archive t (c, p, n) = Some es)"
    if "board_archive t = board_archive s" "board_season t = board_season s" for t using assms(2) that by (simp add: seasons_ok_def get_current_season_def)
  from step_archive[OF assms(1)] show ?thesis
  proof (elim disjE exE conjE)
    fix a c n k
    assume "reset_seasonal_leaderboard env a c n s = (Ok k, s')"
    then show ?thesis using assms(2) by (auto dest!: seasonal_Ok simp: seasons_ok_def get_current_season_def)
  qed (rule res keep; assumption)+
qed

lemma take_range_take: "take_range es 0 n = take n es"
  by (rule nth_equalityI) (auto simp: take_range_def Let_def)

lemma take_range_drop: "i \<le> j \<Longrightarrow> take_range es i j = take (j - i) (drop i es)"
  by (rule nth_equalityI) (auto simp: take_range_def Let_def min_def split: if_splits)

text \<open>Page \<open>k\<close> of a board that fits the counters.\<close>

lemma paginate_Ok:
  assumes "0 < sz" and "sz \<le> 50" and "length es \<le> 100"
  shows "paginate es k sz s = (Ok (take sz (drop (k * sz) es), \<lparr>pm_page = k, pm_page_size = sz, pm_total = length es, pm_has_more = (Suc k * sz < length es)\<rparr>), s)"
proof -
  have start: "min (saturating_mul u32_max k sz) (length es) = min (k * sz) (length es)" using assms(3) by (simp add: saturating_mul_def min_def)
  have stop: "min (saturating_add u32_max (min (k * sz) (length es)) sz) (length es) = min (k * sz + sz) (length es)" using assms by (simp add: saturating_add_def min_def)
  have "take_range es (min (k * sz) (length es)) (min (k * sz + sz) (length es)) = take sz (drop (k * sz) es)"
    by (subst take_range_drop) (auto simp: min_def)
  then show ?thesis using assms(1,2) unfolding paginate_def Let_def start stop by (simp add: min_def add.commute)
qed

lemma concat_pages: "concat (map (\<lambda>k. take sz (drop (k * sz) es)) [0..<n]) = take (n * sz) es"
proof (induction n)
  case (Suc n)
  have "Suc n * sz = n * sz + sz" by simp
  then show ?case using Suc by (simp only: take_add) simp
qed simp

section \<open>A concrete ladder\<close>

definition no_boards :: board_store where
  "no_boards = pvp_store.extend (no_pvp\<lparr>ac_admin := Some (Addr 9)\<rparr>) \<lparr>boards = Map.empty, player_guild = Map.empty, guild_board = Map.empty, regional_board = Map.empty,
     achievement_board = None, board_season = Map.empty, board_archive = Map.empty, last_reset = Map.empty\<rparr>"

lemma no_boards_simps [simp]: "ac_admin no_boards = Some (Addr 9)" "boards no_boards = Map.empty" "guild_board no_boards = Map.empty" "regional_board no_boards = Map.empty"
    "achievement_board no_boards = None" "board_season no_boards = Map.empty" "board_archive no_boards = Map.empty" "last_reset no_boards = Map.empty"
  by (simp_all add: no_boards_def pvp_store.defs)

lemma no_boards_ok: "boards_ok no_boards" "seasons_ok no_boards"
  by (simp_all add: boards_ok_def seasons_ok_def)

definition ladder :: board_store where
  "ladder = no_boards\<lparr>boards := [(''scans'', ''weekly'') \<mapsto> [\<lparr>le_player = Addr 1, le_score = 30, le_timestamp = 5, le_metadata = Map.empty\<rparr>,
     \<lparr>le_player = Addr 2, le_score = 20, le_timestamp = 6, le_metadata = Map.empty\<rparr>]]\<rparr>"

lemma ladder_ok: "boards_ok ladder"
  by (auto simp: ladder_def boards_ok_def ranked_def split: if_splits)

lemma ladder_valid: "validate_category ''scans'' s = (Ok (), s)" "validate_time_period ''weekly'' s = (Ok (), s)"
  by (simp_all add: validate_category_def validate_time_period_def)

section \<open>Properties\<close>

text \<open>C36. What a reader sees. After any run of calls a board read with a limit returns each player at most once, best score first, and no
  player left out by the limit has a better score than one that is shown.\<close>

theorem leaderboard_shows_best:
  fixes s t :: "'a board_store_scheme"
  assumes "(\<lambda>s s'. \<exists>env. board_step env s s')\<^sup>*\<^sup>* s t" and "boards_ok s" and "get_leaderboard c p limit t = (Ok es, t')"
  shows "distinct (map le_player es) \<and> length es = min limit (length (board_of c p t)) \<and> length (board_of c p t) \<le> 100 \<and> sorted_wrt (\<lambda>x y. le_score y \<le> le_score x) es
    \<and> set es \<subseteq> set (board_of c p t) \<and> (\<forall>e\<in>set es. \<forall>e'\<in>set (board_of c p t) - set es. le_score e' \<le> le_score e)"
proof -
  let ?b = "board_of c p t"
  have r: "ranked le_player le_score MAX_LEADERBOARD_ENTRIES ?b" using board_ranked ranks.run_inv[OF assms(1,2)] by blast
  have es: "es = take limit ?b" using assms(3) by (auto simp: get_leaderboard_def ok_rules take_range_take)
  have b: "?b = es @ drop limit ?b" by (simp add: es)
  then have "sorted_wrt (\<lambda>x y. le_score y \<le> le_score x) (es @ drop limit ?b)" "distinct (map le_player (es @ drop limit ?b))" using r unfolding ranked_def by metis+
  moreover have "set ?b - set es \<subseteq> set (drop limit ?b)" using b by (metis Un_Diff_cancel2 Diff_subset_conv Un_commute order_refl set_append sup_commute)
  moreover have "length es = min limit (length ?b)" "set es \<subseteq> set ?b" using set_take_subset[of limit ?b] by (auto simp: es)
  ultimately show ?thesis using r by (auto simp: sorted_wrt_append ranked_def)
qed

theorem leaderboard_shows_best_witness:
  "\<exists>es t'. get_leaderboard ''scans'' ''weekly'' 1 ladder = (Ok es, t') \<and> length es = 1 \<and> sorted_wrt (\<lambda>x y. le_score y \<le> le_score x) es"
proof -
  obtain es t' where g: "get_leaderboard ''scans'' ''weekly'' 1 ladder = (Ok es, t')" by (simp add: get_leaderboard_def ladder_valid)
  have "length (board_of ''scans'' ''weekly'' ladder) = 2" by (simp add: ladder_def)
  then show ?thesis using leaderboard_shows_best[OF rtranclp.rtrancl_refl ladder_ok g] g by simp
qed

text \<open>C35. A board is a map from players to best scores: a report by a player raises that player's best score to the reported one if it is
  higher and changes no other best score, on this or any other board. It is refused, leaving everything as it was, exactly when the board
  holds a hundred others and not the player: whenever it succeeds the board had room or held the player already.\<close>

theorem score_report_refines:
  fixes s :: "'a board_store_scheme"
  assumes "boards_ok s" and "auth env a" and "fst (validate_category c s) = Ok ()" and "fst (validate_time_period p s) = Ok ()"
  defines "best \<equiv> \<lambda>t :: 'a board_store_scheme. best_scores le_player le_score (board_of c p t)"
  shows "case update_score env a c p n s of
      (Ok _, s') \<Rightarrow> (length (board_of c p s) < 100 \<or> best s a \<noteq> None) \<and> best s' = (best s)(a \<mapsto> max (unwrap_or (best s a) 0) n) \<and> (\<forall>c' p'. (c', p') \<noteq> (c, p) \<longrightarrow> board_of c' p' s' = board_of c' p' s)
    | (Err e, s') \<Rightarrow> e = LeaderboardFull \<and> s' = s \<and> length (board_of c p s) = 100 \<and> best s a = None
    | (Panic, _) \<Rightarrow> False"
proof -
  let ?up = "upsert (\<lambda>e. le_player e = a) (\<lambda>e. e\<lparr>le_score := max (le_score e) n, le_timestamp := timestamp env\<rparr>)
        \<lparr>le_player = a, le_score = n, le_timestamp = timestamp env, le_metadata = Map.empty\<rparr> MAX_LEADERBOARD_ENTRIES (board_of c p s)"
  have v: "validate_category c s = (Ok (), s)" "validate_time_period p s = (Ok (), s)" by (simp_all add: valid_anywhere(1)[OF assms(3)] valid_anywhere(2)[OF assms(4)])
  note r = board_ranked[OF assms(1), of c p]
  show ?thesis
  proof (cases ?up)
    case None
    then have "100 \<le> length (board_of c p s) \<and> best s a = None" using score_board.update_refused[of a "(timestamp env, n)" 100 "board_of c p s"] by (simp add: best_def)
    then show ?thesis using None r assms(2) v by (simp add: update_score_def ranked_def)
  next
    case (Some es)
    then have "length (board_of c p s) < 100 \<or> best s a \<noteq> None" using score_board.update_refused[of a "(timestamp env, n)" 100 "board_of c p s"] by (simp add: best_def not_le)
    moreover have "best_scores le_player le_score (exchange_sort le_score es) = (best s)(a \<mapsto> max (unwrap_or (best s a) 0) n)"
      using Some score_board.update_best[OF r, of a "(timestamp env, n)" es] by (simp add: best_def)
    ultimately show ?thesis using Some assms(2) v by (simp add: update_score_def best_def sort_entries_descending_def)
  qed
qed

theorem score_report_refines_witness:
  "\<exists>s'. update_score (signed_at 9 1) (Addr 2) ''scans'' ''weekly'' 40 ladder = (Ok (), s') \<and> best_scores le_player le_score (board_of ''scans'' ''weekly'' s') (Addr 2) = Some 40"
proof -
  have b: "boards ladder = [(''scans'', ''weekly'') \<mapsto> [\<lparr>le_player = Addr 1, le_score = 30, le_timestamp = 5, le_metadata = Map.empty\<rparr>,
     \<lparr>le_player = Addr 2, le_score = 20, le_timestamp = 6, le_metadata = Map.empty\<rparr>]]" by (simp add: ladder_def)
  obtain s' where s': "update_score (signed_at 9 1) (Addr 2) ''scans'' ''weekly'' 40 ladder = (Ok (), s')" by (simp add: update_score_def ladder_valid b upsert_def Let_def)
  have "fst (validate_category ''scans'' ladder) = Ok ()" "fst (validate_time_period ''weekly'' ladder) = Ok ()" by (simp_all add: ladder_valid)
  from score_report_refines[OF ladder_ok _ this, of "signed_at 9 1" "Addr 2" 40] s' show ?thesis by (simp add: b best_scores_def)
qed

text \<open>C37. Pages put together give the board. With a page size between 1 and 50 every page can be read, the first \<open>n\<close> pages are the first
  \<open>n * size\<close> entries of the board, the last page is the one that announces no more, and together they are what an unlimited read returns.\<close>

theorem pages_reassemble:
  fixes s t :: "'a board_store_scheme"
  assumes "(\<lambda>s s'. \<exists>env. board_step env s s')\<^sup>*\<^sup>* s t" and "boards_ok s" and "0 < sz" and "sz \<le> 50" and "get_leaderboard c p 100 t = (Ok es, t')"
  shows "\<exists>page meta. (\<forall>k. get_leaderboard_page c p k sz t = (Ok (page k, meta k), t)) \<and> (\<forall>n. concat (map page [0..<n]) = take (n * sz) es)
    \<and> (\<forall>k. pm_has_more (meta k) \<longleftrightarrow> Suc k * sz < length es) \<and> (\<forall>n. \<not> pm_has_more (meta n) \<longrightarrow> concat (map page [0..<Suc n]) = es)"
proof -
  have r: "ranked le_player le_score MAX_LEADERBOARD_ENTRIES (board_of c p t)" using board_ranked ranks.run_inv[OF assms(1,2)] by blast
  have v: "validate_category c t = (Ok (), t)" "validate_time_period p t = (Ok (), t)" and es: "es = board_of c p t"
    using assms(5) r by (auto simp: get_leaderboard_def take_range_take ranked_def validate_category_def validate_time_period_def ok_rules split: if_splits)
  have pg: "get_leaderboard_page c p k sz t = (Ok (take sz (drop (k * sz) es), \<lparr>pm_page = k, pm_page_size = sz, pm_total = length es, pm_has_more = (Suc k * sz < length es)\<rparr>), t)" for k
    using paginate_Ok[OF assms(3,4), of es k] r by (simp add: get_leaderboard_page_def v ranked_def flip: es)
  show ?thesis
    by (rule exI[of _ "\<lambda>k. take sz (drop (k * sz) es)"], rule exI[of _ "\<lambda>k. \<lparr>pm_page = k, pm_page_size = sz, pm_total = length es, pm_has_more = (Suc k * sz < length es)\<rparr>"])
      (simp only: pg concat_pages PageMeta.simps, auto)
qed

theorem pages_reassemble_witness:
  "\<exists>page meta. get_leaderboard_page ''scans'' ''weekly'' 0 1 ladder = (Ok (page 0, meta 0), ladder) \<and> get_leaderboard_page ''scans'' ''weekly'' 1 1 ladder = (Ok (page (Suc 0), meta (Suc 0)), ladder)
     \<and> pm_has_more (meta 0) \<and> page 0 @ page (Suc 0) = board_of ''scans'' ''weekly'' ladder"
proof -
  have l: "length (board_of ''scans'' ''weekly'' ladder) = 2" by (simp add: ladder_def)
  have g: "get_leaderboard ''scans'' ''weekly'' 100 ladder = (Ok (board_of ''scans'' ''weekly'' ladder), ladder)" using l by (simp add: get_leaderboard_def ladder_valid take_range_take)
  from pages_reassemble[OF rtranclp.rtrancl_refl ladder_ok _ _ g, of 1] obtain page meta where pm: "\<forall>k. get_leaderboard_page ''scans'' ''weekly'' k 1 ladder = (Ok (page k, meta k), ladder)"
    "\<forall>n. concat (map page [0..<n]) = take (n * 1) (board_of ''scans'' ''weekly'' ladder)" "\<forall>k. pm_has_more (meta k) \<longleftrightarrow> Suc k * 1 < length (board_of ''scans'' ''weekly'' ladder)" by auto
  have "page 0 @ page (Suc 0) = concat (map page [0..<2])" by (simp add: upt_rec numeral_2_eq_2)
  also have "\<dots> = board_of ''scans'' ''weekly'' ladder" using spec[OF pm(2), of 2] l by simp
  finally show ?thesis using pm(1,3) l by (intro exI[of _ page] exI[of _ meta]) (metis One_nat_def lessI mult_1_right numeral_2_eq_2)
qed

text \<open>C38. Archives are permanent. A reset by the administrator archives the board it clears under the current season; outside the seasonal
  period no later call of the module changes that archive.\<close>

theorem archive_permanent:
  fixes s t u :: "'a board_store_scheme"
  assumes "reset_leaderboard env a c p s = (Ok k, t)" and "(\<lambda>s s'. \<exists>env. board_step env s s')\<^sup>*\<^sup>* t u" and "seasons_ok s" and "p \<noteq> PERIOD_SEASONAL"
  shows "ac_admin s = Some a \<and> board_of c p t = [] \<and> k = get_current_season c p s + 1
    \<and> get_archived_leaderboard c p (get_current_season c p s) limit u = (Ok (take limit (board_of c p s)), u) \<and> get_current_season c p s < get_current_season c p u"
proof -
  note r = reset_Ok[OF assms(1)]
  have t: "seasons_ok t" using archive_step[OF board_step.reset[OF commitsI[of "reset_leaderboard env a c p", OF assms(1)]] assms(3)] by blast
  have arch: "board_archive t (c, p, get_current_season c p s) = Some (board_of c p s)" using r by simp
  from assms(2) have "seasons_ok u \<and> board_archive u (c, p, get_current_season c p s) = Some (board_of c p s)"
  proof (induction rule: rtranclp_induct)
    case base
    then show ?case using t arch by blast
  next
    case (step x y)
    then obtain env' where "board_step env' x y" by blast
    from archive_step[OF this] step(3) assms(4) show ?case by blast
  qed
  moreover have "fst (validate_category c s) = Ok ()" "fst (validate_time_period p s) = Ok ()" using assms(1) by (auto simp: reset_leaderboard_def and_then_Ok valid_Ok board_admin_Ok)
  then have "validate_category c u = (Ok (), u)" "validate_time_period p u = (Ok (), u)" using valid_anywhere(1)[of c s u] valid_anywhere(2)[of p s u] by auto
  moreover have "board_of c p t = []" using r by simp
  moreover have "get_current_season c p s < get_current_season c p u" using calculation(1) assms(4) unfolding seasons_ok_def by blast
  ultimately show ?thesis using r by (simp add: get_archived_leaderboard_def take_range_take)
qed

theorem archive_permanent_witness:
  "\<exists>t. reset_leaderboard (signed_at 10 1) (Addr 9) ''scans'' ''weekly'' ladder = (Ok 2, t)
     \<and> get_archived_leaderboard ''scans'' ''weekly'' 1 10 t = (Ok (board_of ''scans'' ''weekly'' ladder), t)"
proof -
  have st: "ac_admin ladder = Some (Addr 9)" "board_season ladder = Map.empty" "seasons_ok ladder" "length (board_of ''scans'' ''weekly'' ladder) = 2"
    by (simp_all add: ladder_def seasons_ok_def)
  have cur: "get_current_season ''scans'' ''weekly'' ladder = 1" by (simp add: get_current_season_def st)
  obtain t where t: "reset_leaderboard (signed_at 10 1) (Addr 9) ''scans'' ''weekly'' ladder = (Ok 2, t)"
    by (simp add: reset_leaderboard_def require_board_admin_def st(1) ladder_valid Let_def cur checked_add_def)
  from archive_permanent[OF t rtranclp.rtrancl_refl st(3), of 10] t st(4) cur show ?thesis by auto
qed

end
