(* ===== verification/Ship_Repair.thy ===== *)
theory Ship_Repair
  imports Ship_Upgrade
begin

text \<open>
  \<open>src/ship_repair.rs\<close>: repairs paid with harvested resources. The module's instance keys \<open>Admin\<close> and \<open>Config\<close> are unit variants that
  \<open>src/ship_upgrade.rs\<close> uses too, so they are the same entries: \<open>Admin\<close> is the field \<open>inst_admin\<close>, and \<open>Config\<close> holds one
  host map, either the upgrade blueprints or the repair prices. Two fields view it: \<open>repair_config\<close> is the map as prices, \<open>upgrade_config\<close> the
  blueprints in it. The upgrade module reads any map without checking its elements, so prices are for it a map that is present and has no
  blueprint: writing them sets \<open>upgrade_config\<close> to \<open>Some []\<close>. (Its three elements are the fields of the prices: looking one of them up as a component
  traps in the code and is an unknown component here; either way the call fails.) Reading blueprints as prices traps in the host's conversion.
\<close>

section \<open>Model\<close>

datatype ShipRepairError = RepairShipNotFound | RepairNotOwner | InsufficientResources | ShipAlreadyFull | RepairInvalidConfig | RepairCostOverflow | RepairRateLimitExceeded

fun repair_from_ship :: "ShipError \<Rightarrow> ShipRepairError" where
  "repair_from_ship ShipError.ShipNotFound = RepairShipNotFound"
| "repair_from_ship ShipError.NotOwner = RepairNotOwner"
| "repair_from_ship e = RepairCostOverflow"

record RepairConfig =
  rp_cost_per_point :: u32
  rp_emergency_surcharge_bps :: u32
  rp_max_repair_per_call :: u32

abbreviation REPAIR_BPS_DENOMINATOR :: nat where "REPAIR_BPS_DENOMINATOR \<equiv> 10000"
abbreviation DEFAULT_COST_PER_POINT :: u32 where "DEFAULT_COST_PER_POINT \<equiv> 2"
abbreviation DEFAULT_EMERGENCY_SURCHARGE_BPS :: u32 where "DEFAULT_EMERGENCY_SURCHARGE_BPS \<equiv> 5000"
abbreviation DEFAULT_MAX_REPAIR_PER_CALL :: u32 where "DEFAULT_MAX_REPAIR_PER_CALL \<equiv> 50"

definition default_repair_config :: RepairConfig where
  "default_repair_config = \<lparr>rp_cost_per_point = DEFAULT_COST_PER_POINT, rp_emergency_surcharge_bps = DEFAULT_EMERGENCY_SURCHARGE_BPS, rp_max_repair_per_call = DEFAULT_MAX_REPAIR_PER_CALL\<rparr>"

record RepairQuote =
  rq_ship_id :: u64
  rq_asset_id :: symbol
  rq_missing :: u32
  rq_restore_points :: u32
  rq_resource_cost :: u32
  rq_emergency :: bool

record RepairReceipt =
  rr_ship_id :: u64
  rr_asset_id :: symbol
  rr_durability_before :: u32
  rr_durability_after :: u32
  rr_resource_burned :: u32
  rr_emergency :: bool

record repair_store = upgrade_store +
  repair_config :: "RepairConfig option"
  repair_burned :: "u32 option"

definition repair_cost :: "u32 \<Rightarrow> RepairConfig \<Rightarrow> bool \<Rightarrow> u32" where
  "repair_cost restore_points config emergency =
    (let base = saturating_mul u64_max restore_points (rp_cost_per_point config) in
     if \<not> emergency then (if base \<le> u32_max then base else u32_max)
     else let multiplier = saturating_add u32_max REPAIR_BPS_DENOMINATOR (rp_emergency_surcharge_bps config);
         surcharged = saturating_mul u64_max base multiplier div REPAIR_BPS_DENOMINATOR
     in if surcharged \<le> u32_max then surcharged else u32_max)"

text \<open>\<open>None\<close> is the trap of the conversion when the entry holds blueprints; an absent entry gives the default.\<close>

definition get_repair_config :: "'a repair_store_scheme \<Rightarrow> RepairConfig option" where
  "get_repair_config s = (case repair_config s of
     Some config \<Rightarrow> Some config
   | None \<Rightarrow> if upgrade_config s \<noteq> None then None else Some default_repair_config)"

definition validate_repair_config :: "RepairConfig \<Rightarrow> 's \<Rightarrow> (ShipRepairError, unit) outcome \<times> 's" where
  "validate_repair_config config s =
    (if rp_cost_per_point config = 0 \<or> rp_max_repair_per_call config = 0 then (Err RepairInvalidConfig, s)
     else if rp_emergency_surcharge_bps config > REPAIR_BPS_DENOMINATOR * 10 then (Err RepairInvalidConfig, s)
     else (Ok (), s))"

definition init_repair_config :: "env \<Rightarrow> address \<Rightarrow> RepairConfig \<Rightarrow> 'a repair_store_scheme \<Rightarrow> (ShipRepairError, unit) outcome \<times> 'a repair_store_scheme" where
  "init_repair_config env admin config s =
    (if inst_admin s \<noteq> None then (Err RepairInvalidConfig, s)
     else if \<not> auth env admin then (Panic, s)
     else and_then (validate_repair_config config s) (\<lambda>_ s. (Ok (), s\<lparr>inst_admin := Some admin, upgrade_config := Some [], repair_config := Some config\<rparr>)))"

definition set_repair_config :: "env \<Rightarrow> address \<Rightarrow> RepairConfig \<Rightarrow> 'a repair_store_scheme \<Rightarrow> (ShipRepairError, unit) outcome \<times> 'a repair_store_scheme" where
  "set_repair_config env admin config s = (case inst_admin s of
     None \<Rightarrow> (Err RepairNotOwner, s)
   | Some stored \<Rightarrow>
     if \<not> auth env admin then (Panic, s)
     else if admin \<noteq> stored then (Err RepairNotOwner, s)
     else and_then (validate_repair_config config s) (\<lambda>_ s. (Ok (), s\<lparr>upgrade_config := Some [], repair_config := Some config\<rparr>)))"

definition quote_repair :: "address \<Rightarrow> u64 \<Rightarrow> symbol \<Rightarrow> bool \<Rightarrow> 'a repair_store_scheme \<Rightarrow> (ShipRepairError, RepairQuote) outcome \<times> 'a repair_store_scheme" where
  "quote_repair owner ship_id asset_id emergency s = and_then (map_err repair_from_ship (get_ship ship_id s, s)) (\<lambda>ship s.
     if sh_owner ship \<noteq> owner then (Err RepairNotOwner, s)
     else case get_repair_config s of
       None \<Rightarrow> (Panic, s)
     | Some config \<Rightarrow>
     let missing = saturating_sub (sh_max_durability ship) (sh_durability ship);
         restore_points = min missing (rp_max_repair_per_call config)
     in (Ok \<lparr>rq_ship_id = ship_id, rq_asset_id = asset_id, rq_missing = missing, rq_restore_points = restore_points,
              rq_resource_cost = repair_cost restore_points config emergency, rq_emergency = emergency\<rparr>, s))"

definition get_total_repair_burn :: "'a repair_store_scheme \<Rightarrow> u32" where
  "get_total_repair_burn s = unwrap_or (repair_burned s) 0"

text \<open>The payment: a zero price leaves the balance alone.\<close>

definition pay_repair :: "address \<Rightarrow> symbol \<Rightarrow> u32 \<Rightarrow> 'a repair_store_scheme \<Rightarrow> (ShipRepairError, unit) outcome \<times> 'a repair_store_scheme" where
  "pay_repair player asset_id cost s =
    (if cost > 0 then
       let balance = resource_balance player asset_id s in
       if balance < cost then (Err InsufficientResources, s)
       else (Ok (), s\<lparr>resource_bal := (resource_bal s)((player, asset_id) \<mapsto> balance - cost)\<rparr>)
     else (Ok (), s))"

definition paid_repair_ship :: "env \<Rightarrow> address \<Rightarrow> u64 \<Rightarrow> symbol \<Rightarrow> bool \<Rightarrow> 'a repair_store_scheme \<Rightarrow> (ShipRepairError, RepairReceipt) outcome \<times> 'a repair_store_scheme" where
  "paid_repair_ship env player ship_id asset_id emergency s =
    (if \<not> auth env player then (Panic, s)
     else and_then (map_err (\<lambda>_. RepairRateLimitExceeded) (check_rate_limit env player ShipRepair s)) (\<lambda>_ s.
     and_then (map_err repair_from_ship (get_ship ship_id s, s)) (\<lambda>ship s.
     if sh_owner ship \<noteq> player then (Err RepairNotOwner, s)
     else case get_repair_config s of
       None \<Rightarrow> (Panic, s)
     | Some config \<Rightarrow>
     let missing = saturating_sub (sh_max_durability ship) (sh_durability ship) in
     if missing = 0 then (Err ShipAlreadyFull, s)
     else let restore_points = min missing (rp_max_repair_per_call config);
         cost = repair_cost restore_points config emergency in
     and_then (pay_repair player asset_id cost s) (\<lambda>_ s.
     let durability_before = sh_durability ship;
         durability_after = saturating_add u32_max durability_before restore_points;
         s = s\<lparr>ship_tbl := (ship_tbl s)(ship_id \<mapsto> ship\<lparr>sh_durability := durability_after\<rparr>)\<rparr>;
         s = s\<lparr>repair_burned := Some (saturating_add u32_max (get_total_repair_burn s) cost)\<rparr>;
         s = publish [SS ''ship_rep'', SS ''repaired''] [SU ship_id, SA player, SS asset_id, SU cost, SB emergency, SU durability_before, SU durability_after] s
     in (Ok \<lparr>rr_ship_id = ship_id, rr_asset_id = asset_id, rr_durability_before = durability_before, rr_durability_after = durability_after, rr_resource_burned = cost,
              rr_emergency = emergency\<rparr>, s)))))"

section \<open>The shared configuration entry\<close>

text \<open>The two views agree: an entry that holds prices holds no blueprint, and prices are only ever written with an administrator stored, so the
  upgrade catalogue, whose initialisation asks for an absent administrator, cannot overwrite them.\<close>

definition config_entry_ok :: "'a repair_store_scheme \<Rightarrow> bool" where
  "config_entry_ok s \<longleftrightarrow> (repair_config s \<noteq> None \<longrightarrow> inst_admin s \<noteq> None \<and> upgrade_config s = Some [])"

lemma config_entry_kept:
  "config_entry_ok s \<Longrightarrow> init_upgrade_config env a bs s = (Ok u, s') \<Longrightarrow> config_entry_ok s'"
  "config_entry_ok s \<Longrightarrow> init_repair_config env a c s = (Ok u, s') \<Longrightarrow> config_entry_ok s'"
  "config_entry_ok s \<Longrightarrow> set_repair_config env a c s = (Ok u, s') \<Longrightarrow> config_entry_ok s'"
  by (auto simp: config_entry_ok_def init_upgrade_config_def init_repair_config_def set_repair_config_def and_then_Ok validate_repair_config_def ok_rules split: if_splits)

lemma no_blueprint_no_upgrade:
  assumes "upgrade_config s = Some []"
  shows "\<not> commits (apply_upgrade env p i c) s t"
    and "auth env p \<Longrightarrow> i \<noteq> 0 \<Longrightarrow> check_rate_limit env p ShipUpgrade s = (Ok (), w) \<Longrightarrow> fst (apply_upgrade env p i c s) = Err UnknownComponent"
proof -
  have keep: "upgrade_config w = Some []" if "check_rate_limit env p ShipUpgrade s = (Ok u, w)" for w u
    using that assms by (auto simp: check_rate_Ok Let_def)
  show "\<not> commits (apply_upgrade env p i c) s t" using keep by (auto elim!: commitsE simp: apply_upgrade_def apply_upgrade_inner_def and_then_Ok map_err_Ok ok_rules)
  show "auth env p \<Longrightarrow> i \<noteq> 0 \<Longrightarrow> check_rate_limit env p ShipUpgrade s = (Ok (), w) \<Longrightarrow> fst (apply_upgrade env p i c s) = Err UnknownComponent"
    using keep by (simp add: apply_upgrade_def apply_upgrade_inner_def)
qed

section \<open>What a repair does\<close>

lemma repair_cost_exact: "n * rp_cost_per_point c \<le> u32_max \<Longrightarrow> repair_cost n c False = n * rp_cost_per_point c"
  by (simp add: repair_cost_def saturating_mul_def Let_def)

text \<open>The surcharged price is the proportional price scaled up, rounded down.\<close>

lemma emergency_cost_exact:
  assumes "n * rp_cost_per_point c * (10000 + rp_emergency_surcharge_bps c) \<le> u32_max" and "rp_emergency_surcharge_bps c \<le> 100000"
  shows "repair_cost n c True = n * rp_cost_per_point c * (10000 + rp_emergency_surcharge_bps c) div 10000"
proof -
  let ?b = "n * rp_cost_per_point c" and ?m = "10000 + rp_emergency_surcharge_bps c"
  have "?b * 1 \<le> ?b * ?m" by (rule mult_le_mono2) simp
  then have "?b \<le> u64_max" "?b * ?m \<le> u64_max" using assms(1) by linarith+
  moreover have "?b * ?m div 10000 \<le> u32_max" using assms(1) div_le_dividend le_trans by blast
  ultimately show ?thesis using assms(2) by (simp add: repair_cost_def saturating_mul_def saturating_add_def Let_def min_absorb2)
qed

lemma publish_repair [simp]: "ship_tbl (publish t d s) = ship_tbl s" "resource_bal (publish t d s) = resource_bal s" "repair_burned (publish t d s) = repair_burned s"
  "ship_lock (publish t d s) = ship_lock s" "ships_ok (publish t d s) = ships_ok s"
  by (simp_all add: publish_def ships_ok_def get_ships_by_owner_def)

lemma get_ship_Ok: "map_err f (get_ship i s, s) = (Ok ship, t) \<longleftrightarrow> ship_tbl s i = Some ship \<and> t = s"
  by (auto simp: get_ship_def split: option.splits)

lemma pay_Ok: "pay_repair p x n s = (Ok u, s') \<Longrightarrow> n \<le> resource_balance p x s
    \<and> (s' = s \<and> n = 0 \<or> s' = s\<lparr>resource_bal := (resource_bal s)((p, x) \<mapsto> resource_balance p x s - n)\<rparr>)"
  by (auto simp: pay_repair_def ok_rules Let_def split: if_splits)

lemma pay_effect:
  assumes "pay_repair p x n s = (Ok u, s')"
  shows "resource_balance p x s' + n = resource_balance p x s" "k \<noteq> (p, x) \<Longrightarrow> resource_bal s' k = resource_bal s k"
    "ship_tbl s' = ship_tbl s" "repair_burned s' = repair_burned s" "ship_inv s' = ship_inv s"
    "finite (dom (resource_bal s)) \<Longrightarrow> msum (resource_bal s') + n = msum (resource_bal s)"
proof -
  note q = pay_Ok[OF assms]
  show "resource_balance p x s' + n = resource_balance p x s" using q by (auto simp: resource_balance_def)
  show "k \<noteq> (p, x) \<Longrightarrow> resource_bal s' k = resource_bal s k" "ship_tbl s' = ship_tbl s" "repair_burned s' = repair_burned s" "ship_inv s' = ship_inv s"
    using q by (auto simp: ship_inv_def ships_ok_def get_ships_by_owner_def)
  show "finite (dom (resource_bal s)) \<Longrightarrow> msum (resource_bal s') + n = msum (resource_bal s)"
    using q msum_upd[of "resource_bal s" "(p, x)" "resource_balance p x s - n"] by (auto simp: resource_balance_def)
qed

lemma rate_frame:
  assumes "check_rate_limit env p op (s :: 'a repair_store_scheme) = (Ok u, t)"
  shows "ship_tbl t = ship_tbl s" "resource_bal t = resource_bal s" "repair_burned t = repair_burned s" "upgrade_config t = upgrade_config s" "repair_config t = repair_config s" "ship_inv t = ship_inv s"
  using assms by (auto simp: check_rate_Ok Let_def ship_inv_def ships_ok_def get_ships_by_owner_def)

lemma paid_repair_Ok:
  assumes "paid_repair_ship env p i x e s = (Ok r, s')"
  obtains t u ship c n where "auth env p" and "check_rate_limit env p ShipRepair s = (Ok (), t)" and "ship_tbl s i = Some ship" and "sh_owner ship = p" and "get_repair_config s = Some c"
    and "sh_durability ship < sh_max_durability ship" and "n = min (sh_max_durability ship - sh_durability ship) (rp_max_repair_per_call c)"
    and "pay_repair p x (repair_cost n c e) t = (Ok (), u)" and "ship_tbl s' = (ship_tbl u)(i \<mapsto> ship\<lparr>sh_durability := rr_durability_after r\<rparr>)"
    and "resource_bal s' = resource_bal u" and "repair_burned s' = Some (min u32_max (get_total_repair_burn u + repair_cost n c e))"
    and "rr_durability_before r = sh_durability ship" and "rr_durability_after r = min u32_max (sh_durability ship + n)" and "rr_resource_burned r = repair_cost n c e"
    and "ship_inv s' = ship_inv (u\<lparr>ship_tbl := (ship_tbl u)(i \<mapsto> ship\<lparr>sh_durability := rr_durability_after r\<rparr>)\<rparr>)"
proof -
  from assms obtain t where a: "auth env p" and t: "check_rate_limit env p ShipRepair s = (Ok (), t)" by (auto simp: paid_repair_ship_def and_then_Ok map_err_Ok split: if_splits)
  note fr = rate_frame[OF t]
  have cfg: "get_repair_config t = get_repair_config s" unfolding get_repair_config_def fr ..
  from assms a t obtain ship c where sh: "ship_tbl s i = Some ship" "sh_owner ship = p" "get_repair_config s = Some c" "sh_durability ship < sh_max_durability ship"
      and k: "and_then (pay_repair p x (repair_cost (min (sh_max_durability ship - sh_durability ship) (rp_max_repair_per_call c)) c e) t) (\<lambda>_ s.
       let durability_before = sh_durability ship;
           durability_after = saturating_add u32_max durability_before (min (sh_max_durability ship - sh_durability ship) (rp_max_repair_per_call c));
           cost = repair_cost (min (sh_max_durability ship - sh_durability ship) (rp_max_repair_per_call c)) c e;
           s = s\<lparr>ship_tbl := (ship_tbl s)(i \<mapsto> ship\<lparr>sh_durability := durability_after\<rparr>)\<rparr>;
           s = s\<lparr>repair_burned := Some (saturating_add u32_max (get_total_repair_burn s) cost)\<rparr>;
           s = publish [SS ''ship_rep'', SS ''repaired''] [SU i, SA p, SS x, SU cost, SB e, SU durability_before, SU durability_after] s
       in (Ok \<lparr>rr_ship_id = i, rr_asset_id = x, rr_durability_before = durability_before, rr_durability_after = durability_after, rr_resource_burned = cost, rr_emergency = e\<rparr>, s)) = (Ok r, s')"
    by (auto simp: paid_repair_ship_def and_then_Ok map_err_Ok[symmetric] get_ship_Ok fr(1) cfg ok_guard ok_lookup Let_def saturating_sub_def simp del: map_err_Ok)
  from k obtain u where u: "pay_repair p x (repair_cost (min (sh_max_durability ship - sh_durability ship) (rp_max_repair_per_call c)) c e) t = (Ok (), u)" by (auto simp: and_then_Ok)
  show thesis
    by (rule that[OF a t sh(1,2,3,4) refl u]; insert k u; clarsimp simp: Let_def saturating_add_def get_total_repair_burn_def ship_inv_def ships_ok_def get_ships_by_owner_def)
qed

section \<open>A dock\<close>

text \<open>Player 2 owns ship 1 with 30 of 100 durability points and 100 units of gas; nothing has been configured.\<close>

definition hulk :: ShipNft where
  "hulk = \<lparr>sh_id = 1, sh_owner = Addr 2, sh_type = ''fighter'', sh_hull = fst (stats_for_type ''fighter''), sh_scanner_power = snd (stats_for_type ''fighter''), sh_durability = 30,
     sh_max_durability = 100, sh_metadata = [], sh_metadata_uri = []\<rparr>"

definition dock :: repair_store where
  "dock = (upgrade_store.extend shipyard \<lparr>repair_config = None, repair_burned = None\<rparr>)
     \<lparr>upgrade_config := None, inst_admin := None, ship_lock := None, ship_counter := Some 1, ship_tbl := [1 \<mapsto> hulk], owner_ships := [Addr 2 \<mapsto> [1]]\<rparr>"

lemma dock_simps: "ship_tbl dock = [1 \<mapsto> hulk]" "upgrade_config dock = None" "repair_config dock = None" "repair_burned dock = None" "inst_admin dock = None"
    "resource_bal dock = [(Addr 2, ''gas'') \<mapsto> 100]" "rate_entry dock = Map.empty" "rate_config dock = Map.empty"
  by (simp_all add: dock_def upgrade_store.defs shipyard_simps)

lemma dock_entry: "config_entry_ok dock"
  by (simp add: config_entry_ok_def dock_simps)

lemma dock_inv: "ship_inv dock"
  by (auto simp: ship_inv_def ships_ok_def index_ok_def dock_def upgrade_store.defs get_ships_by_owner_def hulk_def is_valid_ship_type_def split: if_splits)

section \<open>Properties\<close>

text \<open>C39. A paid repair. A successful repair was asked for and signed by the ship's owner; it restores the missing durability up to the limit per call,
  the same limit for a normal and an emergency repair although the module's documentation lets the emergency repair restore more, and never beyond the
  ship's maximum, at exactly the price a quote announces beforehand; that price leaves the owner's balance and all
  balances together, no other balance and no other ship changes, the burn counter grows by it, and the ship registry stays consistent.\<close>

theorem repair_priced:
  fixes s :: "'a repair_store_scheme"
  assumes "ship_inv s" and "finite (dom (resource_bal s))" and "paid_repair_ship env p i x e s = (Ok r, s')"
  shows "\<exists>ship c q. auth env p \<and> ship_tbl s i = Some ship \<and> sh_owner ship = p \<and> get_repair_config s = Some c \<and> quote_repair p i x e s = (Ok q, s)
    \<and> rr_resource_burned r = rq_resource_cost q \<and> rq_restore_points q = min (sh_max_durability ship - sh_durability ship) (rp_max_repair_per_call c)
    \<and> ship_tbl s' = (ship_tbl s)(i \<mapsto> ship\<lparr>sh_durability := min u32_max (sh_durability ship + rq_restore_points q)\<rparr>) \<and> sh_durability ship + rq_restore_points q \<le> sh_max_durability ship
    \<and> resource_balance p x s' + rr_resource_burned r = resource_balance p x s \<and> (\<forall>k. k \<noteq> (p, x) \<longrightarrow> resource_bal s' k = resource_bal s k)
    \<and> msum (resource_bal s') + rr_resource_burned r = msum (resource_bal s)
    \<and> get_total_repair_burn s' = min u32_max (get_total_repair_burn s + rr_resource_burned r) \<and> ship_inv s'"
  using assms(3)
proof (rule paid_repair_Ok)
  fix t u ship c n
  assume a: "auth env p" and t: "check_rate_limit env p ShipRepair s = (Ok (), t)" and sh: "ship_tbl s i = Some ship" "sh_owner ship = p" "get_repair_config s = Some c"
    and n: "sh_durability ship < sh_max_durability ship" "n = min (sh_max_durability ship - sh_durability ship) (rp_max_repair_per_call c)"
    and pay: "pay_repair p x (repair_cost n c e) t = (Ok (), u)" and tbl: "ship_tbl s' = (ship_tbl u)(i \<mapsto> ship\<lparr>sh_durability := rr_durability_after r\<rparr>)"
    and res: "resource_bal s' = resource_bal u" "repair_burned s' = Some (min u32_max (get_total_repair_burn u + repair_cost n c e))"
    and r: "rr_durability_after r = min u32_max (sh_durability ship + n)" "rr_resource_burned r = repair_cost n c e"
    and inv: "ship_inv s' = ship_inv (u\<lparr>ship_tbl := (ship_tbl u)(i \<mapsto> ship\<lparr>sh_durability := rr_durability_after r\<rparr>)\<rparr>)"
  note fr = rate_frame[OF t] and pe = pay_effect[OF pay]
  define q where "q = \<lparr>rq_ship_id = i, rq_asset_id = x, rq_missing = sh_max_durability ship - sh_durability ship, rq_restore_points = n, rq_resource_cost = repair_cost n c e, rq_emergency = e\<rparr>"
  have quote: "quote_repair p i x e s = (Ok q, s)" using sh n(2) by (simp add: quote_repair_def get_ship_def saturating_sub_def q_def Let_def)
  have top: "sh_durability ship + n \<le> sh_max_durability ship" using n by auto
  have iu: "ship_inv u" using assms(1) fr(6) pe(5) by simp
  have "ship_tbl u i = Some ship" using sh(1) fr(1) pe(3) by simp
  then have "ships_ok (u\<lparr>ship_tbl := (ship_tbl u)(i \<mapsto> ship\<lparr>sh_durability := rr_durability_after r\<rparr>)\<rparr>)" using iu top r(1) by (intro ships_ok_field) (auto simp: ship_inv_def)
  then have "ship_inv s'" using iu unfolding inv by (simp add: ship_inv_def)
  moreover have "resource_balance p x s' + rr_resource_burned r = resource_balance p x s" using pe(1) by (simp add: resource_balance_def res fr(2) r(2))
  moreover have "msum (resource_bal s') + rr_resource_burned r = msum (resource_bal s)" using pe(6) assms(2) by (simp add: res fr(2) r(2))
  moreover have "get_total_repair_burn s' = min u32_max (get_total_repair_burn s + rr_resource_burned r)" by (simp add: get_total_repair_burn_def res r(2) pe(4) fr(3))
  moreover have "ship_tbl s' = (ship_tbl s)(i \<mapsto> ship\<lparr>sh_durability := min u32_max (sh_durability ship + n)\<rparr>)" by (simp add: tbl pe(3) fr(1) r(1))
  moreover have "\<forall>k. k \<noteq> (p, x) \<longrightarrow> resource_bal s' k = resource_bal s k" using pe(2) by (simp add: res fr(2))
  ultimately show ?thesis using a sh quote top r(2) n(2) by (intro exI[of _ ship] exI[of _ c] exI[of _ q]) (simp add: q_def)
qed

theorem repair_priced_witness:
  "\<exists>r s'. paid_repair_ship (signed_at 50 1) (Addr 2) 1 ''gas'' False dock = (Ok r, s') \<and> resource_balance (Addr 2) ''gas'' s' + rr_resource_burned r = 100 \<and> ship_inv s'"
proof -
  obtain t where t: "check_rate_limit (signed_at 50 1) (Addr 2) ShipRepair dock = (Ok (), t)"
    by (simp add: check_rate_Ok Let_def dock_simps default_ship_repair_def)
  note fr = rate_frame[OF t]
  obtain r s' where k: "paid_repair_ship (signed_at 50 1) (Addr 2) 1 ''gas'' False dock = (Ok r, s')"
    by (simp add: paid_repair_ship_def t get_ship_def fr dock_simps hulk_def get_repair_config_def default_repair_config_def saturating_sub_def repair_cost_def saturating_mul_def Let_def
        pay_repair_def resource_balance_def del: One_nat_def)
  have "finite (dom (resource_bal dock))" "resource_balance (Addr 2) ''gas'' dock = 100" by (simp_all add: dock_simps resource_balance_def)
  with repair_priced[OF dock_inv _ k] k show ?thesis by auto
qed

text \<open>C40. Upgrades and repairs exclude each other. Both modules keep their configuration in the instance entry \<open>Config\<close>: once the upgrade catalogue is
  initialised every repair and every repair quote fails and the repair module cannot be initialised any more. The one call that makes repairs
  possible again is the administrator's change of the repair prices. It replaces the catalogue by the prices: the upgrade module still
  finds a configuration, but no upgrade commits any more, each component (other than the names of the three price fields, which trap) being unknown, and the
  catalogue cannot be initialised again.\<close>

theorem upgrades_block_repairs:
  fixes s :: "'a repair_store_scheme"
  assumes "config_entry_ok s" and "init_upgrade_config env a bs s = (Ok u, s')"
  shows "(\<nexists>env' p i x e t. commits (paid_repair_ship env' p i x e) s' t) \<and> (\<nexists>p i x e t. commits (quote_repair p i x e) s' t) \<and> (\<nexists>env' b c t. commits (init_repair_config env' b c) s' t)
    \<and> (\<forall>env' b c t. commits (set_repair_config env' b c) s' t \<longrightarrow> b = a \<and> get_repair_config t = Some c \<and> get_upgrade_config t \<noteq> None
        \<and> (\<nexists>env2 p i k v. commits (apply_upgrade env2 p i k) t v) \<and> (\<nexists>env2 b2 bs2 v. commits (init_upgrade_config env2 b2 bs2) t v)
        \<and> (\<forall>env2 p i k w. auth env2 p \<and> i \<noteq> 0 \<and> k \<notin> {''cost_per_point'', ''emergency_surcharge_bps'', ''max_repair_per_call''}
             \<and> check_rate_limit env2 p ShipUpgrade t = (Ok (), w) \<longrightarrow> fst (apply_upgrade env2 p i k t) = Err UnknownComponent))"
proof -
  have s': "upgrade_config s' \<noteq> None" "inst_admin s' = Some a" "repair_config s' = None"
    using assms by (auto simp: init_upgrade_config_def config_entry_ok_def ok_rules)
  have none: "get_repair_config s' = None" using s' by (simp add: get_repair_config_def)
  have "\<not> commits (paid_repair_ship env' p i x e) s' t" for env' p i x e t
    using none by (auto elim!: commitsE paid_repair_Ok)
  moreover have "\<not> commits (quote_repair p i x e) s' t" for p i x e t
    using none by (auto elim!: commitsE simp: quote_repair_def and_then_Ok get_ship_Ok ok_rules)
  moreover have "\<not> commits (init_repair_config env' b c) s' t" for env' b c t
    using s'(2) by (auto elim!: commitsE simp: init_repair_config_def)
  moreover have t: "b = a \<and> get_repair_config t = Some c \<and> upgrade_config t = Some [] \<and> inst_admin t = Some a" if "commits (set_repair_config env' b c) s' t" for env' b c t
    using that s'(2) by (auto elim!: commitsE simp: set_repair_config_def and_then_Ok validate_repair_config_def get_repair_config_def ok_rules split: if_splits)
  moreover have "\<not> commits (init_upgrade_config env2 b2 bs2) t v" if "inst_admin t = Some a" for env2 b2 bs2 t and v :: "'a repair_store_scheme"
    using that by (auto elim!: commitsE simp: init_upgrade_config_def)
  ultimately show ?thesis using no_blueprint_no_upgrade unfolding get_upgrade_config_def by (metis option.distinct(1))
qed

theorem upgrades_block_repairs_witness:
  "\<exists>s'. init_upgrade_config (signed_at 5 1) (Addr 1) [(''gun'', \<lparr>ub_asset_id = ''gas'', ub_resource_cost = 20, ub_mass = 30, ub_scanner_bonus = 0, ub_hull_bonus = 5, ub_regen_bonus = 0\<rparr>)] dock = (Ok (), s') \<and> (\<nexists>t. commits (paid_repair_ship (signed_at 50 1) (Addr 2) 1 ''gas'' False) s' t)"
proof -
  obtain s' where k: "init_upgrade_config (signed_at 5 1) (Addr 1) [(''gun'', \<lparr>ub_asset_id = ''gas'', ub_resource_cost = 20, ub_mass = 30, ub_scanner_bonus = 0, ub_hull_bonus = 5, ub_regen_bonus = 0\<rparr>)] dock = (Ok (), s')"
    by (simp add: init_upgrade_config_def dock_simps)
  have "\<not> commits (paid_repair_ship (signed_at 50 1) (Addr 2) 1 ''gas'' False) s' t" for t using upgrades_block_repairs[OF dock_entry k, THEN conjunct1] by blast
  then show ?thesis using k by blast
qed

end
