(* ===== verification/Spec2Isabelle.thy ===== *)
theory Spec2Isabelle
  imports Dao Nft_Marketplace Yield_Farming Dynamic_Pricing Pvp_Combat Leaderboards Ship_Repair
begin

text \<open>
  \<^bold>\<open>Stellar Nebula Nomad: a verification of the contract's modules.\<close>

  The program is one Soroban smart contract written in Rust (\<open>src/src\<close>). Its modules keep their state in the
  contract's storage under keys of their own and call each other directly; \<open>lib.rs\<close> exposes them as entry points. An
  invocation that returns an error or traps leaves no trace in storage.

  \<^bold>\<open>How the code is rendered.\<close> The storage is one record that grows with the theories. \<open>host\<close> (Prelude) holds the
  event log; each component extends the record of the component it imports with one field per storage key, a map from
  the key's arguments to the stored value, or an option for a key without arguments: guard, ship, vault, escrow, bond,
  energy, emergency, governance, anti-whale, orders, pools, access control, rate limits, nebulae, minter, burns, offers, alliances,
  stakes; from the stakes the chain goes on to the DAO, and to upgrades with farming and repairs. Prices extend the offers,
  combats and leaderboards extend access control, and fraud, reputation and the marketplace form a chain of their own on the event log.
  A key without arguments that several modules declare under one name is one entry of the contract's storage, and then one field:
  the instance key \<open>Admin\<close> (\<open>inst_admin\<close>), the persistent key \<open>Admin\<close> (\<open>ac_admin\<close>), the instance key \<open>Config\<close> of upgrades and repairs.
  Every operation is polymorphic in the rest of the record, so it runs unchanged on the storage of any later component.
  An operation maps the storage to an \<open>outcome\<close> (\<open>Ok\<close> with its value, \<open>Err\<close> with the module's error enum, \<open>Panic\<close>
  for a trap) and the storage it leaves; \<open>and_then\<close> is the \<open>?\<close> operator. What a call reads of its surroundings (time,
  ledger number, who signed) is the \<open>env\<close> argument; \<open>require_auth\<close> of an unsigned address is \<open>Panic\<close>. The
  storage after a failed call is what the host discards: step relations and \<open>commits\<close> only see \<open>Ok\<close>.
  Integers are \<open>nat\<close> and \<open>int\<close> with the range checks written out (\<open>checked_add\<close>, \<open>saturating_add\<close>, \<open>ck\<close> for
  \<open>i128\<close>, with \<open>Panic\<close> where release builds of the contract trap on overflow); where the code computes modulo a power
  of two (seed mixing, packing) they are \<open>64 word\<close> and \<open>128 word\<close>.

  \<^bold>\<open>The theories.\<close>
  \<^item> \<open>Prelude\<close>: integers, outcomes, events, tables and their sums, and the interfaces: \<open>id_counter\<close> (allocating
    identifiers), \<open>balance_ledger\<close>, \<open>step_system\<close> and \<open>monotone_system\<close> (runs of committed calls). Each is interpreted by
    the components that provide it.
  \<^item> \<open>Reentrancy_Guard\<close> (\<open>reentrancy_guard.rs\<close>): the lock and \<open>with_guard\<close>, as an interpretation of \<open>mutex\<close>.
  \<^item> \<open>Ship_Nft\<close> (\<open>ship_nft.rs\<close>): ships and the owner index; the index invariant, ownership safety, and the refinement of
    an abstract registry.
  \<^item> \<open>Treasure_Vault\<close>, \<open>Escrow_Trader\<close>, \<open>Nomad_Bonding\<close>, \<open>Energy_Manager\<close>, \<open>Emergency_Controls\<close> (the files of the same
    names): time locks pay once, a completed escrow goes back to the call that opened it and to a confirmation of it, each signed by its trader, and stays final, essence is conserved,
    energy is bounded, a pause is lifted only after the delay.
  \<^item> \<open>Governance\<close> (\<open>governance.rs\<close>): totals are the sums of the published ballots; finalising.
  \<^item> \<open>Anti_Whale\<close> (\<open>economics/anti_whale.rs\<close>): the band loop against a closed form, the fee bound, exact daily caps,
    sorted tier leaderboards.
  \<^item> \<open>Limit_Orders\<close> and \<open>Amm\<close> (\<open>trading.rs\<close>): the order book and its index; constant-product pools: swaps never lower
    the product of reserves, LP shares are solvent, adding and removing liquidity gains nothing, the square root is exact.
  \<^item> \<open>Access_Control\<close> (\<open>access_control.rs\<close>): what a permission check decides, who can change rights, the multi-signature
    threshold.
  \<^item> \<open>Gas_Compute\<close> (\<open>gas_optimized_compute.rs\<close>): mixing is a bijection with an explicit inverse; unrolled loops and
    the binary search against their references.
  \<^item> \<open>Rate_Limiter\<close> (\<open>rate_limiter.rs\<close>): how many calls of one caller can pass in an interval as long as the window.
  \<^item> \<open>Nebula_Gen\<close> (\<open>nebula_gen.rs\<close>): the chunked generator against the plain list of anomalies; lifetimes of layouts.
  \<^item> \<open>Resource_Minter\<close> (\<open>resource_minter.rs\<close>, with the packing of \<open>storage_optim.rs\<close> and the cell types of
    \<open>nebula_explorer.rs\<close>) and \<open>Token_Burning\<close> (\<open>token_burning.rs\<close>): the minted and harvested ledgers; supply, balances
    and burn counters balance; a transfer charges exactly the fee.
  \<^item> \<open>Dex_Integration\<close> (\<open>dex_integration.rs\<close> and the listing half of \<open>resource_minter.rs\<close>): offers with escrow; trading
    neither creates nor destroys assets.
  \<^item> \<open>Dynamic_Pricing\<close> (\<open>dynamic_pricing.rs\<close> and \<open>list_at_market\<close> of \<open>dex_integration.rs\<close>): the published price exists and stays in its
    band around the moving average; who can print, and what a first, an accepted and a discarded print do.
  \<^item> \<open>Alliance_Manager\<close> (\<open>alliance_manager.rs\<close>, \<open>guild_quests.rs\<close>, the name check of \<open>input_validation.rs\<close>): membership is kept twice and
    agrees; the level loop terminates with the exact remainder.
  \<^item> \<open>Staking\<close> and \<open>Guild_Rewards\<close> (\<open>staking.rs\<close>): totals are sums of stakes, and what the two ways out of a stake pay; what guild stakes can be paid against what was funded, for
    runs whose amounts stay below \<open>2 ^ 90\<close>, far from the range of \<open>i128\<close>.
  \<^item> \<open>Dao\<close> (\<open>dao.rs\<close>, which \<open>lib.rs\<close> does not include): the life of a proposal, whose execution consults no quorum. The contract's own address is an argument.
  \<^item> \<open>Newton_Sqrt\<close>, \<open>Apy_Calculator\<close> (\<open>economics/apy_calculator.rs\<close>), \<open>Progression_Model\<close> (\<open>economics/progression_model.rs\<close>): arithmetic without
    storage: the square root shared by pools and yields, yields and impermanent loss, level cost curves and the time to a level.
  \<^item> \<open>Ship_Upgrade\<close> (\<open>ship_upgrade.rs\<close>), \<open>Ship_Repair\<close> (\<open>ship_repair.rs\<close>) and \<open>Yield_Farming\<close> (\<open>yield_farming.rs\<close>): module and level limits and
    what they cost; repairs at the quoted price, and how the two modules exclude each other through their common configuration entry; farming
    conserves units and pays no stake more than its yield, and when an exit fails.
  \<^item> \<open>Fraud_Detection\<close>, \<open>Reputation\<close>, \<open>Nft_Marketplace\<close> (the files of the same names): blocks need anomalies, scores stay in range, bids rise by the rounded increment,
    sales are exact, indexes agree with listings. The loss of a fraud window in temporary storage is a step. No entry point of \<open>lib.rs\<close>
    reaches the marketplace.
  \<^item> \<open>Pvp_Combat\<close> (\<open>pvp_combat.rs\<close>): combats, counters and histories agree; rating changes are bounded for any double arithmetic that
    rounds as documented (a parameter, with the functions of the \<open>libm\<close> crate); a combat past its time is stuck.
  \<^item> \<open>Leaderboards\<close> (\<open>leaderboards.rs\<close>): a board refines a map of best scores, through the contract \<open>ranking\<close> that the four boards
    interpret; the exchange sort sorts; pages reassemble; archives are permanent.
  \<^item> This theory: the administrator entry that the role registry, the combats and the leaderboards share.

  \<^bold>\<open>How the components interact.\<close> The guard wraps the entry points that the code wraps. Harvesting and minting go
  through the rate limiter, the nebula layouts and the anti-whale limits; placing orders and swapping through the
  anti-whale limits; the exchange calls harvesting, the wallets and the order book, and the market listing asks the price module.
  Upgrades and repairs go through the rate limiter and spend harvested balances; farming reads ship levels, holds staked ships
  (which the registry then refuses to transfer) and pool shares, and pays from harvested balances. A score report is mirrored onto the
  tier boards of the anti-whale module. The marketplace asks reputation for discounts and fraud detection for blocks.
  Components that call others prove what those calls leave alone (\<open>mint_view\<close>, \<open>burn_view\<close>, \<open>tables\<close>, \<open>upgrade_view\<close>, \<open>marks\<close>)
  and compose.

  \<^bold>\<open>Loops and bounds.\<close> Loops over stored vectors are structural recursion or folds over index ranges. The square-root loop
  is a function with a termination proof: the iterate decreases; so are the level-up loop of the alliances and the affordable-level
  loop of the progression model, each with a measure. \<open>has_permission\<close> follows at most five parents, as the code does; the
  offer scan looks at no more than 200 identifiers, the bound of the code, which is its recursion argument. The
  diminishing-returns loop runs over the five bands of the code, the price history keeps 24 points. No definition uses fuel beyond
  these bounds.

  \<^bold>\<open>Not modelled.\<close> The expiry of stored entries (time to live and archival, the fraud window excepted) and fees of the host; the
  host's refusal of a second \<open>require_auth\<close> of one address in a call (\<open>require_auth\<close> is a predicate here, so the resource withdrawals of the farm and
  \<open>resolve_report\<close>, which ask for one signature twice, may succeed in the model); the audit-log calls
  and the one-line wrappers of \<open>lib.rs\<close>; key collisions with unmodelled modules, and that of the tuple keys of votes between \<open>governance.rs\<close> and \<open>dao.rs\<close>; the modules for tournaments (which \<open>lib.rs\<close> does not
  include), seasons, quests, achievements, events, crafting, games and loot, navigation, the bridge, analytics and maintenance: they
  keep records of their own that no modelled operation reads; services and clients outside the contract.
\<close>

section \<open>Properties across components\<close>

text \<open>One administrator for three modules. The role registry, the combat module and the leaderboards keep their administrator under the
  same storage key, and each has an initialiser that any signer may call first: the first of the three to commit decides for all,
  none of the three can commit afterwards, and exactly its caller then passes the administrator checks of the combats and the
  leaderboards and can grant roles.\<close>

lemma administrator_entry_shared:
  fixes s :: "'a board_store_scheme"
  assumes "commits (init_roles env a) s s' \<or> commits (set_pvp_admin env a) s s' \<or> commits (set_board_admin env a) s s'"
  shows "auth env a \<and> ac_admin s = None
    \<and> (\<forall>env' b t. \<not> commits (init_roles env' b) s' t \<and> \<not> commits (set_pvp_admin env' b) s' t \<and> \<not> commits (set_board_admin env' b) s' t)
    \<and> (\<forall>env' b. (commits (require_pvp_admin env' b) s' s' \<longleftrightarrow> auth env' b \<and> b = a) \<and> (commits (require_board_admin env' b) s' s' \<longleftrightarrow> auth env' b \<and> b = a)
        \<and> (\<forall>role g. (\<exists>t. commits (grant_role env' b role g None) s' t \<and> has_role env' role g t) \<longleftrightarrow> auth env' b \<and> b = a))"
proof -
  have s': "auth env a" "ac_admin s = None" "ac_admin s' = Some a"
    using assms by (auto elim!: commitsE simp: init_roles_def set_role_record_def register_known_role_def set_pvp_admin_def set_board_admin_def ok_rules Let_def)
  have "(\<exists>t. commits (grant_role env' b role g None) s' t \<and> has_role env' role g t) \<longleftrightarrow> auth env' b \<and> b = a" for env' b role g
    using s'(3) by (auto simp: commits_iff grant_role_def admin_only_def expiry_passed_def has_role_def set_role_record_def new_role_record_def publish_def ok_rules Let_def)
  then show ?thesis using s' by (auto simp: commits_iff init_roles_def set_pvp_admin_def set_board_admin_def require_pvp_admin_def require_board_admin_def ok_rules Let_def)
qed

lemma administrator_entry_shared_example:
  "\<exists>s'. commits (set_pvp_admin (signed_at 5 1) (Addr 7)) (no_boards\<lparr>ac_admin := None\<rparr>) s' \<and> (\<exists>t. commits (grant_role (signed_at 6 2) (Addr 7) admin_role (Addr 7) None) s' t)
     \<and> (\<nexists>t. commits (init_roles (signed_at 6 2) (Addr 1)) s' t)"
proof -
  obtain s' where s': "commits (set_pvp_admin (signed_at 5 1) (Addr 7)) (no_boards\<lparr>ac_admin := None\<rparr>) s'" by (simp add: commits_iff set_pvp_admin_def)
  note k = administrator_entry_shared[OF disjI2[OF disjI1[OF s']]]
  have "\<exists>t. commits (grant_role (signed_at 6 2) (Addr 7) admin_role (Addr 7) None) s' t" using k signed_at_simps(3) by blast
  moreover have "\<nexists>t. commits (init_roles (signed_at 6 2) (Addr 1)) s' t" using k by blast
  ultimately show ?thesis using s' by blast
qed

end
